(* ===== verification/Warden_Prelude.thy ===== *)
theory Warden_Prelude
  imports Complex_Main "HOL-Library.Word" "HOL-Library.AList" "HOL-Library.Char_ord"
    "HOL-Library.List_Lexorder" "HOL-Library.Multiset"
begin

text \<open>
  Shared vocabulary of the development: Go's time values, maps, strings and
  decimal printing as the warden sources use them, the quorum arithmetic every
  safety argument rests on, and the theorem collections the component theories
  fill.

  \<^item> A \<open>time.Time\<close> is the number of nanoseconds since Go's zero time, so the
    zero value is \<open>0\<close>; a \<open>time.Duration\<close> is an integer number of
    nanoseconds. \<open>Time.Sub\<close> saturates at the ends of the int64 range.
  \<^item> A Go map is an association list with distinct keys. The order of the list
    stands for one iteration order of the map; nothing is assumed of it, so a
    theorem about every list covers every iteration order.
  \<^item> A Go string is a list of bytes, ordered lexicographically.
\<close>

named_theorems frame_simps
  \<open>equations saying which fields of a state an operation leaves alone\<close>

named_theorems status_simps
  \<open>distinctness of the string constants of the domain types\<close>

subsection \<open>Time\<close>

type_synonym time = int
type_synonym duration = int

definition minDuration :: duration where
  "minDuration = - (2 ^ 63)"

definition maxDuration :: duration where
  "maxDuration = 2 ^ 63 - 1"

definition time_Sub :: "time \<Rightarrow> time \<Rightarrow> duration" where
  "time_Sub t u = max minDuration (min maxDuration (t - u))"

definition IsZero :: "time \<Rightarrow> bool" where
  "IsZero t \<longleftrightarrow> t = 0"

definition wrap_int64 :: "int \<Rightarrow> int" where
  "wrap_int64 x = (x + 2 ^ 63) mod 2 ^ 64 - 2 ^ 63"

abbreviation (input) nanosecond :: duration where "nanosecond \<equiv> 1"
abbreviation (input) millisecond :: duration where "millisecond \<equiv> 1000000"
abbreviation (input) second :: duration where "second \<equiv> 1000000000"
abbreviation (input) minute :: duration where "minute \<equiv> 60000000000"

text \<open>Seconds from Go's zero time to 1 January 1970.\<close>

definition unixEpoch :: int where
  "unixEpoch = 62135596800"

lemma time_Sub_exact:
  assumes "- (2 ^ 63) \<le> t - u" and "t - u < 2 ^ 63"
  shows "time_Sub t u = t - u"
  using assms by (auto simp: time_Sub_def minDuration_def maxDuration_def)

lemma time_Sub_mono: "t \<le> t' \<Longrightarrow> time_Sub t u \<le> time_Sub t' u"
  by (auto simp: time_Sub_def)

lemma time_Sub_le_maxDuration [simp]: "time_Sub t u \<le> maxDuration"
  by (auto simp: time_Sub_def minDuration_def maxDuration_def)

lemma le_time_Sub_iff:
  assumes "minDuration < d" and "d \<le> maxDuration"
  shows "d \<le> time_Sub t u \<longleftrightarrow> d \<le> t - u"
  using assms by (auto simp: time_Sub_def)

lemma wrap_int64_id: "- (2 ^ 63) \<le> x \<Longrightarrow> x < 2 ^ 63 \<Longrightarrow> wrap_int64 x = x"
  by (simp add: wrap_int64_def mod_pos_pos_trivial)

subsection \<open>Go maps as association lists\<close>

definition map_get :: "'v \<Rightarrow> ('k \<times> 'v) list \<Rightarrow> 'k \<Rightarrow> 'v" where
  "map_get zero kvs k = (case map_of kvs k of None \<Rightarrow> zero | Some v \<Rightarrow> v)"

abbreviation map_put :: "'k \<Rightarrow> 'v \<Rightarrow> ('k \<times> 'v) list \<Rightarrow> ('k \<times> 'v) list" where
  "map_put \<equiv> AList.update"

abbreviation map_del :: "'k \<Rightarrow> ('k \<times> 'v) list \<Rightarrow> ('k \<times> 'v) list" where
  "map_del \<equiv> AList.delete"

abbreviation wf_map :: "('k \<times> 'v) list \<Rightarrow> bool" where
  "wf_map kvs \<equiv> distinct (map fst kvs)"

lemma map_get_put [simp]: "map_get z (map_put k v kvs) k' = (if k' = k then v else map_get z kvs k')"
  by (simp add: map_get_def update_conv')

lemma map_get_del [simp]: "map_get z (map_del k kvs) k' = (if k' = k then z else map_get z kvs k')"
  by (simp add: map_get_def delete_conv')

lemma map_get_Nil [simp]: "map_get z [] k = z"
  by (simp add: map_get_def)

lemma wf_map_put [simp]: "wf_map kvs \<Longrightarrow> wf_map (map_put k v kvs)"
  by (rule distinct_update)

lemma wf_map_del [simp]: "wf_map kvs \<Longrightarrow> wf_map (map_del k kvs)"
  by (rule distinct_delete)

lemma wf_map_filter [simp]: "wf_map kvs \<Longrightarrow> wf_map (filter P kvs)"
  by (induction kvs) auto

lemma map_of_filter_key:
  "map_of (filter (\<lambda>(k, v). P k) kvs) k = (if P k then map_of kvs k else None)"
  by (induction kvs) auto

lemma map_of_map_values [simp]:
  "map_of (map (\<lambda>(k, v). (k, f k v)) kvs) k = map_option (f k) (map_of kvs k)"
  by (induction kvs) auto

lemma map_fst_map_values [simp]: "map (fst \<circ> (\<lambda>(k, v). (k, f k v))) kvs = map fst kvs"
  by auto

lemma set_map_put: "set (map_put k v kvs) \<subseteq> insert (k, v) (set kvs)"
  by (induction kvs) auto

lemma set_map_del: "set (map_del k kvs) \<subseteq> set kvs"
  by (auto simp: AList.delete_eq)

subsection \<open>Fallible steps\<close>

text \<open>Go's early return on an error: the left summand is the error.\<close>

fun and_then :: "'e + 'a \<Rightarrow> ('a \<Rightarrow> 'e + 'b) \<Rightarrow> 'e + 'b" where
  "and_then (Inl e) k = Inl e"
| "and_then (Inr x) k = k x"

lemma and_then_Inr: "and_then r k = Inr y \<longleftrightarrow> (\<exists>x. r = Inr x \<and> k x = Inr y)"
  by (cases r) auto

subsection \<open>Decimal printing\<close>

definition digit_char :: "nat \<Rightarrow> char" where
  "digit_char d = ''0123456789'' ! d"

fun show_nat :: "nat \<Rightarrow> string" where
  "show_nat n = (if n < 10 then [digit_char n] else show_nat (n div 10) @ [digit_char (n mod 10)])"

declare show_nat.simps [simp del]

definition show_int :: "int \<Rightarrow> string" where
  "show_int i = (if i < 0 then CHR ''-'' # show_nat (nat (- i)) else show_nat (nat i))"

fun read_nat_acc :: "nat \<Rightarrow> string \<Rightarrow> nat" where
  "read_nat_acc acc [] = acc"
| "read_nat_acc acc (c # cs) = read_nat_acc (10 * acc + (of_char c - 48)) cs"

lemma less_10_cases: "(d::nat) < 10 \<Longrightarrow> d \<in> set [0, 1, 2, 3, 4, 5, 6, 7, 8, 9]"
  by (simp, arith)

lemma of_char_digit_char: "d < 10 \<Longrightarrow> of_char (digit_char d) = 48 + d"
  by (drule less_10_cases) (auto simp: digit_char_def)

lemma read_nat_acc_append: "read_nat_acc a (xs @ ys) = read_nat_acc (read_nat_acc a xs) ys"
  by (induction xs arbitrary: a) auto

lemma read_show_nat: "read_nat_acc 0 (show_nat n) = n"
proof (induction n rule: show_nat.induct)
  case (1 n)
  show ?case
  proof (cases "n < 10")
    case True
    then show ?thesis by (simp add: show_nat.simps [of n] of_char_digit_char)
  next
    case False
    with 1 have "read_nat_acc 0 (show_nat (n div 10)) = n div 10" by simp
    with False show ?thesis
      by (simp add: show_nat.simps [of n] read_nat_acc_append of_char_digit_char)
  qed
qed

lemma show_nat_inject [simp]: "show_nat m = show_nat n \<longleftrightarrow> m = n"
  by (metis read_show_nat)

lemma show_nat_digits: "set (show_nat n) \<subseteq> digit_char ` {0..<10}"
proof (induction n rule: show_nat.induct)
  case (1 n)
  then show ?case
    by (cases "n < 10") (auto simp: show_nat.simps [of n])
qed

lemma digit_char_range: "d < 10 \<Longrightarrow> digit_char d \<in> set ''0123456789''"
  unfolding digit_char_def by (rule nth_mem) simp

lemma show_nat_chars: "set (show_nat n) \<subseteq> set ''0123456789''"
  using show_nat_digits [of n] digit_char_range by fastforce

lemma show_nat_neq_dash: "show_nat n \<noteq> CHR ''-'' # cs"
  using show_nat_chars [of n] by auto

lemma show_int_inject [simp]: "show_int i = show_int j \<longleftrightarrow> i = j"
proof (cases "i < 0 \<longleftrightarrow> j < 0")
  case True
  then show ?thesis by (auto simp: show_int_def)
next
  case False
  then have "show_int i \<noteq> show_int j"
    by (cases "i < 0") (auto simp: show_int_def show_nat_neq_dash dest: sym)
  with False show ?thesis by auto
qed

lemma show_int_no_slash: "CHR ''/'' \<notin> set (show_int i)"
proof -
  have "CHR ''/'' \<notin> set (show_nat n)" for n
    using show_nat_chars [of n] by auto
  then show ?thesis by (auto simp: show_int_def)
qed

subsection \<open>Majorities\<close>

text \<open>Two sets that together outnumber the base set they live in share an element.\<close>

lemma overlapping_sets:
  assumes "finite E" and "S \<subseteq> E" and "T \<subseteq> E" and "card E < card S + card T"
  shows "\<exists>x. x \<in> S \<and> x \<in> T"
proof (rule ccontr)
  assume "\<not> ?thesis"
  then have disj: "S \<inter> T = {}" by blast
  have "finite S" "finite T" using assms(1-3) finite_subset by blast+
  then have "card S + card T = card (S \<union> T)" using disj by (simp add: card_Un_disjoint)
  also have "\<dots> \<le> card E" using assms(1-3) by (simp add: card_mono)
  finally show False using assms(4) by simp
qed

end
