(* ===== verification/Warden_Types.thy ===== *)
theory Warden_Types
  imports Warden_Prelude
begin

text \<open>
  The domain types of \<^verbatim>\<open>src/services/warden/types.go\<close>, the message types of
  \<^verbatim>\<open>wire.go\<close> and the durable record of \<^verbatim>\<open>interfaces.go\<close>, with their pure
  helpers: the membership order \<open>Supersedes\<close>, \<open>HasVoter\<close>, the canonical sorts,
  \<open>Quorum\<close> and the incident identifiers. Terms and versions are 64-bit words, so
  their increments wrap as in Go. The string-valued enumerations of the source
  stay strings: a value read from the wire may be none of the named constants.
\<close>

subsection \<open>Nodes, terms, roles, liveness\<close>

type_synonym NodeID = string
type_synonym Term = "64 word"
type_synonym Role = string
type_synonym PeerStatus = string
type_synonym MemberKind = string
type_synonym IncidentType = string

record Node =
  node_ID :: NodeID
  node_Addr :: string

definition zeroNode :: Node where
  "zeroNode = \<lparr>node_ID = [], node_Addr = []\<rparr>"

definition RoleFollower :: Role where "RoleFollower = ''follower''"
definition RoleCandidate :: Role where "RoleCandidate = ''candidate''"
definition RoleLeader :: Role where "RoleLeader = ''leader''"

definition StatusUnknown :: PeerStatus where "StatusUnknown = ''unknown''"
definition StatusAlive :: PeerStatus where "StatusAlive = ''alive''"
definition StatusSuspect :: PeerStatus where "StatusSuspect = ''suspect''"
definition StatusDead :: PeerStatus where "StatusDead = ''dead''"

definition MemberVoter :: MemberKind where "MemberVoter = ''voter''"
definition MemberObserver :: MemberKind where "MemberObserver = ''observer''"
definition MemberDiscovered :: MemberKind where "MemberDiscovered = ''discovered''"

definition IncidentPeerDead :: IncidentType where "IncidentPeerDead = ''peer_dead''"
definition IncidentPeerRecovered :: IncidentType where "IncidentPeerRecovered = ''peer_recovered''"

lemmas role_defs = RoleFollower_def RoleCandidate_def RoleLeader_def
lemmas peer_status_defs = StatusUnknown_def StatusAlive_def StatusSuspect_def StatusDead_def
lemmas member_kind_defs = MemberVoter_def MemberObserver_def MemberDiscovered_def
lemmas incident_type_defs = IncidentPeerDead_def IncidentPeerRecovered_def

lemma role_distinct [simp, status_simps]:
  "RoleFollower \<noteq> RoleCandidate" "RoleCandidate \<noteq> RoleFollower"
  "RoleFollower \<noteq> RoleLeader" "RoleLeader \<noteq> RoleFollower"
  "RoleCandidate \<noteq> RoleLeader" "RoleLeader \<noteq> RoleCandidate"
  by (simp_all add: role_defs)

lemma peer_status_distinct [simp, status_simps]:
  "StatusUnknown \<noteq> StatusAlive" "StatusAlive \<noteq> StatusUnknown"
  "StatusUnknown \<noteq> StatusSuspect" "StatusSuspect \<noteq> StatusUnknown"
  "StatusUnknown \<noteq> StatusDead" "StatusDead \<noteq> StatusUnknown"
  "StatusAlive \<noteq> StatusSuspect" "StatusSuspect \<noteq> StatusAlive"
  "StatusAlive \<noteq> StatusDead" "StatusDead \<noteq> StatusAlive"
  "StatusSuspect \<noteq> StatusDead" "StatusDead \<noteq> StatusSuspect"
  by (simp_all add: peer_status_defs)

lemma member_kind_distinct [simp, status_simps]:
  "MemberVoter \<noteq> MemberObserver" "MemberObserver \<noteq> MemberVoter"
  "MemberVoter \<noteq> MemberDiscovered" "MemberDiscovered \<noteq> MemberVoter"
  "MemberObserver \<noteq> MemberDiscovered" "MemberDiscovered \<noteq> MemberObserver"
  "MemberVoter \<noteq> []" "MemberObserver \<noteq> []" "MemberDiscovered \<noteq> []"
  by (simp_all add: member_kind_defs)

lemma incident_type_distinct [simp, status_simps]:
  "IncidentPeerDead \<noteq> IncidentPeerRecovered" "IncidentPeerRecovered \<noteq> IncidentPeerDead"
  by (simp_all add: incident_type_defs)

subsection \<open>Membership and views\<close>

record Membership =
  mb_Version :: "64 word"
  mb_CreatedInTerm :: Term
  mb_Voters :: "Node list"

definition zeroMembership :: Membership where
  "zeroMembership = \<lparr>mb_Version = 0, mb_CreatedInTerm = 0, mb_Voters = []\<rparr>"

text \<open>
  \<open>LatencyMS\<close> is Go's float64 quotient of a round trip by a millisecond; the
  model keeps the exact rational, whose sign and zero agree with the float.
\<close>

record PeerView =
  pv_Node :: Node
  pv_Status :: PeerStatus
  pv_LastSeen :: time
  pv_LatencyMS :: rat
  pv_Member :: MemberKind

record ClusterView =
  cv_Self :: NodeID
  cv_Role :: Role
  cv_Term :: Term
  cv_LeaderID :: NodeID
  cv_Source :: NodeID
  cv_Authoritative :: bool
  cv_UpdatedAt :: time
  cv_Peers :: "PeerView list"
  cv_ElectionsStarted :: "64 word"
  cv_Membership :: Membership

record Roster =
  ro_Nodes :: "Node list"

definition Supersedes :: "Membership \<Rightarrow> Membership \<Rightarrow> bool" where
  "Supersedes m other =
     (if mb_Version m \<noteq> mb_Version other then mb_Version other < mb_Version m
      else mb_CreatedInTerm other < mb_CreatedInTerm m)"

definition Clone :: "Membership \<Rightarrow> Membership" where
  "Clone m =
     (let cp = \<lparr>mb_Version = mb_Version m, mb_CreatedInTerm = mb_CreatedInTerm m, mb_Voters = []\<rparr>
      in if 0 < length (mb_Voters m) then cp\<lparr>mb_Voters := mb_Voters m\<rparr> else cp)"

definition HasVoter :: "Membership \<Rightarrow> NodeID \<Rightarrow> bool" where
  "HasVoter m i = list_ex (\<lambda>n. node_ID n = i) (mb_Voters m)"

text \<open>
  \<open>sort.Slice\<close> gives some permutation sorted by ID; on lists with distinct IDs,
  the only ones the program sorts, it is unique, and the model takes the stable
  sort.
\<close>

definition SortPeers :: "PeerView list \<Rightarrow> PeerView list" where
  "SortPeers peers = sort_key (\<lambda>p. node_ID (pv_Node p)) peers"

definition SortNodes :: "Node list \<Rightarrow> Node list" where
  "SortNodes ns = sort_key node_ID ns"

definition Quorum :: "nat \<Rightarrow> nat" where
  "Quorum n = n div 2 + 1"

subsection \<open>Incidents\<close>

record Incident =
  inc_ID :: string
  inc_Type :: IncidentType
  inc_Peer :: Node
  inc_Term :: Term
  inc_ReportedBy :: NodeID
  inc_DetectedAt :: time
  inc_LastSeen :: time
  inc_Message :: string

text \<open>\<open>Time.Unix\<close>: whole seconds since the Unix epoch.\<close>

definition time_Unix :: "time \<Rightarrow> int" where
  "time_Unix t = t div second - unixEpoch"

definition NewIncidentID :: "IncidentType \<Rightarrow> NodeID \<Rightarrow> time \<Rightarrow> string" where
  "NewIncidentID typ peer t = typ @ ''/'' @ peer @ ''/'' @ show_int (time_Unix t)"

subsection \<open>Wire messages and durable state\<close>

record VoteRequest =
  vq_Term :: Term
  vq_CandidateID :: NodeID

record VoteResponse =
  vr_Term :: Term
  vr_Granted :: bool
  vr_VoterID :: NodeID

record HeartbeatRequest =
  hq_Term :: Term
  hq_LeaderID :: NodeID
  hq_View :: "ClusterView option"
  hq_Membership :: "Membership option"

record HeartbeatResponse =
  hr_Term :: Term
  hr_OK :: bool
  hr_NodeID :: NodeID

record IdentifyResponse =
  ir_ClusterID :: string
  ir_NodeID :: NodeID
  ir_Version :: string

record PersistentState =
  ps_CurrentTerm :: Term
  ps_VotedFor :: NodeID
  ps_Membership :: "Membership option"

subsection \<open>Laws of the helpers\<close>

lemma Clone_id [simp]: "Clone m = m"
  by (cases m) (simp add: Clone_def Let_def)

lemma HasVoter_iff: "HasVoter m i \<longleftrightarrow> i \<in> node_ID ` set (mb_Voters m)"
  by (auto simp: HasVoter_def list_ex_iff)

lemma set_SortNodes [simp]: "set (SortNodes ns) = set ns"
  by (simp add: SortNodes_def)

lemma length_SortNodes [simp]: "length (SortNodes ns) = length ns"
  by (simp add: SortNodes_def)

lemma mset_SortNodes [simp]: "mset (SortNodes ns) = mset ns"
  by (simp add: SortNodes_def)

lemma sorted_SortNodes [simp]: "sorted (map node_ID (SortNodes ns))"
  by (simp add: SortNodes_def)

lemma distinct_SortNodes [simp]:
  "distinct (map node_ID (SortNodes ns)) \<longleftrightarrow> distinct (map node_ID ns)"
  by (metis mset_SortNodes mset_eq_imp_distinct_iff mset_map)

lemma set_SortPeers [simp]: "set (SortPeers ps) = set ps"
  by (simp add: SortPeers_def)

lemma length_SortPeers [simp]: "length (SortPeers ps) = length ps"
  by (simp add: SortPeers_def)

lemma mset_SortPeers [simp]: "mset (SortPeers ps) = mset ps"
  by (simp add: SortPeers_def)

lemma Quorum_pos [simp]: "0 < Quorum n"
  by (simp add: Quorum_def)

lemma two_Quorums: "n < Quorum n + Quorum n"
  by (simp add: Quorum_def)

lemma Quorum_le: "0 < n \<Longrightarrow> Quorum n \<le> n"
  by (simp add: Quorum_def)

lemma Quorum_one_change: "Suc n < Quorum n + Quorum (Suc n)"
  by (simp add: Quorum_def)

text \<open>The membership order is a strict total order on the identity pair.\<close>

lemma Supersedes_irrefl: "\<not> Supersedes m m"
  by (simp add: Supersedes_def)

lemma Supersedes_trans: "Supersedes a b \<Longrightarrow> Supersedes b c \<Longrightarrow> Supersedes a c"
  by (auto simp: Supersedes_def split: if_splits)

lemma Supersedes_total:
  "Supersedes a b \<or> Supersedes b a \<or>
     (mb_Version a = mb_Version b \<and> mb_CreatedInTerm a = mb_CreatedInTerm b)"
  by (auto simp: Supersedes_def)

lemma Supersedes_asym: "Supersedes a b \<Longrightarrow> \<not> Supersedes b a"
  by (auto simp: Supersedes_def split: if_splits)

end
