(* ===== verification/Warden_Wireconv.thy ===== *)
theory Warden_Wireconv
  imports Warden_Types
begin

text \<open>
  \<^verbatim>\<open>src/services/warden/wireconv/wireconv.go\<close>: the conversions between the domain
  types and the generated protobuf messages. A message field that Go holds behind
  a pointer is an \<open>option\<close>; a \<open>FromProto\<close> converter takes the possibly-nil pointer,
  a \<open>ToProto\<close> converter returns the message its non-nil result points to.

  The timestamp message and its two conversions belong to the protobuf library:
  they are the parameters \<open>tsNew\<close> and \<open>tsAsTime\<close>, and the locale \<open>timestamp_lib\<close>
  states the one law the package relies on. The round trips of every converter
  are proved in that locale, and it is interpreted on the seconds-and-nanoseconds
  pair that the library documents.
\<close>

subsection \<open>Generated messages\<close>

record pbNode =
  pn_Id :: string
  pn_Addr :: string

record pbMembership =
  pm_Version :: "64 word"
  pm_CreatedInTerm :: "64 word"
  pm_Voters :: "pbNode option list"

record 'ts pbPeerView =
  pp_Node :: "pbNode option"
  pp_Status :: string
  pp_LastSeen :: "'ts option"
  pp_LatencyMs :: rat
  pp_Member :: string

record 'ts pbClusterView =
  pc_Self :: string
  pc_Role :: string
  pc_Term :: "64 word"
  pc_LeaderId :: string
  pc_Source :: string
  pc_Authoritative :: bool
  pc_UpdatedAt :: "'ts option"
  pc_Peers :: "'ts pbPeerView option list"
  pc_ElectionsStarted :: "64 word"
  pc_Membership :: "pbMembership option"

record pbPersistentState =
  pbs_CurrentTerm :: "64 word"
  pbs_VotedFor :: string
  pbs_Membership :: "pbMembership option"

record pbVoteRequest =
  pvq_Term :: "64 word"
  pvq_CandidateId :: string

record pbVoteResponse =
  pvr_Term :: "64 word"
  pvr_Granted :: bool
  pvr_VoterId :: string

record 'ts pbHeartbeatRequest =
  phq_Term :: "64 word"
  phq_LeaderId :: string
  phq_View :: "'ts pbClusterView option"
  phq_Membership :: "pbMembership option"

record pbHeartbeatResponse =
  phr_Term :: "64 word"
  phr_Ok :: bool
  phr_NodeId :: string

record pbIdentifyResponse =
  pir_ClusterId :: string
  pir_NodeId :: string
  pir_Version :: string

record 'ts pbClusterViewCursor =
  pcc_MembershipVersion :: "64 word"
  pcc_MembershipCreatedInTerm :: "64 word"
  pcc_ViewUpdatedAt :: "'ts option"

subsection \<open>Time and nodes\<close>

definition timeToProto :: "(time \<Rightarrow> 'ts) \<Rightarrow> time \<Rightarrow> 'ts option" where
  "timeToProto tsNew t = (if IsZero t then None else Some (tsNew t))"

definition timeFromProto :: "('ts \<Rightarrow> time) \<Rightarrow> 'ts option \<Rightarrow> time" where
  "timeFromProto tsAsTime ts = (case ts of None \<Rightarrow> 0 | Some x \<Rightarrow> tsAsTime x)"

definition NodeToProto :: "Node \<Rightarrow> pbNode" where
  "NodeToProto n = \<lparr>pn_Id = node_ID n, pn_Addr = node_Addr n\<rparr>"

definition NodeFromProto :: "pbNode option \<Rightarrow> Node" where
  "NodeFromProto p =
     (case p of None \<Rightarrow> zeroNode | Some q \<Rightarrow> \<lparr>node_ID = pn_Id q, node_Addr = pn_Addr q\<rparr>)"

definition nodesToProto :: "Node list \<Rightarrow> pbNode option list" where
  "nodesToProto ns = (if length ns = 0 then [] else map (Some \<circ> NodeToProto) ns)"

definition nodesFromProto :: "pbNode option list \<Rightarrow> Node list" where
  "nodesFromProto ps = (if length ps = 0 then [] else map NodeFromProto ps)"

subsection \<open>Membership\<close>

definition MembershipToProto :: "Membership \<Rightarrow> pbMembership" where
  "MembershipToProto m =
     \<lparr>pm_Version = mb_Version m, pm_CreatedInTerm = mb_CreatedInTerm m,
      pm_Voters = nodesToProto (mb_Voters m)\<rparr>"

definition MembershipFromProto :: "pbMembership option \<Rightarrow> Membership" where
  "MembershipFromProto p =
     (case p of None \<Rightarrow> zeroMembership
      | Some q \<Rightarrow> \<lparr>mb_Version = pm_Version q, mb_CreatedInTerm = pm_CreatedInTerm q,
                  mb_Voters = nodesFromProto (pm_Voters q)\<rparr>)"

definition MembershipPtrToProto :: "Membership option \<Rightarrow> pbMembership option" where
  "MembershipPtrToProto m = (case m of None \<Rightarrow> None | Some x \<Rightarrow> Some (MembershipToProto x))"

definition MembershipPtrFromProto :: "pbMembership option \<Rightarrow> Membership option" where
  "MembershipPtrFromProto p = (case p of None \<Rightarrow> None | Some _ \<Rightarrow> Some (MembershipFromProto p))"

subsection \<open>Views\<close>

definition PeerViewToProto :: "(time \<Rightarrow> 'ts) \<Rightarrow> PeerView \<Rightarrow> 'ts pbPeerView" where
  "PeerViewToProto tsNew pv =
     \<lparr>pp_Node = Some (NodeToProto (pv_Node pv)), pp_Status = pv_Status pv,
      pp_LastSeen = timeToProto tsNew (pv_LastSeen pv), pp_LatencyMs = pv_LatencyMS pv,
      pp_Member = pv_Member pv\<rparr>"

definition zeroPeerView :: PeerView where
  "zeroPeerView = \<lparr>pv_Node = zeroNode, pv_Status = [], pv_LastSeen = 0, pv_LatencyMS = 0, pv_Member = []\<rparr>"

definition PeerViewFromProto :: "('ts \<Rightarrow> time) \<Rightarrow> 'ts pbPeerView option \<Rightarrow> PeerView" where
  "PeerViewFromProto tsAsTime p =
     (case p of None \<Rightarrow> zeroPeerView
      | Some q \<Rightarrow> \<lparr>pv_Node = NodeFromProto (pp_Node q), pv_Status = pp_Status q,
                  pv_LastSeen = timeFromProto tsAsTime (pp_LastSeen q),
                  pv_LatencyMS = pp_LatencyMs q, pv_Member = pp_Member q\<rparr>)"

definition peersToProto :: "(time \<Rightarrow> 'ts) \<Rightarrow> PeerView list \<Rightarrow> 'ts pbPeerView option list" where
  "peersToProto tsNew pvs = (if length pvs = 0 then [] else map (Some \<circ> PeerViewToProto tsNew) pvs)"

definition peersFromProto :: "('ts \<Rightarrow> time) \<Rightarrow> 'ts pbPeerView option list \<Rightarrow> PeerView list" where
  "peersFromProto tsAsTime ps = (if length ps = 0 then [] else map (PeerViewFromProto tsAsTime) ps)"

definition ClusterViewToProto :: "(time \<Rightarrow> 'ts) \<Rightarrow> ClusterView \<Rightarrow> 'ts pbClusterView" where
  "ClusterViewToProto tsNew v =
     \<lparr>pc_Self = cv_Self v, pc_Role = cv_Role v, pc_Term = cv_Term v, pc_LeaderId = cv_LeaderID v,
      pc_Source = cv_Source v, pc_Authoritative = cv_Authoritative v,
      pc_UpdatedAt = timeToProto tsNew (cv_UpdatedAt v), pc_Peers = peersToProto tsNew (cv_Peers v),
      pc_ElectionsStarted = cv_ElectionsStarted v,
      pc_Membership = Some (MembershipToProto (cv_Membership v))\<rparr>"

definition zeroClusterView :: ClusterView where
  "zeroClusterView =
     \<lparr>cv_Self = [], cv_Role = [], cv_Term = 0, cv_LeaderID = [], cv_Source = [],
      cv_Authoritative = False, cv_UpdatedAt = 0, cv_Peers = [], cv_ElectionsStarted = 0,
      cv_Membership = zeroMembership\<rparr>"

definition ClusterViewFromProto :: "('ts \<Rightarrow> time) \<Rightarrow> 'ts pbClusterView option \<Rightarrow> ClusterView" where
  "ClusterViewFromProto tsAsTime p =
     (case p of None \<Rightarrow> zeroClusterView
      | Some q \<Rightarrow> \<lparr>cv_Self = pc_Self q, cv_Role = pc_Role q, cv_Term = pc_Term q,
                  cv_LeaderID = pc_LeaderId q, cv_Source = pc_Source q,
                  cv_Authoritative = pc_Authoritative q,
                  cv_UpdatedAt = timeFromProto tsAsTime (pc_UpdatedAt q),
                  cv_Peers = peersFromProto tsAsTime (pc_Peers q),
                  cv_ElectionsStarted = pc_ElectionsStarted q,
                  cv_Membership = MembershipFromProto (pc_Membership q)\<rparr>)"

definition ClusterViewPtrToProto :: "(time \<Rightarrow> 'ts) \<Rightarrow> ClusterView option \<Rightarrow> 'ts pbClusterView option" where
  "ClusterViewPtrToProto tsNew v = (case v of None \<Rightarrow> None | Some x \<Rightarrow> Some (ClusterViewToProto tsNew x))"

definition ClusterViewPtrFromProto :: "('ts \<Rightarrow> time) \<Rightarrow> 'ts pbClusterView option \<Rightarrow> ClusterView option" where
  "ClusterViewPtrFromProto tsAsTime p =
     (case p of None \<Rightarrow> None | Some _ \<Rightarrow> Some (ClusterViewFromProto tsAsTime p))"

subsection \<open>Durable state and RPC messages\<close>

definition PersistentStateToProto :: "PersistentState \<Rightarrow> pbPersistentState" where
  "PersistentStateToProto st =
     \<lparr>pbs_CurrentTerm = ps_CurrentTerm st, pbs_VotedFor = ps_VotedFor st,
      pbs_Membership = MembershipPtrToProto (ps_Membership st)\<rparr>"

definition zeroPersistentState :: PersistentState where
  "zeroPersistentState = \<lparr>ps_CurrentTerm = 0, ps_VotedFor = [], ps_Membership = None\<rparr>"

definition PersistentStateFromProto :: "pbPersistentState option \<Rightarrow> PersistentState" where
  "PersistentStateFromProto p =
     (case p of None \<Rightarrow> zeroPersistentState
      | Some q \<Rightarrow> \<lparr>ps_CurrentTerm = pbs_CurrentTerm q, ps_VotedFor = pbs_VotedFor q,
                  ps_Membership = MembershipPtrFromProto (pbs_Membership q)\<rparr>)"

definition VoteRequestToProto :: "VoteRequest \<Rightarrow> pbVoteRequest" where
  "VoteRequestToProto r = \<lparr>pvq_Term = vq_Term r, pvq_CandidateId = vq_CandidateID r\<rparr>"

definition VoteRequestFromProto :: "pbVoteRequest option \<Rightarrow> VoteRequest" where
  "VoteRequestFromProto p =
     (case p of None \<Rightarrow> \<lparr>vq_Term = 0, vq_CandidateID = []\<rparr>
      | Some q \<Rightarrow> \<lparr>vq_Term = pvq_Term q, vq_CandidateID = pvq_CandidateId q\<rparr>)"

definition VoteResponseToProto :: "VoteResponse \<Rightarrow> pbVoteResponse" where
  "VoteResponseToProto r =
     \<lparr>pvr_Term = vr_Term r, pvr_Granted = vr_Granted r, pvr_VoterId = vr_VoterID r\<rparr>"

definition VoteResponseFromProto :: "pbVoteResponse option \<Rightarrow> VoteResponse" where
  "VoteResponseFromProto p =
     (case p of None \<Rightarrow> \<lparr>vr_Term = 0, vr_Granted = False, vr_VoterID = []\<rparr>
      | Some q \<Rightarrow> \<lparr>vr_Term = pvr_Term q, vr_Granted = pvr_Granted q, vr_VoterID = pvr_VoterId q\<rparr>)"

definition HeartbeatRequestToProto :: "(time \<Rightarrow> 'ts) \<Rightarrow> HeartbeatRequest \<Rightarrow> 'ts pbHeartbeatRequest" where
  "HeartbeatRequestToProto tsNew r =
     \<lparr>phq_Term = hq_Term r, phq_LeaderId = hq_LeaderID r,
      phq_View = ClusterViewPtrToProto tsNew (hq_View r),
      phq_Membership = MembershipPtrToProto (hq_Membership r)\<rparr>"

definition HeartbeatRequestFromProto :: "('ts \<Rightarrow> time) \<Rightarrow> 'ts pbHeartbeatRequest option \<Rightarrow> HeartbeatRequest" where
  "HeartbeatRequestFromProto tsAsTime p =
     (case p of None \<Rightarrow> \<lparr>hq_Term = 0, hq_LeaderID = [], hq_View = None, hq_Membership = None\<rparr>
      | Some q \<Rightarrow> \<lparr>hq_Term = phq_Term q, hq_LeaderID = phq_LeaderId q,
                  hq_View = ClusterViewPtrFromProto tsAsTime (phq_View q),
                  hq_Membership = MembershipPtrFromProto (phq_Membership q)\<rparr>)"

definition HeartbeatResponseToProto :: "HeartbeatResponse \<Rightarrow> pbHeartbeatResponse" where
  "HeartbeatResponseToProto r =
     \<lparr>phr_Term = hr_Term r, phr_Ok = hr_OK r, phr_NodeId = hr_NodeID r\<rparr>"

definition HeartbeatResponseFromProto :: "pbHeartbeatResponse option \<Rightarrow> HeartbeatResponse" where
  "HeartbeatResponseFromProto p =
     (case p of None \<Rightarrow> \<lparr>hr_Term = 0, hr_OK = False, hr_NodeID = []\<rparr>
      | Some q \<Rightarrow> \<lparr>hr_Term = phr_Term q, hr_OK = phr_Ok q, hr_NodeID = phr_NodeId q\<rparr>)"

definition IdentifyResponseToProto :: "IdentifyResponse \<Rightarrow> pbIdentifyResponse" where
  "IdentifyResponseToProto r =
     \<lparr>pir_ClusterId = ir_ClusterID r, pir_NodeId = ir_NodeID r, pir_Version = ir_Version r\<rparr>"

definition IdentifyResponseFromProto :: "pbIdentifyResponse option \<Rightarrow> IdentifyResponse" where
  "IdentifyResponseFromProto p =
     (case p of None \<Rightarrow> \<lparr>ir_ClusterID = [], ir_NodeID = [], ir_Version = []\<rparr>
      | Some q \<Rightarrow> \<lparr>ir_ClusterID = pir_ClusterId q, ir_NodeID = pir_NodeId q, ir_Version = pir_Version q\<rparr>)"

subsection \<open>Cluster-watch cursors\<close>

definition CursorOf :: "'ts pbClusterView option \<Rightarrow> 'ts pbClusterViewCursor" where
  "CursorOf v =
     (let c = \<lparr>pcc_MembershipVersion = 0, pcc_MembershipCreatedInTerm = 0,
               pcc_ViewUpdatedAt = Option.bind v pc_UpdatedAt\<rparr>
      in case Option.bind v pc_Membership of None \<Rightarrow> c
         | Some m \<Rightarrow> c\<lparr>pcc_MembershipVersion := pm_Version m,
                       pcc_MembershipCreatedInTerm := pm_CreatedInTerm m\<rparr>)"

text \<open>\<open>proto.Equal\<close> is library code: the parameter \<open>protoEqual\<close>.\<close>

definition CursorEqual ::
  "('ts pbClusterViewCursor \<Rightarrow> 'ts pbClusterViewCursor \<Rightarrow> bool)
     \<Rightarrow> 'ts pbClusterViewCursor option \<Rightarrow> 'ts pbClusterViewCursor option \<Rightarrow> bool" where
  "CursorEqual protoEqual a b =
     (let zero = \<lparr>pcc_MembershipVersion = 0, pcc_MembershipCreatedInTerm = 0, pcc_ViewUpdatedAt = None\<rparr>;
          a' = (case a of None \<Rightarrow> zero | Some x \<Rightarrow> x);
          b' = (case b of None \<Rightarrow> zero | Some x \<Rightarrow> x)
      in protoEqual a' b')"

subsection \<open>Round trips that involve no timestamp\<close>

lemma Node_roundtrip [simp]: "NodeFromProto (Some (NodeToProto n)) = n"
  by (simp add: NodeFromProto_def NodeToProto_def)

lemma nodes_roundtrip [simp]: "nodesFromProto (nodesToProto ns) = ns"
  by (simp add: nodesFromProto_def nodesToProto_def comp_def)

lemma Membership_roundtrip [simp]: "MembershipFromProto (Some (MembershipToProto m)) = m"
  by (simp add: MembershipFromProto_def MembershipToProto_def)

lemma MembershipPtr_roundtrip [simp]: "MembershipPtrFromProto (MembershipPtrToProto m) = m"
  by (cases m) (simp_all add: MembershipPtrFromProto_def MembershipPtrToProto_def)

lemma PersistentState_roundtrip [simp]: "PersistentStateFromProto (Some (PersistentStateToProto st)) = st"
  by (simp add: PersistentStateFromProto_def PersistentStateToProto_def)

lemma VoteRequest_roundtrip [simp]: "VoteRequestFromProto (Some (VoteRequestToProto r)) = r"
  by (simp add: VoteRequestFromProto_def VoteRequestToProto_def)

lemma VoteResponse_roundtrip [simp]: "VoteResponseFromProto (Some (VoteResponseToProto r)) = r"
  by (simp add: VoteResponseFromProto_def VoteResponseToProto_def)

lemma HeartbeatResponse_roundtrip [simp]:
  "HeartbeatResponseFromProto (Some (HeartbeatResponseToProto r)) = r"
  by (simp add: HeartbeatResponseFromProto_def HeartbeatResponseToProto_def)

lemma IdentifyResponse_roundtrip [simp]:
  "IdentifyResponseFromProto (Some (IdentifyResponseToProto r)) = r"
  by (simp add: IdentifyResponseFromProto_def IdentifyResponseToProto_def)

subsection \<open>Round trips over the timestamp library\<close>

locale timestamp_lib =
  fixes tsNew :: "time \<Rightarrow> 'ts"
    and tsAsTime :: "'ts \<Rightarrow> time"
  assumes AsTime_New: "tsAsTime (tsNew t) = t"
begin

lemma time_roundtrip [simp]: "timeFromProto tsAsTime (timeToProto tsNew t) = t"
  by (simp add: timeFromProto_def timeToProto_def IsZero_def AsTime_New)

lemma timeToProto_inject: "timeToProto tsNew t = timeToProto tsNew u \<longleftrightarrow> t = u"
  by (metis time_roundtrip)

lemma PeerView_roundtrip [simp]:
  "PeerViewFromProto tsAsTime (Some (PeerViewToProto tsNew pv)) = pv"
  by (simp add: PeerViewFromProto_def PeerViewToProto_def)

lemma peers_roundtrip [simp]: "peersFromProto tsAsTime (peersToProto tsNew pvs) = pvs"
  by (simp add: peersFromProto_def peersToProto_def comp_def)

lemma ClusterView_roundtrip [simp]:
  "ClusterViewFromProto tsAsTime (Some (ClusterViewToProto tsNew v)) = v"
  by (simp add: ClusterViewFromProto_def ClusterViewToProto_def)

lemma ClusterViewPtr_roundtrip [simp]:
  "ClusterViewPtrFromProto tsAsTime (ClusterViewPtrToProto tsNew v) = v"
  by (cases v) (simp_all add: ClusterViewPtrFromProto_def ClusterViewPtrToProto_def)

lemma HeartbeatRequest_trip:
  "HeartbeatRequestFromProto tsAsTime (Some (HeartbeatRequestToProto tsNew r)) = r"
  by (simp add: HeartbeatRequestFromProto_def HeartbeatRequestToProto_def)

text \<open>A cursor names exactly the membership identity and the production time of a view.\<close>

lemma CursorOf_view_eq:
  "CursorOf (Some (ClusterViewToProto tsNew v)) = CursorOf (Some (ClusterViewToProto tsNew w)) \<longleftrightarrow>
     mb_Version (cv_Membership v) = mb_Version (cv_Membership w) \<and>
     mb_CreatedInTerm (cv_Membership v) = mb_CreatedInTerm (cv_Membership w) \<and>
     cv_UpdatedAt v = cv_UpdatedAt w"
  by (auto simp: CursorOf_def ClusterViewToProto_def MembershipToProto_def timeToProto_inject)

end

text \<open>The documented library: seconds since the Unix epoch and nanoseconds within the second.\<close>

definition ts_pair_New :: "time \<Rightarrow> int \<times> int" where
  "ts_pair_New t = (time_Unix t, t mod second)"

definition ts_pair_AsTime :: "int \<times> int \<Rightarrow> time" where
  "ts_pair_AsTime ts = (fst ts + unixEpoch) * second + snd ts"

interpretation ts_pair: timestamp_lib ts_pair_New ts_pair_AsTime
  by unfold_locales (simp add: ts_pair_New_def ts_pair_AsTime_def time_Unix_def)

end
