(* ===== verification/Warden_Store.thy ===== *)
theory Warden_Store
  imports Warden_Wireconv
begin

text \<open>
  The durable-state interface \<open>IStore\<close> of \<^verbatim>\<open>src/services/warden/interfaces.go\<close> and
  its two implementations in \<^verbatim>\<open>store/store.go\<close>.

  \<open>FileStore\<close> is a target file, at most one temporary file, and a script that says
  how each file-system call to come turns out, so a theorem about every store
  covers every pattern of failures. The protojson codec and the JSON compaction
  are library code: the parameters \<open>pjMarshal\<close>, \<open>jsonCompact\<close> and \<open>pjUnmarshal\<close>,
  with the decoding law as the locale \<open>state_codec\<close>.

  The locale \<open>istore\<close> is what the election manager relies on: a successful \<open>Save\<close>
  makes the state durable, a failed one leaves the old state or the new one, and
  \<open>Load\<close> reports what is durable.
\<close>

datatype store_err =
    ErrMkdirAll | ErrMarshal | ErrCompact | ErrCreateTemp | ErrWrite | ErrFsync | ErrClose
  | ErrRename | ErrFsyncDir | ErrReadFile | ErrUnmarshal

type_synonym 'st save_fn = "PersistentState \<Rightarrow> 'st \<Rightarrow> 'st \<times> store_err option"
type_synonym 'st load_fn = "'st \<Rightarrow> 'st \<times> (store_err + PersistentState option)"

subsection \<open>The interface\<close>

locale istore =
  fixes save :: "'st save_fn"
    and load :: "'st load_fn"
    and contents :: "'st \<Rightarrow> PersistentState option"
  assumes save_ok: "save ps st = (st', None) \<Longrightarrow> contents st' = Some ps"
    and save_err: "save ps st = (st', Some e) \<Longrightarrow> contents st' = contents st \<or> contents st' = Some ps"
    and load_contents: "load st = (st', Inr r) \<Longrightarrow> r = contents st"
    and load_keeps: "load st = (st', res) \<Longrightarrow> contents st' = contents st"
begin

lemma save_contents:
  "save ps st = (st', err) \<Longrightarrow> contents st' = Some ps \<or> (contents st' = contents st \<and> err \<noteq> None)"
  using save_ok save_err by (cases err) blast+

end

subsection \<open>MemStore\<close>

record MemStore =
  ms_state :: PersistentState
  ms_saved :: bool

definition NewMemStore :: MemStore where
  "NewMemStore = \<lparr>ms_state = zeroPersistentState, ms_saved = False\<rparr>"

definition MemStore_Save :: "MemStore save_fn" where
  "MemStore_Save st s = (s\<lparr>ms_state := st, ms_saved := True\<rparr>, None)"

definition MemStore_Load :: "MemStore load_fn" where
  "MemStore_Load s = (s, Inr (if ms_saved s then Some (ms_state s) else None))"

definition MemStore_contents :: "MemStore \<Rightarrow> PersistentState option" where
  "MemStore_contents s = (if ms_saved s then Some (ms_state s) else None)"

interpretation mem: istore MemStore_Save MemStore_Load MemStore_contents
  by unfold_locales (auto simp: MemStore_Save_def MemStore_Load_def MemStore_contents_def)

subsection \<open>FileStore\<close>

record 'b FileStore =
  fs_path :: string
  fs_target :: "'b option"
  fs_tmp :: "'b option"
  fs_script :: "bool list"

definition NewFileStore :: "string \<Rightarrow> 'b option \<Rightarrow> bool list \<Rightarrow> 'b FileStore" where
  "NewFileStore path onDisk script =
     \<lparr>fs_path = path, fs_target = onDisk, fs_tmp = None, fs_script = script\<rparr>"

text \<open>One file-system call: its outcome is the next entry of the script, success once it is spent.\<close>

definition fs_call :: "'b FileStore \<Rightarrow> 'b FileStore \<times> bool" where
  "fs_call s = (case fs_script s of [] \<Rightarrow> (s, True) | ok # rest \<Rightarrow> (s\<lparr>fs_script := rest\<rparr>, ok))"

definition marshalState ::
  "(pbPersistentState \<Rightarrow> 'raw option) \<Rightarrow> ('raw \<Rightarrow> 'b option) \<Rightarrow> PersistentState \<Rightarrow> store_err + 'b" where
  "marshalState pjMarshal jsonCompact st =
     (case pjMarshal (PersistentStateToProto st) of None \<Rightarrow> Inl ErrMarshal
      | Some raw \<Rightarrow> (case jsonCompact raw of None \<Rightarrow> Inl ErrCompact | Some bytes \<Rightarrow> Inr bytes))"

definition unmarshalState :: "('b \<Rightarrow> pbPersistentState option) \<Rightarrow> 'b \<Rightarrow> store_err + PersistentState" where
  "unmarshalState pjUnmarshal data =
     (case pjUnmarshal data of None \<Rightarrow> Inl ErrUnmarshal
      | Some pb \<Rightarrow> Inr (PersistentStateFromProto (Some pb)))"

text \<open>The directory fsync opens the directory and syncs it; either call may fail.\<close>

definition syncDir :: "'b FileStore \<Rightarrow> 'b FileStore \<times> bool" where
  "syncDir s = (let (s1, opened) = fs_call s in if \<not> opened then (s1, False) else fs_call s1)"

text \<open>
  The tail of \<open>Save\<close> from the temporary file on. The deferred removal of the
  temporary file runs on every exit; after the rename there is nothing to remove.
\<close>

definition save_tmp :: "'b \<Rightarrow> 'b FileStore \<Rightarrow> 'b FileStore \<times> store_err option" where
  "save_tmp data s0 =
     (let (s1, ok1) = fs_call s0 in
      if \<not> ok1 then (s1, Some ErrCreateTemp) else
      let (s2, ok2) = fs_call (s1\<lparr>fs_tmp := Some data\<rparr>) in
      if \<not> ok2 then (s2\<lparr>fs_tmp := None\<rparr>, Some ErrWrite) else
      let (s3, ok3) = fs_call s2 in
      if \<not> ok3 then (s3\<lparr>fs_tmp := None\<rparr>, Some ErrFsync) else
      let (s4, ok4) = fs_call s3 in
      if \<not> ok4 then (s4\<lparr>fs_tmp := None\<rparr>, Some ErrClose) else
      let (s5, ok5) = fs_call s4 in
      if \<not> ok5 then (s5\<lparr>fs_tmp := None\<rparr>, Some ErrRename) else
      let (s6, ok6) = syncDir (s5\<lparr>fs_target := fs_tmp s5, fs_tmp := None\<rparr>) in
      if \<not> ok6 then (s6, Some ErrFsyncDir) else (s6, None))"

definition FileStore_Save ::
  "(pbPersistentState \<Rightarrow> 'raw option) \<Rightarrow> ('raw \<Rightarrow> 'b option) \<Rightarrow> 'b FileStore save_fn" where
  "FileStore_Save pjMarshal jsonCompact st s =
     (let (s1, ok1) = fs_call s in
      if \<not> ok1 then (s1, Some ErrMkdirAll) else
      case marshalState pjMarshal jsonCompact st of
        Inl e \<Rightarrow> (s1, Some e)
      | Inr data \<Rightarrow> save_tmp data s1)"

definition FileStore_Load :: "('b \<Rightarrow> pbPersistentState option) \<Rightarrow> 'b FileStore load_fn" where
  "FileStore_Load pjUnmarshal s =
     (case fs_target s of
        None \<Rightarrow> (s, Inr None)
      | Some data \<Rightarrow>
          let (s1, ok) = fs_call s in
          if \<not> ok then (s1, Inl ErrReadFile) else
          case unmarshalState pjUnmarshal data of
            Inl e \<Rightarrow> (s1, Inl e)
          | Inr st \<Rightarrow> (s1, Inr (Some st)))"

definition FileStore_contents :: "('b \<Rightarrow> pbPersistentState option) \<Rightarrow> 'b FileStore \<Rightarrow> PersistentState option" where
  "FileStore_contents pjUnmarshal s =
     (case fs_target s of None \<Rightarrow> None
      | Some data \<Rightarrow> (case unmarshalState pjUnmarshal data of Inl _ \<Rightarrow> None | Inr st \<Rightarrow> Some st))"

lemma fs_call_frame [frame_simps]:
  "fs_call s = (s', ok) \<Longrightarrow> fs_target s' = fs_target s \<and> fs_tmp s' = fs_tmp s \<and> fs_path s' = fs_path s"
  by (auto simp: fs_call_def split: list.splits)

lemma syncDir_frame [frame_simps]:
  "syncDir s = (s', ok) \<Longrightarrow> fs_target s' = fs_target s \<and> fs_tmp s' = fs_tmp s"
  by (auto simp: syncDir_def split: prod.splits if_splits dest!: fs_call_frame)

lemma save_tmp_atomic:
  assumes "save_tmp data s = (s', err)"
  shows "case err of None \<Rightarrow> fs_target s' = Some data
    | Some e \<Rightarrow> if e = ErrFsyncDir then fs_target s' = Some data else fs_target s' = fs_target s"
    and "err \<noteq> Some ErrCreateTemp \<Longrightarrow> fs_tmp s' = None"
  using assms unfolding save_tmp_def
  by (auto split: prod.splits if_splits dest!: fs_call_frame syncDir_frame)

lemma marshalState_err: "marshalState pjMarshal jsonCompact st = Inl e \<Longrightarrow> e = ErrMarshal \<or> e = ErrCompact"
  by (auto simp: marshalState_def split: option.splits)

lemma FileStore_Save_cases:
  assumes "FileStore_Save pjMarshal jsonCompact st s = (s', err)"
  shows "case err of
       None \<Rightarrow> (\<exists>data. marshalState pjMarshal jsonCompact st = Inr data \<and> fs_target s' = Some data)
     | Some e \<Rightarrow>
         if e = ErrFsyncDir
         then (\<exists>data. marshalState pjMarshal jsonCompact st = Inr data \<and> fs_target s' = Some data)
         else fs_target s' = fs_target s"
proof -
  obtain s1 ok1 where c: "fs_call s = (s1, ok1)" by fastforce
  then have s1: "fs_target s1 = fs_target s" by (auto dest: fs_call_frame)
  show ?thesis
    using assms c s1 save_tmp_atomic(1) [of _ s1 s' err] marshalState_err [of pjMarshal jsonCompact st]
    by (auto simp: FileStore_Save_def split: sum.splits if_splits option.splits)
qed

lemma FileStore_Load_contents:
  "FileStore_Load pjUnmarshal s = (s', Inr r) \<Longrightarrow> r = FileStore_contents pjUnmarshal s"
  by (auto simp: FileStore_Load_def FileStore_contents_def split: option.splits prod.splits if_splits sum.splits)

lemma FileStore_Load_frame:
  "FileStore_Load pjUnmarshal s = (s', res) \<Longrightarrow> fs_target s' = fs_target s \<and> fs_tmp s' = fs_tmp s"
  by (auto simp: FileStore_Load_def split: option.splits prod.splits if_splits sum.splits dest: fs_call_frame)

subsection \<open>The codec law makes a FileStore a durable store\<close>

locale state_codec =
  fixes pjMarshal :: "pbPersistentState \<Rightarrow> 'raw option"
    and jsonCompact :: "'raw \<Rightarrow> 'b option"
    and pjUnmarshal :: "'b \<Rightarrow> pbPersistentState option"
  assumes decode_encode: "pjMarshal pb = Some raw \<Longrightarrow> jsonCompact raw = Some b \<Longrightarrow> pjUnmarshal b = Some pb"
begin

lemma unmarshal_marshalState:
  "marshalState pjMarshal jsonCompact st = Inr data \<Longrightarrow> unmarshalState pjUnmarshal data = Inr st"
  by (auto simp: marshalState_def unmarshalState_def decode_encode split: option.splits)

lemma saved_contents:
  assumes "marshalState pjMarshal jsonCompact st = Inr data" and "fs_target s = Some data"
  shows "FileStore_contents pjUnmarshal s = Some st"
  using assms by (simp add: FileStore_contents_def unmarshal_marshalState)

end

sublocale state_codec \<subseteq> fstore: istore "FileStore_Save pjMarshal jsonCompact"
    "FileStore_Load pjUnmarshal" "FileStore_contents pjUnmarshal"
proof
  fix ps st st' e r res
  show "FileStore_Save pjMarshal jsonCompact ps st = (st', None) \<Longrightarrow>
      FileStore_contents pjUnmarshal st' = Some ps"
    by (drule FileStore_Save_cases) (auto dest: saved_contents)
  show "FileStore_Save pjMarshal jsonCompact ps st = (st', Some e) \<Longrightarrow>
      FileStore_contents pjUnmarshal st' = FileStore_contents pjUnmarshal st \<or>
      FileStore_contents pjUnmarshal st' = Some ps"
    by (drule FileStore_Save_cases)
      (auto simp: FileStore_contents_def dest: saved_contents split: if_splits)
  show "FileStore_Load pjUnmarshal st = (st', Inr r) \<Longrightarrow> r = FileStore_contents pjUnmarshal st"
    by (rule FileStore_Load_contents)
  show "FileStore_Load pjUnmarshal st = (st', res) \<Longrightarrow>
      FileStore_contents pjUnmarshal st' = FileStore_contents pjUnmarshal st"
    by (drule FileStore_Load_frame) (simp add: FileStore_contents_def)
qed

text \<open>
  An instance of the codec: a file is represented by the message it decodes to, so
  encoding and compaction always succeed and decoding inverts them.
\<close>

interpretation message_codec: state_codec Some Some Some
  by unfold_locales simp

end
