(* ===== verification/Go_Chan.thy ===== *)
theory Go_Chan
  imports Warden_Prelude
begin

text \<open>
  The part of Go's channels that the view subscriptions use: a bounded buffer, the
  number of receivers parked on it, the values handed to them, and whether it is
  closed. Only non-blocking sends occur (\<^verbatim>\<open>select { case ch <- v: default: }\<close>); a
  send on a closed channel panics, reported as \<open>None\<close>.
\<close>

record 'a chan =
  ch_buf :: "'a list"
  ch_cap :: nat
  ch_parked :: nat
  ch_got :: "'a list"
  ch_closed :: bool

definition make_chan :: "nat \<Rightarrow> 'a chan" where
  "make_chan n = \<lparr>ch_buf = [], ch_cap = n, ch_parked = 0, ch_got = [], ch_closed = False\<rparr>"

definition chan_trySend :: "'a \<Rightarrow> 'a chan \<Rightarrow> 'a chan option" where
  "chan_trySend v ch =
     (if ch_closed ch then None
      else if 0 < ch_parked ch then Some (ch\<lparr>ch_parked := ch_parked ch - 1, ch_got := ch_got ch @ [v]\<rparr>)
      else if length (ch_buf ch) < ch_cap ch then Some (ch\<lparr>ch_buf := ch_buf ch @ [v]\<rparr>)
      else Some ch)"

definition chan_close :: "'a chan \<Rightarrow> 'a chan" where
  "chan_close ch = ch\<lparr>ch_closed := True\<rparr>"

definition wf_chan :: "'a chan \<Rightarrow> bool" where
  "wf_chan ch \<longleftrightarrow> length (ch_buf ch) \<le> ch_cap ch \<and> (0 < ch_parked ch \<longrightarrow> ch_buf ch = [])"

lemma wf_make_chan [simp]: "wf_chan (make_chan n)"
  by (simp add: make_chan_def wf_chan_def)

lemma chan_trySend_wf: "wf_chan ch \<Longrightarrow> chan_trySend v ch = Some ch' \<Longrightarrow> wf_chan ch'"
  by (auto simp: chan_trySend_def wf_chan_def split: if_splits)

lemma chan_trySend_open:
  "\<not> ch_closed ch \<Longrightarrow> \<exists>ch'. chan_trySend v ch = Some ch' \<and> \<not> ch_closed ch' \<and> ch_cap ch' = ch_cap ch"
  by (auto simp: chan_trySend_def)

lemma chan_trySend_delivers:
  assumes "chan_trySend v ch = Some ch'"
    and "0 < ch_parked ch \<or> length (ch_buf ch) < ch_cap ch"
  shows "ch_got ch' @ ch_buf ch' \<noteq> ch_got ch @ ch_buf ch \<and> v \<in> set (ch_got ch' @ ch_buf ch')"
  using assms by (auto simp: chan_trySend_def split: if_splits)

end
