(* ===== verification/Election_State.thy ===== *)
theory Election_State
  imports Warden_Store Go_Chan
begin

text \<open>
  The state of one election \<open>Manager\<close> (\<^verbatim>\<open>src/services/warden/election\<close>): its
  configuration (\<^verbatim>\<open>config.go\<close>), the fields of the actor that owns it, its
  message types and the helpers every handler uses (\<^verbatim>\<open>manager.go\<close>).

  The actor's loop handles one event at a time, so every operation is a function
  of the manager. An event is handled at one instant, \<open>env_now\<close>, and sees one
  random source, \<open>env_Int63n\<close> (\<open>rng.Int63n\<close>, drawn at most once per event). The
  store is the parameter \<open>'st\<close> with its \<open>Save\<close> operation passed in. RPCs that the
  loop hands to worker goroutines are appended to \<open>outbox\<close>. A write to a nil map
  or a send on a closed channel, which would crash the process, sets \<open>panicked\<close>.
\<close>

subsection \<open>Configuration\<close>

datatype election_err =
    ErrNoTransport | ErrNoStore | ErrNoClock | ErrNoSelf | ErrNoPeers
  | ErrSelfMissing NodeID | ErrDuplicate NodeID | ErrLoadState store_err

text \<open>\<open>cfg_Discoverer\<close> records whether the configured discoverer is non-nil.\<close>

record Config =
  cfg_Self :: Node
  cfg_Peers :: "Node list"
  cfg_HeartbeatInterval :: duration
  cfg_SuspectAfter :: duration
  cfg_DeadAfter :: duration
  cfg_ElectionTimeoutMin :: duration
  cfg_ElectionTimeoutMax :: duration
  cfg_RPCTimeout :: duration
  cfg_ClusterID :: string
  cfg_BuildVersion :: string
  cfg_ViewFreshFor :: duration
  cfg_Discoverer :: bool
  cfg_JoinStability :: duration
  cfg_RemoveAfter :: duration

text \<open>
  Go's integer division truncates; the only dividend here, a repaired minimum, is
  positive. The sum wraps at 64 bits.
\<close>

definition orDefault :: "duration \<Rightarrow> duration \<Rightarrow> duration" where
  "orDefault x d = (if x \<le> 0 then d else x)"

definition applyDefaults :: "Config \<Rightarrow> Config" where
  "applyDefaults c =
     (let dead = orDefault (cfg_DeadAfter c) (15 * second);
          emin = orDefault (cfg_ElectionTimeoutMin c) (1500 * millisecond);
          emax = orDefault (cfg_ElectionTimeoutMax c) (3 * second)
      in c\<lparr>cfg_HeartbeatInterval := orDefault (cfg_HeartbeatInterval c) second,
           cfg_SuspectAfter := orDefault (cfg_SuspectAfter c) (5 * second),
           cfg_DeadAfter := dead,
           cfg_ElectionTimeoutMin := emin,
           cfg_ElectionTimeoutMax := (if emax \<le> emin then wrap_int64 (emin + emin div 2) else emax),
           cfg_RPCTimeout := orDefault (cfg_RPCTimeout c) (500 * millisecond),
           cfg_ClusterID := (if cfg_ClusterID c = [] then ''candacenet'' else cfg_ClusterID c),
           cfg_ViewFreshFor := orDefault (cfg_ViewFreshFor c) dead,
           cfg_JoinStability := orDefault (cfg_JoinStability c) (30 * second)\<rparr>)"

text \<open>The loop over the peers: the first duplicate is an error, and self is looked for.\<close>

fun scan_peers :: "NodeID \<Rightarrow> NodeID list \<Rightarrow> bool \<Rightarrow> Node list \<Rightarrow> NodeID + bool" where
  "scan_peers self seen found [] = Inr found"
| "scan_peers self seen found (p # ps) =
     (if node_ID p \<in> set seen then Inl (node_ID p)
      else scan_peers self (node_ID p # seen) (found \<or> node_ID p = self) ps)"

definition validateConfig :: "Config \<Rightarrow> bool \<Rightarrow> bool \<Rightarrow> bool \<Rightarrow> election_err option" where
  "validateConfig c tr st clock =
     (if \<not> tr then Some ErrNoTransport
      else if \<not> st then Some ErrNoStore
      else if \<not> clock then Some ErrNoClock
      else if node_ID (cfg_Self c) = [] then Some ErrNoSelf
      else if length (cfg_Peers c) = 0 then Some ErrNoPeers
      else case scan_peers (node_ID (cfg_Self c)) [] False (cfg_Peers c) of
             Inl i \<Rightarrow> Some (ErrDuplicate i)
           | Inr found \<Rightarrow>
               if \<not> found \<and> \<not> cfg_Discoverer c then Some (ErrSelfMissing (node_ID (cfg_Self c)))
               else None)"

subsection \<open>Messages\<close>

record ackRef =
  ack_version :: "64 word"
  ack_term :: Term

definition zeroAck :: ackRef where
  "zeroAck = \<lparr>ack_version = 0, ack_term = 0\<rparr>"

definition newerAck :: "ackRef \<Rightarrow> 64 word \<Rightarrow> Term \<Rightarrow> bool" where
  "newerAck a v t = (if v \<noteq> ack_version a then ack_version a < v else ack_term a < t)"

text \<open>An RPC error carries no information the loop reads: \<open>err\<close> says whether there was one.\<close>

record voteResultMsg =
  vm_term :: Term
  vm_from :: NodeID
  vm_resp :: VoteResponse
  vm_err :: bool

record heartbeatResultMsg =
  hm_term :: Term
  hm_peer :: Node
  hm_resp :: HeartbeatResponse
  hm_err :: bool
  hm_sentAt :: time
  hm_rtt :: duration
  hm_mversion :: "64 word"
  hm_mterm :: Term

record identifyResultMsg =
  im_node :: Node
  im_resp :: IdentifyResponse
  im_err :: bool

text \<open>What the loop hands to a worker goroutine, with what the worker reports back beside the reply.\<close>

datatype rpc =
    RpcVote Node VoteRequest
  | RpcHeartbeat Node HeartbeatRequest "64 word" Term
  | RpcIdentify Node

subsection \<open>The manager\<close>

record candidate =
  cd_node :: Node
  cd_inRoster :: bool
  cd_absentSince :: time
  cd_verified :: bool
  cd_eligibleSince :: time
  cd_lastContact :: time
  cd_probing :: bool

definition newCandidate :: "Node \<Rightarrow> candidate" where
  "newCandidate n =
     \<lparr>cd_node = n, cd_inRoster = False, cd_absentSince = 0, cd_verified = False,
      cd_eligibleSince = 0, cd_lastContact = 0, cd_probing = False\<rparr>"

record 'st Manager =
  cfg :: Config
  self :: Node
  discoveryMode :: bool
  membership :: Membership
  currentTerm :: Term
  votedFor :: NodeID
  role :: Role
  leaderID :: NodeID
  electionDeadline :: time
  electionsStarted :: "64 word"
  votesFrom :: "NodeID list option"
  becameLeaderAt :: time
  lastContact :: "(NodeID \<times> time) list"
  latencyMS :: "(NodeID \<times> rat) list"
  lastRoster :: Roster
  haveRoster :: bool
  candidates :: "(NodeID \<times> candidate) list"
  ackedVersion :: "(NodeID \<times> ackRef) list"
  rosterCh :: bool
  cachedView :: "ClusterView option"
  cachedViewAt :: time
  lastLeaderContact :: time
  electionTimer :: "duration option"
  subs :: "(nat \<times> ClusterView chan) list"
  nextSubID :: nat
  outbox :: "rpc list"
  activity :: "64 word"
  done_closed :: bool
  store :: 'st
  panicked :: bool

record env =
  env_now :: time
  env_Int63n :: "int \<Rightarrow> int"

definition NewManager ::
  "'st load_fn \<Rightarrow> Config \<Rightarrow> 'st \<Rightarrow> 'st \<times> (election_err + 'st Manager)" where
  "NewManager ld c0 st0 =
     (case validateConfig c0 True True True of
        Some e \<Rightarrow> (st0, Inl e)
      | None \<Rightarrow>
          let c = applyDefaults c0 in
          case ld st0 of
            (st, Inl e) \<Rightarrow> (st, Inl (ErrLoadState e))
          | (st, Inr loaded) \<Rightarrow>
              let peers = SortNodes (cfg_Peers c);
                  disc = cfg_Discoverer c;
                  persisted = Option.bind loaded ps_Membership;
                  mb = (if disc then
                          (case persisted of
                             Some p \<Rightarrow> (Clone p)\<lparr>mb_Voters := SortNodes (mb_Voters (Clone p))\<rparr>
                           | None \<Rightarrow> \<lparr>mb_Version = 1, mb_CreatedInTerm = 0, mb_Voters = peers\<rparr>)
                        else \<lparr>mb_Version = 0, mb_CreatedInTerm = 0, mb_Voters = peers\<rparr>)
              in (st, Inr \<lparr>cfg = c, self = cfg_Self c, discoveryMode = disc, membership = mb,
                     currentTerm = (case loaded of None \<Rightarrow> 0 | Some ps \<Rightarrow> ps_CurrentTerm ps),
                     votedFor = (case loaded of None \<Rightarrow> [] | Some ps \<Rightarrow> ps_VotedFor ps),
                     role = RoleFollower, leaderID = [], electionDeadline = 0, electionsStarted = 0,
                     votesFrom = None, becameLeaderAt = 0, lastContact = [], latencyMS = [],
                     lastRoster = \<lparr>ro_Nodes = []\<rparr>, haveRoster = False, candidates = [],
                     ackedVersion = [], rosterCh = False, cachedView = None, cachedViewAt = 0,
                     lastLeaderContact = 0, electionTimer = None, subs = [], nextSubID = 0,
                     outbox = [], activity = 0, done_closed = False, store = st, panicked = False\<rparr>))"

subsection \<open>Helpers of the loop\<close>

definition HandleIdentify :: "'st Manager \<Rightarrow> IdentifyResponse" where
  "HandleIdentify m =
     \<lparr>ir_ClusterID = cfg_ClusterID (cfg m), ir_NodeID = node_ID (self m),
      ir_Version = cfg_BuildVersion (cfg m)\<rparr>"

definition quorum :: "'st Manager \<Rightarrow> nat" where
  "quorum m = Quorum (length (mb_Voters (membership m)))"

definition isVoter :: "'st Manager \<Rightarrow> NodeID \<Rightarrow> bool" where
  "isVoter m i = HasVoter (membership m) i"

definition selfIsVoter :: "'st Manager \<Rightarrow> bool" where
  "selfIsVoter m = HasVoter (membership m) (node_ID (self m))"

definition isObserver :: "'st Manager \<Rightarrow> bool" where
  "isObserver m \<longleftrightarrow> discoveryMode m \<and> \<not> HasVoter (membership m) (node_ID (self m))"

definition voterPeers :: "'st Manager \<Rightarrow> Node list" where
  "voterPeers m = filter (\<lambda>v. node_ID v \<noteq> node_ID (self m)) (mb_Voters (membership m))"

definition spawnRPC :: "rpc \<Rightarrow> 'st Manager \<Rightarrow> 'st Manager" where
  "spawnRPC r m = m\<lparr>outbox := outbox m @ [r]\<rparr>"

definition storeSave :: "'st save_fn \<Rightarrow> PersistentState \<Rightarrow> 'st Manager \<Rightarrow> 'st Manager \<times> bool" where
  "storeSave sv ps m = (let (st, err) = sv ps (store m) in (m\<lparr>store := st\<rparr>, err = None))"

definition saveState :: "'st save_fn \<Rightarrow> Term \<Rightarrow> NodeID \<Rightarrow> 'st Manager \<Rightarrow> 'st Manager \<times> bool" where
  "saveState sv trm voted m =
     storeSave sv \<lparr>ps_CurrentTerm = trm, ps_VotedFor = voted,
                   ps_Membership = (if discoveryMode m then Some (Clone (membership m)) else None)\<rparr> m"

definition randTimeout :: "env \<Rightarrow> 'st Manager \<Rightarrow> duration" where
  "randTimeout e m =
     (let span = cfg_ElectionTimeoutMax (cfg m) - cfg_ElectionTimeoutMin (cfg m)
      in if span \<le> 0 then cfg_ElectionTimeoutMin (cfg m)
         else cfg_ElectionTimeoutMin (cfg m) + env_Int63n e span)"

text \<open>Stop, drain and reset leave the timer armed for \<open>d\<close> with an empty channel.\<close>

definition resetElectionTimer :: "duration \<Rightarrow> 'st Manager \<Rightarrow> 'st Manager" where
  "resetElectionTimer d m = m\<lparr>electionTimer := Some (if d < 0 then 0 else d)\<rparr>"

text \<open>The recurring pair: a fresh deadline one randomized timeout from now, and the timer to match.\<close>

definition rearmElection :: "env \<Rightarrow> 'st Manager \<Rightarrow> 'st Manager" where
  "rearmElection e m =
     (let timeout = randTimeout e m
      in resetElectionTimer timeout (m\<lparr>electionDeadline := env_now e + timeout\<rparr>))"

subsection \<open>What construction establishes\<close>

lemma applyDefaults_keeps [simp]:
  "cfg_Self (applyDefaults c) = cfg_Self c" "cfg_Peers (applyDefaults c) = cfg_Peers c"
  "cfg_Discoverer (applyDefaults c) = cfg_Discoverer c" "cfg_RemoveAfter (applyDefaults c) = cfg_RemoveAfter c"
  "cfg_BuildVersion (applyDefaults c) = cfg_BuildVersion c"
  by (simp_all add: applyDefaults_def Let_def)

lemma scan_peers_Inr:
  "scan_peers i seen found ps = Inr r \<Longrightarrow>
     (r \<longleftrightarrow> found \<or> i \<in> node_ID ` set ps) \<and> distinct (map node_ID ps) \<and>
     set seen \<inter> node_ID ` set ps = {}"
  by (induction i seen found ps rule: scan_peers.induct) (auto split: if_splits)

lemma scan_peers_Inl:
  "scan_peers i seen found ps = Inl d \<Longrightarrow> \<not> distinct (seen @ map node_ID ps)"
  by (induction i seen found ps rule: scan_peers.induct) (auto split: if_splits)

lemma validateConfig_None:
  assumes "validateConfig c True True True = None"
  shows "node_ID (cfg_Self c) \<noteq> []" "cfg_Peers c \<noteq> []" "distinct (map node_ID (cfg_Peers c))"
    "cfg_Discoverer c \<or> node_ID (cfg_Self c) \<in> node_ID ` set (cfg_Peers c)"
  using assms scan_peers_Inr [of "node_ID (cfg_Self c)" "[]" False "cfg_Peers c"]
  by (auto simp: validateConfig_def split: if_splits sum.splits)

lemma NewManager_Inr:
  assumes "NewManager ld c0 st0 = (st, Inr m)"
  obtains loaded where "validateConfig c0 True True True = None" and "ld st0 = (st, Inr loaded)"
    and "cfg m = applyDefaults c0" and "self m = cfg_Self c0" and "discoveryMode m = cfg_Discoverer c0"
    and "currentTerm m = (case loaded of None \<Rightarrow> 0 | Some ps \<Rightarrow> ps_CurrentTerm ps)"
    and "votedFor m = (case loaded of None \<Rightarrow> [] | Some ps \<Rightarrow> ps_VotedFor ps)"
    and "role m = RoleFollower" and "votesFrom m = None" and "outbox m = []" and "store m = st"
    and "subs m = []" and "\<not> panicked m" and "\<not> done_closed m" and "ackedVersion m = []"
    and "candidates m = []"
    and "membership m =
      (if cfg_Discoverer c0 then
         (case Option.bind loaded ps_Membership of
            Some p \<Rightarrow> p\<lparr>mb_Voters := SortNodes (mb_Voters p)\<rparr>
          | None \<Rightarrow> \<lparr>mb_Version = 1, mb_CreatedInTerm = 0, mb_Voters = SortNodes (cfg_Peers c0)\<rparr>)
       else \<lparr>mb_Version = 0, mb_CreatedInTerm = 0, mb_Voters = SortNodes (cfg_Peers c0)\<rparr>)"
  using assms unfolding NewManager_def Let_def
  by (auto split: option.splits prod.splits sum.splits if_splits)

end
