(* ===== verification/Election_Loop.thy ===== *)
theory Election_Loop
  imports Election_View
begin

text \<open>
  The event handlers of one manager and the loop that dispatches to them: the
  election handlers (\<^verbatim>\<open>election/election.go\<close>), heartbeats (\<^verbatim>\<open>election/heartbeat.go\<close>),
  dynamic membership (\<^verbatim>\<open>election/membership.go\<close>) and the actor loop with its entry
  points (\<^verbatim>\<open>election/manager.go\<close>). Each handler takes the store's \<open>Save\<close>, the
  instant and the random source of the event, and the manager.

  The candidate map is an association list. Go's iteration order over it is
  unspecified; no handler's result depends on it, beyond the order in which RPC
  workers are started.
\<close>

subsection \<open>Heartbeat fan-out\<close>

definition heartbeatTargets :: "'st Manager \<Rightarrow> Node list" where
  "heartbeatTargets m =
     voterPeers m @
     (if discoveryMode m then map (cd_node \<circ> snd) (filter (\<lambda>(_, c). cd_verified c) (candidates m))
      else [])"

definition sendHeartbeats :: "env \<Rightarrow> 'st Manager \<Rightarrow> 'st Manager" where
  "sendHeartbeats e m =
     (let view = snapshotView e m;
          memPtr = (if discoveryMode m then Some (Clone (membership m)) else None);
          req = \<lparr>hq_Term = currentTerm m, hq_LeaderID = node_ID (self m), hq_View = Some view,
                 hq_Membership = memPtr\<rparr>
      in fold (\<lambda>p. spawnRPC (RpcHeartbeat p req (mb_Version (membership m))
                               (mb_CreatedInTerm (membership m))))
           (heartbeatTargets m) m)"

subsection \<open>Dynamic membership\<close>

definition candidateEligible :: "'st Manager \<Rightarrow> candidate \<Rightarrow> time \<Rightarrow> bool" where
  "candidateEligible m c now \<longleftrightarrow>
     cd_inRoster c \<and> cd_verified c \<and> \<not> IsZero (cd_eligibleSince c)
     \<and> cfg_JoinStability (cfg m) \<le> time_Sub now (cd_eligibleSince c)"

definition changeSettled :: "'st Manager \<Rightarrow> bool" where
  "changeSettled m =
     (let v = mb_Version (membership m); ct = mb_CreatedInTerm (membership m);
          acked = length (filter (\<lambda>voter.
                     let a = map_get zeroAck (ackedVersion m) (node_ID voter)
                     in v < ack_version a \<or> (ack_version a = v \<and> ct \<le> ack_term a))
                   (mb_Voters (membership m)))
      in quorum m \<le> acked)"

text \<open>The minimum-keeping loops of the admission and removal scans: the first least ID wins.\<close>

fun lowestID :: "Node option \<Rightarrow> Node list \<Rightarrow> Node option" where
  "lowestID best [] = best"
| "lowestID None (n # ns) = lowestID (Some n) ns"
| "lowestID (Some b) (n # ns) = lowestID (Some (if node_ID n < node_ID b then n else b)) ns"

definition nextAdmission :: "env \<Rightarrow> 'st Manager \<Rightarrow> Node option" where
  "nextAdmission e m =
     lowestID None (map (cd_node \<circ> snd) (filter (\<lambda>(_, c). candidateEligible m c (env_now e)) (candidates m)))"

definition leaderSeesLiveMajority :: "'st Manager \<Rightarrow> time \<Rightarrow> bool" where
  "leaderSeesLiveMajority m now =
     (quorum m \<le>
        length (filter (\<lambda>v. node_ID v = node_ID (self m)
                          \<or> leaderPeerStatus m now (map_get 0 (lastContact m) (node_ID v)) = StatusAlive)
                  (mb_Voters (membership m))))"

definition removable :: "'st Manager \<Rightarrow> time \<Rightarrow> Node \<Rightarrow> bool" where
  "removable m now v =
     (if node_ID v = node_ID (self m) \<or> node_ID v \<in> set (map node_ID (ro_Nodes (lastRoster m))) then False
      else let lc = map_get 0 (lastContact m) (node_ID v)
           in if leaderPeerStatus m now lc \<noteq> StatusDead then False
              else let ref = (if becameLeaderAt m < lc then lc else becameLeaderAt m)
                   in \<not> time_Sub now ref < cfg_RemoveAfter (cfg m))"

definition nextRemoval :: "env \<Rightarrow> 'st Manager \<Rightarrow> Node option" where
  "nextRemoval e m =
     (if \<not> haveRoster m then None
      else if \<not> leaderSeesLiveMajority m (env_now e) then None
      else lowestID None (filter (removable m (env_now e)) (mb_Voters (membership m))))"

text \<open>The map \<open>ackedVersion\<close> is never nil: it is made at construction and by \<open>becomeLeader\<close>.\<close>

definition applyMembershipChange ::
  "'st save_fn \<Rightarrow> env \<Rightarrow> Membership \<Rightarrow> Node \<Rightarrow> 'st Manager \<Rightarrow> 'st Manager" where
  "applyMembershipChange sv e newM target m =
     (let (m1, ok) = storeSave sv \<lparr>ps_CurrentTerm = currentTerm m, ps_VotedFor = votedFor m,
                                   ps_Membership = Some (Clone newM)\<rparr> m
      in if \<not> ok then m1
         else let m2 = m1\<lparr>membership := Clone newM,
                          ackedVersion := map_put (node_ID (self m1))
                            \<lparr>ack_version = mb_Version newM, ack_term = mb_CreatedInTerm newM\<rparr>
                            (ackedVersion m1),
                          candidates := map_del (node_ID target) (candidates m1)\<rparr>
              in sendHeartbeats e (publish e m2))"

definition maybeStartMembershipChange :: "'st save_fn \<Rightarrow> env \<Rightarrow> 'st Manager \<Rightarrow> 'st Manager" where
  "maybeStartMembershipChange sv e m =
     (if \<not> discoveryMode m \<or> role m \<noteq> RoleLeader then m
      else if \<not> changeSettled m then m
      else case nextAdmission e m of
        Some node \<Rightarrow>
          applyMembershipChange sv e
            \<lparr>mb_Version = mb_Version (membership m) + 1, mb_CreatedInTerm = currentTerm m,
             mb_Voters = SortNodes (mb_Voters (membership m) @ [node])\<rparr> node m
      | None \<Rightarrow>
          if 0 < cfg_RemoveAfter (cfg m) then
            (case nextRemoval e m of
               Some node \<Rightarrow>
                 applyMembershipChange sv e
                   \<lparr>mb_Version = mb_Version (membership m) + 1, mb_CreatedInTerm = currentTerm m,
                    mb_Voters = filter (\<lambda>v. node_ID v \<noteq> node_ID node) (mb_Voters (membership m))\<rparr> node m
             | None \<Rightarrow> m)
          else m)"

definition adoptMembership :: "'st save_fn \<Rightarrow> Membership \<Rightarrow> 'st Manager \<Rightarrow> 'st Manager \<times> bool" where
  "adoptMembership sv newM m =
     (let (m1, ok) = storeSave sv \<lparr>ps_CurrentTerm = currentTerm m, ps_VotedFor = votedFor m,
                                   ps_Membership = Some (Clone newM)\<rparr> m
      in if \<not> ok then (m1, False)
         else let wasVoter = selfIsVoter m1;
                  m2 = m1\<lparr>membership := Clone newM\<rparr>;
                  nowVoter = selfIsVoter m2;
                  m3 = (if wasVoter \<and> \<not> nowVoter then m2\<lparr>role := RoleFollower, votesFrom := None\<rparr> else m2)
              in (m3\<lparr>candidates := filter (\<lambda>(i, _). \<not> (i = node_ID (self m3) \<or> isVoter m3 i))
                                     (candidates m3)\<rparr>, True))"

subsection \<open>Discovery bookkeeping\<close>

definition probing_due :: "candidate \<Rightarrow> bool" where
  "probing_due c \<longleftrightarrow> \<not> (\<not> cd_inRoster c \<or> cd_probing c \<or> cd_verified c)"

definition probeCandidates :: "'st Manager \<Rightarrow> 'st Manager" where
  "probeCandidates m =
     fold (\<lambda>(_, c). if probing_due c then spawnRPC (RpcIdentify (cd_node c)) else id) (candidates m)
       (m\<lparr>candidates := map (\<lambda>(i, c). (i, if probing_due c then c\<lparr>cd_probing := True\<rparr> else c))
                          (candidates m)\<rparr>)"

definition keepCandidate :: "'st Manager \<Rightarrow> time \<Rightarrow> NodeID \<Rightarrow> candidate \<Rightarrow> bool" where
  "keepCandidate m now i c =
     (if i = node_ID (self m) \<or> isVoter m i then False
      else if \<not> cd_inRoster c \<and> \<not> IsZero (cd_absentSince c)
              \<and> cfg_JoinStability (cfg m) \<le> time_Sub now (cd_absentSince c) then False
      else True)"

definition refreshEligibility :: "time \<Rightarrow> candidate \<Rightarrow> candidate" where
  "refreshEligibility now c =
     (if cd_inRoster c \<and> cd_verified c
      then (if IsZero (cd_eligibleSince c) then c\<lparr>cd_eligibleSince := now\<rparr> else c)
      else c\<lparr>cd_eligibleSince := 0\<rparr>)"

definition maintainDiscovery :: "time \<Rightarrow> 'st Manager \<Rightarrow> 'st Manager" where
  "maintainDiscovery now m =
     probeCandidates
       (m\<lparr>candidates := map (\<lambda>(i, c). (i, refreshEligibility now c))
                          (filter (\<lambda>(i, c). keepCandidate m now i c) (candidates m))\<rparr>)"

text \<open>One roster entry: the candidate is created on first sight and refreshed.\<close>

definition refreshCandidate :: "Node \<Rightarrow> candidate option \<Rightarrow> candidate" where
  "refreshCandidate node tracked =
     (let c0 = (case tracked of None \<Rightarrow> newCandidate node | Some c \<Rightarrow> c);
          c1 = c0\<lparr>cd_node := node\<rparr>;
          c2 = (if \<not> cd_inRoster c1
                then c1\<lparr>cd_inRoster := True, cd_verified := False, cd_eligibleSince := 0\<rparr> else c1)
      in c2\<lparr>cd_absentSince := 0\<rparr>)"

definition rosterEntry ::
  "'st Manager \<Rightarrow> NodeID \<times> Node \<Rightarrow> (NodeID \<times> candidate) list \<Rightarrow> (NodeID \<times> candidate) list" where
  "rosterEntry m kn cs =
     (if fst kn = node_ID (self m) \<or> isVoter m (fst kn) then cs
      else map_put (fst kn) (refreshCandidate (snd kn) (map_of cs (fst kn))) cs)"

definition markAbsent :: "time \<Rightarrow> (NodeID \<times> Node) list \<Rightarrow> NodeID \<Rightarrow> candidate \<Rightarrow> candidate" where
  "markAbsent now present i c =
     (if map_of present i = None \<and> cd_inRoster c
      then c\<lparr>cd_inRoster := False, cd_absentSince := now, cd_eligibleSince := 0\<rparr> else c)"

definition onRoster :: "'st save_fn \<Rightarrow> env \<Rightarrow> Roster \<Rightarrow> 'st Manager \<Rightarrow> 'st Manager" where
  "onRoster sv e r m0 =
     (let now = env_now e;
          m1 = m0\<lparr>lastRoster := r, haveRoster := True\<rparr>;
          present = fold (\<lambda>n. map_put (node_ID n) n) (ro_Nodes r) [];
          added = fold (rosterEntry m1) present (candidates m1);
          m2 = m1\<lparr>candidates := map (\<lambda>(i, c). (i, markAbsent now present i c)) added\<rparr>;
          m3 = maintainDiscovery now m2
      in if role m3 = RoleLeader then maybeStartMembershipChange sv e m3 else m3)"

definition onIdentifyResult ::
  "'st save_fn \<Rightarrow> env \<Rightarrow> identifyResultMsg \<Rightarrow> 'st Manager \<Rightarrow> 'st Manager" where
  "onIdentifyResult sv e r m =
     (case map_of (candidates m) (node_ID (im_node r)) of
        None \<Rightarrow> m
      | Some c0 \<Rightarrow>
          let c = c0\<lparr>cd_probing := False\<rparr>;
              k = node_ID (im_node r);
              now = env_now e
          in if im_err r \<or> ir_ClusterID (im_resp r) \<noteq> cfg_ClusterID (cfg m)
                \<or> ir_NodeID (im_resp r) \<noteq> node_ID (im_node r)
             then m\<lparr>candidates := map_put k (c\<lparr>cd_verified := False, cd_eligibleSince := 0\<rparr>) (candidates m)\<rparr>
             else let c1 = c\<lparr>cd_verified := True, cd_lastContact := now\<rparr>;
                      c2 = (if cd_inRoster c1 \<and> IsZero (cd_eligibleSince c1)
                            then c1\<lparr>cd_eligibleSince := now\<rparr> else c1);
                      m1 = m\<lparr>candidates := map_put k c2 (candidates m)\<rparr>
                  in if role m1 = RoleLeader then maybeStartMembershipChange sv e m1 else m1)"

subsection \<open>Elections\<close>

definition becomeLeader :: "'st save_fn \<Rightarrow> env \<Rightarrow> 'st Manager \<Rightarrow> 'st Manager" where
  "becomeLeader sv e m =
     (let m1 = m\<lparr>role := RoleLeader, leaderID := node_ID (self m), becameLeaderAt := env_now e,
                 lastContact := [], latencyMS := []\<rparr>;
          m2 = (if discoveryMode m1
                then m1\<lparr>ackedVersion := [(node_ID (self m1),
                       \<lparr>ack_version = mb_Version (membership m1),
                        ack_term = mb_CreatedInTerm (membership m1)\<rparr>)]\<rparr> else m1);
          m3 = sendHeartbeats e (publish e m2)
      in if discoveryMode m3 then maybeStartMembershipChange sv e m3 else m3)"

definition stepDown :: "'st save_fn \<Rightarrow> env \<Rightarrow> Term \<Rightarrow> 'st Manager \<Rightarrow> 'st Manager" where
  "stepDown sv e newTerm m =
     (let (m1, _) = saveState sv newTerm [] m;
          m2 = m1\<lparr>currentTerm := newTerm, votedFor := [], role := RoleFollower, leaderID := []\<rparr>
      in publish e (rearmElection e m2))"

definition startElection :: "'st save_fn \<Rightarrow> env \<Rightarrow> 'st Manager \<Rightarrow> 'st Manager" where
  "startElection sv e m =
     (if isObserver m then resetElectionTimer (randTimeout e m) m
      else let newTerm = currentTerm m + 1;
               (m1, ok) = saveState sv newTerm (node_ID (self m)) m
           in if \<not> ok then resetElectionTimer (randTimeout e m1) m1
              else let m2 = m1\<lparr>currentTerm := newTerm, votedFor := node_ID (self m1),
                               role := RoleCandidate, leaderID := [],
                               electionsStarted := electionsStarted m1 + 1,
                               votesFrom := Some [node_ID (self m1)]\<rparr>;
                       m3 = publish e (rearmElection e m2);
                       req = \<lparr>vq_Term = currentTerm m3, vq_CandidateID = node_ID (self m3)\<rparr>;
                       m4 = fold (\<lambda>p. spawnRPC (RpcVote p req)) (voterPeers m3) m3
                   in if quorum m4 \<le> (case votesFrom m4 of None \<Rightarrow> 0 | Some vs \<Rightarrow> length vs)
                      then becomeLeader sv e m4 else m4)"

definition onElectionTimeout :: "'st save_fn \<Rightarrow> env \<Rightarrow> 'st Manager \<Rightarrow> 'st Manager" where
  "onElectionTimeout sv e m =
     (if role m = RoleLeader then resetElectionTimer (randTimeout e m) m
      else if isObserver m then resetElectionTimer (randTimeout e m) m
      else if env_now e < electionDeadline m
      then resetElectionTimer (time_Sub (electionDeadline m) (env_now e)) m
      else startElection sv e m)"

text \<open>Writing the tally of a candidate whose vote map is nil would panic.\<close>

definition onVoteResult :: "'st save_fn \<Rightarrow> env \<Rightarrow> voteResultMsg \<Rightarrow> 'st Manager \<Rightarrow> 'st Manager" where
  "onVoteResult sv e r m =
     (if role m \<noteq> RoleCandidate \<or> vm_term r \<noteq> currentTerm m then m
      else if vm_err r then m
      else if currentTerm m < vr_Term (vm_resp r) then stepDown sv e (vr_Term (vm_resp r)) m
      else if \<not> vr_Granted (vm_resp r) then m
      else if \<not> isVoter m (vm_from r) then m
      else case votesFrom m of
        None \<Rightarrow> m\<lparr>panicked := True\<rparr>
      | Some vs \<Rightarrow>
          let vs' = (if vm_from r \<in> set vs then vs else vm_from r # vs);
              m1 = m\<lparr>votesFrom := Some vs'\<rparr>
          in if quorum m1 \<le> length vs' then becomeLeader sv e m1 else m1)"

definition onVote ::
  "'st save_fn \<Rightarrow> env \<Rightarrow> VoteRequest \<Rightarrow> 'st Manager \<Rightarrow> 'st Manager \<times> VoteResponse" where
  "onVote sv e req m =
     (let refuse = (\<lambda>m. (m, \<lparr>vr_Term = currentTerm m, vr_Granted = False, vr_VoterID = node_ID (self m)\<rparr>))
      in if isObserver m then refuse m
         else if vq_Term req < currentTerm m then refuse m
         else
           let termToUse = (if currentTerm m < vq_Term req then vq_Term req else currentTerm m);
               effVotedFor = (if currentTerm m < vq_Term req then [] else votedFor m)
           in if isVoter m (vq_CandidateID req) \<and> (effVotedFor = [] \<or> effVotedFor = vq_CandidateID req)
              then let (m1, ok) = saveState sv termToUse (vq_CandidateID req) m
                   in if \<not> ok then refuse m1
                      else let m2 = m1\<lparr>currentTerm := termToUse, votedFor := vq_CandidateID req,
                                       role := RoleFollower, leaderID := []\<rparr>;
                               m3 = publish e (rearmElection e m2)
                           in (m3, \<lparr>vr_Term = currentTerm m3, vr_Granted = True, vr_VoterID = node_ID (self m3)\<rparr>)
              else if currentTerm m < vq_Term req
              then let (m1, ok) = saveState sv (vq_Term req) [] m
                   in if \<not> ok then refuse m1
                      else refuse (publish e (rearmElection e
                             (m1\<lparr>currentTerm := vq_Term req, votedFor := [], role := RoleFollower, leaderID := []\<rparr>)))
              else refuse m)"

subsection \<open>Heartbeats\<close>

definition onHeartbeatTick :: "'st save_fn \<Rightarrow> env \<Rightarrow> 'st Manager \<Rightarrow> 'st Manager" where
  "onHeartbeatTick sv e m =
     (let m1 = (if discoveryMode m then maintainDiscovery (env_now e) m else m)
      in if role m1 \<noteq> RoleLeader then m1
         else let m2 = sendHeartbeats e m1
              in if discoveryMode m2 then maybeStartMembershipChange sv e m2 else m2)"

text \<open>The liveness part of a heartbeat result: a response at all is contact, whatever it says.\<close>

definition recordContact :: "heartbeatResultMsg \<Rightarrow> 'st Manager \<Rightarrow> 'st Manager" where
  "recordContact r m =
     (if isVoter m (node_ID (hm_peer r))
      then m\<lparr>lastContact := map_put (node_ID (hm_peer r)) (hm_sentAt r) (lastContact m),
             latencyMS := map_put (node_ID (hm_peer r)) (of_int (hm_rtt r) / of_int millisecond)
                            (latencyMS m)\<rparr>
      else case map_of (candidates m) (node_ID (hm_peer r)) of
             None \<Rightarrow> m
           | Some c \<Rightarrow> m\<lparr>candidates := map_put (node_ID (hm_peer r)) (c\<lparr>cd_lastContact := hm_sentAt r\<rparr>)
                                          (candidates m)\<rparr>)"

text \<open>The settle part: an acknowledged membership newer than the last one acknowledged by that voter.\<close>

definition recordAck :: "heartbeatResultMsg \<Rightarrow> 'st Manager \<Rightarrow> 'st Manager" where
  "recordAck r m =
     (let k = node_ID (hm_peer r)
      in if isVoter m k \<and> discoveryMode m
            \<and> newerAck (map_get zeroAck (ackedVersion m) k) (hm_mversion r) (hm_mterm r)
         then m\<lparr>ackedVersion := map_put k \<lparr>ack_version = hm_mversion r, ack_term = hm_mterm r\<rparr>
                                 (ackedVersion m)\<rparr>
         else m)"

definition onHeartbeatResult ::
  "'st save_fn \<Rightarrow> env \<Rightarrow> heartbeatResultMsg \<Rightarrow> 'st Manager \<Rightarrow> 'st Manager" where
  "onHeartbeatResult sv e r m =
     (if role m \<noteq> RoleLeader \<or> hm_term r \<noteq> currentTerm m then m
      else if hm_err r then m
      else if currentTerm m < hr_Term (hm_resp r) then stepDown sv e (hr_Term (hm_resp r)) m
      else
        let m1 = recordContact r m
        in if \<not> hr_OK (hm_resp r) then publish e m1
           else
             let m3 = publish e (recordAck r m1)
             in if discoveryMode m3 then maybeStartMembershipChange sv e m3 else m3)"

text \<open>The first half of an accepted heartbeat: a newer term, the leader, its view.\<close>

definition acceptLeader :: "'st save_fn \<Rightarrow> env \<Rightarrow> HeartbeatRequest \<Rightarrow> 'st Manager \<Rightarrow> 'st Manager" where
  "acceptLeader sv e req m =
     (let now = env_now e;
          m1 = (if currentTerm m < hq_Term req
                then (let (m', _) = saveState sv (hq_Term req) [] m
                      in m'\<lparr>currentTerm := hq_Term req, votedFor := []\<rparr>)
                else m);
          m2 = m1\<lparr>role := RoleFollower, leaderID := hq_LeaderID req, lastLeaderContact := now\<rparr>
      in case hq_View req of None \<Rightarrow> m2
         | Some v \<Rightarrow> m2\<lparr>cachedView := Some (copyView v), cachedViewAt := now\<rparr>)"

text \<open>The second half: the membership it carries, if it is newer; the result is the acknowledgement.\<close>

definition adoptOffered :: "'st save_fn \<Rightarrow> HeartbeatRequest \<Rightarrow> 'st Manager \<Rightarrow> 'st Manager \<times> bool" where
  "adoptOffered sv req m =
     (case hq_Membership req of
        Some newM \<Rightarrow>
          if discoveryMode m \<and> Supersedes newM (membership m) then adoptMembership sv newM m else (m, True)
      | None \<Rightarrow> (m, True))"

definition onHeartbeat ::
  "'st save_fn \<Rightarrow> env \<Rightarrow> HeartbeatRequest \<Rightarrow> 'st Manager \<Rightarrow> 'st Manager \<times> HeartbeatResponse" where
  "onHeartbeat sv e req m =
     (if hq_Term req < currentTerm m
      then (m, \<lparr>hr_Term = currentTerm m, hr_OK = False, hr_NodeID = node_ID (self m)\<rparr>)
      else
        let (m4, acked) = adoptOffered sv req (acceptLeader sv e req m);
            m5 = publish e (rearmElection e m4)
        in (m5, \<lparr>hr_Term = currentTerm m5, hr_OK = acked, hr_NodeID = node_ID (self m5)\<rparr>))"

end
