(* ===== verification/Election_Actor.thy ===== *)
theory Election_Actor
  imports Election_Loop
begin

text \<open>
  The actor around the handlers (\<^verbatim>\<open>election/manager.go\<close>): the inbound messages, the
  dispatch \<open>handleEvent\<close>, one turn \<open>loop_step\<close> of the select loop in \<open>Run\<close> with
  the arming before it and \<open>shutdown\<close> after it, the entry points other goroutines
  call, and the RPC workers with their counter (\<^verbatim>\<open>election/inflight.go\<close>).

  What a turn of the loop selects is its \<open>input\<close>. The reply an entry point waits
  for is the second component of the turn's result. The test-only barrier message,
  which runs further turns until nothing is ready, is the iteration \<open>drainReady\<close>.
\<close>

datatype event =
    VoteMsg VoteRequest
  | HeartbeatMsg HeartbeatRequest
  | VoteResultMsg voteResultMsg
  | HeartbeatResultMsg heartbeatResultMsg
  | IdentifyResultMsg identifyResultMsg
  | ViewMsg
  | SubscribeMsg "ClusterView chan"
  | UnsubscribeMsg nat

datatype reply =
    NoReply
  | ReplyVote VoteResponse
  | ReplyHeartbeat HeartbeatResponse
  | ReplyView ClusterView
  | ReplySub nat
  | ClosedSubs "ClusterView chan list"

datatype input =
    Event event
  | RosterSnapshot Roster
  | RosterClosed
  | ElectionTimerC
  | HeartbeatTickerC
  | PublishTickerC
  | CtxDone

definition addActivity :: "'st Manager \<Rightarrow> 'st Manager" where
  "addActivity m = m\<lparr>activity := activity m + 1\<rparr>"

definition handleEvent ::
  "'st save_fn \<Rightarrow> env \<Rightarrow> event \<Rightarrow> 'st Manager \<Rightarrow> 'st Manager \<times> reply" where
  "handleEvent sv e ev m =
     (case ev of
        VoteMsg req \<Rightarrow> (let (m1, r) = onVote sv e req m in (addActivity m1, ReplyVote r))
      | HeartbeatMsg req \<Rightarrow> (let (m1, r) = onHeartbeat sv e req m in (addActivity m1, ReplyHeartbeat r))
      | VoteResultMsg r \<Rightarrow> (addActivity (onVoteResult sv e r m), NoReply)
      | HeartbeatResultMsg r \<Rightarrow> (addActivity (onHeartbeatResult sv e r m), NoReply)
      | IdentifyResultMsg r \<Rightarrow> (addActivity (onIdentifyResult sv e r m), NoReply)
      | ViewMsg \<Rightarrow> (m, ReplyView (snapshotView e m))
      | SubscribeMsg ch \<Rightarrow> (let (m1, sid) = onSubscribe e ch m in (m1, ReplySub sid))
      | UnsubscribeMsg sid \<Rightarrow>
          (let (m1, closed) = onUnsubscribe sid m
           in (m1, case closed of None \<Rightarrow> NoReply | Some ch \<Rightarrow> ClosedSubs [ch])))"

text \<open>
  Arming at the start of \<open>Run\<close>; \<open>discovered\<close> says whether \<open>Discover\<close> returned a
  channel rather than an error.
\<close>

definition Run_start :: "env \<Rightarrow> bool \<Rightarrow> 'st Manager \<Rightarrow> 'st Manager" where
  "Run_start e discovered m =
     (let m1 = (if discoveryMode m then (if discovered then m\<lparr>rosterCh := True\<rparr> else m) else m);
          timeout = randTimeout e m1
      in m1\<lparr>electionDeadline := env_now e + timeout, electionTimer := Some timeout\<rparr>)"

definition shutdown :: "'st Manager \<Rightarrow> 'st Manager \<times> reply" where
  "shutdown m =
     (m\<lparr>done_closed := True, electionTimer := None, subs := []\<rparr>,
      ClosedSubs (map (chan_close \<circ> snd) (subs m)))"

text \<open>One turn of the loop. A nil roster channel is never selected; nothing runs once \<open>done\<close> is closed.\<close>

definition loop_step ::
  "'st save_fn \<Rightarrow> env \<Rightarrow> input \<Rightarrow> 'st Manager \<Rightarrow> 'st Manager \<times> reply" where
  "loop_step sv e i m =
     (if done_closed m then (m, NoReply)
      else case i of
        CtxDone \<Rightarrow> shutdown m
      | Event ev \<Rightarrow> handleEvent sv e ev m
      | RosterClosed \<Rightarrow> (m\<lparr>rosterCh := False\<rparr>, NoReply)
      | RosterSnapshot r \<Rightarrow>
          (if rosterCh m then (addActivity (onRoster sv e r m), NoReply) else (m, NoReply))
      | ElectionTimerC \<Rightarrow> (addActivity (onElectionTimeout sv e m), NoReply)
      | HeartbeatTickerC \<Rightarrow> (addActivity (onHeartbeatTick sv e m), NoReply)
      | PublishTickerC \<Rightarrow> (addActivity (publish e m), NoReply))"

text \<open>The drained inputs, in the order the select picks them; cancellation is not among its cases.\<close>

fun drainReady :: "'st save_fn \<Rightarrow> env \<Rightarrow> input list \<Rightarrow> 'st Manager \<Rightarrow> 'st Manager" where
  "drainReady sv e [] m = m"
| "drainReady sv e (i # ready) m =
     drainReady sv e ready (if i = CtxDone then m else fst (loop_step sv e i m))"

subsection \<open>Entry points\<close>

text \<open>How the caller's wait ends: answered, or its context ends before or after the message is accepted.\<close>

datatype wait = Answered | GaveUpBefore | GaveUpAfter

definition waitForReply :: "bool \<Rightarrow> wait \<Rightarrow> 'a option \<Rightarrow> 'a \<Rightarrow> 'a" where
  "waitForReply isDone w reply fallback =
     (if isDone \<or> w \<noteq> Answered then fallback
      else case reply of None \<Rightarrow> fallback | Some r \<Rightarrow> r)"

definition HandleVote ::
  "'st save_fn \<Rightarrow> env \<Rightarrow> wait \<Rightarrow> VoteRequest \<Rightarrow> 'st Manager \<Rightarrow> 'st Manager \<times> VoteResponse" where
  "HandleVote sv e w req m =
     (let fallback = \<lparr>vr_Term = 0, vr_Granted = False, vr_VoterID = node_ID (self m)\<rparr>
      in if done_closed m \<or> w = GaveUpBefore then (m, fallback)
         else let (m1, r) = loop_step sv e (Event (VoteMsg req)) m
              in (m1, waitForReply (done_closed m) w
                        (case r of ReplyVote v \<Rightarrow> Some v | _ \<Rightarrow> None) fallback))"

definition HandleHeartbeat ::
  "'st save_fn \<Rightarrow> env \<Rightarrow> wait \<Rightarrow> HeartbeatRequest \<Rightarrow> 'st Manager \<Rightarrow> 'st Manager \<times> HeartbeatResponse" where
  "HandleHeartbeat sv e w req m =
     (let fallback = \<lparr>hr_Term = 0, hr_OK = False, hr_NodeID = node_ID (self m)\<rparr>
      in if done_closed m \<or> w = GaveUpBefore then (m, fallback)
         else let (m1, r) = loop_step sv e (Event (HeartbeatMsg req)) m
              in (m1, waitForReply (done_closed m) w
                        (case r of ReplyHeartbeat v \<Rightarrow> Some v | _ \<Rightarrow> None) fallback))"

definition View :: "'st save_fn \<Rightarrow> env \<Rightarrow> 'st Manager \<Rightarrow> 'st Manager \<times> ClusterView" where
  "View sv e m =
     (if done_closed m then (m, offlineView m)
      else let (m1, r) = loop_step sv e (Event ViewMsg) m
           in (m1, waitForReply (done_closed m) Answered
                     (case r of ReplyView v \<Rightarrow> Some v | _ \<Rightarrow> None) (offlineView m)))"

text \<open>The result is the subscription's id, or the channel closed at once when the loop is gone.\<close>

definition Subscribe ::
  "'st save_fn \<Rightarrow> env \<Rightarrow> int \<Rightarrow> 'st Manager \<Rightarrow> 'st Manager \<times> (ClusterView chan + nat)" where
  "Subscribe sv e buf m =
     (let ch = make_chan (nat (if buf < 0 then 0 else buf))
      in if done_closed m then (m, Inl (chan_close ch))
         else let (m1, r) = loop_step sv e (Event (SubscribeMsg ch)) m
              in (m1, case r of ReplySub sid \<Rightarrow> Inr sid | _ \<Rightarrow> Inl (chan_close ch)))"

subsection \<open>RPC workers\<close>

text \<open>
  What a worker posts back. \<open>None\<close> is a transport error, with which the transport
  returns a zero response. \<open>t0\<close> and \<open>t1\<close> are the worker's two clock readings.
\<close>

definition zeroVoteResponse :: VoteResponse where
  "zeroVoteResponse = \<lparr>vr_Term = 0, vr_Granted = False, vr_VoterID = []\<rparr>"

definition zeroHeartbeatResponse :: HeartbeatResponse where
  "zeroHeartbeatResponse = \<lparr>hr_Term = 0, hr_OK = False, hr_NodeID = []\<rparr>"

definition zeroIdentifyResponse :: IdentifyResponse where
  "zeroIdentifyResponse = \<lparr>ir_ClusterID = [], ir_NodeID = [], ir_Version = []\<rparr>"

definition voteWorker :: "Node \<Rightarrow> VoteRequest \<Rightarrow> VoteResponse option \<Rightarrow> event" where
  "voteWorker p req res =
     VoteResultMsg \<lparr>vm_term = vq_Term req, vm_from = node_ID p,
       vm_resp = (case res of None \<Rightarrow> zeroVoteResponse | Some r \<Rightarrow> r), vm_err = (res = None)\<rparr>"

definition heartbeatWorker ::
  "Node \<Rightarrow> HeartbeatRequest \<Rightarrow> 64 word \<Rightarrow> Term \<Rightarrow> time \<Rightarrow> time \<Rightarrow> HeartbeatResponse option \<Rightarrow> event" where
  "heartbeatWorker p req mver mterm t0 t1 res =
     HeartbeatResultMsg \<lparr>hm_term = hq_Term req, hm_peer = p,
       hm_resp = (case res of None \<Rightarrow> zeroHeartbeatResponse | Some r \<Rightarrow> r), hm_err = (res = None),
       hm_sentAt = t0, hm_rtt = time_Sub t1 t0, hm_mversion = mver, hm_mterm = mterm\<rparr>"

definition identifyWorker :: "Node \<Rightarrow> IdentifyResponse option \<Rightarrow> event" where
  "identifyWorker p res =
     IdentifyResultMsg \<lparr>im_node = p,
       im_resp = (case res of None \<Rightarrow> zeroIdentifyResponse | Some r \<Rightarrow> r), im_err = (res = None)\<rparr>"

text \<open>\<open>deliver\<close>: the result reaches the loop unless the manager has shut down.\<close>

definition deliver :: "'st save_fn \<Rightarrow> env \<Rightarrow> event \<Rightarrow> 'st Manager \<Rightarrow> 'st Manager" where
  "deliver sv e ev m = (if done_closed m then m else fst (loop_step sv e (Event ev) m))"

subsection \<open>The in-flight counter\<close>

record inflightTracker =
  it_n :: int

definition newInflightTracker :: inflightTracker where
  "newInflightTracker = \<lparr>it_n = 0\<rparr>"

definition it_add :: "int \<Rightarrow> inflightTracker \<Rightarrow> inflightTracker" where
  "it_add delta t = t\<lparr>it_n := it_n t + delta\<rparr>"

text \<open>The second component says whether the waiters are woken.\<close>

definition it_done :: "inflightTracker \<Rightarrow> inflightTracker \<times> bool" where
  "it_done t = (let t1 = t\<lparr>it_n := it_n t - 1\<rparr> in (t1, it_n t1 = 0))"

text \<open>\<open>wait\<close> returns exactly when its loop condition is false.\<close>

definition it_wait_returns :: "inflightTracker \<Rightarrow> bool" where
  "it_wait_returns t \<longleftrightarrow> \<not> it_n t > 0"

definition it_count :: "inflightTracker \<Rightarrow> int" where
  "it_count t = it_n t"

end
