(* ===== verification/Election_Frame.thy ===== *)
theory Election_Frame
  imports Election_Actor
begin

text \<open>
  What no handler changes, for any store: a manager's identity and configuration,
  and in static mode its membership; and the RPCs it starts in its own name only.
  The helpers are given in update form, so that the simplifier reads every field
  of their result.
\<close>

subsection \<open>Helpers in update form\<close>

definition published :: "env \<Rightarrow> 'st Manager \<Rightarrow> (nat \<times> ClusterView chan) list" where
  "published e m = map (\<lambda>(i, ch). (i, sendView (snapshotView e m) ch)) (subs m)"

definition publish_panics :: "env \<Rightarrow> 'st Manager \<Rightarrow> bool" where
  "publish_panics e m \<longleftrightarrow> list_ex (\<lambda>(i, ch). chan_trySend (snapshotView e m) ch = None) (subs m)"

lemma publish_eq [frame_simps]:
  "publish e m = m\<lparr>subs := published e m, panicked := panicked m \<or> publish_panics e m\<rparr>"
  by (cases m) (simp add: publish_def published_def publish_panics_def Let_def)

lemma fold_spawnRPC [frame_simps]:
  "fold (\<lambda>p. spawnRPC (f p)) ps m = m\<lparr>outbox := outbox m @ map f ps\<rparr>"
  by (induction ps arbitrary: m) (auto simp: spawnRPC_def)

definition heartbeatsOf :: "env \<Rightarrow> 'st Manager \<Rightarrow> rpc list" where
  "heartbeatsOf e m =
     map (\<lambda>p. RpcHeartbeat p
            \<lparr>hq_Term = currentTerm m, hq_LeaderID = node_ID (self m), hq_View = Some (snapshotView e m),
             hq_Membership = (if discoveryMode m then Some (membership m) else None)\<rparr>
            (mb_Version (membership m)) (mb_CreatedInTerm (membership m))) (heartbeatTargets m)"

lemma sendHeartbeats_eq [frame_simps]:
  "sendHeartbeats e m = m\<lparr>outbox := outbox m @ heartbeatsOf e m\<rparr>"
  by (simp add: sendHeartbeats_def heartbeatsOf_def Let_def fold_spawnRPC)

lemma fold_probe:
  "fold (\<lambda>(i, c). if P c then spawnRPC (f c) else id) cs m =
     m\<lparr>outbox := outbox m @ map (f \<circ> snd) (filter (P \<circ> snd) cs)\<rparr>"
  by (induction cs arbitrary: m) (auto simp: spawnRPC_def)

lemma probeCandidates_eq [frame_simps]:
  "probeCandidates m =
     m\<lparr>candidates := map (\<lambda>(i, c). (i, if probing_due c then c\<lparr>cd_probing := True\<rparr> else c)) (candidates m),
       outbox := outbox m @ map (RpcIdentify \<circ> cd_node \<circ> snd) (filter (probing_due \<circ> snd) (candidates m))\<rparr>"
  by (simp add: probeCandidates_def fold_probe comp_def)

lemmas timer_defs [frame_simps] = rearmElection_def resetElectionTimer_def Let_def

subsection \<open>Identity\<close>

definition ident :: "'st Manager \<Rightarrow> Node \<times> Config \<times> bool \<times> Membership option" where
  "ident m = (self m, cfg m, discoveryMode m, if discoveryMode m then None else Some (membership m))"

definition own_calls :: "'st Manager \<Rightarrow> bool" where
  "own_calls m \<longleftrightarrow> (\<forall>p req. RpcVote p req \<in> set (outbox m) \<longrightarrow> vq_CandidateID req = node_ID (self m))"

definition framed :: "'st Manager \<Rightarrow> 'st Manager \<Rightarrow> bool" where
  "framed m m' \<longleftrightarrow> ident m' = ident m \<and> (own_calls m \<longrightarrow> own_calls m')"

lemma framed_refl [simp, intro]: "framed m m"
  by (simp add: framed_def)

lemma framed_trans: "framed a b \<Longrightarrow> framed b c \<Longrightarrow> framed a c"
  by (simp add: framed_def)

lemma framed_self: "framed m m' \<Longrightarrow> self m' = self m \<and> cfg m' = cfg m \<and> discoveryMode m' = discoveryMode m"
  by (simp add: framed_def ident_def)

lemma framed_upd:
  "self m' = self m \<Longrightarrow> cfg m' = cfg m \<Longrightarrow> discoveryMode m' = discoveryMode m \<Longrightarrow>
   discoveryMode m \<or> membership m' = membership m \<Longrightarrow>
   outbox m' = outbox m @ rs \<Longrightarrow>
   \<forall>p req. RpcVote p req \<in> set rs \<longrightarrow> vq_CandidateID req = node_ID (self m) \<Longrightarrow> framed m m'"
  by (auto simp: framed_def ident_def own_calls_def)

lemma framed_quiet:
  "self m' = self m \<Longrightarrow> cfg m' = cfg m \<Longrightarrow> discoveryMode m' = discoveryMode m \<Longrightarrow>
   discoveryMode m \<or> membership m' = membership m \<Longrightarrow> outbox m' = outbox m \<Longrightarrow> framed m m'"
  by (rule framed_upd [where rs = "[]"]) auto

lemma storeSave_eq: "storeSave sv ps m = (m', ok) \<Longrightarrow> m' = m\<lparr>store := fst (sv ps (store m))\<rparr>"
  by (auto simp: storeSave_def split: prod.splits)

lemma saveState_eq: "saveState sv t v m = (m', ok) \<Longrightarrow> \<exists>st. m' = m\<lparr>store := st\<rparr>"
  by (auto simp: saveState_def dest: storeSave_eq)

lemma framed_helpers:
  "framed m (publish e m)" "framed m (rearmElection e m)" "framed m (resetElectionTimer d m)"
  "framed m (recordContact r m)" "framed m (recordAck r m)" "framed m (addActivity m)"
  by (rule framed_quiet; simp add: frame_simps recordContact_def recordAck_def
        addActivity_def split: option.split)+

lemma framed_maintainDiscovery: "framed m (maintainDiscovery now m)"
  by (rule framed_upd) (auto simp: frame_simps maintainDiscovery_def)

lemma framed_sendHeartbeats: "framed m (sendHeartbeats e m)"
  by (rule framed_upd) (auto simp: frame_simps heartbeatsOf_def)

lemmas framed_after =
  framed_trans [OF _ framed_sendHeartbeats] framed_trans [OF _ framed_helpers(1)]
  framed_trans [OF _ framed_helpers(2)] framed_trans [OF _ framed_helpers(3)]
  framed_trans [OF _ framed_helpers(4)] framed_trans [OF _ framed_helpers(5)]
  framed_trans [OF _ framed_helpers(6)] framed_trans [OF _ framed_maintainDiscovery]

lemma framed_save:
  "saveState sv t v m = (m', ok) \<Longrightarrow> framed m m'"
  by (drule saveState_eq) (auto intro: framed_quiet)

lemma framed_applyMembershipChange:
  assumes "discoveryMode m"
  shows "framed m (applyMembershipChange sv e newM target m)"
proof -
  let ?ps = "\<lparr>ps_CurrentTerm = currentTerm m, ps_VotedFor = votedFor m, ps_Membership = Some (Clone newM)\<rparr>"
  obtain m1 ok where s: "storeSave sv ?ps m = (m1, ok)" by fastforce
  define m2 where "m2 = m1\<lparr>membership := newM,
    ackedVersion := map_put (node_ID (self m1)) \<lparr>ack_version = mb_Version newM, ack_term = mb_CreatedInTerm newM\<rparr>
      (ackedVersion m1),
    candidates := map_del (node_ID target) (candidates m1)\<rparr>"
  have "framed m m1" "framed m m2"
    using storeSave_eq [OF s] assms by (auto simp: m2_def intro: framed_quiet)
  then show ?thesis using s
    by (auto simp: applyMembershipChange_def m2_def [symmetric] intro: framed_after)
qed

lemma framed_maybeStartMembershipChange: "framed m (maybeStartMembershipChange sv e m)"
  by (auto simp: maybeStartMembershipChange_def intro: framed_applyMembershipChange split: option.split)

lemma framed_adoptMembership:
  assumes "discoveryMode m"
  shows "framed m (fst (adoptMembership sv newM m))"
proof -
  let ?ps = "\<lparr>ps_CurrentTerm = currentTerm m, ps_VotedFor = votedFor m, ps_Membership = Some (Clone newM)\<rparr>"
  obtain m1 ok where s: "storeSave sv ?ps m = (m1, ok)" by fastforce
  show ?thesis using storeSave_eq [OF s] s assms
    by (intro framed_quiet) (auto simp: adoptMembership_def Let_def)
qed

lemma framed_stepDown: "framed m (stepDown sv e t m)"
proof -
  obtain m1 ok where s: "saveState sv t [] m = (m1, ok)" by fastforce
  show ?thesis using saveState_eq [OF s] s by (intro framed_quiet) (auto simp: stepDown_def frame_simps)
qed

lemma framed_becomeLeader: "framed m (becomeLeader sv e m)"
proof -
  have "\<exists>m2. framed m m2 \<and> becomeLeader sv e m =
      (let m3 = sendHeartbeats e (publish e m2)
       in if discoveryMode m3 then maybeStartMembershipChange sv e m3 else m3)"
    unfolding becomeLeader_def
    by (simp only: Let_def, rule exI, rule conjI [rotated], rule refl) (auto intro: framed_quiet)
  then obtain m2 where m2: "framed m m2" and eq: "becomeLeader sv e m =
      (let m3 = sendHeartbeats e (publish e m2)
       in if discoveryMode m3 then maybeStartMembershipChange sv e m3 else m3)" by blast
  from m2 have "framed m (sendHeartbeats e (publish e m2))" by (intro framed_after)
  then show ?thesis
    unfolding eq Let_def by (auto intro: framed_trans [OF _ framed_maybeStartMembershipChange])
qed

text \<open>A manager after it has voted for itself, with the requests to the other voters started.\<close>

definition standing :: "env \<Rightarrow> 'st Manager \<Rightarrow> 'st Manager" where
  "standing e m =
     (let m3 = publish e (rearmElection e
            (m\<lparr>currentTerm := currentTerm m + 1, votedFor := node_ID (self m), role := RoleCandidate,
               leaderID := [], electionsStarted := electionsStarted m + 1,
               votesFrom := Some [node_ID (self m)]\<rparr>))
      in m3\<lparr>outbox := outbox m3 @
           map (\<lambda>p. RpcVote p \<lparr>vq_Term = currentTerm m3, vq_CandidateID = node_ID (self m3)\<rparr>) (voterPeers m3)\<rparr>)"

lemma standing_sel [simp]:
  "currentTerm (standing e m) = currentTerm m + 1" "votedFor (standing e m) = node_ID (self m)"
  "role (standing e m) = RoleCandidate" "votesFrom (standing e m) = Some [node_ID (self m)]"
  "self (standing e m) = self m" "cfg (standing e m) = cfg m" "discoveryMode (standing e m) = discoveryMode m"
  "membership (standing e m) = membership m" "store (standing e m) = store m"
  "outbox (standing e m) = outbox m @
     map (\<lambda>p. RpcVote p \<lparr>vq_Term = currentTerm m + 1, vq_CandidateID = node_ID (self m)\<rparr>) (voterPeers m)"
  by (simp_all add: standing_def frame_simps voterPeers_def)

lemma startElection_cases [consumes 0, case_names observer failed stands]:
  obtains
    "isObserver m" "startElection sv e m = resetElectionTimer (randTimeout e m) m"
  | m1 where "\<not> isObserver m" "saveState sv (currentTerm m + 1) (node_ID (self m)) m = (m1, False)"
      "startElection sv e m = resetElectionTimer (randTimeout e m1) m1"
  | m1 where "\<not> isObserver m" "saveState sv (currentTerm m + 1) (node_ID (self m)) m = (m1, True)"
      "startElection sv e m =
         (if quorum (standing e m1) \<le> 1 then becomeLeader sv e (standing e m1) else standing e m1)"
proof (cases "isObserver m")
  case True
  then show ?thesis by (intro that(1)) (auto simp: startElection_def)
next
  case False
  obtain m1 ok where s: "saveState sv (currentTerm m + 1) (node_ID (self m)) m = (m1, ok)" by fastforce
  show ?thesis
  proof (cases ok)
    case True
    let ?m3 = "publish e (rearmElection e (m1\<lparr>currentTerm := currentTerm m + 1, votedFor := node_ID (self m1),
       role := RoleCandidate, leaderID := [], electionsStarted := electionsStarted m1 + 1,
       votesFrom := Some [node_ID (self m1)]\<rparr>))"
    have "currentTerm m1 = currentTerm m" using saveState_eq [OF s] by auto
    then have st: "standing e m1 = ?m3\<lparr>outbox := outbox ?m3 @
        map (\<lambda>p. RpcVote p \<lparr>vq_Term = currentTerm ?m3, vq_CandidateID = node_ID (self ?m3)\<rparr>) (voterPeers ?m3)\<rparr>"
      by (simp add: standing_def Let_def)
    have v: "votesFrom (standing e m1) = Some [node_ID (self m1)]" by simp
    have "startElection sv e m =
         (if quorum (standing e m1) \<le> 1 then becomeLeader sv e (standing e m1) else standing e m1)"
      using False True s v
      by (simp only: startElection_def Let_def fold_spawnRPC st [symmetric] split_beta fst_conv snd_conv
          if_False if_True not_True_eq_False option.case list.size One_nat_def add_0 add_Suc)
    then show ?thesis by (rule that(3) [rotated 2]) (use False True s in simp_all)
  next
    case no: False
    then show ?thesis using that(2) [of m1] False s by (auto simp: startElection_def)
  qed
qed

lemma framed_standing: "framed m (standing e m)"
  by (rule framed_upd) (auto simp: )

lemma framed_startElection: "framed m (startElection sv e m)"
proof (cases rule: startElection_cases [of m sv e])
  case (failed m1)
  then show ?thesis using framed_save [of sv _ _ m m1] by (auto intro: framed_after)
next
  case (stands m1)
  have "framed m (standing e m1)"
    using framed_save [OF stands(2)] framed_standing framed_trans by blast
  then show ?thesis using stands(3) framed_trans [OF _ framed_becomeLeader] by auto
qed (simp add: framed_helpers)

lemma framed_onElectionTimeout: "framed m (onElectionTimeout sv e m)"
  by (auto simp: onElectionTimeout_def framed_startElection framed_helpers)

lemma framed_onVoteResult: "framed m (onVoteResult sv e r m)"
proof -
  have "framed m (m\<lparr>votesFrom := vs\<rparr>)" "framed m (m\<lparr>panicked := b\<rparr>)" for vs b
    by (auto intro: framed_quiet)
  then show ?thesis
    by (auto simp: onVoteResult_def Let_def framed_stepDown split: option.split
        intro: framed_trans [OF _ framed_becomeLeader])
qed

text \<open>The five ways a vote request ends, with the durable write each one attempts.\<close>

lemma onVote_cases [consumes 1, case_names refused grant_failed granted adopt_failed adopted]:
  assumes "onVote sv e req m = (m', resp)"
  obtains
    "m' = m" "\<not> vr_Granted resp" "vr_Term resp = currentTerm m"
  | "\<not> vr_Granted resp" "saveState sv (vq_Term req) (vq_CandidateID req) m = (m', False)"
      "vr_Term resp = currentTerm m'"
      "currentTerm m < vq_Term req \<or>
        (currentTerm m = vq_Term req \<and> (votedFor m = [] \<or> votedFor m = vq_CandidateID req))"
  | m1 where "vr_Granted resp" "saveState sv (vq_Term req) (vq_CandidateID req) m = (m1, True)"
      "m' = publish e (rearmElection e (m1\<lparr>currentTerm := vq_Term req, votedFor := vq_CandidateID req,
              role := RoleFollower, leaderID := []\<rparr>))"
      "vr_Term resp = vq_Term req" "\<not> isObserver m" "isVoter m (vq_CandidateID req)"
      "currentTerm m < vq_Term req \<or>
        (currentTerm m = vq_Term req \<and> (votedFor m = [] \<or> votedFor m = vq_CandidateID req))"
  | "\<not> vr_Granted resp" "saveState sv (vq_Term req) [] m = (m', False)" "currentTerm m < vq_Term req"
      "vr_Term resp = currentTerm m'"
  | m1 where "\<not> vr_Granted resp" "saveState sv (vq_Term req) [] m = (m1, True)" "currentTerm m < vq_Term req"
      "m' = publish e (rearmElection e (m1\<lparr>currentTerm := vq_Term req, votedFor := [],
              role := RoleFollower, leaderID := []\<rparr>))" "vr_Term resp = vq_Term req"
  using assms unfolding onVote_def
  by (auto simp: Let_def frame_simps not_less split: if_splits prod.splits)

lemma framed_onVote: "framed m (fst (onVote sv e req m))"
proof -
  have "framed m (publish e (rearmElection e (m1\<lparr>currentTerm := t, votedFor := v, role := r, leaderID := l\<rparr>)))"
    if "saveState sv t' v' m = (m1, ok)" for m1 ok t v r l t' v'
    using saveState_eq [OF that] by (auto intro!: framed_quiet simp: frame_simps)
  then show ?thesis
    by (auto simp: onVote_def Let_def framed_save split: prod.split)
qed

lemma framed_onHeartbeatTick: "framed m (onHeartbeatTick sv e m)"
  by (auto simp: onHeartbeatTick_def Let_def framed_maintainDiscovery
      intro: framed_after framed_trans [OF _ framed_maybeStartMembershipChange])

lemma framed_onHeartbeatResult: "framed m (onHeartbeatResult sv e r m)"
  by (auto simp: onHeartbeatResult_def Let_def framed_stepDown
      intro!: framed_after framed_trans [OF _ framed_maybeStartMembershipChange])

lemma framed_acceptLeader: "framed m (acceptLeader sv e req m)"
proof -
  obtain m1 ok where s: "saveState sv (hq_Term req) [] m = (m1, ok)" by fastforce
  show ?thesis using saveState_eq [OF s] s
    by (intro framed_quiet) (auto simp: acceptLeader_def Let_def split: option.split)
qed

lemma framed_onHeartbeat: "framed m (fst (onHeartbeat sv e req m))"
proof -
  let ?m3 = "acceptLeader sv e req m"
  have "framed m (fst (adoptOffered sv req ?m3))"
    using framed_acceptLeader [of m sv e req] framed_trans [OF _ framed_adoptMembership]
    by (auto simp: adoptOffered_def split: option.split)
  then show ?thesis
    by (auto simp: onHeartbeat_def Let_def split: prod.split intro!: framed_after)
qed

lemma framed_onIdentifyResult: "framed m (onIdentifyResult sv e r m)"
proof -
  have "framed m (m\<lparr>candidates := cs\<rparr>)" for cs by (auto intro: framed_quiet)
  then show ?thesis
    by (auto simp: onIdentifyResult_def Let_def split: option.split
        intro: framed_trans [OF _ framed_maybeStartMembershipChange])
qed

lemma framed_onRoster: "framed m (onRoster sv e r m)"
proof -
  have "framed m (m\<lparr>lastRoster := a, haveRoster := b, candidates := c\<rparr>)" for a b c
    by (auto intro: framed_quiet)
  then show ?thesis
    by (auto simp: onRoster_def Let_def intro!: framed_after framed_trans [OF _ framed_maybeStartMembershipChange])
qed

lemma framed_addActivity [simp]: "framed m (addActivity m') \<longleftrightarrow> framed m m'"
  by (simp add: framed_def ident_def own_calls_def addActivity_def)

lemma framed_handleEvent: "framed m (fst (handleEvent sv e ev m))"
proof (cases ev)
  case (SubscribeMsg ch)
  then show ?thesis by (intro framed_quiet) (auto simp: handleEvent_def onSubscribe_def Let_def)
next
  case (UnsubscribeMsg sid)
  then show ?thesis
    by (intro framed_quiet) (auto simp: handleEvent_def onUnsubscribe_def Let_def split: option.split)
qed (use framed_onVote [of m sv e] framed_onHeartbeat [of m sv e] framed_onVoteResult framed_onHeartbeatResult
      framed_onIdentifyResult in
    \<open>auto simp: handleEvent_def Let_def case_prod_beta\<close>)

lemma framed_loop_step: "framed m (fst (loop_step sv e i m))"
proof (cases i)
  case RosterClosed
  then show ?thesis by (auto simp: loop_step_def intro: framed_quiet)
next
  case CtxDone
  then show ?thesis by (auto simp: loop_step_def shutdown_def intro: framed_quiet)
qed (auto simp: loop_step_def framed_handleEvent framed_onRoster framed_helpers framed_onElectionTimeout
    framed_onHeartbeatTick)

end
