(* ===== verification/Election_Spec.thy ===== *)
theory Election_Spec
  imports Warden_Types
begin

text \<open>
  The abstract specification of the election, independent of the manager.

  \<^item> \<open>voting\<close>: a ballot box. Voters cast at most one vote per term, a candidate is
    elected by a quorum; the locale \<open>quorum_system\<close> gives at most one leader per
    term from the intersection of quorums, and is instantiated by the majorities
    that \<open>Quorum\<close> computes.

  \<^item> \<open>voter\<close>: what one node may do to its term, its vote and their durable copy.
    Every event handler of the manager is a sequence of these steps, and each step
    keeps every vote already cast covered in memory and on disk.
\<close>

subsection \<open>Quorum systems and the ballot box\<close>

record voting =
  vt_cast :: "(NodeID \<times> Term \<times> NodeID) list"
  vt_leaders :: "(Term \<times> NodeID) list"

definition one_vote_per_term :: "voting \<Rightarrow> bool" where
  "one_vote_per_term b \<longleftrightarrow>
     (\<forall>n t c c'. (n, t, c) \<in> set (vt_cast b) \<and> (n, t, c') \<in> set (vt_cast b) \<longrightarrow> c = c')"

definition one_leader_per_term :: "voting \<Rightarrow> bool" where
  "one_leader_per_term b \<longleftrightarrow>
     (\<forall>t c c'. (t, c) \<in> set (vt_leaders b) \<and> (t, c') \<in> set (vt_leaders b) \<longrightarrow> c = c')"

inductive vote_step :: "(NodeID set \<Rightarrow> bool) \<Rightarrow> voting \<Rightarrow> voting \<Rightarrow> bool" for quo where
  vote_cast: "\<forall>c'. (n, t, c') \<in> set (vt_cast b) \<longrightarrow> c' = c \<Longrightarrow>
     vote_step quo b (b\<lparr>vt_cast := (n, t, c) # vt_cast b\<rparr>)"
| vote_elect: "quo Q \<Longrightarrow> \<forall>v\<in>Q. (v, t, c) \<in> set (vt_cast b) \<Longrightarrow>
     vote_step quo b (b\<lparr>vt_leaders := (t, c) # vt_leaders b\<rparr>)"

definition empty_box :: voting where
  "empty_box = \<lparr>vt_cast = [], vt_leaders = []\<rparr>"

locale quorum_system =
  fixes quo :: "NodeID set \<Rightarrow> bool"
  assumes quo_meet: "quo Q \<Longrightarrow> quo Q' \<Longrightarrow> \<exists>v. v \<in> Q \<and> v \<in> Q'"
begin

definition elected :: "voting \<Rightarrow> bool" where
  "elected b \<longleftrightarrow> (\<forall>t c. (t, c) \<in> set (vt_leaders b) \<longrightarrow>
     (\<exists>Q. quo Q \<and> (\<forall>v\<in>Q. (v, t, c) \<in> set (vt_cast b))))"

lemma box_invariant:
  assumes "(vote_step quo)\<^sup>*\<^sup>* empty_box b"
  shows "one_vote_per_term b \<and> elected b"
  using assms
proof (induction rule: rtranclp_induct)
  case base
  show ?case by (simp add: one_vote_per_term_def elected_def empty_box_def)
next
  case (step b b')
  from step.hyps(2) show ?case
  proof (cases rule: vote_step.cases)
    case (vote_cast n t c)
    with step.IH show ?thesis
      unfolding one_vote_per_term_def elected_def by auto metis
  next
    case (vote_elect Q t c)
    with step.IH show ?thesis
      unfolding one_vote_per_term_def elected_def by auto
  qed
qed

lemma box_safe:
  assumes "(vote_step quo)\<^sup>*\<^sup>* empty_box b"
  shows "one_leader_per_term b"
  unfolding one_leader_per_term_def
proof (intro allI impI, elim conjE)
  fix t c c'
  assume l: "(t, c) \<in> set (vt_leaders b)" "(t, c') \<in> set (vt_leaders b)"
  from box_invariant [OF assms] have ov: "one_vote_per_term b" and el: "elected b" by auto
  from el l obtain Q Q' where
    Q: "quo Q" "\<forall>v\<in>Q. (v, t, c) \<in> set (vt_cast b)" and
    Q': "quo Q'" "\<forall>v\<in>Q'. (v, t, c') \<in> set (vt_cast b)"
    unfolding elected_def by meson
  from quo_meet [OF Q(1) Q'(1)] obtain v where "v \<in> Q" "v \<in> Q'" by blast
  with Q(2) Q'(2) ov show "c = c'" unfolding one_vote_per_term_def by blast
qed

end

definition majority_of :: "Node list \<Rightarrow> NodeID set \<Rightarrow> bool" where
  "majority_of voters Q \<longleftrightarrow>
     Q \<subseteq> node_ID ` set voters \<and> Quorum (length voters) \<le> card Q"

lemma majorities_meet:
  assumes "majority_of voters Q" and "majority_of voters Q'"
  shows "\<exists>v. v \<in> Q \<and> v \<in> Q'"
proof (rule overlapping_sets [of "node_ID ` set voters"])
  have "card (node_ID ` set voters) \<le> length voters"
    by (metis card_length set_map length_map)
  with two_Quorums [of "length voters"] assms
  show "card (node_ID ` set voters) < card Q + card Q'"
    by (simp add: majority_of_def)
qed (use assms in \<open>auto simp: majority_of_def\<close>)

interpretation majority: quorum_system "majority_of voters" for voters
  by unfold_locales (rule majorities_meet)

subsection \<open>One voter\<close>

record voter =
  vo_term :: Term
  vo_vote :: NodeID
  vo_disk :: "Term \<times> NodeID"
  vo_role :: Role
  vo_tally :: "NodeID list option"

text \<open>A record of term and vote covers a vote cast in an earlier term, or the same vote.\<close>

definition covers :: "Term \<times> NodeID \<Rightarrow> Term \<times> NodeID \<Rightarrow> bool" where
  "covers tc rec \<longleftrightarrow> fst tc < fst rec \<or> (fst tc = fst rec \<and> snd tc = snd rec)"

text \<open>The writes a voter may attempt: a later term, or its own term without changing a vote.\<close>

definition may_write :: "voter \<Rightarrow> Term \<times> NodeID \<Rightarrow> bool" where
  "may_write a tc \<longleftrightarrow>
     vo_term a < fst tc \<or> (fst tc = vo_term a \<and> (vo_vote a = [] \<or> snd tc = vo_vote a))"

datatype vlabel = Silent | Grant Term NodeID | Campaign Term | Count NodeID | Lead

inductive vstep :: "NodeID \<Rightarrow> nat \<Rightarrow> voter \<Rightarrow> vlabel \<Rightarrow> voter \<Rightarrow> bool" for me n where
  vs_write: "may_write a tc \<Longrightarrow> vstep me n a Silent (a\<lparr>vo_disk := tc\<rparr>)"
| vs_adopt: "vo_term a < t \<Longrightarrow> d = vo_disk a \<or> d = (t, []) \<Longrightarrow>
     vstep me n a Silent (a\<lparr>vo_term := t, vo_vote := [], vo_disk := d, vo_role := RoleFollower\<rparr>)"
| vs_follow: "vstep me n a Silent (a\<lparr>vo_role := RoleFollower\<rparr>)"
| vs_forget: "vo_role a = RoleFollower \<Longrightarrow> vstep me n a Silent (a\<lparr>vo_tally := None\<rparr>)"
| vs_grant: "may_write a (t, c) \<Longrightarrow>
     vstep me n a (Grant t c) (a\<lparr>vo_term := t, vo_vote := c, vo_disk := (t, c), vo_role := RoleFollower\<rparr>)"
| vs_campaign: "t = vo_term a + 1 \<Longrightarrow>
     vstep me n a (Campaign t)
       (a\<lparr>vo_term := t, vo_vote := me, vo_disk := (t, me), vo_role := RoleCandidate, vo_tally := Some [me]\<rparr>)"
| vs_attempt: "t = vo_term a + 1 \<Longrightarrow> vstep me n a (Campaign t) (a\<lparr>vo_disk := (t, me)\<rparr>)"
| vs_count: "vo_role a = RoleCandidate \<Longrightarrow> vo_tally a = Some vs \<Longrightarrow>
     vstep me n a (Count v) (a\<lparr>vo_tally := Some (List.insert v vs)\<rparr>)"
| vs_lead: "vo_role a = RoleCandidate \<Longrightarrow> vo_tally a = Some vs \<Longrightarrow> Quorum n \<le> length vs \<Longrightarrow>
     vstep me n a Lead (a\<lparr>vo_role := RoleLeader\<rparr>)"

inductive vsteps :: "NodeID \<Rightarrow> nat \<Rightarrow> voter \<Rightarrow> vlabel list \<Rightarrow> voter \<Rightarrow> bool" for me n where
  vsteps_refl: "vsteps me n a [] a"
| vsteps_step: "vstep me n a l b \<Longrightarrow> vsteps me n b ls c \<Longrightarrow> vsteps me n a (l # ls) c"

lemma vsteps_append: "vsteps me n a ls b \<Longrightarrow> vsteps me n b ls' c \<Longrightarrow> vsteps me n a (ls @ ls') c"
  by (induction rule: vsteps.induct) (auto intro: vsteps_step)

lemma vsteps_one: "vstep me n a l b \<Longrightarrow> vsteps me n a [l] b"
  by (blast intro: vsteps.intros)

lemma word_less_Suc: "(x :: 64 word) + 1 \<noteq> 0 \<Longrightarrow> x < x + 1"
  by (metis add.right_neutral add_uminus_conv_diff diff_add_cancel inc_less_eq_triv_imp linorder_not_le right_minus_eq)

lemma word_less_inc: "(x :: 64 word) \<noteq> - 1 \<Longrightarrow> x < x + 1"
  by (metis inc_less_eq_triv_imp linorder_not_le)

text \<open>No step loses a vote that was cast, in memory or on disk, unless the term counter wraps.\<close>

lemma vstep_covers:
  assumes "vstep me n a l b" and "l \<noteq> Campaign 0" and "snd tc \<noteq> []"
    and "covers tc (vo_term a, vo_vote a)" and "covers tc (vo_disk a)"
  shows "covers tc (vo_term b, vo_vote b) \<and> covers tc (vo_disk b)"
proof -
  have "vo_term a < vo_term a + 1" if "l = Campaign (vo_term a + 1)"
    using that assms(2) by (intro word_less_Suc) auto
  with assms(1) show ?thesis
    by (cases rule: vstep.cases) (use assms(3-) in \<open>auto simp: covers_def may_write_def intro: less_trans\<close>)
qed

text \<open>A vote held in memory stays covered on disk.\<close>

lemma vstep_held:
  assumes "vstep me n a l b" and "l \<noteq> Campaign 0"
    and "vo_vote a \<noteq> [] \<Longrightarrow> covers (vo_term a, vo_vote a) (vo_disk a)" and "vo_vote b \<noteq> []"
  shows "covers (vo_term b, vo_vote b) (vo_disk b)"
proof -
  have "vo_term a < vo_term a + 1" if "l = Campaign (vo_term a + 1)"
    using that assms(2) by (intro word_less_Suc) auto
  with assms(1) show ?thesis
    by (cases rule: vstep.cases) (use assms(3-) in \<open>auto simp: covers_def may_write_def\<close>)
qed

end
