(* ===== verification/Election_Node.thy ===== *)
theory Election_Node
  imports Election_Frame Election_Spec
begin

text \<open>
  One manager refines the abstract voter of \<open>Election_Spec\<close>: seen through
  \<open>voter_of\<close>, every handler is a run of voter steps whose labels say which votes
  it casts, counts and turns into leadership. The proofs hold for every store
  with the laws of \<open>istore\<close>, so for every pattern of failing saves.
\<close>

subsection \<open>The voter inside a manager\<close>

definition durable :: "('st \<Rightarrow> PersistentState option) \<Rightarrow> 'st \<Rightarrow> Term \<times> NodeID" where
  "durable ct st = (case ct st of None \<Rightarrow> (0, []) | Some ps \<Rightarrow> (ps_CurrentTerm ps, ps_VotedFor ps))"

definition voter_of :: "('st \<Rightarrow> PersistentState option) \<Rightarrow> 'st Manager \<Rightarrow> voter" where
  "voter_of ct m =
     \<lparr>vo_term = currentTerm m, vo_vote = votedFor m, vo_disk = durable ct (store m),
      vo_role = role m, vo_tally = votesFrom m\<rparr>"

text \<open>Runs of voter steps with labels from a set.\<close>

definition vruns :: "NodeID \<Rightarrow> nat \<Rightarrow> vlabel set \<Rightarrow> voter \<Rightarrow> voter \<Rightarrow> bool" where
  "vruns me n L a b \<longleftrightarrow> (\<exists>ls. vsteps me n a ls b \<and> set ls \<subseteq> L)"

lemma vruns_refl [simp, intro]: "vruns me n L a a"
  unfolding vruns_def by (rule exI [of _ "[]"]) (simp add: vsteps_refl)

lemma vruns_one: "vstep me n a l b \<Longrightarrow> l \<in> L \<Longrightarrow> vruns me n L a b"
  unfolding vruns_def by (rule exI [of _ "[l]"]) (simp add: vsteps_one)

lemma vruns_trans: "vruns me n L a b \<Longrightarrow> vruns me n L b c \<Longrightarrow> vruns me n L a c"
  unfolding vruns_def using vsteps_append by fastforce

lemma vruns_mono: "vruns me n L a b \<Longrightarrow> L \<subseteq> M \<Longrightarrow> vruns me n M a b"
  unfolding vruns_def by blast

lemma vruns_silent_then:
  "vruns me n {Silent} a b \<Longrightarrow> vruns me n L b c \<Longrightarrow> Silent \<in> L \<Longrightarrow> vruns me n L a c"
  by (rule vruns_trans) (auto elim: vruns_mono)

lemma vruns_then_silent:
  "vruns me n L a b \<Longrightarrow> vruns me n {Silent} b c \<Longrightarrow> Silent \<in> L \<Longrightarrow> vruns me n L a c"
  by (rule vruns_trans) (auto elim: vruns_mono)

lemma vruns_induct [consumes 1, case_names refl step]:
  assumes "vruns me n L a b" and "P a"
    and "\<And>x l y. P x \<Longrightarrow> vstep me n x l y \<Longrightarrow> l \<in> L \<Longrightarrow> P y"
  shows "P b"
proof -
  obtain ls where "vsteps me n a ls b" "set ls \<subseteq> L"
    using assms(1) unfolding vruns_def by blast
  then show ?thesis using assms(2,3)
    by (induction rule: vsteps.induct) auto
qed

lemma voter_of_more [simp]:
  "voter_of ct (m\<lparr>leaderID := a\<rparr>) = voter_of ct m"
  "voter_of ct (m\<lparr>electionDeadline := b\<rparr>) = voter_of ct m"
  "voter_of ct (m\<lparr>electionTimer := c\<rparr>) = voter_of ct m"
  "voter_of ct (m\<lparr>electionsStarted := d\<rparr>) = voter_of ct m"
  "voter_of ct (m\<lparr>subs := f\<rparr>) = voter_of ct m"
  "voter_of ct (m\<lparr>panicked := g\<rparr>) = voter_of ct m"
  "voter_of ct (m\<lparr>outbox := h\<rparr>) = voter_of ct m"
  "voter_of ct (m\<lparr>candidates := i\<rparr>) = voter_of ct m"
  "voter_of ct (m\<lparr>ackedVersion := j\<rparr>) = voter_of ct m"
  "voter_of ct (m\<lparr>membership := k\<rparr>) = voter_of ct m"
  "voter_of ct (m\<lparr>activity := l\<rparr>) = voter_of ct m"
  "voter_of ct (m\<lparr>lastContact := n\<rparr>) = voter_of ct m"
  "voter_of ct (m\<lparr>latencyMS := p\<rparr>) = voter_of ct m"
  "voter_of ct (m\<lparr>becameLeaderAt := q\<rparr>) = voter_of ct m"
  "voter_of ct (m\<lparr>lastRoster := r\<rparr>) = voter_of ct m"
  "voter_of ct (m\<lparr>haveRoster := s\<rparr>) = voter_of ct m"
  "voter_of ct (m\<lparr>lastLeaderContact := t\<rparr>) = voter_of ct m"
  "voter_of ct (m\<lparr>cachedView := u\<rparr>) = voter_of ct m"
  "voter_of ct (m\<lparr>cachedViewAt := v\<rparr>) = voter_of ct m"
  "voter_of ct (m\<lparr>nextSubID := w\<rparr>) = voter_of ct m"
  "voter_of ct (m\<lparr>rosterCh := x\<rparr>) = voter_of ct m"
  "voter_of ct (m\<lparr>done_closed := y\<rparr>) = voter_of ct m"
  by (simp_all add: voter_of_def)

lemma voter_of_upd [simp]:
  "voter_of ct (m\<lparr>store := st\<rparr>) = (voter_of ct m)\<lparr>vo_disk := durable ct st\<rparr>"
  "voter_of ct (m\<lparr>currentTerm := t\<rparr>) = (voter_of ct m)\<lparr>vo_term := t\<rparr>"
  "voter_of ct (m\<lparr>votedFor := i\<rparr>) = (voter_of ct m)\<lparr>vo_vote := i\<rparr>"
  "voter_of ct (m\<lparr>role := r\<rparr>) = (voter_of ct m)\<lparr>vo_role := r\<rparr>"
  "voter_of ct (m\<lparr>votesFrom := vs\<rparr>) = (voter_of ct m)\<lparr>vo_tally := vs\<rparr>"
  by (simp_all add: voter_of_def)

lemma voter_of_same [simp]: "(voter_of ct m)\<lparr>vo_disk := durable ct (store m)\<rparr> = voter_of ct m"
  by (simp add: voter_of_def)

lemma voter_of_sel [simp]:
  "vo_term (voter_of ct m) = currentTerm m" "vo_vote (voter_of ct m) = votedFor m"
  "vo_disk (voter_of ct m) = durable ct (store m)" "vo_role (voter_of ct m) = role m"
  "vo_tally (voter_of ct m) = votesFrom m"
  by (simp_all add: voter_of_def)

lemma voter_of_quiet [simp]:
  "voter_of ct (publish e m) = voter_of ct m"
  "voter_of ct (sendHeartbeats e m) = voter_of ct m"
  "voter_of ct (rearmElection e m) = voter_of ct m"
  "voter_of ct (resetElectionTimer d m) = voter_of ct m"
  "voter_of ct (probeCandidates m) = voter_of ct m"
  "voter_of ct (maintainDiscovery now m) = voter_of ct m"
  "voter_of ct (recordContact r m) = voter_of ct m"
  "voter_of ct (recordAck r m) = voter_of ct m"
  "voter_of ct (addActivity m) = voter_of ct m"
  by (simp_all add: frame_simps maintainDiscovery_def recordContact_def recordAck_def addActivity_def
      split: option.split)

subsection \<open>Handlers are voter runs\<close>

text \<open>The label of a vote result that counts: a grant for the current candidacy, from a voter.\<close>

definition counts :: "voteResultMsg \<Rightarrow> 'st Manager \<Rightarrow> bool" where
  "counts r m \<longleftrightarrow>
     role m = RoleCandidate \<and> vm_term r = currentTerm m \<and> \<not> vm_err r
     \<and> vr_Granted (vm_resp r) \<and> isVoter m (vm_from r)"

text \<open>The labels of one turn of the loop, read off its input and its reply.\<close>

definition turn_labels :: "input \<Rightarrow> 'st Manager \<Rightarrow> reply \<Rightarrow> vlabel set" where
  "turn_labels i m r =
     {Silent} \<union>
     (case i of
        ElectionTimerC \<Rightarrow> {Campaign (currentTerm m + 1), Lead}
      | Event (VoteResultMsg res) \<Rightarrow> if counts res m then {Count (vm_from res), Lead} else {}
      | Event (VoteMsg req) \<Rightarrow>
          (case r of ReplyVote resp \<Rightarrow>
             if vr_Granted resp then {Grant (vq_Term req) (vq_CandidateID req)} else {}
           | _ \<Rightarrow> {})
      | _ \<Rightarrow> {})"

lemma turn_labels_no_wrap:
  "l \<in> turn_labels i m r \<Longrightarrow> currentTerm m \<noteq> - 1 \<Longrightarrow> l \<noteq> Campaign 0"
  by (auto simp: turn_labels_def split: input.splits event.splits reply.splits if_splits)
    (metis add_left_cancel add_minus_cancel diff_add_cancel eq_neg_iff_add_eq_0)

context istore
begin

lemma storeSave_durable:
  assumes "storeSave save ps m = (m', ok)"
  obtains st where "m' = m\<lparr>store := st\<rparr>"
    and "durable contents st = (ps_CurrentTerm ps, ps_VotedFor ps) \<or>
      (\<not> ok \<and> durable contents st = durable contents (store m))"
  using assms save_contents [of ps "store m"]
  by (cases "save ps (store m)") (auto simp: storeSave_def durable_def)

lemma saveState_durable:
  assumes "saveState save t v m = (m', ok)"
  obtains st where "m' = m\<lparr>store := st\<rparr>"
    and "durable contents st = (t, v) \<or>
      (\<not> ok \<and> durable contents st = durable contents (store m))"
  using assms unfolding saveState_def by (elim storeSave_durable) simp

text \<open>A save of a state the voter may write is silent, whatever becomes of it.\<close>

lemma storeSave_silent:
  assumes "storeSave save ps m = (m', ok)"
    and "may_write (voter_of contents m) (ps_CurrentTerm ps, ps_VotedFor ps)"
  shows "vruns me n {Silent} (voter_of contents m) (voter_of contents m')"
  using assms(1)
proof (rule storeSave_durable)
  fix st
  assume m': "m' = m\<lparr>store := st\<rparr>"
    and "durable contents st = (ps_CurrentTerm ps, ps_VotedFor ps) \<or>
      (\<not> ok \<and> durable contents st = durable contents (store m))"
  then consider "durable contents st = (ps_CurrentTerm ps, ps_VotedFor ps)"
    | "durable contents st = durable contents (store m)" by blast
  then show ?thesis
  proof cases
    case 1
    with assms(2) m' show ?thesis by (auto intro!: vruns_one vs_write)
  next
    case 2
    with m' show ?thesis by simp
  qed
qed

lemma saveState_silent:
  assumes "saveState save t v m = (m', ok)" and "may_write (voter_of contents m) (t, v)"
  shows "vruns me n {Silent} (voter_of contents m) (voter_of contents m')"
  using storeSave_silent assms unfolding saveState_def by fastforce

lemma may_rewrite: "may_write (voter_of contents m) (currentTerm m, votedFor m)"
  by (simp add: may_write_def)

lemma applyMembershipChange_run:
  "vruns me n {Silent} (voter_of contents m) (voter_of contents (applyMembershipChange save e newM target m))"
proof -
  let ?ps = "\<lparr>ps_CurrentTerm = currentTerm m, ps_VotedFor = votedFor m, ps_Membership = Some (Clone newM)\<rparr>"
  obtain m1 ok where s: "storeSave save ?ps m = (m1, ok)" by fastforce
  have "vruns me n {Silent} (voter_of contents m) (voter_of contents m1)"
    using storeSave_silent [OF s] may_rewrite by simp
  with s show ?thesis by (simp add: applyMembershipChange_def Let_def)
qed

lemma maybeStartMembershipChange_run:
  "vruns me n {Silent} (voter_of contents m) (voter_of contents (maybeStartMembershipChange save e m))"
  by (auto simp: maybeStartMembershipChange_def intro: applyMembershipChange_run split: option.split)

lemma adoptMembership_run:
  assumes "adoptMembership save newM m = (m', ok)" and "role m = RoleFollower"
  shows "vruns me n {Silent} (voter_of contents m) (voter_of contents m')"
proof -
  let ?ps = "\<lparr>ps_CurrentTerm = currentTerm m, ps_VotedFor = votedFor m, ps_Membership = Some (Clone newM)\<rparr>"
  obtain m1 ok1 where s: "storeSave save ?ps m = (m1, ok1)" by fastforce
  have r: "vruns me n {Silent} (voter_of contents m) (voter_of contents m1)"
    using storeSave_silent [OF s] may_rewrite by simp
  from s have f: "role m1 = RoleFollower"
    by (rule storeSave_durable) (use assms(2) in simp)
  have same: "(voter_of contents m1)\<lparr>vo_role := RoleFollower\<rparr> = voter_of contents m1"
    using f by (simp add: voter_of_def)
  have "vruns me n {Silent} (voter_of contents m1) ((voter_of contents m1)\<lparr>vo_tally := None\<rparr>)"
    using f by (intro vruns_one [OF vs_forget]) auto
  with r same have "vruns me n {Silent} (voter_of contents m)
      ((voter_of contents m1)\<lparr>vo_role := RoleFollower, vo_tally := None\<rparr>)"
    by (metis vruns_trans)
  with r s assms(1) show ?thesis
    by (auto simp: adoptMembership_def Let_def split: if_splits)
qed

lemma adopt_higher_run:
  assumes "saveState save t [] m = (m1, ok)" and "currentTerm m < t"
  shows "vruns me n {Silent} (voter_of contents m)
    ((voter_of contents m1)\<lparr>vo_term := t, vo_vote := [], vo_role := RoleFollower\<rparr>)"
  using assms(1)
proof (rule saveState_durable)
  fix st
  assume m1: "m1 = m\<lparr>store := st\<rparr>"
    and st: "durable contents st = (t, []) \<or> (\<not> ok \<and> durable contents st = durable contents (store m))"
  then have "vstep me n (voter_of contents m) Silent
      ((voter_of contents m)\<lparr>vo_term := t, vo_vote := [], vo_disk := durable contents st, vo_role := RoleFollower\<rparr>)"
    using assms(2) by (intro vs_adopt) auto
  then show ?thesis by (intro vruns_one) (simp_all add: m1 voter_of_def)
qed

lemma stepDown_run:
  assumes "currentTerm m < t"
  shows "vruns me n {Silent} (voter_of contents m) (voter_of contents (stepDown save e t m))"
proof -
  obtain m1 ok where s: "saveState save t [] m = (m1, ok)" by fastforce
  show ?thesis using adopt_higher_run [OF s assms] s by (simp add: stepDown_def)
qed

lemma becomeLeader_run:
  assumes "role m = RoleCandidate" and "votesFrom m = Some vs" and "Quorum n \<le> length vs"
  shows "vruns me n {Silent, Lead} (voter_of contents m) (voter_of contents (becomeLeader save e m))"
proof -
  let ?v = "(voter_of contents m)\<lparr>vo_role := RoleLeader\<rparr>"
  have lead: "vruns me n {Silent, Lead} (voter_of contents m) ?v"
    using assms by (intro vruns_one [of _ _ _ Lead] vs_lead [of _ vs]) auto
  have "\<exists>m3. becomeLeader save e m =
        (if discoveryMode m3 then maybeStartMembershipChange save e m3 else m3)
      \<and> voter_of contents m3 = ?v"
    unfolding becomeLeader_def Let_def by (rule exI, rule conjI, rule refl) simp
  then have "vruns me n {Silent} ?v (voter_of contents (becomeLeader save e m))"
    using maybeStartMembershipChange_run [of me n] by (metis vruns_refl)
  with lead show ?thesis by (rule vruns_then_silent) simp
qed

lemma voter_of_standing:
  "voter_of contents (standing e m) =
     \<lparr>vo_term = currentTerm m + 1, vo_vote = node_ID (self m), vo_disk = durable contents (store m),
      vo_role = RoleCandidate, vo_tally = Some [node_ID (self m)]\<rparr>"
  by (simp add: voter_of_def)

lemma startElection_run:
  assumes "n = length (mb_Voters (membership m))"
  shows "vruns (node_ID (self m)) n {Silent, Campaign (currentTerm m + 1), Lead}
    (voter_of contents m) (voter_of contents (startElection save e m))" (is "vruns ?i n ?L _ _")
proof (cases rule: startElection_cases [of m save e])
  case (failed m1)
  let ?t = "currentTerm m + 1"
  from failed(2) obtain st where m1: "m1 = m\<lparr>store := st\<rparr>"
    and st: "durable contents st = (?t, ?i) \<or> durable contents st = durable contents (store m)"
    by (auto elim: saveState_durable)
  from st have "vruns ?i n ?L (voter_of contents m) (voter_of contents m1)"
    using vruns_one [OF vs_attempt [of ?t "voter_of contents m" ?i n], of ?L] by (auto simp: m1)
  with failed show ?thesis by simp
next
  case (stands m1)
  let ?t = "currentTerm m + 1" and ?m4 = "standing e m1"
  from stands(2) obtain st where m1: "m1 = m\<lparr>store := st\<rparr>" and st: "durable contents st = (?t, ?i)"
    by (auto elim: saveState_durable)
  have "vruns ?i n ?L (voter_of contents m) (voter_of contents ?m4)"
    using vs_campaign [of ?t "voter_of contents m" ?i n] st
    by (intro vruns_one [of _ _ _ "Campaign ?t"]) (auto simp: voter_of_standing m1 voter_of_def)
  moreover have "vruns ?i n {Silent, Lead} (voter_of contents ?m4) (voter_of contents (becomeLeader save e ?m4))"
    if "quorum ?m4 \<le> 1"
    using that assms by (intro becomeLeader_run [of _ "[?i]"]) (auto simp: m1 quorum_def)
  ultimately show ?thesis
    using stands(3) vruns_trans vruns_mono [of ?i n "{Silent, Lead}" _ _ ?L] by auto
qed simp

lemma onElectionTimeout_run:
  "vruns (node_ID (self m)) (length (mb_Voters (membership m))) {Campaign (currentTerm m + 1), Lead, Silent}
    (voter_of contents m) (voter_of contents (onElectionTimeout save e m))"
  using startElection_run [OF refl, of m e] by (simp add: onElectionTimeout_def insert_commute)

lemma onVoteResult_run:
  "vruns me (length (mb_Voters (membership m)))
    ({Silent} \<union> (if counts r m then {Count (vm_from r), Lead} else {}))
    (voter_of contents m) (voter_of contents (onVoteResult save e r m))"
proof (cases "counts r m \<and> \<not> currentTerm m < vr_Term (vm_resp r) \<and> votesFrom m \<noteq> None")
  case False
  then show ?thesis
    by (auto simp: onVoteResult_def counts_def intro: vruns_mono [OF stepDown_run] split: option.split)
next
  case True
  let ?n = "length (mb_Voters (membership m))" and ?L = "{Silent, Count (vm_from r), Lead}"
  obtain vs where vs: "votesFrom m = Some vs" using True by auto
  define m1 where "m1 = m\<lparr>votesFrom := Some (List.insert (vm_from r) vs)\<rparr>"
  have run1: "vruns me ?n ?L (voter_of contents m) (voter_of contents m1)"
    using True vs by (intro vruns_one [of _ _ _ "Count (vm_from r)"])
      (auto simp: m1_def counts_def intro!: vs_count [of _ vs])
  have m1: "role m1 = RoleCandidate" "votesFrom m1 = Some (List.insert (vm_from r) vs)"
    "quorum m1 = Quorum ?n"
    using True by (simp_all add: m1_def counts_def quorum_def)
  have run2: "vruns me ?n ?L (voter_of contents m1) (voter_of contents (becomeLeader save e m1))"
    if "quorum m1 \<le> length (List.insert (vm_from r) vs)"
    using becomeLeader_run [OF m1(1,2), of ?n me e] that m1(3) by (auto elim: vruns_mono)
  have "onVoteResult save e r m =
      (if quorum m1 \<le> length (List.insert (vm_from r) vs) then becomeLeader save e m1 else m1)"
    using True vs by (auto simp: onVoteResult_def counts_def m1_def Let_def List.insert_def)
  then have "vruns me ?n ?L (voter_of contents m) (voter_of contents (onVoteResult save e r m))"
    using run1 run2 by (auto intro: vruns_trans)
  with True show ?thesis by (simp add: insert_commute)
qed

lemma onVote_run:
  assumes "onVote save e req m = (m', resp)"
  shows "vruns me n ({Silent} \<union> (if vr_Granted resp then {Grant (vq_Term req) (vq_CandidateID req)} else {}))
      (voter_of contents m) (voter_of contents m')"
  using assms
proof (cases rule: onVote_cases)
  case grant_failed
  then show ?thesis
    using saveState_silent [of "vq_Term req" "vq_CandidateID req" m m' False me n]
    by (auto simp: may_write_def split: if_splits)
next
  case (granted m1)
  then have mw: "may_write (voter_of contents m) (vq_Term req, vq_CandidateID req)"
    by (auto simp: may_write_def split: if_splits)
  from granted obtain st where "m1 = m\<lparr>store := st\<rparr>"
    and "durable contents st = (vq_Term req, vq_CandidateID req)"
    by (auto elim: saveState_durable)
  with granted vs_grant [OF mw] show ?thesis
    by (intro vruns_one [of _ _ _ "Grant (vq_Term req) (vq_CandidateID req)"]) (auto simp: voter_of_def frame_simps)
next
  case adopt_failed
  then show ?thesis using saveState_silent [of "vq_Term req" "[]" m m' False me n]
    by (auto simp: may_write_def)
next
  case (adopted m1)
  then show ?thesis using adopt_higher_run [of "vq_Term req" m m1 True me n] by simp
qed simp

text \<open>Accepting a heartbeat: adopt a newer term, then follow.\<close>

lemma acceptLeader_follower: "role (acceptLeader save e req m) = RoleFollower"
  by (simp add: acceptLeader_def Let_def split: option.split)

lemma acceptLeader_run:
  assumes "\<not> hq_Term req < currentTerm m"
  shows "vruns me n {Silent} (voter_of contents m) (voter_of contents (acceptLeader save e req m))"
proof (cases "currentTerm m < hq_Term req")
  case True
  obtain m' ok where s: "saveState save (hq_Term req) [] m = (m', ok)" by fastforce
  show ?thesis using adopt_higher_run [OF s True, of me n] s True
    by (auto simp: acceptLeader_def Let_def split: option.split)
next
  case False
  have "vruns me n {Silent} (voter_of contents m) ((voter_of contents m)\<lparr>vo_role := RoleFollower\<rparr>)"
    by (intro vruns_one [OF vs_follow]) simp
  with False show ?thesis
    by (auto simp: acceptLeader_def Let_def split: option.split)
qed

lemma adoptOffered_run:
  assumes "adoptOffered save req m = (m', acked)" and "role m = RoleFollower"
  shows "vruns me n {Silent} (voter_of contents m) (voter_of contents m')"
  using assms(1) adoptMembership_run [OF _ assms(2), of _ m' acked me n]
  by (auto simp: adoptOffered_def split: option.splits if_splits)

lemma onHeartbeat_run:
  "vruns me n {Silent} (voter_of contents m) (voter_of contents (fst (onHeartbeat save e req m)))"
proof (cases "hq_Term req < currentTerm m")
  case True
  then show ?thesis by (simp add: onHeartbeat_def)
next
  case False
  obtain m4 acked where a: "adoptOffered save req (acceptLeader save e req m) = (m4, acked)" by fastforce
  from vruns_trans [OF acceptLeader_run [OF False] adoptOffered_run [OF a acceptLeader_follower]]
  show ?thesis using False a by (simp add: onHeartbeat_def Let_def)
qed

lemma onHeartbeatResult_run:
  "vruns me n {Silent} (voter_of contents m) (voter_of contents (onHeartbeatResult save e r m))"
  using maybeStartMembershipChange_run [of me n "publish e (recordAck r (recordContact r m))" e]
    stepDown_run [of m "hr_Term (hm_resp r)" me n e]
  by (simp add: onHeartbeatResult_def Let_def)

lemma onIdentifyResult_run:
  "vruns me n {Silent} (voter_of contents m) (voter_of contents (onIdentifyResult save e r m))"
  using maybeStartMembershipChange_run [of me n "m\<lparr>candidates := _\<rparr>" e]
  by (auto simp: onIdentifyResult_def Let_def split: option.split)

lemma onRoster_run:
  "vruns me n {Silent} (voter_of contents m) (voter_of contents (onRoster save e r m))"
proof -
  have "\<exists>m3. onRoster save e r m =
        (if role m3 = RoleLeader then maybeStartMembershipChange save e m3 else m3)
      \<and> voter_of contents m3 = voter_of contents m"
    unfolding onRoster_def Let_def by (rule exI, rule conjI, rule refl) simp
  then show ?thesis using maybeStartMembershipChange_run [of me n] by (metis vruns_refl)
qed

lemma onHeartbeatTick_run:
  "vruns me n {Silent} (voter_of contents m) (voter_of contents (onHeartbeatTick save e m))"
proof -
  define m1 where "m1 = (if discoveryMode m then maintainDiscovery (env_now e) m else m)"
  have "voter_of contents m1 = voter_of contents m" by (simp add: m1_def)
  then show ?thesis
    using maybeStartMembershipChange_run [of me n "sendHeartbeats e m1" e]
    by (simp add: onHeartbeatTick_def Let_def m1_def [symmetric])
qed

lemma loop_step_run:
  assumes "loop_step save e i m = (m', r)"
  shows "vruns (node_ID (self m)) (length (mb_Voters (membership m))) (turn_labels i m r)
    (voter_of contents m) (voter_of contents m')"
proof (cases i)
  case (Event ev)
  show ?thesis
  proof (cases ev)
    case (VoteMsg req)
    obtain m1 resp where v: "onVote save e req m = (m1, resp)" by fastforce
    show ?thesis using assms Event VoteMsg onVote_run [OF v] v
      by (auto simp: loop_step_def handleEvent_def turn_labels_def split: if_splits)
  next
    case (HeartbeatMsg req)
    then show ?thesis using assms Event onHeartbeat_run [of _ _ m e req]
      by (auto simp: loop_step_def handleEvent_def turn_labels_def split: if_splits prod.splits)
  next
    case (VoteResultMsg rm)
    then show ?thesis using assms Event onVoteResult_run [of _ m rm e]
      by (auto simp: loop_step_def handleEvent_def turn_labels_def split: if_splits)
  next
    case (SubscribeMsg ch)
    then show ?thesis using assms Event
      by (auto simp: loop_step_def handleEvent_def onSubscribe_def Let_def split: if_splits)
  next
    case (UnsubscribeMsg sid)
    then show ?thesis using assms Event
      by (auto simp: loop_step_def handleEvent_def onUnsubscribe_def Let_def split: if_splits option.splits)
  qed (use assms Event onHeartbeatResult_run onIdentifyResult_run in
      \<open>auto simp: loop_step_def handleEvent_def turn_labels_def split: if_splits\<close>)
qed (use assms onRoster_run onHeartbeatTick_run onElectionTimeout_run in
    \<open>auto simp: loop_step_def shutdown_def turn_labels_def split: if_splits\<close>)

end

end
