(* ===== verification/Election_Cluster.thy ===== *)
theory Election_Cluster
  imports Election_Node
begin

text \<open>
  A cluster of managers over an adversarial network. An RPC that was started may be
  served any number of times, at any time, or fail; its result may be delivered any
  number of times; a caller may give up before or after the callee accepts its
  message; a process may stop in the middle of handling an input, after the durable
  writes and before anything else, and be restarted from its store. Stores follow
  \<open>istore\<close>: a save may fail with or without having taken effect.

  The component \<open>cl_box\<close> records every vote some manager was seen to hold and every
  leader that was seen; it is the abstract ballot box the cluster refines.
  \<open>cl_saturated\<close> records that some manager reached term \<open>2^64 - 1\<close>, from where the
  next candidacy wraps to term 0.
\<close>

datatype 'st proc = Absent | Down 'st | Up "'st Manager"

record 'st cluster =
  cl_conf :: "NodeID \<Rightarrow> Config"
  cl_proc :: "(NodeID \<times> 'st proc) list"
  cl_calls :: "(NodeID \<times> rpc) list"
  cl_results :: "(NodeID \<times> event) list"
  cl_box :: voting
  cl_saturated :: bool

abbreviation proc_of :: "'st cluster \<Rightarrow> NodeID \<Rightarrow> 'st proc" where
  "proc_of cl n \<equiv> map_get Absent (cl_proc cl) n"

text \<open>At first every process is down, over the store its machine has.\<close>

definition init_cluster ::
  "(NodeID \<Rightarrow> Config) \<Rightarrow> (NodeID \<times> 'st) list \<Rightarrow> 'st cluster" where
  "init_cluster conf stores =
     \<lparr>cl_conf = conf, cl_proc = map (\<lambda>(n, st). (n, Down st)) stores, cl_calls = [], cl_results = [],
      cl_box = empty_box, cl_saturated = False\<rparr>"

definition record_votes :: "NodeID \<Rightarrow> 'st Manager \<Rightarrow> voting \<Rightarrow> voting" where
  "record_votes n m b =
     (let b1 = (if votedFor m = [] then b
                else b\<lparr>vt_cast := (n, currentTerm m, votedFor m) # vt_cast b\<rparr>)
      in if role m = RoleLeader then b1\<lparr>vt_leaders := (currentTerm m, n) # vt_leaders b1\<rparr> else b1)"

text \<open>A node after a turn: its workers are started, its votes are recorded.\<close>

definition observe :: "NodeID \<Rightarrow> 'st Manager \<Rightarrow> 'st cluster \<Rightarrow> 'st cluster" where
  "observe n m cl =
     cl\<lparr>cl_proc := map_put n (Up (m\<lparr>outbox := []\<rparr>)) (cl_proc cl),
        cl_calls := cl_calls cl @ map (Pair n) (outbox m),
        cl_box := record_votes n m (cl_box cl),
        cl_saturated := cl_saturated cl \<or> currentTerm m = - 1\<rparr>"

definition post_result :: "NodeID \<Rightarrow> event \<Rightarrow> 'st cluster \<Rightarrow> 'st cluster" where
  "post_result n ev cl = cl\<lparr>cl_results := cl_results cl @ [(n, ev)]\<rparr>"

definition local_input :: "input \<Rightarrow> bool" where
  "local_input i =
     (case i of
        Event (VoteMsg _) \<Rightarrow> False | Event (HeartbeatMsg _) \<Rightarrow> False
      | Event (VoteResultMsg _) \<Rightarrow> False | Event (HeartbeatResultMsg _) \<Rightarrow> False
      | Event (IdentifyResultMsg _) \<Rightarrow> False | _ \<Rightarrow> True)"

datatype action =
    Turn NodeID env input
  | Serve nat wait env time time
  | Lose nat time time
  | Deliver nat env
  | Forget
  | Crash NodeID env input
  | Restart NodeID env bool

definition serve ::
  "'st save_fn \<Rightarrow> NodeID \<Rightarrow> rpc \<Rightarrow> wait \<Rightarrow> env \<Rightarrow> time \<Rightarrow> time \<Rightarrow> 'st cluster \<Rightarrow> 'st cluster" where
  "serve sv src r w e t0 t1 cl =
     (case r of
        RpcVote p req \<Rightarrow>
          (case proc_of cl (node_ID p) of Absent \<Rightarrow> cl | Down _ \<Rightarrow> cl
           | Up m \<Rightarrow> let (m', resp) = HandleVote sv e w req m
                    in post_result src (voteWorker p req (Some resp)) (observe (node_ID p) m' cl))
      | RpcHeartbeat p req mver mterm \<Rightarrow>
          (case proc_of cl (node_ID p) of Absent \<Rightarrow> cl | Down _ \<Rightarrow> cl
           | Up m \<Rightarrow> let (m', resp) = HandleHeartbeat sv e w req m
                    in post_result src (heartbeatWorker p req mver mterm t0 t1 (Some resp))
                         (observe (node_ID p) m' cl))
      | RpcIdentify p \<Rightarrow>
          (case proc_of cl (node_ID p) of Absent \<Rightarrow> cl | Down _ \<Rightarrow> cl
           | Up m \<Rightarrow> post_result src (identifyWorker p (Some (HandleIdentify m))) cl))"

definition lose :: "NodeID \<Rightarrow> rpc \<Rightarrow> time \<Rightarrow> time \<Rightarrow> 'st cluster \<Rightarrow> 'st cluster" where
  "lose src r t0 t1 cl =
     post_result src
       (case r of RpcVote p req \<Rightarrow> voteWorker p req None
        | RpcHeartbeat p req mver mterm \<Rightarrow> heartbeatWorker p req mver mterm t0 t1 None
        | RpcIdentify p \<Rightarrow> identifyWorker p None) cl"

text \<open>
  Calls and results are named by their position in the lists of what was ever
  started and answered, so they can be served and delivered again; \<open>Forget\<close> loses
  them all. An action that is not enabled leaves the cluster as it is.
\<close>

definition exec :: "'st save_fn \<Rightarrow> 'st load_fn \<Rightarrow> action \<Rightarrow> 'st cluster \<Rightarrow> 'st cluster" where
  "exec sv ld act cl =
     (case act of
        Turn n e i \<Rightarrow>
          (case proc_of cl n of Absent \<Rightarrow> cl | Down _ \<Rightarrow> cl
           | Up m \<Rightarrow> if local_input i then observe n (fst (loop_step sv e i m)) cl else cl)
      | Serve k w e t0 t1 \<Rightarrow>
          if k < length (cl_calls cl) then (case cl_calls cl ! k of (src, r) \<Rightarrow> serve sv src r w e t0 t1 cl) else cl
      | Lose k t0 t1 \<Rightarrow>
          if k < length (cl_calls cl) then (case cl_calls cl ! k of (src, r) \<Rightarrow> lose src r t0 t1 cl) else cl
      | Deliver k e \<Rightarrow>
          if k < length (cl_results cl) then
            (case cl_results cl ! k of (n, ev) \<Rightarrow>
               (case proc_of cl n of Absent \<Rightarrow> cl | Down _ \<Rightarrow> cl | Up m \<Rightarrow> observe n (deliver sv e ev m) cl))
          else cl
      | Forget \<Rightarrow> cl\<lparr>cl_calls := [], cl_results := []\<rparr>
      | Crash n e i \<Rightarrow>
          (case proc_of cl n of Absent \<Rightarrow> cl | Down _ \<Rightarrow> cl
           | Up m \<Rightarrow> cl\<lparr>cl_proc := map_put n (Down (store (fst (loop_step sv e i m)))) (cl_proc cl)\<rparr>)
      | Restart n e disc \<Rightarrow>
          (case proc_of cl n of Absent \<Rightarrow> cl | Up _ \<Rightarrow> cl
           | Down st \<Rightarrow>
               (case NewManager ld (cl_conf cl n) st of
                  (st', Inl _) \<Rightarrow> cl\<lparr>cl_proc := map_put n (Down st') (cl_proc cl)\<rparr>
                | (st', Inr m) \<Rightarrow> observe n (Run_start e disc m) cl)))"

inductive creach :: "'st save_fn \<Rightarrow> 'st load_fn \<Rightarrow> 'st cluster \<Rightarrow> 'st cluster \<Rightarrow> bool" for sv ld cl0 where
  creach_init: "creach sv ld cl0 cl0"
| creach_exec: "creach sv ld cl0 cl \<Longrightarrow> creach sv ld cl0 (exec sv ld act cl)"

fun run :: "'st save_fn \<Rightarrow> 'st load_fn \<Rightarrow> action list \<Rightarrow> 'st cluster \<Rightarrow> 'st cluster" where
  "run sv ld [] cl = cl"
| "run sv ld (act # acts) cl = run sv ld acts (exec sv ld act cl)"

lemma local_input_VoteResult [simp]: "\<not> local_input (Event (VoteResultMsg res))"
  by (simp add: local_input_def)

lemma HandleVote_turn:
  assumes "HandleVote sv e w req m = (m', resp)"
  obtains "m' = m" "\<not> vr_Granted resp"
  | r where "loop_step sv e (Event (VoteMsg req)) m = (m', r)" "vr_Granted resp \<longrightarrow> r = ReplyVote resp"
  using assms
  by (auto simp: HandleVote_def waitForReply_def Let_def split: if_splits prod.splits reply.splits option.splits)

lemma HandleHeartbeat_turn:
  assumes "HandleHeartbeat sv e w req m = (m', resp)"
  obtains "m' = m" | r where "loop_step sv e (Event (HeartbeatMsg req)) m = (m', r)"
  using assms by (auto simp: HandleHeartbeat_def Let_def split: if_splits prod.splits)

lemma granted_held:
  assumes "loop_step sv e (Event (VoteMsg req)) m = (m', ReplyVote resp)" and "vr_Granted resp"
  shows "currentTerm m' = vq_Term req" "votedFor m' = vq_CandidateID req"
proof -
  obtain m1 where v: "onVote sv e req m = (m1, resp)" and m': "m' = addActivity m1"
    using assms(1) by (auto simp: loop_step_def handleEvent_def split: if_splits prod.splits)
  show "currentTerm m' = vq_Term req" "votedFor m' = vq_CandidateID req"
    using v assms(2) by (cases rule: onVote_cases; simp add: m' addActivity_def frame_simps)+
qed

lemma run_creach_from: "creach sv ld cl0 cl \<Longrightarrow> creach sv ld cl0 (run sv ld acts cl)"
  by (induction acts arbitrary: cl) (auto intro: creach_exec)

lemma run_creach: "creach sv ld cl0 (run sv ld acts cl0)"
  by (rule run_creach_from) (rule creach_init)

subsection \<open>The voter invariant against the ballot box\<close>

text \<open>
  Votes on record stay covered in memory and on disk, a vote held is durable, and a
  candidate or leader holds its own vote and a tally of votes on record.
\<close>

definition vinv :: "(NodeID \<times> Term \<times> NodeID) set \<Rightarrow> NodeID set \<Rightarrow> nat \<Rightarrow> NodeID \<Rightarrow> voter \<Rightarrow> bool" where
  "vinv K V n me a \<longleftrightarrow>
     (\<forall>t c. (me, t, c) \<in> K \<longrightarrow> covers (t, c) (vo_term a, vo_vote a) \<and> covers (t, c) (vo_disk a)) \<and>
     (vo_vote a \<noteq> [] \<longrightarrow> covers (vo_term a, vo_vote a) (vo_disk a)) \<and>
     (vo_role a \<noteq> RoleFollower \<longrightarrow> vo_vote a = me \<and>
        (\<exists>vs. vo_tally a = Some vs \<and> distinct vs \<and> set vs \<subseteq> V \<and>
           (\<forall>v\<in>set vs. v = me \<or> (v, vo_term a, me) \<in> K) \<and>
           (vo_role a = RoleLeader \<longrightarrow> Quorum n \<le> length vs)))"

lemma vstep_vinv:
  assumes step: "vstep me n a l b" and inv: "vinv K V n me a"
    and K: "\<And>t c. (me, t, c) \<in> K \<Longrightarrow> c \<noteq> []" and me: "me \<in> V"
    and wrap: "l \<noteq> Campaign 0"
    and count: "\<And>v. l = Count v \<Longrightarrow> v \<in> V \<and> (v, vo_term a, me) \<in> K"
  shows "vinv K V n me b"
proof -
  have "covers (t, c) (vo_term b, vo_vote b) \<and> covers (t, c) (vo_disk b)" if "(me, t, c) \<in> K" for t c
    using vstep_covers [OF step wrap, of "(t, c)"] K [OF that] inv that by (simp add: vinv_def)
  moreover have "covers (vo_term b, vo_vote b) (vo_disk b)" if "vo_vote b \<noteq> []"
    using vstep_held [OF step wrap _ that] inv by (simp add: vinv_def)
  moreover have "vo_vote b = me \<and> (\<exists>vs. vo_tally b = Some vs \<and> distinct vs \<and> set vs \<subseteq> V \<and>
      (\<forall>v\<in>set vs. v = me \<or> (v, vo_term b, me) \<in> K) \<and> (vo_role b = RoleLeader \<longrightarrow> Quorum n \<le> length vs))"
    if "vo_role b \<noteq> RoleFollower"
    using step by (cases rule: vstep.cases) (use that inv me count in \<open>auto simp: vinv_def\<close>)
  ultimately show ?thesis by (simp add: vinv_def)
qed

text \<open>A run keeps the invariant when its campaigns do not wrap and its counts are of votes on record.\<close>

lemma vruns_vinv:
  assumes run: "vruns me n L a b" and inv: "vinv K V n me a"
    and K: "\<And>t c. (me, t, c) \<in> K \<Longrightarrow> c \<noteq> []" and me: "me \<in> V"
    and wrap: "Campaign 0 \<notin> L"
    and count: "\<And>v. Count v \<in> L \<Longrightarrow> v \<in> V \<and> (v, vo_term a, me) \<in> K \<and> (\<forall>t. Campaign t \<notin> L)"
  shows "vinv K V n me b"
proof -
  let ?P = "\<lambda>x. vinv K V n me x \<and> ((\<exists>v. Count v \<in> L) \<longrightarrow> vo_role x = RoleFollower \<or> vo_term x = vo_term a)"
  from run have "?P b"
  proof (induction rule: vruns_induct)
    case refl
    show ?case using inv by simp
  next
    case (step x l y)
    have "vinv K V n me y"
    proof (rule vstep_vinv [OF step.hyps(1) _ K me])
      show "vinv K V n me x" "l \<noteq> Campaign 0" using step.IH step.hyps(2) wrap by auto
      fix v assume l: "l = Count v"
      then have "vo_role x = RoleCandidate" using step.hyps(1) by (auto elim: vstep.cases)
      with step l count show "v \<in> V \<and> (v, vo_term x, me) \<in> K" by auto
    qed
    moreover have "vo_role y = RoleFollower \<or> vo_term y = vo_term a" if "Count v \<in> L" for v
      using step.hyps(1)
      by (cases rule: vstep.cases) (use step.IH step.hyps(2) count [OF that] that in auto)
    ultimately show ?case by blast
  qed
  then show ?thesis by simp
qed

subsection \<open>The cluster invariant\<close>

definition node_ok ::
  "('st \<Rightarrow> PersistentState option) \<Rightarrow> Node list \<Rightarrow> (NodeID \<times> Term \<times> NodeID) set \<Rightarrow> NodeID \<Rightarrow> 'st Manager \<Rightarrow> bool" where
  "node_ok ct peers K n m \<longleftrightarrow>
     node_ID (self m) = n \<and> \<not> discoveryMode m \<and> mb_Voters (membership m) = SortNodes peers \<and>
     n \<in> node_ID ` set peers \<and> n \<noteq> [] \<and> own_calls m \<and>
     vinv K (node_ID ` set peers) (length peers) n (voter_of ct m)"

abbreviation cast_of :: "'st cluster \<Rightarrow> (NodeID \<times> Term \<times> NodeID) set" where
  "cast_of cl \<equiv> set (vt_cast (cl_box cl))"

definition cinv :: "('st \<Rightarrow> PersistentState option) \<Rightarrow> Node list \<Rightarrow> 'st cluster \<Rightarrow> bool" where
  "cinv ct peers cl \<longleftrightarrow>
     (\<forall>n m. proc_of cl n = Up m \<longrightarrow> node_ok ct peers (cast_of cl) n m \<and> currentTerm m \<noteq> - 1) \<and>
     (\<forall>n st t c. proc_of cl n = Down st \<and> (n, t, c) \<in> cast_of cl \<longrightarrow> covers (t, c) (durable ct st)) \<and>
     (\<forall>n t c. (n, t, c) \<in> cast_of cl \<longrightarrow> c \<noteq> []) \<and>
     (\<forall>src p req. (src, RpcVote p req) \<in> set (cl_calls cl) \<longrightarrow> vq_CandidateID req = src \<and> src \<noteq> []) \<and>
     (\<forall>src r. (src, VoteResultMsg r) \<in> set (cl_results cl) \<and> \<not> vm_err r \<and> vr_Granted (vm_resp r) \<longrightarrow>
        (vm_from r, vm_term r, src) \<in> cast_of cl) \<and>
     (vote_step (majority_of peers))\<^sup>*\<^sup>* empty_box (cl_box cl)"

text \<open>Votes on record of other nodes do not matter to a voter, and more of them never hurt.\<close>

lemma vinv_more:
  assumes "vinv K V n me a" and "K \<subseteq> K'"
    and "\<And>t c. (me, t, c) \<in> K' \<Longrightarrow> (me, t, c) \<in> K \<or> (t = vo_term a \<and> c = vo_vote a \<and> c \<noteq> [])"
  shows "vinv K' V n me a"
  unfolding vinv_def
proof (intro conjI allI impI)
  fix t c assume "(me, t, c) \<in> K'"
  then consider "(me, t, c) \<in> K" | "t = vo_term a" "c = vo_vote a" "c \<noteq> []" using assms(3) by blast
  then have "covers (t, c) (vo_term a, vo_vote a) \<and> covers (t, c) (vo_disk a)"
    using assms(1) by cases (simp_all add: vinv_def covers_def)
  then show "covers (t, c) (vo_term a, vo_vote a)" "covers (t, c) (vo_disk a)" by auto
next
  assume "vo_role a \<noteq> RoleFollower"
  with assms(1,2) show "\<exists>vs. vo_tally a = Some vs \<and> distinct vs \<and> set vs \<subseteq> V \<and>
      (\<forall>v\<in>set vs. v = me \<or> (v, vo_term a, me) \<in> K') \<and> (vo_role a = RoleLeader \<longrightarrow> Quorum n \<le> length vs)"
    unfolding vinv_def by blast
qed (use assms(1) in \<open>auto simp: vinv_def\<close>)

lemma record_votes_cast:
  "set (vt_cast (record_votes n m b)) =
     (if votedFor m = [] then {} else {(n, currentTerm m, votedFor m)}) \<union> set (vt_cast b)"
  by (simp add: record_votes_def Let_def)

lemma record_votes_steps:
  assumes ok: "node_ok ct peers (set (vt_cast b)) n m"
  shows "(vote_step (majority_of peers))\<^sup>*\<^sup>* b (record_votes n m b)"
proof -
  let ?b1 = "if votedFor m = [] then b else b\<lparr>vt_cast := (n, currentTerm m, votedFor m) # vt_cast b\<rparr>"
  from ok have inv: "vinv (set (vt_cast b)) (node_ID ` set peers) (length peers) n (voter_of ct m)"
    and n: "n \<noteq> []" by (auto simp: node_ok_def)
  have s1: "(vote_step (majority_of peers))\<^sup>*\<^sup>* b ?b1"
    using inv by (auto simp: vinv_def covers_def intro!: r_into_rtranclp vote_cast)
  show ?thesis
  proof (cases "role m = RoleLeader")
    case False
    with s1 show ?thesis by (simp add: record_votes_def)
  next
    case True
    with inv obtain vs where vs: "distinct vs" "set vs \<subseteq> node_ID ` set peers" "Quorum (length peers) \<le> length vs"
      "\<forall>v\<in>set vs. v = n \<or> (v, currentTerm m, n) \<in> set (vt_cast b)" and vote: "votedFor m = n"
      by (auto simp: vinv_def)
    have "vote_step (majority_of peers) ?b1 (?b1\<lparr>vt_leaders := (currentTerm m, n) # vt_leaders ?b1\<rparr>)"
      using vs vote n by (intro vote_elect [of _ "set vs"]) (auto simp: majority_of_def distinct_card)
    with s1 True show ?thesis
      by (auto simp: record_votes_def intro: rtranclp.rtrancl_into_rtrancl)
  qed
qed

lemma observe_cinv:
  assumes inv: "cinv ct peers cl" and ok: "node_ok ct peers (cast_of cl) n m"
    and sat: "\<not> cl_saturated (observe n m cl)"
  shows "cinv ct peers (observe n m cl)"
proof -
  let ?cl = "observe n m cl"
  have K: "cast_of ?cl = (if votedFor m = [] then {} else {(n, currentTerm m, votedFor m)}) \<union> cast_of cl"
    by (simp add: observe_def record_votes_cast)
  have others: "node_ok ct peers (cast_of ?cl) n' m'" if "proc_of cl n' = Up m'" "n' \<noteq> n" for n' m'
  proof -
    from inv that have "node_ok ct peers (cast_of cl) n' m'" by (auto simp: cinv_def)
    then show ?thesis unfolding node_ok_def
      using that(2) by (auto elim!: vinv_more simp: K split: if_splits)
  qed
  have me: "node_ok ct peers (cast_of ?cl) n (m\<lparr>outbox := []\<rparr>)"
    using ok unfolding node_ok_def
    by (auto elim!: vinv_more simp: K own_calls_def split: if_splits)
  have "(vote_step (majority_of peers))\<^sup>*\<^sup>* empty_box (cl_box ?cl)"
    using inv record_votes_steps [OF ok] by (auto simp: cinv_def observe_def)
  moreover have "\<forall>src p req. (src, RpcVote p req) \<in> set (cl_calls ?cl) \<longrightarrow> vq_CandidateID req = src \<and> src \<noteq> []"
    using inv ok by (auto simp: cinv_def observe_def node_ok_def own_calls_def)
  moreover have "\<forall>n' m'. proc_of ?cl n' = Up m' \<longrightarrow> node_ok ct peers (cast_of ?cl) n' m' \<and> currentTerm m' \<noteq> - 1"
    using me others inv sat by (auto simp: observe_def cinv_def)
  moreover have "\<forall>n' st t c. proc_of ?cl n' = Down st \<and> (n', t, c) \<in> cast_of ?cl \<longrightarrow> covers (t, c) (durable ct st)"
    using inv by (auto simp: cinv_def observe_def record_votes_cast split: if_splits)
  moreover have "\<forall>n t c. (n, t, c) \<in> cast_of ?cl \<longrightarrow> c \<noteq> []"
    using inv unfolding K cinv_def by (auto split: if_splits)
  moreover have "\<forall>src r. (src, VoteResultMsg r) \<in> set (cl_results ?cl) \<and> \<not> vm_err r \<and> vr_Granted (vm_resp r) \<longrightarrow>
      (vm_from r, vm_term r, src) \<in> cast_of ?cl"
    using inv unfolding K cinv_def by (auto simp: observe_def)
  ultimately show ?thesis unfolding cinv_def by blast
qed

lemma post_result_cinv:
  assumes "cinv ct peers cl"
    and "\<And>r. ev = VoteResultMsg r \<Longrightarrow> \<not> vm_err r \<Longrightarrow> vr_Granted (vm_resp r) \<Longrightarrow>
      (vm_from r, vm_term r, n) \<in> cast_of cl"
  shows "cinv ct peers (post_result n ev cl)"
  using assms unfolding cinv_def post_result_def by auto

text \<open>Every node of the static cluster is configured with its own identity and the same peers.\<close>

definition static_conf :: "Node list \<Rightarrow> (NodeID \<Rightarrow> Config) \<Rightarrow> bool" where
  "static_conf peers conf \<longleftrightarrow>
     (\<forall>n. node_ID (cfg_Self (conf n)) = n \<and> cfg_Peers (conf n) = peers \<and> \<not> cfg_Discoverer (conf n))"

lemma exec_frame [simp]:
  "cl_conf (exec sv ld act cl) = cl_conf cl"
  by (auto simp: exec_def serve_def lose_def observe_def post_result_def Let_def
      split: action.split proc.split rpc.split sum.split prod.split)

lemma exec_saturated: "cl_saturated cl \<Longrightarrow> cl_saturated (exec sv ld act cl)"
  by (auto simp: exec_def serve_def lose_def observe_def post_result_def Let_def
      split: action.split proc.split rpc.split sum.split prod.split)

lemma down_cinv:
  assumes "cinv ct peers cl"
    and "\<And>t c. (n, t, c) \<in> cast_of cl \<Longrightarrow> covers (t, c) (durable ct st)"
  shows "cinv ct peers (cl\<lparr>cl_proc := map_put n (Down st) (cl_proc cl)\<rparr>)"
  using assms unfolding cinv_def by auto

lemma init_not_up: "proc_of (init_cluster conf stores) n \<noteq> Up m"
  by (auto simp: init_cluster_def map_get_def split: option.split dest: map_of_SomeD)

lemma cinv_init: "cinv ct peers (init_cluster conf stores)"
  using init_not_up [of conf stores] by (simp add: cinv_def) (simp add: init_cluster_def empty_box_def)

context istore
begin

text \<open>One turn keeps a node in order, whatever the input, if the votes it counts are on record.\<close>

lemma turn_node_ok:
  assumes ok: "node_ok contents peers K n m" and below: "currentTerm m \<noteq> - 1"
    and K: "\<And>n t c. (n, t, c) \<in> K \<Longrightarrow> c \<noteq> []"
    and step: "loop_step save e i m = (m', r)"
    and count: "\<And>res. i = Event (VoteResultMsg res) \<Longrightarrow> \<not> vm_err res \<Longrightarrow> vr_Granted (vm_resp res) \<Longrightarrow>
      (vm_from res, vm_term res, n) \<in> K"
  shows "node_ok contents peers K n m'"
proof -
  have fr: "framed m m'" using framed_loop_step [of m save e i] step by simp
  have run: "vruns n (length peers) (turn_labels i m r) (voter_of contents m) (voter_of contents m')"
    using loop_step_run [OF step] ok by (simp add: node_ok_def)
  have "vinv K (node_ID ` set peers) (length peers) n (voter_of contents m')"
  proof (rule vruns_vinv [OF run])
    show "Campaign 0 \<notin> turn_labels i m r"
      using below turn_labels_no_wrap by blast
    fix v assume "Count v \<in> turn_labels i m r"
    then obtain res where "i = Event (VoteResultMsg res)" "counts res m" "v = vm_from res"
      by (auto simp: turn_labels_def split: input.splits event.splits reply.splits if_splits)
    then show "v \<in> node_ID ` set peers \<and> (v, vo_term (voter_of contents m), n) \<in> K \<and>
        (\<forall>t. Campaign t \<notin> turn_labels i m r)"
      using count ok by (auto simp: counts_def node_ok_def turn_labels_def isVoter_def HasVoter_iff)
  qed (use ok K in \<open>auto simp: node_ok_def\<close>)
  with ok fr show ?thesis by (auto simp: node_ok_def framed_def ident_def)
qed

lemma turn_durable:
  assumes "loop_step save e i m = (m', r)" and "currentTerm m \<noteq> - 1" and "snd tc \<noteq> []"
    and "covers tc (currentTerm m, votedFor m)" and "covers tc (durable contents (store m))"
  shows "covers tc (durable contents (store m'))"
proof -
  let ?P = "\<lambda>x. covers tc (vo_term x, vo_vote x) \<and> covers tc (vo_disk x)"
  have nw: "l \<noteq> Campaign 0" if "l \<in> turn_labels i m r" for l
    using that assms(2) by (rule turn_labels_no_wrap)
  from loop_step_run [OF assms(1)] have "?P (voter_of contents m')"
    by (induction rule: vruns_induct) (use assms(3-5) nw vstep_covers in \<open>auto\<close>)
  then show ?thesis by simp
qed

lemma restart_voter:
  assumes "NewManager load c st = (st', Inr m)" and "\<not> cfg_Discoverer c"
  shows "voter_of contents m = \<lparr>vo_term = fst (durable contents st), vo_vote = snd (durable contents st),
      vo_disk = durable contents st, vo_role = RoleFollower, vo_tally = None\<rparr> \<and>
    self m = cfg_Self c \<and> \<not> discoveryMode m \<and> mb_Voters (membership m) = SortNodes (cfg_Peers c) \<and>
    node_ID (cfg_Self c) \<noteq> [] \<and> node_ID (cfg_Self c) \<in> node_ID ` set (cfg_Peers c) \<and> own_calls m"
proof (rule NewManager_Inr [OF assms(1)])
  fix loaded
  assume v: "validateConfig c True True True = None" and l: "load st = (st', Inr loaded)"
    and m: "currentTerm m = (case loaded of None \<Rightarrow> 0 | Some ps \<Rightarrow> ps_CurrentTerm ps)"
      "votedFor m = (case loaded of None \<Rightarrow> [] | Some ps \<Rightarrow> ps_VotedFor ps)"
      "role m = RoleFollower" "votesFrom m = None" "outbox m = []" "store m = st'"
      "self m = cfg_Self c" "discoveryMode m = cfg_Discoverer c"
      "membership m = (if cfg_Discoverer c then
         (case Option.bind loaded ps_Membership of Some p \<Rightarrow> p\<lparr>mb_Voters := SortNodes (mb_Voters p)\<rparr>
          | None \<Rightarrow> \<lparr>mb_Version = 1, mb_CreatedInTerm = 0, mb_Voters = SortNodes (cfg_Peers c)\<rparr>)
       else \<lparr>mb_Version = 0, mb_CreatedInTerm = 0, mb_Voters = SortNodes (cfg_Peers c)\<rparr>)"
  show ?thesis
    using m load_contents [OF l] load_keeps [OF l] validateConfig_None [OF v] assms(2)
    by (auto simp: voter_of_def durable_def own_calls_def split: option.splits)
qed

lemma cinv_node:
  assumes "cinv ct peers cl" and "proc_of cl n = Up m"
  shows "node_ok ct peers (cast_of cl) n m" "currentTerm m \<noteq> - 1"
  using assms unfolding cinv_def by blast+

lemma cinv_cast:
  assumes "cinv ct peers cl" and "(n, t, c) \<in> cast_of cl"
  shows "c \<noteq> []"
  using assms unfolding cinv_def by blast

lemma observe_turn_cinv:
  assumes inv: "cinv contents peers cl" and up: "proc_of cl n = Up m"
    and step: "loop_step save e i m = (m', r)"
    and sat: "\<not> cl_saturated (observe n m' cl)"
    and count: "\<And>res. i = Event (VoteResultMsg res) \<Longrightarrow> (n, VoteResultMsg res) \<in> set (cl_results cl)"
  shows "cinv contents peers (observe n m' cl)"
proof (rule observe_cinv [OF inv _ sat])
  show "node_ok contents peers (cast_of cl) n m'"
  proof (rule turn_node_ok [OF cinv_node [OF inv up] _ step])
    fix res
    assume "i = Event (VoteResultMsg res)" "\<not> vm_err res" "vr_Granted (vm_resp res)"
    with count inv show "(vm_from res, vm_term res, n) \<in> cast_of cl" unfolding cinv_def by blast
  qed (use inv cinv_cast in blast)
qed

lemma serve_cinv:
  assumes inv: "cinv contents peers cl" and call: "(src, r) \<in> set (cl_calls cl)"
    and sat: "\<not> cl_saturated (serve save src r w e t0 t1 cl)"
  shows "cinv contents peers (serve save src r w e t0 t1 cl)"
proof (cases r)
  case (RpcVote p req)
  show ?thesis
  proof (cases "proc_of cl (node_ID p)")
    case Absent
    with inv RpcVote show ?thesis by (simp add: serve_def)
  next
    case (Down st)
    with inv RpcVote show ?thesis by (simp add: serve_def)
  next
    case (Up m)
    obtain m' resp where h: "HandleVote save e w req m = (m', resp)" by fastforce
    let ?cl = "observe (node_ID p) m' cl"
    have eq: "serve save src r w e t0 t1 cl = post_result src (voteWorker p req (Some resp)) ?cl"
      using RpcVote Up h by (simp add: serve_def)
    then have sat': "\<not> cl_saturated ?cl" using sat by (simp add: post_result_def)
    have "cinv contents peers ?cl \<and>
        (vr_Granted resp \<longrightarrow> (node_ID p, vq_Term req, src) \<in> cast_of ?cl)"
      using h
    proof (cases rule: HandleVote_turn)
      case 1
      then show ?thesis using observe_cinv [OF inv cinv_node(1) [OF inv Up]] sat' by simp
    next
      case (2 rep)
      have "vq_CandidateID req = src \<and> src \<noteq> []" using inv call RpcVote unfolding cinv_def by blast
      then show ?thesis
        using observe_turn_cinv [OF inv Up 2(1) sat'] 2 granted_held [of save e req m m' resp]
        by (auto simp: observe_def record_votes_cast)
    qed
    then show ?thesis unfolding eq by (intro post_result_cinv) (auto simp: voteWorker_def)
  qed
next
  case (RpcHeartbeat p req mver mterm)
  show ?thesis
  proof (cases "proc_of cl (node_ID p)")
    case Absent
    with inv RpcHeartbeat show ?thesis by (simp add: serve_def)
  next
    case (Down st)
    with inv RpcHeartbeat show ?thesis by (simp add: serve_def)
  next
    case (Up m)
    obtain m' resp where h: "HandleHeartbeat save e w req m = (m', resp)" by fastforce
    let ?cl = "observe (node_ID p) m' cl"
    have eq: "serve save src r w e t0 t1 cl =
        post_result src (heartbeatWorker p req mver mterm t0 t1 (Some resp)) ?cl"
      using RpcHeartbeat Up h by (simp add: serve_def)
    then have sat': "\<not> cl_saturated ?cl" using sat by (simp add: post_result_def)
    from h have "cinv contents peers ?cl"
      by (cases rule: HandleHeartbeat_turn)
        (use observe_cinv [OF inv cinv_node(1) [OF inv Up]] observe_turn_cinv [OF inv Up _ sat'] sat' in auto)
    then show ?thesis unfolding eq by (rule post_result_cinv) (simp add: heartbeatWorker_def)
  qed
next
  case (RpcIdentify p)
  with inv show ?thesis
    by (auto simp: serve_def identifyWorker_def split: proc.split intro: post_result_cinv)
qed

lemma crash_cinv:
  assumes inv: "cinv contents peers cl" and up: "proc_of cl n = Up m"
  shows "cinv contents peers (cl\<lparr>cl_proc := map_put n (Down (store (fst (loop_step save e i m)))) (cl_proc cl)\<rparr>)"
proof (rule down_cinv [OF inv])
  fix t c assume k: "(n, t, c) \<in> cast_of cl"
  obtain m' r where s: "loop_step save e i m = (m', r)" by fastforce
  have "covers (t, c) (currentTerm m, votedFor m)" "covers (t, c) (durable contents (store m))"
    using cinv_node(1) [OF inv up] k by (auto simp: node_ok_def vinv_def)
  then show "covers (t, c) (durable contents (store (fst (loop_step save e i m))))"
    using turn_durable [OF s cinv_node(2) [OF inv up], of "(t, c)"] cinv_cast [OF inv k] s by simp
qed

lemma restart_cinv:
  assumes inv: "cinv contents peers cl" and down: "proc_of cl n = Down st"
    and conf: "static_conf peers (cl_conf cl)"
    and new: "NewManager load (cl_conf cl n) st = (st', Inr m)"
    and sat: "\<not> cl_saturated (observe n (Run_start e disc m) cl)"
  shows "cinv contents peers (observe n (Run_start e disc m) cl)"
proof (rule observe_cinv [OF inv _ sat])
  have c: "node_ID (cfg_Self (cl_conf cl n)) = n" "cfg_Peers (cl_conf cl n) = peers"
    "\<not> cfg_Discoverer (cl_conf cl n)" using conf by (auto simp: static_conf_def)
  note r = restart_voter [OF new c(3)]
  have cov: "covers (t, c) (durable contents st)" if "(n, t, c) \<in> cast_of cl" for t c
    using inv down that unfolding cinv_def by blast
  have "voter_of contents (Run_start e disc m) = voter_of contents m"
    by (simp add: Run_start_def Let_def)
  then show "node_ok contents peers (cast_of cl) n (Run_start e disc m)"
    using r c cov by (auto simp: node_ok_def Run_start_def Let_def vinv_def own_calls_def covers_def)
qed

lemma load_err_durable:
  "NewManager load c st = (st', Inl err) \<Longrightarrow> durable contents st' = durable contents st"
  using load_keeps by (auto simp: NewManager_def durable_def Let_def
      split: option.splits prod.splits sum.splits if_splits)

lemma exec_cinv:
  assumes inv: "cinv contents peers cl" and conf: "static_conf peers (cl_conf cl)"
    and sat: "\<not> cl_saturated (exec save load act cl)"
  shows "cinv contents peers (exec save load act cl)"
proof (cases act)
  case (Turn n e i)
  show ?thesis
  proof (cases "proc_of cl n")
    case (Up m)
    obtain m' r where s: "loop_step save e i m = (m', r)" by fastforce
    have "cinv contents peers (observe n m' cl)" if "local_input i" "\<not> cl_saturated (observe n m' cl)"
      using that by (intro observe_turn_cinv [OF inv Up s]) auto
    then show ?thesis using sat inv Turn Up s by (auto simp: exec_def split: if_splits)
  qed (use inv Turn in \<open>simp_all add: exec_def\<close>)
next
  case (Serve k w e t0 t1)
  obtain src r where sr: "cl_calls cl ! k = (src, r)" by fastforce
  then have "k < length (cl_calls cl) \<Longrightarrow> (src, r) \<in> set (cl_calls cl)" by (metis nth_mem)
  then show ?thesis using serve_cinv [OF inv] sat inv Serve sr by (auto simp: exec_def split: if_splits)
next
  case (Lose k t0 t1)
  then show ?thesis using inv
    by (auto simp: exec_def lose_def voteWorker_def heartbeatWorker_def identifyWorker_def
        intro!: post_result_cinv split: rpc.splits prod.split)
next
  case (Deliver k e)
  obtain n ev where res: "cl_results cl ! k = (n, ev)" by fastforce
  then have known: "k < length (cl_results cl) \<Longrightarrow> (n, ev) \<in> set (cl_results cl)" by (metis nth_mem)
  show ?thesis
  proof (cases "proc_of cl n")
    case (Up m)
    obtain m' r where s: "loop_step save e (Event ev) m = (m', r)" by fastforce
    then have "deliver save e ev m = m'" by (auto simp: deliver_def loop_step_def)
    then show ?thesis
      using observe_turn_cinv [OF inv Up s] sat inv Deliver Up res known
      by (auto simp: exec_def split: if_splits)
  qed (use inv Deliver res in \<open>simp_all add: exec_def\<close>)
next
  case Forget
  then show ?thesis using inv by (simp add: exec_def cinv_def)
next
  case (Crash n e i)
  then show ?thesis using crash_cinv [OF inv] inv by (auto simp: exec_def split: proc.splits)
next
  case (Restart n e disc)
  show ?thesis
  proof (cases "proc_of cl n")
    case (Down st)
    have "covers (t, c) (durable contents st)" if "(n, t, c) \<in> cast_of cl" for t c
      using inv Down that unfolding cinv_def by blast
    then show ?thesis
      using restart_cinv [OF inv Down conf] down_cinv [OF inv, of n] load_err_durable sat Restart Down
      by (auto simp: exec_def split: prod.splits sum.splits)
  qed (use inv Restart in \<open>simp_all add: exec_def\<close>)
qed

lemma creach_cinv:
  assumes "creach save load (init_cluster conf stores) cl" and "static_conf peers conf"
  shows "cl_conf cl = conf \<and> (cl_saturated cl \<or> cinv contents peers cl)"
  using assms(1)
proof (induction rule: creach.induct)
  case creach_init
  show ?case by (simp add: cinv_init) (simp add: init_cluster_def)
next
  case (creach_exec cl act)
  then show ?case using exec_cinv [of peers cl act] exec_saturated assms(2) by auto
qed

text \<open>The cluster refines the ballot box, and so elects at most one leader per term.\<close>

lemma cluster_refines_box:
  assumes "creach save load (init_cluster conf stores) cl" and "static_conf peers conf" and "\<not> cl_saturated cl"
  shows "(vote_step (majority_of peers))\<^sup>*\<^sup>* empty_box (cl_box cl)"
  using creach_cinv [OF assms(1,2)] assms(3) by (auto simp: cinv_def)

lemma cluster_safe:
  assumes "creach save load (init_cluster conf stores) cl" and "static_conf peers conf" and "\<not> cl_saturated cl"
  shows "one_leader_per_term (cl_box cl)"
  using majority.box_safe cluster_refines_box [OF assms] by blast

lemma one_vote:
  assumes "creach save load (init_cluster conf stores) cl" and "static_conf peers conf" and "\<not> cl_saturated cl"
  shows "one_vote_per_term (cl_box cl)"
  using majority.box_invariant cluster_refines_box [OF assms] by blast

end

subsection \<open>The ballot box misses no leader\<close>

definition leads :: "'st cluster \<Rightarrow> NodeID \<Rightarrow> Term \<Rightarrow> bool" where
  "leads cl n t = (case proc_of cl n of Up m \<Rightarrow> role m = RoleLeader \<and> currentTerm m = t | _ \<Rightarrow> False)"

definition recorded :: "'st cluster \<Rightarrow> bool" where
  "recorded cl \<longleftrightarrow>
     (\<forall>n m. proc_of cl n = Up m \<longrightarrow>
        (role m = RoleLeader \<longrightarrow> (currentTerm m, n) \<in> set (vt_leaders (cl_box cl))) \<and>
        (votedFor m \<noteq> [] \<longrightarrow> (n, currentTerm m, votedFor m) \<in> cast_of cl))"

lemma recorded_observe: "recorded cl \<Longrightarrow> recorded (observe n m cl)"
  by (auto simp: recorded_def observe_def record_votes_def Let_def)

lemma recorded_other:
  "recorded cl \<Longrightarrow> recorded (post_result n ev cl)"
  "recorded cl \<Longrightarrow> recorded (cl\<lparr>cl_proc := map_put n (Down st) (cl_proc cl)\<rparr>)"
  "recorded cl \<Longrightarrow> recorded (cl\<lparr>cl_calls := cs, cl_results := rs\<rparr>)"
  by (auto simp: recorded_def post_result_def)

lemma recorded_exec: "recorded cl \<Longrightarrow> recorded (exec sv ld act cl)"
  by (auto simp: exec_def serve_def lose_def Let_def intro!: recorded_observe recorded_other
      split: action.split proc.split rpc.split sum.split prod.split)

lemma recorded_creach:
  assumes "creach sv ld (init_cluster conf stores) cl"
  shows "recorded cl"
  using assms
proof (induction rule: creach.induct)
  case creach_init
  show ?case using init_not_up [of conf stores] by (simp add: recorded_def)
qed (rule recorded_exec)

lemma leads_recorded:
  assumes "creach sv ld (init_cluster conf stores) cl" and "leads cl n t"
  shows "(t, n) \<in> set (vt_leaders (cl_box cl))"
  using recorded_creach [OF assms(1)] assms(2)
  by (auto simp: leads_def recorded_def split: proc.splits)

subsection \<open>Clusters over files\<close>

context state_codec
begin

lemmas files_safe = fstore.cluster_safe
lemmas files_one_vote = fstore.one_vote
lemmas files_refine_box = fstore.cluster_refines_box

end

end
