(* ===== verification/Election_Demo.thy ===== *)
theory Election_Demo
  imports Election_Actor
begin

text \<open>
  Concrete nodes, configurations and managers, at which the hypotheses of the
  theorems are shown to hold.
\<close>

definition bare :: "NodeID \<Rightarrow> Node" where
  "bare i = \<lparr>node_ID = i, node_Addr = []\<rparr>"

definition env_of :: "time \<Rightarrow> env" where
  "env_of t = \<lparr>env_now = t, env_Int63n = (\<lambda>_. 0)\<rparr>"

definition founders :: "Node list" where
  "founders = [bare ''a'', bare ''b'', bare ''c'']"

definition conf_of :: "bool \<Rightarrow> Node list \<Rightarrow> NodeID \<Rightarrow> Config" where
  "conf_of disc peers n =
     \<lparr>cfg_Self = bare n, cfg_Peers = peers, cfg_HeartbeatInterval = 0, cfg_SuspectAfter = 0,
      cfg_DeadAfter = 0, cfg_ElectionTimeoutMin = 0, cfg_ElectionTimeoutMax = 0, cfg_RPCTimeout = 0,
      cfg_ClusterID = [], cfg_BuildVersion = [], cfg_ViewFreshFor = 0, cfg_Discoverer = disc,
      cfg_JoinStability = 0, cfg_RemoveAfter = 60 * second\<rparr>"

abbreviation plain_conf :: "bool \<Rightarrow> NodeID \<Rightarrow> Config" where
  "plain_conf disc \<equiv> conf_of disc founders"

definition roster :: "NodeID list \<Rightarrow> input" where
  "roster is = RosterSnapshot \<lparr>ro_Nodes = map bare is\<rparr>"

subsection \<open>A manager over an in-memory store\<close>

text \<open>\<open>booted disc peers n\<close> is node \<open>n\<close> at the start of \<open>Run\<close>, with an empty store.\<close>

definition booted :: "bool \<Rightarrow> Node list \<Rightarrow> NodeID \<Rightarrow> MemStore Manager" where
  "booted disc peers n =
     (case NewManager MemStore_Load (conf_of disc peers n) NewMemStore of
        (_, Inr m) \<Rightarrow> Run_start (env_of second) True m)"

definition turns :: "(time \<times> input) list \<Rightarrow> MemStore Manager \<Rightarrow> MemStore Manager" where
  "turns is m = fold (\<lambda>(t, i). fst \<circ> loop_step MemStore_Save (env_of t) i) is m"

text \<open>A leader of one that has seen \<open>d\<close> in the roster and verified it, and its next tick.\<close>

definition admitting :: "MemStore Manager" where
  "admitting =
     turns [(10 * second, ElectionTimerC), (12 * second, roster [''a'', ''d'']),
            (12 * second, Event (identifyWorker (bare ''d'')
               (Some \<lparr>ir_ClusterID = ''candacenet'', ir_NodeID = ''d'', ir_Version = []\<rparr>)))]
       (booted True [bare ''a''] ''a'')"

text \<open>A leader of three that has lost \<open>c\<close>: \<open>c\<close> never answered and has left the roster.\<close>

definition vote_reply :: "NodeID \<Rightarrow> NodeID \<Rightarrow> Term \<Rightarrow> input" where
  "vote_reply voter cand t =
     Event (voteWorker (bare voter) \<lparr>vq_Term = t, vq_CandidateID = cand\<rparr>
       (Some \<lparr>vr_Term = t, vr_Granted = True, vr_VoterID = voter\<rparr>))"

definition beat_reply :: "NodeID \<Rightarrow> Term \<Rightarrow> time \<Rightarrow> input" where
  "beat_reply peer t sent =
     Event (heartbeatWorker (bare peer)
       \<lparr>hq_Term = t, hq_LeaderID = ''a'', hq_View = None, hq_Membership = None\<rparr> 1 0 sent sent
       (Some \<lparr>hr_Term = t, hr_OK = True, hr_NodeID = peer\<rparr>))"

definition removing :: "MemStore Manager" where
  "removing =
     turns [(10 * second, ElectionTimerC), (10 * second, vote_reply ''b'' ''a'' 1),
            (20 * second, roster [''a'', ''b'']), (69 * second, beat_reply ''b'' 1 (69 * second))]
       (booted True founders ''a'')"

end
