(* ===== verification/Election_Scenario.thy ===== *)
theory Election_Scenario
  imports Election_Cluster Election_Demo
begin

text \<open>
  Concrete runs of a cluster. A script names a call by its caller, its callee and
  its kind; \<open>play\<close> looks up the latest such call, has it served and its result
  delivered. Every script ends in a cluster that \<open>creach\<close> reaches, so a script is
  evidence that a state is reachable.
\<close>

definition rpc_to :: "rpc \<Rightarrow> NodeID" where
  "rpc_to r = (case r of RpcVote p _ \<Rightarrow> node_ID p | RpcHeartbeat p _ _ _ \<Rightarrow> node_ID p | RpcIdentify p \<Rightarrow> node_ID p)"

datatype kind = KVote | KHeartbeat | KIdentify

definition rpc_kind :: "rpc \<Rightarrow> kind" where
  "rpc_kind r = (case r of RpcVote _ _ \<Rightarrow> KVote | RpcHeartbeat _ _ _ _ \<Rightarrow> KHeartbeat | RpcIdentify _ \<Rightarrow> KIdentify)"

definition latest_call :: "kind \<Rightarrow> NodeID \<Rightarrow> NodeID \<Rightarrow> 'st cluster \<Rightarrow> nat option" where
  "latest_call k src dst cl =
     map_option fst (find (\<lambda>(i, s, r). rpc_kind r = k \<and> s = src \<and> rpc_to r = dst)
       (rev (List.enumerate 0 (cl_calls cl))))"

datatype cmd =
    Boot NodeID time
  | Kill NodeID time
  | Input NodeID input time
  | Call kind NodeID NodeID time
  | Silence

definition play1 :: "'st save_fn \<Rightarrow> 'st load_fn \<Rightarrow> cmd \<Rightarrow> 'st cluster \<Rightarrow> 'st cluster" where
  "play1 sv ld c cl =
     (case c of
        Boot n t \<Rightarrow> exec sv ld (Restart n (env_of t) True) cl
      | Kill n t \<Rightarrow> exec sv ld (Crash n (env_of t) PublishTickerC) cl
      | Input n i t \<Rightarrow> exec sv ld (Turn n (env_of t) i) cl
      | Call k src dst t \<Rightarrow>
          (case latest_call k src dst cl of None \<Rightarrow> cl
           | Some i \<Rightarrow>
               let cl1 = exec sv ld (Serve i Answered (env_of t) t t) cl
               in exec sv ld (Deliver (length (cl_results cl1) - 1) (env_of t)) cl1)
      | Silence \<Rightarrow> exec sv ld Forget cl)"

fun play :: "'st save_fn \<Rightarrow> 'st load_fn \<Rightarrow> cmd list \<Rightarrow> 'st cluster \<Rightarrow> 'st cluster" where
  "play sv ld [] cl = cl"
| "play sv ld (c # cs) cl = play sv ld cs (play1 sv ld c cl)"

lemma play1_creach: "creach sv ld cl0 cl \<Longrightarrow> creach sv ld cl0 (play1 sv ld c cl)"
  by (auto simp: play1_def Let_def split: cmd.split option.split list.split intro: creach_exec)

lemma play_creach_from: "creach sv ld cl0 cl \<Longrightarrow> creach sv ld cl0 (play sv ld cs cl)"
  by (induction cs arbitrary: cl) (auto intro: play1_creach)

lemma play_creach: "creach sv ld cl0 (play sv ld cs cl0)"
  by (rule play_creach_from) (rule creach_init)

subsection \<open>Clusters over files\<close>

definition fresh_files :: "bool \<Rightarrow> pbPersistentState FileStore cluster" where
  "fresh_files disc =
     init_cluster (plain_conf disc)
       (map (\<lambda>n. (n, NewFileStore n None [])) [''a'', ''b'', ''c'', ''d'', ''e'', ''f''])"

abbreviation msave :: "pbPersistentState FileStore save_fn" where
  "msave \<equiv> FileStore_Save Some Some"

abbreviation mload :: "pbPersistentState FileStore load_fn" where
  "mload \<equiv> FileStore_Load Some"

text \<open>A static cluster elects \<open>a\<close> in term 1, then, after \<open>a\<close> restarts, \<open>b\<close> in term 2.\<close>

definition static_script :: "cmd list" where
  "static_script =
     [Boot ''a'' second, Boot ''b'' second, Boot ''c'' second,
      Input ''a'' ElectionTimerC (10 * second), Call KVote ''a'' ''b'' (10 * second),
      Call KHeartbeat ''a'' ''c'' (11 * second),
      Kill ''a'' (12 * second), Boot ''a'' (13 * second),
      Input ''b'' ElectionTimerC (30 * second), Call KVote ''b'' ''c'' (30 * second)]"

definition static_end :: "pbPersistentState FileStore cluster" where
  "static_end = play msave mload static_script (fresh_files False)"

text \<open>
  Dynamic membership. \<open>a\<close> leads term 1 and admits \<open>d\<close>, which only \<open>a\<close> and \<open>d\<close> learn.
  \<open>b\<close>, elected in term 2 by the founders, admits \<open>e\<close> and, once that is settled,
  \<open>f\<close>, which only \<open>b\<close>, \<open>e\<close> and \<open>f\<close> learn. \<open>b\<close> restarts. Then \<open>b\<close> with \<open>e\<close> and \<open>f\<close>, and
  \<open>a\<close> with \<open>c\<close> and \<open>d\<close>, are both majorities of their candidate's membership in term 3.
\<close>

definition split_script :: "cmd list" where
  "split_script =
     [Boot ''a'' second, Boot ''b'' second, Boot ''c'' second,
      Boot ''d'' second, Boot ''e'' second, Boot ''f'' second,
      Input ''a'' ElectionTimerC (10 * second), Call KVote ''a'' ''b'' (10 * second),
      Call KHeartbeat ''a'' ''b'' (11 * second), Silence,
      Input ''a'' (roster [''a'', ''b'', ''c'', ''d'']) (12 * second),
      Call KIdentify ''a'' ''d'' (12 * second), Silence,
      Input ''a'' HeartbeatTickerC (50 * second), Call KHeartbeat ''a'' ''d'' (50 * second), Silence,
      Input ''b'' ElectionTimerC (60 * second), Call KVote ''b'' ''c'' (60 * second),
      Call KVote ''b'' ''a'' (60 * second), Call KHeartbeat ''b'' ''c'' (61 * second), Silence,
      Input ''b'' (roster [''a'', ''b'', ''c'', ''e'', ''f'']) (62 * second),
      Call KIdentify ''b'' ''e'' (62 * second), Call KIdentify ''b'' ''f'' (62 * second), Silence,
      Input ''b'' HeartbeatTickerC (100 * second),
      Call KHeartbeat ''b'' ''c'' (101 * second), Call KHeartbeat ''b'' ''e'' (101 * second),
      Call KHeartbeat ''b'' ''e'' (102 * second), Call KHeartbeat ''b'' ''f'' (102 * second),
      Kill ''b'' (103 * second), Silence, Boot ''b'' (104 * second),
      Input ''b'' ElectionTimerC (200 * second), Call KVote ''b'' ''e'' (200 * second),
      Call KVote ''b'' ''f'' (200 * second), Silence,
      Input ''a'' ElectionTimerC (210 * second), Call KVote ''a'' ''c'' (210 * second),
      Call KVote ''a'' ''d'' (210 * second)]"

definition split_end :: "pbPersistentState FileStore cluster" where
  "split_end = play msave mload split_script (fresh_files True)"

definition leaders_at :: "'st cluster \<Rightarrow> Term \<Rightarrow> NodeID list" where
  "leaders_at cl t = filter (\<lambda>n. leads cl n t) (map fst (cl_proc cl))"

lemma split_end_leaders: "leaders_at split_end 3 = [''a'', ''b'']"
  by code_simp

end
