(* ===== verification/Election_Membership.thy ===== *)
theory Election_Membership
  imports Election_Frame Election_Spec Election_Demo
begin

text \<open>
  Dynamic membership (\<^verbatim>\<open>election/membership.go\<close>): what a leader may change and when,
  that a membership is durable before it is in force, and that it only moves
  forward in the order \<open>Supersedes\<close>.
\<close>

subsection \<open>The least ID of a scan\<close>

lemma lowestID_Some: "lowestID (Some b) ns \<noteq> None"
  by (induction "Some b" ns arbitrary: b rule: lowestID.induct) auto

lemma lowestID_mem: "lowestID best ns = Some n \<Longrightarrow> best = Some n \<or> n \<in> set ns"
  by (induction best ns rule: lowestID.induct) (auto split: if_splits)

lemma lowestID_None: "lowestID None ns = None \<longleftrightarrow> ns = []"
  by (cases ns) (auto simp: lowestID_Some)

lemma lowestID_least_from:
  "lowestID (Some b) ns = Some n \<Longrightarrow> node_ID n \<le> node_ID b \<and> (\<forall>x\<in>set ns. node_ID n \<le> node_ID x)"
  by (induction "Some b" ns arbitrary: b rule: lowestID.induct) (force split: if_splits)+

lemma lowestID_least: "lowestID None ns = Some n \<Longrightarrow> \<forall>x\<in>set ns. node_ID n \<le> node_ID x"
  by (cases ns) (auto dest: lowestID_least_from)

subsection \<open>One single-node change from a settled membership\<close>

text \<open>The membership that a leader would propose next, with the node admitted or removed.\<close>

definition admitted :: "'st Manager \<Rightarrow> Node \<Rightarrow> Membership" where
  "admitted m node =
     \<lparr>mb_Version = mb_Version (membership m) + 1, mb_CreatedInTerm = currentTerm m,
      mb_Voters = SortNodes (mb_Voters (membership m) @ [node])\<rparr>"

definition removed :: "'st Manager \<Rightarrow> Node \<Rightarrow> Membership" where
  "removed m node =
     \<lparr>mb_Version = mb_Version (membership m) + 1, mb_CreatedInTerm = currentTerm m,
      mb_Voters = filter (\<lambda>v. node_ID v \<noteq> node_ID node) (mb_Voters (membership m))\<rparr>"

lemma maybeStart_cases [consumes 0, case_names idle admit remove]:
  obtains
    "maybeStartMembershipChange sv e m = m"
  | node where "maybeStartMembershipChange sv e m = applyMembershipChange sv e (admitted m node) node m"
      "discoveryMode m" "role m = RoleLeader" "changeSettled m" "nextAdmission e m = Some node"
  | node where "maybeStartMembershipChange sv e m = applyMembershipChange sv e (removed m node) node m"
      "discoveryMode m" "role m = RoleLeader" "changeSettled m" "nextAdmission e m = None"
      "0 < cfg_RemoveAfter (cfg m)" "nextRemoval e m = Some node"
proof (cases "discoveryMode m \<and> role m = RoleLeader \<and> changeSettled m")
  case False
  then show ?thesis by (intro that(1)) (auto simp: maybeStartMembershipChange_def)
next
  case True
  show ?thesis
  proof (cases "nextAdmission e m")
    case (Some node)
    with True show ?thesis
      by (intro that(2)) (auto simp: maybeStartMembershipChange_def admitted_def)
  next
    case None
    show ?thesis
    proof (cases "0 < cfg_RemoveAfter (cfg m) \<and> nextRemoval e m \<noteq> None")
      case False
      with None True show ?thesis
        by (intro that(1)) (auto simp: maybeStartMembershipChange_def)
    next
      case r: True
      then obtain node where "nextRemoval e m = Some node" by auto
      with r None True show ?thesis
        by (intro that(3) [of node]) (auto simp: maybeStartMembershipChange_def removed_def)
    qed
  qed
qed

lemma applyMembershipChange_membership:
  "membership (applyMembershipChange sv e newM target m) =
     (if snd (sv \<lparr>ps_CurrentTerm = currentTerm m, ps_VotedFor = votedFor m, ps_Membership = Some newM\<rparr> (store m))
         = None then newM else membership m)"
  "store (applyMembershipChange sv e newM target m) =
     fst (sv \<lparr>ps_CurrentTerm = currentTerm m, ps_VotedFor = votedFor m, ps_Membership = Some newM\<rparr> (store m))"
  by (auto simp: applyMembershipChange_def storeSave_def frame_simps split: prod.split)

lemma nextAdmission_Some:
  assumes "nextAdmission e m = Some node"
  shows "\<exists>i c. (i, c) \<in> set (candidates m) \<and> cd_node c = node \<and> candidateEligible m c (env_now e) \<and>
    (\<forall>j d. (j, d) \<in> set (candidates m) \<and> candidateEligible m d (env_now e) \<longrightarrow>
       node_ID node \<le> node_ID (cd_node d))"
  using lowestID_mem [OF assms [unfolded nextAdmission_def]]
    lowestID_least [OF assms [unfolded nextAdmission_def]]
  by fastforce

lemma nextRemoval_Some:
  assumes "nextRemoval e m = Some node"
  shows "haveRoster m \<and> leaderSeesLiveMajority m (env_now e) \<and> node \<in> set (mb_Voters (membership m)) \<and>
    node_ID node \<noteq> node_ID (self m) \<and> node_ID node \<notin> node_ID ` set (ro_Nodes (lastRoster m)) \<and>
    leaderPeerStatus m (env_now e) (map_get 0 (lastContact m) (node_ID node)) = StatusDead \<and>
    cfg_RemoveAfter (cfg m) \<le>
      time_Sub (env_now e) (max (becameLeaderAt m) (map_get 0 (lastContact m) (node_ID node)))"
proof -
  from assms have h: "haveRoster m" "leaderSeesLiveMajority m (env_now e)"
    and l: "lowestID None (filter (removable m (env_now e)) (mb_Voters (membership m))) = Some node"
    by (auto simp: nextRemoval_def split: if_splits)
  from lowestID_mem [OF l] have "node \<in> set (mb_Voters (membership m))" "removable m (env_now e) node"
    by auto
  with h show ?thesis
    by (auto simp: removable_def Let_def max_def not_less split: if_splits)
qed

text \<open>A removal that a leader makes leaves one voter fewer; an admission adds one that was not there.\<close>

definition wf_members :: "'st Manager \<Rightarrow> bool" where
  "wf_members m \<longleftrightarrow>
     distinct (map node_ID (mb_Voters (membership m))) \<and>
     (\<forall>i c. (i, c) \<in> set (candidates m) \<longrightarrow> node_ID (cd_node c) = i \<and> \<not> isVoter m i) \<and>
     wf_map (candidates m)"

definition voter_ids :: "Membership \<Rightarrow> NodeID set" where
  "voter_ids mb = node_ID ` set (mb_Voters mb)"

lemma card_voters: "distinct (map node_ID ns) \<Longrightarrow> card (node_ID ` set ns) = length ns"
  by (metis distinct_card length_map list.set_map)

lemma voter_ids_admitted: "voter_ids (admitted m node) = insert (node_ID node) (voter_ids (membership m))"
  by (auto simp: voter_ids_def admitted_def)

lemma voter_ids_removed: "voter_ids (removed m node) = voter_ids (membership m) - {node_ID node}"
  by (auto simp: voter_ids_def removed_def)

text \<open>Majorities of memberships that differ by one voter share a voter.\<close>

lemma one_change_overlap:
  assumes "finite A" and "B = insert x A" and "x \<notin> A"
    and "P \<subseteq> A" "Quorum (card A) \<le> card P" and "Q \<subseteq> B" "Quorum (card B) \<le> card Q"
  shows "\<exists>v. v \<in> P \<and> v \<in> Q"
proof (rule overlapping_sets [of B])
  have "card B = Suc (card A)" using assms(1-3) by simp
  with assms(5,7) Quorum_one_change [of "card A"] show "card B < card P + card Q" by simp
qed (use assms in auto)

subsection \<open>Durable before in force, and only forward\<close>

definition durable_mb :: "('st \<Rightarrow> PersistentState option) \<Rightarrow> 'st \<Rightarrow> Membership option" where
  "durable_mb ct st = Option.bind (ct st) ps_Membership"

definition mb_step :: "('st \<Rightarrow> PersistentState option) \<Rightarrow> 'st Manager \<Rightarrow> 'st Manager \<Rightarrow> bool" where
  "mb_step ct m m' \<longleftrightarrow>
     membership m' = membership m \<or>
     (durable_mb ct (store m') = Some (membership m') \<and>
      (Supersedes (membership m') (membership m) \<or> mb_Version (membership m) = - 1))"

lemma mb_step_same: "membership m' = membership m \<Longrightarrow> mb_step ct m m'"
  by (simp add: mb_step_def)

lemma mb_step_after:
  "membership m1 = membership m \<Longrightarrow> mb_step ct m1 m' \<Longrightarrow> mb_step ct m m'"
  by (simp add: mb_step_def)

lemma mb_step_before:
  "mb_step ct m m1 \<Longrightarrow> membership m' = membership m1 \<Longrightarrow> store m' = store m1 \<Longrightarrow> mb_step ct m m'"
  by (simp add: mb_step_def)

lemma same_membership [simp]:
  "membership (publish e m) = membership m" "membership (sendHeartbeats e m) = membership m"
  "membership (rearmElection e m) = membership m" "membership (resetElectionTimer d m) = membership m"
  "membership (maintainDiscovery now m) = membership m" "membership (recordContact r m) = membership m"
  "membership (recordAck r m) = membership m" "membership (addActivity m) = membership m"
  "store (publish e m) = store m" "store (sendHeartbeats e m) = store m"
  "store (rearmElection e m) = store m" "store (resetElectionTimer d m) = store m"
  "store (addActivity m) = store m"
  by (simp_all add: frame_simps maintainDiscovery_def recordContact_def recordAck_def addActivity_def
      split: option.split)

lemma saved_membership:
  assumes "saveState sv t v m = (m1, ok)"
  shows "membership m1 = membership m"
  using saveState_eq [OF assms] by auto

lemma acceptLeader_membership: "membership (acceptLeader sv e req m) = membership m"
proof -
  obtain m1 ok where s: "saveState sv (hq_Term req) [] m = (m1, ok)" by fastforce
  show ?thesis using saved_membership [OF s] s
    by (auto simp: acceptLeader_def Let_def split: option.split)
qed

context istore
begin

lemma applyMembershipChange_step:
  assumes "Supersedes newM (membership m) \<or> mb_Version (membership m) = - 1"
  shows "mb_step contents m (applyMembershipChange save e newM target m)"
proof -
  let ?ps = "\<lparr>ps_CurrentTerm = currentTerm m, ps_VotedFor = votedFor m, ps_Membership = Some newM\<rparr>"
  obtain st err where s: "save ?ps (store m) = (st, err)" by fastforce
  show ?thesis using assms save_ok [of ?ps "store m" st] s
    by (auto simp: mb_step_def applyMembershipChange_membership durable_mb_def)
qed

lemma proposed_supersedes:
  "mb_Version (membership m) \<noteq> - 1 \<Longrightarrow> Supersedes (admitted m node) (membership m)"
  "mb_Version (membership m) \<noteq> - 1 \<Longrightarrow> Supersedes (removed m node) (membership m)"
  by (simp_all add: Supersedes_def admitted_def removed_def word_less_inc)

lemma maybeStart_step: "mb_step contents m (maybeStartMembershipChange save e m)"
proof -
  have "mb_step contents m (applyMembershipChange save e (admitted m node) node m)"
    "mb_step contents m (applyMembershipChange save e (removed m node) node m)" for node
    by (rule applyMembershipChange_step, use proposed_supersedes in blast)+
  then show ?thesis
    by (cases rule: maybeStart_cases [of save e m]) (simp_all add: mb_step_same)
qed

lemma adoptMembership_step:
  assumes "adoptMembership save newM m = (m', ok)" and "Supersedes newM (membership m)"
  shows "mb_step contents m m'"
proof -
  let ?ps = "\<lparr>ps_CurrentTerm = currentTerm m, ps_VotedFor = votedFor m, ps_Membership = Some newM\<rparr>"
  obtain st err where s: "save ?ps (store m) = (st, err)" by fastforce
  show ?thesis using assms save_ok [of ?ps "store m" st] s
    by (auto simp: mb_step_def adoptMembership_def storeSave_def durable_mb_def Let_def split: if_splits)
qed

lemma becomeLeader_step: "mb_step contents m (becomeLeader save e m)"
proof -
  have "\<exists>m3. membership m3 = membership m \<and>
      becomeLeader save e m = (if discoveryMode m3 then maybeStartMembershipChange save e m3 else m3)"
    unfolding becomeLeader_def Let_def by (rule exI, rule conjI [rotated], rule refl) simp
  then show ?thesis using maybeStart_step mb_step_after mb_step_same by metis
qed

lemma startElection_step: "mb_step contents m (startElection save e m)"
proof (cases rule: startElection_cases [of m save e])
  case (failed m1)
  then show ?thesis using saved_membership [OF failed(2)] by (simp add: mb_step_same)
next
  case (stands m1)
  have "membership (standing e m1) = membership m" using saved_membership [OF stands(2)] by simp
  with stands(3) show ?thesis
    using becomeLeader_step mb_step_after mb_step_same by (metis (full_types))
qed (simp add: mb_step_same)

lemma onVoteResult_step: "mb_step contents m (onVoteResult save e r m)"
proof -
  obtain m1 ok where s: "saveState save (vr_Term (vm_resp r)) [] m = (m1, ok)" by fastforce
  have sd: "membership (stepDown save e (vr_Term (vm_resp r)) m) = membership m"
    using saved_membership [OF s] s by (simp add: stepDown_def)
  have "mb_step contents m (becomeLeader save e (m\<lparr>votesFrom := vs\<rparr>))" for vs
    by (rule mb_step_after [OF _ becomeLeader_step]) simp
  then show ?thesis using sd
    by (auto simp: onVoteResult_def Let_def intro: mb_step_same split: option.split)
qed

lemma onVote_step: "mb_step contents m (fst (onVote save e req m))"
proof -
  obtain m' resp where v: "onVote save e req m = (m', resp)" by fastforce
  then have "membership m' = membership m"
    by (cases rule: onVote_cases) (auto dest: saved_membership)
  with v show ?thesis by (simp add: mb_step_same)
qed

lemma onHeartbeat_step: "mb_step contents m (fst (onHeartbeat save e req m))"
proof (cases "hq_Term req < currentTerm m")
  case True
  then show ?thesis by (simp add: onHeartbeat_def mb_step_same)
next
  case False
  obtain m4 acked where a: "adoptOffered save req (acceptLeader save e req m) = (m4, acked)" by fastforce
  then have "mb_step contents (acceptLeader save e req m) m4"
    by (auto simp: adoptOffered_def intro: mb_step_same adoptMembership_step split: option.splits if_splits)
  then have "mb_step contents m m4" by (rule mb_step_after [OF acceptLeader_membership])
  then have "mb_step contents m (publish e (rearmElection e m4))" by (rule mb_step_before) simp_all
  then show ?thesis using False a by (simp add: onHeartbeat_def Let_def)
qed

lemma onHeartbeatResult_step: "mb_step contents m (onHeartbeatResult save e r m)"
proof -
  obtain m1 ok where s: "saveState save (hr_Term (hm_resp r)) [] m = (m1, ok)" by fastforce
  have sd: "membership (stepDown save e (hr_Term (hm_resp r)) m) = membership m"
    using saved_membership [OF s] s by (simp add: stepDown_def)
  have "mb_step contents m (maybeStartMembershipChange save e (publish e (recordAck r (recordContact r m))))"
    by (rule mb_step_after [OF _ maybeStart_step]) simp
  then show ?thesis using sd by (auto simp: onHeartbeatResult_def Let_def intro: mb_step_same)
qed

lemma discovery_steps:
  "mb_step contents m (onHeartbeatTick save e m)" "mb_step contents m (onIdentifyResult save e ir m)"
  "mb_step contents m (onRoster save e r m)"
  by (auto simp: onHeartbeatTick_def onIdentifyResult_def onRoster_def Let_def split: option.split
      intro: mb_step_same intro!: mb_step_after [OF _ maybeStart_step])

lemma addActivity_step [simp]: "mb_step contents m (addActivity m') \<longleftrightarrow> mb_step contents m m'"
  by (simp add: mb_step_def)

lemma loop_step_mb: "mb_step contents m (fst (loop_step save e i m))"
proof (cases i)
  case (Event ev)
  have "mb_step contents m (fst (handleEvent save e ev m))"
  proof (cases ev)
    case (SubscribeMsg ch)
    then show ?thesis by (intro mb_step_same) (auto simp: handleEvent_def onSubscribe_def Let_def)
  next
    case (UnsubscribeMsg sid)
    then show ?thesis
      by (intro mb_step_same) (auto simp: handleEvent_def onUnsubscribe_def Let_def split: option.split)
  qed (use onVote_step [of m e] onHeartbeat_step [of m e] onVoteResult_step onHeartbeatResult_step
      discovery_steps in
      \<open>auto simp: handleEvent_def Let_def case_prod_beta mb_step_same\<close>)
  with Event show ?thesis by (simp add: loop_step_def mb_step_same)
next
  case ElectionTimerC
  then show ?thesis using startElection_step
    by (auto simp: loop_step_def onElectionTimeout_def mb_step_same)
qed (auto simp: loop_step_def shutdown_def discovery_steps mb_step_same)

end

subsection \<open>Members and candidates stay apart\<close>

text \<open>The membership a heartbeat carries is any list of distinct voters.\<close>

definition wf_input :: "input \<Rightarrow> bool" where
  "wf_input i =
     (case i of
        Event (HeartbeatMsg req) \<Rightarrow>
          (case hq_Membership req of None \<Rightarrow> True | Some mb \<Rightarrow> distinct (map node_ID (mb_Voters mb)))
      | _ \<Rightarrow> True)"

text \<open>Whether members are well-formed depends on the membership and the keys of the candidates only.\<close>

definition wf_cands :: "Membership \<Rightarrow> (NodeID \<times> candidate) list \<Rightarrow> bool" where
  "wf_cands mb cs \<longleftrightarrow>
     wf_map cs \<and> (\<forall>(i, c)\<in>set cs. node_ID (cd_node c) = i \<and> \<not> HasVoter mb i)"

lemma wf_members_iff:
  "wf_members m \<longleftrightarrow> distinct (map node_ID (mb_Voters (membership m))) \<and> wf_cands (membership m) (candidates m)"
  by (auto simp: wf_members_def wf_cands_def isVoter_def)

lemma wf_cands_map:
  assumes "wf_cands mb cs" and "\<And>i c. cd_node (f i c) = cd_node c"
  shows "wf_cands mb (map (\<lambda>(i, c). (i, f i c)) cs)"
  using assms by (auto simp: wf_cands_def)

lemma wf_cands_filter: "wf_cands mb cs \<Longrightarrow> wf_cands mb (filter P cs)"
  by (auto simp: wf_cands_def)

lemma wf_cands_put:
  "wf_cands mb cs \<Longrightarrow> node_ID (cd_node c) = i \<Longrightarrow> \<not> HasVoter mb i \<Longrightarrow> wf_cands mb (map_put i c cs)"
  using set_map_put [of i c cs] by (auto simp: wf_cands_def)

lemma wf_cands_look: "wf_cands mb cs \<Longrightarrow> map_of cs i = Some c \<Longrightarrow> node_ID (cd_node c) = i \<and> \<not> HasVoter mb i"
  by (auto simp: wf_cands_def dest!: map_of_SomeD)

lemma same_candidates [simp]:
  "candidates (publish e m) = candidates m" "candidates (sendHeartbeats e m) = candidates m"
  "candidates (rearmElection e m) = candidates m" "candidates (resetElectionTimer d m) = candidates m"
  "candidates (recordAck r m) = candidates m" "candidates (addActivity m) = candidates m"
  "candidates (standing e m) = candidates m"
  by (simp_all add: frame_simps recordAck_def addActivity_def standing_def)

lemma wf_same:
  "wf_members m \<Longrightarrow> membership m' = membership m \<Longrightarrow> candidates m' = candidates m \<Longrightarrow> wf_members m'"
  by (simp add: wf_members_iff)

lemma wf_saved: "saveState sv t v m = (m1, ok) \<Longrightarrow> candidates m1 = candidates m \<and> membership m1 = membership m"
  using saveState_eq by fastforce

lemma wf_maintainDiscovery:
  assumes "wf_members m"
  shows "wf_members (maintainDiscovery now m)"
proof -
  have "cd_node (refreshEligibility now c) = cd_node c" for c by (simp add: refreshEligibility_def)
  then have "wf_cands (membership m) (map (\<lambda>(i, c). (i, refreshEligibility now c))
      (filter (\<lambda>(i, c). keepCandidate m now i c) (candidates m)))"
    using assms by (intro wf_cands_map [where f = "\<lambda>i. refreshEligibility now"] wf_cands_filter)
      (auto simp: wf_members_iff)
  then show ?thesis
    using assms wf_cands_map [where f = "\<lambda>i c. if probing_due c then c\<lparr>cd_probing := True\<rparr> else c"]
    by (simp add: wf_members_iff maintainDiscovery_def probeCandidates_eq del: map_map)
qed

lemma wf_recordContact: "wf_members m \<Longrightarrow> wf_members (recordContact r m)"
  by (auto simp: wf_members_iff recordContact_def isVoter_def intro!: wf_cands_put
      dest: wf_cands_look split: option.split)

lemma distinct_snoc_voters: "distinct (map node_ID (vs @ [n])) \<longleftrightarrow> distinct (map node_ID vs) \<and> node_ID n \<notin> node_ID ` set vs"
  by simp

lemma wf_maybeStart:
  assumes "wf_members m"
  shows "wf_members (maybeStartMembershipChange sv e m)"
proof -
  have cands: "candidates (applyMembershipChange sv e newM node m) =
      (if snd (sv \<lparr>ps_CurrentTerm = currentTerm m, ps_VotedFor = votedFor m, ps_Membership = Some newM\<rparr> (store m))
         = None then map_del (node_ID node) (candidates m) else candidates m)" for newM node
    by (auto simp: applyMembershipChange_def storeSave_def split: prod.split)
  note apply_sel = cands applyMembershipChange_membership(1)
  show ?thesis
  proof (cases rule: maybeStart_cases [of sv e m])
    case idle
    with assms show ?thesis by simp
  next
    case (admit node)
    obtain i c where "(i, c) \<in> set (candidates m)" "cd_node c = node"
      using nextAdmission_Some [OF admit(5)] by blast
    then have "\<not> HasVoter (membership m) (node_ID node)"
      using assms by (auto simp: wf_members_def isVoter_def)
    with assms show ?thesis
      unfolding admit(1) wf_members_iff apply_sel
      by (auto simp: admitted_def HasVoter_iff wf_cands_def AList.delete_eq)
  next
    case (remove node)
    with assms show ?thesis
      unfolding remove(1) wf_members_iff apply_sel
      by (auto simp: removed_def HasVoter_iff wf_cands_def AList.delete_eq distinct_map_filter)
  qed
qed

lemma wf_becomeLeader:
  assumes "wf_members m"
  shows "wf_members (becomeLeader sv e m)"
proof -
  have "\<exists>m3. membership m3 = membership m \<and> candidates m3 = candidates m \<and>
      becomeLeader sv e m = (if discoveryMode m3 then maybeStartMembershipChange sv e m3 else m3)"
    unfolding becomeLeader_def Let_def
    by (rule exI, rule conjI [rotated], rule conjI [rotated], rule refl) simp_all
  then show ?thesis using wf_maybeStart wf_same [OF assms] by metis
qed

lemma wf_stepDown: "wf_members m \<Longrightarrow> wf_members (stepDown sv e t m)"
  by (cases "saveState sv t [] m") (auto simp: stepDown_def wf_members_iff dest: wf_saved)

lemma wf_startElection:
  assumes "wf_members m"
  shows "wf_members (startElection sv e m)"
proof (cases rule: startElection_cases [of m sv e])
  case (failed m1)
  with assms wf_saved [OF failed(2)] show ?thesis by (simp add: wf_members_iff)
next
  case (stands m1)
  have "wf_members (standing e m1)" using assms wf_saved [OF stands(2)] by (simp add: wf_members_iff)
  with stands(3) show ?thesis by (simp add: wf_becomeLeader)
qed (use assms in \<open>simp add: wf_members_iff\<close>)

lemma wf_onHeartbeat:
  assumes "wf_members m" and "wf_input (Event (HeartbeatMsg req))"
  shows "wf_members (fst (onHeartbeat sv e req m))"
proof -
  let ?m3 = "acceptLeader sv e req m"
  have m3: "wf_members ?m3"
    by (rule wf_same [OF assms(1) acceptLeader_membership])
      (cases "saveState sv (hq_Term req) [] m",
        auto simp: acceptLeader_def Let_def dest: wf_saved split: option.split)
  have "wf_members (fst (adoptMembership sv mb ?m3))" if "distinct (map node_ID (mb_Voters mb))" for mb
    using m3 that
    by (auto simp: wf_members_iff adoptMembership_def storeSave_def Let_def isVoter_def wf_cands_def
        split: prod.split)
  then have "wf_members (fst (adoptOffered sv req ?m3))"
    using m3 assms(2) by (auto simp: adoptOffered_def wf_input_def split: option.split)
  with assms(1) show ?thesis
    by (auto simp: onHeartbeat_def Let_def wf_members_iff split: prod.split)
qed

lemma wf_onVoteResult:
  assumes "wf_members m"
  shows "wf_members (onVoteResult sv e r m)"
proof -
  have "wf_members (m\<lparr>votesFrom := vs\<rparr>)" "wf_members (m\<lparr>panicked := b\<rparr>)" for vs b
    using assms by (simp_all add: wf_members_iff)
  with assms show ?thesis
    by (simp add: onVoteResult_def Let_def wf_stepDown wf_becomeLeader split: option.split)
qed

lemma wf_onVote: "wf_members m \<Longrightarrow> wf_members (fst (onVote sv e req m))"
proof -
  assume wf: "wf_members m"
  obtain m' resp where v: "onVote sv e req m = (m', resp)" by fastforce
  then have "membership m' = membership m \<and> candidates m' = candidates m"
    by (cases rule: onVote_cases) (auto dest: wf_saved)
  with wf v show ?thesis by (simp add: wf_members_iff)
qed

lemma wf_onHeartbeatResult:
  assumes "wf_members m"
  shows "wf_members (onHeartbeatResult sv e r m)"
proof -
  have "wf_members (recordContact r m)" using assms by (rule wf_recordContact)
  then have "wf_members (publish e (recordContact r m))"
    "wf_members (publish e (recordAck r (recordContact r m)))" by (simp_all add: wf_members_iff)
  with assms show ?thesis
    by (simp add: onHeartbeatResult_def Let_def wf_stepDown wf_maybeStart)
qed

lemma wf_onHeartbeatTick:
  assumes "wf_members m"
  shows "wf_members (onHeartbeatTick sv e m)"
proof -
  define m1 where "m1 = (if discoveryMode m then maintainDiscovery (env_now e) m else m)"
  have "wf_members m1" "wf_members (sendHeartbeats e m1)"
    using assms wf_maintainDiscovery [of m "env_now e"] by (auto simp: m1_def wf_members_iff)
  then show ?thesis
    by (simp add: onHeartbeatTick_def Let_def m1_def [symmetric] wf_maybeStart)
qed

lemma wf_onIdentifyResult:
  assumes "wf_members m"
  shows "wf_members (onIdentifyResult sv e r m)"
proof (cases "map_of (candidates m) (node_ID (im_node r))")
  case None
  with assms show ?thesis by (simp add: onIdentifyResult_def)
next
  case (Some c0)
  have put: "wf_members (m\<lparr>candidates := map_put (node_ID (im_node r)) c (candidates m)\<rparr>)"
    if "cd_node c = cd_node c0" for c
    using assms Some that by (auto simp: wf_members_iff intro!: wf_cands_put dest: wf_cands_look)
  then show ?thesis
    by (simp add: onIdentifyResult_def Let_def Some wf_maybeStart)
qed

lemma wf_present: "\<forall>(i, n)\<in>set ps. node_ID n = i \<Longrightarrow> \<forall>(i, n)\<in>set (fold (\<lambda>n. map_put (node_ID n) n) ns ps). node_ID n = i"
proof (induction ns arbitrary: ps)
  case (Cons n ns)
  have "\<forall>(i, x)\<in>set (map_put (node_ID n) n ps). node_ID x = i"
    using Cons.prems set_map_put [of "node_ID n" n ps] by auto
  then show ?case using Cons.IH by simp
qed simp

lemma wf_rosterEntries:
  "wf_cands (membership m) cs \<Longrightarrow> \<forall>(i, n)\<in>set ps. node_ID n = i \<Longrightarrow>
   wf_cands (membership m) (fold (rosterEntry m) ps cs)"
proof (induction ps arbitrary: cs)
  case (Cons p ps)
  obtain i n where p: "p = (i, n)" by (cases p)
  have "wf_cands (membership m) (rosterEntry m p cs)"
    using Cons.prems p
    by (auto simp: rosterEntry_def isVoter_def refreshCandidate_def Let_def newCandidate_def
        intro!: wf_cands_put split: option.split)
  then show ?case using Cons by simp
qed simp

lemma wf_onRoster:
  assumes "wf_members m"
  shows "wf_members (onRoster sv e r m)"
proof -
  let ?m1 = "m\<lparr>lastRoster := r, haveRoster := True\<rparr>"
  let ?present = "fold (\<lambda>n. map_put (node_ID n) n) (ro_Nodes r) []"
  let ?m2 = "?m1\<lparr>candidates := map (\<lambda>(i, c). (i, markAbsent (env_now e) ?present i c))
      (fold (rosterEntry ?m1) ?present (candidates ?m1))\<rparr>"
  have "wf_cands (membership ?m1) (fold (rosterEntry ?m1) ?present (candidates ?m1))"
    using assms wf_present [of "[]"] by (intro wf_rosterEntries) (auto simp: wf_members_iff)
  moreover have "cd_node (markAbsent now present i c) = cd_node c" for now present i c
    by (simp add: markAbsent_def)
  ultimately have "wf_members ?m2"
    using assms by (auto simp: wf_members_iff intro: wf_cands_map)
  then have "wf_members (maintainDiscovery (env_now e) ?m2)" by (rule wf_maintainDiscovery)
  then show ?thesis by (simp add: onRoster_def Let_def wf_maybeStart)
qed

lemma wf_addActivity [simp]: "wf_members (addActivity m) \<longleftrightarrow> wf_members m"
  by (simp add: wf_members_iff addActivity_def)

lemma wf_loop_step:
  assumes "wf_members m" and "wf_input i"
  shows "wf_members (fst (loop_step sv e i m))"
proof (cases i)
  case (Event ev)
  have "wf_members (fst (handleEvent sv e ev m))"
  proof (cases ev)
    case (SubscribeMsg ch)
    with assms show ?thesis by (simp add: handleEvent_def onSubscribe_def Let_def wf_members_iff)
  next
    case (UnsubscribeMsg sid)
    with assms show ?thesis
      by (auto simp: handleEvent_def onUnsubscribe_def Let_def wf_members_iff split: option.split)
  qed (use assms Event wf_onVote [of m sv e] wf_onHeartbeat [of m _ sv e] in
      \<open>auto simp: handleEvent_def Let_def case_prod_beta wf_onVoteResult wf_onHeartbeatResult wf_onIdentifyResult\<close>)
  with Event assms show ?thesis by (simp add: loop_step_def)
qed (use assms in \<open>auto simp: loop_step_def shutdown_def onElectionTimeout_def wf_onRoster wf_onHeartbeatTick
      wf_startElection wf_members_iff [of "publish e m"] wf_members_iff [of "resetElectionTimer d m" for d]
      wf_members_iff [of "m\<lparr>rosterCh := b\<rparr>" for b]\<close>,
    auto simp: wf_members_iff)

subsection \<open>Properties\<close>

text \<open>
  A membership is durable before it is in force and only moves forward: whatever
  the input and however the store fails, a turn either leaves a manager's membership
  alone, or its new membership is the one on disk and supersedes the old one (unless
  the 64-bit version was about to wrap).
\<close>

theorem membership_durable_forward:
  assumes "istore sv ld ct" and "loop_step sv e i m = (m', r)" and "membership m' \<noteq> membership m"
  shows "Option.bind (ct (store m')) ps_Membership = Some (membership m') \<and>
    (Supersedes (membership m') (membership m) \<or> mb_Version (membership m) = - 1)"
  using istore.loop_step_mb [OF assms(1), of m e i] assms(2,3) by (simp add: mb_step_def durable_mb_def)

lemma admitting_facts:
  "wf_members admitting \<and>
   membership (fst (loop_step MemStore_Save (env_of (50 * second)) HeartbeatTickerC admitting)) \<noteq> membership admitting"
  unfolding wf_members_iff by code_simp

theorem membership_durable_forward_witness:
  "let m' = fst (loop_step MemStore_Save (env_of (50 * second)) HeartbeatTickerC admitting)
   in Option.bind (MemStore_contents (store m')) ps_Membership = Some (membership m') \<and>
     (Supersedes (membership m') (membership admitting) \<or> mb_Version (membership admitting) = - 1)"
  unfolding Let_def
  by (rule membership_durable_forward [OF mem.istore_axioms surjective_pairing conjunct2 [OF admitting_facts]])

text \<open>
  C8. What a leader changes: if the membership step of a leader changes its
  membership, then dynamic membership is on, the old membership was settled (a
  majority of its voters had acknowledged it or a newer one), its version grows by
  one, it carries the leader's term, and its voters are the old ones with exactly one
  node admitted or exactly one removed; so every majority of the new voters meets
  every majority of the old ones.
\<close>

theorem single_change:
  assumes "wf_members m" and "maybeStartMembershipChange sv e m = m'" and "membership m' \<noteq> membership m"
  shows "discoveryMode m \<and> role m = RoleLeader \<and> changeSettled m \<and>
    mb_Version (membership m') = mb_Version (membership m) + 1 \<and>
    mb_CreatedInTerm (membership m') = currentTerm m \<and>
    (\<exists>i. (i \<notin> voter_ids (membership m) \<and> voter_ids (membership m') = insert i (voter_ids (membership m))) \<or>
       (i \<in> voter_ids (membership m) \<and> voter_ids (membership m') = voter_ids (membership m) - {i})) \<and>
    (\<forall>P Q. majority_of (mb_Voters (membership m)) P \<and> majority_of (mb_Voters (membership m')) Q \<longrightarrow>
       (\<exists>v. v \<in> P \<and> v \<in> Q))"
proof -
  let ?V = "voter_ids (membership m)"
  have card: "card ?V = length (mb_Voters (membership m))"
    using assms(1) by (simp add: wf_members_def voter_ids_def card_voters)
  have fin: "finite ?V" by (simp add: voter_ids_def)
  show ?thesis
  proof (cases rule: maybeStart_cases [of sv e m])
    case idle
    with assms show ?thesis by simp
  next
    case (admit node)
    then have mb: "membership m' = admitted m node"
      using assms(2,3) by (auto simp: applyMembershipChange_membership split: if_splits)
    obtain i c where "(i, c) \<in> set (candidates m)" "cd_node c = node"
      using nextAdmission_Some [OF admit(5)] by blast
    then have new: "node_ID node \<notin> ?V"
      using assms(1) by (auto simp: wf_members_def isVoter_def HasVoter_iff voter_ids_def)
    have "\<exists>v. v \<in> P \<and> v \<in> Q"
      if "majority_of (mb_Voters (membership m)) P" "majority_of (mb_Voters (membership m')) Q" for P Q
      using that new card fin
      by (intro one_change_overlap [OF fin voter_ids_admitted new])
        (auto simp: majority_of_def mb voter_ids_def admitted_def card_insert_if)
    moreover have "node_ID node \<notin> ?V \<and> voter_ids (membership m') = insert (node_ID node) ?V"
      using new mb voter_ids_admitted by simp
    moreover have "mb_Version (membership m') = mb_Version (membership m) + 1"
      "mb_CreatedInTerm (membership m') = currentTerm m" by (simp_all add: mb admitted_def)
    ultimately show ?thesis using admit(2-4) by blast
  next
    case (remove node)
    then have mb: "membership m' = removed m node"
      using assms(2,3) by (auto simp: applyMembershipChange_membership split: if_splits)
    have mem: "node_ID node \<in> ?V" using nextRemoval_Some [OF remove(7)] by (auto simp: voter_ids_def)
    have card': "card (voter_ids (removed m node)) = length (mb_Voters (removed m node))"
      unfolding voter_ids_def using assms(1)
      by (intro card_voters) (simp add: wf_members_def removed_def distinct_map_filter)
    have "\<exists>v. v \<in> Q \<and> v \<in> P"
      if "majority_of (mb_Voters (membership m)) P" "majority_of (mb_Voters (membership m')) Q" for P Q
      using that card card' mem fin voter_ids_removed [of m node]
      by (intro one_change_overlap [of "voter_ids (removed m node)" ?V "node_ID node" Q P])
        (auto simp: majority_of_def mb voter_ids_def)
    moreover have "node_ID node \<in> ?V \<and> voter_ids (membership m') = ?V - {node_ID node}"
      using mem mb voter_ids_removed by simp
    moreover have "mb_Version (membership m') = mb_Version (membership m) + 1"
      "mb_CreatedInTerm (membership m') = currentTerm m" by (simp_all add: mb removed_def)
    ultimately show ?thesis using remove(2-4) by blast
  qed
qed


lemma admitting_start:
  "membership (maybeStartMembershipChange MemStore_Save (env_of (50 * second)) admitting) \<noteq> membership admitting"
  by code_simp

theorem single_change_witness:
  "changeSettled admitting \<and>
   mb_Version (membership (maybeStartMembershipChange MemStore_Save (env_of (50 * second)) admitting)) =
     mb_Version (membership admitting) + 1"
  using single_change [OF conjunct1 [OF admitting_facts] refl admitting_start] by blast


lemma removing_facts:
  "bare ''c'' \<in> set (mb_Voters (membership removing)) \<and>
   \<not> HasVoter (membership (maybeStartMembershipChange MemStore_Save (env_of (71 * second)) removing)) (node_ID (bare ''c''))"
  by code_simp


text \<open>
  An admission is guarded. A new voter is a tracked candidate that is in the roster
  and verified as a warden of this cluster, and has been both without a break for
  at least \<open>JoinStability\<close>; among all such candidates it has the least ID.
\<close>

theorem admission_guarded:
  assumes "maybeStartMembershipChange sv e m = m'" and "node \<in> set (mb_Voters (membership m'))"
    and "node \<notin> set (mb_Voters (membership m))"
  shows "\<exists>i c. (i, c) \<in> set (candidates m) \<and> cd_node c = node \<and> cd_inRoster c \<and> cd_verified c \<and>
    \<not> IsZero (cd_eligibleSince c) \<and>
    cfg_JoinStability (cfg m) \<le> time_Sub (env_now e) (cd_eligibleSince c) \<and>
    (\<forall>j d. (j, d) \<in> set (candidates m) \<and> candidateEligible m d (env_now e) \<longrightarrow>
       node_ID node \<le> node_ID (cd_node d))"
proof (cases rule: maybeStart_cases [of sv e m])
  case idle
  with assms show ?thesis by simp
next
  case (admit a)
  with assms have "node = a"
    by (auto simp: applyMembershipChange_membership admitted_def split: if_splits)
  with nextAdmission_Some [OF admit(5)] show ?thesis unfolding candidateEligible_def by blast
next
  case (remove r)
  with assms show ?thesis
    by (auto simp: applyMembershipChange_membership removed_def split: if_splits)
qed

lemma admitting_node:
  "bare ''d'' \<in> set (mb_Voters (membership (maybeStartMembershipChange MemStore_Save (env_of (50 * second)) admitting)))
   \<and> bare ''d'' \<notin> set (mb_Voters (membership admitting))"
  by code_simp

theorem admission_guarded_witness:
  "\<exists>i c. (i, c) \<in> set (candidates admitting) \<and> cd_node c = bare ''d'' \<and> cd_verified c"
  using admission_guarded [OF refl conjunct1 [OF admitting_node] conjunct2 [OF admitting_node]] by blast



end
