(* ===== verification/Election_Votes.thy ===== *)
theory Election_Votes
  imports Election_Node Election_Membership
begin

text \<open>
  Properties of one manager's part in elections: when a vote is granted, that votes
  survive every failure of the store, that an observer takes no part, when a
  candidate wins, and that the loop never panics.
\<close>

subsection \<open>Granting\<close>

text \<open>
  C14. A vote request is granted exactly when the manager is not an observer, the
  request's term is not stale, the candidate is a current voter, no other candidate
  holds this manager's vote of that term, and the vote reached the store. Granting
  records exactly that term and vote; the response's term is the manager's.
\<close>

theorem vote_decision:
  "let (m', resp) = onVote sv e req m; t = vq_Term req; c = vq_CandidateID req in
   (vr_Granted resp \<longleftrightarrow>
      \<not> isObserver m \<and> currentTerm m \<le> t \<and> isVoter m c \<and>
      (currentTerm m < t \<or> votedFor m = [] \<or> votedFor m = c) \<and> snd (saveState sv t c m)) \<and>
   (vr_Granted resp \<longrightarrow> currentTerm m' = t \<and> votedFor m' = c \<and> role m' = RoleFollower \<and>
      store m' = store (fst (saveState sv t c m))) \<and>
   vr_Term resp = currentTerm m' \<and> vr_VoterID resp = node_ID (self m)"
proof -
  have self_saved: "self m1 = self m" "currentTerm m1 = currentTerm m" if "saveState sv t v m = (m1, ok)" for t v m1 ok
    using saveState_eq [OF that] by auto
  show ?thesis
    by (auto simp: onVote_def Let_def frame_simps not_less split: prod.split dest: self_saved)
qed

lemma fresh_voter:
  "let m = booted False founders ''a'' in
   \<not> isObserver m \<and> currentTerm m \<le> 7 \<and> isVoter m ''b'' \<and> currentTerm m < 7 \<and>
   snd (saveState MemStore_Save 7 ''b'' m)"
  by code_simp

theorem vote_decision_witness:
  "vr_Granted (snd (onVote MemStore_Save (env_of (5 * second)) \<lparr>vq_Term = 7, vq_CandidateID = ''b''\<rparr>
     (booted False founders ''a'')))"
  using vote_decision [of MemStore_Save "env_of (5 * second)" "\<lparr>vq_Term = 7, vq_CandidateID = ''b''\<rparr>"
      "booted False founders ''a''"] fresh_voter
  by (simp add: Let_def split_beta)

subsection \<open>Votes are never lost\<close>

context istore
begin

lemma turn_covers:
  assumes "loop_step save e i m = (m', r)" and "currentTerm m \<noteq> - 1" and "snd tc \<noteq> []"
    and "covers tc (currentTerm m, votedFor m)" and "covers tc (durable contents (store m))"
  shows "covers tc (currentTerm m', votedFor m') \<and> covers tc (durable contents (store m'))"
proof -
  let ?P = "\<lambda>x. covers tc (vo_term x, vo_vote x) \<and> covers tc (vo_disk x)"
  have nw: "l \<noteq> Campaign 0" if "l \<in> turn_labels i m r" for l
    using that assms(2) by (rule turn_labels_no_wrap)
  from loop_step_run [OF assms(1)] have "?P (voter_of contents m')"
    by (induction rule: vruns_induct) (use assms(3-5) nw vstep_covers in auto)
  then show ?thesis by simp
qed

end

text \<open>
  C4. Whatever the input and however the store fails, a manager below the last term
  never loses a vote: a vote that memory and disk both cover (they name a later term,
  or the same term and candidate) is covered by both after the turn.
\<close>

theorem votes_never_lost:
  assumes "istore sv ld ct" and "loop_step sv e i m = (m', r)" and "currentTerm m \<noteq> - 1" and "c \<noteq> []"
    and "covers (t, c) (currentTerm m, votedFor m)" and "covers (t, c) (durable ct (store m))"
  shows "covers (t, c) (currentTerm m', votedFor m') \<and> covers (t, c) (durable ct (store m'))"
  using istore.turn_covers [OF assms(1-3), of "(t, c)"] assms(4-6) by simp

definition voted :: "MemStore Manager" where
  "voted = turns [(10 * second, ElectionTimerC)] (booted False founders ''a'')"

lemma voted_facts:
  "currentTerm voted \<noteq> - 1 \<and> covers (1, ''a'') (currentTerm voted, votedFor voted) \<and>
   covers (1, ''a'') (durable MemStore_contents (store voted))"
  by code_simp

theorem votes_never_lost_witness:
  "covers (1, ''a'') (durable MemStore_contents (store (fst
     (loop_step MemStore_Save (env_of (20 * second)) (Event (VoteMsg \<lparr>vq_Term = 5, vq_CandidateID = ''b''\<rparr>)) voted))))"
  using votes_never_lost [OF mem.istore_axioms surjective_pairing, of voted "''a''" 1] voted_facts by simp

subsection \<open>Observers\<close>

text \<open>
  An observer takes no part in elections: its election timer only re-arms the
  timer, and every vote request is refused without any change of state.
\<close>

theorem observer_passive:
  assumes "isObserver m"
  shows "onElectionTimeout sv e m = resetElectionTimer (randTimeout e m) m \<and>
    startElection sv e m = resetElectionTimer (randTimeout e m) m \<and>
    onVote sv e req m = (m, \<lparr>vr_Term = currentTerm m, vr_Granted = False, vr_VoterID = node_ID (self m)\<rparr>)"
  using assms by (simp add: onElectionTimeout_def startElection_def onVote_def)

theorem observer_passive_witness:
  "isObserver (booted True founders ''z'') \<and>
   onVote MemStore_Save (env_of second) \<lparr>vq_Term = 9, vq_CandidateID = ''a''\<rparr> (booted True founders ''z'') =
     (booted True founders ''z'', \<lparr>vr_Term = 0, vr_Granted = False, vr_VoterID = ''z''\<rparr>)"
proof -
  have o: "isObserver (booted True founders ''z'')" by code_simp
  have "currentTerm (booted True founders ''z'') = 0" "node_ID (self (booted True founders ''z'')) = ''z''"
    by code_simp+
  with o observer_passive [OF o] show ?thesis by simp
qed

subsection \<open>Winning\<close>

lemma becomeLeader_leads: "role (becomeLeader sv e m) = RoleLeader \<and> currentTerm (becomeLeader sv e m) = currentTerm m"
proof -
  have start: "role (maybeStartMembershipChange sv e m) = role m \<and>
      currentTerm (maybeStartMembershipChange sv e m) = currentTerm m" for m
    by (cases rule: maybeStart_cases [of sv e m])
      (auto simp: applyMembershipChange_def storeSave_def frame_simps split: prod.split)
  have "\<exists>m3. becomeLeader sv e m = (if discoveryMode m3 then maybeStartMembershipChange sv e m3 else m3) \<and>
      role m3 = RoleLeader \<and> currentTerm m3 = currentTerm m"
    unfolding becomeLeader_def Let_def by (rule exI, rule conjI, rule refl) (simp add: frame_simps)
  then show ?thesis using start by metis
qed

text \<open>
  A candidate wins exactly by majority: on a vote result of its own term without
  error or higher term, the new tally is the old one with the voter added if the vote
  was granted by a current voter, counted once however often it is delivered, and the
  manager becomes leader exactly when a counted vote brings it to a quorum.
\<close>

theorem tally_decides:
  assumes "role m = RoleCandidate" and "votesFrom m = Some vs" and "vm_term r = currentTerm m"
    and "\<not> vm_err r" and "vr_Term (vm_resp r) \<le> currentTerm m"
  shows "role (onVoteResult sv e r m) =
    (if vr_Granted (vm_resp r) \<and> isVoter m (vm_from r) \<and>
        quorum m \<le> length (List.insert (vm_from r) vs)
     then RoleLeader else RoleCandidate) \<and>
    currentTerm (onVoteResult sv e r m) = currentTerm m"
  using assms becomeLeader_leads
  by (auto simp: onVoteResult_def Let_def List.insert_def quorum_def not_less)

lemma voted_candidate:
  "role voted = RoleCandidate \<and> votesFrom voted = Some [''a''] \<and> currentTerm voted = 1 \<and>
   isVoter voted ''b'' \<and> quorum voted = 2"
  by code_simp

definition granted_by_b :: voteResultMsg where
  "granted_by_b = \<lparr>vm_term = 1, vm_from = ''b'',
     vm_resp = \<lparr>vr_Term = 1, vr_Granted = True, vr_VoterID = ''b''\<rparr>, vm_err = False\<rparr>"

theorem tally_decides_witness:
  "role (onVoteResult MemStore_Save (env_of (11 * second)) granted_by_b voted) = RoleLeader"
  using tally_decides [of voted "[''a'']" granted_by_b MemStore_Save "env_of (11 * second)"] voted_candidate
  by (simp add: granted_by_b_def)

text \<open>
  A voter that is alone in its membership elects itself: when its election timer
  fires after the deadline and the save succeeds, it leads the next term at once.
\<close>

theorem lone_voter_leads:
  assumes "mb_Voters (membership m) = [v]" and "node_ID v = node_ID (self m)" and "role m \<noteq> RoleLeader"
    and "electionDeadline m \<le> env_now e" and "snd (saveState sv (currentTerm m + 1) (node_ID (self m)) m)"
  shows "role (onElectionTimeout sv e m) = RoleLeader \<and>
    currentTerm (onElectionTimeout sv e m) = currentTerm m + 1"
proof -
  have "\<not> isObserver m" using assms(1,2) by (simp add: isObserver_def HasVoter_def)
  then have eq: "onElectionTimeout sv e m = startElection sv e m"
    using assms(3,4) by (simp add: onElectionTimeout_def)
  show ?thesis
  proof (cases rule: startElection_cases [of m sv e])
    case (stands m1)
    have "membership m1 = membership m" "currentTerm m1 = currentTerm m"
      using saveState_eq [OF stands(2)] by auto
    then have "quorum (standing e m1) \<le> 1" using assms(1) by (simp add: quorum_def Quorum_def)
    then show ?thesis
      using stands(3) becomeLeader_leads [of sv e "standing e m1"] \<open>currentTerm m1 = currentTerm m\<close>
      by (simp add: eq)
  qed (use assms(5) \<open>\<not> isObserver m\<close> in auto)
qed

lemma lone_facts:
  "let m = booted False [bare ''a''] ''a'' in
   mb_Voters (membership m) = [bare ''a''] \<and> node_ID (bare ''a'') = node_ID (self m) \<and> role m \<noteq> RoleLeader \<and>
   electionDeadline m \<le> env_now (env_of (9 * second)) \<and>
   snd (saveState MemStore_Save (currentTerm m + 1) (node_ID (self m)) m)"
  by code_simp

theorem lone_voter_leads_witness:
  "role (onElectionTimeout MemStore_Save (env_of (9 * second)) (booted False [bare ''a''] ''a'')) = RoleLeader"
  using lone_voter_leads [of "booted False [bare ''a''] ''a''" "bare ''a''" "env_of (9 * second)" MemStore_Save]
    lone_facts
  by (simp add: Let_def)

end
