(* ===== verification/Election_Sound.thy ===== *)
theory Election_Sound
  imports Election_Frame Election_Demo
begin

text \<open>
  The loop never panics: no nil vote map is written and no closed subscriber channel
  is sent to, whatever arrives. With it, what publishing and subscribing guarantee to
  a subscriber.
\<close>

definition sound :: "'st Manager \<Rightarrow> bool" where
  "sound m \<longleftrightarrow>
     \<not> panicked m \<and> list_all (\<lambda>(_, ch). \<not> ch_closed ch) (subs m) \<and>
     (role m = RoleCandidate \<longrightarrow> votesFrom m \<noteq> None)"

definition open_input :: "input \<Rightarrow> bool" where
  "open_input i = (case i of Event (SubscribeMsg ch) \<Rightarrow> \<not> ch_closed ch | _ \<Rightarrow> True)"

lemma chan_trySend_None: "chan_trySend v ch = None \<longleftrightarrow> ch_closed ch"
  by (auto simp: chan_trySend_def)

lemma sendView_closed [simp]: "ch_closed (sendView v ch) = ch_closed ch"
  by (auto simp: sendView_def chan_trySend_def)

lemma sound_publish [simp]: "sound m \<Longrightarrow> sound (publish e m)"
  by (auto simp: sound_def publish_eq published_def publish_panics_def chan_trySend_None
      list_all_iff list_ex_iff)

text \<open>Whatever keeps these four fields keeps soundness.\<close>

lemma sound_cong:
  "sound m \<Longrightarrow> panicked m' = panicked m \<Longrightarrow> subs m' = subs m \<Longrightarrow> role m' = role m \<Longrightarrow>
   votesFrom m' = votesFrom m \<Longrightarrow> sound m'"
  by (simp add: sound_def)

lemma sound_role:
  "sound m \<Longrightarrow> panicked m' = panicked m \<Longrightarrow> subs m' = subs m \<Longrightarrow> role m' \<noteq> RoleCandidate \<Longrightarrow> sound m'"
  by (simp add: sound_def)

lemma sound_quiet [simp]:
  "sound m \<Longrightarrow> sound (sendHeartbeats e m)" "sound m \<Longrightarrow> sound (rearmElection e m)"
  "sound m \<Longrightarrow> sound (resetElectionTimer d m)" "sound m \<Longrightarrow> sound (maintainDiscovery now m)"
  "sound m \<Longrightarrow> sound (recordContact r m)" "sound m \<Longrightarrow> sound (recordAck r m)"
  "sound m \<Longrightarrow> sound (addActivity m)" "sound m \<Longrightarrow> sound (m\<lparr>store := st\<rparr>)"
  "sound m \<Longrightarrow> sound (m\<lparr>candidates := cs\<rparr>)" "sound m \<Longrightarrow> sound (m\<lparr>rosterCh := b\<rparr>)"
  by (erule sound_cong; simp add: frame_simps maintainDiscovery_def recordContact_def recordAck_def
      addActivity_def split: option.split)+

lemma sound_saved: "sound m \<Longrightarrow> saveState sv t v m = (m1, ok) \<Longrightarrow> sound m1"
  using saveState_eq by fastforce

lemma sound_applyMembershipChange:
  assumes "sound m"
  shows "sound (applyMembershipChange sv e newM target m)"
proof -
  let ?ps = "\<lparr>ps_CurrentTerm = currentTerm m, ps_VotedFor = votedFor m, ps_Membership = Some newM\<rparr>"
  obtain m1 ok where s: "storeSave sv ?ps m = (m1, ok)" by fastforce
  then have m1: "sound m1" using assms storeSave_eq [OF s] by simp
  then have "sound (m1\<lparr>membership := newM, ackedVersion := a, candidates := c\<rparr>)" for a c
    by (rule sound_cong) simp_all
  with m1 s show ?thesis by (simp add: applyMembershipChange_def Let_def)
qed

lemma sound_maybeStart: "sound m \<Longrightarrow> sound (maybeStartMembershipChange sv e m)"
  by (simp add: maybeStartMembershipChange_def sound_applyMembershipChange split: option.split)

lemma sound_becomeLeader:
  assumes "sound m"
  shows "sound (becomeLeader sv e m)"
proof -
  have "\<exists>m2. sound m2 \<and> becomeLeader sv e m =
      (let m3 = sendHeartbeats e (publish e m2)
       in if discoveryMode m3 then maybeStartMembershipChange sv e m3 else m3)"
    unfolding becomeLeader_def
    by (simp only: Let_def, rule exI, rule conjI [rotated], rule refl) (rule sound_role [OF assms]; simp)
  then show ?thesis by (auto simp: Let_def sound_maybeStart)
qed

lemma sound_stepDown:
  assumes "sound m"
  shows "sound (stepDown sv e t m)"
proof -
  obtain m1 ok where s: "saveState sv t [] m = (m1, ok)" by fastforce
  have "sound (m1\<lparr>currentTerm := t, votedFor := [], role := RoleFollower, leaderID := []\<rparr>)"
    by (rule sound_role [OF sound_saved [OF assms s]]) simp_all
  with s show ?thesis by (simp add: stepDown_def)
qed

lemma sound_standing: "sound m \<Longrightarrow> sound (standing e m)"
  by (auto simp: sound_def standing_def frame_simps published_def publish_panics_def chan_trySend_None
      list_all_iff list_ex_iff)

lemma sound_startElection:
  assumes "sound m"
  shows "sound (startElection sv e m)"
proof (cases rule: startElection_cases [of m sv e])
  case (failed m1)
  with sound_saved [OF assms failed(2)] show ?thesis by simp
next
  case (stands m1)
  with sound_saved [OF assms stands(2)] show ?thesis by (simp add: sound_standing sound_becomeLeader)
qed (use assms in simp)

lemma sound_onVoteResult:
  assumes "sound m"
  shows "sound (onVoteResult sv e r m)"
proof -
  have "sound (m\<lparr>votesFrom := Some vs\<rparr>)" for vs using assms by (simp add: sound_def)
  moreover have "role m = RoleCandidate \<Longrightarrow> votesFrom m \<noteq> None" using assms by (simp add: sound_def)
  ultimately show ?thesis using assms
    by (auto simp: onVoteResult_def Let_def sound_stepDown sound_becomeLeader split: option.split)
qed

lemma sound_onVote:
  assumes "sound m"
  shows "sound (fst (onVote sv e req m))"
proof -
  obtain m' resp where v: "onVote sv e req m = (m', resp)" by fastforce
  have follow: "sound (publish e (rearmElection e (m1\<lparr>currentTerm := t, votedFor := c, role := RoleFollower, leaderID := l\<rparr>)))"
    if "saveState sv t' c' m = (m1, ok)" for m1 ok t c l t' c'
  proof -
    have "sound (m1\<lparr>currentTerm := t, votedFor := c, role := RoleFollower, leaderID := l\<rparr>)"
      by (rule sound_role [OF sound_saved [OF assms that]]) simp_all
    then show ?thesis by simp
  qed
  from v have "sound m'"
    by (cases rule: onVote_cases) (use assms sound_saved [OF assms] follow in auto)
  with v show ?thesis by simp
qed

lemma sound_onHeartbeat:
  assumes "sound m"
  shows "sound (fst (onHeartbeat sv e req m))"
proof -
  let ?m3 = "acceptLeader sv e req m"
  obtain m1 ok where s: "saveState sv (hq_Term req) [] m = (m1, ok)" by fastforce
  have m3: "sound ?m3"
    using sound_saved [OF assms s] assms s
    by (auto simp: acceptLeader_def Let_def sound_def split: option.split)
  have "role ?m3 = RoleFollower" by (simp add: acceptLeader_def Let_def split: option.split)
  then have "sound (fst (adoptMembership sv mb ?m3))" for mb
    using m3 by (auto simp: adoptMembership_def storeSave_def Let_def sound_def split: prod.split)
  then have "sound (fst (adoptOffered sv req ?m3))" using m3 by (auto simp: adoptOffered_def split: option.split)
  then show ?thesis using assms by (auto simp: onHeartbeat_def Let_def split: prod.split)
qed

lemma sound_discovery:
  assumes "sound m"
  shows "sound (onHeartbeatTick sv e m)" "sound (onHeartbeatResult sv e hr m)"
    "sound (onIdentifyResult sv e ir m)" "sound (onRoster sv e r m)"
proof -
  have "sound (m\<lparr>lastRoster := a, haveRoster := b, candidates := c\<rparr>)" for a b c
    by (rule sound_cong [OF assms]) simp_all
  then show "sound (onRoster sv e r m)" by (simp add: onRoster_def Let_def sound_maybeStart)
qed (use assms in \<open>auto simp: onHeartbeatTick_def onHeartbeatResult_def onIdentifyResult_def Let_def
    sound_maybeStart sound_stepDown split: option.split\<close>)

lemma sound_handleEvent:
  assumes "sound m" and "open_input (Event ev)"
  shows "sound (fst (handleEvent sv e ev m))"
proof (cases ev)
  case (SubscribeMsg ch)
  have "list_all (\<lambda>(_, ch). \<not> ch_closed ch) (map_put sid (sendView v ch) (subs m))" for sid v
    using assms SubscribeMsg set_map_put [of sid "sendView v ch" "subs m"]
    by (auto simp: list_all_iff sound_def open_input_def)
  with assms SubscribeMsg show ?thesis
    by (auto simp: handleEvent_def onSubscribe_def Let_def sound_def chan_trySend_None open_input_def)
next
  case (UnsubscribeMsg sid)
  have "list_all (\<lambda>(_, ch). \<not> ch_closed ch) (map_del sid (subs m))"
    using assms set_map_del [of sid "subs m"] by (auto simp: list_all_iff sound_def)
  with assms UnsubscribeMsg show ?thesis
    by (auto simp: handleEvent_def onUnsubscribe_def Let_def sound_def split: option.split)
qed (use assms sound_onVote [of m sv e] sound_onHeartbeat [of m sv e] in
    \<open>auto simp: handleEvent_def Let_def case_prod_beta sound_onVoteResult sound_discovery\<close>)

subsection \<open>Properties\<close>

text \<open>
  C16. The loop never panics: from a sound manager, every input (a subscription being
  with an open channel) leads to a sound manager, which has not panicked, sends to
  open channels only and, while a candidate, has a vote map.
\<close>

theorem never_panics:
  assumes "sound m" and "open_input i" and "loop_step sv e i m = (m', r)"
  shows "sound m' \<and> \<not> panicked m'"
proof -
  have "sound (fst (loop_step sv e i m))"
  proof (cases i)
    case CtxDone
    with assms(1) show ?thesis by (auto simp: loop_step_def shutdown_def sound_def)
  qed (use assms(1,2) in \<open>auto simp: loop_step_def sound_handleEvent sound_discovery onElectionTimeout_def
      sound_startElection\<close>)
  with assms(3) show ?thesis by (simp add: sound_def)
qed

lemma booted_sound: "sound (booted True founders ''a'')"
  by code_simp

theorem never_panics_witness:
  "\<not> panicked (fst (loop_step MemStore_Save (env_of (20 * second)) ElectionTimerC (booted True founders ''a'')))"
  using never_panics [OF booted_sound _ surjective_pairing, of ElectionTimerC]
  by (simp add: open_input_def)

text \<open>
  A subscription with a buffer starts with the current view: when \<open>Subscribe\<close>
  returns an id, the channel registered under it already holds the snapshot, the id
  was not in use, and no other subscription changes. A negative size is a size of 0.
\<close>

theorem subscribe_snapshot:
  assumes "Subscribe sv e buf m = (m', Inr sid)" and "0 < buf" and "\<forall>i\<in>fst ` set (subs m). i \<le> nextSubID m"
  shows "map_of (subs m') sid = Some ((make_chan (nat buf))\<lparr>ch_buf := [snapshotView e (m\<lparr>nextSubID := sid\<rparr>)]\<rparr>) \<and>
    sid \<notin> fst ` set (subs m) \<and> (\<forall>j. j \<noteq> sid \<longrightarrow> map_of (subs m') j = map_of (subs m) j) \<and>
    (\<forall>i\<in>fst ` set (subs m'). i \<le> nextSubID m')"
proof -
  let ?ch = "make_chan (nat buf) :: ClusterView chan"
  from assms(1,2) have m': "m' = fst (onSubscribe e ?ch m)" and sid: "sid = nextSubID m + 1"
    by (auto simp: Subscribe_def loop_step_def handleEvent_def onSubscribe_def Let_def split: if_splits)
  have send: "sendView v ?ch = ?ch\<lparr>ch_buf := [v]\<rparr>" for v
    using assms(2) by (simp add: sendView_def chan_trySend_def make_chan_def)
  have subs: "subs m' = map_put sid (?ch\<lparr>ch_buf := [snapshotView e (m\<lparr>nextSubID := sid\<rparr>)]\<rparr>) (subs m)"
    and nxt: "nextSubID m' = sid"
    by (simp_all add: m' sid onSubscribe_def Let_def send)
  have "sid \<notin> fst ` set (subs m)" using assms(3) sid by auto
  moreover have "\<forall>i\<in>fst ` set (subs m'). i \<le> nextSubID m'"
    unfolding subs nxt dom_update using assms(3) sid by auto
  ultimately show ?thesis by (simp add: subs update_conv')
qed

lemma booted_subscribes:
  "snd (Subscribe MemStore_Save (env_of (2 * second)) 4 (booted False founders ''a'')) = Inr 1 \<and>
   subs (booted False founders ''a'') = []"
  by code_simp

theorem subscribe_snapshot_witness:
  "map_of (subs (fst (Subscribe MemStore_Save (env_of (2 * second)) 4 (booted False founders ''a'')))) 1 \<noteq> None"
  using subscribe_snapshot [of MemStore_Save "env_of (2 * second)" 4 "booted False founders ''a''" _ 1]
    booted_subscribes
  by (metis (no_types, lifting) empty_iff image_empty list.set(1) option.distinct(1) prod.collapse zero_less_numeral)

text \<open>
  Publishing never blocks and never drops a subscriber: every subscriber keeps its
  channel, which gets the current snapshot if a receiver waits on it or its buffer
  has room, and is left as it is otherwise; nothing else of a sound manager changes.
\<close>

theorem publish_delivers:
  assumes "sound m" and "map_of (subs m) sid = Some ch"
  shows "\<exists>ch'. map_of (subs (publish e m)) sid = Some ch' \<and>
    (if 0 < ch_parked ch then ch_got ch' = ch_got ch @ [snapshotView e m]
     else if length (ch_buf ch) < ch_cap ch then ch_buf ch' = ch_buf ch @ [snapshotView e m]
     else ch' = ch) \<and>
    publish e m = m\<lparr>subs := subs (publish e m)\<rparr>"
proof -
  have "\<not> ch_closed ch" "\<not> publish_panics e m" "\<not> panicked m"
    using assms by (auto simp: sound_def list_all_iff publish_panics_def list_ex_iff chan_trySend_None
        dest!: map_of_SomeD)
  then show ?thesis
    using assms(2) by (cases m) (simp add: publish_eq published_def sendView_def chan_trySend_def)
qed

definition subscribed :: "MemStore Manager" where
  "subscribed = fst (Subscribe MemStore_Save (env_of (2 * second)) 4 (booted False founders ''a''))"

lemma subscribed_facts:
  "sound subscribed \<and> map_option (\<lambda>ch. (ch_parked ch, length (ch_buf ch), ch_cap ch)) (map_of (subs subscribed) 1)
     = Some (0, 1, 4)"
  by code_simp

theorem publish_delivers_witness:
  "\<exists>ch ch'. map_of (subs subscribed) 1 = Some ch \<and>
     map_of (subs (publish (env_of (3 * second)) subscribed)) 1 = Some ch' \<and>
     ch_buf ch' = ch_buf ch @ [snapshotView (env_of (3 * second)) subscribed]"
proof -
  obtain ch where ch: "map_of (subs subscribed) 1 = Some ch" "ch_parked ch = 0" "length (ch_buf ch) < ch_cap ch"
    using subscribed_facts by auto
  show ?thesis using publish_delivers [OF conjunct1 [OF subscribed_facts] ch(1), of "env_of (3 * second)"] ch by auto
qed

end
