(* ===== verification/Election_Liveness.thy ===== *)
theory Election_Liveness
  imports Election_Membership
begin

text \<open>
  What the views say: the classification of peers by age, what counts as contact with
  a peer, the rows of the leader's view, and when a follower hands out an
  authoritative view. Ages are exact while they fit a 64-bit duration.
\<close>

definition sane_ages :: "Config \<Rightarrow> bool" where
  "sane_ages c \<longleftrightarrow> 0 < cfg_SuspectAfter c \<and> cfg_SuspectAfter c \<le> cfg_DeadAfter c \<and> cfg_DeadAfter c \<le> maxDuration"

text \<open>
  A leader classifies a peer by the time since it was last heard, counted from the
  takeover for a peer not heard since: alive below \<open>SuspectAfter\<close> (unknown if never
  heard at all), suspect from there, dead from \<open>DeadAfter\<close> on. So a new leader marks a
  peer that is already down dead \<open>DeadAfter\<close> after taking over, not earlier or later.
\<close>

theorem leader_classifies:
  assumes "sane_ages (cfg m)"
  shows "leaderPeerStatus m now lc =
    (let heard = max (becameLeaderAt m) lc in
     if cfg_DeadAfter (cfg m) \<le> now - heard then StatusDead
     else if cfg_SuspectAfter (cfg m) \<le> now - heard then StatusSuspect
     else if lc = 0 \<and> now - becameLeaderAt m < cfg_SuspectAfter (cfg m) then StatusUnknown
     else StatusAlive)"
proof -
  have dead: "cfg_DeadAfter (cfg m) \<le> time_Sub now t \<longleftrightarrow> cfg_DeadAfter (cfg m) \<le> now - t" for t
    using assms by (intro le_time_Sub_iff) (auto simp: sane_ages_def minDuration_def)
  have susp: "cfg_SuspectAfter (cfg m) \<le> time_Sub now t \<longleftrightarrow> cfg_SuspectAfter (cfg m) \<le> now - t" for t
    using assms by (intro le_time_Sub_iff) (auto simp: sane_ages_def minDuration_def)
  show ?thesis
    using assms unfolding leaderPeerStatus_def IsZero_def Let_def not_le [symmetric] dead susp
    by (auto simp: max_def sane_ages_def)
qed

lemma sane_defaults:
  "sane_ages (cfg removing) \<and> cfg_DeadAfter (cfg removing) = 15 * second \<and>
   cfg_SuspectAfter (cfg removing) = 5 * second \<and> becameLeaderAt removing = 10 * second"
  by code_simp

theorem leader_classifies_witness:
  "leaderPeerStatus removing (25 * second) 0 = StatusDead \<and> leaderPeerStatus removing (24 * second) 0 = StatusSuspect"
  using leader_classifies [OF conjunct1 [OF sane_defaults], of "25 * second" 0]
    leader_classifies [OF conjunct1 [OF sane_defaults], of "24 * second" 0] sane_defaults
  by (simp add: Let_def)

text \<open>
  Any response is contact. When a leader gets a response of its term from a voter,
  the time its heartbeat was sent becomes the voter's last contact and the round trip
  its latency, whether or not the response says OK; the acknowledged membership of the
  voter changes only if it does.
\<close>

lemma contact_kept:
  "lastContact (maybeStartMembershipChange sv e m) = lastContact m"
  "latencyMS (maybeStartMembershipChange sv e m) = latencyMS m"
  "role (maybeStartMembershipChange sv e m) = role m"
  by (cases rule: maybeStart_cases [of sv e m],
      auto simp: applyMembershipChange_def storeSave_def frame_simps split: prod.split)+

theorem response_is_contact:
  assumes "role m = RoleLeader" and "hm_term r = currentTerm m" and "\<not> hm_err r"
    and "hr_Term (hm_resp r) \<le> currentTerm m" and "isVoter m (node_ID (hm_peer r))"
  shows "let m' = onHeartbeatResult sv e r m; i = node_ID (hm_peer r) in
    map_get 0 (lastContact m') i = hm_sentAt r \<and>
    map_get 0 (latencyMS m') i = of_int (hm_rtt r) / of_int millisecond \<and>
    role m' = RoleLeader \<and> (\<not> hr_OK (hm_resp r) \<longrightarrow> ackedVersion m' = ackedVersion m)"
  using assms(1-3,5) assms(4) [folded not_less]
  by (auto simp: onHeartbeatResult_def Let_def recordContact_def recordAck_def frame_simps contact_kept)

definition slow_answer :: heartbeatResultMsg where
  "slow_answer = \<lparr>hm_term = 1, hm_peer = bare ''b'',
     hm_resp = \<lparr>hr_Term = 1, hr_OK = False, hr_NodeID = ''b''\<rparr>, hm_err = False,
     hm_sentAt = 70 * second, hm_rtt = 3 * millisecond, hm_mversion = 1, hm_mterm = 0\<rparr>"

lemma removing_leads: "role removing = RoleLeader \<and> currentTerm removing = 1 \<and> isVoter removing (node_ID (bare ''b''))"
  by code_simp

theorem response_is_contact_witness:
  "map_get 0 (lastContact (onHeartbeatResult MemStore_Save (env_of (71 * second)) slow_answer removing)) ''b'' = 70 * second"
  using response_is_contact [of removing slow_answer MemStore_Save "env_of (71 * second)"] removing_leads
  by (simp add: slow_answer_def bare_def Let_def)

text \<open>
  The leader's view is complete: sorted by ID, it holds exactly one row for each
  voter, labelled a voter, with the leader itself alive as of now and every other voter
  classified from its last contact, and one row for each tracked candidate, none of
  them labelled a voter; it carries the leader's term and membership and says it is
  authoritative.
\<close>

theorem leader_view_rows:
  "let v = leaderView m now; rows = cv_Peers v in
   sorted (map (\<lambda>p. node_ID (pv_Node p)) rows) \<and>
   mset (filter (\<lambda>p. pv_Member p = MemberVoter) rows) = mset (map (leaderVoterRow m now) (mb_Voters (membership m))) \<and>
   mset (map pv_Node (filter (\<lambda>p. pv_Member p \<noteq> MemberVoter) rows)) =
     (if discoveryMode m then mset (map (cd_node \<circ> snd) (candidates m)) else {#}) \<and>
   cv_Authoritative v \<and> cv_Term v = currentTerm m \<and> cv_Membership v = membership m \<and>
   cv_LeaderID v = node_ID (self m)"
proof -
  let ?A = "map (leaderVoterRow m now) (mb_Voters (membership m))" and ?B = "candidateRows m now"
  have rows: "cv_Peers (leaderView m now) = SortPeers (?A @ ?B)" by (simp add: leaderView_def)
  have sel: "mset (filter P (SortPeers (?A @ ?B))) = mset (filter P ?A @ filter P ?B)" for P by simp
  have node_sel: "mset (map pv_Node (filter P (SortPeers (?A @ ?B)))) = mset (map pv_Node (filter P ?A @ filter P ?B))" for P
    by simp
  have A: "filter (\<lambda>p. pv_Member p = MemberVoter) ?A = ?A" "filter (\<lambda>p. pv_Member p \<noteq> MemberVoter) ?A = []"
    by (auto simp: filter_id_conv filter_empty_conv leaderVoterRow_def Let_def)
  have B: "filter (\<lambda>p. pv_Member p = MemberVoter) ?B = []" "filter (\<lambda>p. pv_Member p \<noteq> MemberVoter) ?B = ?B"
    by (auto simp: candidateRows_def filter_empty_conv filter_id_conv split: if_splits)
  have nodes: "mset (map pv_Node ?B) = (if discoveryMode m then mset (map (cd_node \<circ> snd) (candidates m)) else {#})"
  proof -
    have "map pv_Node ?B = (if discoveryMode m then map (cd_node \<circ> snd) (candidates m) else [])"
      by (auto simp: candidateRows_def)
    then show ?thesis by simp
  qed
  have "sorted (map (\<lambda>p. node_ID (pv_Node p)) (SortPeers (?A @ ?B)))" by (simp add: SortPeers_def)
  then show ?thesis
    unfolding Let_def rows sel node_sel A B append_Nil append_Nil2 nodes by (simp add: leaderView_def)
qed

definition cache_in_use :: "'st Manager \<Rightarrow> time \<Rightarrow> bool" where
  "cache_in_use m now \<longleftrightarrow>
     (case cachedView m of None \<Rightarrow> False
      | Some cv \<Rightarrow> leaderID m \<noteq> [] \<and> cv_LeaderID cv = leaderID m
          \<and> time_Sub now (cachedViewAt m) < cfg_ViewFreshFor (cfg m))"

text \<open>
  A view that is not the leader's own is authoritative only while it can be: a
  non-leader's view says so exactly when its cached view does and is in use, that is
  when the cached view names the leader this node follows and was received less than
  \<open>ViewFreshFor\<close> ago; its own identity, role, term and membership are always its own.
\<close>

theorem follower_view_honest:
  "let v = followerView m now in
   (cv_Authoritative v \<longleftrightarrow> cache_in_use m now \<and> cv_Authoritative (the (cachedView m))) \<and>
   cv_Self v = node_ID (self m) \<and> cv_Role v = role m \<and> cv_Term v = currentTerm m \<and>
   cv_Membership v = membership m \<and> cv_LeaderID v = leaderID m \<and>
   cv_Source v = (if cache_in_use m now then cv_Source (the (cachedView m)) else node_ID (self m))"
  by (auto simp: followerView_def cache_in_use_def localView_def copyView_def Let_def split: option.split)

end
