(* ===== verification/Go_Time.thy ===== *)
theory Go_Time
  imports Warden_Prelude
begin

text \<open>
  The part of Go's package \<open>time\<close> that the sources format and compute with: civil
  dates in the proleptic Gregorian calendar, clock fields, \<open>Truncate\<close>,
  \<open>Duration.String\<close> and the RFC 3339 layout, followed by the renderers of
  \<^verbatim>\<open>pkg/core/format.go\<close>. A day number counts days since 1 January of year 1, the day
  of Go's zero time. The lemmas show the calendar conversion to be a bijection
  between day numbers and valid dates.
\<close>

subsection \<open>The calendar\<close>

definition leap :: "int \<Rightarrow> bool" where
  "leap y \<longleftrightarrow> y mod 4 = 0 \<and> (y mod 100 \<noteq> 0 \<or> y mod 400 = 0)"

definition days_before_year :: "int \<Rightarrow> int" where
  "days_before_year y = 365 * (y - 1) + (y - 1) div 4 - (y - 1) div 100 + (y - 1) div 400"

definition month_lengths :: "int \<Rightarrow> int list" where
  "month_lengths y = [31, if leap y then 29 else 28, 31, 30, 31, 30, 31, 31, 30, 31, 30, 31]"

text \<open>The month and day of a day of the year, by walking over the months.\<close>

fun month_walk :: "int \<Rightarrow> int list \<Rightarrow> int \<Rightarrow> int \<times> int" where
  "month_walk m [] d = (m, d + 1)"
| "month_walk m (l # ls) d = (if d < l then (m, d + 1) else month_walk (m + 1) ls (d - l))"

definition year_of_day :: "int \<Rightarrow> int \<times> int" where
  "year_of_day d =
     (let n400 = d div 146097; r = d mod 146097;
          n100 = min 3 (r div 36524); r = r - n100 * 36524;
          n4 = r div 1461; r = r mod 1461;
          n1 = min 3 (r div 365); r = r - n1 * 365
      in (400 * n400 + 100 * n100 + 4 * n4 + n1 + 1, r))"

definition civil :: "int \<Rightarrow> int \<times> int \<times> int" where
  "civil d = (let (y, yd) = year_of_day d; (m, md) = month_walk 1 (month_lengths y) yd in (y, m, md))"

definition day_number :: "int \<Rightarrow> int \<Rightarrow> int \<Rightarrow> int" where
  "day_number y m d = days_before_year y + sum_list (take (nat (m - 1)) (month_lengths y)) + (d - 1)"

definition days_in_month :: "int \<Rightarrow> int \<Rightarrow> int" where
  "days_in_month y m = month_lengths y ! nat (m - 1)"

definition valid_date :: "int \<Rightarrow> int \<Rightarrow> int \<Rightarrow> bool" where
  "valid_date y m d \<longleftrightarrow> 1 \<le> m \<and> m \<le> 12 \<and> 1 \<le> d \<and> d \<le> days_in_month y m"

lemma length_month_lengths [simp]: "length (month_lengths y) = 12"
  by (simp add: month_lengths_def)

lemma sum_month_lengths: "sum_list (month_lengths y) = (if leap y then 366 else 365)"
  by (simp add: month_lengths_def)

lemma year_of_day_correct:
  assumes "year_of_day d = (y, yd)"
  shows "days_before_year y + yd = d" and "0 \<le> yd" and "yd < (if leap y then 366 else 365)"
proof -
  define n r where "n = d div 146097" and "r = d mod 146097"
  define b s where "b = min 3 (r div 36524)" and "s = r - b * 36524"
  define c u where "c = s div 1461" and "u = s mod 1461"
  define e where "e = min 3 (u div 365)"
  have y: "y = 400 * n + 100 * b + 4 * c + e + 1" and yd: "yd = u - e * 365"
    using assms unfolding year_of_day_def Let_def n_def r_def b_def s_def c_def u_def e_def by auto
  have d: "d = 146097 * n + r" "0 \<le> r" "r < 146097" by (auto simp: n_def r_def)
  have b: "0 \<le> b" "b \<le> 3" "36524 * b \<le> r" "r < 36524 * b + 36524 \<or> b = 3"
    using d(2) by (auto simp: b_def min_def)
  have s: "0 \<le> s" "s \<le> 36524" "s = 36524 \<longrightarrow> b = 3" using b d by (auto simp: s_def)
  have u: "s = 1461 * c + u" "0 \<le> u" "u < 1461" by (simp_all add: c_def u_def)
  have c: "0 \<le> c" "c \<le> 24" using s(1,2) u by linarith+
  have e: "0 \<le> e" "e \<le> 3" "365 * e \<le> u" "u < 365 * e + 365 \<or> e = 3"
    using u(2) by (auto simp: e_def min_def)
  have y1: "y - 1 = 400 * n + 100 * b + 4 * c + e" by (simp add: y)
  have d4: "(y - 1) div 4 = 100 * n + 25 * b + c" using y1 e by linarith
  have d100: "(y - 1) div 100 = 4 * n + b" using y1 e c by linarith
  have d400: "(y - 1) div 400 = n" using y1 e c b by linarith
  show "days_before_year y + yd = d"
    unfolding days_before_year_def d4 d100 d400 unfolding y1 using d u yd s_def by simp
  show "0 \<le> yd" using e yd by simp
  show "yd < (if leap y then 366 else 365)"
  proof (cases "e = 3 \<and> u = 1460")
    case False
    then show ?thesis using e u yd by auto
  next
    case True
    have y': "y = 100 * (4 * n + b) + 4 * (c + 1)" using y True by simp
    then have "y = 4 * (25 * (4 * n + b) + (c + 1))" by simp
    then have "4 dvd y" by (rule dvdI)
    then have "y mod 4 = 0" by (simp add: mod_eq_0_iff_dvd)
    moreover have "y mod 100 \<noteq> 0 \<or> y mod 400 = 0"
    proof (cases "c = 24")
      case c24: True
      then have "b = 3" using s(2,3) u(1) True by linarith
      then have "y = 400 * (n + 1)" using y' c24 by simp
      then show ?thesis by simp
    next
      case False
      with c have "0 \<le> 4 * (c + 1)" "4 * (c + 1) < 100" "4 * (c + 1) \<noteq> 0" by simp_all
      then have "y mod 100 = 4 * (c + 1)" unfolding y' mod_mult_self4 by (intro mod_pos_pos_trivial)
      then show ?thesis using \<open>4 * (c + 1) \<noteq> 0\<close> by simp
    qed
    ultimately show ?thesis using True yd by (simp add: leap_def)
  qed
qed

lemma month_walk_correct:
  assumes "month_walk m ls d = (m', md)" and "0 \<le> d" and "d < sum_list ls" and "\<forall>l \<in> set ls. 0 \<le> l"
  shows "m \<le> m'" and "m' < m + int (length ls)" and "1 \<le> md" and "md \<le> ls ! nat (m' - m)"
    and "d = sum_list (take (nat (m' - m)) ls) + (md - 1)"
proof -
  have "m \<le> m' \<and> m' < m + int (length ls) \<and> 1 \<le> md \<and> md \<le> ls ! nat (m' - m)
      \<and> d = sum_list (take (nat (m' - m)) ls) + (md - 1)"
    using assms
  proof (induction m ls d rule: month_walk.induct)
    case (2 m l ls d)
    show ?case
    proof (cases "d < l")
      case False
      with 2 have IH: "m + 1 \<le> m' \<and> m' < m + 1 + int (length ls) \<and> 1 \<le> md
          \<and> md \<le> ls ! nat (m' - (m + 1)) \<and> d - l = sum_list (take (nat (m' - (m + 1))) ls) + (md - 1)"
        by simp
      then have "nat (m' - m) = Suc (nat (m' - (m + 1)))" by linarith
      with IH show ?thesis by simp
    qed (use 2 in auto)
  qed simp
  then show "m \<le> m'" "m' < m + int (length ls)" "1 \<le> md" "md \<le> ls ! nat (m' - m)"
    "d = sum_list (take (nat (m' - m)) ls) + (md - 1)" by auto
qed

lemma civil_valid: "civil d = (y, m, md) \<Longrightarrow> valid_date y m md"
  and day_number_civil: "civil d = (y, m, md) \<Longrightarrow> day_number y m md = d"
proof -
  assume c: "civil d = (y, m, md)"
  obtain yd where y: "year_of_day d = (y, yd)" and w: "month_walk 1 (month_lengths y) yd = (m, md)"
    using c by (auto simp: civil_def split: prod.splits)
  note yd = year_of_day_correct [OF y]
  have "\<forall>l \<in> set (month_lengths y). 0 \<le> l" by (auto simp: month_lengths_def)
  note m = month_walk_correct [OF w yd(2) yd(3)[folded sum_month_lengths] this]
  show "valid_date y m md" using m by (simp add: valid_date_def days_in_month_def)
  show "day_number y m md = d" using m(5) yd(1) by (simp add: day_number_def)
qed

lemma days_before_year_Suc: "days_before_year (y + 1) = days_before_year y + (if leap y then 366 else 365)"
proof -
  have *: "(x::int) div k = (x - 1) div k + (if x mod k = 0 then 1 else 0)" if "0 < k" for x k
  proof -
    have x: "x = k * (x div k) + x mod k" "0 \<le> x mod k" "x mod k < k" using that by auto
    show ?thesis
    proof (cases "x mod k = 0")
      case True
      then have "x - 1 = k * (x div k - 1) + (k - 1)" using x(1) by (simp add: algebra_simps)
      then have "(x - 1) div k = x div k - 1" by (rule int_div_pos_eq) (use that in auto)
      with True show ?thesis by simp
    next
      case False
      have "x - 1 = k * (x div k) + (x mod k - 1)" using x(1) by simp
      then have "(x - 1) div k = x div k" by (rule int_div_pos_eq) (use False x in auto)
      with False show ?thesis by simp
    qed
  qed
  have step: "365 * y + A' - B' + C' = 365 * (y - 1) + A - B + C + (if p \<and> (\<not> q \<or> r) then 366 else 365)"
    if "A' = A + (if p then 1 else 0)" "B' = B + (if q then 1 else 0)" "C' = C + (if r then 1 else 0)"
      "q \<longrightarrow> p" "r \<longrightarrow> q" for A A' B B' C C' :: int and p q r
    using that by (cases p; cases q; cases r) auto
  show ?thesis
    unfolding days_before_year_def leap_def add_diff_cancel_right'
  proof (rule step)
    show "y mod 100 = 0 \<longrightarrow> y mod 4 = 0" using dvd_trans [of 4 100 y] by (simp add: mod_eq_0_iff_dvd)
    show "y mod 400 = 0 \<longrightarrow> y mod 100 = 0" using dvd_trans [of 100 400 y] by (simp add: mod_eq_0_iff_dvd)
  qed (rule *, simp)+
qed

lemma days_before_year_gap: "y < y' \<Longrightarrow> days_before_year y + (if leap y then 366 else 365) \<le> days_before_year y'"
proof (induction y' rule: int_gr_induct)
  case base
  then show ?case by (simp add: days_before_year_Suc)
next
  case (step i)
  then show ?case using days_before_year_Suc [of i] by (auto split: if_splits)
qed

lemma year_unique:
  assumes "days_before_year y + d = days_before_year y' + d'"
    and "0 \<le> d" "d < (if leap y then 366 else 365)" "0 \<le> d'" "d' < (if leap y' then 366 else 365)"
  shows "y = y'"
  using days_before_year_gap [of y y'] days_before_year_gap [of y' y] assms
  by (cases y y' rule: linorder_cases) auto

lemma month_walk_take:
  assumes "k < length ls" and "1 \<le> md" and "md \<le> ls ! k" and "\<forall>l \<in> set ls. 0 \<le> l"
  shows "month_walk m ls (sum_list (take k ls) + (md - 1)) = (m + int k, md)"
  using assms
proof (induction ls arbitrary: k m)
  case (Cons l ls)
  show ?case
  proof (cases k)
    case (Suc k')
    have "0 \<le> sum_list (take k' ls)"
      using Cons.prems(4) by (intro sum_list_nonneg) (auto dest: in_set_takeD)
    with Cons Suc show ?thesis by (simp add: algebra_simps)
  qed (use Cons in simp)
qed simp

lemma sum_take_le:
  assumes "k < length ls" and "\<forall>l \<in> set ls. 0 \<le> (l::int)"
  shows "sum_list (take k ls) + ls ! k \<le> sum_list ls"
proof -
  have "sum_list ls = sum_list (take k ls @ ls ! k # drop (Suc k) ls)"
    using assms(1) by (simp add: id_take_nth_drop [symmetric])
  moreover have "0 \<le> sum_list (drop (Suc k) ls)"
    using assms(2) by (intro sum_list_nonneg) (auto dest: in_set_dropD)
  ultimately show ?thesis by simp
qed

lemma civil_day_number:
  assumes v: "valid_date y m md"
  shows "civil (day_number y m md) = (y, m, md)"
proof -
  let ?ls = "month_lengths y" and ?k = "nat (m - 1)"
  define yd where "yd = sum_list (take ?k ?ls) + (md - 1)"
  have k: "?k < length ?ls" "1 \<le> md" "md \<le> ?ls ! ?k"
    using v by (auto simp: valid_date_def days_in_month_def)
  have pos: "\<forall>l \<in> set ?ls. 0 \<le> l" by (auto simp: month_lengths_def)
  have "0 \<le> sum_list (take ?k ?ls)"
    using pos by (intro sum_list_nonneg) (auto dest: in_set_takeD)
  with k(2) have yd: "0 \<le> yd" by (simp add: yd_def)
  have yd': "yd < (if leap y then 366 else 365)"
    using sum_take_le [OF k(1) pos] k(2,3) by (simp add: yd_def sum_month_lengths [symmetric])
  obtain y' r where y': "year_of_day (day_number y m md) = (y', r)" by fastforce
  note c = year_of_day_correct [OF y']
  have "day_number y m md = days_before_year y + yd" by (simp add: day_number_def yd_def)
  with c have "days_before_year y + yd = days_before_year y' + r" by simp
  from year_unique [OF this yd yd' c(2,3)] this have "y' = y" "r = yd" by auto
  moreover have "1 + int ?k = m" using v by (simp add: valid_date_def)
  ultimately show ?thesis
    using month_walk_take [OF k pos, of 1] y' by (simp add: civil_def yd_def)
qed

subsection \<open>Clock fields and rounding\<close>

definition daySeconds :: int where
  "daySeconds = 86400"

definition time_day :: "time \<Rightarrow> int" where
  "time_day t = t div second div daySeconds"

definition time_Date :: "time \<Rightarrow> int \<times> int \<times> int" where
  "time_Date t = civil (time_day t)"

definition time_Year :: "time \<Rightarrow> int" where
  "time_Year t = fst (time_Date t)"

definition time_Day :: "time \<Rightarrow> int" where
  "time_Day t = snd (snd (time_Date t))"

definition time_Hour :: "time \<Rightarrow> int" where
  "time_Hour t = t div second mod daySeconds div 3600"

definition time_Minute :: "time \<Rightarrow> int" where
  "time_Minute t = t div second mod 3600 div 60"

definition time_Second :: "time \<Rightarrow> int" where
  "time_Second t = t div second mod 60"

text \<open>1 January of year 1 was a Monday; Sunday is \<open>0\<close>.\<close>

definition time_Weekday :: "time \<Rightarrow> int" where
  "time_Weekday t = (time_day t + 1) mod 7"

definition time_Truncate :: "duration \<Rightarrow> time \<Rightarrow> time" where
  "time_Truncate d t = (if d \<le> 0 then t else t - t mod d)"

subsection \<open>Printing\<close>

definition pad0 :: "nat \<Rightarrow> int \<Rightarrow> string" where
  "pad0 w i =
     (let s = show_nat (nat \<bar>i\<bar>)
      in (if i < 0 then ''-'' else []) @ replicate (w - length s) (CHR ''0'') @ s)"

definition format_RFC3339_UTC :: "time \<Rightarrow> string" where
  "format_RFC3339_UTC t =
     (let (y, m, d) = time_Date t
      in pad0 4 y @ ''-'' @ pad0 2 m @ ''-'' @ pad0 2 d @ ''T'' @ pad0 2 (time_Hour t) @ '':''
         @ pad0 2 (time_Minute t) @ '':'' @ pad0 2 (time_Second t) @ ''Z'')"

text \<open>The last \<open>p\<close> digits of \<open>v\<close> as a decimal fraction, trailing zeros (and then the point) dropped.\<close>

definition fmtFrac :: "int \<Rightarrow> nat \<Rightarrow> string" where
  "fmtFrac v p =
     (let ds = rev (dropWhile (\<lambda>c. c = CHR ''0'') (rev (pad0 p (v mod 10 ^ p))))
      in if ds = [] then [] else CHR ''.'' # ds)"

definition duration_String :: "duration \<Rightarrow> string" where
  "duration_String d =
     (let u = \<bar>d\<bar>; sign = (if d < 0 then ''-'' else [])
      in if u < second then
           (if u = 0 then ''0s''
            else if u < 1000 then sign @ show_int u @ ''ns''
            else if u < millisecond then sign @ show_int (u div 1000) @ fmtFrac u 3 @ [CHR 0xC2, CHR 0xB5, CHR ''s'']
            else sign @ show_int (u div millisecond) @ fmtFrac u 6 @ ''ms'')
         else let secs = u div second; mins = secs div 60; hours = mins div 60
              in sign @ (if 0 < hours then show_int hours @ ''h'' else [])
                 @ (if 0 < mins then show_int (mins mod 60) @ ''m'' else [])
                 @ show_int (secs mod 60) @ fmtFrac u 9 @ ''s'')"

definition FormatTimeOrNever :: "time \<Rightarrow> string" where
  "FormatTimeOrNever t = (if IsZero t then ''never'' else format_RFC3339_UTC t)"

lemma format_examples:
  "FormatTimeOrNever 0 = ''never''"
  "FormatTimeOrNever (63920243045 * second) = ''2026-07-21T15:04:05Z''"
  "duration_String (90 * minute + 1500 * millisecond) = ''1h30m1.5s''"
  "duration_String (- 1500) = [CHR ''-'', CHR ''1'', CHR ''.'', CHR ''5'', CHR 0xC2, CHR 0xB5, CHR ''s'']"
  by (simp_all add: FormatTimeOrNever_def IsZero_def format_RFC3339_UTC_def time_Date_def time_day_def
      daySeconds_def civil_def year_of_day_def month_lengths_def leap_def Let_def pad0_def time_Hour_def
      time_Minute_def time_Second_def duration_String_def fmtFrac_def show_int_def show_nat.simps digit_char_def)

end
