(* ===== verification/Watchdog.thy ===== *)
theory Watchdog
  imports Warden_Types Go_Time
begin

text \<open>
  The leader-only incident engine: \<^verbatim>\<open>watchdog/watchdog.go\<close>. The definitions follow
  the file: configuration and defaults, the incident ring, the loop-owned
  decision state, the gates, \<open>evaluate\<close> with its per-peer body, delivery
  bookkeeping, and the turns of \<open>Run\<close>. Logging is left out. A view is what
  \<open>src.View()\<close> returned, \<open>now\<close> what \<open>clock.Now()\<close> returned; delivery goroutines
  are the list of incidents whose result the loop has not received yet.
\<close>

subsection \<open>Configuration\<close>

record Watchdog_Config =
  wc_Cooldown :: duration
  wc_NotifyRecovery :: bool
  wc_MaxIncidents :: int
  wc_CheckInterval :: duration

definition New_config :: "Watchdog_Config \<Rightarrow> Watchdog_Config" where
  "New_config cfg =
     (let cfg = (if wc_Cooldown cfg \<le> 0 then cfg\<lparr>wc_Cooldown := 10 * minute\<rparr> else cfg);
          cfg = (if wc_MaxIncidents cfg \<le> 0 then cfg\<lparr>wc_MaxIncidents := 100\<rparr> else cfg);
          cfg = (if wc_CheckInterval cfg \<le> 0 then cfg\<lparr>wc_CheckInterval := second\<rparr> else cfg)
      in cfg)"

subsection \<open>The incident ring\<close>

record incidentRing =
  rg_max :: int
  rg_buf :: "Incident list"

definition newIncidentRing :: "int \<Rightarrow> incidentRing" where
  "newIncidentRing mx = \<lparr>rg_max = mx, rg_buf = []\<rparr>"

definition ring_append :: "Incident \<Rightarrow> incidentRing \<Rightarrow> incidentRing" where
  "ring_append inc r =
     (let r = r\<lparr>rg_buf := rg_buf r @ [inc]\<rparr>;
          overflow = int (length (rg_buf r)) - rg_max r
      in if 0 < overflow then r\<lparr>rg_buf := drop (nat overflow) (rg_buf r)\<rparr> else r)"

definition ring_snapshot :: "incidentRing \<Rightarrow> Incident list" where
  "ring_snapshot r = (let n = length (rg_buf r) in map (\<lambda>i. rg_buf r ! (n - 1 - i)) [0..<n])"

subsection \<open>Loop-owned state\<close>

type_synonym cooldownKey = "NodeID \<times> IncidentType"

record episode =
  ep_peer :: Node
  ep_openedAt :: time
  ep_lastSeen :: time
  ep_term :: Term

record loopState =
  ls_open :: "(NodeID \<times> episode) list"
  ls_cooldowns :: "(cooldownKey \<times> time) list"
  ls_pending :: "Incident list"
  ls_inFlight :: "(string \<times> bool) list"
  ls_wasLeader :: bool
  ls_quorumLost :: bool

definition newLoopState :: loopState where
  "newLoopState = \<lparr>ls_open = [], ls_cooldowns = [], ls_pending = [], ls_inFlight = [],
     ls_wasLeader = False, ls_quorumLost = False\<rparr>"

record notifyResult =
  nr_inc :: Incident
  nr_failed :: bool

subsection \<open>The gates\<close>

definition isActingLeader :: "ClusterView \<Rightarrow> bool" where
  "isActingLeader v \<longleftrightarrow> cv_Role v = RoleLeader \<and> cv_Authoritative v \<and> cv_Source v = cv_Self v"

definition countsAsVoter :: "MemberKind \<Rightarrow> bool" where
  "countsAsVoter m \<longleftrightarrow> m = [] \<or> m = MemberVoter"

fun voterAlive :: "ClusterView \<Rightarrow> PeerView list \<Rightarrow> nat \<Rightarrow> nat" where
  "voterAlive v [] alive = alive"
| "voterAlive v (p # ps) alive =
     (if node_ID (pv_Node p) = cv_Self v then voterAlive v ps alive
      else if \<not> countsAsVoter (pv_Member p) then voterAlive v ps alive
      else if \<not> HasVoter (cv_Membership v) (node_ID (pv_Node p)) then voterAlive v ps alive
      else if pv_Status p = StatusAlive then voterAlive v ps (alive + 1)
      else voterAlive v ps alive)"

fun peerAlive :: "ClusterView \<Rightarrow> PeerView list \<Rightarrow> bool \<times> nat \<Rightarrow> bool \<times> nat" where
  "peerAlive v [] (selfListed, alive) = (selfListed, alive)"
| "peerAlive v (p # ps) (selfListed, alive) =
     (if node_ID (pv_Node p) = cv_Self v then peerAlive v ps (True, alive + 1)
      else if pv_Status p = StatusAlive then peerAlive v ps (selfListed, alive + 1)
      else peerAlive v ps (selfListed, alive))"

definition liveQuorum :: "ClusterView \<Rightarrow> nat \<times> nat" where
  "liveQuorum v =
     (if 0 < length (mb_Voters (cv_Membership v)) then
        (length (mb_Voters (cv_Membership v)),
         voterAlive v (cv_Peers v) (if HasVoter (cv_Membership v) (cv_Self v) then 1 else 0))
      else let clusterSize = length (cv_Peers v);
               (selfListed, alive) = peerAlive v (cv_Peers v) (False, 0)
           in if \<not> selfListed then (clusterSize + 1, alive + 1) else (clusterSize, alive))"

subsection \<open>Incidents and the delivery queue\<close>

definition buildDeadIncident :: "ClusterView \<Rightarrow> PeerView \<Rightarrow> time \<Rightarrow> Incident" where
  "buildDeadIncident v p now =
     \<lparr>inc_ID = NewIncidentID IncidentPeerDead (node_ID (pv_Node p)) now,
      inc_Type = IncidentPeerDead, inc_Peer = pv_Node p, inc_Term = cv_Term v,
      inc_ReportedBy = cv_Self v, inc_DetectedAt = now, inc_LastSeen = pv_LastSeen p,
      inc_Message = ''peer '' @ node_ID (pv_Node p) @ '' ('' @ node_Addr (pv_Node p)
        @ '') declared dead by leader '' @ cv_Self v @ '' (term '' @ show_nat (unat (cv_Term v))
        @ ''); last seen '' @ FormatTimeOrNever (pv_LastSeen p)\<rparr>"

definition buildRecoveryIncident :: "ClusterView \<Rightarrow> PeerView \<Rightarrow> episode \<Rightarrow> time \<Rightarrow> Incident" where
  "buildRecoveryIncident v p ep now =
     (let outage = time_Sub now (ep_openedAt ep)
      in \<lparr>inc_ID = NewIncidentID IncidentPeerRecovered (node_ID (pv_Node p)) now,
          inc_Type = IncidentPeerRecovered, inc_Peer = pv_Node p, inc_Term = cv_Term v,
          inc_ReportedBy = cv_Self v, inc_DetectedAt = now, inc_LastSeen = pv_LastSeen p,
          inc_Message = ''peer '' @ node_ID (pv_Node p) @ '' ('' @ node_Addr (pv_Node p)
            @ '') recovered (reported alive) by leader '' @ cv_Self v @ '' (term ''
            @ show_nat (unat (cv_Term v)) @ ''); outage lasted '' @ duration_String outage
            @ '' (dead detected '' @ FormatTimeOrNever (ep_openedAt ep) @ '')''\<rparr>)"

definition queueOrSuppress :: "Watchdog_Config \<Rightarrow> Incident \<Rightarrow> time \<Rightarrow> loopState \<Rightarrow> loopState" where
  "queueOrSuppress cfg inc now st =
     (let key = (node_ID (inc_Peer inc), inc_Type inc)
      in case map_of (ls_cooldowns st) key of
           Some lst \<Rightarrow> if time_Sub now lst < wc_Cooldown cfg then st
                       else st\<lparr>ls_pending := ls_pending st @ [inc]\<rparr>
         | None \<Rightarrow> st\<lparr>ls_pending := ls_pending st @ [inc]\<rparr>)"

text \<open>The range loop of \<open>dispatchPending\<close>: the new in-flight map and the goroutines spawned.\<close>

fun dispatch_loop :: "Incident list \<Rightarrow> (string \<times> bool) list \<Rightarrow> (string \<times> bool) list \<times> Incident list" where
  "dispatch_loop [] fl = (fl, [])"
| "dispatch_loop (inc # incs) fl =
     (if map_get False fl (inc_ID inc) then dispatch_loop incs fl
      else let (fl', sp) = dispatch_loop incs (map_put (inc_ID inc) True fl) in (fl', inc # sp))"

definition dispatchPending :: "loopState \<Rightarrow> loopState \<times> Incident list" where
  "dispatchPending st =
     (let (fl, sp) = dispatch_loop (ls_pending st) (ls_inFlight st) in (st\<lparr>ls_inFlight := fl\<rparr>, sp))"

fun removePending :: "Incident list \<Rightarrow> string \<Rightarrow> Incident list" where
  "removePending [] i = []"
| "removePending (inc # incs) i = (if inc_ID inc = i then incs else inc # removePending incs i)"

definition handleResult :: "notifyResult \<Rightarrow> time \<Rightarrow> loopState \<Rightarrow> loopState" where
  "handleResult r now st =
     (let st = st\<lparr>ls_inFlight := map_del (inc_ID (nr_inc r)) (ls_inFlight st)\<rparr>
      in if nr_failed r then st
         else st\<lparr>ls_cooldowns := map_put (node_ID (inc_Peer (nr_inc r)), inc_Type (nr_inc r)) now
                                   (ls_cooldowns st),
                 ls_pending := removePending (ls_pending st) (inc_ID (nr_inc r))\<rparr>)"

subsection \<open>Evaluation\<close>

definition evalPeer ::
  "Watchdog_Config \<Rightarrow> ClusterView \<Rightarrow> time \<Rightarrow> PeerView \<Rightarrow> loopState \<times> incidentRing \<Rightarrow> loopState \<times> incidentRing" where
  "evalPeer cfg v now p sr =
     (let (st, ring) = sr; i = node_ID (pv_Node p)
      in if i = cv_Self v then (st, ring)
         else if \<not> countsAsVoter (pv_Member p) then (st, ring)
         else if pv_Status p = StatusDead then
           (case map_of (ls_open st) i of
              Some _ \<Rightarrow> (st, ring)
            | None \<Rightarrow>
                let st = st\<lparr>ls_open := map_put i \<lparr>ep_peer = pv_Node p, ep_openedAt = now,
                             ep_lastSeen = pv_LastSeen p, ep_term = cv_Term v\<rparr> (ls_open st)\<rparr>;
                    inc = buildDeadIncident v p now
                in (queueOrSuppress cfg inc now st, ring_append inc ring))
         else if pv_Status p = StatusAlive then
           (case map_of (ls_open st) i of
              None \<Rightarrow> (st, ring)
            | Some ep \<Rightarrow>
                let st = st\<lparr>ls_open := map_del i (ls_open st)\<rparr>;
                    inc = buildRecoveryIncident v p ep now
                in (if wc_NotifyRecovery cfg then queueOrSuppress cfg inc now st else st,
                    ring_append inc ring))
         else (st, ring))"

definition evaluate ::
  "Watchdog_Config \<Rightarrow> ClusterView \<Rightarrow> time \<Rightarrow> loopState \<times> incidentRing \<Rightarrow> (loopState \<times> incidentRing) \<times> Incident list" where
  "evaluate cfg v now sr =
     (let (st, ring) = sr
      in if \<not> isActingLeader v then ((st\<lparr>ls_wasLeader := False\<rparr>, ring), [])
         else let st = (if \<not> ls_wasLeader st
                        then st\<lparr>ls_wasLeader := True, ls_open := [], ls_pending := []\<rparr> else st);
                  (clusterSize, alive) = liveQuorum v
              in if alive < Quorum clusterSize then ((st\<lparr>ls_quorumLost := True\<rparr>, ring), [])
                 else let st = (if ls_quorumLost st then st\<lparr>ls_quorumLost := False\<rparr> else st);
                          (st, ring) = fold (evalPeer cfg v now) (cv_Peers v) (st, ring);
                          (st, sp) = dispatchPending st
                      in ((st, ring), sp))"

subsection \<open>The loop of \<open>Run\<close>\<close>

record watchdog =
  wd_st :: loopState
  wd_ring :: incidentRing
  wd_running :: "Incident list"

text \<open>
  What one \<open>select\<close> of the loop receives: a view change, the closing of the
  subscription, a tick, or the result of the delivery at a position of
  \<open>wd_running\<close>. The view and the clock are read by the code during the turn.
\<close>

datatype wd_input =
    WdView ClusterView time
  | WdClosed
  | WdTick ClusterView time
  | WdResult nat bool time

definition wd_evaluate :: "Watchdog_Config \<Rightarrow> ClusterView \<Rightarrow> time \<Rightarrow> watchdog \<Rightarrow> watchdog" where
  "wd_evaluate cfg v now w =
     (let ((st, ring), sp) = evaluate cfg v now (wd_st w, wd_ring w)
      in \<lparr>wd_st = st, wd_ring = ring, wd_running = wd_running w @ sp\<rparr>)"

fun wd_turn :: "Watchdog_Config \<Rightarrow> wd_input \<Rightarrow> watchdog \<Rightarrow> watchdog" where
  "wd_turn cfg (WdView v now) w = wd_evaluate cfg v now w"
| "wd_turn cfg WdClosed w = w"
| "wd_turn cfg (WdTick v now) w = wd_evaluate cfg v now w"
| "wd_turn cfg (WdResult i failed now) w =
     (if i < length (wd_running w)
      then w\<lparr>wd_st := handleResult \<lparr>nr_inc = wd_running w ! i, nr_failed = failed\<rparr> now (wd_st w),
             wd_running := take i (wd_running w) @ drop (Suc i) (wd_running w)\<rparr>
      else w)"

definition New :: "Watchdog_Config \<Rightarrow> watchdog" where
  "New cfg = \<lparr>wd_st = newLoopState, wd_ring = newIncidentRing (wc_MaxIncidents (New_config cfg)),
              wd_running = []\<rparr>"

text \<open>\<open>Run\<close> evaluates once at startup and then takes one turn per received input.\<close>

definition Watchdog_Run :: "Watchdog_Config \<Rightarrow> ClusterView \<Rightarrow> time \<Rightarrow> wd_input list \<Rightarrow> watchdog" where
  "Watchdog_Run cfg v0 t0 ins =
     fold (wd_turn (New_config cfg)) ins (wd_evaluate (New_config cfg) v0 t0 (New cfg))"

definition Incidents :: "watchdog \<Rightarrow> Incident list" where
  "Incidents w = ring_snapshot (wd_ring w)"

end
