(* ===== verification/Watchdog_Sound.thy ===== *)
theory Watchdog_Sound
  imports Watchdog Election_Membership Election_Demo
begin

text \<open>
  Properties of the incident engine. The abstract watchdog of the first part keeps
  an unbounded log and a map of open episodes and handles all peers of a view at
  once; the ring and the loop of the code refine it. Then come the delivery
  bookkeeping (one delivery per incident at a time, retries, cooldown) and the
  composition with the election manager, whose own live-majority test agrees with
  the watchdog's isolation guard.
\<close>

subsection \<open>The ring is the recent end of the log\<close>

definition logs :: "Incident list \<Rightarrow> incidentRing \<Rightarrow> bool" where
  "logs lg r \<longleftrightarrow> 0 < rg_max r \<and> rg_buf r = drop (length lg - nat (rg_max r)) lg"

lemma logs_new: "0 < mx \<Longrightarrow> logs [] (newIncidentRing mx)"
  by (simp add: logs_def newIncidentRing_def)

lemma logs_append: "logs lg r \<Longrightarrow> logs (lg @ [inc]) (ring_append inc r)"
  by (cases "length lg < nat (rg_max r)")
    (auto simp: logs_def ring_append_def Let_def drop_append nat_diff_distrib' Suc_diff_le)

lemma ring_append_max [simp]: "rg_max (ring_append inc r) = rg_max r"
  by (simp add: ring_append_def Let_def)

lemma ring_snapshot_rev: "ring_snapshot r = rev (rg_buf r)"
  by (rule nth_equalityI) (auto simp: ring_snapshot_def Let_def rev_nth)

lemma logs_snapshot: "logs lg r \<Longrightarrow> ring_snapshot r = take (nat (rg_max r)) (rev lg)"
  by (cases "nat (rg_max r) \<le> length lg") (simp_all add: logs_def ring_snapshot_rev rev_drop)

subsection \<open>The abstract watchdog\<close>

type_synonym episodes = "NodeID \<rightharpoonup> episode"

definition watched :: "ClusterView \<Rightarrow> PeerView \<Rightarrow> bool" where
  "watched v p \<longleftrightarrow> node_ID (pv_Node p) \<noteq> cv_Self v \<and> countsAsVoter (pv_Member p)"

definition dies :: "ClusterView \<Rightarrow> episodes \<Rightarrow> PeerView \<Rightarrow> bool" where
  "dies v opn p \<longleftrightarrow> watched v p \<and> pv_Status p = StatusDead \<and> opn (node_ID (pv_Node p)) = None"

definition revives :: "ClusterView \<Rightarrow> episodes \<Rightarrow> PeerView \<Rightarrow> bool" where
  "revives v opn p \<longleftrightarrow> watched v p \<and> pv_Status p = StatusAlive \<and> opn (node_ID (pv_Node p)) \<noteq> None"

definition peer_news :: "ClusterView \<Rightarrow> time \<Rightarrow> episodes \<Rightarrow> PeerView \<Rightarrow> Incident list" where
  "peer_news v now opn p =
     (if dies v opn p then [buildDeadIncident v p now]
      else if revives v opn p
      then [buildRecoveryIncident v p (the (opn (node_ID (pv_Node p)))) now]
      else [])"

definition news :: "ClusterView \<Rightarrow> time \<Rightarrow> episodes \<Rightarrow> PeerView list \<Rightarrow> Incident list" where
  "news v now opn ps = concat (map (peer_news v now opn) ps)"

definition open_episode :: "ClusterView \<Rightarrow> time \<Rightarrow> PeerView \<Rightarrow> episode" where
  "open_episode v now p = \<lparr>ep_peer = pv_Node p, ep_openedAt = now, ep_lastSeen = pv_LastSeen p, ep_term = cv_Term v\<rparr>"

definition episode_after :: "ClusterView \<Rightarrow> time \<Rightarrow> episodes \<Rightarrow> PeerView list \<Rightarrow> episodes" where
  "episode_after v now opn ps i =
     (case find (\<lambda>p. node_ID (pv_Node p) = i) ps of
        None \<Rightarrow> opn i
      | Some p \<Rightarrow> if dies v opn p then Some (open_episode v now p)
                  else if revives v opn p then None else opn i)"

record spec =
  sp_leads :: bool
  sp_open :: episodes
  sp_before :: "Incident list"
  sp_reign :: "Incident list"

abbreviation sp_log :: "spec \<Rightarrow> Incident list" where
  "sp_log s \<equiv> sp_before s @ sp_reign s"

definition sp_init :: spec where
  "sp_init = \<lparr>sp_leads = False, sp_open = (\<lambda>_. None), sp_before = [], sp_reign = []\<rparr>"

definition sp_gain :: "spec \<Rightarrow> spec" where
  "sp_gain s = (if sp_leads s then s
     else \<lparr>sp_leads = True, sp_open = (\<lambda>_. None), sp_before = sp_log s, sp_reign = []\<rparr>)"

abbreviation sees_quorum :: "ClusterView \<Rightarrow> bool" where
  "sees_quorum v \<equiv> Quorum (fst (liveQuorum v)) \<le> snd (liveQuorum v)"

definition sp_evaluate :: "ClusterView \<Rightarrow> time \<Rightarrow> spec \<Rightarrow> spec" where
  "sp_evaluate v now s =
     (if \<not> isActingLeader v then s\<lparr>sp_leads := False\<rparr>
      else let s = sp_gain s
           in if \<not> sees_quorum v then s
              else s\<lparr>sp_open := episode_after v now (sp_open s) (cv_Peers v),
                     sp_reign := sp_reign s @ news v now (sp_open s) (cv_Peers v)\<rparr>)"

fun sp_turn :: "wd_input \<Rightarrow> spec \<Rightarrow> spec" where
  "sp_turn (WdView v now) s = sp_evaluate v now s"
| "sp_turn (WdTick v now) s = sp_evaluate v now s"
| "sp_turn WdClosed s = s"
| "sp_turn (WdResult i failed now) s = s"

definition sp_Run :: "ClusterView \<Rightarrow> time \<Rightarrow> wd_input list \<Rightarrow> spec" where
  "sp_Run v0 t0 ins = fold sp_turn ins (sp_evaluate v0 t0 sp_init)"

fun input_view_ok :: "wd_input \<Rightarrow> bool" where
  "input_view_ok (WdView v now) = distinct (map (node_ID \<circ> pv_Node) (cv_Peers v))"
| "input_view_ok (WdTick v now) = distinct (map (node_ID \<circ> pv_Node) (cv_Peers v))"
| "input_view_ok _ = True"

subsection \<open>The loop refines it\<close>

lemma queueOrSuppress_frame [simp]:
  "ls_open (queueOrSuppress wc inc now st) = ls_open st"
  "ls_cooldowns (queueOrSuppress wc inc now st) = ls_cooldowns st"
  "ls_inFlight (queueOrSuppress wc inc now st) = ls_inFlight st"
  "ls_wasLeader (queueOrSuppress wc inc now st) = ls_wasLeader st"
  "ls_quorumLost (queueOrSuppress wc inc now st) = ls_quorumLost st"
  by (simp_all add: queueOrSuppress_def Let_def split: option.split)

lemma dispatchPending_frame [simp]:
  "ls_open (fst (dispatchPending st)) = ls_open st"
  "ls_cooldowns (fst (dispatchPending st)) = ls_cooldowns st"
  "ls_pending (fst (dispatchPending st)) = ls_pending st"
  "ls_wasLeader (fst (dispatchPending st)) = ls_wasLeader st"
  by (simp_all add: dispatchPending_def split: prod.split)

lemma evalPeer_open:
  assumes "evalPeer wc v now p (st, ring) = (st', ring')" and "logs lg ring"
  shows "ls_wasLeader st' = ls_wasLeader st"
    and "map_of (ls_open st') = episode_after v now (map_of (ls_open st)) [p]"
    and "logs (lg @ peer_news v now (map_of (ls_open st)) p) ring'"
    and "rg_max ring' = rg_max ring"
  using assms
  by (auto simp: evalPeer_def Let_def episode_after_def dies_def revives_def watched_def peer_news_def
      open_episode_def update_conv' delete_conv' logs_append fun_eq_iff
      split: if_splits option.splits)

lemma episode_after_local:
  assumes "opn i = opn' i"
  shows "episode_after v now opn ps i = episode_after v now opn' ps i"
proof (cases "find (\<lambda>p. node_ID (pv_Node p) = i) ps")
  case (Some q)
  then have "node_ID (pv_Node q) = i" by (metis (mono_tags) find_Some_iff)
  with Some assms show ?thesis by (simp add: episode_after_def dies_def revives_def)
qed (simp add: episode_after_def assms)

lemma episode_after_Cons:
  assumes "distinct (map (node_ID \<circ> pv_Node) (p # ps))"
  shows "episode_after v now opn (p # ps) = episode_after v now (episode_after v now opn [p]) ps"
proof
  fix i
  have "find (\<lambda>q. node_ID (pv_Node q) = node_ID (pv_Node p)) ps = None"
    using assms by (auto simp: find_None_iff image_iff)
  show "episode_after v now opn (p # ps) i = episode_after v now (episode_after v now opn [p]) ps i"
  proof (cases "i = node_ID (pv_Node p)")
    case True
    with \<open>find _ ps = None\<close> show ?thesis by (simp add: episode_after_def)
  next
    case False
    then have "episode_after v now opn [p] i = opn i" by (simp add: episode_after_def)
    moreover have "episode_after v now opn (p # ps) i = episode_after v now opn ps i"
      using False by (simp add: episode_after_def)
    ultimately show ?thesis using episode_after_local [of opn i "episode_after v now opn [p]"] by simp
  qed
qed

lemma news_Cons:
  assumes "distinct (map (node_ID \<circ> pv_Node) (p # ps))"
  shows "news v now opn (p # ps) = peer_news v now opn p @ news v now (episode_after v now opn [p]) ps"
proof -
  have "peer_news v now opn q = peer_news v now (episode_after v now opn [p]) q" if "q \<in> set ps" for q
  proof -
    have "node_ID (pv_Node q) \<noteq> node_ID (pv_Node p)" using assms that by (auto simp: image_iff)
    then show ?thesis by (simp add: peer_news_def dies_def revives_def episode_after_def)
  qed
  then show ?thesis by (auto simp: news_def intro!: arg_cong [of _ _ concat])
qed

lemma evalPeers_refine:
  assumes "fold (evalPeer wc v now) ps (st, ring) = (st', ring')" and "logs lg ring"
    and "distinct (map (node_ID \<circ> pv_Node) ps)"
  shows "ls_wasLeader st' = ls_wasLeader st
    \<and> map_of (ls_open st') = episode_after v now (map_of (ls_open st)) ps
    \<and> logs (lg @ news v now (map_of (ls_open st)) ps) ring' \<and> rg_max ring' = rg_max ring"
  using assms
proof (induction ps arbitrary: st ring lg)
  case Nil
  then show ?case by (simp add: news_def episode_after_def)
next
  case (Cons p ps)
  obtain st1 ring1 where e: "evalPeer wc v now p (st, ring) = (st1, ring1)" by fastforce
  note p = evalPeer_open [OF e Cons.prems(2)]
  have "fold (evalPeer wc v now) ps (st1, ring1) = (st', ring')" using Cons.prems(1) e by simp
  from Cons.IH [OF this p(3)] Cons.prems(3) show ?case
    unfolding news_Cons [OF Cons.prems(3)] episode_after_Cons [OF Cons.prems(3)] p by (simp add: p(4))
qed

definition refines :: "int \<Rightarrow> watchdog \<Rightarrow> spec \<Rightarrow> bool" where
  "refines mx w s \<longleftrightarrow> ls_wasLeader (wd_st w) = sp_leads s
     \<and> (sp_leads s \<longrightarrow> map_of (ls_open (wd_st w)) = sp_open s)
     \<and> logs (sp_log s) (wd_ring w) \<and> rg_max (wd_ring w) = mx"

definition gained :: "loopState \<Rightarrow> loopState" where
  "gained st = (if \<not> ls_wasLeader st
     then st\<lparr>ls_wasLeader := True, ls_open := [], ls_pending := []\<rparr> else st)"

lemma evaluate_alt:
  "evaluate wc v now (st, ring) =
     (if \<not> isActingLeader v then ((st\<lparr>ls_wasLeader := False\<rparr>, ring), [])
      else if \<not> sees_quorum v then (((gained st)\<lparr>ls_quorumLost := True\<rparr>, ring), [])
      else let sr = fold (evalPeer wc v now) (cv_Peers v) ((gained st)\<lparr>ls_quorumLost := False\<rparr>, ring)
           in ((fst (dispatchPending (fst sr)), snd sr), snd (dispatchPending (fst sr))))"
proof -
  have q: "(if ls_quorumLost st' then st'\<lparr>ls_quorumLost := False\<rparr> else st') = st'\<lparr>ls_quorumLost := False\<rparr>" for st'
    by (cases st') auto
  show ?thesis
    by (simp add: evaluate_def Let_def case_prod_unfold not_le q gained_def)
qed

lemma evaluate_refines:
  assumes r: "refines mx w s" and d: "distinct (map (node_ID \<circ> pv_Node) (cv_Peers v))"
  shows "refines mx (wd_evaluate wc v now w) (sp_evaluate v now s)"
proof (cases "isActingLeader v")
  case False
  then show ?thesis using r by (simp add: refines_def wd_evaluate_def evaluate_def sp_evaluate_def)
next
  case lead: True
  define st where "st = (gained (wd_st w))\<lparr>ls_quorumLost := False\<rparr>"
  have g: "ls_wasLeader (gained (wd_st w))" "map_of (ls_open (gained (wd_st w))) = sp_open (sp_gain s)"
    and s: "sp_log (sp_gain s) = sp_log s" "sp_leads (sp_gain s)"
    using r by (auto simp: gained_def refines_def sp_gain_def fun_eq_iff)
  show ?thesis
  proof (cases "sees_quorum v")
    case False
    then show ?thesis using r lead g s
      by (simp add: refines_def wd_evaluate_def evaluate_alt sp_evaluate_def)
  next
    case True
    obtain st2 ring2 where f: "fold (evalPeer wc v now) (cv_Peers v) (st, wd_ring w) = (st2, ring2)" by fastforce
    from evalPeers_refine [OF f _ d, of "sp_log s"] r g
    have n: "ls_wasLeader st2" "map_of (ls_open st2) = episode_after v now (sp_open (sp_gain s)) (cv_Peers v)"
      "logs (sp_log s @ news v now (sp_open (sp_gain s)) (cv_Peers v)) ring2" "rg_max ring2 = mx"
      by (auto simp: refines_def st_def)
    have "wd_st (wd_evaluate wc v now w) = fst (dispatchPending st2)" "wd_ring (wd_evaluate wc v now w) = ring2"
      using lead True f by (simp_all add: wd_evaluate_def evaluate_alt st_def)
    then show ?thesis using n True lead s
      by (simp add: refines_def sp_evaluate_def Let_def flip: append_assoc)
  qed
qed

lemma handleResult_frame [simp]:
  "ls_open (handleResult r now st) = ls_open st" "ls_wasLeader (handleResult r now st) = ls_wasLeader st"
  by (simp_all add: handleResult_def Let_def)

lemma turn_refines:
  "refines mx w s \<Longrightarrow> input_view_ok i \<Longrightarrow> refines mx (wd_turn wc i w) (sp_turn i s)"
proof (cases i)
  case (WdResult j failed now)
  then show "refines mx w s \<Longrightarrow> refines mx (wd_turn wc i w) (sp_turn i s)" by (simp add: refines_def)
qed (simp_all add: evaluate_refines)

lemma turns_refine:
  "refines mx w s \<Longrightarrow> list_all input_view_ok ins \<Longrightarrow> refines mx (fold (wd_turn wc) ins w) (fold sp_turn ins s)"
  by (induction ins arbitrary: w s) (simp_all add: turn_refines)

lemma New_config_max: "0 < wc_MaxIncidents (New_config wc)"
  by (simp add: New_config_def Let_def)

lemma run_refines:
  assumes "distinct (map (node_ID \<circ> pv_Node) (cv_Peers v0))" and "list_all input_view_ok ins"
  shows "refines (wc_MaxIncidents (New_config wc)) (Watchdog_Run wc v0 t0 ins) (sp_Run v0 t0 ins)"
proof -
  have "refines (wc_MaxIncidents (New_config wc)) (New wc) sp_init"
    using logs_new [OF New_config_max] by (simp add: refines_def New_def sp_init_def newLoopState_def newIncidentRing_def)
  then show ?thesis
    unfolding Watchdog_Run_def sp_Run_def by (intro turns_refine evaluate_refines assms)
qed

subsection \<open>Episodes alternate within a reign\<close>

definition about :: "NodeID \<Rightarrow> Incident list \<Rightarrow> IncidentType list" where
  "about i lg = map inc_Type (filter (\<lambda>inc. node_ID (inc_Peer inc) = i) lg)"

fun alternates :: "bool \<Rightarrow> IncidentType list \<Rightarrow> bool" where
  "alternates opened [] \<longleftrightarrow> True"
| "alternates opened (t # ts) \<longleftrightarrow>
     t = (if opened then IncidentPeerRecovered else IncidentPeerDead) \<and> alternates (\<not> opened) ts"

fun open_after :: "bool \<Rightarrow> IncidentType list \<Rightarrow> bool" where
  "open_after opened [] = opened"
| "open_after opened (t # ts) = open_after (\<not> opened) ts"

lemma alternates_append: "alternates b (xs @ ys) \<longleftrightarrow> alternates b xs \<and> alternates (open_after b xs) ys"
  by (induction b xs rule: open_after.induct) auto

lemma open_after_append [simp]: "open_after b (xs @ ys) = open_after (open_after b xs) ys"
  by (induction b xs rule: open_after.induct) auto

lemma about_append [simp]: "about i (xs @ ys) = about i xs @ about i ys"
  by (simp add: about_def)

lemma about_peer_news:
  "alternates (opn i \<noteq> None) (about i (peer_news v now opn p))
   \<and> open_after (opn i \<noteq> None) (about i (peer_news v now opn p)) = (episode_after v now opn [p] i \<noteq> None)"
  by (auto simp: about_def peer_news_def dies_def revives_def episode_after_def buildDeadIncident_def
      buildRecoveryIncident_def Let_def)

lemma about_news:
  assumes "distinct (map (node_ID \<circ> pv_Node) ps)"
  shows "alternates (opn i \<noteq> None) (about i (news v now opn ps))
   \<and> open_after (opn i \<noteq> None) (about i (news v now opn ps)) = (episode_after v now opn ps i \<noteq> None)"
  using assms
proof (induction ps arbitrary: opn)
  case Nil
  then show ?case by (simp add: news_def about_def episode_after_def)
next
  case (Cons p ps)
  from Cons.IH [of "episode_after v now opn [p]"] Cons.prems about_peer_news [of opn i v now p]
  show ?case
    unfolding news_Cons [OF Cons.prems] episode_after_Cons [OF Cons.prems]
    by (simp add: alternates_append)
qed

definition reign_ok :: "spec \<Rightarrow> bool" where
  "reign_ok s \<longleftrightarrow> (\<forall>i. alternates False (about i (sp_reign s))
     \<and> open_after False (about i (sp_reign s)) = (sp_open s i \<noteq> None))"

lemma reign_ok_evaluate:
  assumes "reign_ok s" and "distinct (map (node_ID \<circ> pv_Node) (cv_Peers v))"
  shows "reign_ok (sp_evaluate v now s)"
proof -
  have "reign_ok (sp_gain s)" using assms(1) by (simp add: reign_ok_def sp_gain_def about_def)
  with assms(1) about_news [OF assms(2), of "sp_open (sp_gain s)"] show ?thesis
    by (auto simp: reign_ok_def sp_evaluate_def Let_def alternates_append)
qed

lemma reign_ok_turns: "reign_ok s \<Longrightarrow> list_all input_view_ok ins \<Longrightarrow> reign_ok (fold sp_turn ins s)"
proof (induction ins arbitrary: s)
  case (Cons i ins)
  have "reign_ok (sp_turn i s)" using Cons.prems by (cases i) (simp_all add: reign_ok_evaluate)
  with Cons show ?case by simp
qed simp

lemma reign_ok_run:
  assumes "distinct (map (node_ID \<circ> pv_Node) (cv_Peers v0))" and "list_all input_view_ok ins"
  shows "reign_ok (sp_Run v0 t0 ins)"
proof -
  have "reign_ok sp_init" by (simp add: reign_ok_def sp_init_def about_def)
  then show ?thesis unfolding sp_Run_def by (intro reign_ok_turns reign_ok_evaluate assms)
qed

subsection \<open>Deliveries\<close>

lemma dispatch_loop_spec:
  assumes "dispatch_loop incs fl = (fl', sp)"
  shows "distinct (map inc_ID sp)" and "set sp \<subseteq> set incs"
    and "\<forall>inc \<in> set sp. \<not> map_get False fl (inc_ID inc)"
    and "map_get False fl' i \<longleftrightarrow> map_get False fl i \<or> i \<in> inc_ID ` set sp"
    and "\<forall>inc \<in> set incs. map_get False fl' (inc_ID inc)"
proof -
  have "distinct (map inc_ID sp) \<and> set sp \<subseteq> set incs \<and> (\<forall>inc \<in> set sp. \<not> map_get False fl (inc_ID inc))
    \<and> (\<forall>i. map_get False fl' i \<longleftrightarrow> map_get False fl i \<or> i \<in> inc_ID ` set sp)
    \<and> (\<forall>inc \<in> set incs. map_get False fl' (inc_ID inc))"
    using assms
  proof (induction incs fl arbitrary: fl' sp rule: dispatch_loop.induct)
    case (2 inc incs fl)
    show ?case
    proof (cases "map_get False fl (inc_ID inc)")
      case True
      with 2 show ?thesis by auto
    next
      case False
      obtain fl1 sp1 where l: "dispatch_loop incs (map_put (inc_ID inc) True fl) = (fl1, sp1)" by fastforce
      with 2(3) False have e: "fl' = fl1" "sp = inc # sp1" by auto
      from 2(2) [OF False l] show ?thesis using False unfolding e by (auto split: if_splits)
    qed
  qed simp
  then show "distinct (map inc_ID sp)" "set sp \<subseteq> set incs"
    "\<forall>inc \<in> set sp. \<not> map_get False fl (inc_ID inc)"
    "map_get False fl' i \<longleftrightarrow> map_get False fl i \<or> i \<in> inc_ID ` set sp"
    "\<forall>inc \<in> set incs. map_get False fl' (inc_ID inc)" by auto
qed

text \<open>Which recorded incidents are queued for delivery.\<close>

definition queued :: "Watchdog_Config \<Rightarrow> (cooldownKey \<times> time) list \<Rightarrow> time \<Rightarrow> Incident \<Rightarrow> bool" where
  "queued wc cds now inc \<longleftrightarrow>
     (inc_Type inc = IncidentPeerDead \<or> wc_NotifyRecovery wc)
     \<and> (case map_of cds (node_ID (inc_Peer inc), inc_Type inc) of
          None \<Rightarrow> True | Some lst \<Rightarrow> wc_Cooldown wc \<le> time_Sub now lst)"

lemma evalPeer_queue:
  assumes "evalPeer wc v now p (st, ring) = (st', ring')"
  shows "ls_pending st' = ls_pending st @ filter (queued wc (ls_cooldowns st) now) (peer_news v now (map_of (ls_open st)) p)"
    and "ls_cooldowns st' = ls_cooldowns st" and "ls_inFlight st' = ls_inFlight st"
  using assms
  by (auto simp: evalPeer_def peer_news_def dies_def revives_def watched_def queued_def queueOrSuppress_def
      Let_def buildDeadIncident_def buildRecoveryIncident_def split: if_splits option.splits)

lemma evalPeers_queue:
  assumes "fold (evalPeer wc v now) ps (st, ring) = (st', ring')" and "logs lg ring"
    and "distinct (map (node_ID \<circ> pv_Node) ps)"
  shows "ls_pending st' = ls_pending st @ filter (queued wc (ls_cooldowns st) now) (news v now (map_of (ls_open st)) ps)
    \<and> ls_cooldowns st' = ls_cooldowns st \<and> ls_inFlight st' = ls_inFlight st"
  using assms
proof (induction ps arbitrary: st ring lg)
  case (Cons p ps)
  obtain st1 ring1 where e: "evalPeer wc v now p (st, ring) = (st1, ring1)" by fastforce
  note p = evalPeer_open [OF e Cons.prems(2)] and q = evalPeer_queue [OF e]
  have "fold (evalPeer wc v now) ps (st1, ring1) = (st', ring')" using Cons.prems(1) e by simp
  from Cons.IH [OF this p(3)] Cons.prems(3) show ?case
    unfolding news_Cons [OF Cons.prems(3)] p(2) q by simp
qed (simp add: news_def)

definition delivery_ok :: "Incident list \<Rightarrow> watchdog \<Rightarrow> bool" where
  "delivery_ok lg w \<longleftrightarrow> distinct (map inc_ID (wd_running w))
     \<and> (\<forall>i. map_get False (ls_inFlight (wd_st w)) i \<longleftrightarrow> i \<in> inc_ID ` set (wd_running w))
     \<and> set (wd_running w) \<subseteq> set lg \<and> set (ls_pending (wd_st w)) \<subseteq> set lg"

text \<open>One evaluation that passes both gates.\<close>

lemma evaluate_active:
  assumes r: "refines mx w s" and d: "distinct (map (node_ID \<circ> pv_Node) (cv_Peers v))"
    and act: "isActingLeader v" "sees_quorum v" and w': "w' = wd_evaluate wc v now w"
    and fresh: "fresh = news v now (sp_open (sp_gain s)) (cv_Peers v)"
  shows "sp_log (sp_evaluate v now s) = sp_log s @ fresh"
    and "ls_pending (wd_st w') = (if sp_leads s then ls_pending (wd_st w) else [])
           @ filter (queued wc (ls_cooldowns (wd_st w)) now) fresh"
    and "ls_cooldowns (wd_st w') = ls_cooldowns (wd_st w)"
    and "\<exists>sp. wd_running w' = wd_running w @ sp
          \<and> dispatch_loop (ls_pending (wd_st w')) (ls_inFlight (wd_st w)) = (ls_inFlight (wd_st w'), sp)"
proof -
  define st where "st = (gained (wd_st w))\<lparr>ls_quorumLost := False\<rparr>"
  have g: "map_of (ls_open (gained (wd_st w))) = sp_open (sp_gain s)"
    and p: "ls_pending st = (if sp_leads s then ls_pending (wd_st w) else [])"
    and f: "ls_cooldowns st = ls_cooldowns (wd_st w)" "ls_inFlight st = ls_inFlight (wd_st w)"
    using r by (auto simp: gained_def refines_def sp_gain_def fun_eq_iff st_def)
  obtain st2 ring2 where fold: "fold (evalPeer wc v now) (cv_Peers v) (st, wd_ring w) = (st2, ring2)" by fastforce
  from evalPeers_queue [OF fold _ d, of "sp_log s"] r g p f
  have q: "ls_pending st2 = (if sp_leads s then ls_pending (wd_st w) else [])
      @ filter (queued wc (ls_cooldowns (wd_st w)) now) fresh"
    "ls_cooldowns st2 = ls_cooldowns (wd_st w)" "ls_inFlight st2 = ls_inFlight (wd_st w)"
    by (auto simp: refines_def st_def fresh)
  have w: "wd_st w' = fst (dispatchPending st2)" "wd_running w' = wd_running w @ snd (dispatchPending st2)"
    using act fold by (simp_all add: w' wd_evaluate_def evaluate_alt st_def)
  show "sp_log (sp_evaluate v now s) = sp_log s @ fresh"
    using act by (simp add: sp_evaluate_def Let_def fresh sp_gain_def)
  show "ls_pending (wd_st w') = (if sp_leads s then ls_pending (wd_st w) else [])
           @ filter (queued wc (ls_cooldowns (wd_st w)) now) fresh"
    "ls_cooldowns (wd_st w') = ls_cooldowns (wd_st w)"
    using q w by simp_all
  show "\<exists>sp. wd_running w' = wd_running w @ sp
      \<and> dispatch_loop (ls_pending (wd_st w')) (ls_inFlight (wd_st w)) = (ls_inFlight (wd_st w'), sp)"
    using q w by (simp add: dispatchPending_def split: prod.split)
qed

lemma evaluate_inactive:
  assumes "\<not> (isActingLeader v \<and> sees_quorum v)"
  shows "wd_running (wd_evaluate wc v now w) = wd_running w"
    and "wd_ring (wd_evaluate wc v now w) = wd_ring w"
    and "ls_inFlight (wd_st (wd_evaluate wc v now w)) = ls_inFlight (wd_st w)"
    and "set (ls_pending (wd_st (wd_evaluate wc v now w))) \<subseteq> set (ls_pending (wd_st w))"
    and "sp_log (sp_evaluate v now s) = sp_log s"
  using assms by (auto simp: wd_evaluate_def evaluate_alt gained_def sp_evaluate_def sp_gain_def Let_def)

lemma delivery_evaluate:
  assumes r: "refines mx w s" and ok: "delivery_ok (sp_log s) w"
    and d: "distinct (map (node_ID \<circ> pv_Node) (cv_Peers v))"
  shows "delivery_ok (sp_log (sp_evaluate v now s)) (wd_evaluate wc v now w)"
proof (cases "isActingLeader v \<and> sees_quorum v")
  case False
  from evaluate_inactive(1-4) [OF this, of wc now w] evaluate_inactive(5) [OF this, of now s] ok
  show ?thesis by (auto simp: delivery_ok_def)
next
  case True
  note a = evaluate_active [OF r d conjunct1 [OF True] conjunct2 [OF True] refl refl]
  obtain sp where sp: "wd_running (wd_evaluate wc v now w) = wd_running w @ sp"
    and l: "dispatch_loop (ls_pending (wd_st (wd_evaluate wc v now w))) (ls_inFlight (wd_st w))
      = (ls_inFlight (wd_st (wd_evaluate wc v now w)), sp)"
    using a(4) [where wc = wc and now = now] by blast
  note dl = dispatch_loop_spec [OF l]
  have pend: "set (ls_pending (wd_st (wd_evaluate wc v now w))) \<subseteq> set (sp_log (sp_evaluate v now s))"
    using a(1,2) ok by (auto simp: delivery_ok_def)
  let ?w' = "wd_evaluate wc v now w"
  have fl: "map_get False (ls_inFlight (wd_st w)) i \<longleftrightarrow> i \<in> inc_ID ` set (wd_running w)" for i
    using ok by (simp add: delivery_ok_def)
  have "set (map inc_ID (wd_running w)) \<inter> set (map inc_ID sp) = {}"
    using dl(3) by (force simp: fl image_iff)
  with dl(1) ok sp have "distinct (map inc_ID (wd_running ?w'))" by (simp add: delivery_ok_def)
  moreover have "map_get False (ls_inFlight (wd_st ?w')) i \<longleftrightarrow> i \<in> inc_ID ` set (wd_running ?w')" for i
    using dl(4) fl sp by auto
  moreover have "set (wd_running ?w') \<subseteq> set (sp_log (sp_evaluate v now s))"
    using dl(2) pend sp ok a(1) by (auto simp: delivery_ok_def)
  ultimately show ?thesis using pend by (simp add: delivery_ok_def)
qed

lemma handleResult_delivery:
  assumes ok: "delivery_ok lg w" and j: "j < length (wd_running w)"
  shows "delivery_ok lg (wd_turn wc (WdResult j failed now) w)"
proof -
  let ?run = "wd_running w" and ?inc = "wd_running w ! j"
  have split: "?run = take j ?run @ ?inc # drop (Suc j) ?run" using j by (simp add: id_take_nth_drop)
  define a b where "a = take j ?run" and "b = drop (Suc j) ?run"
  have run: "?run = a @ ?inc # b" using split by (simp add: a_def b_def)
  have dist: "distinct (map inc_ID (a @ ?inc # b))" using ok run by (simp add: delivery_ok_def)
  have fl: "map_get False (ls_inFlight (wd_st w)) i \<longleftrightarrow> i \<in> inc_ID ` set (a @ ?inc # b)" for i
    using ok run by (simp add: delivery_ok_def)
  have sub: "set (removePending incs i) \<subseteq> set incs" for incs i
    by (induction incs) auto
  have lg: "set (a @ b) \<subseteq> set lg"
    using ok set_take_subset [of j ?run] set_drop_subset [of "Suc j" ?run]
    unfolding delivery_ok_def a_def b_def set_append by blast
  show ?thesis
    using dist fl lg ok sub [of "ls_pending (wd_st w)" "inc_ID ?inc"] j
    unfolding delivery_ok_def
    by (auto simp: handleResult_def Let_def a_def [symmetric] b_def [symmetric])
qed

lemma turns_delivery:
  assumes "refines mx w s" and "delivery_ok (sp_log s) w" and "list_all input_view_ok ins"
  shows "delivery_ok (sp_log (fold sp_turn ins s)) (fold (wd_turn wc) ins w)"
  using assms
proof (induction ins arbitrary: w s)
  case (Cons i ins)
  have "delivery_ok (sp_log (sp_turn i s)) (wd_turn wc i w)"
  proof (cases i)
    case (WdResult j failed now)
    with Cons.prems(2) handleResult_delivery [of "sp_log s" w j wc failed now] show ?thesis
      by (cases "j < length (wd_running w)") auto
  qed (use Cons.prems in \<open>auto simp: delivery_evaluate\<close>)
  with Cons show ?case by (simp add: turn_refines)
qed simp

lemma run_delivery:
  assumes "distinct (map (node_ID \<circ> pv_Node) (cv_Peers v0))" and "list_all input_view_ok ins"
  shows "delivery_ok (sp_log (sp_Run v0 t0 ins)) (Watchdog_Run wc v0 t0 ins)"
proof -
  have r: "refines (wc_MaxIncidents (New_config wc)) (New wc) sp_init"
    using logs_new [OF New_config_max] by (simp add: refines_def New_def sp_init_def newLoopState_def newIncidentRing_def)
  have "delivery_ok (sp_log sp_init) (New wc)"
    by (simp add: delivery_ok_def New_def sp_init_def newLoopState_def)
  with r show ?thesis
    unfolding Watchdog_Run_def sp_Run_def by (intro turns_delivery evaluate_refines delivery_evaluate assms)
qed

subsection \<open>Demonstration views\<close>

definition clk :: "int \<Rightarrow> time" where
  "clk n = (unixEpoch + n) * second"

definition wd_node :: "NodeID \<Rightarrow> Node" where
  "wd_node i = \<lparr>node_ID = i, node_Addr = i @ ''.local''\<rparr>"

definition wd_row :: "NodeID \<Rightarrow> PeerStatus \<Rightarrow> time \<Rightarrow> PeerView" where
  "wd_row i st seen = \<lparr>pv_Node = wd_node i, pv_Status = st, pv_LastSeen = seen, pv_LatencyMS = 0,
     pv_Member = MemberVoter\<rparr>"

definition wd_view :: "PeerStatus \<Rightarrow> time \<Rightarrow> ClusterView" where
  "wd_view c now =
     \<lparr>cv_Self = ''a'', cv_Role = RoleLeader, cv_Term = 3, cv_LeaderID = ''a'', cv_Source = ''a'',
      cv_Authoritative = True, cv_UpdatedAt = now,
      cv_Peers = [wd_row ''a'' StatusAlive now, wd_row ''b'' StatusAlive now, wd_row ''c'' c second],
      cv_ElectionsStarted = 1,
      cv_Membership = \<lparr>mb_Version = 1, mb_CreatedInTerm = 0,
                       mb_Voters = [wd_node ''a'', wd_node ''b'', wd_node ''c'']\<rparr>\<rparr>"

definition wd_conf :: Watchdog_Config where
  "wd_conf = \<lparr>wc_Cooldown = 0, wc_NotifyRecovery = False, wc_MaxIncidents = 2, wc_CheckInterval = 0\<rparr>"

definition flapping :: "wd_input list" where
  "flapping = [WdTick (wd_view StatusAlive (clk 101)) (clk 101),
               WdTick (wd_view StatusDead (clk 102)) (clk 102),
               WdResult 0 False (clk 103), WdResult 0 False (clk 104)]"

lemma wd_views_ok:
  "distinct (map (node_ID \<circ> pv_Node) (cv_Peers (wd_view c now)))"
  by (simp add: wd_view_def wd_row_def wd_node_def)

lemma flapping_ok: "list_all input_view_ok flapping"
  by (simp add: flapping_def wd_views_ok)

lemma wd_view_gates: "isActingLeader (wd_view c now)" "sees_quorum (wd_view c now)"
  by (simp_all add: wd_view_def wd_row_def wd_node_def isActingLeader_def liveQuorum_def HasVoter_def
      Quorum_def countsAsVoter_def)

subsection \<open>The log\<close>

text \<open>
  The dashboard's incident log is the recent end of the abstract log: over any
  run on views with one row per node, \<open>Incidents\<close> returns, newest first, the last
  \<open>MaxIncidents\<close> incidents of an unbounded log to which each evaluation that passes
  the gates adds exactly one incident per voter that is dead without an open episode
  and one per voter that is alive with one.
\<close>

theorem incident_log_refines:
  assumes "distinct (map (node_ID \<circ> pv_Node) (cv_Peers v0))" and "list_all input_view_ok ins"
  shows "Incidents (Watchdog_Run wc v0 t0 ins)
    = take (nat (wc_MaxIncidents (New_config wc))) (rev (sp_log (sp_Run v0 t0 ins)))"
  using run_refines [OF assms, of wc t0] logs_snapshot by (auto simp: refines_def Incidents_def)

lemma incident_log_refines_witness:
  "Incidents (Watchdog_Run wd_conf (wd_view StatusDead (clk 100)) (clk 100) flapping)
    = take 2 (rev (sp_log (sp_Run (wd_view StatusDead (clk 100)) (clk 100) flapping)))"
  using incident_log_refines [OF wd_views_ok flapping_ok, of wd_conf]
  by (simp add: New_config_def wd_conf_def)


lemma flapping_leads:
  "ls_wasLeader (wd_st (Watchdog_Run wd_conf (wd_view StatusDead (clk 100)) (clk 100) flapping))"
proof -
  have "sp_leads (sp_Run (wd_view StatusDead (clk 100)) (clk 100) flapping)"
    by (simp add: sp_Run_def flapping_def sp_evaluate_def wd_view_gates Let_def sp_gain_def)
  then show ?thesis
    using run_refines [OF wd_views_ok flapping_ok, of wd_conf] by (simp add: refines_def)
qed


subsection \<open>Delivery\<close>

text \<open>
  At any point of a run at most one delivery is under way for an incident ID, the
  in-flight map names exactly those under way, and whatever is under way or waiting
  was recorded in the log.
\<close>

theorem delivery_unique:
  assumes "distinct (map (node_ID \<circ> pv_Node) (cv_Peers v0))" and "list_all input_view_ok ins"
  shows "let w = Watchdog_Run wc v0 t0 ins; lg = sp_log (sp_Run v0 t0 ins)
    in distinct (map inc_ID (wd_running w))
      \<and> (map_get False (ls_inFlight (wd_st w)) i = (i \<in> inc_ID ` set (wd_running w)))
      \<and> set (wd_running w @ ls_pending (wd_st w)) \<subseteq> set lg"
  using run_delivery [OF assms, of t0 wc] by (simp add: Let_def delivery_ok_def)

lemma delivery_unique_witness:
  "distinct (map inc_ID (wd_running (Watchdog_Run wd_conf (wd_view StatusDead (clk 100)) (clk 100) flapping)))"
  using delivery_unique [OF wd_views_ok flapping_ok] by (simp add: Let_def)


definition wd_alarmed :: watchdog where
  "wd_alarmed = Watchdog_Run wd_conf (wd_view StatusDead (clk 100)) (clk 100) []"

lemma wd_alarmed_facts:
  "length (wd_running wd_alarmed) = 1" "wd_running wd_alarmed ! 0 \<in> set (ls_pending (wd_st wd_alarmed))"
  "ls_wasLeader (wd_st wd_alarmed)"
  by code_simp+


text \<open>
  What an evaluation queues, exactly: the incidents it records, minus recoveries
  when they are not notified, minus those whose node and type had a successful
  notification less than \<open>Cooldown\<close> ago; the queue of an earlier reign is dropped.
\<close>

theorem queue_exact:
  assumes "distinct (map (node_ID \<circ> pv_Node) (cv_Peers v0))" and "list_all input_view_ok ins"
    and "w = Watchdog_Run wc v0 t0 ins"
    and "distinct (map (node_ID \<circ> pv_Node) (cv_Peers v))" "isActingLeader v" "sees_quorum v"
  shows "let st = wd_st w;
      opens = (if ls_wasLeader st then map_of (ls_open st) else (\<lambda>_. None));
      fresh = news v now opens (cv_Peers v)
    in ls_pending (wd_st (wd_turn wc (WdTick v now) w))
      = (if ls_wasLeader st then ls_pending st else []) @ filter (queued wc (ls_cooldowns st) now) fresh"
proof -
  have r: "refines (wc_MaxIncidents (New_config wc)) w (sp_Run v0 t0 ins)"
    unfolding assms(3) by (rule run_refines [OF assms(1,2)])
  then have "sp_open (sp_gain (sp_Run v0 t0 ins)) = (if ls_wasLeader (wd_st w) then map_of (ls_open (wd_st w)) else (\<lambda>_. None))"
    "sp_leads (sp_Run v0 t0 ins) = ls_wasLeader (wd_st w)"
    by (auto simp: refines_def sp_gain_def)
  then show ?thesis
    using evaluate_active(2) [OF r assms(4-6) refl refl, of wc now] by (simp add: Let_def)
qed

lemma queue_exact_witness:
  "ls_pending (wd_st (wd_turn wd_conf (WdTick (wd_view StatusDead (clk 102)) (clk 102)) wd_alarmed))
    = ls_pending (wd_st wd_alarmed)
      @ filter (queued wd_conf (ls_cooldowns (wd_st wd_alarmed)) (clk 102))
          (news (wd_view StatusDead (clk 102)) (clk 102) (map_of (ls_open (wd_st wd_alarmed)))
            (cv_Peers (wd_view StatusDead (clk 102))))"
  using queue_exact [OF wd_views_ok _ wd_alarmed_def wd_views_ok wd_view_gates] wd_alarmed_facts(3)
  by (simp add: Let_def)

text \<open>
  The cooldown is not a minimum interval between notifications: with a cooldown of
  ten minutes, a node that dies, recovers and dies again while its first alert is still
  being delivered has two \<open>peer_dead\<close> alerts under way at once, and both can succeed.
\<close>

theorem cooldown_overrun:
  "let w = Watchdog_Run wd_conf (wd_view StatusDead (clk 100)) (clk 100) (take 2 flapping);
       w' = Watchdog_Run wd_conf (wd_view StatusDead (clk 100)) (clk 100) flapping
   in wc_Cooldown (New_config wd_conf) = 10 * minute
      \<and> map (\<lambda>inc. (inc_Type inc, node_ID (inc_Peer inc))) (wd_running w)
          = [(IncidentPeerDead, ''c''), (IncidentPeerDead, ''c'')]
      \<and> wd_running w' = [] \<and> ls_pending (wd_st w') = []"
  by code_simp

subsection \<open>The gate and the election manager\<close>

lemma voterAlive_filter:
  "voterAlive v ps n = n + length (filter (\<lambda>p. node_ID (pv_Node p) \<noteq> cv_Self v \<and> countsAsVoter (pv_Member p)
     \<and> HasVoter (cv_Membership v) (node_ID (pv_Node p)) \<and> pv_Status p = StatusAlive) ps)"
  by (induction v ps n rule: voterAlive.induct) auto

lemma acting_leader_view: "isActingLeader (snapshotView e m) \<longleftrightarrow> role m = RoleLeader"
  by (auto simp: isActingLeader_def snapshotView_def leaderView_def followerView_def localView_def Let_def
      split: option.split)

lemma leader_view_quorum:
  fixes m :: "'st Manager"
  assumes d: "distinct (map node_ID (mb_Voters (membership m)))" and ne: "mb_Voters (membership m) \<noteq> []"
  shows "sees_quorum (leaderView m now) \<longleftrightarrow> leaderSeesLiveMajority m now"
proof -
  let ?v = "leaderView m now" and ?vs = "mb_Voters (membership m)" and ?self = "node_ID (self m)"
  let ?alive = "\<lambda>n. leaderPeerStatus m now (map_get 0 (lastContact m) (node_ID n)) = StatusAlive"
  let ?P = "\<lambda>p. node_ID (pv_Node p) \<noteq> ?self \<and> countsAsVoter (pv_Member p)
     \<and> HasVoter (membership m) (node_ID (pv_Node p)) \<and> pv_Status p = StatusAlive"
  have count: "length (filter (\<lambda>n. node_ID n = i) ns) = (if i \<in> node_ID ` set ns then 1 else 0)"
    if "distinct (map node_ID ns)" for ns i
    using that by (induction ns) (auto split: if_splits)
  have split: "length (filter (\<lambda>n. node_ID n = i) ns) + length (filter (\<lambda>n. node_ID n \<noteq> i \<and> P n) ns)
      = length (filter (\<lambda>n. node_ID n = i \<or> P n) ns)" for ns i P
    by (induction ns) auto
  let ?rows = "map (leaderVoterRow m now) ?vs" and ?cand = "candidateRows m now"
  have "length (filter ?P (SortPeers (?rows @ ?cand))) = length (filter ?P (?rows @ ?cand))"
    by (rule mset_eq_length) simp
  moreover have "filter ?P ?cand = []"
    by (auto simp: candidateRows_def countsAsVoter_def filter_empty_conv split: if_splits)
  moreover have "length (filter ?P ?rows) = length (filter (\<lambda>n. node_ID n \<noteq> ?self \<and> ?alive n) ?vs)"
  proof -
    have "filter (?P \<circ> leaderVoterRow m now) ?vs = filter (\<lambda>n. node_ID n \<noteq> ?self \<and> ?alive n) ?vs"
      by (rule filter_cong) (auto simp: leaderVoterRow_def Let_def countsAsVoter_def HasVoter_iff)
    then show ?thesis by (simp add: filter_map)
  qed
  moreover have "(if HasVoter (membership m) ?self then 1 else 0) = length (filter (\<lambda>n. node_ID n = ?self) ?vs)"
    using count [OF d] by (simp add: HasVoter_iff)
  moreover have "length (filter (\<lambda>n. node_ID n = ?self) ?vs) + length (filter (\<lambda>n. node_ID n \<noteq> ?self \<and> ?alive n) ?vs)
      = length (filter (\<lambda>n. node_ID n = ?self \<or> ?alive n) ?vs)"
    by (rule split)
  ultimately have "liveQuorum ?v = (length ?vs, length (filter (\<lambda>n. node_ID n = ?self \<or> ?alive n) ?vs))"
    using ne by (simp add: liveQuorum_def voterAlive_filter leaderView_def)
  then show ?thesis by (simp add: leaderSeesLiveMajority_def quorum_def)
qed

text \<open>
  C22. The watchdog and the election manager agree on who may raise alerts: on the
  manager's own view both gates of the watchdog are open exactly when the manager is
  leader and its own test, the one that guards removals of voters, sees a live
  majority; otherwise an evaluation records nothing and starts no delivery.
\<close>

theorem watchdog_gate:
  assumes "wf_members m" and "mb_Voters (membership m) \<noteq> []"
  shows "let v = snapshotView e m; open_gate = (isActingLeader v \<and> sees_quorum v)
    in open_gate = (role m = RoleLeader \<and> leaderSeesLiveMajority m (env_now e))
      \<and> (\<not> open_gate \<longrightarrow> Incidents (wd_turn wc (WdTick v now) w) = Incidents w
           \<and> wd_running (wd_turn wc (WdTick v now) w) = wd_running w)"
proof -
  have "isActingLeader (snapshotView e m) \<and> sees_quorum (snapshotView e m)
      \<longleftrightarrow> role m = RoleLeader \<and> leaderSeesLiveMajority m (env_now e)"
  proof (cases "role m = RoleLeader")
    case True
    then show ?thesis
      using acting_leader_view [of e m] leader_view_quorum [of m "env_now e"] assms
      by (simp add: snapshotView_def wf_members_def)
  qed (simp add: acting_leader_view)
  then show ?thesis
    using evaluate_inactive(1,2) [of "snapshotView e m" wc now w] by (auto simp: Let_def Incidents_def)
qed

lemma removing_wf: "wf_members removing" "mb_Voters (membership removing) \<noteq> []"
  unfolding wf_members_iff by code_simp+

lemma watchdog_gate_witness:
  "let v = snapshotView (env_of (71 * second)) removing
   in (isActingLeader v \<and> sees_quorum v)
      = (role removing = RoleLeader \<and> leaderSeesLiveMajority removing (71 * second))"
  using watchdog_gate [OF removing_wf, of "env_of (71 * second)"] by (simp add: Let_def env_of_def)

end
