(* ===== verification/Go_Strings.thy ===== *)
theory Go_Strings
  imports Warden_Prelude
begin

text \<open>
  The functions of Go's package \<open>strings\<close> that the sources call on white space:
  \<open>TrimSpace\<close>, \<open>Fields\<close> and \<open>Join\<close>. White space is the white space of ASCII; the
  multi-byte spaces of Unicode count as letters here. The lemmas show that fields
  are never empty, contain no space, and come back from their join.
\<close>

definition is_space :: "char \<Rightarrow> bool" where
  "is_space c \<longleftrightarrow> c \<in> {CHR 0x09, CHR 0x0A, CHR 0x0B, CHR 0x0C, CHR 0x0D, CHR '' ''}"

definition TrimSpace :: "string \<Rightarrow> string" where
  "TrimSpace s = rev (dropWhile is_space (rev (dropWhile is_space s)))"

text \<open>\<open>w\<close> is the field being read.\<close>

fun fields_loop :: "string \<Rightarrow> string \<Rightarrow> string list" where
  "fields_loop w [] = (if w = [] then [] else [w])"
| "fields_loop w (c # cs) =
     (if is_space c then (if w = [] then fields_loop [] cs else w # fields_loop [] cs)
      else fields_loop (w @ [c]) cs)"

definition strings_Fields :: "string \<Rightarrow> string list" where
  "strings_Fields s = fields_loop [] s"

fun strings_Join :: "string list \<Rightarrow> string \<Rightarrow> string" where
  "strings_Join [] sep = []"
| "strings_Join [w] sep = w"
| "strings_Join (w # v # ws) sep = w @ sep @ strings_Join (v # ws) sep"

definition spaceless :: "string \<Rightarrow> bool" where
  "spaceless w \<longleftrightarrow> (\<forall>c \<in> set w. \<not> is_space c)"

lemma is_space_blank [simp]: "is_space (CHR '' '')"
  by (simp add: is_space_def)

lemma TrimSpace_spaceless: "spaceless s \<Longrightarrow> TrimSpace s = s"
proof -
  assume a: "spaceless s"
  then have "dropWhile is_space t = t" if "set t \<subseteq> set s" for t
    using that by (cases t) (auto simp: spaceless_def)
  from this [of s] this [of "rev s"] show "TrimSpace s = s" by (simp add: TrimSpace_def)
qed

lemma fields_loop_words:
  "spaceless w \<Longrightarrow> f \<in> set (fields_loop w s) \<Longrightarrow> f \<noteq> [] \<and> spaceless f"
proof (induction s arbitrary: w)
  case (Cons c s)
  show ?case
  proof (cases "is_space c")
    case True
    then have "(f = w \<and> w \<noteq> []) \<or> f \<in> set (fields_loop [] s)" using Cons.prems(2) by (cases "w = []") auto
    then show ?thesis using Cons.IH [of "[]"] Cons.prems(1) by (auto simp: spaceless_def)
  next
    case False
    then show ?thesis using Cons.IH [of "w @ [c]"] Cons.prems by (simp add: spaceless_def)
  qed
qed (simp split: if_splits)

lemma strings_Fields_words: "f \<in> set (strings_Fields s) \<Longrightarrow> f \<noteq> [] \<and> spaceless f"
  unfolding strings_Fields_def by (rule fields_loop_words) (auto simp: spaceless_def)

lemma fields_loop_spaceless: "spaceless v \<Longrightarrow> fields_loop w (v @ s) = fields_loop (w @ v) s"
  by (induction v arbitrary: w) (auto simp: spaceless_def)

lemma strings_Fields_Join:
  assumes "\<And>f. f \<in> set ws \<Longrightarrow> f \<noteq> [] \<and> spaceless f"
  shows "strings_Fields (strings_Join ws '' '') = ws"
proof -
  have "fields_loop [] (strings_Join ws '' '') = ws"
    using assms
  proof (induction ws "'' ''" rule: strings_Join.induct)
    case (2 w)
    then show ?case using fields_loop_spaceless [of w "[]" "[]"] by simp
  next
    case (3 w v ws)
    then show ?case using fields_loop_spaceless [of w "[]"] by simp
  qed simp
  then show ?thesis by (simp add: strings_Fields_def)
qed

lemma fields_loop_leading: "fields_loop [] (dropWhile is_space s) = fields_loop [] s"
  by (induction s) auto

lemma fields_loop_blanks: "\<forall>c \<in> set t. is_space c \<Longrightarrow> fields_loop w (s @ t) = fields_loop w s"
proof (induction w s rule: fields_loop.induct)
  case (1 w)
  then show ?case
  proof (induction t arbitrary: w)
    case (Cons c t)
    then show ?case using Cons.IH [of "[]"] by simp
  qed simp
qed auto

lemma fields_loop_trailing: "fields_loop w (rev (dropWhile is_space (rev s))) = fields_loop w s"
proof -
  have s: "s = rev (dropWhile is_space (rev s)) @ rev (takeWhile is_space (rev s))"
    by (metis rev_append rev_rev_ident takeWhile_dropWhile_id)
  have "\<forall>c \<in> set (rev (takeWhile is_space (rev s))). is_space c"
    by (auto dest: set_takeWhileD)
  from fields_loop_blanks [OF this, of w "rev (dropWhile is_space (rev s))"] s
  show ?thesis by simp
qed

lemma strings_Fields_TrimSpace [simp]: "strings_Fields (TrimSpace s) = strings_Fields s"
  by (simp add: strings_Fields_def TrimSpace_def fields_loop_trailing fields_loop_leading)

end
