(* ===== verification/Warden_Discovery.thy ===== *)
theory Warden_Discovery
  imports Warden_Types Go_Strings
begin

text \<open>
  Peer discovery: \<^verbatim>\<open>discovery/discovery.go\<close> (the change-only poll loop),
  \<^verbatim>\<open>file.go\<close>, \<^verbatim>\<open>static.go\<close> and \<^verbatim>\<open>tailscale.go\<close>. A poll is one fetch result and whether
  its send lost to the end of the context. What the file system and the JSON decoder
  return, and whether the compiled host pattern matches, are arguments;
  \<open>net.SplitHostPort\<close> and the IPv4 part of \<open>netip.ParseAddr\<close> are modelled.
\<close>

subsection \<open>The poll loop\<close>

record errGate =
  eg_last :: string

definition shouldLog :: "string \<Rightarrow> errGate \<Rightarrow> errGate \<times> bool" where
  "shouldLog err g = (if err = eg_last g then (g, False) else (g\<lparr>eg_last := err\<rparr>, True))"

definition gate_clear :: "errGate \<Rightarrow> errGate" where
  "gate_clear g = g\<lparr>eg_last := []\<rparr>"

fun nodesEqual :: "Node list \<Rightarrow> Node list \<Rightarrow> bool" where
  "nodesEqual [] [] = True"
| "nodesEqual (a # as) (b # bs) =
     (if node_ID a \<noteq> node_ID b \<or> node_Addr a \<noteq> node_Addr b then False else nodesEqual as bs)"
| "nodesEqual _ _ = False"

record poller =
  pl_haveSent :: bool
  pl_last :: "Node list"
  pl_gate :: errGate
  pl_sent :: "Roster list"
  pl_logged :: "string list"

definition poll_init :: poller where
  "poll_init = \<lparr>pl_haveSent = False, pl_last = [], pl_gate = \<lparr>eg_last = []\<rparr>, pl_sent = [], pl_logged = []\<rparr>"

text \<open>One call of \<open>poll\<close>: the result of \<open>fetch\<close>, and whether the context ended before the send.\<close>

definition poll :: "string + Node list \<Rightarrow> bool \<Rightarrow> poller \<Rightarrow> poller" where
  "poll fetched ctxDone p =
     (case fetched of
        Inl err \<Rightarrow>
          let (g, yes) = shouldLog err (pl_gate p)
          in p\<lparr>pl_gate := g, pl_logged := (if yes then pl_logged p @ [err] else pl_logged p)\<rparr>
      | Inr nodes \<Rightarrow>
          let p = p\<lparr>pl_gate := gate_clear (pl_gate p)\<rparr>
          in if pl_haveSent p \<and> nodesEqual (pl_last p) nodes then p
             else if ctxDone then p
             else p\<lparr>pl_sent := pl_sent p @ [\<lparr>ro_Nodes = nodes\<rparr>], pl_last := nodes, pl_haveSent := True\<rparr>)"

definition pollLoop :: "(string + Node list) list \<Rightarrow> poller" where
  "pollLoop fetches = fold (\<lambda>f. poll f False) fetches poll_init"

subsection \<open>The file source\<close>

text \<open>\<open>net.SplitHostPort\<close>, with only whether it succeeds and what it returns.\<close>

fun before_last :: "char \<Rightarrow> string \<Rightarrow> (string \<times> string) option" where
  "before_last c [] = None"
| "before_last c (x # xs) =
     (case before_last c xs of
        Some (a, b) \<Rightarrow> Some (x # a, b)
      | None \<Rightarrow> if x = c then Some ([], xs) else None)"

definition SplitHostPort :: "string \<Rightarrow> (string \<times> string) option" where
  "SplitHostPort hp =
     (case before_last (CHR '':'') hp of
        None \<Rightarrow> None
      | Some (front, port) \<Rightarrow>
          if hp \<noteq> [] \<and> hd hp = CHR ''['' then
            (let inner = takeWhile (\<lambda>c. c \<noteq> CHR '']'') hp; rest = dropWhile (\<lambda>c. c \<noteq> CHR '']'') hp
             in if rest = [] then None
                else if tl rest = [] then None
                else if length inner + 1 \<noteq> length front then None
                else if CHR ''['' \<in> set (tl hp) then None
                else if CHR '']'' \<in> set (tl rest) then None
                else Some (tl inner, port))
          else if CHR '':'' \<in> set front then None
          else if CHR ''['' \<in> set hp then None
          else if CHR '']'' \<in> set hp then None
          else Some (front, port))"

datatype read_err = ReadFailed | ParseFailed | EmptyID | BadAddr NodeID string

record File =
  fl_path :: string
  fl_poll :: duration

definition NewFile :: "string \<Rightarrow> duration \<Rightarrow> File" where
  "NewFile path pollEvery =
     (let pollEvery = (if pollEvery \<le> 0 then 2 * second else pollEvery)
      in \<lparr>fl_path = path, fl_poll = pollEvery\<rparr>)"

fun check_nodes :: "Node list \<Rightarrow> read_err option" where
  "check_nodes [] = None"
| "check_nodes (n # ns) =
     (if node_ID n = [] then Some EmptyID
      else case SplitHostPort (node_Addr n) of
             None \<Rightarrow> Some (BadAddr (node_ID n) (node_Addr n))
           | Some _ \<Rightarrow> check_nodes ns)"

definition file_read ::
  "(string \<Rightarrow> 'b option) \<Rightarrow> ('b \<Rightarrow> Roster option) \<Rightarrow> File \<Rightarrow> read_err + Node list" where
  "file_read readFile unmarshal f =
     (case readFile (fl_path f) of
        None \<Rightarrow> Inl ReadFailed
      | Some bytes \<Rightarrow>
          (case unmarshal bytes of
             None \<Rightarrow> Inl ParseFailed
           | Some r \<Rightarrow>
               (case check_nodes (ro_Nodes r) of
                  Some err \<Rightarrow> Inl err
                | None \<Rightarrow> Inr (SortNodes (ro_Nodes r)))))"

subsection \<open>The static source\<close>

record Static =
  sc_nodes :: "Node list"

definition NewStatic :: "Node list \<Rightarrow> Static" where
  "NewStatic nodes = \<lparr>sc_nodes = nodes\<rparr>"

text \<open>The rosters sent before the context ends.\<close>

definition Static_Discover :: "Static \<Rightarrow> Roster list" where
  "Static_Discover s = [\<lparr>ro_Nodes = sc_nodes s\<rparr>]"

subsection \<open>The Tailscale source\<close>

record tsPeer =
  ts_HostName :: string
  ts_DNSName :: string
  ts_IPs :: "string list"
  ts_Tags :: "string list"
  ts_Online :: bool

text \<open>The order of \<open>st_Peer\<close> is one iteration order of the map; a nil entry is \<open>None\<close>.\<close>

record tsStatus =
  st_Self :: "tsPeer option"
  st_Peer :: "(string \<times> tsPeer option) list"

record TailscaleConfig =
  tc_Socket :: string
  tc_Tag :: string
  tc_HostPattern :: string
  tc_Port :: int
  tc_PollInterval :: duration
  tc_IncludeSelf :: bool

record Tailscale =
  tl_socket :: string
  tl_tag :: string
  tl_hostRE :: "(string \<Rightarrow> bool) option"
  tl_port :: int
  tl_poll :: duration
  tl_includeSelf :: bool

text \<open>The compiler of anchored host patterns is \<open>regexp.Compile\<close>; \<open>None\<close> is a bad pattern.\<close>

definition CompileHostPattern :: "(string \<Rightarrow> (string \<Rightarrow> bool) option) \<Rightarrow> string \<Rightarrow> (string \<Rightarrow> bool) option" where
  "CompileHostPattern compile pattern = compile ([CHR 0x5C] @ ''A(?:'' @ pattern @ '')'' @ [CHR 0x5C] @ ''z'')"

definition NewTailscale :: "(string \<Rightarrow> (string \<Rightarrow> bool) option) \<Rightarrow> TailscaleConfig \<Rightarrow> Tailscale" where
  "NewTailscale compile cfg =
     \<lparr>tl_socket = (if TrimSpace (tc_Socket cfg) = [] then ''/var/run/tailscale/tailscaled.sock'' else tc_Socket cfg),
      tl_tag = tc_Tag cfg,
      tl_hostRE = (if tc_HostPattern cfg \<noteq> [] then CompileHostPattern compile (tc_HostPattern cfg) else None),
      tl_port = (if tc_Port cfg \<le> 0 then 7717 else tc_Port cfg),
      tl_poll = (if tc_PollInterval cfg \<le> 0 then 15 * second else tc_PollInterval cfg),
      tl_includeSelf = tc_IncludeSelf cfg\<rparr>"

definition peer_matches :: "Tailscale \<Rightarrow> tsPeer \<Rightarrow> bool" where
  "peer_matches t p =
     (if tl_tag t \<noteq> [] \<and> list_ex (\<lambda>tag. tag = tl_tag t) (ts_Tags p) then True
      else case tl_hostRE t of None \<Rightarrow> False | Some re \<Rightarrow> re (ts_HostName p))"

text \<open>
  An address parses as IPv4 exactly when it is four dot-separated decimal fields up to
  255 without leading zeros, and then prints as it was written.
\<close>

fun split_on :: "char \<Rightarrow> string \<Rightarrow> string list" where
  "split_on c [] = [[]]"
| "split_on c (x # xs) =
     (if x = c then [] # split_on c xs
      else case split_on c xs of [] \<Rightarrow> [[x]] | f # fs \<Rightarrow> (x # f) # fs)"

definition ipv4_field :: "string \<Rightarrow> bool" where
  "ipv4_field f \<longleftrightarrow> 0 < length f \<and> length f \<le> 3 \<and> list_all (\<lambda>c. c \<in> set ''0123456789'') f
     \<and> (length f = 1 \<or> hd f \<noteq> CHR ''0'') \<and> read_nat_acc 0 f \<le> 255"

definition is_ipv4 :: "string \<Rightarrow> bool" where
  "is_ipv4 s \<longleftrightarrow> length (split_on (CHR ''.'') s) = 4 \<and> list_all ipv4_field (split_on (CHR ''.'') s)"

fun firstIPv4 :: "string list \<Rightarrow> string option" where
  "firstIPv4 [] = None"
| "firstIPv4 (s # ss) = (if is_ipv4 (TrimSpace s) then Some (TrimSpace s) else firstIPv4 ss)"

definition nodeFor :: "Tailscale \<Rightarrow> tsPeer \<Rightarrow> Node option" where
  "nodeFor t p =
     (if ts_HostName p = [] then None
      else case firstIPv4 (ts_IPs p) of
             None \<Rightarrow> None
           | Some ip \<Rightarrow> Some \<lparr>node_ID = ts_HostName p, node_Addr = ip @ '':'' @ show_int (tl_port t)\<rparr>)"

fun dedup_loop :: "NodeID list \<Rightarrow> Node list \<Rightarrow> Node list" where
  "dedup_loop seen [] = []"
| "dedup_loop seen (n # ns) =
     (if node_ID n \<in> set seen then dedup_loop seen ns else n # dedup_loop (node_ID n # seen) ns)"

definition dedupByID :: "Node list \<Rightarrow> Node list" where
  "dedupByID nodes = dedup_loop [] nodes"

definition selectNodes :: "Tailscale \<Rightarrow> tsStatus \<Rightarrow> Node list" where
  "selectNodes t status =
     (let own = (if tl_includeSelf t then
                   (case st_Self status of None \<Rightarrow> []
                    | Some s \<Rightarrow> (case nodeFor t s of None \<Rightarrow> [] | Some n \<Rightarrow> [n]))
                 else []);
          peers = List.map_filter (\<lambda>(_, q). case q of None \<Rightarrow> None
                    | Some p \<Rightarrow> if \<not> peer_matches t p then None else nodeFor t p) (st_Peer status)
      in SortNodes (dedupByID (own @ peers)))"

text \<open>
  \<open>fetch\<close>: the response of the local API is nothing (the request failed), or a status
  code with a body that decodes to a status or not.
\<close>

datatype fetch_err = RequestFailed | BadStatus int | DecodeFailed

definition ts_fetch :: "(int \<times> tsStatus option) option \<Rightarrow> Tailscale \<Rightarrow> fetch_err + Node list" where
  "ts_fetch resp t =
     (case resp of
        None \<Rightarrow> Inl RequestFailed
      | Some (code, decoded) \<Rightarrow>
          if code \<noteq> 200 then Inl (BadStatus code)
          else case decoded of None \<Rightarrow> Inl DecodeFailed | Some status \<Rightarrow> Inr (selectNodes t status))"

subsection \<open>Properties\<close>

lemma nodesEqual_iff: "nodesEqual as bs \<longleftrightarrow> as = bs"
  by (induction as bs rule: nodesEqual.induct) auto

fun successes :: "(string + Node list) list \<Rightarrow> Node list list" where
  "successes [] = []"
| "successes (Inl err # fs) = successes fs"
| "successes (Inr nodes # fs) = nodes # successes fs"

lemma remdups_adj_snoc: "remdups_adj (xs @ [x]) = (if xs \<noteq> [] \<and> last xs = x then remdups_adj xs else remdups_adj xs @ [x])"
  by (induction xs rule: remdups_adj.induct) auto

lemma successes_append [simp]: "successes (xs @ ys) = successes xs @ successes ys"
  by (induction xs rule: successes.induct) auto

lemma pollLoop_snoc: "pollLoop (fs @ [f]) = poll f False (pollLoop fs)"
  by (simp add: pollLoop_def)

lemma pollLoop_sent:
  "map ro_Nodes (pl_sent (pollLoop fs)) = remdups_adj (successes fs)
   \<and> pl_haveSent (pollLoop fs) = (successes fs \<noteq> [])
   \<and> (successes fs \<noteq> [] \<longrightarrow> pl_last (pollLoop fs) = last (successes fs))"
proof (induction fs rule: rev_induct)
  case Nil
  then show ?case by (simp add: pollLoop_def poll_init_def)
next
  case (snoc f fs)
  then show ?case
    by (cases f) (auto simp: pollLoop_snoc poll_def Let_def nodesEqual_iff remdups_adj_snoc split: prod.split)
qed

text \<open>The text of the last failure since the last success, empty if there is none.\<close>

definition failure :: "string + Node list \<Rightarrow> string" where
  "failure f = (case f of Inl err \<Rightarrow> err | Inr _ \<Rightarrow> [])"

lemma pollLoop_gate: "eg_last (pl_gate (pollLoop fs)) = (if fs = [] then [] else failure (last fs))"
proof (induction fs rule: rev_induct)
  case Nil
  then show ?case by (simp add: pollLoop_def poll_init_def)
next
  case (snoc f fs)
  then show ?case
    by (cases f) (auto simp: pollLoop_snoc poll_def Let_def shouldLog_def gate_clear_def failure_def split: prod.split)
qed

text \<open>
  The poll loop is change-only: whatever the fetches return, the rosters sent are
  the successful results with adjacent repetitions removed, failures in between
  notwithstanding, and after each fetch an error is logged exactly when the fetch failed
  and its text differs from that of the failure just before it.
\<close>

theorem poll_change_only:
  "map ro_Nodes (pl_sent (pollLoop fs)) = remdups_adj (successes fs) \<and>
   pl_logged (pollLoop (fs @ [f])) = pl_logged (pollLoop fs) @
     (if failure f = (if fs = [] then [] else failure (last fs)) \<or> (\<exists>ns. f = Inr ns) then [] else [failure f])"
  using pollLoop_sent [of fs] pollLoop_gate [of fs]
  by (cases f) (auto simp: pollLoop_snoc poll_def Let_def shouldLog_def failure_def split: prod.split)

lemma check_nodes_None:
  "check_nodes ns = None \<longleftrightarrow> list_all (\<lambda>n. node_ID n \<noteq> [] \<and> SplitHostPort (node_Addr n) \<noteq> None) ns"
  by (induction ns) (auto split: option.splits)

text \<open>
  A roster file is taken whole or not at all: a read succeeds exactly when the file
  is there, decodes, and every node has an id and a host:port address; it then returns
  the nodes of the file, sorted by id. The error of a read that fails says which of
  these did not hold.
\<close>

theorem file_read_whole:
  "(file_read readFile unmarshal f = Inr nodes) =
     (\<exists>bytes r. readFile (fl_path f) = Some bytes \<and> unmarshal bytes = Some r
        \<and> list_all (\<lambda>n. node_ID n \<noteq> [] \<and> SplitHostPort (node_Addr n) \<noteq> None) (ro_Nodes r)
        \<and> nodes = SortNodes (ro_Nodes r))
   \<and> (file_read readFile unmarshal f = Inl ReadFailed) = (readFile (fl_path f) = None)
   \<and> (file_read readFile unmarshal f = Inl ParseFailed) =
       (readFile (fl_path f) \<noteq> None \<and> Option.bind (readFile (fl_path f)) unmarshal = None)"
proof (intro conjI)
  have c: "check_nodes ns \<noteq> Some ReadFailed \<and> check_nodes ns \<noteq> Some ParseFailed" for ns
    by (induction ns) (auto split: option.split)
  then show "(file_read readFile unmarshal f = Inl ReadFailed) = (readFile (fl_path f) = None)"
    "(file_read readFile unmarshal f = Inl ParseFailed) =
       (readFile (fl_path f) \<noteq> None \<and> Option.bind (readFile (fl_path f)) unmarshal = None)"
    by (auto simp: file_read_def split: option.splits)
qed (auto simp: file_read_def simp flip: check_nodes_None simp del: not_None_eq split: option.splits)

text \<open>The candidates that \<open>selectNodes\<close> gathers before it removes duplicates.\<close>

definition offered :: "Tailscale \<Rightarrow> tsStatus \<Rightarrow> Node list" where
  "offered t status =
     (if tl_includeSelf t then List.map_filter (nodeFor t) (case st_Self status of None \<Rightarrow> [] | Some s \<Rightarrow> [s]) else [])
     @ List.map_filter (nodeFor t) (filter (peer_matches t) (List.map_filter snd (st_Peer status)))"

lemma selectNodes_offered: "selectNodes t status = SortNodes (dedupByID (offered t status))"
proof -
  have "List.map_filter (\<lambda>(_, q). case q of None \<Rightarrow> None
      | Some p \<Rightarrow> if \<not> peer_matches t p then None else nodeFor t p) kvs
    = List.map_filter (nodeFor t) (filter (peer_matches t) (List.map_filter snd kvs))" for kvs :: "(string \<times> tsPeer option) list"
    by (induction kvs) (auto simp: List.map_filter_def split: option.splits)
  then show ?thesis
    by (auto simp: selectNodes_def offered_def Let_def List.map_filter_def split: option.split)
qed

lemma dedup_loop_spec:
  "distinct (map node_ID (dedup_loop seen ns)) \<and> set (dedup_loop seen ns) \<subseteq> set ns
   \<and> node_ID ` set (dedup_loop seen ns) = node_ID ` set ns - set seen"
proof (induction seen ns rule: dedup_loop.induct)
  case (2 seen n ns)
  show ?case
  proof (cases "node_ID n \<in> set seen")
    case False
    with 2(2) have IH: "distinct (map node_ID (dedup_loop (node_ID n # seen) ns))"
      "set (dedup_loop (node_ID n # seen) ns) \<subseteq> set ns"
      "node_ID ` set (dedup_loop (node_ID n # seen) ns) = node_ID ` set ns - insert (node_ID n) (set seen)"
      by auto
    from IH(3) have "node_ID n \<notin> node_ID ` set (dedup_loop (node_ID n # seen) ns)" by simp
    with IH False show ?thesis by auto
  qed (use 2(1) in auto)
qed simp

lemma offered_mset:
  assumes "mset (st_Peer s') = mset (st_Peer s)" and "st_Self s' = st_Self s"
  shows "mset (offered t s') = mset (offered t s)"
proof -
  have mf: "mset (List.map_filter f xs) = image_mset (the \<circ> f) (filter_mset (\<lambda>x. f x \<noteq> None) (mset xs))"
    for f :: "'a \<Rightarrow> 'b option" and xs by (simp add: List.map_filter_def)
  show ?thesis using assms by (simp add: offered_def mf del: set_mset_comp_mset)
qed

lemma SortNodes_unique:
  assumes "distinct (map node_ID as)" and "mset as = mset bs"
  shows "SortNodes as = SortNodes bs"
proof -
  have "inj_on node_ID (set as)" using assms(1) by (simp add: distinct_map)
  then show ?thesis
    unfolding SortNodes_def by (intro sort_key_inj_key_eq) (simp_all add: assms(2))
qed

text \<open>
  What the Tailscale source selects: a roster sorted by id with one node per host
  name, every node formed from the local node or from a peer that matches the filter,
  and every host name that offers a usable node present. Peers are not dropped for being
  offline.
\<close>

theorem select_nodes_sound:
  "let ns = selectNodes t status in
   sorted (map node_ID ns) \<and> distinct (map node_ID ns) \<and> set ns \<subseteq> set (offered t status)
   \<and> node_ID ` set ns = node_ID ` set (offered t status)"
  using dedup_loop_spec [of "[]" "offered t status"]
  by (simp add: Let_def selectNodes_offered dedupByID_def)

lemma dedup_id: "distinct (map node_ID ns) \<Longrightarrow> set seen \<inter> node_ID ` set ns = {} \<Longrightarrow> dedup_loop seen ns = ns"
  by (induction seen ns rule: dedup_loop.induct) auto

text \<open>
  When no two offered nodes share a host name the roster does not depend on the
  order in which Go walks the peer map.
\<close>

theorem select_order_free:
  assumes "mset (st_Peer s') = mset (st_Peer s)" and "st_Self s' = st_Self s"
    and "distinct (map node_ID (offered t s))"
  shows "selectNodes t s' = selectNodes t s"
proof -
  have m: "mset (offered t s') = mset (offered t s)" by (rule offered_mset [OF assms(1,2)])
  then have "distinct (map node_ID (offered t s'))"
    using assms(3) by (metis mset_eq_imp_distinct_iff mset_map)
  then show ?thesis
    using SortNodes_unique [OF _ m] assms(3) by (simp add: selectNodes_offered dedupByID_def dedup_id)
qed

definition ts_peer :: "string \<Rightarrow> string \<Rightarrow> tsPeer" where
  "ts_peer host ip = \<lparr>ts_HostName = host, ts_DNSName = [], ts_IPs = [ip], ts_Tags = [''tag:w''], ts_Online = False\<rparr>"

definition ts_demo :: Tailscale where
  "ts_demo = \<lparr>tl_socket = [], tl_tag = ''tag:w'', tl_hostRE = None, tl_port = 80, tl_poll = 15 * second, tl_includeSelf = True\<rparr>"

definition ts_status :: "(string \<times> string) list \<Rightarrow> tsStatus" where
  "ts_status peers = \<lparr>st_Self = Some (ts_peer ''self'' ''100.64.0.1''),
     st_Peer = map (\<lambda>(host, ip). (ip, Some (ts_peer host ip))) peers\<rparr>"

lemma select_order_free_witness:
  "selectNodes ts_demo (ts_status [(''b'', ''100.64.0.3''), (''a'', ''100.64.0.2'')])
   = selectNodes ts_demo (ts_status [(''a'', ''100.64.0.2''), (''b'', ''100.64.0.3'')])"
proof (rule select_order_free)
  show "distinct (map node_ID (offered ts_demo (ts_status [(''a'', ''100.64.0.2''), (''b'', ''100.64.0.3'')])))"
    by code_simp
qed (simp_all add: ts_status_def)

text \<open>
  Two peers may advertise one host name. Which of their addresses the roster carries
  then depends on the iteration order of the map, so two polls of the same unchanged
  status can return different rosters, and the change-only loop sends both.
\<close>

theorem twin_hosts_flap:
  "let s1 = ts_status [(''n'', ''100.64.0.2''), (''n'', ''100.64.0.3'')];
       s2 = ts_status [(''n'', ''100.64.0.3''), (''n'', ''100.64.0.2'')];
       polls = [Inr (selectNodes ts_demo s1), Inr (selectNodes ts_demo s2), Inr (selectNodes ts_demo s1)]
   in set (st_Peer s1) = set (st_Peer s2) \<and> length (pl_sent (pollLoop polls)) = 3"
  by code_simp

end
