(* ===== verification/Warden_Config.thy ===== *)
theory Warden_Config
  imports Warden_Discovery Go_Time
begin

text \<open>
  Node configuration: \<^verbatim>\<open>config/config.go\<close>, \<^verbatim>\<open>env.go\<close> and \<^verbatim>\<open>modes.go\<close>. The YAML library
  is outside: what it decodes from a file, the presence of keys and the raw strings of
  the custom decoders, is the record \<open>yamlDoc\<close>, and the source's own decoders are applied
  to that. \<open>time.ParseDuration\<close>, \<open>regexp.Compile\<close> and \<open>strconv.Quote\<close> are arguments.
  A step of loading that can fail returns a sum.
\<close>

subsection \<open>Modes and variable names\<close>

definition DiscoveryModeStatic :: string where "DiscoveryModeStatic = ''static''"
definition DiscoveryModeTailscale :: string where "DiscoveryModeTailscale = ''tailscale''"
definition DiscoveryModeFile :: string where "DiscoveryModeFile = ''file''"
definition NotifyModeSMTP :: string where "NotifyModeSMTP = ''smtp''"
definition NotifyModeLog :: string where "NotifyModeLog = ''log''"
definition NotifyModeFile :: string where "NotifyModeFile = ''file''"

lemmas mode_defs = DiscoveryModeStatic_def DiscoveryModeTailscale_def DiscoveryModeFile_def
  NotifyModeSMTP_def NotifyModeLog_def NotifyModeFile_def

subsection \<open>The configuration\<close>

record TimingConfig =
  tm_HeartbeatInterval :: duration
  tm_SuspectAfter :: duration
  tm_DeadAfter :: duration
  tm_ElectionTimeoutMin :: duration
  tm_ElectionTimeoutMax :: duration
  tm_RPCTimeout :: duration

record WatchdogConfig =
  wg_Cooldown :: duration
  wg_NotifyRecovery :: "bool option"
  wg_MaxIncidents :: int

record NotifyConfig =
  nc_Mode :: string
  nc_File :: string
  nc_SMTPHost :: string
  nc_SMTPPort :: int
  nc_SMTPUser :: string
  nc_SMTPPass :: string
  nc_SMTPFrom :: string
  nc_SMTPTo :: "string list"

record TailscaleDiscoveryConfig =
  td_Socket :: string
  td_Tag :: string
  td_HostPattern :: string
  td_PollInterval :: duration

record DiscoveryConfig =
  dc_Mode :: string
  dc_ClusterID :: string
  dc_JoinStability :: duration
  dc_RemoveAfter :: duration
  dc_File :: string
  dc_FilePollInterval :: duration
  dc_Tailscale :: TailscaleDiscoveryConfig

record NodeConfig =
  nd_NodeID :: string
  nd_Bind :: string
  nd_DataDir :: string
  nd_Peers :: "Node list"
  nd_Timing :: TimingConfig
  nd_Watchdog :: WatchdogConfig
  nd_Notify :: NotifyConfig
  nd_LogLevel :: string
  nd_Discovery :: DiscoveryConfig
  nd_Advertise :: string

definition defaultConfig :: NodeConfig where
  "defaultConfig =
     \<lparr>nd_NodeID = [], nd_Bind = '':7717'', nd_DataDir = ''/var/lib/warden'', nd_Peers = [],
      nd_Timing = \<lparr>tm_HeartbeatInterval = second, tm_SuspectAfter = 5 * second, tm_DeadAfter = 15 * second,
                   tm_ElectionTimeoutMin = 1500 * millisecond, tm_ElectionTimeoutMax = 3 * second,
                   tm_RPCTimeout = 500 * millisecond\<rparr>,
      nd_Watchdog = \<lparr>wg_Cooldown = 10 * minute, wg_NotifyRecovery = None, wg_MaxIncidents = 100\<rparr>,
      nd_Notify = \<lparr>nc_Mode = [], nc_File = [], nc_SMTPHost = [], nc_SMTPPort = 587, nc_SMTPUser = [],
                   nc_SMTPPass = [], nc_SMTPFrom = [], nc_SMTPTo = []\<rparr>,
      nd_LogLevel = ''info'',
      nd_Discovery = \<lparr>dc_Mode = DiscoveryModeStatic, dc_ClusterID = ''candacenet'',
                      dc_JoinStability = 30 * second, dc_RemoveAfter = 0, dc_File = [],
                      dc_FilePollInterval = 2 * second,
                      dc_Tailscale = \<lparr>td_Socket = ''/var/run/tailscale/tailscaled.sock'', td_Tag = [],
                                      td_HostPattern = [], td_PollInterval = 15 * second\<rparr>\<rparr>,
      nd_Advertise = []\<rparr>"

subsection \<open>Steps that can fail\<close>

datatype peer_err = NoEquals string | NoID string | NoAddr string | PeerAddr string string | DuplicatePeer string | NoPeers string

datatype load_err =
    ReadErr string
  | ParseErr string
  | FieldErr string string
  | EnvErr string string
  | PeersErr peer_err

fun all_steps :: "('a \<Rightarrow> 'e + 'a) list \<Rightarrow> 'a \<Rightarrow> 'e + 'a" where
  "all_steps [] x = Inr x"
| "all_steps (f # fs) x = and_then (f x) (all_steps fs)"

lemma all_steps_append: "all_steps (fs @ gs) x = and_then (all_steps fs x) (all_steps gs)"
  by (induction fs x rule: all_steps.induct) (auto split: sum.split, metis and_then.simps old.sum.exhaust)

type_synonym parse_duration = "string \<Rightarrow> duration option"

subsection \<open>Decoding the file\<close>

record rawTiming =
  rt_heartbeat_interval :: string
  rt_suspect_after :: string
  rt_dead_after :: string
  rt_election_timeout_min :: string
  rt_election_timeout_max :: string
  rt_rpc_timeout :: string

record rawWatchdog =
  rw_cooldown :: string
  rw_notify_recovery :: "bool option"
  rw_max_incidents :: "int option"

record rawTailscale =
  rl_socket :: string
  rl_tag :: string
  rl_host_pattern :: string
  rl_poll_interval :: string

record rawDiscovery =
  rd_mode :: string
  rd_cluster_id :: string
  rd_join_stability :: string
  rd_remove_after :: string
  rd_file :: string
  rd_file_poll_interval :: string
  rd_tailscale :: "rawTailscale option"

text \<open>One duration of a decoder's table: empty leaves the field alone.\<close>

definition field_duration ::
  "parse_duration \<Rightarrow> string \<Rightarrow> string \<Rightarrow> (duration \<Rightarrow> 'a \<Rightarrow> 'a) \<Rightarrow> 'a \<Rightarrow> load_err + 'a" where
  "field_duration parse name src put x =
     (if src = [] then Inr x
      else case parse src of None \<Rightarrow> Inl (FieldErr name src) | Some d \<Rightarrow> Inr (put d x))"

definition TimingConfig_Unmarshal :: "parse_duration \<Rightarrow> rawTiming \<Rightarrow> TimingConfig \<Rightarrow> load_err + TimingConfig" where
  "TimingConfig_Unmarshal parse raw =
     all_steps
       [field_duration parse ''timing.heartbeat_interval'' (rt_heartbeat_interval raw) (\<lambda>d t. t\<lparr>tm_HeartbeatInterval := d\<rparr>),
        field_duration parse ''timing.suspect_after'' (rt_suspect_after raw) (\<lambda>d t. t\<lparr>tm_SuspectAfter := d\<rparr>),
        field_duration parse ''timing.dead_after'' (rt_dead_after raw) (\<lambda>d t. t\<lparr>tm_DeadAfter := d\<rparr>),
        field_duration parse ''timing.election_timeout_min'' (rt_election_timeout_min raw) (\<lambda>d t. t\<lparr>tm_ElectionTimeoutMin := d\<rparr>),
        field_duration parse ''timing.election_timeout_max'' (rt_election_timeout_max raw) (\<lambda>d t. t\<lparr>tm_ElectionTimeoutMax := d\<rparr>),
        field_duration parse ''timing.rpc_timeout'' (rt_rpc_timeout raw) (\<lambda>d t. t\<lparr>tm_RPCTimeout := d\<rparr>)]"

definition WatchdogConfig_Unmarshal :: "parse_duration \<Rightarrow> rawWatchdog \<Rightarrow> WatchdogConfig \<Rightarrow> load_err + WatchdogConfig" where
  "WatchdogConfig_Unmarshal parse raw w =
     and_then (field_duration parse ''watchdog.cooldown'' (rw_cooldown raw) (\<lambda>d w. w\<lparr>wg_Cooldown := d\<rparr>) w)
       (\<lambda>w. let w = (case rw_notify_recovery raw of None \<Rightarrow> w | Some b \<Rightarrow> w\<lparr>wg_NotifyRecovery := Some b\<rparr>);
                w = (case rw_max_incidents raw of None \<Rightarrow> w | Some n \<Rightarrow> w\<lparr>wg_MaxIncidents := n\<rparr>)
            in Inr w)"

definition put_nonempty :: "string \<Rightarrow> (string \<Rightarrow> 'a \<Rightarrow> 'a) \<Rightarrow> 'a \<Rightarrow> 'a" where
  "put_nonempty s put x = (if s \<noteq> [] then put s x else x)"

definition Tailscale_Unmarshal ::
  "parse_duration \<Rightarrow> rawTailscale \<Rightarrow> TailscaleDiscoveryConfig \<Rightarrow> load_err + TailscaleDiscoveryConfig" where
  "Tailscale_Unmarshal parse raw t =
     (let t = put_nonempty (rl_socket raw) (\<lambda>v t. t\<lparr>td_Socket := v\<rparr>) t;
          t = put_nonempty (rl_tag raw) (\<lambda>v t. t\<lparr>td_Tag := v\<rparr>) t;
          t = put_nonempty (rl_host_pattern raw) (\<lambda>v t. t\<lparr>td_HostPattern := v\<rparr>) t
      in field_duration parse ''discovery.tailscale.poll_interval'' (rl_poll_interval raw)
           (\<lambda>d t. t\<lparr>td_PollInterval := d\<rparr>) t)"

definition DiscoveryConfig_Unmarshal ::
  "parse_duration \<Rightarrow> rawDiscovery \<Rightarrow> DiscoveryConfig \<Rightarrow> load_err + DiscoveryConfig" where
  "DiscoveryConfig_Unmarshal parse raw d =
     (let d = put_nonempty (rd_mode raw) (\<lambda>v d. d\<lparr>dc_Mode := v\<rparr>) d;
          d = put_nonempty (rd_cluster_id raw) (\<lambda>v d. d\<lparr>dc_ClusterID := v\<rparr>) d;
          d = put_nonempty (rd_file raw) (\<lambda>v d. d\<lparr>dc_File := v\<rparr>) d
      in and_then
           (all_steps
             [field_duration parse ''discovery.join_stability'' (rd_join_stability raw) (\<lambda>v d. d\<lparr>dc_JoinStability := v\<rparr>),
              field_duration parse ''discovery.remove_after'' (rd_remove_after raw) (\<lambda>v d. d\<lparr>dc_RemoveAfter := v\<rparr>),
              field_duration parse ''discovery.file_poll_interval'' (rd_file_poll_interval raw)
                (\<lambda>v d. d\<lparr>dc_FilePollInterval := v\<rparr>)] d)
           (\<lambda>d. case rd_tailscale raw of
                  None \<Rightarrow> Inr d
                | Some rl \<Rightarrow> and_then (Tailscale_Unmarshal parse rl (dc_Tailscale d)) (\<lambda>t. Inr (d\<lparr>dc_Tailscale := t\<rparr>))))"

text \<open>What \<open>yaml.Unmarshal\<close> finds in a file: \<open>None\<close> is an absent key. There is no key for the password.\<close>

record yamlDoc =
  yd_node_id :: "string option"
  yd_bind :: "string option"
  yd_data_dir :: "string option"
  yd_peers :: "Node list option"
  yd_timing :: "rawTiming option"
  yd_watchdog :: "rawWatchdog option"
  yd_mode :: "string option"
  yd_file :: "string option"
  yd_smtp_host :: "string option"
  yd_smtp_port :: "int option"
  yd_smtp_user :: "string option"
  yd_smtp_from :: "string option"
  yd_smtp_to :: "string list option"
  yd_log_level :: "string option"
  yd_discovery :: "rawDiscovery option"
  yd_advertise_addr :: "string option"

definition put_present :: "'v option \<Rightarrow> ('v \<Rightarrow> 'a \<Rightarrow> 'a) \<Rightarrow> 'a \<Rightarrow> load_err + 'a" where
  "put_present v put x = Inr (case v of None \<Rightarrow> x | Some y \<Rightarrow> put y x)"

definition put_block :: "'r option \<Rightarrow> ('r \<Rightarrow> 'b \<Rightarrow> load_err + 'b) \<Rightarrow> ('a \<Rightarrow> 'b) \<Rightarrow> ('b \<Rightarrow> 'a \<Rightarrow> 'a) \<Rightarrow> 'a \<Rightarrow> load_err + 'a" where
  "put_block raw dec get put x =
     (case raw of None \<Rightarrow> Inr x | Some r \<Rightarrow> and_then (dec r (get x)) (\<lambda>b. Inr (put b x)))"

abbreviation upd_notify :: "(NotifyConfig \<Rightarrow> NotifyConfig) \<Rightarrow> NodeConfig \<Rightarrow> NodeConfig" where
  "upd_notify f c \<equiv> c\<lparr>nd_Notify := f (nd_Notify c)\<rparr>"

abbreviation upd_timing :: "(TimingConfig \<Rightarrow> TimingConfig) \<Rightarrow> NodeConfig \<Rightarrow> NodeConfig" where
  "upd_timing f c \<equiv> c\<lparr>nd_Timing := f (nd_Timing c)\<rparr>"

abbreviation upd_discovery :: "(DiscoveryConfig \<Rightarrow> DiscoveryConfig) \<Rightarrow> NodeConfig \<Rightarrow> NodeConfig" where
  "upd_discovery f c \<equiv> c\<lparr>nd_Discovery := f (nd_Discovery c)\<rparr>"

abbreviation upd_tailscale :: "(TailscaleDiscoveryConfig \<Rightarrow> TailscaleDiscoveryConfig) \<Rightarrow> NodeConfig \<Rightarrow> NodeConfig" where
  "upd_tailscale f \<equiv> upd_discovery (\<lambda>d. d\<lparr>dc_Tailscale := f (dc_Tailscale d)\<rparr>)"

abbreviation upd_watchdog :: "(WatchdogConfig \<Rightarrow> WatchdogConfig) \<Rightarrow> NodeConfig \<Rightarrow> NodeConfig" where
  "upd_watchdog f c \<equiv> c\<lparr>nd_Watchdog := f (nd_Watchdog c)\<rparr>"

definition overlay :: "parse_duration \<Rightarrow> yamlDoc \<Rightarrow> NodeConfig \<Rightarrow> load_err + NodeConfig" where
  "overlay parse y =
     all_steps
       [put_present (yd_node_id y) (\<lambda>v c. c\<lparr>nd_NodeID := v\<rparr>),
        put_present (yd_bind y) (\<lambda>v c. c\<lparr>nd_Bind := v\<rparr>),
        put_present (yd_data_dir y) (\<lambda>v c. c\<lparr>nd_DataDir := v\<rparr>),
        put_present (yd_peers y) (\<lambda>v c. c\<lparr>nd_Peers := v\<rparr>),
        put_block (yd_timing y) (TimingConfig_Unmarshal parse) nd_Timing (\<lambda>b c. c\<lparr>nd_Timing := b\<rparr>),
        put_block (yd_watchdog y) (WatchdogConfig_Unmarshal parse) nd_Watchdog (\<lambda>b c. c\<lparr>nd_Watchdog := b\<rparr>),
        put_present (yd_mode y) (\<lambda>v. upd_notify (\<lambda>n. n\<lparr>nc_Mode := v\<rparr>)),
        put_present (yd_file y) (\<lambda>v. upd_notify (\<lambda>n. n\<lparr>nc_File := v\<rparr>)),
        put_present (yd_smtp_host y) (\<lambda>v. upd_notify (\<lambda>n. n\<lparr>nc_SMTPHost := v\<rparr>)),
        put_present (yd_smtp_port y) (\<lambda>v. upd_notify (\<lambda>n. n\<lparr>nc_SMTPPort := v\<rparr>)),
        put_present (yd_smtp_user y) (\<lambda>v. upd_notify (\<lambda>n. n\<lparr>nc_SMTPUser := v\<rparr>)),
        put_present (yd_smtp_from y) (\<lambda>v. upd_notify (\<lambda>n. n\<lparr>nc_SMTPFrom := v\<rparr>)),
        put_present (yd_smtp_to y) (\<lambda>v. upd_notify (\<lambda>n. n\<lparr>nc_SMTPTo := v\<rparr>)),
        put_present (yd_log_level y) (\<lambda>v c. c\<lparr>nd_LogLevel := v\<rparr>),
        put_block (yd_discovery y) (DiscoveryConfig_Unmarshal parse) nd_Discovery (\<lambda>b c. c\<lparr>nd_Discovery := b\<rparr>),
        put_present (yd_advertise_addr y) (\<lambda>v c. c\<lparr>nd_Advertise := v\<rparr>)]"

subsection \<open>The environment\<close>

definition envNodeID :: string where "envNodeID = ''WARDEN_NODE_ID''"
definition envBind :: string where "envBind = ''WARDEN_BIND''"
definition envDataDir :: string where "envDataDir = ''WARDEN_DATA_DIR''"
definition envLogLevel :: string where "envLogLevel = ''WARDEN_LOG_LEVEL''"
definition envPeers :: string where "envPeers = ''WARDEN_PEERS''"
definition envHeartbeatInterval :: string where "envHeartbeatInterval = ''WARDEN_HEARTBEAT_INTERVAL''"
definition envSuspectAfter :: string where "envSuspectAfter = ''WARDEN_SUSPECT_AFTER''"
definition envDeadAfter :: string where "envDeadAfter = ''WARDEN_DEAD_AFTER''"
definition envElectionTimeoutMin :: string where "envElectionTimeoutMin = ''WARDEN_ELECTION_TIMEOUT_MIN''"
definition envElectionTimeoutMax :: string where "envElectionTimeoutMax = ''WARDEN_ELECTION_TIMEOUT_MAX''"
definition envRPCTimeout :: string where "envRPCTimeout = ''WARDEN_RPC_TIMEOUT''"
definition envCooldown :: string where "envCooldown = ''WARDEN_COOLDOWN''"
definition envNotifyRecovery :: string where "envNotifyRecovery = ''WARDEN_NOTIFY_RECOVERY''"
definition envNotifyMode :: string where "envNotifyMode = ''WARDEN_NOTIFY_MODE''"
definition envNotifyFile :: string where "envNotifyFile = ''WARDEN_NOTIFY_FILE''"
definition envSMTPHost :: string where "envSMTPHost = ''SMTP_HOST''"
definition envSMTPPort :: string where "envSMTPPort = ''SMTP_PORT''"
definition envSMTPUser :: string where "envSMTPUser = ''SMTP_USER''"
definition envSMTPPass :: string where "envSMTPPass = ''SMTP_PASS''"
definition envSMTPFrom :: string where "envSMTPFrom = ''SMTP_FROM''"
definition envSMTPTo :: string where "envSMTPTo = ''SMTP_TO''"
definition envDiscoveryMode :: string where "envDiscoveryMode = ''WARDEN_DISCOVERY_MODE''"
definition envClusterID :: string where "envClusterID = ''WARDEN_CLUSTER_ID''"
definition envJoinStability :: string where "envJoinStability = ''WARDEN_JOIN_STABILITY''"
definition envRemoveAfter :: string where "envRemoveAfter = ''WARDEN_REMOVE_AFTER''"
definition envDiscoveryFile :: string where "envDiscoveryFile = ''WARDEN_DISCOVERY_FILE''"
definition envFilePollInterval :: string where "envFilePollInterval = ''WARDEN_FILE_POLL_INTERVAL''"
definition envTSSocket :: string where "envTSSocket = ''WARDEN_TS_SOCKET''"
definition envTSTag :: string where "envTSTag = ''WARDEN_TS_TAG''"
definition envTSHostPattern :: string where "envTSHostPattern = ''WARDEN_TS_HOST_PATTERN''"
definition envTSPollInterval :: string where "envTSPollInterval = ''WARDEN_TS_POLL_INTERVAL''"
definition envAdvertiseAddr :: string where "envAdvertiseAddr = ''WARDEN_ADVERTISE_ADDR''"

lemmas env_defs = envNodeID_def envBind_def envDataDir_def envLogLevel_def envPeers_def
  envHeartbeatInterval_def envSuspectAfter_def envDeadAfter_def envElectionTimeoutMin_def
  envElectionTimeoutMax_def envRPCTimeout_def envCooldown_def envNotifyRecovery_def
  envNotifyMode_def envNotifyFile_def envSMTPHost_def envSMTPPort_def envSMTPUser_def
  envSMTPPass_def envSMTPFrom_def envSMTPTo_def envDiscoveryMode_def envClusterID_def
  envJoinStability_def envRemoveAfter_def envDiscoveryFile_def envFilePollInterval_def
  envTSSocket_def envTSTag_def envTSHostPattern_def envTSPollInterval_def envAdvertiseAddr_def

type_synonym getenv = "string \<Rightarrow> string"

definition envString :: "getenv \<Rightarrow> string \<Rightarrow> (string \<Rightarrow> 'a \<Rightarrow> 'a) \<Rightarrow> 'a \<Rightarrow> load_err + 'a" where
  "envString getenv key put x = (let v = TrimSpace (getenv key) in Inr (if v \<noteq> [] then put v x else x))"

definition envDuration ::
  "parse_duration \<Rightarrow> getenv \<Rightarrow> string \<Rightarrow> (duration \<Rightarrow> 'a \<Rightarrow> 'a) \<Rightarrow> 'a \<Rightarrow> load_err + 'a" where
  "envDuration parse getenv key put x =
     (let v = TrimSpace (getenv key)
      in if v = [] then Inr x
         else case parse v of None \<Rightarrow> Inl (EnvErr key v) | Some d \<Rightarrow> Inr (put d x))"

text \<open>\<open>strconv.Atoi\<close>: an optional sign, at least one digit, within the range of a 64-bit int.\<close>

definition Atoi :: "string \<Rightarrow> int option" where
  "Atoi s =
     (let neg = (s \<noteq> [] \<and> hd s = CHR ''-'');
          ds = (if s \<noteq> [] \<and> (hd s = CHR ''-'' \<or> hd s = CHR ''+'') then tl s else s);
          n = (if neg then - int (read_nat_acc 0 ds) else int (read_nat_acc 0 ds))
      in if ds = [] \<or> \<not> list_all (\<lambda>c. c \<in> set ''0123456789'') ds then None
         else if n < - (2 ^ 63) \<or> 2 ^ 63 \<le> n then None
         else Some n)"

definition envInt :: "getenv \<Rightarrow> string \<Rightarrow> (int \<Rightarrow> 'a \<Rightarrow> 'a) \<Rightarrow> 'a \<Rightarrow> load_err + 'a" where
  "envInt getenv key put x =
     (let v = TrimSpace (getenv key)
      in if v = [] then Inr x
         else case Atoi v of None \<Rightarrow> Inl (EnvErr key v) | Some n \<Rightarrow> Inr (put n x))"

definition ParseBool :: "string \<Rightarrow> bool option" where
  "ParseBool s =
     (if s \<in> {''1'', ''t'', ''T'', ''true'', ''TRUE'', ''True''} then Some True
      else if s \<in> {''0'', ''f'', ''F'', ''false'', ''FALSE'', ''False''} then Some False
      else None)"

definition splitList :: "string \<Rightarrow> string list" where
  "splitList s = filter (\<lambda>p. p \<noteq> []) (map TrimSpace (split_on (CHR '','') s))"

fun parse_pairs :: "NodeID list \<Rightarrow> Node list \<Rightarrow> string list \<Rightarrow> peer_err + Node list" where
  "parse_pairs seen peers [] = Inr peers"
| "parse_pairs seen peers (p # ps) =
     (let pair = TrimSpace p
      in if pair = [] then parse_pairs seen peers ps
         else if CHR ''='' \<notin> set pair then Inl (NoEquals pair)
         else let i = TrimSpace (takeWhile (\<lambda>c. c \<noteq> CHR ''='') pair);
                  addr = TrimSpace (tl (dropWhile (\<lambda>c. c \<noteq> CHR ''='') pair))
              in if i = [] then Inl (NoID pair)
                 else if addr = [] then Inl (NoAddr pair)
                 else if SplitHostPort addr = None then Inl (PeerAddr i addr)
                 else if i \<in> set seen then Inl (DuplicatePeer i)
                 else parse_pairs (i # seen) (peers @ [\<lparr>node_ID = i, node_Addr = addr\<rparr>]) ps)"

definition parsePeers :: "string \<Rightarrow> peer_err + Node list" where
  "parsePeers s =
     and_then (parse_pairs [] [] (split_on (CHR '','') s))
       (\<lambda>peers. if length peers = 0 then Inl (NoPeers s) else Inr peers)"

definition envPeersStep :: "getenv \<Rightarrow> NodeConfig \<Rightarrow> load_err + NodeConfig" where
  "envPeersStep getenv c =
     (let v = TrimSpace (getenv envPeers)
      in if v = [] then Inr c
         else case parsePeers v of Inl e \<Rightarrow> Inl (PeersErr e) | Inr peers \<Rightarrow> Inr (c\<lparr>nd_Peers := peers\<rparr>))"

definition envRecoveryStep :: "getenv \<Rightarrow> NodeConfig \<Rightarrow> load_err + NodeConfig" where
  "envRecoveryStep getenv c =
     (let v = TrimSpace (getenv envNotifyRecovery)
      in if v = [] then Inr c
         else case ParseBool v of
                None \<Rightarrow> Inl (EnvErr envNotifyRecovery v)
              | Some b \<Rightarrow> Inr (upd_watchdog (\<lambda>w. w\<lparr>wg_NotifyRecovery := Some b\<rparr>) c))"

definition envSMTPToStep :: "getenv \<Rightarrow> NodeConfig \<Rightarrow> load_err + NodeConfig" where
  "envSMTPToStep getenv c =
     (let v = TrimSpace (getenv envSMTPTo)
      in if v = [] then Inr c
         else if 0 < length (splitList v) then Inr (upd_notify (\<lambda>n. n\<lparr>nc_SMTPTo := splitList v\<rparr>) c) else Inr c)"

definition applyEnv :: "parse_duration \<Rightarrow> getenv \<Rightarrow> NodeConfig \<Rightarrow> load_err + NodeConfig" where
  "applyEnv parse getenv =
     all_steps
       [envString getenv envNodeID (\<lambda>v c. c\<lparr>nd_NodeID := v\<rparr>),
        envString getenv envBind (\<lambda>v c. c\<lparr>nd_Bind := v\<rparr>),
        envString getenv envDataDir (\<lambda>v c. c\<lparr>nd_DataDir := v\<rparr>),
        envString getenv envLogLevel (\<lambda>v c. c\<lparr>nd_LogLevel := v\<rparr>),
        envPeersStep getenv,
        envDuration parse getenv envHeartbeatInterval (\<lambda>d. upd_timing (\<lambda>t. t\<lparr>tm_HeartbeatInterval := d\<rparr>)),
        envDuration parse getenv envSuspectAfter (\<lambda>d. upd_timing (\<lambda>t. t\<lparr>tm_SuspectAfter := d\<rparr>)),
        envDuration parse getenv envDeadAfter (\<lambda>d. upd_timing (\<lambda>t. t\<lparr>tm_DeadAfter := d\<rparr>)),
        envDuration parse getenv envElectionTimeoutMin (\<lambda>d. upd_timing (\<lambda>t. t\<lparr>tm_ElectionTimeoutMin := d\<rparr>)),
        envDuration parse getenv envElectionTimeoutMax (\<lambda>d. upd_timing (\<lambda>t. t\<lparr>tm_ElectionTimeoutMax := d\<rparr>)),
        envDuration parse getenv envRPCTimeout (\<lambda>d. upd_timing (\<lambda>t. t\<lparr>tm_RPCTimeout := d\<rparr>)),
        envDuration parse getenv envCooldown (\<lambda>d. upd_watchdog (\<lambda>w. w\<lparr>wg_Cooldown := d\<rparr>)),
        envRecoveryStep getenv,
        envString getenv envNotifyMode (\<lambda>v. upd_notify (\<lambda>n. n\<lparr>nc_Mode := v\<rparr>)),
        envString getenv envNotifyFile (\<lambda>v. upd_notify (\<lambda>n. n\<lparr>nc_File := v\<rparr>)),
        envString getenv envSMTPHost (\<lambda>v. upd_notify (\<lambda>n. n\<lparr>nc_SMTPHost := v\<rparr>)),
        envInt getenv envSMTPPort (\<lambda>v. upd_notify (\<lambda>n. n\<lparr>nc_SMTPPort := v\<rparr>)),
        envString getenv envSMTPUser (\<lambda>v. upd_notify (\<lambda>n. n\<lparr>nc_SMTPUser := v\<rparr>)),
        envString getenv envSMTPPass (\<lambda>v. upd_notify (\<lambda>n. n\<lparr>nc_SMTPPass := v\<rparr>)),
        envString getenv envSMTPFrom (\<lambda>v. upd_notify (\<lambda>n. n\<lparr>nc_SMTPFrom := v\<rparr>)),
        envSMTPToStep getenv,
        envString getenv envDiscoveryMode (\<lambda>v. upd_discovery (\<lambda>d. d\<lparr>dc_Mode := v\<rparr>)),
        envString getenv envClusterID (\<lambda>v. upd_discovery (\<lambda>d. d\<lparr>dc_ClusterID := v\<rparr>)),
        envDuration parse getenv envJoinStability (\<lambda>v. upd_discovery (\<lambda>d. d\<lparr>dc_JoinStability := v\<rparr>)),
        envDuration parse getenv envRemoveAfter (\<lambda>v. upd_discovery (\<lambda>d. d\<lparr>dc_RemoveAfter := v\<rparr>)),
        envString getenv envDiscoveryFile (\<lambda>v. upd_discovery (\<lambda>d. d\<lparr>dc_File := v\<rparr>)),
        envDuration parse getenv envFilePollInterval (\<lambda>v. upd_discovery (\<lambda>d. d\<lparr>dc_FilePollInterval := v\<rparr>)),
        envString getenv envTSSocket (\<lambda>v. upd_tailscale (\<lambda>t. t\<lparr>td_Socket := v\<rparr>)),
        envString getenv envTSTag (\<lambda>v. upd_tailscale (\<lambda>t. t\<lparr>td_Tag := v\<rparr>)),
        envString getenv envTSHostPattern (\<lambda>v. upd_tailscale (\<lambda>t. t\<lparr>td_HostPattern := v\<rparr>)),
        envDuration parse getenv envTSPollInterval (\<lambda>v. upd_tailscale (\<lambda>t. t\<lparr>td_PollInterval := v\<rparr>)),
        envString getenv envAdvertiseAddr (\<lambda>v c. c\<lparr>nd_Advertise := v\<rparr>)]"

subsection \<open>Loading\<close>

text \<open>
  The file system and the YAML decoder are one argument: \<open>None\<close> is a file that cannot
  be read, \<open>Some None\<close> one that cannot be decoded.
\<close>

definition resolve :: "NodeConfig \<Rightarrow> NodeConfig" where
  "resolve c =
     (let c = (if nc_Mode (nd_Notify c) = []
               then (if nc_SMTPHost (nd_Notify c) \<noteq> [] then upd_notify (\<lambda>n. n\<lparr>nc_Mode := NotifyModeSMTP\<rparr>) c
                     else upd_notify (\<lambda>n. n\<lparr>nc_Mode := NotifyModeLog\<rparr>) c)
               else c);
          c = (if wg_NotifyRecovery (nd_Watchdog c) = None
               then upd_watchdog (\<lambda>w. w\<lparr>wg_NotifyRecovery := Some True\<rparr>) c else c);
          c = (if wg_MaxIncidents (nd_Watchdog c) \<le> 0
               then upd_watchdog (\<lambda>w. w\<lparr>wg_MaxIncidents := 100\<rparr>) c else c)
      in c)"

definition Load ::
  "parse_duration \<Rightarrow> (string \<Rightarrow> yamlDoc option option) \<Rightarrow> string \<Rightarrow> getenv option \<Rightarrow> load_err + NodeConfig" where
  "Load parse file path getenv =
     (let getenv = (case getenv of None \<Rightarrow> (\<lambda>_. []) | Some g \<Rightarrow> g);
          fromFile = (if path \<noteq> [] then
                        (case file path of
                           None \<Rightarrow> Inl (ReadErr path)
                         | Some None \<Rightarrow> Inl (ParseErr path)
                         | Some (Some y) \<Rightarrow> (case overlay parse y defaultConfig of
                              Inl e \<Rightarrow> Inl (ParseErr path) | Inr c \<Rightarrow> Inr c))
                      else Inr defaultConfig)
      in and_then fromFile (\<lambda>c. and_then (applyEnv parse getenv c) (\<lambda>c. Inr (resolve c))))"

fun find_self :: "NodeID \<Rightarrow> Node list \<Rightarrow> Node option" where
  "find_self i [] = None"
| "find_self i (n # ns) = (if node_ID n = i then Some n else find_self i ns)"

definition Config_Self :: "NodeConfig \<Rightarrow> Node option" where
  "Config_Self c = find_self (nd_NodeID c) (nd_Peers c)"

definition AdvertiseAddr :: "NodeConfig \<Rightarrow> string" where
  "AdvertiseAddr c = (if TrimSpace (nd_Advertise c) \<noteq> [] then nd_Advertise c else nd_Bind c)"

subsection \<open>Validation\<close>

datatype invalid =
    EmptyNodeID | NoPeersGiven | EmptyPeerID | DupPeer NodeID | PeerNotHostPort NodeID string
  | SelfNotInPeers string | AdvertiseNotHostPort string | AdvertiseNotRoutable string
  | TailscaleNeedsFilter | FileNeedsPath | BadDiscoveryMode string | EmptyClusterID
  | NotPositive string duration | NegativeRemoveAfter duration | BadHostPattern string
  | WindowEmpty duration duration | LivenessOrder duration duration duration
  | NotifyNeeds string | BadNotifyMode string

text \<open>The loop over the peers: the first error, or whether the node's own id was found.\<close>

fun validate_peers :: "string \<Rightarrow> NodeID list \<Rightarrow> bool \<Rightarrow> Node list \<Rightarrow> invalid + bool" where
  "validate_peers me seen found [] = Inr found"
| "validate_peers me seen found (p # ps) =
     (if node_ID p = [] then Inl EmptyPeerID
      else if node_ID p \<in> set seen then Inl (DupPeer (node_ID p))
      else if SplitHostPort (node_Addr p) = None then Inl (PeerNotHostPort (node_ID p) (node_Addr p))
      else validate_peers me (node_ID p # seen) (found \<or> node_ID p = me) ps)"

definition validate_joiner :: "NodeConfig \<Rightarrow> invalid option" where
  "validate_joiner c =
     (let adv = AdvertiseAddr c
      in case SplitHostPort adv of
           None \<Rightarrow> Some (AdvertiseNotHostPort adv)
         | Some (host, port) \<Rightarrow>
             if host = [] \<or> host = ''0.0.0.0'' \<or> host = ''::'' then Some (AdvertiseNotRoutable adv) else None)"

definition validateDiscovery :: "(string \<Rightarrow> (string \<Rightarrow> bool) option) \<Rightarrow> NodeConfig \<Rightarrow> bool \<Rightarrow> invalid option" where
  "validateDiscovery compile c selfFound =
     (let d = nd_Discovery c; ts = dc_Tailscale d;
          mode_err =
            (if dc_Mode d = DiscoveryModeStatic then (if \<not> selfFound then Some (SelfNotInPeers (nd_NodeID c)) else None)
             else if dc_Mode d = DiscoveryModeTailscale \<or> dc_Mode d = DiscoveryModeFile then
               (case (if \<not> selfFound then validate_joiner c else None) of
                  Some e \<Rightarrow> Some e
                | None \<Rightarrow>
                    if dc_Mode d = DiscoveryModeTailscale \<and> td_Tag ts = [] \<and> td_HostPattern ts = []
                    then Some TailscaleNeedsFilter
                    else if dc_Mode d = DiscoveryModeFile \<and> TrimSpace (dc_File d) = [] then Some FileNeedsPath
                    else None)
             else Some (BadDiscoveryMode (dc_Mode d)))
      in case mode_err of
           Some e \<Rightarrow> Some e
         | None \<Rightarrow>
             if dc_ClusterID d = [] then Some EmptyClusterID
             else if dc_JoinStability d \<le> 0 then Some (NotPositive ''discovery.join_stability'' (dc_JoinStability d))
             else if dc_RemoveAfter d < 0 then Some (NegativeRemoveAfter (dc_RemoveAfter d))
             else if td_PollInterval ts \<le> 0 then Some (NotPositive ''discovery.tailscale.poll_interval'' (td_PollInterval ts))
             else if dc_FilePollInterval d \<le> 0 then Some (NotPositive ''discovery.file_poll_interval'' (dc_FilePollInterval d))
             else if td_HostPattern ts \<noteq> [] \<and> CompileHostPattern compile (td_HostPattern ts) = None
             then Some (BadHostPattern (td_HostPattern ts))
             else None)"

fun first_not_positive :: "(string \<times> duration) list \<Rightarrow> invalid option" where
  "first_not_positive [] = None"
| "first_not_positive ((name, v) # ds) = (if v \<le> 0 then Some (NotPositive name v) else first_not_positive ds)"

definition validate_notify :: "NotifyConfig \<Rightarrow> invalid option" where
  "validate_notify n =
     (if nc_Mode n = NotifyModeSMTP then
        (if nc_SMTPHost n = [] then Some (NotifyNeeds ''smtp_host'')
         else if nc_SMTPFrom n = [] then Some (NotifyNeeds ''smtp_from'')
         else if length (nc_SMTPTo n) = 0 then Some (NotifyNeeds ''smtp_to'')
         else None)
      else if nc_Mode n = NotifyModeFile then (if nc_File n = [] then Some (NotifyNeeds ''file'') else None)
      else if nc_Mode n = NotifyModeLog then None
      else Some (BadNotifyMode (nc_Mode n)))"

definition Validate :: "(string \<Rightarrow> (string \<Rightarrow> bool) option) \<Rightarrow> NodeConfig \<Rightarrow> invalid option" where
  "Validate compile c =
     (if nd_NodeID c = [] then Some EmptyNodeID
      else if length (nd_Peers c) = 0 then Some NoPeersGiven
      else case validate_peers (nd_NodeID c) [] False (nd_Peers c) of
             Inl e \<Rightarrow> Some e
           | Inr selfFound \<Rightarrow>
        (case validateDiscovery compile c selfFound of
           Some e \<Rightarrow> Some e
         | None \<Rightarrow>
        (let t = nd_Timing c
         in case first_not_positive
                 [(''heartbeat_interval'', tm_HeartbeatInterval t), (''suspect_after'', tm_SuspectAfter t),
                  (''dead_after'', tm_DeadAfter t), (''election_timeout_min'', tm_ElectionTimeoutMin t),
                  (''election_timeout_max'', tm_ElectionTimeoutMax t), (''rpc_timeout'', tm_RPCTimeout t)] of
              Some e \<Rightarrow> Some e
            | None \<Rightarrow>
                if wg_Cooldown (nd_Watchdog c) \<le> 0 then Some (NotPositive ''watchdog.cooldown'' (wg_Cooldown (nd_Watchdog c)))
                else if tm_ElectionTimeoutMax t \<le> tm_ElectionTimeoutMin t
                then Some (WindowEmpty (tm_ElectionTimeoutMin t) (tm_ElectionTimeoutMax t))
                else if \<not> (tm_HeartbeatInterval t < tm_SuspectAfter t \<and> tm_SuspectAfter t < tm_DeadAfter t)
                then Some (LivenessOrder (tm_HeartbeatInterval t) (tm_SuspectAfter t) (tm_DeadAfter t))
                else validate_notify (nd_Notify c))))"

subsection \<open>Printing\<close>

definition Redacted :: "NodeConfig \<Rightarrow> NodeConfig" where
  "Redacted c = upd_notify (\<lambda>n. n\<lparr>nc_SMTPPass := []\<rparr>) c"

definition FormatBool :: "bool \<Rightarrow> string" where
  "FormatBool b = (if b then ''true'' else ''false'')"

text \<open>The \<open>%v\<close> verb on a slice of strings.\<close>

definition show_strings :: "string list \<Rightarrow> string" where
  "show_strings ss = ''['' @ concat (case ss of [] \<Rightarrow> [] | s # rest \<Rightarrow> s # map (\<lambda>t. '' '' @ t) rest) @ '']''"

definition Config_String :: "(string \<Rightarrow> string) \<Rightarrow> NodeConfig \<Rightarrow> string" where
  "Config_String quote c =
     (let r = Redacted c; n = nd_Notify r; t = nd_Timing r; w = nd_Watchdog r; d = nd_Discovery r; ts = dc_Tailscale d;
          recovery = (case wg_NotifyRecovery w of None \<Rightarrow> ''unset'' | Some b \<Rightarrow> FormatBool b)
      in ''node_id='' @ nd_NodeID r @ '' bind='' @ nd_Bind r @ '' advertise_addr='' @ AdvertiseAddr r
         @ '' data_dir='' @ nd_DataDir r @ '' peers='' @ show_nat (length (nd_Peers r)) @ '' log_level='' @ nd_LogLevel r
         @ '' notify{mode='' @ nc_Mode n @ '' file='' @ quote (nc_File n) @ '' smtp_host='' @ nc_SMTPHost n
         @ '' smtp_port='' @ show_int (nc_SMTPPort n) @ '' smtp_from='' @ nc_SMTPFrom n @ '' smtp_to='' @ show_strings (nc_SMTPTo n)
         @ '' smtp_pass=<redacted>} timing{heartbeat='' @ duration_String (tm_HeartbeatInterval t)
         @ '' suspect='' @ duration_String (tm_SuspectAfter t) @ '' dead='' @ duration_String (tm_DeadAfter t)
         @ '' election=['' @ duration_String (tm_ElectionTimeoutMin t) @ '','' @ duration_String (tm_ElectionTimeoutMax t)
         @ ''] rpc_timeout='' @ duration_String (tm_RPCTimeout t)
         @ ''} watchdog{cooldown='' @ duration_String (wg_Cooldown w) @ '' notify_recovery='' @ recovery
         @ '' max_incidents='' @ show_int (wg_MaxIncidents w)
         @ ''} discovery{mode='' @ dc_Mode d @ '' cluster_id='' @ dc_ClusterID d
         @ '' join_stability='' @ duration_String (dc_JoinStability d) @ '' remove_after='' @ duration_String (dc_RemoveAfter d)
         @ '' file='' @ quote (dc_File d) @ '' file_poll='' @ duration_String (dc_FilePollInterval d)
         @ '' ts{socket='' @ td_Socket ts @ '' tag='' @ td_Tag ts @ '' host_pattern='' @ quote (td_HostPattern ts)
         @ '' poll='' @ duration_String (td_PollInterval ts) @ ''}}'')"

end
