(* ===== verification/Warden_Main.thy ===== *)
theory Warden_Main
  imports Warden_Config Election_State Watchdog
begin

text \<open>
  The wiring of \<^verbatim>\<open>app/warden/cmd/main.go\<close> that decides what the components are given:
  the node's own identity, the discoverer, the configurations of the election manager and
  the watchdog, and the exit code of the supervisor. The properties show that a
  configuration that passes validation is one the election manager accepts and uses
  unchanged, how the sources of the configuration override each other, and that the
  password is never printed.
\<close>

subsection \<open>Wiring\<close>

definition bindPort :: "string \<Rightarrow> int" where
  "bindPort bind =
     (case SplitHostPort bind of
        None \<Rightarrow> 0
      | Some (host, port) \<Rightarrow> (case Atoi port of None \<Rightarrow> 0 | Some p \<Rightarrow> p))"

definition main_self :: "NodeConfig \<Rightarrow> Node" where
  "main_self c = (case Config_Self c of Some n \<Rightarrow> n | None \<Rightarrow> \<lparr>node_ID = nd_NodeID c, node_Addr = AdvertiseAddr c\<rparr>)"

datatype discoverer = NoDiscoverer | DTailscale Tailscale | DFile File

definition has_discoverer :: "discoverer \<Rightarrow> bool" where
  "has_discoverer d = (case d of NoDiscoverer \<Rightarrow> False | _ \<Rightarrow> True)"

definition main_discoverer :: "(string \<Rightarrow> (string \<Rightarrow> bool) option) \<Rightarrow> NodeConfig \<Rightarrow> discoverer" where
  "main_discoverer compile c =
     (let d = nd_Discovery c; ts = dc_Tailscale d
      in if dc_Mode d = DiscoveryModeTailscale then
           DTailscale (NewTailscale compile
             \<lparr>tc_Socket = td_Socket ts, tc_Tag = td_Tag ts, tc_HostPattern = td_HostPattern ts,
              tc_Port = bindPort (nd_Bind c), tc_PollInterval = td_PollInterval ts, tc_IncludeSelf = True\<rparr>)
         else if dc_Mode d = DiscoveryModeFile then DFile (NewFile (dc_File d) (dc_FilePollInterval d))
         else NoDiscoverer)"

definition election_config :: "(string \<Rightarrow> (string \<Rightarrow> bool) option) \<Rightarrow> string \<Rightarrow> NodeConfig \<Rightarrow> Config" where
  "election_config compile version c =
     (let t = nd_Timing c; d = nd_Discovery c
      in \<lparr>cfg_Self = main_self c, cfg_Peers = nd_Peers c,
          cfg_HeartbeatInterval = tm_HeartbeatInterval t, cfg_SuspectAfter = tm_SuspectAfter t,
          cfg_DeadAfter = tm_DeadAfter t, cfg_ElectionTimeoutMin = tm_ElectionTimeoutMin t,
          cfg_ElectionTimeoutMax = tm_ElectionTimeoutMax t, cfg_RPCTimeout = tm_RPCTimeout t,
          cfg_ClusterID = dc_ClusterID d, cfg_BuildVersion = version, cfg_ViewFreshFor = tm_DeadAfter t,
          cfg_Discoverer = has_discoverer (main_discoverer compile c),
          cfg_JoinStability = dc_JoinStability d, cfg_RemoveAfter = dc_RemoveAfter d\<rparr>)"

text \<open>The dereference of the tri-state flag would panic on nil; \<open>Load\<close> never leaves it so.\<close>

definition watchdog_config :: "NodeConfig \<Rightarrow> Watchdog_Config option" where
  "watchdog_config c =
     (case wg_NotifyRecovery (nd_Watchdog c) of
        None \<Rightarrow> None
      | Some b \<Rightarrow> Some \<lparr>wc_Cooldown = wg_Cooldown (nd_Watchdog c), wc_NotifyRecovery = b,
                        wc_MaxIncidents = wg_MaxIncidents (nd_Watchdog c),
                        wc_CheckInterval = tm_HeartbeatInterval (nd_Timing c)\<rparr>)"

subsection \<open>The supervisor\<close>

datatype exit_err = ExitNil | ExitCanceled | ExitFailed string

text \<open>
  The collecting loop over the terminal results of the components, in the order they
  arrive: the first failure is kept, and whether one cancelled the others.
\<close>

fun collect_exits :: "exit_err list \<Rightarrow> string option \<Rightarrow> string option" where
  "collect_exits [] exitErr = exitErr"
| "collect_exits (e # es) exitErr =
     (case e of
        ExitFailed msg \<Rightarrow> collect_exits es (if exitErr = None then Some msg else exitErr)
      | _ \<Rightarrow> collect_exits es exitErr)"

definition exit_code :: "exit_err list \<Rightarrow> string option \<Rightarrow> int" where
  "exit_code exits shutdownErr =
     (let exitErr = collect_exits exits None;
          exitErr = (case shutdownErr of None \<Rightarrow> exitErr | Some msg \<Rightarrow> if exitErr = None then Some msg else exitErr)
      in if exitErr \<noteq> None then 1 else 0)"

subsection \<open>A valid configuration boots\<close>

lemma validate_scan: "validate_peers me seen f ps = Inr g \<Longrightarrow> scan_peers me seen f ps = Inr g"
  by (induction me seen f ps rule: validate_peers.induct) (auto split: if_splits)

lemma find_self_ID: "find_self i ns = Some n \<Longrightarrow> node_ID n = i"
  by (induction i ns rule: find_self.induct) (auto split: if_splits)

lemma main_self_ID: "node_ID (main_self c) = nd_NodeID c"
  using find_self_ID by (auto simp: main_self_def Config_Self_def split: option.split)

lemma valid_boot_lemma:
  assumes "Validate compile c = None"
  shows "let e = election_config compile version c in
     validateConfig e True True True = None \<and> applyDefaults e = e \<and>
     cfg_HeartbeatInterval e < cfg_SuspectAfter e \<and> cfg_SuspectAfter e < cfg_DeadAfter e \<and>
     cfg_ElectionTimeoutMin e < cfg_ElectionTimeoutMax e"
proof -
  obtain found where id: "nd_NodeID c \<noteq> []" and ps: "nd_Peers c \<noteq> []"
    and vp: "validate_peers (nd_NodeID c) [] False (nd_Peers c) = Inr found"
    and vd: "validateDiscovery compile c found = None"
    using assms by (auto simp: Validate_def Let_def split: if_splits sum.splits option.splits)
  let ?t = "nd_Timing c"
  have tm: "0 < tm_HeartbeatInterval ?t" "0 < tm_SuspectAfter ?t" "0 < tm_DeadAfter ?t"
    "0 < tm_ElectionTimeoutMin ?t" "0 < tm_ElectionTimeoutMax ?t" "0 < tm_RPCTimeout ?t"
    "tm_ElectionTimeoutMin ?t < tm_ElectionTimeoutMax ?t"
    "tm_HeartbeatInterval ?t < tm_SuspectAfter ?t" "tm_SuspectAfter ?t < tm_DeadAfter ?t"
    using assms id ps vp vd by (auto simp: Validate_def Let_def split: if_splits)
  have d: "dc_ClusterID (nd_Discovery c) \<noteq> []" "0 < dc_JoinStability (nd_Discovery c)"
    "dc_Mode (nd_Discovery c) = DiscoveryModeTailscale \<or> dc_Mode (nd_Discovery c) = DiscoveryModeFile \<or> found"
    using vd by (auto simp: validateDiscovery_def Let_def split: if_splits option.splits)
  have "validateConfig (election_config compile version c) True True True = None"
    using id ps validate_scan [OF vp] d(3)
    by (auto simp: validateConfig_def election_config_def main_self_ID main_discoverer_def has_discoverer_def Let_def mode_defs)
  moreover have "applyDefaults (election_config compile version c) = election_config compile version c"
    using tm d by (simp add: applyDefaults_def election_config_def orDefault_def Let_def)
  ultimately show ?thesis using tm by (simp add: Let_def election_config_def)
qed

text \<open>
  A configuration that passes \<open>Validate\<close> boots: the election manager's own
  validation accepts the configuration main builds from it, its defaults change nothing
  in it, the liveness thresholds are ordered and the election window is not empty.
\<close>

theorem valid_config_boots:
  assumes "Validate compile c = None"
  shows "let e = election_config compile version c in
     validateConfig e True True True = None \<and> applyDefaults e = e \<and>
     cfg_HeartbeatInterval e < cfg_SuspectAfter e \<and> cfg_SuspectAfter e < cfg_DeadAfter e \<and>
     cfg_ElectionTimeoutMin e < cfg_ElectionTimeoutMax e"
  by (rule valid_boot_lemma [OF assms])

subsection \<open>Precedence\<close>

text \<open>A step keeps a field when it leaves it alone whenever it succeeds.\<close>

definition keeps :: "('a \<Rightarrow> 'f) \<Rightarrow> ('a \<Rightarrow> 'e + 'a) \<Rightarrow> bool" where
  "keeps f step \<longleftrightarrow> (\<forall>x y. step x = Inr y \<longrightarrow> f y = f x)"

lemma keeps_all_steps: "list_all (keeps f) steps \<Longrightarrow> all_steps steps x = Inr y \<Longrightarrow> f y = f x"
  by (induction steps x rule: all_steps.induct) (auto simp: keeps_def and_then_Inr)

lemma all_steps_nth:
  assumes "all_steps steps x = Inr y" and "i < length steps"
    and "list_all (keeps f) (take i steps)" and "list_all (keeps f) (drop (Suc i) steps)"
  obtains a b where "(steps ! i) a = Inr b" and "f a = f x" and "f y = f b"
proof -
  have "all_steps (take i steps @ steps ! i # drop (Suc i) steps) x = Inr y"
    using assms(1,2) by (simp add: id_take_nth_drop [symmetric])
  then obtain a b where "all_steps (take i steps) x = Inr a" "(steps ! i) a = Inr b"
    "all_steps (drop (Suc i) steps) b = Inr y"
    by (auto simp: all_steps_append and_then_Inr)
  then show ?thesis using keeps_all_steps [OF assms(3)] keeps_all_steps [OF assms(4)] that by blast
qed

lemma keeps_envString: "(\<And>v x. f (put v x) = f x) \<Longrightarrow> keeps f (envString g k put)"
  by (auto simp: keeps_def envString_def Let_def)

lemma keeps_envDuration: "(\<And>v x. f (put v x) = f x) \<Longrightarrow> keeps f (envDuration parse g k put)"
  by (auto simp: keeps_def envDuration_def Let_def split: if_splits option.splits)

lemma keeps_envInt: "(\<And>v x. f (put v x) = f x) \<Longrightarrow> keeps f (envInt g k put)"
  by (auto simp: keeps_def envInt_def Let_def split: if_splits option.splits)

lemma keeps_present: "(\<And>v x. f (put v x) = f x) \<Longrightarrow> keeps f (put_present r put)"
  by (auto simp: keeps_def put_present_def split: option.splits)

lemma keeps_block: "(\<And>v x. f (put v x) = f x) \<Longrightarrow> keeps f (put_block r dec get put)"
  by (auto simp: keeps_def put_block_def and_then_Inr split: option.splits)

lemma keeps_field_duration: "(\<And>v x. f (put v x) = f x) \<Longrightarrow> keeps f (field_duration parse name src put)"
  by (auto simp: keeps_def field_duration_def split: if_splits option.splits)

lemma keeps_peers: "(\<And>v x. f (x\<lparr>nd_Peers := v\<rparr>) = f x) \<Longrightarrow> keeps f (envPeersStep g)"
  and keeps_recovery: "(\<And>v x. f (x\<lparr>nd_Watchdog := v\<rparr>) = f x) \<Longrightarrow> keeps f (envRecoveryStep g)"
  and keeps_to: "(\<And>v x. f (x\<lparr>nd_Notify := (nd_Notify x)\<lparr>nc_SMTPTo := v\<rparr>\<rparr>) = f x) \<Longrightarrow> keeps f (envSMTPToStep g)"
  by (auto simp: keeps_def envPeersStep_def envRecoveryStep_def envSMTPToStep_def Let_def
      split: if_splits option.splits sum.splits)

lemmas keeps_intros = keeps_envString keeps_envDuration keeps_envInt keeps_present keeps_block
  keeps_field_duration keeps_peers keeps_recovery keeps_to

abbreviation heartbeat_of :: "NodeConfig \<Rightarrow> duration" where
  "heartbeat_of c \<equiv> tm_HeartbeatInterval (nd_Timing c)"

abbreviation password_of :: "NodeConfig \<Rightarrow> string" where
  "password_of c \<equiv> nc_SMTPPass (nd_Notify c)"

text \<open>The value of a variable, blank when it is unset or only spaces.\<close>

abbreviation env_value :: "getenv \<Rightarrow> string \<Rightarrow> string" where
  "env_value g key \<equiv> TrimSpace (g key)"

lemma applyEnv_NodeID:
  assumes "applyEnv parse g c = Inr c'"
  shows "nd_NodeID c' = (if env_value g envNodeID \<noteq> [] then env_value g envNodeID else nd_NodeID c)"
  by (rule all_steps_nth [OF assms [unfolded applyEnv_def], where f = nd_NodeID and i = 0])
    (auto simp: envString_def Let_def intro!: keeps_intros split: if_splits)

lemma applyEnv_heartbeat:
  assumes "applyEnv parse g c = Inr c'"
  shows "if env_value g envHeartbeatInterval \<noteq> [] then parse (env_value g envHeartbeatInterval) = Some (heartbeat_of c')
         else heartbeat_of c' = heartbeat_of c"
  by (rule all_steps_nth [OF assms [unfolded applyEnv_def], where f = heartbeat_of and i = 5])
    (auto simp: envDuration_def Let_def intro!: keeps_intros split: if_splits option.splits)

lemma applyEnv_password:
  assumes "applyEnv parse g c = Inr c'"
  shows "password_of c' = (if env_value g envSMTPPass \<noteq> [] then env_value g envSMTPPass else password_of c)"
  by (rule all_steps_nth [OF assms [unfolded applyEnv_def], where f = password_of and i = 18])
    (auto simp: envString_def Let_def intro!: keeps_intros split: if_splits)

lemma overlay_NodeID:
  assumes "overlay parse y c = Inr c'"
  shows "nd_NodeID c' = (case yd_node_id y of Some v \<Rightarrow> v | None \<Rightarrow> nd_NodeID c)"
  by (rule all_steps_nth [OF assms [unfolded overlay_def], where f = nd_NodeID and i = 0])
    (auto simp: put_present_def intro!: keeps_intros split: option.splits)

lemma Timing_heartbeat:
  assumes "TimingConfig_Unmarshal parse raw t = Inr t'"
  shows "if rt_heartbeat_interval raw \<noteq> [] then parse (rt_heartbeat_interval raw) = Some (tm_HeartbeatInterval t')
         else tm_HeartbeatInterval t' = tm_HeartbeatInterval t"
  by (rule all_steps_nth [OF assms [unfolded TimingConfig_Unmarshal_def], where f = tm_HeartbeatInterval and i = 0])
    (auto simp: field_duration_def intro!: keeps_intros split: if_splits option.splits)

lemma overlay_heartbeat:
  assumes "overlay parse y c = Inr c'"
  shows "case yd_timing y of
      None \<Rightarrow> heartbeat_of c' = heartbeat_of c
    | Some raw \<Rightarrow> if rt_heartbeat_interval raw \<noteq> [] then parse (rt_heartbeat_interval raw) = Some (heartbeat_of c')
                  else heartbeat_of c' = heartbeat_of c"
  by (rule all_steps_nth [OF assms [unfolded overlay_def], where f = heartbeat_of and i = 4])
    (auto simp: put_block_def and_then_Inr intro!: keeps_intros dest!: Timing_heartbeat split: option.splits if_splits)

lemma overlay_password:
  assumes "overlay parse y c = Inr c'"
  shows "password_of c' = password_of c"
  by (rule keeps_all_steps [OF _ assms [unfolded overlay_def]]) (auto intro!: keeps_intros)

lemma resolve_frame:
  "nd_NodeID (resolve c) = nd_NodeID c" "heartbeat_of (resolve c) = heartbeat_of c"
  "password_of (resolve c) = password_of c"
  by (simp_all add: resolve_def Let_def)

lemma resolve_complete:
  "nc_Mode (nd_Notify (resolve c)) \<noteq> []" "wg_NotifyRecovery (nd_Watchdog (resolve c)) \<noteq> None"
  "0 < wg_MaxIncidents (nd_Watchdog (resolve c))"
  by (auto simp: resolve_def Let_def mode_defs)

lemma Load_parts:
  assumes "Load parse file path getenv = Inr c" and "g = (case getenv of None \<Rightarrow> (\<lambda>_. []) | Some g \<Rightarrow> g)"
  obtains c1 c2 where "applyEnv parse g c1 = Inr c2" and "c = resolve c2"
    and "path = [] \<and> c1 = defaultConfig \<or> (\<exists>y. path \<noteq> [] \<and> file path = Some (Some y) \<and> overlay parse y defaultConfig = Inr c1)"
  using assms by (auto simp: Load_def Let_def and_then_Inr split: if_splits option.splits sum.splits)

lemma default_fields:
  "nd_NodeID defaultConfig = []" "heartbeat_of defaultConfig = second" "password_of defaultConfig = []"
  by (simp_all add: defaultConfig_def)

lemma Load_resolve:
  assumes "Load parse file path getenv = Inr c"
  shows "nc_Mode (nd_Notify c) \<noteq> []" and "wg_NotifyRecovery (nd_Watchdog c) \<noteq> None"
    and "0 < wg_MaxIncidents (nd_Watchdog c)"
proof -
  obtain c2 where "c = resolve c2" by (rule Load_parts [OF assms refl])
  then show "nc_Mode (nd_Notify c) \<noteq> []" "wg_NotifyRecovery (nd_Watchdog c) \<noteq> None"
    "0 < wg_MaxIncidents (nd_Watchdog c)"
    using resolve_complete by blast+
qed

text \<open>
  Where a loaded setting comes from. When \<open>Load\<close> succeeds, the node id is the
  variable's value if that is not blank, else what the file says, else the default; so is
  the heartbeat interval, parsed, with the default of one second; the password is the
  variable's value and never the file's; and the notification mode, the recovery flag and
  the size of the incident log are settled.
\<close>

theorem load_precedence:
  assumes "Load parse file path (Some g) = Inr c"
  shows "nd_NodeID c = (if env_value g envNodeID \<noteq> [] then env_value g envNodeID
      else if path \<noteq> [] then (case yd_node_id (the (the (file path))) of Some v \<Rightarrow> v | None \<Rightarrow> []) else [])
    \<and> (let from_env = env_value g envHeartbeatInterval;
            from_file = (if path = [] then [] else case yd_timing (the (the (file path))) of
                           None \<Rightarrow> [] | Some raw \<Rightarrow> rt_heartbeat_interval raw)
         in if from_env \<noteq> [] then parse from_env = Some (heartbeat_of c)
            else if from_file \<noteq> [] then parse from_file = Some (heartbeat_of c)
            else heartbeat_of c = second)
    \<and> password_of c = env_value g envSMTPPass
    \<and> nc_Mode (nd_Notify c) \<noteq> [] \<and> wg_NotifyRecovery (nd_Watchdog c) \<noteq> None
    \<and> 0 < wg_MaxIncidents (nd_Watchdog c)"
proof (intro conjI)
  obtain c1 c2 where p: "applyEnv parse g c1 = Inr c2" "c = resolve c2"
    "path = [] \<and> c1 = defaultConfig \<or> (\<exists>y. path \<noteq> [] \<and> file path = Some (Some y) \<and> overlay parse y defaultConfig = Inr c1)"
    by (rule Load_parts [OF assms]) auto
  note env = applyEnv_NodeID [OF p(1)] applyEnv_heartbeat [OF p(1)] applyEnv_password [OF p(1)]
  show "nd_NodeID c = (if env_value g envNodeID \<noteq> [] then env_value g envNodeID
      else if path \<noteq> [] then (case yd_node_id (the (the (file path))) of Some v \<Rightarrow> v | None \<Rightarrow> []) else [])"
    using p(2,3) env(1) by (auto simp: resolve_frame default_fields overlay_NodeID split: option.split)
  show "let from_env = env_value g envHeartbeatInterval;
             from_file = (if path = [] then [] else case yd_timing (the (the (file path))) of
                            None \<Rightarrow> [] | Some raw \<Rightarrow> rt_heartbeat_interval raw)
         in (if from_env \<noteq> [] then parse from_env = Some (heartbeat_of c)
             else if from_file \<noteq> [] then parse from_file = Some (heartbeat_of c)
             else heartbeat_of c = second)"
    using p(2,3) env(2)
    by (auto simp: resolve_frame default_fields Let_def dest!: overlay_heartbeat split: if_splits option.splits)
  show "password_of c = env_value g envSMTPPass"
    using p(2,3) env(3) by (auto simp: resolve_frame default_fields overlay_password)
qed (simp_all add: resolve_complete Load_resolve [OF assms])

subsection \<open>The password is not printed\<close>

text \<open>
  No rendering depends on the password: two configurations that differ in nothing
  else have the same redacted copy and the same string.
\<close>

theorem password_never_printed:
  "Redacted (upd_notify (\<lambda>n. n\<lparr>nc_SMTPPass := x\<rparr>) c) = Redacted c \<and>
   password_of (Redacted c) = [] \<and>
   Config_String quote (upd_notify (\<lambda>n. n\<lparr>nc_SMTPPass := x\<rparr>) c) = Config_String quote c"
proof -
  have "Redacted (upd_notify (\<lambda>n. n\<lparr>nc_SMTPPass := x\<rparr>) c) = Redacted c" by (simp add: Redacted_def)
  then show ?thesis
    unfolding Config_String_def by (simp add: Redacted_def AdvertiseAddr_def)
qed

subsection \<open>The peer list round-trips\<close>

text \<open>How an operator writes a member list into \<open>WARDEN_PEERS\<close>.\<close>

fun comma_join :: "string list \<Rightarrow> string" where
  "comma_join [] = []"
| "comma_join [s] = s"
| "comma_join (s # t # ss) = s @ CHR '','' # comma_join (t # ss)"

definition format_peers :: "Node list \<Rightarrow> string" where
  "format_peers ns = comma_join (map (\<lambda>n. node_ID n @ CHR ''='' # node_Addr n) ns)"

definition plain_peer :: "Node \<Rightarrow> bool" where
  "plain_peer n \<longleftrightarrow> node_ID n \<noteq> [] \<and> CHR ''='' \<notin> set (node_ID n) \<and> SplitHostPort (node_Addr n) \<noteq> None
     \<and> list_all (\<lambda>c. \<not> is_space c \<and> c \<noteq> CHR '','') (node_ID n @ node_Addr n)"

lemma split_on_none: "c \<notin> set s \<Longrightarrow> split_on c s = [s]"
  by (induction s) auto

lemma split_on_append: "c \<notin> set s \<Longrightarrow> split_on c (s @ c # t) = s # split_on c t"
  by (induction s) auto

lemma split_comma_join: "ss \<noteq> [] \<Longrightarrow> \<forall>s \<in> set ss. CHR '','' \<notin> set s \<Longrightarrow> split_on (CHR '','') (comma_join ss) = ss"
  by (induction ss rule: comma_join.induct) (simp_all add: split_on_none split_on_append)

lemma TrimSpace_id: "\<forall>c \<in> set s. \<not> is_space c \<Longrightarrow> TrimSpace s = s"
proof -
  assume a: "\<forall>c \<in> set s. \<not> is_space c"
  then have "dropWhile is_space t = t" if "set t \<subseteq> set s" for t using that by (cases t) auto
  from this [of s] this [of "rev s"] show "TrimSpace s = s" by (simp add: TrimSpace_def)
qed

lemma SplitHostPort_Nil: "SplitHostPort [] = None"
  by (simp add: SplitHostPort_def)

lemma takeWhile_dropWhile_at:
  "c \<notin> set s \<Longrightarrow> takeWhile (\<lambda>x. x \<noteq> c) (s @ c # t) = s \<and> dropWhile (\<lambda>x. x \<noteq> c) (s @ c # t) = c # t"
  by (induction s) auto

lemma parse_pairs_format:
  assumes "list_all plain_peer ns" and "distinct (map node_ID ns)" and "set seen \<inter> node_ID ` set ns = {}"
  shows "parse_pairs seen acc (map (\<lambda>n. node_ID n @ CHR ''='' # node_Addr n) ns) = Inr (acc @ ns)"
  using assms
proof (induction ns arbitrary: seen acc)
  case (Cons n ns)
  let ?pair = "node_ID n @ CHR ''='' # node_Addr n"
  have sp: "\<forall>c \<in> set (node_ID n). \<not> is_space c" "\<forall>c \<in> set (node_Addr n). \<not> is_space c"
    and id: "node_ID n \<noteq> []" "CHR ''='' \<notin> set (node_ID n)" and hp: "SplitHostPort (node_Addr n) \<noteq> None"
    using Cons.prems(1) by (auto simp: plain_peer_def list_all_iff)
  have "\<not> is_space (CHR ''='')" by (simp add: is_space_def)
  then have tr: "TrimSpace ?pair = ?pair" using sp by (intro TrimSpace_id) auto
  have tw: "takeWhile (\<lambda>c. c \<noteq> CHR ''='') ?pair = node_ID n" "dropWhile (\<lambda>c. c \<noteq> CHR ''='') ?pair = CHR ''='' # node_Addr n"
    using takeWhile_dropWhile_at [OF id(2)] by simp_all
  have ad: "node_Addr n \<noteq> []" using hp by (auto simp: SplitHostPort_Nil)
  have ids: "TrimSpace (node_ID n) = node_ID n" "TrimSpace (node_Addr n) = node_Addr n"
    using sp by (simp_all add: TrimSpace_id)
  have "parse_pairs (node_ID n # seen) (acc @ [n]) (map (\<lambda>n. node_ID n @ CHR ''='' # node_Addr n) ns) = Inr ((acc @ [n]) @ ns)"
    using Cons.prems by (intro Cons.IH) auto
  then have "parse_pairs (node_ID n # seen) (acc @ [\<lparr>node_ID = node_ID n, node_Addr = node_Addr n\<rparr>])
      (map (\<lambda>n. node_ID n @ CHR ''='' # node_Addr n) ns) = Inr (acc @ n # ns)"
    by (cases n) simp
  then show ?case
    using Cons.prems(3) id ad hp by (auto simp: tr tw ids Let_def)
qed simp

text \<open>
  The peer list round-trips: printing a non-empty member list with distinct ids,
  whose ids and addresses contain no separator or space, and parsing it again gives the
  same nodes in the same order.
\<close>

theorem peers_env_roundtrip:
  assumes "ns \<noteq> []" and "list_all plain_peer ns" and "distinct (map node_ID ns)"
  shows "parsePeers (format_peers ns) = Inr ns"
proof -
  have "\<forall>s \<in> set (map (\<lambda>n. node_ID n @ CHR ''='' # node_Addr n) ns). CHR '','' \<notin> set s"
    using assms(2) by (auto simp: plain_peer_def list_all_iff)
  then have "split_on (CHR '','') (format_peers ns) = map (\<lambda>n. node_ID n @ CHR ''='' # node_Addr n) ns"
    unfolding format_peers_def using assms(1) by (intro split_comma_join) auto
  then show ?thesis
    using parse_pairs_format [OF assms(2,3), of "[]" "[]"] assms(1) by (simp add: parsePeers_def)
qed

subsection \<open>Witnesses\<close>

definition two_nodes :: "Node list" where
  "two_nodes = [\<lparr>node_ID = ''a'', node_Addr = ''10.0.0.1:7717''\<rparr>, \<lparr>node_ID = ''b'', node_Addr = ''[::1]:7717''\<rparr>]"

lemma two_nodes_facts: "two_nodes \<noteq> []" "list_all plain_peer two_nodes" "distinct (map node_ID two_nodes)"
  by code_simp+

lemma peers_env_roundtrip_witness: "parsePeers (format_peers two_nodes) = Inr two_nodes"
  by (rule peers_env_roundtrip [OF two_nodes_facts])

definition demo_getenv :: getenv where
  "demo_getenv key = (if key = ''WARDEN_NODE_ID'' then '' a '' else if key = ''WARDEN_PEERS'' then ''a=10.0.0.1:7717, b=[::1]:7717'' else [])"

definition demo_config :: NodeConfig where
  "demo_config = (case Load (\<lambda>_. None) (\<lambda>_. None) [] (Some demo_getenv) of Inr c \<Rightarrow> c | Inl _ \<Rightarrow> defaultConfig)"

lemma demo_config_facts:
  "Load (\<lambda>_. None) (\<lambda>_. None) [] (Some demo_getenv) = Inr demo_config"
  "Validate (\<lambda>_. None) demo_config = None" "nd_NodeID demo_config = ''a''"
  by code_simp+

lemma valid_config_boots_witness:
  "validateConfig (election_config (\<lambda>_. None) ''dev'' demo_config) True True True = None"
  using valid_config_boots [OF demo_config_facts(2), of "''dev''"] by (simp add: Let_def)

lemma load_precedence_witness:
  "nd_NodeID demo_config = env_value demo_getenv envNodeID \<and> heartbeat_of demo_config = second"
proof -
  have "env_value demo_getenv envNodeID \<noteq> []" "env_value demo_getenv envHeartbeatInterval = []" by code_simp+
  then show ?thesis using load_precedence [OF demo_config_facts(1)] by (simp add: Let_def)
qed

end
