(* ===== verification/Warden_Durable.thy ===== *)
theory Warden_Durable
  imports Warden_Main Election_Demo
begin

text \<open>
  What the durable state, the wire conversion and the validated configuration promise
  the election manager: an atomic save under any failure of the file system, a restart
  that resumes term, vote and membership, messages that survive the wire, and election
  timeouts inside the configured window.
\<close>

subsection \<open>The state file\<close>

text \<open>
  C24. Saving is atomic whatever the file system does: with any script of failing calls,
  the state file afterwards is either untouched or exactly the encoding of the new state;
  it is the new one when \<open>Save\<close> succeeds and when only the final directory sync failed,
  and the old one under every other error.
\<close>

theorem file_save_atomic:
  "case FileStore_Save pjMarshal jsonCompact ps s of (s', err) \<Rightarrow>
     (if err = None \<or> err = Some ErrFsyncDir
      then \<exists>data. marshalState pjMarshal jsonCompact ps = Inr data \<and> fs_target s' = Some data
      else fs_target s' = fs_target s)"
proof -
  obtain s' err where s: "FileStore_Save pjMarshal jsonCompact ps s = (s', err)" by fastforce
  show ?thesis using FileStore_Save_cases [OF s] by (cases err) (auto simp: s)
qed

context state_codec
begin

lemmas file_save_ok = fstore.save_ok
lemmas file_load_contents = fstore.load_contents

end

text \<open>
  A restart resumes what was saved: after a successful \<open>Save\<close>, whatever manager is
  constructed on the store has the saved term and vote, and in discovery mode the saved
  membership with its voters in canonical order.
\<close>

theorem restart_resumes:
  assumes "state_codec pjMarshal jsonCompact pjUnmarshal"
    and "FileStore_Save pjMarshal jsonCompact ps s = (s', None)"
    and "NewManager (FileStore_Load pjUnmarshal) c s' = (s'', Inr m)"
  shows "currentTerm m = ps_CurrentTerm ps \<and> votedFor m = ps_VotedFor ps \<and> role m = RoleFollower
    \<and> (cfg_Discoverer c \<longrightarrow> (case ps_Membership ps of
          Some mb \<Rightarrow> membership m = mb\<lparr>mb_Voters := SortNodes (mb_Voters mb)\<rparr>
        | None \<Rightarrow> mb_Version (membership m) = 1))"
proof -
  obtain loaded where l: "FileStore_Load pjUnmarshal s' = (s'', Inr loaded)"
    and m: "currentTerm m = (case loaded of None \<Rightarrow> 0 | Some ps \<Rightarrow> ps_CurrentTerm ps)"
      "votedFor m = (case loaded of None \<Rightarrow> [] | Some ps \<Rightarrow> ps_VotedFor ps)" "role m = RoleFollower"
      "membership m = (if cfg_Discoverer c then
         (case Option.bind loaded ps_Membership of
            Some p \<Rightarrow> p\<lparr>mb_Voters := SortNodes (mb_Voters p)\<rparr>
          | None \<Rightarrow> \<lparr>mb_Version = 1, mb_CreatedInTerm = 0, mb_Voters = SortNodes (cfg_Peers c)\<rparr>)
       else \<lparr>mb_Version = 0, mb_CreatedInTerm = 0, mb_Voters = SortNodes (cfg_Peers c)\<rparr>)"
    by (rule NewManager_Inr [OF assms(3)])
  have "loaded = Some ps"
    using state_codec.file_load_contents [OF assms(1) l] state_codec.file_save_ok [OF assms(1,2)] by simp
  with m show ?thesis by (auto split: option.split)
qed

definition saved_state :: PersistentState where
  "saved_state = \<lparr>ps_CurrentTerm = 7, ps_VotedFor = ''b'', ps_Membership = None\<rparr>"

definition blank_file :: "pbPersistentState FileStore" where
  "blank_file = NewFileStore ''state.json'' None []"

definition booted_again :: "pbPersistentState FileStore Manager" where
  "booted_again = projr (snd (NewManager (FileStore_Load Some) (conf_of True founders ''a'')
     (fst (FileStore_Save Some Some saved_state blank_file))))"

lemma booted_again_facts:
  "FileStore_Save Some Some saved_state blank_file = (fst (FileStore_Save Some Some saved_state blank_file), None)"
  "NewManager (FileStore_Load Some) (conf_of True founders ''a'') (fst (FileStore_Save Some Some saved_state blank_file))
     = (fst (FileStore_Save Some Some saved_state blank_file), Inr booted_again)"
  by code_simp+

lemma restart_resumes_witness: "currentTerm booted_again = 7 \<and> votedFor booted_again = ''b''"
  using restart_resumes [OF message_codec.state_codec_axioms booted_again_facts] by (simp add: saved_state_def)

subsection \<open>The wire\<close>

text \<open>
  Every message round-trips: over a timestamp library that gives back the time it was
  made from, converting a request, a view or a durable state to its protobuf form and back
  is the identity, the absent membership and view of a heartbeat included.
\<close>

theorem wire_roundtrip:
  assumes "\<forall>t. tsAsTime (tsNew t) = t"
  shows "HeartbeatRequestFromProto tsAsTime (Some (HeartbeatRequestToProto tsNew hq)) = hq
    \<and> ClusterViewFromProto tsAsTime (Some (ClusterViewToProto tsNew v)) = v
    \<and> VoteRequestFromProto (Some (VoteRequestToProto vq)) = vq
    \<and> VoteResponseFromProto (Some (VoteResponseToProto vr)) = vr
    \<and> HeartbeatResponseFromProto (Some (HeartbeatResponseToProto hr)) = hr
    \<and> IdentifyResponseFromProto (Some (IdentifyResponseToProto ir)) = ir
    \<and> PersistentStateFromProto (Some (PersistentStateToProto ps)) = ps"
proof -
  have l: "timestamp_lib tsNew tsAsTime" using assms by unfold_locales blast
  show ?thesis
    by (simp add: timestamp_lib.HeartbeatRequest_trip [OF l] timestamp_lib.ClusterView_roundtrip [OF l])
qed

lemma wire_roundtrip_witness:
  "HeartbeatRequestFromProto ts_pair_AsTime (Some (HeartbeatRequestToProto ts_pair_New
     \<lparr>hq_Term = 3, hq_LeaderID = ''a'', hq_View = None, hq_Membership = Some zeroMembership\<rparr>))
   = \<lparr>hq_Term = 3, hq_LeaderID = ''a'', hq_View = None, hq_Membership = Some zeroMembership\<rparr>"
  using wire_roundtrip [of ts_pair_AsTime ts_pair_New] ts_pair.AsTime_New by blast

subsection \<open>Incident identifiers\<close>

lemma slash_split:
  assumes "a @ CHR ''/'' # s = b @ CHR ''/'' # t" and "CHR ''/'' \<notin> set s" and "CHR ''/'' \<notin> set t"
  shows "a = b \<and> s = t"
proof -
  have "rev s @ CHR ''/'' # rev a = rev t @ CHR ''/'' # rev b"
    using arg_cong [OF assms(1), of rev] by simp
  moreover have "takeWhile (\<lambda>c. c \<noteq> CHR ''/'') (rev u @ CHR ''/'' # rev w) = rev u" if "CHR ''/'' \<notin> set u" for u w
    using takeWhile_dropWhile_at [of "CHR ''/''" "rev u" "rev w"] that by simp
  ultimately have "rev s = rev t" using assms(2,3) by metis
  then show ?thesis using assms(1) by simp
qed

text \<open>
  An incident identifier names its incident: two identifiers of the incident types of
  the watchdog are equal only if type, node and second of detection are, even for node
  names with slashes in them.
\<close>

theorem incident_id_names:
  assumes "t \<in> {IncidentPeerDead, IncidentPeerRecovered}" and "t' \<in> {IncidentPeerDead, IncidentPeerRecovered}"
  shows "NewIncidentID t peer now = NewIncidentID t' peer' now' \<longleftrightarrow>
    t = t' \<and> peer = peer' \<and> time_Unix now = time_Unix now'"
proof
  assume eq: "NewIncidentID t peer now = NewIncidentID t' peer' now'"
  have "(t @ ''/'' @ peer) @ CHR ''/'' # show_int (time_Unix now) = (t' @ ''/'' @ peer') @ CHR ''/'' # show_int (time_Unix now')"
    using eq by (simp add: NewIncidentID_def)
  from slash_split [OF this show_int_no_slash show_int_no_slash]
  have "t @ ''/'' @ peer = t' @ ''/'' @ peer'" "time_Unix now = time_Unix now'" by auto
  with assms show "t = t' \<and> peer = peer' \<and> time_Unix now = time_Unix now'"
    by (auto simp: incident_type_defs)
qed (simp add: NewIncidentID_def)

lemma incident_id_names_witness:
  "NewIncidentID IncidentPeerDead ''a/b'' 0 \<noteq> NewIncidentID IncidentPeerRecovered ''a/b'' 0"
  using incident_id_names [of IncidentPeerDead IncidentPeerRecovered "''a/b''" 0 "''a/b''" 0] by simp

subsection \<open>Election timeouts\<close>

text \<open>
  Every election timeout lies in the configured window: for a manager built from a
  configuration that passed validation, whatever the random source draws, the timeout is
  at least the configured minimum and strictly below the configured maximum.
\<close>

theorem timeout_in_window:
  assumes "Validate compile c = None"
    and "NewManager ld (election_config compile version c) s0 = (s1, Inr m)"
    and "\<forall>k > 0. 0 \<le> env_Int63n e k \<and> env_Int63n e k < k"
  shows "tm_ElectionTimeoutMin (nd_Timing c) \<le> randTimeout e m
    \<and> randTimeout e m < tm_ElectionTimeoutMax (nd_Timing c)"
proof -
  let ?ec = "election_config compile version c"
  have "cfg m = applyDefaults ?ec" using assms(2) by (rule NewManager_Inr)
  moreover have "applyDefaults ?ec = ?ec" "cfg_ElectionTimeoutMin ?ec < cfg_ElectionTimeoutMax ?ec"
    using valid_boot_lemma [OF assms(1), of version] by (simp_all add: Let_def)
  moreover define span where "span = cfg_ElectionTimeoutMax ?ec - cfg_ElectionTimeoutMin ?ec"
  ultimately have "randTimeout e m = cfg_ElectionTimeoutMin ?ec + env_Int63n e span" "0 < span"
    by (simp_all add: randTimeout_def Let_def)
  moreover have "0 \<le> env_Int63n e span" "env_Int63n e span < span" using assms(3) \<open>0 < span\<close> by blast+
  moreover have "cfg_ElectionTimeoutMin ?ec = tm_ElectionTimeoutMin (nd_Timing c)"
    "cfg_ElectionTimeoutMax ?ec = tm_ElectionTimeoutMax (nd_Timing c)"
    by (simp_all add: election_config_def Let_def)
  ultimately show ?thesis by (simp add: span_def)
qed

definition demo_booted :: "MemStore Manager" where
  "demo_booted = projr (snd (NewManager MemStore_Load (election_config (\<lambda>_. None) [] demo_config) NewMemStore))"

lemma demo_booted_new:
  "NewManager MemStore_Load (election_config (\<lambda>_. None) [] demo_config) NewMemStore = (NewMemStore, Inr demo_booted)"
  by code_simp

lemma timeout_in_window_witness:
  "1500 * millisecond \<le> randTimeout \<lparr>env_now = 0, env_Int63n = (\<lambda>k. k div 2)\<rparr> demo_booted"
proof -
  have "tm_ElectionTimeoutMin (nd_Timing demo_config) = 1500 * millisecond" by code_simp
  moreover have "\<forall>k > 0. 0 \<le> k div 2 \<and> k div 2 < (k :: int)" by auto
  ultimately show ?thesis
    using timeout_in_window [OF demo_config_facts(2) demo_booted_new, of "\<lparr>env_now = 0, env_Int63n = (\<lambda>k. k div 2)\<rparr>"]
    by simp
qed

end
