(* ===== verification/Warden_Testclock.thy ===== *)
theory Warden_Testclock
  imports Go_Chan
begin

text \<open>
  The manually advanced clock of \<^verbatim>\<open>testclock/clock.go\<close>, on which every suite of the
  warden runs. A waiter's channel is found under the waiter's id, which its \<open>reset\<close>
  keeps. \<open>Advance\<close> gives up the lock after each fire; what other goroutines do to the
  clock meanwhile is a script, one list of operations per yield. Blocked callers of
  \<open>BlockUntilTimers\<close> are numbered, and the released ones recorded.
\<close>

record waiter =
  wt_deadline :: time
  wt_period :: duration

record Clock =
  ck_now :: time
  ck_nextID :: nat
  ck_waiters :: "(nat \<times> waiter) list"
  ck_chans :: "(nat \<times> time chan) list"
  ck_blockers :: "(nat \<times> int) list"
  ck_released :: "nat list"

definition clock_New :: "time \<Rightarrow> Clock" where
  "clock_New start = \<lparr>ck_now = start, ck_nextID = 0, ck_waiters = [], ck_chans = [],
     ck_blockers = [], ck_released = []\<rparr>"

definition ArmedTimers :: "Clock \<Rightarrow> nat" where
  "ArmedTimers c = length (ck_waiters c)"

definition notifyBlockersLocked :: "Clock \<Rightarrow> Clock" where
  "notifyBlockersLocked c =
     (if length (ck_blockers c) = 0 then c
      else let n = int (length (ck_waiters c))
           in c\<lparr>ck_released := ck_released c @ map fst (filter (\<lambda>(b, k). k \<le> n) (ck_blockers c)),
                ck_blockers := filter (\<lambda>(b, k). \<not> k \<le> n) (ck_blockers c)\<rparr>)"

definition addWaiterLocked :: "duration \<Rightarrow> duration \<Rightarrow> Clock \<Rightarrow> Clock \<times> nat" where
  "addWaiterLocked d period c =
     (let c = c\<lparr>ck_nextID := ck_nextID c + 1\<rparr>;
          w = \<lparr>wt_deadline = ck_now c + d, wt_period = period\<rparr>;
          c = c\<lparr>ck_waiters := map_put (ck_nextID c) w (ck_waiters c),
                ck_chans := map_put (ck_nextID c) (make_chan 1) (ck_chans c)\<rparr>
      in (notifyBlockersLocked c, ck_nextID c))"

definition NewTimer :: "duration \<Rightarrow> Clock \<Rightarrow> Clock \<times> nat" where
  "NewTimer d c = addWaiterLocked d 0 c"

definition After :: "duration \<Rightarrow> Clock \<Rightarrow> Clock \<times> nat" where
  "After d c = addWaiterLocked d 0 c"

text \<open>\<open>NewTicker\<close> panics on a non-positive interval.\<close>

definition NewTicker :: "duration \<Rightarrow> Clock \<Rightarrow> (Clock \<times> nat) option" where
  "NewTicker d c = (if d \<le> 0 then None else Some (addWaiterLocked d d c))"

definition timer_stop :: "nat \<Rightarrow> Clock \<Rightarrow> Clock \<times> bool" where
  "timer_stop i c =
     (case map_of (ck_waiters c) i of
        Some _ \<Rightarrow> (c\<lparr>ck_waiters := map_del i (ck_waiters c)\<rparr>, True)
      | None \<Rightarrow> (c, False))"

definition timer_reset :: "nat \<Rightarrow> duration \<Rightarrow> Clock \<Rightarrow> Clock \<times> bool" where
  "timer_reset i d c =
     (case map_of (ck_waiters c) i of
        Some w \<Rightarrow>
          (notifyBlockersLocked
             (c\<lparr>ck_waiters := map_put i (w\<lparr>wt_deadline := ck_now c + d\<rparr>) (ck_waiters c)\<rparr>), True)
      | None \<Rightarrow>
          (notifyBlockersLocked
             (c\<lparr>ck_waiters := map_put i \<lparr>wt_deadline = ck_now c + d, wt_period = 0\<rparr> (ck_waiters c)\<rparr>), False))"

text \<open>Whether \<open>BlockUntilTimers\<close> returns at once; otherwise the caller waits under number \<open>b\<close>.\<close>

definition BlockUntilTimers :: "nat \<Rightarrow> int \<Rightarrow> Clock \<Rightarrow> Clock \<times> bool" where
  "BlockUntilTimers b n c =
     (if n \<le> int (length (ck_waiters c)) then (c, True)
      else (c\<lparr>ck_blockers := ck_blockers c @ [(b, n)]\<rparr>, False))"

fun earliestDue :: "time \<Rightarrow> (nat \<times> waiter) option \<Rightarrow> (nat \<times> waiter) list \<Rightarrow> (nat \<times> waiter) option" where
  "earliestDue target nxt [] = nxt"
| "earliestDue target nxt ((i, w) # ws) =
     (if target < wt_deadline w then earliestDue target nxt ws
      else case nxt of
             None \<Rightarrow> earliestDue target (Some (i, w)) ws
           | Some (j, u) \<Rightarrow>
               if wt_deadline w < wt_deadline u \<or> (wt_deadline w = wt_deadline u \<and> i < j)
               then earliestDue target (Some (i, w)) ws
               else earliestDue target (Some (j, u)) ws)"

definition earliestDueLocked :: "time \<Rightarrow> Clock \<Rightarrow> (nat \<times> waiter) option" where
  "earliestDueLocked target c = earliestDue target None (ck_waiters c)"

text \<open>Firing the chosen waiter; the send on the one-slot channel drops the tick when it is full.\<close>

definition fire :: "nat \<Rightarrow> waiter \<Rightarrow> Clock \<Rightarrow> Clock" where
  "fire i w c =
     (let fireAt = wt_deadline w;
          c = c\<lparr>ck_now := fireAt\<rparr>;
          c = (if 0 < wt_period w
               then c\<lparr>ck_waiters := map_put i (w\<lparr>wt_deadline := wt_deadline w + wt_period w\<rparr>) (ck_waiters c)\<rparr>
               else c\<lparr>ck_waiters := map_del i (ck_waiters c)\<rparr>)
      in c\<lparr>ck_chans := map (\<lambda>(j, ch). (j, if j = i then (case chan_trySend fireAt ch of None \<Rightarrow> ch | Some ch' \<Rightarrow> ch') else ch))
                           (ck_chans c)\<rparr>)"

datatype clock_op = OpTimer duration | OpTicker duration | OpStop nat | OpReset nat duration | OpBlock nat int

fun clock_apply :: "clock_op \<Rightarrow> Clock \<Rightarrow> Clock" where
  "clock_apply (OpTimer d) c = fst (NewTimer d c)"
| "clock_apply (OpTicker d) c = (case NewTicker d c of None \<Rightarrow> c | Some (c', _) \<Rightarrow> c')"
| "clock_apply (OpStop i) c = fst (timer_stop i c)"
| "clock_apply (OpReset i d) c = fst (timer_reset i d c)"
| "clock_apply (OpBlock b n) c = fst (BlockUntilTimers b n c)"

subsection \<open>Advance\<close>

text \<open>How often a waiter can still fire before \<open>target\<close>: the measure of the loop.\<close>

definition fires_left :: "time \<Rightarrow> waiter \<Rightarrow> nat" where
  "fires_left target w =
     (if target < wt_deadline w then 0
      else if 0 < wt_period w then nat ((target - wt_deadline w) div wt_period w) + 1 else 1)"

definition due_fires :: "time \<Rightarrow> (nat \<times> waiter) list \<Rightarrow> nat" where
  "due_fires target ws = sum_list (map (fires_left target \<circ> snd) ws)"

definition no_later :: "nat \<times> waiter \<Rightarrow> nat \<times> waiter \<Rightarrow> bool" where
  "no_later x y \<longleftrightarrow> wt_deadline (snd x) < wt_deadline (snd y)
     \<or> (wt_deadline (snd x) = wt_deadline (snd y) \<and> fst x \<le> fst y)"

lemma no_later_refl: "no_later x x"
  and no_later_trans: "no_later x y \<Longrightarrow> no_later y z \<Longrightarrow> no_later x z"
  and no_later_total: "no_later x y \<or> no_later y x"
  by (auto simp: no_later_def)

lemma earliestDue_spec:
  "case earliestDue target nxt ws of
     None \<Rightarrow> nxt = None \<and> (\<forall>x \<in> set ws. target < wt_deadline (snd x))
   | Some x \<Rightarrow> (nxt = Some x \<or> x \<in> set ws \<and> wt_deadline (snd x) \<le> target)
       \<and> (\<forall>y \<in> set ws. wt_deadline (snd y) \<le> target \<longrightarrow> no_later x y)
       \<and> (\<forall>y. nxt = Some y \<longrightarrow> no_later x y)"
proof (induction ws arbitrary: nxt)
  case (Cons z ws)
  obtain i w where z: "z = (i, w)" by fastforce
  show ?case
  proof (cases "target < wt_deadline w")
    case True
    then have "earliestDue target nxt (z # ws) = earliestDue target nxt ws" by (simp add: z)
    then show ?thesis using Cons.IH [of nxt] True z by (auto split: option.splits)
  next
    case False
    define nx where "nx = (case nxt of None \<Rightarrow> z | Some y \<Rightarrow> if no_later y z then y else z)"
    have step: "earliestDue target nxt (z # ws) = earliestDue target (Some nx) ws"
      using False by (auto simp: z nx_def no_later_def split: option.split)
    have nx: "no_later nx z" "nxt = Some y \<Longrightarrow> no_later nx y" "nx = z \<or> nxt = Some nx" for y
      using no_later_refl no_later_total [of z y] by (auto simp: nx_def split: option.splits)
    obtain x where x: "earliestDue target (Some nx) ws = Some x" "nx = x \<or> x \<in> set ws \<and> wt_deadline (snd x) \<le> target"
      "\<forall>y \<in> set ws. wt_deadline (snd y) \<le> target \<longrightarrow> no_later x y" "no_later x nx"
      using Cons.IH [of "Some nx"] by (auto split: option.splits)
    then show ?thesis
      using nx no_later_trans [OF x(4)] False unfolding step x(1) by (auto simp: z)
  qed
qed (simp add: no_later_refl split: option.split)

lemma due_fires_put:
  assumes "wf_map ws" and "(i, w) \<in> set ws" and "fires_left target w' < fires_left target w"
  shows "due_fires target (map_put i w' ws) < due_fires target ws"
  using assms
proof (induction ws)
  case (Cons x ws)
  then show ?case by (cases x) (force simp: due_fires_def)
qed simp

lemma due_fires_del:
  assumes "wf_map ws" and "(i, w) \<in> set ws" and "0 < fires_left target w"
  shows "due_fires target (map_del i ws) < due_fires target ws"
proof -
  have "map_del i ws' = ws'" if "i \<notin> fst ` set ws'" for ws' :: "(nat \<times> waiter) list"
    using that by (force simp: AList.delete_eq filter_id_conv)
  with assms show ?thesis
    by (induction ws) (auto simp: due_fires_def dest: image_eqI [of i fst "(i, w)"])
qed

lemma fires_left_next:
  assumes "wt_deadline w \<le> target" and "0 < wt_period w"
  shows "fires_left target w = Suc (fires_left target (w\<lparr>wt_deadline := wt_deadline w + wt_period w\<rparr>))"
proof (cases "target < wt_deadline w + wt_period w")
  case True
  then have "(target - wt_deadline w) div wt_period w = 0" using assms by (intro div_pos_pos_trivial) auto
  then show ?thesis using assms True by (simp add: fires_left_def)
next
  case False
  have "(target - wt_deadline w) div wt_period w
      = (target - wt_deadline w - wt_period w + wt_period w * 1) div wt_period w" by simp
  also have "\<dots> = (target - wt_deadline w - wt_period w) div wt_period w + 1"
    using assms by (subst div_mult_self2) auto
  finally have e: "(target - wt_deadline w) div wt_period w = (target - (wt_deadline w + wt_period w)) div wt_period w + 1"
    by (simp add: diff_diff_eq)
  have "0 \<le> (target - (wt_deadline w + wt_period w)) div wt_period w"
    using False assms by (simp add: pos_imp_zdiv_nonneg_iff)
  then show ?thesis using False assms e by (simp add: fires_left_def)
qed

text \<open>
  The loop, with what the other goroutines do at each yield taken from the script; when
  the script is used up they do nothing. It may not return (a goroutine could keep
  arming due timers for ever), so it is a partial function. The second result lists the
  waiters fired and when.
\<close>

definition yield_ops :: "clock_op list list \<Rightarrow> clock_op list" where
  "yield_ops script = (case script of [] \<Rightarrow> [] | ops # _ \<Rightarrow> ops)"

partial_function (option) advance_loop ::
  "time \<Rightarrow> clock_op list list \<Rightarrow> Clock \<Rightarrow> (Clock \<times> (nat \<times> time) list) option" where
  "advance_loop target script c =
     (case earliestDueLocked target c of
        None \<Rightarrow> Some (c\<lparr>ck_now := target\<rparr>, [])
      | Some (i, w) \<Rightarrow>
          Option.bind (advance_loop target (tl script) (fold clock_apply (yield_ops script) (fire i w c)))
            (\<lambda>(c', fs). Some (c', (i, wt_deadline w) # fs)))"

declare advance_loop.simps [code]

definition Advance :: "duration \<Rightarrow> clock_op list list \<Rightarrow> Clock \<Rightarrow> (Clock \<times> (nat \<times> time) list) option" where
  "Advance d script c =
     (case advance_loop (ck_now c + d) script c of
        None \<Rightarrow> None
      | Some (c', fs) \<Rightarrow> Some (notifyBlockersLocked c', fs))"

subsection \<open>Laws of the operations\<close>

abbreviation wf_clock :: "Clock \<Rightarrow> bool" where
  "wf_clock c \<equiv> wf_map (ck_waiters c)"

lemma notifyBlockersLocked_frame [simp]:
  "ck_now (notifyBlockersLocked c) = ck_now c" "ck_waiters (notifyBlockersLocked c) = ck_waiters c"
  by (simp_all add: notifyBlockersLocked_def Let_def)

lemma earliestDueLocked_None:
  "earliestDueLocked target c = None \<Longrightarrow> \<forall>x \<in> set (ck_waiters c). target < wt_deadline (snd x)"
  using earliestDue_spec [where target = target and nxt = None and ws = "ck_waiters c"] by (simp add: earliestDueLocked_def)

lemma earliestDueLocked_Some:
  assumes "earliestDueLocked target c = Some (i, w)"
  shows "(i, w) \<in> set (ck_waiters c)" and "wt_deadline w \<le> target"
    and "\<forall>y \<in> set (ck_waiters c). wt_deadline w \<le> wt_deadline (snd y)"
  using earliestDue_spec [where target = target and nxt = None and ws = "ck_waiters c"] assms
  by (auto simp: earliestDueLocked_def no_later_def)

lemma fire_waiters:
  "ck_waiters (fire i w c) = (if 0 < wt_period w
     then map_put i (w\<lparr>wt_deadline := wt_deadline w + wt_period w\<rparr>) (ck_waiters c)
     else map_del i (ck_waiters c))"
  "ck_now (fire i w c) = wt_deadline w"
  by (simp_all add: fire_def Let_def)

lemma wf_fire: "wf_clock c \<Longrightarrow> wf_clock (fire i w c)"
  by (simp add: fire_waiters)

lemma wf_clock_apply: "wf_clock c \<Longrightarrow> wf_clock (clock_apply op c)"
  by (cases op) (auto simp: NewTimer_def NewTicker_def addWaiterLocked_def timer_stop_def timer_reset_def
      BlockUntilTimers_def Let_def split: option.splits)

lemma wf_clock_ops: "wf_clock c \<Longrightarrow> wf_clock (fold clock_apply ops c)"
  by (induction ops arbitrary: c) (simp_all add: wf_clock_apply)

lemma fire_decreases:
  assumes "wf_clock c" and "earliestDueLocked target c = Some (i, w)"
  shows "due_fires target (ck_waiters (fire i w c)) < due_fires target (ck_waiters c)"
proof -
  note m = earliestDueLocked_Some [OF assms(2)]
  show ?thesis
  proof (cases "0 < wt_period w")
    case True
    with fires_left_next [OF m(2) True] show ?thesis
      unfolding fire_waiters by (simp add: due_fires_put [OF assms(1) m(1)])
  next
    case False
    with m(2) show ?thesis
      unfolding fire_waiters by (simp add: due_fires_del [OF assms(1) m(1)] fires_left_def)
  qed
qed

text \<open>Induction along the loop: the script shortens, or nothing interferes and fewer fires are left.\<close>

lemma advance_induct [consumes 1, case_names idle fire]:
  assumes "wf_clock c"
    and d: "\<And>script c. wf_clock c \<Longrightarrow> earliestDueLocked target c = None \<Longrightarrow> P script c"
    and f: "\<And>script c i w. wf_clock c \<Longrightarrow> earliestDueLocked target c = Some (i, w) \<Longrightarrow>
       P (tl script) (fold clock_apply (yield_ops script) (fire i w c)) \<Longrightarrow> P script c"
  shows "P script c"
  using assms(1)
proof (induction "(script, c)" arbitrary: script c
    rule: wf_induct_rule [OF wf_measures [of "[\<lambda>(s, c). length s, \<lambda>(s, c). due_fires target (ck_waiters c)]"]])
  case (1 script c)
  show ?case
  proof (cases "earliestDueLocked target c")
    case None
    with 1 d show ?thesis by blast
  next
    case (Some x)
    then obtain i w where iw: "earliestDueLocked target c = Some (i, w)" by (cases x) auto
    have "((tl script, fold clock_apply (yield_ops script) (fire i w c)), (script, c))
      \<in> measures [\<lambda>(s, c). length s, \<lambda>(s, c). due_fires target (ck_waiters c)]"
      using fire_decreases [OF 1(2) iw] by (cases script) (simp_all add: yield_ops_def)
    from 1(1) [OF this wf_clock_ops [OF wf_fire [OF 1(2)]]] show ?thesis by (rule f [OF 1(2) iw])
  qed
qed

lemma advance_done: "earliestDueLocked target c = None \<Longrightarrow> advance_loop target script c = Some (c\<lparr>ck_now := target\<rparr>, [])"
  by (subst advance_loop.simps) simp

lemma advance_fire:
  assumes "earliestDueLocked target c = Some (i, w)"
    and "advance_loop target (tl script) (fold clock_apply (yield_ops script) (fire i w c)) = Some (c', fs)"
  shows "advance_loop target script c = Some (c', (i, wt_deadline w) # fs)"
  using assms by (subst advance_loop.simps) simp

subsection \<open>Properties\<close>

text \<open>
  C29. \<open>Advance\<close> returns: whatever finite sequence of operations other goroutines
  perform at its yields, and however long the tickers' periods, the loop ends with a
  result.
\<close>

theorem advance_returns:
  assumes "wf_clock c"
  shows "\<exists>c' fs. Advance d script c = Some (c', fs)"
proof -
  have "\<exists>c' fs. advance_loop target script c = Some (c', fs)" for target
    using assms
  proof (induction script c rule: advance_induct [where target = target])
    case (idle script c)
    from advance_done [OF idle(2)] show ?case by simp
  next
    case (fire script c i w)
    from fire(3) advance_fire [OF fire(2)] show ?case by blast
  qed
  from this [of "ck_now c + d"] show ?thesis by (auto simp: Advance_def)
qed

definition op_forward :: "clock_op \<Rightarrow> bool" where
  "op_forward op = (case op of OpTimer d \<Rightarrow> 0 \<le> d | OpReset i d \<Rightarrow> 0 \<le> d | _ \<Rightarrow> True)"

definition not_overdue :: "Clock \<Rightarrow> bool" where
  "not_overdue c \<longleftrightarrow> (\<forall>x \<in> set (ck_waiters c). ck_now c \<le> wt_deadline (snd x))"

lemma op_now [simp]: "ck_now (clock_apply op c) = ck_now c"
  by (cases op) (auto simp: NewTimer_def NewTicker_def addWaiterLocked_def timer_stop_def timer_reset_def
      BlockUntilTimers_def Let_def split: option.splits)

lemma op_not_overdue: "not_overdue c \<Longrightarrow> op_forward op \<Longrightarrow> not_overdue (clock_apply op c)"
  by (cases op) (auto simp: NewTimer_def NewTicker_def addWaiterLocked_def timer_stop_def timer_reset_def
      BlockUntilTimers_def Let_def not_overdue_def op_forward_def split: option.splits
      dest!: set_mp [OF set_map_put] set_mp [OF set_map_del])

lemma ops_not_overdue:
  "not_overdue c \<Longrightarrow> list_all op_forward ops \<Longrightarrow> not_overdue (fold clock_apply ops c) \<and> ck_now (fold clock_apply ops c) = ck_now c"
  by (induction ops arbitrary: c) (simp_all add: op_not_overdue)

lemma fire_not_overdue:
  assumes "earliestDueLocked target c = Some (i, w)"
  shows "not_overdue (fire i w c)"
  using earliestDueLocked_Some(3) [OF assms]
  by (auto simp: not_overdue_def fire_waiters dest!: set_mp [OF set_map_put] set_mp [OF set_map_del])

lemma advance_chronological_loop:
  assumes "wf_clock c"
  shows "not_overdue c \<Longrightarrow> ck_now c \<le> target \<Longrightarrow> list_all (list_all op_forward) script \<Longrightarrow>
    advance_loop target script c = Some (c', fs) \<Longrightarrow>
    sorted (map snd fs) \<and> (\<forall>t \<in> snd ` set fs. ck_now c \<le> t \<and> t \<le> target) \<and> ck_now c' = target
      \<and> (\<forall>x \<in> set (ck_waiters c'). target < wt_deadline (snd x))"
  using assms
proof (induction script c arbitrary: c' fs rule: advance_induct [where target = target])
  case (idle script c)
  have "c' = c\<lparr>ck_now := target\<rparr>" "fs = []" using idle.prems(4) advance_done [OF idle.hyps(2)] by simp_all
  then show ?case using earliestDueLocked_None [OF idle.hyps(2)] by simp
next
  case (fire script c i w)
  let ?c1 = "fold clock_apply (yield_ops script) (fire i w c)"
  note m = earliestDueLocked_Some [OF fire.hyps(2)]
  have ops: "list_all op_forward (yield_ops script)" "list_all (list_all op_forward) (tl script)"
    using fire.prems(3) by (cases script, simp_all add: yield_ops_def)+
  note c1 = ops_not_overdue [OF fire_not_overdue [OF fire.hyps(2)] ops(1)]
  obtain fs1 where fs1: "advance_loop target (tl script) ?c1 = Some (c', fs1)" "fs = (i, wt_deadline w) # fs1"
    using fire.prems(4) fire.hyps(2)
    by (subst (asm) advance_loop.simps) (auto simp: bind_eq_Some_conv)
  have now: "ck_now ?c1 = wt_deadline w" using c1 by (simp add: fire_waiters)
  have "ck_now c \<le> wt_deadline w" using fire.prems(1) m(1) by (auto simp: not_overdue_def)
  moreover have "sorted (map snd fs1) \<and> (\<forall>t \<in> snd ` set fs1. wt_deadline w \<le> t \<and> t \<le> target)
      \<and> ck_now c' = target \<and> (\<forall>x \<in> set (ck_waiters c'). target < wt_deadline (snd x))"
    using fire.IH [OF conjunct1 [OF c1] _ ops(2) fs1(1)] m(2) unfolding now by simp
  ultimately show ?case using m(2) unfolding fs1(2) by auto
qed

text \<open>
  Time runs forwards and in order: if no waiter is overdue and the other goroutines
  only arm timers with non-negative durations, \<open>Advance\<close> fires in chronological order,
  at times between the old and the new time, ends with the clock exactly \<open>d\<close> later, and
  leaves no waiter that is due.
\<close>

theorem advance_chronological:
  assumes "wf_clock c" and "not_overdue c" and "0 \<le> d" and "list_all (list_all op_forward) script"
    and "Advance d script c = Some (c', fs)"
  shows "sorted (map snd fs) \<and> (\<forall>t \<in> snd ` set fs. ck_now c \<le> t \<and> t \<le> ck_now c + d)
    \<and> ck_now c' = ck_now c + d \<and> (\<forall>x \<in> set (ck_waiters c'). ck_now c' < wt_deadline (snd x))"
proof -
  obtain c1 where "advance_loop (ck_now c + d) script c = Some (c1, fs)" "c' = notifyBlockersLocked c1"
    using assms(5) by (auto simp: Advance_def split: option.splits)
  with advance_chronological_loop [OF assms(1,2) _ assms(4), of "ck_now c + d"] assms(3) show ?thesis by simp
qed

text \<open>When a waiter fires if nobody interferes.\<close>

definition fire_times :: "time \<Rightarrow> waiter \<Rightarrow> time list" where
  "fire_times target w = map (\<lambda>k. wt_deadline w + int k * wt_period w) [0..<fires_left target w]"

lemma fire_times_next:
  assumes "wt_deadline w \<le> target" and "0 < wt_period w"
  shows "fire_times target w = wt_deadline w # fire_times target (w\<lparr>wt_deadline := wt_deadline w + wt_period w\<rparr>)"
  unfolding fire_times_def fires_left_next [OF assms]
  by (simp add: upt_conv_Cons map_Suc_upt [symmetric] algebra_simps del: upt_Suc)

lemma advance_exact_loop:
  assumes "wf_clock c"
  shows "script = [] \<Longrightarrow> advance_loop target script c = Some (c', fs) \<Longrightarrow>
    map snd (filter (\<lambda>(j, t). j = i) fs) = (case map_of (ck_waiters c) i of None \<Rightarrow> [] | Some w \<Rightarrow> fire_times target w)"
  using assms
proof (induction script c arbitrary: c' fs rule: advance_induct [where target = target])
  case (idle script c)
  have "fs = []" using idle.prems(2) advance_done [OF idle.hyps(2)] by simp
  moreover have "fire_times target w = []" if "map_of (ck_waiters c) i = Some w" for w
    using earliestDueLocked_None [OF idle.hyps(2)] map_of_SomeD [OF that] by (auto simp: fire_times_def fires_left_def)
  ultimately show ?case by (simp split: option.split)
next
  case (fire script c k w)
  note m = earliestDueLocked_Some [OF fire.hyps(2)]
  have script: "script = []" by (rule fire.prems(1))
  obtain fs1 where fs1: "advance_loop target [] (fire k w c) = Some (c', fs1)" "fs = (k, wt_deadline w) # fs1"
    using fire.prems(2) fire.hyps(2)
    by (subst (asm) advance_loop.simps) (auto simp: bind_eq_Some_conv script yield_ops_def)
  have k: "map_of (ck_waiters c) k = Some w" using fire.hyps(1) m(1) by simp
  have IH: "map snd (filter (\<lambda>(j, t). j = i) fs1)
      = (case map_of (ck_waiters (fire k w c)) i of None \<Rightarrow> [] | Some w \<Rightarrow> fire_times target w)"
    using fire.IH [of c' fs1] fs1(1) by (simp add: script yield_ops_def)
  show ?case
  proof (cases "i = k")
    case False
    with IH show ?thesis by (simp add: fs1(2) fire_waiters update_conv' delete_conv')
  next
    case True
    have "fire_times target w = [wt_deadline w]" if "\<not> 0 < wt_period w"
      using that m(2) by (simp add: fire_times_def fires_left_def)
    with True IH k fire_times_next [OF m(2)] show ?thesis
      by (cases "0 < wt_period w") (simp_all add: fs1(2) fire_waiters update_conv' delete_conv')
  qed
qed

text \<open>
  Nothing is lost and nothing fires twice: when nobody interferes, \<open>Advance\<close>
  fires a one-shot timer exactly once, at its deadline, if that lies in the interval, and
  a ticker at exactly its deadline and every whole period after it up to the new time.
\<close>

theorem advance_exact:
  assumes "wf_clock c" and "Advance d [] c = Some (c', fs)"
  shows "map snd (filter (\<lambda>(j, t). j = i) fs)
    = (case map_of (ck_waiters c) i of None \<Rightarrow> [] | Some w \<Rightarrow> fire_times (ck_now c + d) w)"
proof -
  obtain c1 where "advance_loop (ck_now c + d) [] c = Some (c1, fs)"
    using assms(2) by (auto simp: Advance_def split: option.splits)
  then show ?thesis by (rule advance_exact_loop [OF assms(1) refl])
qed

definition demo_clock :: Clock where
  "demo_clock = clock_apply (OpTicker 4) (clock_apply (OpTimer 5) (clock_New 100))"

lemma demo_clock_facts:
  "wf_clock demo_clock" "not_overdue demo_clock"
  "map_option snd (Advance 10 [] demo_clock) = Some [(2, 104), (1, 105), (2, 108)]"
  "map_option snd (Advance 10 [[], [OpTimer 0]] demo_clock) = Some [(2, 104), (1, 105), (3, 105), (2, 108)]"
  unfolding not_overdue_def by code_simp+

lemma advance_returns_witness:
  "\<exists>c' fs. Advance 10 [[], [OpTimer 0]] demo_clock = Some (c', fs)"
  by (rule advance_returns [OF demo_clock_facts(1)])

lemma advance_chronological_witness:
  "\<exists>c'. Advance 10 [[], [OpTimer 0]] demo_clock = Some (c', [(2, 104), (1, 105), (3, 105), (2, 108)])
     \<and> ck_now c' = ck_now demo_clock + 10"
proof -
  obtain c' where c': "Advance 10 [[], [OpTimer 0]] demo_clock = Some (c', [(2, 104), (1, 105), (3, 105), (2, 108)])"
    using demo_clock_facts(4) by auto
  with advance_chronological [OF demo_clock_facts(1,2) _ _ c'] show ?thesis by (simp add: op_forward_def)
qed

lemma advance_exact_witness:
  "\<exists>c' fs. Advance 10 [] demo_clock = Some (c', fs) \<and> map snd (filter (\<lambda>(j, t). j = 2) fs)
     = (case map_of (ck_waiters demo_clock) 2 of None \<Rightarrow> [] | Some w \<Rightarrow> fire_times (ck_now demo_clock + 10) w)"
proof -
  obtain c' fs where "Advance 10 [] demo_clock = Some (c', fs)" using demo_clock_facts(3) by auto
  with advance_exact [OF demo_clock_facts(1) this, of 2] show ?thesis by blast
qed

text \<open>
  A timer armed with a negative duration is overdue, and firing it sets the clock
  back to its deadline: while the woken goroutines run, the time is earlier than it was
  before \<open>Advance\<close> was called.
\<close>

theorem overdue_sets_clock_back:
  "let c = clock_apply (OpTimer (- 5)) (clock_New 100)
   in map_option (\<lambda>(c', fs). (fs, ck_now c')) (Advance 10 [] c) = Some ([(1, 95)], 110)
      \<and> map_option (\<lambda>(i, w). ck_now (fire i w c)) (earliestDueLocked 110 c) = Some 95"
  by code_simp

end
