(* ===== verification/Cron_Schedule.thy ===== *)
theory Cron_Schedule
  imports Go_Time Go_Strings
begin

text \<open>
  Schedules: \<^verbatim>\<open>pkg/cron/schedule.go\<close>. Clock declarations and rules keep their first
  error, \<open>Validate\<close> reports it, \<open>Canonical\<close> and \<open>Definition\<close> are the persisted forms,
  and \<open>Next\<close> computes the occurrences.

  A \<open>time.Location\<close> is its name and the lookup of package \<open>time\<close>: for a second counted
  from Go's zero time, the offset in force and the half-open interval of seconds it is in
  force for. What \<open>time.LoadLocation\<close> and the parser of robfig/cron return is the
  parameter \<open>lib\<close>; a parsed expression is the function from a location and an instant to
  the next instant. Integers that a caller passes (hours, minutes, days) are unbounded
  here; \<open>Every\<close> does its arithmetic at 64 bits.
\<close>

subsection \<open>Locations\<close>

record Location =
  loc_String :: string
  loc_lookup :: "int \<Rightarrow> int \<times> int \<times> int"

definition UTC :: Location where
  "UTC = \<lparr>loc_String = ''UTC'', loc_lookup = (\<lambda>_. (0, - (2 ^ 63), 2 ^ 63 - 1))\<rparr>"

text \<open>The civil reading of an instant, as if it were an instant of UTC (\<open>Time.In\<close>).\<close>

definition time_In :: "Location \<Rightarrow> time \<Rightarrow> time" where
  "time_In l t = t + fst (loc_lookup l (t div second)) * second"

text \<open>Days since the zero time of a date whose month or day may be out of range.\<close>

definition date_days :: "int \<Rightarrow> int \<Rightarrow> int \<Rightarrow> int" where
  "date_days y m d = day_number (y + (m - 1) div 12) ((m - 1) mod 12 + 1) d"

text \<open>
  \<open>time.Date\<close> at midnight, in seconds: the offset is looked up as if the reading were UTC,
  and once more when the result falls out of the interval of that offset.
\<close>

definition date_midnight :: "Location \<Rightarrow> int \<Rightarrow> int \<Rightarrow> int \<Rightarrow> int" where
  "date_midnight l y m d =
     (let unix = date_days y m d * daySeconds;
          (offset, start, stop) = loc_lookup l unix;
          utc = unix - offset
      in if offset = 0 then unix
         else if utc < start \<or> utc \<ge> stop then unix - fst (loc_lookup l utc)
         else unix - offset)"

text \<open>\<open>Time.AddDate\<close> of a whole number of years, in UTC.\<close>

definition add_years :: "int \<Rightarrow> time \<Rightarrow> time" where
  "add_years n t =
     (let (y, m, d) = time_Date t
      in date_days (y + n) m d * daySeconds * second + t mod (daySeconds * second))"

record CronLib =
  lib_LoadLocation :: "string \<Rightarrow> string + Location"
  lib_parse :: "string \<Rightarrow> string + (Location \<Rightarrow> time \<Rightarrow> time)"

subsection \<open>Errors\<close>

datatype sched_err =
    MinuteCount string nat
  | HourRange string int int int
  | MinuteRange string int
  | WeekdayRange int
  | MonthDayRange int
  | IntervalInvalid duration
  | LocationNil
  | LocationLocal
  | LocationNotPortable string string
  | AnchorNotEvery
  | AnchorZero
  | TimeOfDayInvalid
  | RawLength
  | RawParse string
  | RuleRequired
  | RuleUnsupported
  | NoOccurrence
  | TimezoneRequired
  | TimezoneUnknown string
  | KindUnknown string
  | CanonicalMismatch string string

text \<open>The message of an error; \<open>quote\<close> is the verb \<open>%q\<close>.\<close>

fun sched_err_Error :: "(string \<Rightarrow> string) \<Rightarrow> sched_err \<Rightarrow> string" where
  "sched_err_Error quote (MinuteCount name n) =
     name @ '': expected at most one minute, got '' @ show_nat n"
| "sched_err_Error quote (HourRange name lo hi h) =
     name @ '': hour must be between '' @ show_int lo @ '' and '' @ show_int hi @ '', got '' @ show_int h"
| "sched_err_Error quote (MinuteRange name m) =
     name @ '': minute must be between 0 and 59, got '' @ show_int m"
| "sched_err_Error quote (WeekdayRange d) =
     ''Weekly: weekday must be between Sunday and Saturday, got '' @ show_int d"
| "sched_err_Error quote (MonthDayRange d) =
     ''Monthly: day must be between 1 and 31, got '' @ show_int d"
| "sched_err_Error quote (IntervalInvalid i) =
     ''Every: interval must be a positive whole number of microseconds, got '' @ duration_String i"
| "sched_err_Error quote LocationNil = ''schedule location must not be nil''"
| "sched_err_Error quote LocationLocal =
     ''schedule location must be an explicit portable timezone, not Local''"
| "sched_err_Error quote (LocationNotPortable zone err) =
     ''schedule location '' @ quote zone @ '' is not portable: '' @ err"
| "sched_err_Error quote AnchorNotEvery = ''schedule anchor is only valid for Every''"
| "sched_err_Error quote AnchorZero = ''schedule interval anchor must not be zero''"
| "sched_err_Error quote TimeOfDayInvalid = ''invalid time of day''"
| "sched_err_Error quote RawLength = ''Raw: expression must contain 1 to 256 bytes''"
| "sched_err_Error quote (RawParse err) = ''Raw: '' @ err"
| "sched_err_Error quote RuleRequired = ''schedule rule is required''"
| "sched_err_Error quote RuleUnsupported = ''unsupported schedule rule''"
| "sched_err_Error quote NoOccurrence = ''schedule has no occurrence within five years''"
| "sched_err_Error quote TimezoneRequired = ''schedule definition timezone is required''"
| "sched_err_Error quote (TimezoneUnknown err) = ''schedule definition timezone: '' @ err"
| "sched_err_Error quote (KindUnknown kind) = ''unknown schedule definition kind '' @ quote kind"
| "sched_err_Error quote (CanonicalMismatch c n) =
     ''schedule definition canonical '' @ quote c @ '' does not match normalized '' @ quote n"

subsection \<open>Clock declarations\<close>

record TimeOfDay =
  td_hour :: int
  td_minute :: int
  td_err :: "sched_err option"

record MeridiemTime =
  mt_hour :: int
  mt_minute :: int
  mt_err :: "sched_err option"

definition validateClockInput ::
  "string \<Rightarrow> int \<Rightarrow> int \<Rightarrow> int \<Rightarrow> int list \<Rightarrow> int \<times> sched_err option" where
  "validateClockInput name hour minimumHour maximumHour minute' =
     (if length minute' > 1 then (0, Some (MinuteCount name (length minute')))
      else let valueMinute = (if length minute' = 1 then hd minute' else 0)
           in if hour < minimumHour \<or> hour > maximumHour
                then (valueMinute, Some (HourRange name minimumHour maximumHour hour))
              else if valueMinute < 0 \<or> valueMinute > 59
                then (valueMinute, Some (MinuteRange name valueMinute))
              else (valueMinute, None))"

definition At :: "int \<Rightarrow> int list \<Rightarrow> MeridiemTime" where
  "At hour minute' =
     (let (valueMinute, err) = validateClockInput ''At'' hour 1 12 minute'
      in \<lparr>mt_hour = hour, mt_minute = valueMinute, mt_err = err\<rparr>)"

definition AM :: "MeridiemTime \<Rightarrow> TimeOfDay" where
  "AM v = (if mt_err v \<noteq> None then \<lparr>td_hour = 0, td_minute = 0, td_err = mt_err v\<rparr>
           else \<lparr>td_hour = (if mt_hour v = 12 then 0 else mt_hour v), td_minute = mt_minute v, td_err = None\<rparr>)"

definition PM :: "MeridiemTime \<Rightarrow> TimeOfDay" where
  "PM v = (if mt_err v \<noteq> None then \<lparr>td_hour = 0, td_minute = 0, td_err = mt_err v\<rparr>
           else \<lparr>td_hour = (if mt_hour v \<noteq> 12 then mt_hour v + 12 else mt_hour v), td_minute = mt_minute v, td_err = None\<rparr>)"

definition At24 :: "int \<Rightarrow> int list \<Rightarrow> TimeOfDay" where
  "At24 hour minute' =
     (let (valueMinute, err) = validateClockInput ''At24'' hour 0 23 minute'
      in \<lparr>td_hour = hour, td_minute = valueMinute, td_err = err\<rparr>)"

definition Midnight :: TimeOfDay where
  "Midnight = At24 0 []"

definition Noon :: TimeOfDay where
  "Noon = At24 12 []"

definition TimeOfDay_String :: "TimeOfDay \<Rightarrow> string" where
  "TimeOfDay_String v =
     (let (hour, meridiem) =
            (if td_hour v = 0 then (12, ''AM'')
             else if td_hour v = 12 then (12, ''PM'')
             else if td_hour v > 12 then (td_hour v - 12, ''PM'')
             else (td_hour v, ''AM''))
      in show_int hour @ '':'' @ pad0 2 (td_minute v) @ '' '' @ meridiem)"

definition validateTimeOfDay :: "TimeOfDay \<Rightarrow> sched_err option" where
  "validateTimeOfDay v =
     (if td_err v \<noteq> None then td_err v
      else if td_hour v < 0 \<or> td_hour v > 23 \<or> td_minute v < 0 \<or> td_minute v > 59 then Some TimeOfDayInvalid
      else None)"

subsection \<open>Rules and schedules\<close>

datatype ruleKind =
  ruleInvalid | ruleDaily | ruleWeekly | ruleMonthly | ruleLastDayOfMonth | ruleEvery | ruleRaw

record Rule =
  ru_kind :: ruleKind
  ru_at :: TimeOfDay
  ru_weekday :: int
  ru_monthDay :: int
  ru_interval :: duration
  ru_raw :: string
  ru_err :: "sched_err option"

definition zeroTimeOfDay :: TimeOfDay where
  "zeroTimeOfDay = \<lparr>td_hour = 0, td_minute = 0, td_err = None\<rparr>"

definition zeroRule :: Rule where
  "zeroRule = \<lparr>ru_kind = ruleInvalid, ru_at = zeroTimeOfDay, ru_weekday = 0, ru_monthDay = 0,
               ru_interval = 0, ru_raw = [], ru_err = None\<rparr>"

definition Daily :: "TimeOfDay \<Rightarrow> Rule" where
  "Daily a = zeroRule\<lparr>ru_kind := ruleDaily, ru_at := a, ru_err := td_err a\<rparr>"

definition Weekly :: "int \<Rightarrow> TimeOfDay \<Rightarrow> Rule" where
  "Weekly day a =
     zeroRule\<lparr>ru_kind := ruleWeekly, ru_weekday := day, ru_at := a,
       ru_err := (if td_err a = None \<and> (day < 0 \<or> day > 6) then Some (WeekdayRange day) else td_err a)\<rparr>"

definition Monthly :: "int \<Rightarrow> TimeOfDay \<Rightarrow> Rule" where
  "Monthly day a =
     zeroRule\<lparr>ru_kind := ruleMonthly, ru_monthDay := day, ru_at := a,
       ru_err := (if td_err a = None \<and> (day < 1 \<or> day > 31) then Some (MonthDayRange day) else td_err a)\<rparr>"

definition LastDayOfMonth :: "TimeOfDay \<Rightarrow> Rule" where
  "LastDayOfMonth a = zeroRule\<lparr>ru_kind := ruleLastDayOfMonth, ru_at := a, ru_err := td_err a\<rparr>"

definition bad_interval :: "duration \<Rightarrow> bool" where
  "bad_interval i \<longleftrightarrow> i < 1000 \<or> i mod 1000 \<noteq> 0"

definition Every :: "duration \<Rightarrow> Rule" where
  "Every interval =
     zeroRule\<lparr>ru_kind := ruleEvery, ru_interval := interval,
       ru_err := (if bad_interval interval then Some (IntervalInvalid interval) else None)\<rparr>"

definition Raw :: "string \<Rightarrow> Rule" where
  "Raw expression = zeroRule\<lparr>ru_kind := ruleRaw, ru_raw := TrimSpace expression\<rparr>"

record Schedule =
  sc_rule :: Rule
  sc_location :: "Location option"
  sc_anchor :: time
  sc_hasAnchor :: bool

definition Spec :: "Rule \<Rightarrow> Schedule" where
  "Spec r = \<lparr>sc_rule = r, sc_location = Some UTC, sc_anchor = 0, sc_hasAnchor = False\<rparr>"

definition Schedule_In :: "Location option \<Rightarrow> Schedule \<Rightarrow> Schedule" where
  "Schedule_In l s = s\<lparr>sc_location := l\<rparr>"

definition Schedule_Anchor :: "time \<Rightarrow> Schedule \<Rightarrow> Schedule" where
  "Schedule_Anchor t s = s\<lparr>sc_anchor := time_Truncate 1000 t, sc_hasAnchor := True\<rparr>"

definition IntervalAnchor :: "Schedule \<Rightarrow> time \<times> bool" where
  "IntervalAnchor s = (sc_anchor s, sc_hasAnchor s)"

definition Schedule_Location :: "Schedule \<Rightarrow> Location option" where
  "Schedule_Location s = sc_location s"

definition normalizeRaw :: "string \<Rightarrow> string" where
  "normalizeRaw expression = strings_Join (strings_Fields expression) '' ''"

definition parseRaw :: "CronLib \<Rightarrow> string \<Rightarrow> sched_err + (Location \<Rightarrow> time \<Rightarrow> time)" where
  "parseRaw lib expression0 =
     (let expression = normalizeRaw expression0
      in if expression = [] \<or> length expression > 256 then Inl RawLength
         else case lib_parse lib expression of Inl err \<Rightarrow> Inl (RawParse err) | Inr parsed \<Rightarrow> Inr parsed)"

subsection \<open>Validation and the canonical form\<close>

definition Schedule_Validate :: "CronLib \<Rightarrow> Schedule \<Rightarrow> sched_err option" where
  "Schedule_Validate lib s =
     (case sc_location s of
        None \<Rightarrow> Some LocationNil
      | Some l \<Rightarrow>
          if loc_String l = ''Local'' then Some LocationLocal
          else case lib_LoadLocation lib (loc_String l) of
            Inl err \<Rightarrow> Some (LocationNotPortable (loc_String l) err)
          | Inr _ \<Rightarrow>
              if ru_err (sc_rule s) \<noteq> None then ru_err (sc_rule s)
              else if sc_hasAnchor s \<and> ru_kind (sc_rule s) \<noteq> ruleEvery then Some AnchorNotEvery
              else if sc_hasAnchor s \<and> IsZero (sc_anchor s) then Some AnchorZero
              else (case ru_kind (sc_rule s) of
                      ruleDaily \<Rightarrow> validateTimeOfDay (ru_at (sc_rule s))
                    | ruleWeekly \<Rightarrow> validateTimeOfDay (ru_at (sc_rule s))
                    | ruleMonthly \<Rightarrow> validateTimeOfDay (ru_at (sc_rule s))
                    | ruleLastDayOfMonth \<Rightarrow> validateTimeOfDay (ru_at (sc_rule s))
                    | ruleEvery \<Rightarrow>
                        if bad_interval (ru_interval (sc_rule s))
                        then Some (IntervalInvalid (ru_interval (sc_rule s))) else None
                    | ruleRaw \<Rightarrow> (case parseRaw lib (ru_raw (sc_rule s)) of Inl err \<Rightarrow> Some err | Inr _ \<Rightarrow> None)
                    | ruleInvalid \<Rightarrow> Some RuleRequired))"

definition canonical_rule :: "Rule \<Rightarrow> sched_err + string" where
  "canonical_rule r =
     (let a = ru_at r; clock = show_int (td_minute a) @ '' '' @ show_int (td_hour a)
      in case ru_kind r of
           ruleDaily \<Rightarrow> Inr (clock @ '' * * *'')
         | ruleWeekly \<Rightarrow> Inr (clock @ '' * * '' @ show_int (ru_weekday r))
         | ruleMonthly \<Rightarrow> Inr (clock @ '' '' @ show_int (ru_monthDay r) @ '' * *'')
         | ruleLastDayOfMonth \<Rightarrow> Inr (clock @ '' L * *'')
         | ruleEvery \<Rightarrow> Inr (''@every '' @ duration_String (ru_interval r))
         | ruleRaw \<Rightarrow> Inr (normalizeRaw (ru_raw r))
         | ruleInvalid \<Rightarrow> Inl RuleRequired)"

definition Canonical :: "CronLib \<Rightarrow> Schedule \<Rightarrow> sched_err + string" where
  "Canonical lib s =
     (case Schedule_Validate lib s of Some err \<Rightarrow> Inl err | None \<Rightarrow> canonical_rule (sc_rule s))"

definition weekday_String :: "int \<Rightarrow> string" where
  "weekday_String d =
     (if 0 \<le> d \<and> d \<le> 6
      then [''Sunday'', ''Monday'', ''Tuesday'', ''Wednesday'', ''Thursday'', ''Friday'', ''Saturday''] ! nat d
      else ''%!Weekday('' @ show_int d @ '')'')"

definition Schedule_String :: "(string \<Rightarrow> string) \<Rightarrow> CronLib \<Rightarrow> Schedule \<Rightarrow> string" where
  "Schedule_String quote lib s =
     (case Schedule_Validate lib s of
        Some err \<Rightarrow> ''invalid schedule: '' @ sched_err_Error quote err
      | None \<Rightarrow>
          let zone = (case sc_location s of None \<Rightarrow> ''UTC'' | Some l \<Rightarrow> loc_String l);
              r = sc_rule s; clock = TimeOfDay_String (ru_at r)
          in case ru_kind r of
               ruleDaily \<Rightarrow> ''daily at '' @ clock @ '' ('' @ zone @ '')''
             | ruleWeekly \<Rightarrow> ''weekly on '' @ weekday_String (ru_weekday r) @ '' at '' @ clock @ '' ('' @ zone @ '')''
             | ruleMonthly \<Rightarrow> ''monthly on day '' @ show_int (ru_monthDay r) @ '' at '' @ clock @ '' ('' @ zone @ '')''
             | ruleLastDayOfMonth \<Rightarrow> ''monthly on the last day at '' @ clock @ '' ('' @ zone @ '')''
             | ruleEvery \<Rightarrow> ''every '' @ duration_String (ru_interval r)
             | ruleRaw \<Rightarrow> ''cron '' @ (case Canonical lib s of Inl _ \<Rightarrow> [] | Inr c \<Rightarrow> c) @ '' ('' @ zone @ '')''
             | ruleInvalid \<Rightarrow> ''invalid schedule'')"

subsection \<open>The persisted definition\<close>

record ScheduleDefinition =
  sd_Kind :: string
  sd_Timezone :: string
  sd_Canonical :: string
  sd_Hour :: int
  sd_Minute :: int
  sd_Weekday :: int
  sd_MonthDay :: int
  sd_Interval :: duration
  sd_Anchor :: time
  sd_HasAnchor :: bool

definition ScheduleKindDaily :: string where "ScheduleKindDaily = ''daily''"
definition ScheduleKindWeekly :: string where "ScheduleKindWeekly = ''weekly''"
definition ScheduleKindMonthly :: string where "ScheduleKindMonthly = ''monthly''"
definition ScheduleKindLastDayOfMonth :: string where "ScheduleKindLastDayOfMonth = ''last_day_of_month''"
definition ScheduleKindEvery :: string where "ScheduleKindEvery = ''every''"
definition ScheduleKindRaw :: string where "ScheduleKindRaw = ''raw''"

lemmas ScheduleKind_defs = ScheduleKindDaily_def ScheduleKindWeekly_def ScheduleKindMonthly_def
  ScheduleKindLastDayOfMonth_def ScheduleKindEvery_def ScheduleKindRaw_def

text \<open>The kind string of a rule; an invalid rule leaves it empty.\<close>

definition kind_string :: "ruleKind \<Rightarrow> string" where
  "kind_string k =
     (case k of
        ruleDaily \<Rightarrow> ScheduleKindDaily | ruleWeekly \<Rightarrow> ScheduleKindWeekly
      | ruleMonthly \<Rightarrow> ScheduleKindMonthly | ruleLastDayOfMonth \<Rightarrow> ScheduleKindLastDayOfMonth
      | ruleEvery \<Rightarrow> ScheduleKindEvery | ruleRaw \<Rightarrow> ScheduleKindRaw | ruleInvalid \<Rightarrow> [])"

definition Schedule_Definition :: "CronLib \<Rightarrow> Schedule \<Rightarrow> sched_err + ScheduleDefinition" where
  "Schedule_Definition lib s =
     (case Schedule_Validate lib s of
        Some err \<Rightarrow> Inl err
      | None \<Rightarrow>
          and_then (Canonical lib s) (\<lambda>canonical.
            let r = sc_rule s
            in Inr \<lparr>sd_Kind = kind_string (ru_kind r),
                    sd_Timezone = (case sc_location s of None \<Rightarrow> ''UTC'' | Some l \<Rightarrow> loc_String l),
                    sd_Canonical = canonical,
                    sd_Hour = td_hour (ru_at r), sd_Minute = td_minute (ru_at r),
                    sd_Weekday = ru_weekday r, sd_MonthDay = ru_monthDay r,
                    sd_Interval = (if ru_kind r = ruleEvery then ru_interval r else 0),
                    sd_Anchor = sc_anchor s, sd_HasAnchor = sc_hasAnchor s\<rparr>))"

definition definition_rule :: "ScheduleDefinition \<Rightarrow> sched_err + Rule" where
  "definition_rule d =
     (let a = At24 (sd_Hour d) [sd_Minute d]
      in if sd_Kind d = ScheduleKindDaily then Inr (Daily a)
         else if sd_Kind d = ScheduleKindWeekly then Inr (Weekly (sd_Weekday d) a)
         else if sd_Kind d = ScheduleKindMonthly then Inr (Monthly (sd_MonthDay d) a)
         else if sd_Kind d = ScheduleKindLastDayOfMonth then Inr (LastDayOfMonth a)
         else if sd_Kind d = ScheduleKindEvery then Inr (Every (sd_Interval d))
         else if sd_Kind d = ScheduleKindRaw then Inr (Raw (sd_Canonical d))
         else Inl (KindUnknown (sd_Kind d)))"

definition ScheduleFromDefinition :: "CronLib \<Rightarrow> ScheduleDefinition \<Rightarrow> sched_err + Schedule" where
  "ScheduleFromDefinition lib d =
     (if sd_Timezone d = [] then Inl TimezoneRequired
      else case lib_LoadLocation lib (sd_Timezone d) of
        Inl err \<Rightarrow> Inl (TimezoneUnknown err)
      | Inr location \<Rightarrow>
          and_then (definition_rule d) (\<lambda>rule.
            let s0 = Schedule_In (Some location) (Spec rule);
                s = (if sd_HasAnchor d then Schedule_Anchor (sd_Anchor d) s0 else s0)
            in case Schedule_Validate lib s of
                 Some err \<Rightarrow> Inl err
               | None \<Rightarrow>
                   and_then (Canonical lib s) (\<lambda>canonical.
                     if sd_Canonical d \<noteq> [] \<and> sd_Canonical d \<noteq> canonical
                     then Inl (CanonicalMismatch (sd_Canonical d) canonical) else Inr s)))"

subsection \<open>The next occurrence\<close>

definition lastDay :: "Location \<Rightarrow> time \<Rightarrow> int" where
  "lastDay l t =
     (let (y, m, d) = time_Date (time_In l t)
      in time_Day (time_In l (date_midnight l y (m + 1) 0 * second)))"

definition matchesAt :: "Location \<Rightarrow> TimeOfDay \<Rightarrow> time \<Rightarrow> bool" where
  "matchesAt l a t \<longleftrightarrow>
     time_Hour (time_In l t) = td_hour a \<and> time_Minute (time_In l t) = td_minute a"

definition matcher :: "Rule \<Rightarrow> sched_err + (Location \<Rightarrow> time \<Rightarrow> bool)" where
  "matcher r =
     (case ru_kind r of
        ruleDaily \<Rightarrow> Inr (\<lambda>l t. matchesAt l (ru_at r) t)
      | ruleWeekly \<Rightarrow> Inr (\<lambda>l t. time_Weekday (time_In l t) = ru_weekday r \<and> matchesAt l (ru_at r) t)
      | ruleMonthly \<Rightarrow> Inr (\<lambda>l t. time_Day (time_In l t) = ru_monthDay r \<and> matchesAt l (ru_at r) t)
      | ruleLastDayOfMonth \<Rightarrow> Inr (\<lambda>l t. time_Day (time_In l t) = lastDay l t \<and> matchesAt l (ru_at r) t)
      | _ \<Rightarrow> Inl RuleUnsupported)"

text \<open>The walk over the minutes of UTC.\<close>

function next_walk :: "(time \<Rightarrow> bool) \<Rightarrow> time \<Rightarrow> time \<Rightarrow> time option" where
  "next_walk matches candidate deadline =
     (if candidate > deadline then None
      else if matches candidate then Some candidate
      else next_walk matches (candidate + minute) deadline)"
  by auto
termination
  by (relation "measure (\<lambda>(_, candidate, deadline). nat (deadline + 1 - candidate))") auto

declare next_walk.simps [simp del]

definition every_next :: "time \<Rightarrow> duration \<Rightarrow> time \<Rightarrow> time" where
  "every_next anchor interval after =
     (if after < anchor then anchor
      else let elapsed = time_Sub after anchor; steps = wrap_int64 (elapsed div interval + 1)
           in anchor + wrap_int64 (steps * interval))"

definition first_candidate :: "time \<Rightarrow> time" where
  "first_candidate after = time_Truncate minute after + minute"

definition Schedule_Next :: "CronLib \<Rightarrow> Schedule \<Rightarrow> time \<Rightarrow> sched_err + time" where
  "Schedule_Next lib s after =
     (case Schedule_Validate lib s of
        Some err \<Rightarrow> Inl err
      | None \<Rightarrow>
          let r = sc_rule s; l = (case sc_location s of None \<Rightarrow> UTC | Some l \<Rightarrow> l)
          in if ru_kind r = ruleEvery then
               Inr (every_next (if sc_hasAnchor s then sc_anchor s else unixEpoch * second) (ru_interval r) after)
             else if ru_kind r = ruleRaw then
               and_then (parseRaw lib (ru_raw r)) (\<lambda>parsed. Inr (parsed l after))
             else
               and_then (matcher r) (\<lambda>matches.
                 let candidate = first_candidate after; deadline = add_years 5 candidate
                 in case next_walk (matches l) candidate deadline of
                      Some t \<Rightarrow> Inr t
                    | None \<Rightarrow> Inl NoOccurrence))"

end
