(* ===== verification/Cron_Store.thy ===== *)
theory Cron_Store
  imports Cron_Schedule "HOL-Library.Product_Lexorder"
begin

text \<open>
  The store contract and its process-local implementation: \<^verbatim>\<open>pkg/cron/store.go\<close>, with the
  policies and job names of \<^verbatim>\<open>options.go\<close> that it validates.

  A store is two maps. A method is a function from the store to the store and its result;
  the mutex makes each one atomic. A context is absent, live, or ended with a cause. SHA-256
  in hexadecimal is the parameter \<open>digest\<close>. A time is an instant, so \<open>UTC()\<close> is the identity.
\<close>

subsection \<open>Errors and contexts\<close>

datatype cron_err =
    ErrInvalidConfiguration string
  | ErrInvalidSchedule string sched_err
  | ErrInitialOccurrence string sched_err
  | ErrReconciledOccurrence string sched_err
  | ErrJobNotFound string
  | ErrLeaseLost
  | ErrOccurrenceConflict string
  | ErrOccurrenceRunning
  | ErrContext string

datatype ctx = NilContext | LiveContext | EndedContext string

fun contextError :: "ctx \<Rightarrow> cron_err option" where
  "contextError NilContext = Some (ErrInvalidConfiguration ''nil context'')"
| "contextError LiveContext = None"
| "contextError (EndedContext cause) = Some (ErrContext cause)"

definition maxLeaseOwnerBytes :: nat where "maxLeaseOwnerBytes = 128"
definition maxLeaseTokenBytes :: nat where "maxLeaseTokenBytes = 256"
definition maxStoreTextBytes :: nat where "maxStoreTextBytes = 4096"
definition SnapshotOccurrenceLimit :: nat where "SnapshotOccurrenceLimit = 1000"
definition maxCatchUpLimit :: int where "maxCatchUpLimit = 2 ^ 31 - 1"

subsection \<open>Policies and names\<close>

definition CatchUpNone :: string where "CatchUpNone = ''none''"
definition CatchUpLatest :: string where "CatchUpLatest = ''latest''"
definition CatchUpAll :: string where "CatchUpAll = ''all''"
definition OverlapSkip :: string where "OverlapSkip = ''skip''"
definition OverlapAllow :: string where "OverlapAllow = ''allow''"

definition CatchUpPolicy_valid :: "string \<Rightarrow> bool" where
  "CatchUpPolicy_valid p \<longleftrightarrow> p = CatchUpNone \<or> p = CatchUpLatest \<or> p = CatchUpAll"

definition OverlapPolicy_valid :: "string \<Rightarrow> bool" where
  "OverlapPolicy_valid p \<longleftrightarrow> p = OverlapSkip \<or> p = OverlapAllow"

definition name_char :: "char \<Rightarrow> bool" where
  "name_char c \<longleftrightarrow> (CHR ''a'' \<le> c \<and> c \<le> CHR ''z'') \<or> (CHR ''0'' \<le> c \<and> c \<le> CHR ''9'')
     \<or> c = CHR ''.'' \<or> c = CHR ''_'' \<or> c = CHR ''/'' \<or> c = CHR ''-''"

definition validateJobName :: "string \<Rightarrow> cron_err option" where
  "validateJobName name =
     (let bad = Some (ErrInvalidConfiguration ''job name must match ^[a-z][a-z0-9._/-]*$ and contain 1 to 128 bytes'')
      in if length name = 0 \<or> length name > 128 \<or> hd name < CHR ''a'' \<or> hd name > CHR ''z'' then bad
         else if list_ex (\<lambda>c. \<not> name_char c) (tl name) then bad
         else None)"

subsection \<open>Records\<close>

record JobDefinition =
  jd_Name :: string
  jd_Schedule :: ScheduleDefinition
  jd_CatchUp :: string
  jd_Overlap :: string

record JobState =
  js_Definition :: JobDefinition
  js_NextRunAt :: time
  js_CreatedAt :: time
  js_UpdatedAt :: time

definition OccurrenceRunning :: string where "OccurrenceRunning = ''running''"
definition OccurrenceSucceeded :: string where "OccurrenceSucceeded = ''succeeded''"
definition OccurrenceFailed :: string where "OccurrenceFailed = ''failed''"
definition OccurrenceCanceled :: string where "OccurrenceCanceled = ''canceled''"
definition OccurrenceSkipped :: string where "OccurrenceSkipped = ''skipped''"

lemma occurrence_status_distinct [status_simps]:
  "OccurrenceSucceeded \<noteq> OccurrenceRunning" "OccurrenceFailed \<noteq> OccurrenceRunning"
  "OccurrenceCanceled \<noteq> OccurrenceRunning" "OccurrenceSkipped \<noteq> OccurrenceRunning"
  "OccurrenceRunning \<noteq> OccurrenceSkipped" "OverlapAllow \<noteq> OverlapSkip"
  "CatchUpNone \<noteq> CatchUpAll" "CatchUpLatest \<noteq> CatchUpAll" "CatchUpLatest \<noteq> CatchUpNone"
  by (simp_all add: OccurrenceSucceeded_def OccurrenceRunning_def OccurrenceFailed_def OccurrenceCanceled_def
      OccurrenceSkipped_def OverlapAllow_def OverlapSkip_def CatchUpNone_def CatchUpAll_def CatchUpLatest_def)

definition terminalCompletion :: "string \<Rightarrow> bool" where
  "terminalCompletion s \<longleftrightarrow> s = OccurrenceSucceeded \<or> s = OccurrenceFailed \<or> s = OccurrenceCanceled"

record OccurrenceRecord =
  oc_ID :: string
  oc_JobName :: string
  oc_ScheduledAt :: time
  oc_Status :: string
  oc_Attempt :: "32 word"
  oc_StartedAt :: time
  oc_FinishedAt :: time
  oc_LeaseOwner :: string
  oc_LeaseToken :: string
  oc_LeaseUntil :: time
  oc_Error :: string
  oc_SkipReason :: string
  oc_LastModified :: time

datatype ClaimDisposition = ClaimAcquired | ClaimAlreadyTerminal | ClaimLeaseHeld | ClaimSkippedOverlap

record ClaimRequest =
  cl_OccurrenceID :: string
  cl_JobName :: string
  cl_ScheduledAt :: time
  cl_NextRunAt :: time
  cl_LeaseOwner :: string
  cl_LeaseToken :: string
  cl_ClaimedAt :: time
  cl_LeaseUntil :: time

record ClaimResult =
  cr_Disposition :: ClaimDisposition
  cr_Occurrence :: OccurrenceRecord

record LeaseRenewal =
  rn_OccurrenceID :: string
  rn_LeaseToken :: string
  rn_RenewedAt :: time
  rn_LeaseUntil :: time

record Completion =
  cm_OccurrenceID :: string
  cm_LeaseToken :: string
  cm_Status :: string
  cm_FinishedAt :: time
  cm_Error :: string

record SkipRequest =
  sk_OccurrenceID :: string
  sk_JobName :: string
  sk_ScheduledAt :: time
  sk_NextRunAt :: time
  sk_SkippedAt :: time
  sk_Reason :: string

record StoreSnapshot =
  sn_Jobs :: "JobState list"
  sn_Occurrences :: "OccurrenceRecord list"

record MemoryStore =
  ms_jobs :: "(string \<times> JobState) list"
  ms_occurrences :: "(string \<times> OccurrenceRecord) list"

definition NewMemoryStore :: MemoryStore where
  "NewMemoryStore = \<lparr>ms_jobs = [], ms_occurrences = []\<rparr>"

subsection \<open>Helpers\<close>

definition format_RFC3339Nano :: "time \<Rightarrow> string" where
  "format_RFC3339Nano t = butlast (format_RFC3339_UTC t) @ fmtFrac (t mod second) 9 @ ''Z''"

definition OccurrenceID :: "(string \<Rightarrow> string) \<Rightarrow> string \<Rightarrow> time \<Rightarrow> string" where
  "OccurrenceID digest jobName scheduledAt =
     ''occ_'' @ digest (jobName @ [CHR 0x00] @ format_RFC3339Nano scheduledAt)"

definition durablyAfter :: "time \<Rightarrow> time \<Rightarrow> bool" where
  "durablyAfter later earlier \<longleftrightarrow> time_Truncate 1000 later > time_Truncate 1000 earlier"

definition sameOccurrence :: "OccurrenceRecord \<Rightarrow> string \<Rightarrow> time \<Rightarrow> cron_err option" where
  "sameOccurrence r jobName scheduledAt =
     (if oc_JobName r \<noteq> jobName \<or> oc_ScheduledAt r \<noteq> scheduledAt then Some (ErrOccurrenceConflict []) else None)"

definition validateClaim :: "(string \<Rightarrow> string) \<Rightarrow> ClaimRequest \<Rightarrow> cron_err option" where
  "validateClaim digest r =
     (if cl_OccurrenceID r = [] \<or> cl_JobName r = [] \<or> cl_LeaseOwner r = [] \<or> cl_LeaseToken r = []
         \<or> length (cl_LeaseOwner r) > maxLeaseOwnerBytes \<or> length (cl_LeaseToken r) > maxLeaseTokenBytes
         \<or> IsZero (cl_ScheduledAt r) \<or> IsZero (cl_NextRunAt r) \<or> IsZero (cl_ClaimedAt r) \<or> IsZero (cl_LeaseUntil r)
         \<or> \<not> cl_NextRunAt r > cl_ScheduledAt r \<or> \<not> durablyAfter (cl_LeaseUntil r) (cl_ClaimedAt r)
      then Some (ErrInvalidConfiguration ''invalid occurrence claim'')
      else if cl_OccurrenceID r \<noteq> OccurrenceID digest (cl_JobName r) (cl_ScheduledAt r)
      then Some (ErrOccurrenceConflict ''claim ID is not deterministic'')
      else None)"

definition validateSkip :: "(string \<Rightarrow> string) \<Rightarrow> SkipRequest \<Rightarrow> cron_err option" where
  "validateSkip digest r =
     (if sk_OccurrenceID r = [] \<or> sk_JobName r = [] \<or> IsZero (sk_ScheduledAt r) \<or> IsZero (sk_NextRunAt r)
         \<or> IsZero (sk_SkippedAt r) \<or> length (sk_Reason r) = 0 \<or> length (sk_Reason r) > maxStoreTextBytes
         \<or> \<not> sk_NextRunAt r > sk_ScheduledAt r
      then Some (ErrInvalidConfiguration ''invalid occurrence skip'')
      else if sk_OccurrenceID r \<noteq> OccurrenceID digest (sk_JobName r) (sk_ScheduledAt r)
      then Some (ErrOccurrenceConflict ''skip ID is not deterministic'')
      else None)"

definition validateScheduleAdvance :: "CronLib \<Rightarrow> JobState \<Rightarrow> time \<Rightarrow> time \<Rightarrow> cron_err option" where
  "validateScheduleAdvance lib state scheduledAt nextRunAt =
     (case ScheduleFromDefinition lib (jd_Schedule (js_Definition state)) of
        Inl err \<Rightarrow> Some (ErrInvalidSchedule ''durable schedule'' err)
      | Inr schedule \<Rightarrow>
          (case Schedule_Next lib schedule scheduledAt of
             Inl err \<Rightarrow> Some (ErrInvalidSchedule ''durable next occurrence'' err)
           | Inr expected \<Rightarrow>
               if expected \<noteq> nextRunAt
               then Some (ErrOccurrenceConflict ''next run does not follow durable schedule'') else None))"

definition preserveIntervalAnchor :: "JobDefinition \<Rightarrow> JobDefinition \<Rightarrow> JobDefinition" where
  "preserveIntervalAnchor incoming existing =
     (let i = jd_Schedule incoming; e = jd_Schedule existing
      in if sd_Kind i \<noteq> ScheduleKindEvery \<or> sd_HasAnchor i \<or> sd_Kind e \<noteq> ScheduleKindEvery \<or> \<not> sd_HasAnchor e
         then incoming
         else if sd_Interval i = sd_Interval e \<and> sd_Timezone i = sd_Timezone e \<and> sd_Canonical i = sd_Canonical e
         then incoming\<lparr>jd_Schedule := i\<lparr>sd_Anchor := sd_Anchor e, sd_HasAnchor := True\<rparr>\<rparr>
         else incoming)"

definition normalizedDefinition :: "CronLib \<Rightarrow> JobDefinition \<Rightarrow> time \<Rightarrow> cron_err + JobDefinition \<times> Schedule" where
  "normalizedDefinition lib d now =
     (case validateJobName (jd_Name d) of
        Some err \<Rightarrow> Inl err
      | None \<Rightarrow>
          if \<not> CatchUpPolicy_valid (jd_CatchUp d) \<or> \<not> OverlapPolicy_valid (jd_Overlap d)
          then Inl (ErrInvalidConfiguration (''invalid policies of job '' @ jd_Name d))
          else case ScheduleFromDefinition lib (jd_Schedule d) of
            Inl err \<Rightarrow> Inl (ErrInvalidSchedule (jd_Name d) err)
          | Inr schedule0 \<Rightarrow>
              let schedule = (if sd_Kind (jd_Schedule d) = ScheduleKindEvery \<and> \<not> sd_HasAnchor (jd_Schedule d)
                              then Schedule_Anchor now schedule0 else schedule0)
              in case Schedule_Definition lib schedule of
                   Inl err \<Rightarrow> Inl (ErrInvalidSchedule (jd_Name d) err)
                 | Inr sd \<Rightarrow> Inr (d\<lparr>jd_Schedule := sd\<rparr>, schedule))"

subsection \<open>Reading and advancing the store\<close>

definition zeroScheduleDefinition :: ScheduleDefinition where
  "zeroScheduleDefinition =
     \<lparr>sd_Kind = [], sd_Timezone = [], sd_Canonical = [], sd_Hour = 0, sd_Minute = 0, sd_Weekday = 0,
      sd_MonthDay = 0, sd_Interval = 0, sd_Anchor = 0, sd_HasAnchor = False\<rparr>"

definition zeroJobState :: JobState where
  "zeroJobState =
     \<lparr>js_Definition = \<lparr>jd_Name = [], jd_Schedule = zeroScheduleDefinition, jd_CatchUp = [], jd_Overlap = []\<rparr>,
      js_NextRunAt = 0, js_CreatedAt = 0, js_UpdatedAt = 0\<rparr>"

definition advanceLocked :: "string \<Rightarrow> time \<Rightarrow> time \<Rightarrow> MemoryStore \<Rightarrow> MemoryStore" where
  "advanceLocked jobName next updatedAt st =
     (let state = map_get zeroJobState (ms_jobs st) jobName;
          state = (if js_NextRunAt state < next then state\<lparr>js_NextRunAt := next\<rparr> else state)
      in st\<lparr>ms_jobs := map_put jobName (state\<lparr>js_UpdatedAt := updatedAt\<rparr>) (ms_jobs st)\<rparr>)"

definition put_occurrence :: "OccurrenceRecord \<Rightarrow> string \<Rightarrow> MemoryStore \<Rightarrow> MemoryStore" where
  "put_occurrence r oid st = st\<lparr>ms_occurrences := map_put oid r (ms_occurrences st)\<rparr>"

definition hasLiveOverlapLocked :: "string \<Rightarrow> string \<Rightarrow> time \<Rightarrow> MemoryStore \<Rightarrow> bool" where
  "hasLiveOverlapLocked jobName exceptID now st =
     list_ex (\<lambda>(_, o'). oc_ID o' \<noteq> exceptID \<and> oc_JobName o' = jobName
       \<and> oc_Status o' = OccurrenceRunning \<and> durablyAfter (oc_LeaseUntil o') now) (ms_occurrences st)"

definition jobStatesLocked :: "MemoryStore \<Rightarrow> JobState list" where
  "jobStatesLocked st = sort_key (\<lambda>s. jd_Name (js_Definition s)) (map snd (ms_jobs st))"

subsection \<open>Reconcile\<close>

definition reconcile_one ::
  "CronLib \<Rightarrow> MemoryStore \<Rightarrow> time \<Rightarrow> JobDefinition \<Rightarrow> cron_err + JobState" where
  "reconcile_one lib st now incoming0 =
     (let existing = map_of (ms_jobs st) (jd_Name incoming0);
          incoming1 = (case existing of Some e \<Rightarrow> preserveIntervalAnchor incoming0 (js_Definition e) | None \<Rightarrow> incoming0)
      in and_then (normalizedDefinition lib incoming1 now) (\<lambda>(incoming, schedule).
           case existing of
             None \<Rightarrow>
               (case Schedule_Next lib schedule now of
                  Inl err \<Rightarrow> Inl (ErrInitialOccurrence (jd_Name incoming) err)
                | Inr next \<Rightarrow>
                    Inr \<lparr>js_Definition = incoming, js_NextRunAt = next, js_CreatedAt = now, js_UpdatedAt = now\<rparr>)
           | Some e \<Rightarrow>
               let scheduleChanged = (jd_Schedule incoming \<noteq> jd_Schedule (js_Definition e));
                   definitionChanged = (incoming \<noteq> js_Definition e);
                   touch = (\<lambda>s. if definitionChanged \<or> scheduleChanged then s\<lparr>js_UpdatedAt := now\<rparr> else s);
                   state = e\<lparr>js_Definition := incoming\<rparr>
               in if scheduleChanged \<or> IsZero (js_NextRunAt state) then
                    (case Schedule_Next lib schedule now of
                       Inl err \<Rightarrow> Inl (ErrReconciledOccurrence (jd_Name incoming) err)
                     | Inr next \<Rightarrow> Inr (touch (state\<lparr>js_NextRunAt := next\<rparr>)))
                  else Inr (touch state)))"

fun reconcile_loop ::
  "CronLib \<Rightarrow> MemoryStore \<Rightarrow> time \<Rightarrow> (string \<times> JobState) list \<Rightarrow> JobDefinition list
     \<Rightarrow> cron_err + (string \<times> JobState) list" where
  "reconcile_loop lib st now active [] = Inr active"
| "reconcile_loop lib st now active (d # ds) =
     (if jd_Name d \<in> fst ` set active then Inl (ErrInvalidConfiguration (''duplicate job '' @ jd_Name d))
      else and_then (reconcile_one lib st now d) (\<lambda>state.
             reconcile_loop lib st now (map_put (jd_Name d) state active) ds))"

definition Store_Reconcile ::
  "CronLib \<Rightarrow> ctx \<Rightarrow> JobDefinition list \<Rightarrow> time \<Rightarrow> MemoryStore \<Rightarrow> MemoryStore \<times> (cron_err + JobState list)" where
  "Store_Reconcile lib ctx definitions now st =
     (case contextError ctx of
        Some err \<Rightarrow> (st, Inl err)
      | None \<Rightarrow>
          if IsZero now then (st, Inl (ErrInvalidConfiguration ''reconciliation time is required''))
          else case reconcile_loop lib st now [] definitions of
            Inl err \<Rightarrow> (st, Inl err)
          | Inr active \<Rightarrow> let st' = st\<lparr>ms_jobs := active\<rparr> in (st', Inr (jobStatesLocked st')))"

subsection \<open>Claim\<close>

definition reclaimed :: "ClaimRequest \<Rightarrow> OccurrenceRecord \<Rightarrow> OccurrenceRecord" where
  "reclaimed r e =
     e\<lparr>oc_Attempt := oc_Attempt e + 1, oc_StartedAt := cl_ClaimedAt r, oc_FinishedAt := 0,
       oc_LeaseOwner := cl_LeaseOwner r, oc_LeaseToken := cl_LeaseToken r, oc_LeaseUntil := cl_LeaseUntil r,
       oc_Error := [], oc_SkipReason := [], oc_LastModified := cl_ClaimedAt r\<rparr>"

definition first_claim :: "ClaimRequest \<Rightarrow> OccurrenceRecord" where
  "first_claim r =
     \<lparr>oc_ID = cl_OccurrenceID r, oc_JobName = cl_JobName r, oc_ScheduledAt = cl_ScheduledAt r,
      oc_Status = OccurrenceRunning, oc_Attempt = 1, oc_StartedAt = cl_ClaimedAt r, oc_FinishedAt = 0,
      oc_LeaseOwner = cl_LeaseOwner r, oc_LeaseToken = cl_LeaseToken r, oc_LeaseUntil = cl_LeaseUntil r,
      oc_Error = [], oc_SkipReason = [], oc_LastModified = cl_ClaimedAt r\<rparr>"

definition skipped_record :: "string \<Rightarrow> string \<Rightarrow> time \<Rightarrow> time \<Rightarrow> string \<Rightarrow> OccurrenceRecord" where
  "skipped_record oid jobName scheduledAt now reason =
     \<lparr>oc_ID = oid, oc_JobName = jobName, oc_ScheduledAt = scheduledAt, oc_Status = OccurrenceSkipped,
      oc_Attempt = 0, oc_StartedAt = 0, oc_FinishedAt = now, oc_LeaseOwner = [], oc_LeaseToken = [],
      oc_LeaseUntil = 0, oc_Error = [], oc_SkipReason = reason, oc_LastModified = now\<rparr>"

definition Store_Claim ::
  "CronLib \<Rightarrow> (string \<Rightarrow> string) \<Rightarrow> ctx \<Rightarrow> ClaimRequest \<Rightarrow> MemoryStore \<Rightarrow> MemoryStore \<times> (cron_err + ClaimResult)" where
  "Store_Claim lib digest ctx r st =
     (let oid = cl_OccurrenceID r; job = cl_JobName r;
          advance = advanceLocked job (cl_NextRunAt r) (cl_ClaimedAt r);
          result = (\<lambda>d o'. Inr \<lparr>cr_Disposition = d, cr_Occurrence = o'\<rparr>)
      in case contextError ctx of
        Some err \<Rightarrow> (st, Inl err)
      | None \<Rightarrow>
      (case validateClaim digest r of
        Some err \<Rightarrow> (st, Inl err)
      | None \<Rightarrow>
      (case map_of (ms_jobs st) job of
        None \<Rightarrow> (st, Inl (ErrJobNotFound job))
      | Some state \<Rightarrow>
      (case validateScheduleAdvance lib state (cl_ScheduledAt r) (cl_NextRunAt r) of
        Some err \<Rightarrow> (st, Inl err)
      | None \<Rightarrow>
      (case map_of (ms_occurrences st) oid of
        Some existing \<Rightarrow>
          (case sameOccurrence existing job (cl_ScheduledAt r) of
            Some err \<Rightarrow> (st, Inl err)
          | None \<Rightarrow>
              if oc_Status existing \<noteq> OccurrenceRunning then (advance st, result ClaimAlreadyTerminal existing)
              else if durablyAfter (oc_LeaseUntil existing) (cl_ClaimedAt r) then (advance st, result ClaimLeaseHeld existing)
              else if jd_Overlap (js_Definition state) = OverlapSkip \<and> hasLiveOverlapLocked job oid (cl_ClaimedAt r) st
              then (st, result ClaimLeaseHeld existing)
              else (advance (put_occurrence (reclaimed r existing) oid st), result ClaimAcquired (reclaimed r existing)))
      | None \<Rightarrow>
          if js_NextRunAt state \<noteq> cl_ScheduledAt r
          then (st, Inl (ErrOccurrenceConflict ''claim scheduled time does not match durable cursor''))
          else if jd_Overlap (js_Definition state) = OverlapSkip
            \<and> list_ex (\<lambda>(_, o'). oc_JobName o' = job \<and> oc_Status o' = OccurrenceRunning
                         \<and> durablyAfter (oc_LeaseUntil o') (cl_ClaimedAt r)) (ms_occurrences st)
          then let skipped = skipped_record oid job (cl_ScheduledAt r) (cl_ClaimedAt r) ''overlap''
               in (advance (put_occurrence skipped oid st), result ClaimSkippedOverlap skipped)
          else (advance (put_occurrence (first_claim r) oid st), result ClaimAcquired (first_claim r)))))))"

subsection \<open>Renew, Complete and Skip\<close>

definition holds_lease :: "OccurrenceRecord option \<Rightarrow> string \<Rightarrow> time \<Rightarrow> bool" where
  "holds_lease r token now =
     (case r of None \<Rightarrow> False
      | Some o' \<Rightarrow> oc_Status o' = OccurrenceRunning \<and> oc_LeaseToken o' = token \<and> durablyAfter (oc_LeaseUntil o') now)"

definition Store_Renew :: "ctx \<Rightarrow> LeaseRenewal \<Rightarrow> MemoryStore \<Rightarrow> MemoryStore \<times> cron_err option" where
  "Store_Renew ctx r st =
     (case contextError ctx of
        Some err \<Rightarrow> (st, Some err)
      | None \<Rightarrow>
          if rn_OccurrenceID r = [] \<or> rn_LeaseToken r = [] \<or> IsZero (rn_RenewedAt r)
             \<or> length (rn_LeaseToken r) > maxLeaseTokenBytes \<or> IsZero (rn_LeaseUntil r)
             \<or> \<not> durablyAfter (rn_LeaseUntil r) (rn_RenewedAt r)
          then (st, Some (ErrInvalidConfiguration ''invalid lease renewal''))
          else if \<not> holds_lease (map_of (ms_occurrences st) (rn_OccurrenceID r)) (rn_LeaseToken r) (rn_RenewedAt r)
          then (st, Some ErrLeaseLost)
          else case map_of (ms_occurrences st) (rn_OccurrenceID r) of
            None \<Rightarrow> (st, Some ErrLeaseLost)
          | Some o' \<Rightarrow>
              (put_occurrence (o'\<lparr>oc_LeaseUntil := rn_LeaseUntil r, oc_LastModified := rn_RenewedAt r\<rparr>)
                 (rn_OccurrenceID r) st, None))"

definition completed :: "Completion \<Rightarrow> OccurrenceRecord \<Rightarrow> OccurrenceRecord" where
  "completed c o' =
     o'\<lparr>oc_Status := cm_Status c, oc_FinishedAt := cm_FinishedAt c, oc_LeaseOwner := [], oc_LeaseToken := [],
        oc_LeaseUntil := 0, oc_Error := cm_Error c, oc_LastModified := cm_FinishedAt c\<rparr>"

definition Store_Complete :: "ctx \<Rightarrow> Completion \<Rightarrow> MemoryStore \<Rightarrow> MemoryStore \<times> cron_err option" where
  "Store_Complete ctx c st =
     (case contextError ctx of
        Some err \<Rightarrow> (st, Some err)
      | None \<Rightarrow>
          if cm_OccurrenceID c = [] \<or> cm_LeaseToken c = [] \<or> IsZero (cm_FinishedAt c)
             \<or> length (cm_LeaseToken c) > maxLeaseTokenBytes \<or> \<not> terminalCompletion (cm_Status c)
             \<or> length (cm_Error c) > maxStoreTextBytes \<or> (cm_Status c = OccurrenceSucceeded \<and> cm_Error c \<noteq> [])
          then (st, Some (ErrInvalidConfiguration ''invalid completion''))
          else if \<not> holds_lease (map_of (ms_occurrences st) (cm_OccurrenceID c)) (cm_LeaseToken c) (cm_FinishedAt c)
          then (st, Some ErrLeaseLost)
          else case map_of (ms_occurrences st) (cm_OccurrenceID c) of
            None \<Rightarrow> (st, Some ErrLeaseLost)
          | Some o' \<Rightarrow> (put_occurrence (completed c o') (cm_OccurrenceID c) st, None))"

definition skip_existing :: "SkipRequest \<Rightarrow> OccurrenceRecord \<Rightarrow> OccurrenceRecord" where
  "skip_existing r e =
     e\<lparr>oc_Status := OccurrenceSkipped, oc_FinishedAt := sk_SkippedAt r, oc_LeaseOwner := [], oc_LeaseToken := [],
       oc_LeaseUntil := 0, oc_Error := [], oc_SkipReason := sk_Reason r, oc_LastModified := sk_SkippedAt r\<rparr>"

definition Store_Skip ::
  "CronLib \<Rightarrow> (string \<Rightarrow> string) \<Rightarrow> ctx \<Rightarrow> SkipRequest \<Rightarrow> MemoryStore \<Rightarrow> MemoryStore \<times> cron_err option" where
  "Store_Skip lib digest ctx r st =
     (let oid = sk_OccurrenceID r; job = sk_JobName r;
          advance = advanceLocked job (sk_NextRunAt r) (sk_SkippedAt r)
      in case contextError ctx of
        Some err \<Rightarrow> (st, Some err)
      | None \<Rightarrow>
      (case validateSkip digest r of
        Some err \<Rightarrow> (st, Some err)
      | None \<Rightarrow>
      (case map_of (ms_jobs st) job of
        None \<Rightarrow> (st, Some (ErrJobNotFound job))
      | Some state \<Rightarrow>
      (case map_of (ms_occurrences st) oid of
        Some existing \<Rightarrow>
          (case sameOccurrence existing job (sk_ScheduledAt r) of
            Some err \<Rightarrow> (st, Some err)
          | None \<Rightarrow>
              if oc_Status existing \<noteq> OccurrenceRunning then (st, None)
              else case validateScheduleAdvance lib state (sk_ScheduledAt r) (sk_NextRunAt r) of
                Some err \<Rightarrow> (st, Some err)
              | None \<Rightarrow>
                  if durablyAfter (oc_LeaseUntil existing) (sk_SkippedAt r) then (st, Some ErrOccurrenceRunning)
                  else (advance (put_occurrence (skip_existing r existing) oid st), None))
      | None \<Rightarrow>
          (case validateScheduleAdvance lib state (sk_ScheduledAt r) (sk_NextRunAt r) of
             Some err \<Rightarrow> (st, Some err)
           | None \<Rightarrow>
               if js_NextRunAt state \<noteq> sk_ScheduledAt r
               then (st, Some (ErrOccurrenceConflict ''skip scheduled time does not match durable cursor''))
               else (advance (put_occurrence
                       (skipped_record oid job (sk_ScheduledAt r) (sk_SkippedAt r) (sk_Reason r)) oid st), None))))))"

subsection \<open>Expired and Snapshot\<close>

definition Store_Expired :: "ctx \<Rightarrow> time \<Rightarrow> int \<Rightarrow> MemoryStore \<Rightarrow> cron_err + OccurrenceRecord list" where
  "Store_Expired ctx now limit st =
     (case contextError ctx of
        Some err \<Rightarrow> Inl err
      | None \<Rightarrow>
          if IsZero now \<or> limit \<le> 0 \<or> limit > maxCatchUpLimit
          then Inl (ErrInvalidConfiguration ''expired query requires a time and positive limit'')
          else let records = filter (\<lambda>o'. \<not> (oc_Status o' \<noteq> OccurrenceRunning \<or> durablyAfter (oc_LeaseUntil o') now)
                       \<and> map_of (ms_jobs st) (oc_JobName o') \<noteq> None) (map snd (ms_occurrences st))
               in Inr (take (nat limit) (sort_key (\<lambda>o'. (oc_LeaseUntil o', oc_ScheduledAt o', oc_ID o')) records)))"

definition Store_Snapshot :: "ctx \<Rightarrow> MemoryStore \<Rightarrow> cron_err + StoreSnapshot" where
  "Store_Snapshot ctx st =
     (case contextError ctx of
        Some err \<Rightarrow> Inl err
      | None \<Rightarrow>
          let occurrences = sort_key (\<lambda>o'. (oc_ScheduledAt o', oc_ID o')) (map snd (ms_occurrences st))
          in Inr \<lparr>sn_Jobs = jobStatesLocked st,
                  sn_Occurrences = drop (length occurrences - SnapshotOccurrenceLimit) occurrences\<rparr>)"

end
