(* ===== verification/Cron_Lease.thy ===== *)
theory Cron_Lease
  imports Cron_Store
begin

text \<open>
  What the store of \<^verbatim>\<open>pkg/cron/store.go\<close> guarantees. The abstract specification is a table
  of leases, one per occurrence, that is acquired, extended and closed; every operation of
  the store is one step of it or none. From the table follow exclusion, fencing and the
  finality of closed occurrences over every sequence of operations.
\<close>

subsection \<open>Operations\<close>

datatype store_op =
    DoReconcile "JobDefinition list" time
  | DoClaim ClaimRequest
  | DoRenew LeaseRenewal
  | DoComplete Completion
  | DoSkip SkipRequest

fun op_time :: "store_op \<Rightarrow> time" where
  "op_time (DoReconcile ds now) = now"
| "op_time (DoClaim r) = cl_ClaimedAt r"
| "op_time (DoRenew r) = rn_RenewedAt r"
| "op_time (DoComplete c) = cm_FinishedAt c"
| "op_time (DoSkip r) = sk_SkippedAt r"

text \<open>The token that an operation gives out.\<close>

fun op_token :: "store_op \<Rightarrow> string" where
  "op_token (DoClaim r) = cl_LeaseToken r"
| "op_token _ = []"

fun store_step :: "CronLib \<Rightarrow> (string \<Rightarrow> string) \<Rightarrow> ctx \<times> store_op \<Rightarrow> MemoryStore \<Rightarrow> MemoryStore" where
  "store_step lib digest (c, DoReconcile ds now) st = fst (Store_Reconcile lib c ds now st)"
| "store_step lib digest (c, DoClaim r) st = fst (Store_Claim lib digest c r st)"
| "store_step lib digest (c, DoRenew r) st = fst (Store_Renew c r st)"
| "store_step lib digest (c, DoComplete m) st = fst (Store_Complete c m st)"
| "store_step lib digest (c, DoSkip r) st = fst (Store_Skip lib digest c r st)"

definition store_run ::
  "CronLib \<Rightarrow> (string \<Rightarrow> string) \<Rightarrow> (ctx \<times> store_op) list \<Rightarrow> MemoryStore \<Rightarrow> MemoryStore" where
  "store_run lib digest ops st = fold (store_step lib digest) ops st"

lemma store_run_simps [simp]:
  "store_run lib digest [] st = st"
  "store_run lib digest (p # ops) st = store_run lib digest ops (store_step lib digest p st)"
  by (simp_all add: store_run_def)

definition wf_store :: "MemoryStore \<Rightarrow> bool" where
  "wf_store st \<longleftrightarrow> wf_map (ms_occurrences st) \<and> (\<forall>k r. map_of (ms_occurrences st) k = Some r \<longrightarrow> oc_ID r = k)"

lemma wf_NewMemoryStore [simp]: "wf_store NewMemoryStore"
  by (simp add: wf_store_def NewMemoryStore_def)

subsection \<open>The lease table\<close>

datatype lease = Absent | Held string string time | Closed

fun live :: "time \<Rightarrow> string \<Rightarrow> lease \<Rightarrow> bool" where
  "live now j (Held j' token until) = (j' = j \<and> durablyAfter until now)"
| "live now j _ = False"

text \<open>A lease that nobody owns: never given out, or given out for \<open>j\<close> and run out.\<close>

fun free :: "time \<Rightarrow> string \<Rightarrow> lease \<Rightarrow> bool" where
  "free now j Absent = True"
| "free now j (Held j' token until) = (j' = j \<and> \<not> durablyAfter until now)"
| "free now j Closed = False"

inductive lease_step :: "(string \<Rightarrow> bool) \<Rightarrow> time \<Rightarrow> (string \<Rightarrow> lease) \<Rightarrow> (string \<Rightarrow> lease) \<Rightarrow> bool"
  for exclusive now where
  acquire: "free now j (t k) \<Longrightarrow> (exclusive j \<Longrightarrow> (\<forall>k'. k' \<noteq> k \<longrightarrow> \<not> live now j (t k')))
     \<Longrightarrow> lease_step exclusive now t (t(k := Held j token until))"
| extend: "t k = Held j token until \<Longrightarrow> durablyAfter until now
     \<Longrightarrow> lease_step exclusive now t (t(k := Held j token until'))"
| settle: "t k = Held j token until \<Longrightarrow> durablyAfter until now
     \<Longrightarrow> lease_step exclusive now t (t(k := Closed))"
| abandon: "free now j (t k) \<Longrightarrow> lease_step exclusive now t (t(k := Closed))"

inductive_cases lease_stepE: "lease_step exclusive now t t'"

definition lease_of :: "OccurrenceRecord option \<Rightarrow> lease" where
  "lease_of r = (case r of None \<Rightarrow> Absent
     | Some o' \<Rightarrow> if oc_Status o' = OccurrenceRunning then Held (oc_JobName o') (oc_LeaseToken o') (oc_LeaseUntil o')
                 else Closed)"

definition leases :: "MemoryStore \<Rightarrow> string \<Rightarrow> lease" where
  "leases st k = lease_of (map_of (ms_occurrences st) k)"

definition exclusive_in :: "MemoryStore \<Rightarrow> string \<Rightarrow> bool" where
  "exclusive_in st j \<longleftrightarrow> (\<forall>s. map_of (ms_jobs st) j = Some s \<longrightarrow> jd_Overlap (js_Definition s) = OverlapSkip)"

subsection \<open>What each operation changes\<close>

lemma advance_occurrences [simp]: "ms_occurrences (advanceLocked j n u st) = ms_occurrences st"
  by (simp add: advanceLocked_def Let_def)

lemma put_occurrence_occurrences [simp]:
  "ms_occurrences (put_occurrence r k st) = map_put k r (ms_occurrences st)"
  "ms_jobs (put_occurrence r k st) = ms_jobs st"
  by (simp_all add: put_occurrence_def)

lemma leases_put: "ms_occurrences st' = map_put k r (ms_occurrences st) \<Longrightarrow> leases st' = (leases st)(k := lease_of (Some r))"
  by (auto simp: leases_def update_conv')

lemma leases_cong: "ms_occurrences st' = ms_occurrences st \<Longrightarrow> leases st' = leases st"
  by (simp add: leases_def fun_eq_iff)

lemma wf_put: "wf_store st \<Longrightarrow> ms_occurrences st' = map_put k r (ms_occurrences st) \<Longrightarrow> oc_ID r = k \<Longrightarrow> wf_store st'"
  by (auto simp: wf_store_def update_conv' split: if_splits)

lemma live_iff:
  "live now j (leases st k) \<longleftrightarrow> (\<exists>r. map_of (ms_occurrences st) k = Some r \<and> oc_JobName r = j
     \<and> oc_Status r = OccurrenceRunning \<and> durablyAfter (oc_LeaseUntil r) now)"
  by (auto simp: leases_def lease_of_def split: option.split)

text \<open>How one record may change, with the fields that its identity fixes.\<close>

inductive record_change :: "MemoryStore \<Rightarrow> time \<Rightarrow> string \<Rightarrow> string \<Rightarrow> OccurrenceRecord option \<Rightarrow> OccurrenceRecord \<Rightarrow> bool"
  for st now tk k where
  claimed: "oc_LeaseToken r = tk \<Longrightarrow> free now (oc_JobName r) (lease_of old) \<Longrightarrow> oc_Status r = OccurrenceRunning
     \<Longrightarrow> (exclusive_in st (oc_JobName r) \<Longrightarrow> (\<forall>k'. k' \<noteq> k \<longrightarrow> \<not> live now (oc_JobName r) (leases st k')))
     \<Longrightarrow> record_change st now tk k old r"
| renewed: "oc_Status e = OccurrenceRunning \<Longrightarrow> durablyAfter (oc_LeaseUntil e) now
     \<Longrightarrow> record_change st now tk k (Some e) (e\<lparr>oc_LeaseUntil := u, oc_LastModified := m\<rparr>)"
| closed: "oc_Status e = OccurrenceRunning \<Longrightarrow> durablyAfter (oc_LeaseUntil e) now \<Longrightarrow> oc_Status r \<noteq> OccurrenceRunning
     \<Longrightarrow> record_change st now tk k (Some e) r"
| dropped: "free now j (lease_of old) \<Longrightarrow> oc_Status r \<noteq> OccurrenceRunning \<Longrightarrow> record_change st now tk k old r"

lemma change_lease_step:
  assumes "record_change st now tk k (map_of (ms_occurrences st) k) r"
  shows "lease_step (exclusive_in st) now (leases st) ((leases st)(k := lease_of (Some r)))"
  using assms
proof cases
  case claimed
  then show ?thesis using acquire [of now "oc_JobName r" "leases st" k "exclusive_in st" "oc_LeaseToken r" "oc_LeaseUntil r"]
    by (simp add: leases_def lease_of_def)
next
  case (renewed e m u)
  then show ?thesis using extend [of "leases st" k "oc_JobName e" "oc_LeaseToken e" "oc_LeaseUntil e" now "exclusive_in st" u]
    by (simp add: leases_def lease_of_def)
next
  case (closed e)
  then show ?thesis using settle [of "leases st" k "oc_JobName e" "oc_LeaseToken e" "oc_LeaseUntil e" now "exclusive_in st"]
    by (simp add: leases_def lease_of_def)
next
  case (dropped j)
  then show ?thesis using abandon [of now j "leases st" k "exclusive_in st"]
    by (simp add: leases_def lease_of_def)
qed

definition changes :: "MemoryStore \<Rightarrow> time \<Rightarrow> string \<Rightarrow> MemoryStore \<Rightarrow> bool" where
  "changes st now tk st' \<longleftrightarrow> ms_occurrences st' = ms_occurrences st
     \<or> (\<exists>k r. ms_occurrences st' = map_put k r (ms_occurrences st) \<and> oc_ID r = k
           \<and> record_change st now tk k (map_of (ms_occurrences st) k) r)"

lemma changesI:
  "ms_occurrences st' = map_put k r (ms_occurrences st) \<Longrightarrow> oc_ID r = k
     \<Longrightarrow> record_change st now tk k (map_of (ms_occurrences st) k) r \<Longrightarrow> changes st now tk st'"
  by (auto simp: changes_def)

lemma changes_same: "ms_occurrences st' = ms_occurrences st \<Longrightarrow> changes st now tk st'"
  by (simp add: changes_def)

lemma hasLiveOverlap_iff:
  assumes "wf_store st"
  shows "hasLiveOverlapLocked j k now st \<longleftrightarrow> (\<exists>k'. k' \<noteq> k \<and> live now j (leases st k'))"
proof -
  have "(k', r) \<in> set (ms_occurrences st) \<longleftrightarrow> map_of (ms_occurrences st) k' = Some r" for k' r
    using assms by (simp add: wf_store_def)
  moreover have "map_of (ms_occurrences st) k' = Some r \<Longrightarrow> oc_ID r = k'" for k' r
    using assms by (simp add: wf_store_def)
  ultimately show ?thesis
    by (fastforce simp: hasLiveOverlapLocked_def list_ex_iff live_iff)
qed

lemma some_live_iff:
  assumes "wf_store st"
  shows "list_ex (\<lambda>(_, o'). oc_JobName o' = j \<and> oc_Status o' = OccurrenceRunning \<and> durablyAfter (oc_LeaseUntil o') now)
      (ms_occurrences st) \<longleftrightarrow> (\<exists>k. live now j (leases st k))"
proof -
  have "(k, r) \<in> set (ms_occurrences st) \<longleftrightarrow> map_of (ms_occurrences st) k = Some r" for k r
    using assms by (simp add: wf_store_def)
  then show ?thesis by (fastforce simp: list_ex_iff live_iff)
qed

lemma Reconcile_occurrences: "ms_occurrences (fst (Store_Reconcile lib c ds now st)) = ms_occurrences st"
  by (auto simp: Store_Reconcile_def Let_def split: option.split sum.split)

lemma holds_lease_Some:
  "holds_lease x token now \<Longrightarrow> \<exists>o'. x = Some o' \<and> oc_Status o' = OccurrenceRunning \<and> oc_LeaseToken o' = token
     \<and> durablyAfter (oc_LeaseUntil o') now"
  by (simp add: holds_lease_def split: option.splits)

lemma Renew_changes:
  assumes "wf_store st"
  shows "changes st (rn_RenewedAt r) tk (fst (Store_Renew c r st))"
proof (cases "snd (Store_Renew c r st) = None")
  case True
  then have h: "holds_lease (map_of (ms_occurrences st) (rn_OccurrenceID r)) (rn_LeaseToken r) (rn_RenewedAt r)"
    by (auto simp: Store_Renew_def split: option.splits if_splits)
  from holds_lease_Some [OF h] obtain e where
    e: "map_of (ms_occurrences st) (rn_OccurrenceID r) = Some e" "oc_Status e = OccurrenceRunning"
      "durablyAfter (oc_LeaseUntil e) (rn_RenewedAt r)" by auto
  let ?e = "e\<lparr>oc_LeaseUntil := rn_LeaseUntil r, oc_LastModified := rn_RenewedAt r\<rparr>"
  have "fst (Store_Renew c r st) = put_occurrence ?e (rn_OccurrenceID r) st"
    using True h e by (auto simp: Store_Renew_def split: option.splits if_splits)
  moreover have "oc_ID ?e = rn_OccurrenceID r" using assms e by (simp add: wf_store_def)
  ultimately show ?thesis using e by (intro changesI [where r = ?e]) (auto intro: renewed)
next
  case False
  then have "fst (Store_Renew c r st) = st" by (auto simp: Store_Renew_def split: option.splits if_splits)
  then show ?thesis by (simp add: changes_same)
qed

lemma completed_sel [simp]:
  "oc_ID (completed m e) = oc_ID e" "oc_JobName (completed m e) = oc_JobName e"
  "oc_ScheduledAt (completed m e) = oc_ScheduledAt e" "oc_Status (completed m e) = cm_Status m"
  by (simp_all add: completed_def)

lemma terminalCompletion_not_running [simp]: "terminalCompletion s \<Longrightarrow> s \<noteq> OccurrenceRunning"
  by (auto simp: terminalCompletion_def status_simps dest: sym)

lemma Complete_ok:
  assumes "snd (Store_Complete c m st) = None"
  obtains e where "map_of (ms_occurrences st) (cm_OccurrenceID m) = Some e" "oc_Status e = OccurrenceRunning"
    "oc_LeaseToken e = cm_LeaseToken m" "durablyAfter (oc_LeaseUntil e) (cm_FinishedAt m)"
    "fst (Store_Complete c m st) = put_occurrence (completed m e) (cm_OccurrenceID m) st" "terminalCompletion (cm_Status m)"
proof -
  have h: "holds_lease (map_of (ms_occurrences st) (cm_OccurrenceID m)) (cm_LeaseToken m) (cm_FinishedAt m)"
    and t: "terminalCompletion (cm_Status m)"
    using assms by (auto simp: Store_Complete_def split: option.splits if_splits)
  from holds_lease_Some [OF h] obtain e where
    e: "map_of (ms_occurrences st) (cm_OccurrenceID m) = Some e" "oc_Status e = OccurrenceRunning"
      "oc_LeaseToken e = cm_LeaseToken m" "durablyAfter (oc_LeaseUntil e) (cm_FinishedAt m)" by auto
  moreover have "fst (Store_Complete c m st) = put_occurrence (completed m e) (cm_OccurrenceID m) st"
    using assms h e by (auto simp: Store_Complete_def split: option.splits if_splits)
  ultimately show thesis using t that by blast
qed

lemma Complete_err: "snd (Store_Complete c m st) \<noteq> None \<Longrightarrow> fst (Store_Complete c m st) = st"
  by (auto simp: Store_Complete_def split: option.splits if_splits)

lemma Complete_changes:
  assumes "wf_store st"
  shows "changes st (cm_FinishedAt m) tk (fst (Store_Complete c m st))"
proof (cases "snd (Store_Complete c m st) = None")
  case True
  from Complete_ok [OF True] obtain e where
    e: "map_of (ms_occurrences st) (cm_OccurrenceID m) = Some e" "oc_Status e = OccurrenceRunning"
      "durablyAfter (oc_LeaseUntil e) (cm_FinishedAt m)"
      "fst (Store_Complete c m st) = put_occurrence (completed m e) (cm_OccurrenceID m) st" "terminalCompletion (cm_Status m)"
    by blast
  then show ?thesis using assms
    by (intro changesI [where r = "completed m e"]) (auto simp: wf_store_def intro!: closed)
qed (simp add: Complete_err changes_same)

text \<open>A claim fails, only advances the cursor, or writes one record.\<close>

inductive claim_outcome ::
  "ClaimRequest \<Rightarrow> MemoryStore \<Rightarrow> JobState \<Rightarrow> MemoryStore \<Rightarrow> ClaimDisposition \<Rightarrow> OccurrenceRecord \<Rightarrow> bool"
  for r st state where
  terminal: "map_of (ms_occurrences st) (cl_OccurrenceID r) = Some e \<Longrightarrow> oc_Status e \<noteq> OccurrenceRunning
     \<Longrightarrow> claim_outcome r st state (advanceLocked (cl_JobName r) (cl_NextRunAt r) (cl_ClaimedAt r) st) ClaimAlreadyTerminal e"
| held: "map_of (ms_occurrences st) (cl_OccurrenceID r) = Some e \<Longrightarrow> oc_Status e = OccurrenceRunning
     \<Longrightarrow> durablyAfter (oc_LeaseUntil e) (cl_ClaimedAt r)
     \<Longrightarrow> claim_outcome r st state (advanceLocked (cl_JobName r) (cl_NextRunAt r) (cl_ClaimedAt r) st) ClaimLeaseHeld e"
| blocked: "map_of (ms_occurrences st) (cl_OccurrenceID r) = Some e \<Longrightarrow> oc_Status e = OccurrenceRunning
     \<Longrightarrow> \<not> durablyAfter (oc_LeaseUntil e) (cl_ClaimedAt r) \<Longrightarrow> jd_Overlap (js_Definition state) = OverlapSkip
     \<Longrightarrow> hasLiveOverlapLocked (cl_JobName r) (cl_OccurrenceID r) (cl_ClaimedAt r) st
     \<Longrightarrow> claim_outcome r st state st ClaimLeaseHeld e"
| taken_over: "map_of (ms_occurrences st) (cl_OccurrenceID r) = Some e \<Longrightarrow> oc_Status e = OccurrenceRunning
     \<Longrightarrow> oc_JobName e = cl_JobName r \<Longrightarrow> oc_ScheduledAt e = cl_ScheduledAt r
     \<Longrightarrow> \<not> durablyAfter (oc_LeaseUntil e) (cl_ClaimedAt r)
     \<Longrightarrow> \<not> (jd_Overlap (js_Definition state) = OverlapSkip
            \<and> hasLiveOverlapLocked (cl_JobName r) (cl_OccurrenceID r) (cl_ClaimedAt r) st)
     \<Longrightarrow> claim_outcome r st state (advanceLocked (cl_JobName r) (cl_NextRunAt r) (cl_ClaimedAt r)
           (put_occurrence (reclaimed r e) (cl_OccurrenceID r) st)) ClaimAcquired (reclaimed r e)"
| overlapped: "map_of (ms_occurrences st) (cl_OccurrenceID r) = None \<Longrightarrow> js_NextRunAt state = cl_ScheduledAt r
     \<Longrightarrow> jd_Overlap (js_Definition state) = OverlapSkip
     \<Longrightarrow> claim_outcome r st state (advanceLocked (cl_JobName r) (cl_NextRunAt r) (cl_ClaimedAt r)
           (put_occurrence (skipped_record (cl_OccurrenceID r) (cl_JobName r) (cl_ScheduledAt r) (cl_ClaimedAt r) ''overlap'')
             (cl_OccurrenceID r) st)) ClaimSkippedOverlap
           (skipped_record (cl_OccurrenceID r) (cl_JobName r) (cl_ScheduledAt r) (cl_ClaimedAt r) ''overlap'')"
| granted: "map_of (ms_occurrences st) (cl_OccurrenceID r) = None \<Longrightarrow> js_NextRunAt state = cl_ScheduledAt r
     \<Longrightarrow> \<not> (jd_Overlap (js_Definition state) = OverlapSkip
            \<and> list_ex (\<lambda>(_, o'). oc_JobName o' = cl_JobName r \<and> oc_Status o' = OccurrenceRunning
                 \<and> durablyAfter (oc_LeaseUntil o') (cl_ClaimedAt r)) (ms_occurrences st))
     \<Longrightarrow> claim_outcome r st state (advanceLocked (cl_JobName r) (cl_NextRunAt r) (cl_ClaimedAt r)
           (put_occurrence (first_claim r) (cl_OccurrenceID r) st)) ClaimAcquired (first_claim r)"

definition claim_checked :: "CronLib \<Rightarrow> (string \<Rightarrow> string) \<Rightarrow> ctx \<Rightarrow> ClaimRequest \<Rightarrow> MemoryStore \<Rightarrow> JobState \<Rightarrow> bool" where
  "claim_checked lib digest c r st state \<longleftrightarrow>
     contextError c = None \<and> validateClaim digest r = None \<and> map_of (ms_jobs st) (cl_JobName r) = Some state
     \<and> validateScheduleAdvance lib state (cl_ScheduledAt r) (cl_NextRunAt r) = None"

lemma Claim_unchecked:
  assumes "\<And>state. \<not> claim_checked lib digest c r st state"
  shows "\<exists>err. Store_Claim lib digest c r st = (st, Inl err)"
proof (cases "contextError c = None \<and> validateClaim digest r = None")
  case True
  show ?thesis
  proof (cases "map_of (ms_jobs st) (cl_JobName r)")
    case (Some state)
    then show ?thesis using True assms [of state] by (auto simp: Store_Claim_def Let_def claim_checked_def)
  qed (use True in \<open>simp add: Store_Claim_def Let_def\<close>)
next
  case False
  then show ?thesis by (auto simp: Store_Claim_def Let_def split: option.split)
qed

lemma Claim_checked:
  assumes v: "claim_checked lib digest c r st state"
  shows "(\<exists>err. Store_Claim lib digest c r st = (st, Inl err)) \<or>
    (\<exists>st' d e. Store_Claim lib digest c r st = (st', Inr \<lparr>cr_Disposition = d, cr_Occurrence = e\<rparr>)
       \<and> claim_outcome r st state st' d e)"
proof (cases "map_of (ms_occurrences st) (cl_OccurrenceID r)")
  case None
  with v show ?thesis
    by (auto simp: Store_Claim_def Let_def claim_checked_def intro: overlapped granted)
next
  case (Some e)
  note valid = v [unfolded claim_checked_def] Some
  show ?thesis
  proof (cases "sameOccurrence e (cl_JobName r) (cl_ScheduledAt r)")
    case None
    then have "oc_JobName e = cl_JobName r" "oc_ScheduledAt e = cl_ScheduledAt r"
      by (auto simp: sameOccurrence_def split: if_splits)
    with valid None show ?thesis
      by (auto simp: Store_Claim_def Let_def intro: terminal held blocked taken_over)
  qed (use valid in \<open>simp add: Store_Claim_def Let_def\<close>)
qed

lemma Claim_cases:
  obtains (failed) err where "Store_Claim lib digest c r st = (st, Inl err)"
    | (answered) state st' d e where "Store_Claim lib digest c r st = (st', Inr \<lparr>cr_Disposition = d, cr_Occurrence = e\<rparr>)"
        "claim_checked lib digest c r st state" "claim_outcome r st state st' d e"
  using Claim_unchecked [of lib digest c r st] Claim_checked [of lib digest c r st] by blast

lemma reclaimed_sel [simp]:
  "oc_ID (reclaimed r e) = oc_ID e" "oc_JobName (reclaimed r e) = oc_JobName e"
  "oc_ScheduledAt (reclaimed r e) = oc_ScheduledAt e" "oc_Status (reclaimed r e) = oc_Status e"
  by (simp_all add: reclaimed_def)

lemma Claim_changes:
  assumes wf: "wf_store st"
  shows "changes st (cl_ClaimedAt r) (cl_LeaseToken r) (fst (Store_Claim lib digest c r st))"
proof (cases rule: Claim_cases [of lib digest c r st])
  case (answered state st' d e)
  then have job: "map_of (ms_jobs st) (cl_JobName r) = Some state" by (simp add: claim_checked_def)
  have ex: "exclusive_in st (cl_JobName r) \<longleftrightarrow> jd_Overlap (js_Definition state) = OverlapSkip"
    using job by (simp add: exclusive_in_def)
  from answered(3) have "changes st (cl_ClaimedAt r) (cl_LeaseToken r) st'"
  proof cases
    case (taken_over e')
    have "record_change st (cl_ClaimedAt r) (cl_LeaseToken r) (cl_OccurrenceID r) (Some e') (reclaimed r e')"
      using taken_over ex wf by (intro claimed) (auto simp: lease_of_def hasLiveOverlap_iff reclaimed_def)
    then show ?thesis using taken_over wf
      by (intro changesI [where r = "reclaimed r e'"]) (auto simp: wf_store_def)
  next
    case overlapped
    then show ?thesis
      by (intro changesI [where r = e]) (auto simp: skipped_record_def lease_of_def status_simps intro!: dropped)
  next
    case granted
    have "record_change st (cl_ClaimedAt r) (cl_LeaseToken r) (cl_OccurrenceID r) None (first_claim r)"
      using granted ex wf by (intro claimed) (auto simp: lease_of_def some_live_iff first_claim_def)
    then show ?thesis using granted
      by (intro changesI [where r = "first_claim r"]) (auto simp: first_claim_def)
  qed (simp_all add: changes_same)
  with answered(1) show ?thesis by simp
qed (simp add: changes_same)

text \<open>A skip changes nothing, closes an abandoned occurrence, or records one at the cursor.\<close>

inductive skip_outcome :: "SkipRequest \<Rightarrow> MemoryStore \<Rightarrow> JobState \<Rightarrow> MemoryStore \<Rightarrow> bool" for r st state where
  settled: "map_of (ms_occurrences st) (sk_OccurrenceID r) = Some e \<Longrightarrow> oc_Status e \<noteq> OccurrenceRunning
     \<Longrightarrow> skip_outcome r st state st"
| given_up: "map_of (ms_occurrences st) (sk_OccurrenceID r) = Some e \<Longrightarrow> oc_Status e = OccurrenceRunning
     \<Longrightarrow> \<not> durablyAfter (oc_LeaseUntil e) (sk_SkippedAt r)
     \<Longrightarrow> skip_outcome r st state (advanceLocked (sk_JobName r) (sk_NextRunAt r) (sk_SkippedAt r)
           (put_occurrence (skip_existing r e) (sk_OccurrenceID r) st))"
| passed_over: "map_of (ms_occurrences st) (sk_OccurrenceID r) = None \<Longrightarrow> js_NextRunAt state = sk_ScheduledAt r
     \<Longrightarrow> skip_outcome r st state (advanceLocked (sk_JobName r) (sk_NextRunAt r) (sk_SkippedAt r)
           (put_occurrence (skipped_record (sk_OccurrenceID r) (sk_JobName r) (sk_ScheduledAt r) (sk_SkippedAt r) (sk_Reason r))
             (sk_OccurrenceID r) st))"

lemma Skip_checked:
  assumes "contextError c = None" "validateSkip digest r = None" and s: "map_of (ms_jobs st) (sk_JobName r) = Some state"
  shows "(\<exists>err. Store_Skip lib digest c r st = (st, Some err)) \<or>
    (\<exists>st'. Store_Skip lib digest c r st = (st', None) \<and> skip_outcome r st state st')"
proof (cases "map_of (ms_occurrences st) (sk_OccurrenceID r)")
  case None
  show ?thesis
    using assms None passed_over [OF None, of state]
    by (cases "validateScheduleAdvance lib state (sk_ScheduledAt r) (sk_NextRunAt r)")
      (auto simp: Store_Skip_def Let_def)
next
  case (Some e)
  note valid = assms Some
  show ?thesis
  proof (cases "sameOccurrence e (sk_JobName r) (sk_ScheduledAt r)")
    case None
    with valid settled [OF Some, of state] given_up [OF Some, of state] show ?thesis
      by (cases "validateScheduleAdvance lib state (sk_ScheduledAt r) (sk_NextRunAt r)")
        (auto simp: Store_Skip_def Let_def)
  qed (use valid in \<open>simp add: Store_Skip_def Let_def\<close>)
qed

lemma Skip_cases:
  obtains (failed) err where "Store_Skip lib digest c r st = (st, Some err)"
    | (answered) state st' where "Store_Skip lib digest c r st = (st', None)"
        "map_of (ms_jobs st) (sk_JobName r) = Some state" "skip_outcome r st state st'"
proof (cases "contextError c = None \<and> validateSkip digest r = None")
  case True
  then show thesis
  proof (cases "map_of (ms_jobs st) (sk_JobName r)")
    case None
    with True show ?thesis by (intro failed) (simp add: Store_Skip_def Let_def)
  next
    case (Some state)
    with True Skip_checked [of c digest r st state lib] failed answered show ?thesis by blast
  qed
next
  case False
  then have "\<exists>err. Store_Skip lib digest c r st = (st, Some err)" by (auto simp: Store_Skip_def Let_def split: option.split)
  with failed show ?thesis by blast
qed

lemma Skip_changes:
  assumes wf: "wf_store st"
  shows "changes st (sk_SkippedAt r) tk (fst (Store_Skip lib digest c r st))"
proof (cases rule: Skip_cases [of lib digest c r st])
  case (answered state st')
  from answered(3) have "changes st (sk_SkippedAt r) tk st'"
  proof cases
    case (given_up e)
    then show ?thesis using wf
      by (intro changesI [where r = "skip_existing r e"])
        (auto simp: wf_store_def skip_existing_def lease_of_def status_simps intro!: dropped [of _ "oc_JobName e"])
  next
    case passed_over
    then show ?thesis
      by (intro changesI [where r = "skipped_record (sk_OccurrenceID r) (sk_JobName r) (sk_ScheduledAt r) (sk_SkippedAt r) (sk_Reason r)"])
        (auto simp: skipped_record_def lease_of_def status_simps intro!: dropped)
  qed (simp add: changes_same)
  with answered(1) show ?thesis by simp
qed (simp add: changes_same)

lemma step_changes: "wf_store st \<Longrightarrow> changes st (op_time p) (op_token p) (store_step lib digest (c, p) st)"
  by (cases p) (simp_all add: Claim_changes Renew_changes Complete_changes Skip_changes changes_same Reconcile_occurrences)

lemma wf_step: "wf_store st \<Longrightarrow> wf_store (store_step lib digest (c, p) st)"
proof -
  assume wf: "wf_store st"
  from step_changes [OF this, of p lib digest c] show ?thesis
    unfolding changes_def
  proof (elim disjE exE conjE)
    assume "ms_occurrences (store_step lib digest (c, p) st) = ms_occurrences st"
    with wf show ?thesis by (simp add: wf_store_def)
  qed (rule wf_put [OF wf])
qed

lemma wf_run: "wf_store st \<Longrightarrow> wf_store (store_run lib digest ops st)"
  by (induction ops arbitrary: st) (auto simp: wf_step)

subsection \<open>Refinement of the lease table\<close>

lemma store_refines_leases_step:
  assumes "wf_store st"
  shows "leases (store_step lib digest (c, p) st) = leases st
    \<or> lease_step (exclusive_in st) (op_time p) (leases st) (leases (store_step lib digest (c, p) st))"
  using step_changes [OF assms, of p lib digest c] unfolding changes_def
proof (elim disjE exE conjE)
  fix k r
  assume "ms_occurrences (store_step lib digest (c, p) st) = map_put k r (ms_occurrences st)"
    and ch: "record_change st (op_time p) (op_token p) k (map_of (ms_occurrences st) k) r"
  then show ?thesis using change_lease_step [OF ch] leases_put by metis
qed (intro disjI1 leases_cong)

text \<open>
  C33. Every operation of the store refines the lease table: it leaves every lease as it was, or
  acquires a free one (for a job whose overlaps are skipped only while no other occurrence of
  the job is live), extends or settles a live one, or closes one that nobody owns.
\<close>
theorem store_refines_leases:
  assumes "wf_store st"
  shows "wf_store (store_step lib digest (c, p) st)
    \<and> (leases (store_step lib digest (c, p) st) = leases st
       \<or> lease_step (exclusive_in st) (op_time p) (leases st) (leases (store_step lib digest (c, p) st)))"
  using store_refines_leases_step [OF assms] wf_step [OF assms] by blast

subsection \<open>One live lease\<close>

definition sole_live :: "time \<Rightarrow> string \<Rightarrow> (string \<Rightarrow> lease) \<Rightarrow> bool" where
  "sole_live now j t \<longleftrightarrow> (\<forall>a b. live now j (t a) \<longrightarrow> live now j (t b) \<longrightarrow> a = b)"

lemma durablyAfter_mono: "durablyAfter u now' \<Longrightarrow> now \<le> now' \<Longrightarrow> durablyAfter u now"
proof -
  have m: "time_Truncate 1000 t = 1000 * (t div 1000)" for t
    by (simp add: time_Truncate_def minus_mod_eq_mult_div)
  assume "durablyAfter u now'" "now \<le> now'"
  then show ?thesis using zdiv_mono1 [of now now' 1000] by (simp add: durablyAfter_def m)
qed

lemma live_mono: "live now' j l \<Longrightarrow> now \<le> now' \<Longrightarrow> live now j l"
  by (cases l) (auto intro: durablyAfter_mono)

lemma sole_live_later: "sole_live now j t \<Longrightarrow> now \<le> now' \<Longrightarrow> sole_live now' j t"
  using live_mono unfolding sole_live_def by blast

lemma sole_live_step:
  assumes "lease_step exclusive now t t'" and "exclusive j" and "sole_live now j t"
  shows "sole_live now j t'"
  using assms(1)
proof cases
  case (acquire j' k token u)
  show ?thesis
  proof (cases "j' = j")
    case True
    with acquire assms(2) have "\<forall>k'. k' \<noteq> k \<longrightarrow> \<not> live now j (t k')" by simp
    then show ?thesis by (auto simp: acquire sole_live_def)
  next
    case False
    with assms(3) show ?thesis by (auto simp: acquire sole_live_def split: if_splits)
  qed
next
  case (extend k j' token u u')
  then have "live now j (t' a) \<Longrightarrow> live now j (t a)" for a by (auto split: if_splits)
  with assms(3) show ?thesis by (auto simp: sole_live_def)
qed (use assms(3) in \<open>auto simp: sole_live_def split: if_splits\<close>)

text \<open>The declarations of a sequence of operations that keep the overlaps of a job skipped.\<close>

fun declares_skip :: "string \<Rightarrow> store_op \<Rightarrow> bool" where
  "declares_skip j (DoReconcile ds now) = list_all (\<lambda>d. jd_Name d = j \<longrightarrow> jd_Overlap d = OverlapSkip) ds"
| "declares_skip j _ = True"

lemma advance_jobs:
  "ms_jobs (advanceLocked j n u st) =
     map_put j (let s = map_get zeroJobState (ms_jobs st) j
                in (if js_NextRunAt s < n then s\<lparr>js_NextRunAt := n\<rparr> else s)\<lparr>js_UpdatedAt := u\<rparr>) (ms_jobs st)"
  by (simp add: advanceLocked_def Let_def)

lemma advance_job:
  assumes "map_of (ms_jobs st) j = Some s"
  shows "map_of (ms_jobs (advanceLocked j n u st)) j' =
    (if j' = j then Some (s\<lparr>js_NextRunAt := max (js_NextRunAt s) n, js_UpdatedAt := u\<rparr>) else map_of (ms_jobs st) j')"
  using assms by (auto simp: advance_jobs update_conv' map_get_def Let_def max_def)

text \<open>Outside of reconciliation a job keeps its definition and its cursor never goes back.\<close>

definition job_moves :: "MemoryStore \<Rightarrow> MemoryStore \<Rightarrow> bool" where
  "job_moves st st' \<longleftrightarrow> (\<forall>j. case (map_of (ms_jobs st) j, map_of (ms_jobs st') j) of
     (Some s, Some s') \<Rightarrow> js_Definition s' = js_Definition s \<and> js_CreatedAt s' = js_CreatedAt s \<and> js_NextRunAt s \<le> js_NextRunAt s'
   | (None, None) \<Rightarrow> True | _ \<Rightarrow> False)"

lemma job_moves_refl [simp]: "job_moves st st"
  by (simp add: job_moves_def split: option.split)

lemma job_moves_cong: "ms_jobs st' = ms_jobs st \<Longrightarrow> job_moves st st'"
  by (simp add: job_moves_def split: option.split)

lemma job_moves_advance:
  "map_of (ms_jobs st) j = Some s \<Longrightarrow> ms_jobs st0 = ms_jobs st \<Longrightarrow> job_moves st (advanceLocked j n u st0)"
  by (auto simp: job_moves_def advance_job split: option.split)

lemma Claim_jobs: "job_moves st (fst (Store_Claim lib digest c r st))"
proof (cases rule: Claim_cases [of lib digest c r st])
  case (answered state st' d e)
  then have job: "map_of (ms_jobs st) (cl_JobName r) = Some state" by (simp add: claim_checked_def)
  from answered(3) have "job_moves st st'"
    by cases (auto intro: job_moves_advance [OF job])
  with answered(1) show ?thesis by simp
qed simp

lemma Skip_jobs: "job_moves st (fst (Store_Skip lib digest c r st))"
proof (cases rule: Skip_cases [of lib digest c r st])
  case (answered state st')
  from answered(3) have "job_moves st st'"
    by cases (auto intro: job_moves_advance [OF answered(2)])
  with answered(1) show ?thesis by simp
qed simp

lemma Renew_jobs: "ms_jobs (fst (Store_Renew c r st)) = ms_jobs st"
  by (simp add: Store_Renew_def split: option.split)

lemma Complete_jobs: "ms_jobs (fst (Store_Complete c m st)) = ms_jobs st"
  by (simp add: Store_Complete_def split: option.split)

lemma step_jobs:
  assumes "\<And>ds now. p \<noteq> DoReconcile ds now"
  shows "job_moves st (store_step lib digest (c, p) st)"
proof (cases p)
  case (DoReconcile ds now)
  with assms show ?thesis by blast
qed (simp_all add: Claim_jobs Skip_jobs Renew_jobs Complete_jobs job_moves_cong)

lemma job_moves_exclusive: "job_moves st st' \<Longrightarrow> exclusive_in st j \<Longrightarrow> exclusive_in st' j"
  unfolding job_moves_def exclusive_in_def by (drule spec [of _ j]) (auto split: option.splits)

subsection \<open>Reconciliation\<close>

lemma normalizedDefinition_keeps:
  "normalizedDefinition lib d now = Inr (d', sch) \<Longrightarrow>
     jd_Name d' = jd_Name d \<and> jd_CatchUp d' = jd_CatchUp d \<and> jd_Overlap d' = jd_Overlap d"
  by (auto simp: normalizedDefinition_def Let_def split: option.splits sum.splits if_splits)

lemma preserve_keeps [simp]:
  "jd_Name (preserveIntervalAnchor i e) = jd_Name i" "jd_CatchUp (preserveIntervalAnchor i e) = jd_CatchUp i"
  "jd_Overlap (preserveIntervalAnchor i e) = jd_Overlap i"
  by (simp_all add: preserveIntervalAnchor_def Let_def)

lemma reconcile_one_keeps:
  assumes "reconcile_one lib st now d = Inr s"
  shows "jd_Name (js_Definition s) = jd_Name d \<and> jd_Overlap (js_Definition s) = jd_Overlap d
    \<and> jd_CatchUp (js_Definition s) = jd_CatchUp d"
proof -
  let ?e = "map_of (ms_jobs st) (jd_Name d)"
  let ?i = "case ?e of Some e \<Rightarrow> preserveIntervalAnchor d (js_Definition e) | None \<Rightarrow> d"
  obtain d' sch where n: "normalizedDefinition lib ?i now = Inr (d', sch)"
    and s: "js_Definition s = d'"
    using assms unfolding reconcile_one_def Let_def
    by (cases "normalizedDefinition lib ?i now") (auto split: option.splits sum.splits if_splits)
  from normalizedDefinition_keeps [OF n] s show ?thesis by (auto split: option.splits)
qed

lemma reconcile_loop_keeps:
  assumes "reconcile_loop lib st now active ds = Inr active'"
  shows "map_of active' j = Some s \<Longrightarrow>
     map_of active j = Some s \<or> (\<exists>d \<in> set ds. jd_Name d = j \<and> reconcile_one lib st now d = Inr s)"
  using assms
proof (induction ds arbitrary: active)
  case (Cons d ds)
  then obtain s' where s': "reconcile_one lib st now d = Inr s'"
    and r: "reconcile_loop lib st now (map_put (jd_Name d) s' active) ds = Inr active'"
    by (auto simp: and_then_Inr split: if_splits)
  from Cons.IH [OF Cons.prems(1) r] s' show ?case by (auto simp: update_conv' split: if_splits)
qed simp

lemma exclusive_step:
  assumes "declares_skip j p" and "exclusive_in st j"
  shows "exclusive_in (store_step lib digest (c, p) st) j"
proof (cases p)
  case (DoReconcile ds now)
  have "jd_Overlap (js_Definition s) = OverlapSkip"
    if "reconcile_loop lib st now [] ds = Inr active" and "map_of active j = Some s" for active s
  proof -
    from reconcile_loop_keeps [OF that(1,2)] obtain d
      where d: "d \<in> set ds" "jd_Name d = j" "reconcile_one lib st now d = Inr s" by auto
    with reconcile_one_keeps [OF d(3)] assms(1) show ?thesis by (auto simp: DoReconcile list_all_iff)
  qed
  then show ?thesis using assms(2)
    by (auto simp: DoReconcile Store_Reconcile_def Let_def exclusive_in_def split: option.splits sum.splits)
next
  case (DoClaim r)
  with assms(2) Claim_jobs [of st lib digest c r] show ?thesis by (simp add: job_moves_exclusive)
next
  case (DoSkip r)
  with assms(2) Skip_jobs [of st lib digest c r] show ?thesis by (simp add: job_moves_exclusive)
qed (use assms(2) in \<open>simp_all add: exclusive_in_def Renew_jobs Complete_jobs\<close>)

lemma sole_live_run:
  assumes "wf_store st" and "exclusive_in st j" and "sole_live t0 j (leases st)"
    and "sorted (map (op_time \<circ> snd) ops)" and "\<forall>p \<in> set ops. declares_skip j (snd p) \<and> t0 \<le> op_time (snd p) \<and> op_time (snd p) \<le> now"
    and "t0 \<le> now"
  shows "sole_live now j (leases (store_run lib digest ops st))"
  using assms
proof (induction ops arbitrary: st t0)
  case Nil
  then show ?case by (auto intro: sole_live_later)
next
  case (Cons p ops)
  obtain c q where p: "p = (c, q)" by fastforce
  let ?st = "store_step lib digest p st"
  have before: "sole_live (op_time q) j (leases st)"
    using sole_live_later [OF Cons.prems(3)] Cons.prems(5) by (simp add: p)
  have sole: "sole_live (op_time q) j (leases ?st)"
    using store_refines_leases_step [OF Cons.prems(1), of lib digest c q] before
      sole_live_step [of "exclusive_in st" "op_time q" "leases st" _ j] Cons.prems(2) by (auto simp: p)
  show ?case unfolding store_run_simps
  proof (rule Cons.IH [OF _ _ sole])
    show "wf_store ?st" using wf_step [OF Cons.prems(1)] by (simp add: p)
    show "exclusive_in ?st j" using exclusive_step [of j q st lib digest c] Cons.prems(2,5) by (simp add: p)
  qed (use Cons.prems(4,5) in \<open>auto simp: p\<close>)
qed

text \<open>
  C31. While the declarations of a job skip overlaps, at most one of its occurrences owns a live
  lease: over every sequence of operations of any number of schedulers on one store, failed and
  repeated ones included, whose clocks do not go back.
\<close>
theorem one_live_lease:
  assumes "sorted (map (op_time \<circ> snd) ops)" and "\<forall>p \<in> set ops. op_time (snd p) \<le> now"
    and "\<forall>p \<in> set ops. declares_skip j (snd p)"
    and "map_of (ms_occurrences (store_run lib digest ops NewMemoryStore)) a = Some ra"
    and "map_of (ms_occurrences (store_run lib digest ops NewMemoryStore)) b = Some rb"
    and "oc_JobName ra = j" "oc_Status ra = OccurrenceRunning" "durablyAfter (oc_LeaseUntil ra) now"
    and "oc_JobName rb = j" "oc_Status rb = OccurrenceRunning" "durablyAfter (oc_LeaseUntil rb) now"
  shows "a = b"
proof -
  define t0 where "t0 = (case ops of [] \<Rightarrow> now | p # _ \<Rightarrow> op_time (snd p))"
  have "sole_live now j (leases (store_run lib digest ops NewMemoryStore))"
  proof (rule sole_live_run [of _ _ t0])
    show "\<forall>p \<in> set ops. declares_skip j (snd p) \<and> t0 \<le> op_time (snd p) \<and> op_time (snd p) \<le> now" "t0 \<le> now"
      using assms(1-3) by (cases ops; simp add: t0_def ball_conj_distrib)+
  qed (use assms(1) in \<open>auto simp: exclusive_in_def sole_live_def leases_def lease_of_def NewMemoryStore_def wf_store_def\<close>)
  moreover have "live now j (leases (store_run lib digest ops NewMemoryStore) a)"
    "live now j (leases (store_run lib digest ops NewMemoryStore) b)"
    unfolding live_iff using assms(4-) by blast+
  ultimately show ?thesis unfolding sole_live_def by blast
qed

subsection \<open>Finality and fencing\<close>

lemma change_was_running:
  "record_change st now tk k (Some e) r \<Longrightarrow> oc_Status e = OccurrenceRunning"
  by (erule record_change.cases) (auto simp: lease_of_def split: if_splits)

lemma change_token:
  "record_change st now tk k old r \<Longrightarrow> oc_Status r = OccurrenceRunning
     \<Longrightarrow> oc_LeaseToken r = tk \<or> (\<exists>e. old = Some e \<and> oc_LeaseToken r = oc_LeaseToken e)"
  by (erule record_change.cases) auto

lemma closed_step:
  assumes "wf_store st" and "map_of (ms_occurrences st) k = Some e" and "oc_Status e \<noteq> OccurrenceRunning"
  shows "map_of (ms_occurrences (store_step lib digest p st)) k = Some e"
proof -
  obtain c q where p: "p = (c, q)" by fastforce
  from step_changes [OF assms(1), of q lib digest c] show ?thesis
    unfolding changes_def p
  proof (elim disjE exE conjE)
    fix k' r
    assume m: "ms_occurrences (store_step lib digest (c, q) st) = map_put k' r (ms_occurrences st)"
      and "record_change st (op_time q) (op_token q) k' (map_of (ms_occurrences st) k') r"
    then have "k' \<noteq> k" using assms(2,3) change_was_running by fastforce
    then show "map_of (ms_occurrences (store_step lib digest (c, q) st)) k = Some e"
      using assms(2) by (simp add: m update_conv')
  qed (use assms(2) in simp)
qed

text \<open>
  A closed occurrence is final: once it has succeeded, failed, been cancelled or skipped,
  no sequence of operations changes or removes its record, so each occurrence has one outcome.
\<close>
theorem closed_is_final:
  assumes "wf_store st" and "map_of (ms_occurrences st) k = Some e" and "oc_Status e \<noteq> OccurrenceRunning"
  shows "map_of (ms_occurrences (store_run lib digest ops st)) k = Some e"
  using assms
proof (induction ops arbitrary: st)
  case (Cons p ops)
  obtain c q where p: "p = (c, q)" by fastforce
  show ?case unfolding store_run_simps
    by (rule Cons.IH) (use Cons.prems closed_step [OF Cons.prems] wf_step [OF Cons.prems(1)] in \<open>auto simp: p\<close>)
qed simp

definition stale :: "string \<Rightarrow> string \<Rightarrow> MemoryStore \<Rightarrow> bool" where
  "stale k token st \<longleftrightarrow> (\<forall>e. map_of (ms_occurrences st) k = Some e \<longrightarrow> oc_Status e = OccurrenceRunning
     \<longrightarrow> oc_LeaseToken e \<noteq> token)"

lemma stale_step:
  assumes "wf_store st" and "stale k token st" and "op_token q \<noteq> token"
  shows "stale k token (store_step lib digest (c, q) st)"
  using step_changes [OF assms(1), of q lib digest c] unfolding changes_def
proof (elim disjE exE conjE)
  fix k' r
  assume m: "ms_occurrences (store_step lib digest (c, q) st) = map_put k' r (ms_occurrences st)"
    and ch: "record_change st (op_time q) (op_token q) k' (map_of (ms_occurrences st) k') r"
  show ?thesis unfolding stale_def
  proof (intro allI impI)
    fix e
    assume "map_of (ms_occurrences (store_step lib digest (c, q) st)) k = Some e" and run: "oc_Status e = OccurrenceRunning"
    then have "(k' = k \<and> e = r) \<or> map_of (ms_occurrences st) k = Some e" by (auto simp: m update_conv' split: if_splits)
    then show "oc_LeaseToken e \<noteq> token"
    proof
      assume k: "k' = k \<and> e = r"
      show ?thesis
      proof (cases "oc_LeaseToken r = op_token q")
        case False
        with change_token [OF ch] run k obtain e' where
          e': "map_of (ms_occurrences st) k = Some e'" "oc_LeaseToken r = oc_LeaseToken e'" by auto
        with ch k have "oc_Status e' = OccurrenceRunning" by (auto intro: change_was_running)
        with e' assms(2) k show ?thesis by (auto simp: stale_def)
      qed (use k assms(3) in simp)
    qed (use assms(2) run in \<open>simp add: stale_def\<close>)
  qed
qed (use assms(2) in \<open>simp add: stale_def\<close>)

lemma stale_run:
  "wf_store st \<Longrightarrow> stale k token st \<Longrightarrow> \<forall>p \<in> set ops. op_token (snd p) \<noteq> token
     \<Longrightarrow> stale k token (store_run lib digest ops st)"
proof (induction ops arbitrary: st)
  case (Cons p ops)
  obtain c q where p: "p = (c, q)" by fastforce
  show ?case unfolding store_run_simps
    by (rule Cons.IH) (use Cons.prems stale_step wf_step in \<open>auto simp: p\<close>)
qed simp

lemma stale_refused:
  assumes "stale (cm_OccurrenceID m) (cm_LeaseToken m) st"
  shows "fst (Store_Complete c m st) = st \<and> snd (Store_Complete c m st) \<noteq> None"
proof -
  have "snd (Store_Complete c m st) \<noteq> None"
  proof
    assume "snd (Store_Complete c m st) = None"
    from Complete_ok [OF this] obtain e where "map_of (ms_occurrences st) (cm_OccurrenceID m) = Some e"
      "oc_Status e = OccurrenceRunning" "oc_LeaseToken e = cm_LeaseToken m" by blast
    with assms show False by (simp add: stale_def)
  qed
  with Complete_err show ?thesis by blast
qed

lemma stale_renewal_refused:
  assumes "stale (rn_OccurrenceID r) (rn_LeaseToken r) st"
  shows "fst (Store_Renew c r st) = st \<and> snd (Store_Renew c r st) \<noteq> None"
proof -
  have "\<not> holds_lease (map_of (ms_occurrences st) (rn_OccurrenceID r)) (rn_LeaseToken r) (rn_RenewedAt r)"
    using assms holds_lease_Some unfolding stale_def by blast
  then show ?thesis by (simp add: Store_Renew_def split: option.split)
qed

text \<open>
  C32. A lost lease stays lost: once another claim has acquired an occurrence, whatever happens
  next (short of giving the old token out again), every completion and every renewal under the
  old token is refused and leaves the store as it was.
\<close>
theorem stale_owner_fenced:
  assumes "wf_store st"
    and "Store_Claim lib digest c r st = (st', Inr \<lparr>cr_Disposition = ClaimAcquired, cr_Occurrence = e\<rparr>)"
    and "cl_LeaseToken r \<noteq> token" and "\<forall>p \<in> set ops. op_token (snd p) \<noteq> token"
    and "cm_OccurrenceID m = cl_OccurrenceID r" "cm_LeaseToken m = token"
    and "rn_OccurrenceID n = cl_OccurrenceID r" "rn_LeaseToken n = token"
  shows "fst (Store_Complete c' m (store_run lib digest ops st')) = store_run lib digest ops st'
    \<and> snd (Store_Complete c' m (store_run lib digest ops st')) \<noteq> None
    \<and> fst (Store_Renew c'' n (store_run lib digest ops st')) = store_run lib digest ops st'
    \<and> snd (Store_Renew c'' n (store_run lib digest ops st')) \<noteq> None"
proof -
  have "stale (cl_OccurrenceID r) token st'"
  proof (cases rule: Claim_cases [of lib digest c r st])
    case (answered state st'' d e')
    with assms(2) have "claim_outcome r st state st' ClaimAcquired e" by simp
    then show ?thesis using assms(3)
      by cases (auto simp: stale_def update_conv' reclaimed_def first_claim_def)
  qed (use assms(2) in simp)
  moreover have "wf_store st'" using wf_step [OF assms(1), of lib digest c "DoClaim r"] assms(2) by simp
  ultimately have "stale (cl_OccurrenceID r) token (store_run lib digest ops st')"
    using assms(4) by (intro stale_run)
  then show ?thesis using stale_refused [of m] stale_renewal_refused [of n] assms(5-) by simp
qed

end
