(* ===== verification/Cron_Times.thy ===== *)
theory Cron_Times
  imports Cron_Schedule
begin

text \<open>
  What the schedules of \<^verbatim>\<open>pkg/cron/schedule.go\<close> guarantee: \<open>Next\<close> is the first match in
  real time, it exists in every zone of a fixed offset, intervals keep their cadence, and
  the persisted definition reads back as the schedule it was written from.
\<close>

subsection \<open>The walk finds the first match\<close>

lemma next_walk_Some:
  "next_walk p c dl = Some t \<Longrightarrow>
     \<exists>k. t = c + int k * minute \<and> t \<le> dl \<and> p t \<and> (\<forall>j < k. \<not> p (c + int j * minute))"
proof (induction p c dl rule: next_walk.induct)
  case (1 p c dl)
  show ?case
  proof (cases "p c")
    case True
    with 1(2) have "t = c" "t \<le> dl" by (auto simp: next_walk.simps [of p c] split: if_splits)
    with True show ?thesis by (intro exI [of _ 0]) simp
  next
    case False
    with 1(2) have le: "\<not> c > dl" and n: "next_walk p (c + minute) dl = Some t"
      by (auto simp: next_walk.simps [of p c] split: if_splits)
    from 1(1) [OF le False n] obtain k where
      k: "t = c + minute + int k * minute" "t \<le> dl" "p t" "\<forall>j < k. \<not> p (c + minute + int j * minute)" by auto
    have "\<not> p (c + int j * minute)" if "j < Suc k" for j
      using that False k(4) by (cases j) (auto simp: algebra_simps)
    with k show ?thesis by (intro exI [of _ "Suc k"]) (auto simp: algebra_simps)
  qed
qed

lemma next_walk_None:
  "next_walk p c dl = None \<Longrightarrow> c + int k * minute \<le> dl \<Longrightarrow> \<not> p (c + int k * minute)"
proof (induction p c dl arbitrary: k rule: next_walk.induct)
  case (1 p c dl)
  have le: "\<not> c > dl" using 1(3) by auto
  with 1(2) have np: "\<not> p c" and n: "next_walk p (c + minute) dl = None"
    by (auto simp: next_walk.simps [of p c] split: if_splits)
  show ?case
  proof (cases k)
    case (Suc j)
    with 1(1) [OF le np n, of j] 1(3) show ?thesis by (simp add: algebra_simps)
  qed (use np in simp)
qed

lemma first_candidate: "after < first_candidate after" "first_candidate after \<le> after + minute"
  "first_candidate after mod minute = 0"
proof -
  have "0 \<le> after mod minute" "after mod minute < minute" by auto
  then show "after < first_candidate after" "first_candidate after \<le> after + minute"
    by (auto simp: first_candidate_def time_Truncate_def)
  have "first_candidate after = minute * (after div minute + 1)"
    using minus_mod_eq_mult_div [of after minute] by (simp add: first_candidate_def time_Truncate_def algebra_simps)
  then show "first_candidate after mod minute = 0" by simp
qed

lemma whole_minute_reached:
  assumes "after < t" and "t mod minute = 0"
  obtains k where "t = first_candidate after + int k * minute"
proof -
  let ?c = "first_candidate after"
  have "?c \<le> t"
  proof (rule ccontr)
    assume "\<not> ?thesis"
    then have "t < ?c" "?c - t < minute" using first_candidate(2) [of after] assms(1) by auto
    moreover have "(?c - t) mod minute = 0" using first_candidate(3) [of after] assms(2) by (simp add: mod_diff_eq [symmetric])
    ultimately show False by simp
  qed
  moreover have "(t - ?c) mod minute = 0"
    using first_candidate(3) [of after] assms(2) mod_diff_eq [of t minute ?c] by simp
  then obtain q where q: "t - ?c = minute * q" by (auto simp: mod_eq_0_iff_dvd dvd_def)
  ultimately have "0 \<le> q" by simp
  then show thesis using q that [of "nat q"] by simp
qed

definition calendar_rule :: "Rule \<Rightarrow> bool" where
  "calendar_rule r \<longleftrightarrow> ru_kind r \<in> {ruleDaily, ruleWeekly, ruleMonthly, ruleLastDayOfMonth}"

definition rule_matches :: "Rule \<Rightarrow> Location \<Rightarrow> time \<Rightarrow> bool" where
  "rule_matches r l t = (case matcher r of Inl _ \<Rightarrow> False | Inr p \<Rightarrow> p l t)"

lemma calendar_matcher: "calendar_rule r \<Longrightarrow> matcher r = Inr (rule_matches r)"
  by (auto simp: calendar_rule_def rule_matches_def [abs_def] matcher_def)

lemma Next_calendar:
  assumes "Schedule_Validate lib s = None" and "calendar_rule (sc_rule s)" and "sc_location s = Some l"
  shows "Schedule_Next lib s after =
    (case next_walk (rule_matches (sc_rule s) l) (first_candidate after) (add_years 5 (first_candidate after)) of
       Some t \<Rightarrow> Inr t | None \<Rightarrow> Inl NoOccurrence)"
  using assms calendar_matcher [OF assms(2)] by (auto simp: Schedule_Next_def calendar_rule_def Let_def)

text \<open>Concrete schedules: daily at 09:30, hourly, and a raw expression, all in UTC.\<close>

definition demo_lib :: CronLib where
  "demo_lib = \<lparr>lib_LoadLocation = (\<lambda>zone. if zone = ''UTC'' then Inr UTC else Inl ''unknown time zone''),
               lib_parse = (\<lambda>e. if e = ''@hourly'' then Inr (\<lambda>l t. time_Truncate (60 * minute) t + 60 * minute)
                                else Inl ''expected exactly 5 fields'')\<rparr>"

definition demo_daily :: Schedule where
  "demo_daily = Spec (Daily (At24 9 [30]))"

definition demo_hourly :: Schedule where
  "demo_hourly = Spec (Every (60 * minute))"

lemma demo_valid: "Schedule_Validate demo_lib demo_daily = None" "Schedule_Validate demo_lib demo_hourly = None"
  by (simp_all add: Schedule_Validate_def demo_lib_def demo_daily_def demo_hourly_def Spec_def UTC_def Daily_def Every_def
      At24_def validateClockInput_def zeroRule_def validateTimeOfDay_def bad_interval_def)

lemma demo_facts:
  "calendar_rule (sc_rule demo_daily)" "sc_location demo_daily = Some UTC" "ru_kind (sc_rule demo_hourly) = ruleEvery"
  by (simp_all add: demo_daily_def demo_hourly_def Spec_def Daily_def Every_def calendar_rule_def)

text \<open>
  C38. For a valid daily, weekly, monthly or last-day schedule, \<open>Next\<close> returns a whole minute
  strictly after the given instant whose reading in the schedule's location matches the rule,
  with no matching whole minute in between; it reports that there is none only when no whole
  minute of the five years after the first candidate matches.
\<close>
theorem next_is_first_match:
  assumes v: "Schedule_Validate lib s = None" and c: "calendar_rule (sc_rule s)" and l: "sc_location s = Some l"
  shows "case Schedule_Next lib s after of
     Inr t \<Rightarrow> after < t \<and> t mod minute = 0 \<and> rule_matches (sc_rule s) l t
         \<and> (\<forall>u. after < u \<longrightarrow> u < t \<longrightarrow> u mod minute = 0 \<longrightarrow> \<not> rule_matches (sc_rule s) l u)
   | Inl e \<Rightarrow> e = NoOccurrence
         \<and> (\<forall>u. after < u \<longrightarrow> u \<le> add_years 5 (first_candidate after) \<longrightarrow> u mod minute = 0
               \<longrightarrow> \<not> rule_matches (sc_rule s) l u)"
proof (cases "next_walk (rule_matches (sc_rule s) l) (first_candidate after) (add_years 5 (first_candidate after))")
  case None
  have "\<not> rule_matches (sc_rule s) l u"
    if "after < u" "u \<le> add_years 5 (first_candidate after)" "u mod minute = 0" for u
    using whole_minute_reached [OF that(1,3)] next_walk_None [OF None] that(2) by metis
  with None show ?thesis by (simp add: Next_calendar [OF v c l])
next
  case (Some t)
  from next_walk_Some [OF this] obtain k where
    k: "t = first_candidate after + int k * minute" "rule_matches (sc_rule s) l t"
       "\<forall>j < k. \<not> rule_matches (sc_rule s) l (first_candidate after + int j * minute)" by auto
  have "\<not> rule_matches (sc_rule s) l u" if "after < u" "u < t" "u mod minute = 0" for u
    using whole_minute_reached [OF that(1,3)] k(1,3) that(2) by fastforce
  moreover have "after < t" "t mod minute = 0"
    using first_candidate(1) [of after] first_candidate(3) [of after] k(1) by (auto simp: mod_add_eq [symmetric])
  ultimately show ?thesis using Some k(2) by (simp add: Next_calendar [OF v c l])
qed

theorem next_is_first_match_witness:
  "case Schedule_Next demo_lib demo_daily (unixEpoch * second) of
     Inr t \<Rightarrow> unixEpoch * second < t \<and> t mod minute = 0 \<and> rule_matches (sc_rule demo_daily) UTC t
         \<and> (\<forall>u. unixEpoch * second < u \<longrightarrow> u < t \<longrightarrow> u mod minute = 0
               \<longrightarrow> \<not> rule_matches (sc_rule demo_daily) UTC u)
   | Inl e \<Rightarrow> e = NoOccurrence
         \<and> (\<forall>u. unixEpoch * second < u \<longrightarrow> u \<le> add_years 5 (first_candidate (unixEpoch * second))
               \<longrightarrow> u mod minute = 0 \<longrightarrow> \<not> rule_matches (sc_rule demo_daily) UTC u)"
  by (rule next_is_first_match [OF demo_valid(1) demo_facts(1,2)])

subsection \<open>Valid rules\<close>

text \<open>Rules are opaque: they come from the constructors alone.\<close>

inductive built_rule :: "Rule \<Rightarrow> bool" where
  built_zero: "built_rule zeroRule"
| built_daily: "built_rule (Daily a)"
| built_weekly: "built_rule (Weekly d a)"
| built_monthly: "built_rule (Monthly d a)"
| built_last: "built_rule (LastDayOfMonth a)"
| built_every: "built_rule (Every i)"
| built_raw: "built_rule (Raw e)"

lemmas rule_defs = zeroRule_def Daily_def Weekly_def Monthly_def LastDayOfMonth_def Every_def Raw_def

lemma Validate_None:
  assumes "Schedule_Validate lib s = None"
  obtains l l' where "sc_location s = Some l" and "loc_String l \<noteq> ''Local''"
    and "lib_LoadLocation lib (loc_String l) = Inr l'" and "ru_err (sc_rule s) = None"
    and "sc_hasAnchor s \<longrightarrow> ru_kind (sc_rule s) = ruleEvery \<and> \<not> IsZero (sc_anchor s)"
    and "calendar_rule (sc_rule s) \<longrightarrow> validateTimeOfDay (ru_at (sc_rule s)) = None"
    and "ru_kind (sc_rule s) = ruleEvery \<longrightarrow> \<not> bad_interval (ru_interval (sc_rule s))"
    and "ru_kind (sc_rule s) = ruleRaw \<longrightarrow> (\<exists>p. parseRaw lib (ru_raw (sc_rule s)) = Inr p)"
    and "ru_kind (sc_rule s) \<noteq> ruleInvalid"
  using assms
  by (auto simp: Schedule_Validate_def calendar_rule_def split: option.splits sum.splits if_splits ruleKind.splits)

lemma valid_clock:
  "validateTimeOfDay a = None \<Longrightarrow>
     td_err a = None \<and> 0 \<le> td_hour a \<and> td_hour a \<le> 23 \<and> 0 \<le> td_minute a \<and> td_minute a \<le> 59"
  by (auto simp: validateTimeOfDay_def split: if_splits)

lemma built_ranges:
  "built_rule r \<Longrightarrow> ru_err r = None \<Longrightarrow>
     (ru_kind r = ruleWeekly \<longrightarrow> 0 \<le> ru_weekday r \<and> ru_weekday r \<le> 6) \<and>
     (ru_kind r = ruleMonthly \<longrightarrow> 1 \<le> ru_monthDay r \<and> ru_monthDay r \<le> 31)"
  by (erule built_rule.cases) (auto simp: rule_defs split: if_splits)

subsection \<open>Civil time in a zone of fixed offset\<close>

definition fixed_zone :: "int \<Rightarrow> Location \<Rightarrow> bool" where
  "fixed_zone off l \<longleftrightarrow> (\<forall>u. fst (loc_lookup l u) = off)"

definition civil_time :: "int \<Rightarrow> int \<Rightarrow> int \<Rightarrow> time" where
  "civil_time day h mi = (day * daySeconds + h * 3600 + mi * 60) * second"

lemma civil_time_fields:
  assumes "0 \<le> h" "h \<le> 23" "0 \<le> mi" "mi \<le> 59"
  shows "time_day (civil_time day h mi) = day" and "time_Hour (civil_time day h mi) = h"
    and "time_Minute (civil_time day h mi) = mi" and "civil_time day h mi mod minute = 0"
proof -
  let ?r = "h * 3600 + mi * 60"
  have s: "civil_time day h mi div second = day * daySeconds + ?r" by (simp add: civil_time_def)
  have r: "0 \<le> ?r" "?r < daySeconds" using assms by (auto simp: daySeconds_def)
  then show "time_day (civil_time day h mi) = day" by (simp add: time_day_def s daySeconds_def)
  have "?r div 3600 = h" using assms by (intro int_div_pos_eq [of _ _ _ "mi * 60"]) auto
  then show "time_Hour (civil_time day h mi) = h" using r by (simp add: time_Hour_def s)
  have "day * daySeconds + ?r = mi * 60 + 3600 * (24 * day + h)" by (simp add: daySeconds_def)
  then have "(day * daySeconds + ?r) mod 3600 = mi * 60 mod 3600" by (simp only: mod_mult_self2)
  also have "mi * 60 mod 3600 = mi * 60" using assms by (intro mod_pos_pos_trivial) auto
  finally have "(day * daySeconds + ?r) mod 3600 = mi * 60" .
  then show "time_Minute (civil_time day h mi) = mi" by (simp add: time_Minute_def s)
  have "civil_time day h mi = minute * (1440 * day + 60 * h + mi)" by (simp add: civil_time_def daySeconds_def)
  then show "civil_time day h mi mod minute = 0" by simp
qed

lemma days_before_year_mono: "y \<le> y' \<Longrightarrow> days_before_year y + 365 * (y' - y) \<le> days_before_year y'"
proof (induction y' rule: int_ge_induct)
  case (step i)
  then show ?case using days_before_year_Suc [of i] by (simp split: if_splits)
qed simp

lemma day_of_year:
  assumes "civil day = (y, m, d)"
  shows "days_before_year y \<le> day" and "day < days_before_year (y + 1)"
proof -
  obtain yd where y: "year_of_day day = (y, yd)"
    using assms by (auto simp: civil_def split: prod.splits)
  from year_of_day_correct [OF y] days_before_year_Suc [of y]
  show "days_before_year y \<le> day" and "day < days_before_year (y + 1)" by (auto split: if_splits)
qed

lemma date_days_next_month:
  assumes "1 \<le> m" "m \<le> 12"
  shows "date_days y (m + 1) 0 = day_number y m (days_in_month y m)"
proof (cases "m = 12")
  case True
  then show ?thesis
    using days_before_year_Suc [of y]
    by (simp add: date_days_def day_number_def days_in_month_def month_lengths_def)
next
  case False
  then have k: "nat (m - 1) < length (month_lengths y)" "nat (m + 1 - 1) = Suc (nat (m - 1))" using assms by auto
  have "m div 12 = 0" "m mod 12 = m" using assms False by auto
  then show ?thesis
    using k by (simp add: date_days_def day_number_def days_in_month_def take_Suc_conv_app_nth)
qed

lemma lastDay_fixed:
  assumes "fixed_zone off l" and "time_Date (time_In l t) = (y, m, d)"
  shows "lastDay l t = days_in_month y m"
proof -
  have v: "valid_date y m d" using assms(2) by (auto simp: time_Date_def intro: civil_valid)
  then have m: "1 \<le> m" "m \<le> 12" by (auto simp: valid_date_def)
  then have vl: "valid_date y m (days_in_month y m)"
    using v by (auto simp: valid_date_def)
  have "date_midnight l y (m + 1) 0 = date_days y (m + 1) 0 * daySeconds - off"
    using assms(1) by (auto simp: date_midnight_def fixed_zone_def Let_def split: prod.splits) (metis fst_conv)+
  then have "time_In l (date_midnight l y (m + 1) 0 * second) = civil_time (date_days y (m + 1) 0) 0 0"
    using assms(1) by (simp add: time_In_def fixed_zone_def civil_time_def algebra_simps)
  then show ?thesis
    using assms(2) civil_day_number [OF vl] civil_time_fields(1) [of 0 0]
    by (simp add: lastDay_def time_Day_def time_Date_def date_days_next_month [OF m])
qed

subsection \<open>An occurrence always exists\<close>

lemma time_day_bounds:
  "time_day t * (daySeconds * second) \<le> t" "t < (time_day t + 1) * (daySeconds * second)"
proof -
  define s where "s = t div second"
  have s: "s * second \<le> t" "t < s * second + second"
    using minus_mod_eq_mult_div [of t second] by (auto simp: s_def algebra_simps)
  have d: "time_day t * 86400 \<le> s" "s < time_day t * 86400 + 86400"
    using minus_mod_eq_mult_div [of s 86400] by (auto simp: time_day_def daySeconds_def s_def algebra_simps)
  show "time_day t * (daySeconds * second) \<le> t" "t < (time_day t + 1) * (daySeconds * second)"
    using s d by (auto simp: daySeconds_def algebra_simps)
qed

lemma civil_time_bounds:
  assumes "0 \<le> h" "h \<le> 23" "0 \<le> mi" "mi \<le> 59"
  shows "day * (daySeconds * second) \<le> civil_time day h mi"
    and "civil_time day h mi < (day + 1) * (daySeconds * second)"
  using assms by (auto simp: civil_time_def daySeconds_def algebra_simps)

lemma january_day:
  assumes "1 \<le> dd" "dd \<le> 31"
  shows "civil (days_before_year y + (dd - 1)) = (y, 1, dd)"
  using civil_day_number [of y 1 dd] assms
  by (simp add: day_number_def valid_date_def days_in_month_def month_lengths_def)

text \<open>The day of January that a rule picks, counted from the first.\<close>

definition rule_january :: "Rule \<Rightarrow> int \<Rightarrow> int" where
  "rule_january r first =
     (case ru_kind r of
        ruleWeekly \<Rightarrow> 1 + (ru_weekday r - first - 1) mod 7
      | ruleMonthly \<Rightarrow> ru_monthDay r
      | ruleLastDayOfMonth \<Rightarrow> 31
      | _ \<Rightarrow> 1)"

lemma january_match:
  assumes z: "fixed_zone off l" and r: "built_rule r" "ru_err r = None" "calendar_rule r"
    and a: "validateTimeOfDay (ru_at r) = None"
    and t: "time_In l t = civil_time (days_before_year y + (rule_january r (days_before_year y) - 1))
              (td_hour (ru_at r)) (td_minute (ru_at r))"
  shows "rule_matches r l t \<and> 1 \<le> rule_january r (days_before_year y) \<and> rule_january r (days_before_year y) \<le> 31"
proof -
  let ?J = "days_before_year y"
  note range = built_ranges [OF r(1,2)]
  have w: "0 \<le> (ru_weekday r - ?J - 1) mod 7" "(ru_weekday r - ?J - 1) mod 7 < 7" by auto
  have j: "1 \<le> rule_january r ?J" "rule_january r ?J \<le> 31"
    using range w r(3) by (auto simp: rule_january_def calendar_rule_def)
  note ck = valid_clock [OF a]
  note f = civil_time_fields [of "td_hour (ru_at r)" "td_minute (ru_at r)" "?J + (rule_january r ?J - 1)"]
  have date: "time_Date (time_In l t) = (y, 1, rule_january r ?J)"
    using f ck january_day [OF j] by (simp add: time_Date_def t)
  have clock: "matchesAt l (ru_at r) t" using f ck by (simp add: matchesAt_def t)
  have last: "lastDay l t = 31"
    using lastDay_fixed [OF z date] by (simp add: days_in_month_def month_lengths_def)
  have "(?J + (ru_weekday r - ?J - 1) mod 7 + 1) mod 7 = ru_weekday r mod 7"
    by (metis (no_types, opaque_lifting) add.assoc add.commute diff_add_cancel mod_add_right_eq)
  then have "time_Weekday (time_In l t) = ru_weekday r" if "ru_kind r = ruleWeekly"
    using f ck range that by (simp add: time_Weekday_def t rule_january_def algebra_simps)
  then show ?thesis
    using r(3) clock date last j
    by (auto simp: rule_matches_def matcher_def calendar_rule_def time_Day_def rule_january_def)
qed

lemma january_instant:
  assumes z: "fixed_zone off l" "off mod 60 = 0" and r: "built_rule r" "ru_err r = None" "calendar_rule r"
    and a: "validateTimeOfDay (ru_at r) = None"
  obtains t where "rule_matches r l t" and "c < t" and "t \<le> c + 398 * (daySeconds * second)" and "t mod minute = 0"
proof -
  obtain y m d where yd: "time_Date (time_In l c) = (y, m, d)" by (metis prod_cases3)
  let ?J = "days_before_year (y + 1)" and ?h = "td_hour (ru_at r)" and ?mi = "td_minute (ru_at r)"
  let ?D = "?J + (rule_january r ?J - 1)"
  define t where "t = civil_time ?D ?h ?mi - off * second"
  have cIn: "time_In l c = c + off * second" and tIn: "time_In l t = civil_time ?D ?h ?mi"
    using z(1) by (auto simp: time_In_def fixed_zone_def t_def)
  from january_match [OF z(1) r a tIn] have m: "rule_matches r l t"
    and j: "1 \<le> rule_january r ?J" "rule_january r ?J \<le> 31" by auto
  note ck = valid_clock [OF a]
  have day: "days_before_year y \<le> time_day (time_In l c)" "time_day (time_In l c) < ?J"
    using day_of_year [of "time_day (time_In l c)" y m d] yd by (auto simp: time_Date_def)
  note tb = time_day_bounds [of "time_In l c"] and cb = civil_time_bounds [of ?h ?mi ?D]
  have "(time_day (time_In l c) + 1) * (daySeconds * second) \<le> ?D * (daySeconds * second)"
    using day j by (intro mult_right_mono) (auto simp: daySeconds_def)
  with tb cb ck have lt: "time_In l c < civil_time ?D ?h ?mi" by linarith
  have "?J \<le> days_before_year y + 366" using days_before_year_Suc [of y] by simp
  then have "(?D + 1) * (daySeconds * second) \<le> (time_day (time_In l c) + 398) * (daySeconds * second)"
    using day j by (intro mult_right_mono) (auto simp: daySeconds_def)
  with tb cb ck have ub: "civil_time ?D ?h ?mi \<le> time_In l c + 398 * (daySeconds * second)"
    by (simp add: algebra_simps)
  obtain q where "off = 60 * q" using z(2) by (auto simp: mod_eq_0_iff_dvd dvd_def)
  then have "off * second = minute * q" by simp
  then have "minute dvd off * second" by (rule dvdI)
  moreover have "minute dvd civil_time ?D ?h ?mi"
    using ck civil_time_fields(4) [of ?h ?mi ?D] by (simp add: mod_eq_0_iff_dvd)
  ultimately have "t mod minute = 0" unfolding t_def by (metis dvd_imp_mod_0 dvd_diff)
  moreover have "c < t" "t \<le> c + 398 * (daySeconds * second)"
    using lt ub cIn by (auto simp: t_def)
  ultimately show thesis using m by (intro that [of t])
qed

lemma add_years_gap:
  assumes "0 < n"
  shows "t + (365 * (n - 1)) * (daySeconds * second) \<le> add_years n t"
proof -
  obtain y m d where yd: "civil (time_day t) = (y, m, d)" by (metis prod_cases3)
  have v: "1 \<le> m" "m \<le> 12" "1 \<le> d" using civil_valid [OF yd] by (auto simp: valid_date_def)
  then have k: "(m - 1) div 12 = 0" "(m - 1) mod 12 + 1 = m" by auto
  have nn: "0 \<le> sum_list (take i (month_lengths (y + n)))" for i
    by (intro sum_list_nonneg) (auto simp: month_lengths_def dest!: in_set_takeD split: if_splits)
  have "days_before_year (y + 1) + 365 * (n - 1) \<le> days_before_year (y + n)"
    using days_before_year_mono [of "y + 1" "y + n"] assms by simp
  then have "time_day t + 365 * (n - 1) \<le> date_days (y + n) m d"
    using day_of_year [OF yd] nn [of "nat (m - 1)"] v by (simp add: date_days_def k day_number_def)
  then have "(time_day t + 365 * (n - 1)) * (daySeconds * second) \<le> date_days (y + n) m d * (daySeconds * second)"
    by (intro mult_right_mono) (auto simp: daySeconds_def)
  moreover have "t = time_day t * (daySeconds * second) + t mod (daySeconds * second)"
  proof -
    have "t div (daySeconds * second) = time_day t"
      using time_day_bounds [of t] by (intro int_div_pos_eq [of _ _ _ "t - time_day t * (daySeconds * second)"])
        (auto simp: algebra_simps)
    then show ?thesis by (metis div_mult_mod_eq)
  qed
  ultimately show ?thesis
    using yd by (simp add: add_years_def time_Date_def algebra_simps)
qed

text \<open>
  In a location of fixed offset (a whole number of minutes, as in UTC) every valid daily,
  weekly, monthly or last-day schedule has a next occurrence, strictly after the given instant
  and at most 398 days later, so the five-year bound of the walk is never what decides.
\<close>
theorem next_exists:
  assumes v: "Schedule_Validate lib s = None" and c: "calendar_rule (sc_rule s)" and b: "built_rule (sc_rule s)"
    and l: "sc_location s = Some l" and z: "fixed_zone off l" "off mod 60 = 0"
  shows "\<exists>t. Schedule_Next lib s after = Inr t \<and> after < t \<and> t \<le> after + 398 * (daySeconds * second) + minute"
proof -
  let ?r = "sc_rule s" and ?c = "first_candidate after"
  from Validate_None [OF v] c have e: "ru_err ?r = None" "validateTimeOfDay (ru_at ?r) = None" by auto
  obtain t where t: "rule_matches ?r l t" "?c < t" "t \<le> ?c + 398 * (daySeconds * second)" "t mod minute = 0"
    by (rule january_instant [OF z b e(1) c e(2)])
  obtain k where k: "t = ?c + int k * minute"
    using whole_minute_reached [OF _ t(4)] t(2) first_candidate(1) [of after] by (metis less_trans)
  have dl: "t \<le> add_years 5 ?c"
    using add_years_gap [of 5 ?c] t(3) by (simp add: daySeconds_def)
  show ?thesis
  proof (cases "next_walk (rule_matches ?r l) ?c (add_years 5 ?c)")
    case None
    from next_walk_None [OF this, of k] k dl t(1) show ?thesis by simp
  next
    case (Some u)
    from next_walk_Some [OF this] obtain i where
      i: "u = ?c + int i * minute" "\<forall>j < i. \<not> rule_matches ?r l (?c + int j * minute)" by auto
    have "i \<le> k" using i(2) k t(1) by (metis not_le_imp_less)
    then have "u \<le> t" using i(1) k by simp
    then show ?thesis
      using Some t(3) first_candidate [of after] i(1) by (auto simp: Next_calendar [OF v c l])
  qed
qed

theorem next_exists_witness:
  "\<exists>t. Schedule_Next demo_lib demo_daily (unixEpoch * second) = Inr t \<and> unixEpoch * second < t
     \<and> t \<le> unixEpoch * second + 398 * (daySeconds * second) + minute"
proof (rule next_exists [OF demo_valid(1) demo_facts(1) _ demo_facts(2), of 0])
  show "built_rule (sc_rule demo_daily)" by (simp add: demo_daily_def Spec_def built_daily)
qed (simp_all add: fixed_zone_def UTC_def)

subsection \<open>Intervals\<close>

definition interval_anchor :: "Schedule \<Rightarrow> time" where
  "interval_anchor s = (if sc_hasAnchor s then sc_anchor s else unixEpoch * second)"

lemma every_next_cadence:
  assumes i: "0 < i" "i < 2 ^ 63" and room: "after - a + i < 2 ^ 63"
  shows "after < every_next a i after \<and> a \<le> every_next a i after
    \<and> i dvd (every_next a i after - a) \<and> (a \<le> after \<longrightarrow> every_next a i after \<le> after + i)"
proof (cases "after < a")
  case False
  define q where "q = (after - a) div i"
  have e: "time_Sub after a = after - a" using False room i by (intro time_Sub_exact) auto
  define m where "m = (after - a) mod i"
  have "after - a = q * i + m" by (simp add: q_def m_def)
  moreover have "0 \<le> m" "m < i" using i(1) by (simp_all add: m_def)
  ultimately have q: "q * i \<le> after - a" "after - a < q * i + i" by linarith+
  moreover have "0 \<le> q" using False i(1) by (simp add: q_def pos_imp_zdiv_nonneg_iff)
  ultimately have q: "q * i \<le> after - a" "after - a < q * i + i" "0 \<le> q" by auto
  have "q * 1 \<le> q * i" using q(3) i(1) by (intro mult_left_mono) auto
  then have "wrap_int64 (q + 1) = q + 1" using q room i by (intro wrap_int64_id) linarith+
  moreover have "wrap_int64 ((q + 1) * i) = (q + 1) * i"
  proof (rule wrap_int64_id)
    have s: "(q + 1) * i = q * i + i" by (simp add: algebra_simps)
    show "- (2 ^ 63) \<le> (q + 1) * i" using q(3) i(1) by (simp add: order_trans [of _ 0])
    show "(q + 1) * i < 2 ^ 63" using q(1) room unfolding s by linarith
  qed
  ultimately have "every_next a i after = a + (q + 1) * i"
    using False by (simp add: every_next_def e q_def)
  then show ?thesis using q i by (auto simp: algebra_simps)
qed (use i in \<open>auto simp: every_next_def\<close>)

text \<open>
  A valid \<open>Every\<close> schedule fires on the grid of its anchor (the Unix epoch without one):
  \<open>Next\<close> is the first grid point at or after the anchor that is strictly after the given
  instant. The bound is the 64-bit range of the nanosecond arithmetic.
\<close>
theorem every_keeps_cadence:
  assumes v: "Schedule_Validate lib s = None" and k: "ru_kind (sc_rule s) = ruleEvery"
    and room: "after - interval_anchor s + ru_interval (sc_rule s) < 2 ^ 63"
    and width: "ru_interval (sc_rule s) < 2 ^ 63"
  shows "\<exists>t. Schedule_Next lib s after = Inr t \<and> after < t \<and> interval_anchor s \<le> t
    \<and> ru_interval (sc_rule s) dvd (t - interval_anchor s)
    \<and> (\<forall>u. interval_anchor s \<le> u \<longrightarrow> ru_interval (sc_rule s) dvd (u - interval_anchor s) \<longrightarrow> after < u \<longrightarrow> t \<le> u)"
proof -
  let ?a = "interval_anchor s" and ?i = "ru_interval (sc_rule s)"
  let ?t = "every_next ?a ?i after"
  from Validate_None [OF v] k have "\<not> bad_interval ?i" by auto
  then have i: "0 < ?i" by (auto simp: bad_interval_def)
  note c = every_next_cadence [OF i width room]
  have n: "Schedule_Next lib s after = Inr ?t"
    using v k by (simp add: Schedule_Next_def interval_anchor_def)
  have "?t \<le> u" if "?a \<le> u" "?i dvd u - ?a" "after < u" for u
  proof (cases "after < ?a")
    case True
    then show ?thesis using that(1) by (simp add: every_next_def)
  next
    case False
    have "?i dvd (?t - ?a) - (u - ?a)" using c dvd_diff [OF _ that(2)] by blast
    moreover have "?t - u < ?i" using c False that(3) by simp
    ultimately show ?thesis using zdvd_imp_le [of ?i "?t - u"] by fastforce
  qed
  with n c show ?thesis by blast
qed

theorem every_keeps_cadence_witness:
  "\<exists>t. Schedule_Next demo_lib demo_hourly (unixEpoch * second + 5) = Inr t \<and> unixEpoch * second + 5 < t
    \<and> interval_anchor demo_hourly \<le> t \<and> ru_interval (sc_rule demo_hourly) dvd (t - interval_anchor demo_hourly)
    \<and> (\<forall>u. interval_anchor demo_hourly \<le> u \<longrightarrow> ru_interval (sc_rule demo_hourly) dvd (u - interval_anchor demo_hourly)
          \<longrightarrow> unixEpoch * second + 5 < u \<longrightarrow> t \<le> u)"
  by (rule every_keeps_cadence [OF demo_valid(2) demo_facts(3)])
    (simp_all add: demo_hourly_def Spec_def Every_def interval_anchor_def)

text \<open>Beyond that range the interval stops moving forward: an anchor of the first century is valid.\<close>

lemma far_anchor_stalls:
  assumes "lib_LoadLocation lib ''UTC'' = Inr UTC"
  shows "\<exists>t. Schedule_Validate lib (Schedule_Anchor second (Spec (Every (60 * minute)))) = None
    \<and> Schedule_Next lib (Schedule_Anchor second (Spec (Every (60 * minute)))) (unixEpoch * second) = Inr t
    \<and> t < unixEpoch * second"
  using assms
  by (simp add: Schedule_Next_def Schedule_Validate_def Schedule_Anchor_def Spec_def UTC_def rule_defs
      zeroTimeOfDay_def bad_interval_def IsZero_def time_Truncate_def every_next_def time_Sub_def
      minDuration_def maxDuration_def wrap_int64_def unixEpoch_def)

subsection \<open>The definition reads back\<close>

text \<open>Schedules are opaque too.\<close>

inductive built_schedule :: "Schedule \<Rightarrow> bool" where
  built_spec: "built_rule r \<Longrightarrow> built_schedule (Spec r)"
| built_in: "built_schedule s \<Longrightarrow> built_schedule (Schedule_In l s)"
| built_anchor: "built_schedule s \<Longrightarrow> built_schedule (Schedule_Anchor t s)"

lemma time_Truncate_idem [simp]: "0 < d \<Longrightarrow> time_Truncate d (time_Truncate d t) = time_Truncate d t"
  by (simp add: time_Truncate_def minus_mod_eq_mult_div)

lemma built_schedule_normal:
  "built_schedule s \<Longrightarrow> built_rule (sc_rule s)
     \<and> (if sc_hasAnchor s then time_Truncate 1000 (sc_anchor s) = sc_anchor s else sc_anchor s = 0)"
  by (induction rule: built_schedule.induct) (auto simp: Spec_def Schedule_In_def Schedule_Anchor_def)

lemma normalizeRaw_idem [simp]:
  "normalizeRaw (normalizeRaw e) = normalizeRaw e" "normalizeRaw (TrimSpace e) = normalizeRaw e"
  by (simp_all add: normalizeRaw_def strings_Fields_Join strings_Fields_words)

lemma At24_clock: "validateTimeOfDay a = None \<Longrightarrow> At24 (td_hour a) [td_minute a] = a"
  using valid_clock [of a] by (simp add: At24_def validateClockInput_def)

text \<open>The rule that the definition rebuilds: the same one, a raw expression normalized.\<close>

definition normal_rule :: "Rule \<Rightarrow> Rule" where
  "normal_rule r = (if ru_kind r = ruleRaw then r\<lparr>ru_raw := TrimSpace (normalizeRaw (ru_raw r))\<rparr> else r)"

lemma definition_rule_normal:
  assumes b: "built_rule r" and k: "ru_kind r \<noteq> ruleInvalid"
    and c: "calendar_rule r \<longrightarrow> validateTimeOfDay (ru_at r) = None"
    and d: "sd_Kind d = kind_string (ru_kind r)" "sd_Hour d = td_hour (ru_at r)" "sd_Minute d = td_minute (ru_at r)"
      "sd_Weekday d = ru_weekday r" "sd_MonthDay d = ru_monthDay r"
      "ru_kind r = ruleEvery \<longrightarrow> sd_Interval d = ru_interval r"
      "ru_kind r = ruleRaw \<longrightarrow> sd_Canonical d = normalizeRaw (ru_raw r)"
  shows "definition_rule d = Inr (normal_rule r)"
  using b
proof cases
  case built_zero
  with k show ?thesis by (simp add: zeroRule_def)
next
  case (built_daily a)
  then show ?thesis using c d At24_clock [of a]
    by (simp add: definition_rule_def normal_rule_def kind_string_def ScheduleKind_defs Daily_def calendar_rule_def)
next
  case (built_weekly w a)
  then show ?thesis using c d At24_clock [of a]
    by (simp add: definition_rule_def normal_rule_def kind_string_def ScheduleKind_defs Weekly_def calendar_rule_def zeroRule_def)
next
  case (built_monthly w a)
  then show ?thesis using c d At24_clock [of a]
    by (simp add: definition_rule_def normal_rule_def kind_string_def ScheduleKind_defs Monthly_def calendar_rule_def zeroRule_def)
next
  case (built_last a)
  then show ?thesis using c d At24_clock [of a]
    by (simp add: definition_rule_def normal_rule_def kind_string_def ScheduleKind_defs LastDayOfMonth_def calendar_rule_def)
next
  case (built_every i)
  then show ?thesis using d
    by (simp add: definition_rule_def normal_rule_def kind_string_def ScheduleKind_defs Every_def)
next
  case (built_raw e)
  then show ?thesis using d
    by (simp add: definition_rule_def normal_rule_def kind_string_def ScheduleKind_defs Raw_def)
qed

lemma normal_rule_same:
  "Schedule_Validate lib (s\<lparr>sc_rule := normal_rule (sc_rule s)\<rparr>) = Schedule_Validate lib s"
  "Canonical lib (s\<lparr>sc_rule := normal_rule (sc_rule s)\<rparr>) = Canonical lib s"
  "Schedule_Next lib (s\<lparr>sc_rule := normal_rule (sc_rule s)\<rparr>) = Schedule_Next lib s"
proof -
  let ?s = "s\<lparr>sc_rule := normal_rule (sc_rule s)\<rparr>"
  have p: "parseRaw lib (TrimSpace (normalizeRaw e)) = parseRaw lib e" for e by (simp add: parseRaw_def)
  show v: "Schedule_Validate lib ?s = Schedule_Validate lib s"
    by (cases "sc_location s"; cases "ru_kind (sc_rule s)")
      (auto simp: Schedule_Validate_def normal_rule_def p split: sum.split)
  have "canonical_rule (normal_rule r) = canonical_rule r" for r
    by (cases "ru_kind r") (simp_all add: canonical_rule_def normal_rule_def)
  then show "Canonical lib ?s = Canonical lib s" by (simp add: Canonical_def v split: option.split)
  show "Schedule_Next lib ?s = Schedule_Next lib s"
  proof (rule ext)
    fix after
    show "Schedule_Next lib ?s after = Schedule_Next lib s after"
      unfolding Schedule_Next_def v
      by (cases "Schedule_Validate lib s"; cases "ru_kind (sc_rule s) = ruleRaw")
        (simp_all add: normal_rule_def p Let_def)
  qed
qed

lemma reads_back:
  assumes b: "built_schedule s" and v: "Schedule_Validate lib s = None"
    and l: "sc_location s = Some l" "loc_String l \<noteq> []" "lib_LoadLocation lib (loc_String l) = Inr l"
  obtains d where "Schedule_Definition lib s = Inr d"
    and "ScheduleFromDefinition lib d = Inr (s\<lparr>sc_rule := normal_rule (sc_rule s)\<rparr>)"
    and "Schedule_Definition lib (s\<lparr>sc_rule := normal_rule (sc_rule s)\<rparr>) = Inr d"
proof -
  let ?r = "sc_rule s"
  note n = built_schedule_normal [OF b]
  from Validate_None [OF v] have k: "ru_kind ?r \<noteq> ruleInvalid"
    and c: "calendar_rule ?r \<longrightarrow> validateTimeOfDay (ru_at ?r) = None" by auto
  then obtain can where can: "canonical_rule ?r = Inr can"
    by (cases "ru_kind ?r") (auto simp: canonical_rule_def Let_def)
  then have cn: "Canonical lib s = Inr can" by (simp add: Canonical_def v)
  define d where "d = \<lparr>sd_Kind = kind_string (ru_kind ?r), sd_Timezone = loc_String l, sd_Canonical = can,
    sd_Hour = td_hour (ru_at ?r), sd_Minute = td_minute (ru_at ?r), sd_Weekday = ru_weekday ?r,
    sd_MonthDay = ru_monthDay ?r, sd_Interval = (if ru_kind ?r = ruleEvery then ru_interval ?r else 0),
    sd_Anchor = sc_anchor s, sd_HasAnchor = sc_hasAnchor s\<rparr>"
  have def: "Schedule_Definition lib s = Inr d"
    by (simp add: Schedule_Definition_def v cn l d_def Let_def)
  have rule: "definition_rule d = Inr (normal_rule ?r)"
    by (rule definition_rule_normal)
      (use n k c can in \<open>auto simp: d_def canonical_rule_def Let_def\<close>)
  let ?s = "s\<lparr>sc_rule := normal_rule ?r\<rparr>"
  have s': "(if sd_HasAnchor d then Schedule_Anchor (sd_Anchor d) (Schedule_In (Some l) (Spec (normal_rule ?r)))
             else Schedule_In (Some l) (Spec (normal_rule ?r))) = ?s"
    using n l by (cases s) (auto simp: Schedule_Anchor_def Schedule_In_def Spec_def d_def)
  note same = normal_rule_same [of lib s]
  have reads: "ScheduleFromDefinition lib d = Inr ?s"
    unfolding ScheduleFromDefinition_def Let_def
    using l rule s' same v cn by (simp add: d_def)
  have kind: "ru_kind (normal_rule ?r) = ru_kind ?r" "ru_at (normal_rule ?r) = ru_at ?r"
    "ru_weekday (normal_rule ?r) = ru_weekday ?r" "ru_monthDay (normal_rule ?r) = ru_monthDay ?r"
    "ru_interval (normal_rule ?r) = ru_interval ?r" by (simp_all add: normal_rule_def)
  have "Schedule_Definition lib ?s = Inr d"
    unfolding Schedule_Definition_def same v cn by (simp add: kind l d_def Let_def)
  with def reads that show thesis by blast
qed

text \<open>
  A valid schedule has a definition, the definition reads back as a valid schedule with
  the same definition and the same next occurrence of every instant, provided that its
  location is a named one that \<open>time.LoadLocation\<close> gives for its name.
\<close>
theorem definition_reads_back:
  assumes b: "built_schedule s" and v: "Schedule_Validate lib s = None"
    and l: "sc_location s = Some l" "loc_String l \<noteq> []" "lib_LoadLocation lib (loc_String l) = Inr l"
  shows "\<exists>d s'. Schedule_Definition lib s = Inr d \<and> ScheduleFromDefinition lib d = Inr s'
    \<and> Schedule_Definition lib s' = Inr d \<and> Schedule_Next lib s' = Schedule_Next lib s
    \<and> sc_location s' = sc_location s \<and> IntervalAnchor s' = IntervalAnchor s"
proof -
  obtain d where d: "Schedule_Definition lib s = Inr d"
    "ScheduleFromDefinition lib d = Inr (s\<lparr>sc_rule := normal_rule (sc_rule s)\<rparr>)"
    "Schedule_Definition lib (s\<lparr>sc_rule := normal_rule (sc_rule s)\<rparr>) = Inr d"
    by (rule reads_back [OF assms])
  then show ?thesis
    by (intro exI [of _ d] exI [of _ "s\<lparr>sc_rule := normal_rule (sc_rule s)\<rparr>"])
      (simp add: normal_rule_same IntervalAnchor_def)
qed

theorem definition_reads_back_witness:
  "\<exists>d s'. Schedule_Definition demo_lib demo_daily = Inr d \<and> ScheduleFromDefinition demo_lib d = Inr s'
    \<and> Schedule_Definition demo_lib s' = Inr d \<and> Schedule_Next demo_lib s' = Schedule_Next demo_lib demo_daily
    \<and> sc_location s' = sc_location demo_daily \<and> IntervalAnchor s' = IntervalAnchor demo_daily"
proof (rule definition_reads_back [OF _ demo_valid(1) demo_facts(2)])
  show "built_schedule demo_daily" unfolding demo_daily_def by (intro built_spec built_daily)
qed (simp_all add: UTC_def demo_lib_def)

subsection \<open>The last day of a month\<close>

text \<open>
  A zone like that of the Azores around 31 March 2024: one hour behind UTC, and from
  01:00 UTC on none, so the local midnight of the last day of March does not exist.
\<close>

definition azores :: Location where
  "azores = (let change = day_number 2024 3 31 * daySeconds + 3600
     in \<lparr>loc_String = ''Atlantic/Azores'',
         loc_lookup = (\<lambda>u. if u < change then (-3600, change - 10000000, change) else (0, change, change + 10000000))\<rparr>)"

definition march :: "int \<Rightarrow> int \<Rightarrow> int \<Rightarrow> time" where
  "march d h mi = civil_time (day_number 2024 3 d) h mi"

lemma march_readings:
  "time_In azores (march 30 10 0) = march 30 9 0" "time_In azores (march 31 9 0) = march 31 9 0"
  "date_midnight azores 2024 4 0 * second = march 31 0 0" "time_In azores (march 31 0 0) = march 30 23 0"
  by (simp_all add: azores_def march_def civil_time_def day_number_def days_before_year_def month_lengths_def
      leap_def daySeconds_def time_In_def date_midnight_def date_days_def Let_def)

lemma march_fields:
  assumes "d \<in> {30, 31}" and "h \<in> {0, 9, 23}"
  shows "time_Date (march d h 0) = (2024, 3, d)" "time_Day (march d h 0) = d"
    "time_Hour (march d h 0) = h" "time_Minute (march d h 0) = 0"
proof -
  have "valid_date 2024 3 d" using assms by (auto simp: valid_date_def days_in_month_def month_lengths_def)
  from civil_day_number [OF this] assms civil_time_fields [of h 0 "day_number 2024 3 d"]
  show date: "time_Date (march d h 0) = (2024, 3, d)" and "time_Hour (march d h 0) = h" "time_Minute (march d h 0) = 0"
    by (auto simp: march_def time_Date_def)
  then show "time_Day (march d h 0) = d" by (simp add: time_Day_def)
qed

text \<open>
  Where daylight saving skips the midnight of a month's last day in a zone west of
  Greenwich, a last-day schedule fires a day early: in the Azores in March 2024 it matches
  09:00 of the 30th and not 09:00 of the 31st, although March has 31 days.
\<close>
theorem last_day_misfires:
  "rule_matches (LastDayOfMonth (At24 9 [])) azores (march 30 10 0)
   \<and> time_Date (time_In azores (march 30 10 0)) = (2024, 3, 30)
   \<and> \<not> rule_matches (LastDayOfMonth (At24 9 [])) azores (march 31 9 0)
   \<and> time_Date (time_In azores (march 31 9 0)) = (2024, 3, 31)
   \<and> time_Hour (time_In azores (march 31 9 0)) = 9 \<and> time_Minute (time_In azores (march 31 9 0)) = 0
   \<and> days_in_month 2024 3 = 31"
  by (simp add: rule_matches_def matcher_def LastDayOfMonth_def zeroRule_def At24_def validateClockInput_def
      matchesAt_def lastDay_def march_readings march_fields days_in_month_def month_lengths_def leap_def Let_def)

end
