(* ===== verification/Cron_Cursor.thy ===== *)
theory Cron_Cursor
  imports Cron_Lease Cron_Times
begin

text \<open>
  The scheduling cursor of the store of \<^verbatim>\<open>pkg/cron/store.go\<close>: no occurrence is lost or
  recorded twice, abandoned occurrences are found and taken over, and a restart with the same
  declarations leaves every job as it was.
\<close>

subsection \<open>The cursor\<close>

definition follows :: "CronLib \<Rightarrow> JobState \<Rightarrow> time \<Rightarrow> time \<Rightarrow> bool" where
  "follows lib s t t' \<longleftrightarrow> validateScheduleAdvance lib s t t' = None"

lemma follows_iff:
  "follows lib s t t' \<longleftrightarrow> (\<exists>sch. ScheduleFromDefinition lib (jd_Schedule (js_Definition s)) = Inr sch
     \<and> Schedule_Next lib sch t = Inr t')"
  by (auto simp: follows_def validateScheduleAdvance_def split: sum.splits if_splits)

lemma validateClaim_ok:
  "validateClaim digest r = None \<Longrightarrow> cl_OccurrenceID r = OccurrenceID digest (cl_JobName r) (cl_ScheduledAt r)
     \<and> cl_ScheduledAt r < cl_NextRunAt r"
  by (auto simp: validateClaim_def split: if_splits)

lemma validateSkip_ok:
  "validateSkip digest r = None \<Longrightarrow> sk_OccurrenceID r = OccurrenceID digest (sk_JobName r) (sk_ScheduledAt r)
     \<and> sk_ScheduledAt r < sk_NextRunAt r"
  by (auto simp: validateSkip_def split: if_splits)

text \<open>An operation records the occurrence at the cursor and moves the cursor to the next one.\<close>

definition records_at_cursor ::
  "CronLib \<Rightarrow> (string \<Rightarrow> string) \<Rightarrow> MemoryStore \<Rightarrow> MemoryStore \<Rightarrow> string \<Rightarrow> OccurrenceRecord \<Rightarrow> bool" where
  "records_at_cursor lib digest st st' k r \<longleftrightarrow>
     (\<exists>s s'. map_of (ms_jobs st) (oc_JobName r) = Some s \<and> map_of (ms_jobs st') (oc_JobName r) = Some s'
        \<and> oc_ScheduledAt r = js_NextRunAt s \<and> k = OccurrenceID digest (oc_JobName r) (js_NextRunAt s)
        \<and> follows lib s (js_NextRunAt s) (js_NextRunAt s'))"

lemma records_at_cursorI:
  assumes "map_of (ms_jobs st) j = Some s" and "oc_JobName r = j" and "oc_ScheduledAt r = js_NextRunAt s"
    and "k = OccurrenceID digest j (js_NextRunAt s)" and "js_NextRunAt s < n" and "follows lib s (js_NextRunAt s) n"
    and "ms_jobs st0 = ms_jobs st"
  shows "records_at_cursor lib digest st (advanceLocked j n u st0) k r"
proof -
  have "map_of (ms_jobs st0) j = Some s" using assms(1,7) by simp
  from advance_job [OF this, of n u j] assms show ?thesis by (auto simp: records_at_cursor_def)
qed

lemma Claim_records:
  assumes "map_of (ms_occurrences st) k = None"
    and "map_of (ms_occurrences (fst (Store_Claim lib digest c q st))) k = Some r"
  shows "records_at_cursor lib digest st (fst (Store_Claim lib digest c q st)) k r"
proof (cases rule: Claim_cases [of lib digest c q st])
  case (answered s st' d e)
  then have v: "map_of (ms_jobs st) (cl_JobName q) = Some s" "follows lib s (cl_ScheduledAt q) (cl_NextRunAt q)"
    and w: "cl_OccurrenceID q = OccurrenceID digest (cl_JobName q) (cl_ScheduledAt q)" "cl_ScheduledAt q < cl_NextRunAt q"
    using validateClaim_ok [of digest q] by (auto simp: claim_checked_def follows_def)
  have st': "fst (Store_Claim lib digest c q st) = st'" using answered(1) by simp
  note new = assms [unfolded st']
  from answered(3) have "records_at_cursor lib digest st st' k r"
  proof cases
    case overlapped
    with new have "k = cl_OccurrenceID q" "r = e" by (auto simp: update_conv' split: if_splits)
    with overlapped v w show ?thesis by (auto simp: skipped_record_def intro!: records_at_cursorI)
  next
    case granted
    with new have "k = cl_OccurrenceID q" "r = e" by (auto simp: update_conv' split: if_splits)
    with granted v w show ?thesis by (auto simp: first_claim_def intro!: records_at_cursorI)
  qed (use new in \<open>auto simp: update_conv' split: if_splits\<close>)
  with st' show ?thesis by simp
qed (use assms in simp)

lemma Skip_answered:
  assumes "Store_Skip lib digest c q st = (st', None)" and "map_of (ms_occurrences st) (sk_OccurrenceID q) = None"
    and "map_of (ms_jobs st) (sk_JobName q) = Some s"
  shows "validateSkip digest q = None \<and> follows lib s (sk_ScheduledAt q) (sk_NextRunAt q)"
  using assms by (auto simp: Store_Skip_def Let_def follows_def split: option.splits)

lemma Skip_records:
  assumes "map_of (ms_occurrences st) k = None"
    and "map_of (ms_occurrences (fst (Store_Skip lib digest c q st))) k = Some r"
  shows "records_at_cursor lib digest st (fst (Store_Skip lib digest c q st)) k r"
proof (cases rule: Skip_cases [of lib digest c q st])
  case (answered s st')
  then have st': "fst (Store_Skip lib digest c q st) = st'" by simp
  note new = assms [unfolded st']
  from answered(3) have "records_at_cursor lib digest st st' k r"
  proof cases
    case passed_over
    let ?e = "skipped_record (sk_OccurrenceID q) (sk_JobName q) (sk_ScheduledAt q) (sk_SkippedAt q) (sk_Reason q)"
    have "k = sk_OccurrenceID q" "r = ?e"
      using passed_over new by (auto simp: update_conv' split: if_splits)
    with passed_over Skip_answered [OF answered(1) _ answered(2)] validateSkip_ok [of digest q] answered(2)
    show ?thesis by (auto simp: skipped_record_def intro!: records_at_cursorI)
  qed (use new in \<open>auto simp: update_conv' split: if_splits\<close>)
  with st' show ?thesis by simp
qed (use assms in simp)

lemma step_records:
  assumes "map_of (ms_occurrences st) k = None"
    and "map_of (ms_occurrences (store_step lib digest (c, p) st)) k = Some r"
  shows "records_at_cursor lib digest st (store_step lib digest (c, p) st) k r"
proof (cases p)
  case (DoRenew n)
  have "map_of (ms_occurrences (fst (Store_Renew c n st))) k = None"
    using assms(1) by (auto simp: Store_Renew_def update_conv' split: option.split)
  with assms(2) show ?thesis by (simp add: DoRenew)
next
  case (DoComplete m)
  have "map_of (ms_occurrences (fst (Store_Complete c m st))) k = None"
    using assms(1) by (auto simp: Store_Complete_def update_conv' split: option.split)
  with assms(2) show ?thesis by (simp add: DoComplete)
next
  case (DoClaim q)
  with assms show ?thesis by (simp add: Claim_records)
next
  case (DoSkip q)
  with assms show ?thesis by (simp add: Skip_records)
qed (use assms Reconcile_occurrences in simp)


subsection \<open>Abandoned occurrences\<close>

definition abandoned :: "MemoryStore \<Rightarrow> time \<Rightarrow> OccurrenceRecord \<Rightarrow> bool" where
  "abandoned st now r \<longleftrightarrow> (\<exists>k. map_of (ms_occurrences st) k = Some r) \<and> oc_Status r = OccurrenceRunning
     \<and> \<not> durablyAfter (oc_LeaseUntil r) now \<and> map_of (ms_jobs st) (oc_JobName r) \<noteq> None"

definition abandon_order :: "OccurrenceRecord \<Rightarrow> time \<times> time \<times> string" where
  "abandon_order r = (oc_LeaseUntil r, oc_ScheduledAt r, oc_ID r)"

text \<open>
  The expired query answers with abandoned occurrences only, at most the limit of them,
  ordered by the end of the lease, the scheduled instant and the identity; every abandoned
  occurrence is in the answer unless the limit is reached, and then none of those left out
  comes before one of the answer.
\<close>
theorem expired_exact:
  assumes wf: "wf_store st" and ok: "Store_Expired c now limit st = Inr rs"
  shows "(\<forall>r \<in> set rs. abandoned st now r) \<and> sorted (map abandon_order rs) \<and> distinct rs
    \<and> length rs \<le> nat limit
    \<and> (\<forall>r. abandoned st now r \<longrightarrow> r \<notin> set rs \<longrightarrow> length rs = nat limit \<and> (\<forall>q \<in> set rs. abandon_order q \<le> abandon_order r))"
proof -
  define fs where "fs = filter (\<lambda>o'. \<not> (oc_Status o' \<noteq> OccurrenceRunning \<or> durablyAfter (oc_LeaseUntil o') now)
      \<and> map_of (ms_jobs st) (oc_JobName o') \<noteq> None) (map snd (ms_occurrences st))"
  let ?all = "sort_key abandon_order fs"
  have rs: "rs = take (nat limit) ?all"
    using ok by (auto simp: Store_Expired_def fs_def abandon_order_def [abs_def] split: option.splits if_splits)
  have keys: "map_of (ms_occurrences st) k = Some r \<longleftrightarrow> (k, r) \<in> set (ms_occurrences st)" for k r
    using wf by (simp add: wf_store_def)
  have all: "set ?all = {r. abandoned st now r}"
    by (auto simp: fs_def abandoned_def keys) force
  have ids: "oc_ID r = k" if "(k, r) \<in> set (ms_occurrences st)" for k r
    using wf that keys by (auto simp: wf_store_def)
  have eq: "map oc_ID (map snd (ms_occurrences st)) = map fst (ms_occurrences st)"
    using ids by auto
  have "distinct (map oc_ID (map snd (ms_occurrences st)))"
    using wf unfolding eq by (simp add: wf_store_def)
  then have "distinct (map snd (ms_occurrences st))" unfolding distinct_map by blast
  then have dist: "distinct ?all" by (simp add: fs_def)
  have sorted: "sorted (map abandon_order ?all)" by simp
  have "length rs = nat limit \<and> (\<forall>q \<in> set rs. abandon_order q \<le> abandon_order r)" if "abandoned st now r" "r \<notin> set rs" for r
  proof -
    have "r \<in> set (drop (nat limit) ?all)"
      using that all rs by (metis (no_types, lifting) Un_iff append_take_drop_id mem_Collect_eq set_append)
    moreover have "sorted (map abandon_order (take (nat limit) ?all) @ map abandon_order (drop (nat limit) ?all))"
      using sorted by (simp only: map_append [symmetric] append_take_drop_id)
    moreover have "nat limit < length ?all"
      using calculation(1) by (metis drop_all emptyE empty_set linorder_not_le)
    ultimately show ?thesis by (auto simp: rs sorted_append)
  qed
  moreover have "set rs \<subseteq> set ?all" unfolding rs by (rule set_take_subset)
  moreover have "sorted (map abandon_order rs)" unfolding rs take_map [symmetric] using sorted by (rule sorted_wrt_take)
  moreover have "distinct rs" using dist by (simp add: rs)
  ultimately show ?thesis using all rs by auto
qed

subsection \<open>Restarts\<close>

lemma FromDefinition_Inr:
  assumes "ScheduleFromDefinition lib d = Inr s"
  obtains l rule can where "sd_Timezone d \<noteq> []" "lib_LoadLocation lib (sd_Timezone d) = Inr l"
    "definition_rule d = Inr rule" "Canonical lib s = Inr can" "sd_Canonical d = [] \<or> sd_Canonical d = can"
    "s = (if sd_HasAnchor d then Schedule_Anchor (sd_Anchor d) (Schedule_In (Some l) (Spec rule))
          else Schedule_In (Some l) (Spec rule))" "Schedule_Validate lib s = None"
  using assms
  by (auto simp: ScheduleFromDefinition_def Let_def and_then_Inr split: if_splits sum.splits option.splits)

lemma FromDefinitionI:
  assumes "sd_Timezone d \<noteq> []" "lib_LoadLocation lib (sd_Timezone d) = Inr l" "definition_rule d = Inr rule"
    "s = (if sd_HasAnchor d then Schedule_Anchor (sd_Anchor d) (Schedule_In (Some l) (Spec rule))
          else Schedule_In (Some l) (Spec rule))"
    "Schedule_Validate lib s = None" "Canonical lib s = Inr can" "sd_Canonical d = [] \<or> sd_Canonical d = can"
  shows "ScheduleFromDefinition lib d = Inr s"
  using assms by (auto simp: ScheduleFromDefinition_def Let_def and_then_Inr)

definition anchored_definition :: "time \<Rightarrow> ScheduleDefinition \<Rightarrow> ScheduleDefinition" where
  "anchored_definition t d = d\<lparr>sd_Anchor := t, sd_HasAnchor := True\<rparr>"

lemma anchored_definition_sel [simp]:
  "sd_Kind (anchored_definition t d) = sd_Kind d" "sd_Timezone (anchored_definition t d) = sd_Timezone d"
  "sd_Canonical (anchored_definition t d) = sd_Canonical d" "sd_Interval (anchored_definition t d) = sd_Interval d"
  "sd_Anchor (anchored_definition t d) = t" "sd_HasAnchor (anchored_definition t d)"
  by (simp_all add: anchored_definition_def)

lemma anchored_definition_rule [simp]: "definition_rule (anchored_definition t d) = definition_rule d"
  by (simp add: definition_rule_def Let_def anchored_definition_def)

lemma anchored_reads:
  assumes "ScheduleFromDefinition lib d = Inr s" and "\<not> sd_HasAnchor d"
    and "Schedule_Validate lib (Schedule_Anchor b s) = None"
  shows "ScheduleFromDefinition lib (anchored_definition b d) = Inr (Schedule_Anchor b s)"
  using assms(1)
proof (rule FromDefinition_Inr)
  fix l rule can
  assume h: "sd_Timezone d \<noteq> []" "lib_LoadLocation lib (sd_Timezone d) = Inr l" "definition_rule d = Inr rule"
    "Canonical lib s = Inr can" "sd_Canonical d = [] \<or> sd_Canonical d = can"
    "s = (if sd_HasAnchor d then Schedule_Anchor (sd_Anchor d) (Schedule_In (Some l) (Spec rule))
          else Schedule_In (Some l) (Spec rule))" "Schedule_Validate lib s = None"
  have "Canonical lib (Schedule_Anchor b s) = Inr can"
    using h(4,7) assms(3) by (simp add: Canonical_def Schedule_Anchor_def)
  then show ?thesis
    using h assms(2,3) by (intro FromDefinitionI [where l = l and rule = rule and can = can]) simp_all
qed

lemma anchored_definition_of:
  assumes "Schedule_Definition lib s = Inr d" and "Schedule_Validate lib (Schedule_Anchor b s) = None"
  shows "Schedule_Definition lib (Schedule_Anchor b s) = Inr (anchored_definition (time_Truncate 1000 b) d)"
proof -
  have v: "Schedule_Validate lib s = None" using assms(1) by (simp add: Schedule_Definition_def split: option.splits)
  have "Canonical lib (Schedule_Anchor b s) = Canonical lib s"
    using v assms(2) by (simp add: Canonical_def Schedule_Anchor_def)
  then show ?thesis
    using assms v by (auto simp: Schedule_Definition_def Let_def and_then_Inr anchored_definition_def Schedule_Anchor_def)
qed

lemma Schedule_Anchor_Truncate [simp]: "Schedule_Anchor (time_Truncate 1000 b) s = Schedule_Anchor b s"
  by (simp add: Schedule_Anchor_def)

text \<open>The definitions that a store keeps for a declaration: its own, or its own anchored.\<close>

definition stored_form :: "CronLib \<Rightarrow> Schedule \<Rightarrow> JobDefinition \<Rightarrow> JobDefinition \<Rightarrow> bool" where
  "stored_form lib s1 d D \<longleftrightarrow>
     (if sd_Kind (jd_Schedule d) = ScheduleKindEvery \<and> \<not> sd_HasAnchor (jd_Schedule d)
      then \<exists>b. D = d\<lparr>jd_Schedule := anchored_definition (time_Truncate 1000 b) (jd_Schedule d)\<rparr>
             \<and> Schedule_Validate lib (Schedule_Anchor b s1) = None
      else D = d)"

lemma normalized_parts:
  assumes "normalizedDefinition lib i now = Inr (D, sch)"
  obtains s0 sd where "validateJobName (jd_Name i) = None" "CatchUpPolicy_valid (jd_CatchUp i)" "OverlapPolicy_valid (jd_Overlap i)"
    "ScheduleFromDefinition lib (jd_Schedule i) = Inr s0"
    "sch = (if sd_Kind (jd_Schedule i) = ScheduleKindEvery \<and> \<not> sd_HasAnchor (jd_Schedule i) then Schedule_Anchor now s0 else s0)"
    "Schedule_Definition lib sch = Inr sd" "D = i\<lparr>jd_Schedule := sd\<rparr>"
  using assms by (auto simp: normalizedDefinition_def Let_def split: option.splits sum.splits if_splits)

lemma Definition_valid: "Schedule_Definition lib s = Inr d \<Longrightarrow> Schedule_Validate lib s = None"
  by (simp add: Schedule_Definition_def split: option.splits)

lemma preserve_cases:
  "preserveIntervalAnchor d x = d \<or>
   preserveIntervalAnchor d x = d\<lparr>jd_Schedule := anchored_definition (sd_Anchor (jd_Schedule x)) (jd_Schedule d)\<rparr>"
  by (simp add: preserveIntervalAnchor_def Let_def anchored_definition_def)

lemma normalized_stored:
  assumes r: "ScheduleFromDefinition lib (jd_Schedule d) = Inr s1" "Schedule_Definition lib s1 = Inr (jd_Schedule d)"
    and i: "i = d \<or> i = preserveIntervalAnchor d x"
    and n: "normalizedDefinition lib i now = Inr (D, sch)"
  shows "stored_form lib s1 d D"
proof -
  from n obtain s0 sd where
    h: "ScheduleFromDefinition lib (jd_Schedule i) = Inr s0"
      "sch = (if sd_Kind (jd_Schedule i) = ScheduleKindEvery \<and> \<not> sd_HasAnchor (jd_Schedule i) then Schedule_Anchor now s0 else s0)"
      "Schedule_Definition lib sch = Inr sd" "D = i\<lparr>jd_Schedule := sd\<rparr>"
    by (rule normalized_parts)
  show ?thesis
  proof (cases "sd_Kind (jd_Schedule d) = ScheduleKindEvery \<and> \<not> sd_HasAnchor (jd_Schedule d)")
    case False
    then have "i = d" using i by (auto simp: preserveIntervalAnchor_def Let_def)
    with h r False show ?thesis by (auto simp: stored_form_def)
  next
    case True
    have "i = d \<or> (\<exists>a. i = d\<lparr>jd_Schedule := anchored_definition a (jd_Schedule d)\<rparr>)"
      using i preserve_cases [of d x] by metis
    then show ?thesis
    proof (elim disjE exE)
      assume "i = d"
      with h r True have sch: "sch = Schedule_Anchor now s1" and D: "D = d\<lparr>jd_Schedule := sd\<rparr>"
        and sd: "Schedule_Definition lib (Schedule_Anchor now s1) = Inr sd" by auto
      note v = Definition_valid [OF sd]
      from anchored_definition_of [OF r(2) v] sd D v True show ?thesis by (auto simp: stored_form_def)
    next
      fix a
      assume ia: "i = d\<lparr>jd_Schedule := anchored_definition a (jd_Schedule d)\<rparr>"
      have s0: "s0 = Schedule_Anchor a s1"
        using h(1) r(1) True by (auto simp: ia elim!: FromDefinition_Inr)
      have sch: "sch = s0" using h(2) by (simp add: ia)
      have sd: "Schedule_Definition lib (Schedule_Anchor a s1) = Inr sd" using h(3) s0 sch by simp
      note v = Definition_valid [OF sd]
      from anchored_definition_of [OF r(2) v] sd h(4) v True ia show ?thesis by (auto simp: stored_form_def)
    qed
  qed
qed

lemma stored_again:
  assumes r: "ScheduleFromDefinition lib (jd_Schedule d) = Inr s1" "Schedule_Definition lib s1 = Inr (jd_Schedule d)"
    and f: "stored_form lib s1 d D"
    and ok: "validateJobName (jd_Name d) = None" "CatchUpPolicy_valid (jd_CatchUp d)" "OverlapPolicy_valid (jd_Overlap d)"
  shows "\<exists>sch. normalizedDefinition lib (preserveIntervalAnchor d D) now = Inr (D, sch)"
proof (cases "sd_Kind (jd_Schedule d) = ScheduleKindEvery \<and> \<not> sd_HasAnchor (jd_Schedule d)")
  case False
  with f have "D = d" by (auto simp: stored_form_def)
  moreover have "preserveIntervalAnchor d d = d" by (auto simp: preserveIntervalAnchor_def Let_def)
  ultimately show ?thesis using r ok False by (auto simp: normalizedDefinition_def)
next
  case True
  with f obtain b where D: "D = d\<lparr>jd_Schedule := anchored_definition (time_Truncate 1000 b) (jd_Schedule d)\<rparr>"
    and v: "Schedule_Validate lib (Schedule_Anchor b s1) = None" by (auto simp: stored_form_def)
  have p: "preserveIntervalAnchor d D = D"
    using True by (simp add: D preserveIntervalAnchor_def Let_def) (simp add: anchored_definition_def)
  have "ScheduleFromDefinition lib (jd_Schedule D) = Inr (Schedule_Anchor b s1)"
    using anchored_reads [OF r(1) _, of "time_Truncate 1000 b"] True v by (simp add: D)
  moreover have "Schedule_Definition lib (Schedule_Anchor b s1) = Inr (jd_Schedule D)"
    using anchored_definition_of [OF r(2) v] by (simp add: D)
  moreover have "D\<lparr>jd_Schedule := jd_Schedule D\<rparr> = D" by simp
  ultimately show ?thesis using ok by (simp add: p normalizedDefinition_def) (simp add: D)
qed

text \<open>
  A restart changes nothing. If a store once reconciled the declaration of a valid schedule,
  then reconciling the same declaration later, after any claims and skips, leaves the job exactly
  as it is: its cursor, its times and, for an interval, the anchor and so the cadence.
\<close>
theorem restart_keeps_job:
  assumes s: "built_schedule s" "Schedule_Validate lib s = None"
    and l: "sc_location s = Some l" "loc_String l \<noteq> []" "lib_LoadLocation lib (loc_String l) = Inr l"
    and d: "Schedule_Definition lib s = Inr (jd_Schedule d)"
    and first: "reconcile_one lib st now d = Inr e"
    and stored: "map_of (ms_jobs st') (jd_Name d) = Some e'" "js_Definition e' = js_Definition e" "js_NextRunAt e' \<noteq> 0"
  shows "reconcile_one lib st' now' d = Inr e'"
proof -
  obtain sd where "Schedule_Definition lib s = Inr sd"
    and r: "ScheduleFromDefinition lib sd = Inr (s\<lparr>sc_rule := normal_rule (sc_rule s)\<rparr>)"
      "Schedule_Definition lib (s\<lparr>sc_rule := normal_rule (sc_rule s)\<rparr>) = Inr sd"
    by (rule reads_back [OF s l])
  with d have "sd = jd_Schedule d" by simp
  note r = r [unfolded this]
  let ?i = "case map_of (ms_jobs st) (jd_Name d) of Some x \<Rightarrow> preserveIntervalAnchor d (js_Definition x) | None \<Rightarrow> d"
  obtain sch where n: "normalizedDefinition lib ?i now = Inr (js_Definition e, sch)"
    using first unfolding reconcile_one_def Let_def
    by (cases "normalizedDefinition lib ?i now") (auto split: option.splits sum.splits if_splits)
  have "?i = d \<or> (\<exists>x. ?i = preserveIntervalAnchor d x)" by (auto split: option.split)
  then have f: "stored_form lib (s\<lparr>sc_rule := normal_rule (sc_rule s)\<rparr>) d (js_Definition e)"
    using normalized_stored [OF r _ n] by blast
  have ok: "validateJobName (jd_Name d) = None" "CatchUpPolicy_valid (jd_CatchUp d)" "OverlapPolicy_valid (jd_Overlap d)"
    using n by (auto elim!: normalized_parts split: option.splits)
  obtain sch' where "normalizedDefinition lib (preserveIntervalAnchor d (js_Definition e)) now' = Inr (js_Definition e, sch')"
    using stored_again [OF r f ok] by blast
  with stored show ?thesis by (simp add: reconcile_one_def IsZero_def)
qed

end
