(* ===== verification/Cron_Demo.thy ===== *)
theory Cron_Demo
  imports Cron_Cursor
begin

text \<open>
  A concrete store: one hourly job, its first occurrence claimed. The theorems on the store
  are applied to it, so their hypotheses can hold together.
\<close>

definition demo_sd :: ScheduleDefinition where
  "demo_sd = \<lparr>sd_Kind = ScheduleKindEvery, sd_Timezone = ''UTC'', sd_Canonical = ''@every 1h0m0s'', sd_Hour = 0,
     sd_Minute = 0, sd_Weekday = 0, sd_MonthDay = 0, sd_Interval = 60 * minute, sd_Anchor = 0, sd_HasAnchor = False\<rparr>"

definition demo_job :: JobDefinition where
  "demo_job = \<lparr>jd_Name = ''tick'', jd_Schedule = demo_sd, jd_CatchUp = CatchUpNone, jd_Overlap = OverlapSkip\<rparr>"

abbreviation demo_t :: "int \<Rightarrow> time" where
  "demo_t n \<equiv> (unixEpoch + n) * second"

definition demo_anchored :: JobDefinition where
  "demo_anchored = demo_job\<lparr>jd_Schedule := demo_sd\<lparr>sd_Anchor := demo_t 0, sd_HasAnchor := True\<rparr>\<rparr>"

definition demo_state :: JobState where
  "demo_state = \<lparr>js_Definition = demo_anchored, js_NextRunAt = demo_t 3600, js_CreatedAt = demo_t 0, js_UpdatedAt = demo_t 0\<rparr>"

lemma canonical_hourly: "''@every '' @ duration_String (60 * minute) = ''@every 1h0m0s''"
  by (simp add: duration_String_def fmtFrac_def show_int_def show_nat.simps digit_char_def pad0_def)

lemma demo_definition: "Schedule_Definition demo_lib demo_hourly = Inr demo_sd"
proof -
  have "Canonical demo_lib demo_hourly = Inr ''@every 1h0m0s''"
    using canonical_hourly
    by (simp add: Canonical_def demo_valid) (simp add: canonical_rule_def demo_hourly_def Spec_def Every_def Let_def)
  then show ?thesis
    by (simp add: Schedule_Definition_def demo_valid Let_def demo_sd_def)
      (simp add: demo_hourly_def Spec_def Every_def zeroRule_def zeroTimeOfDay_def UTC_def kind_string_def)
qed

lemma demo_reads:
  "ScheduleFromDefinition demo_lib demo_sd = Inr demo_hourly"
  "Schedule_Validate demo_lib (Schedule_Anchor (demo_t 0) demo_hourly) = None"
proof -
  have n: "demo_hourly\<lparr>sc_rule := normal_rule (sc_rule demo_hourly)\<rparr> = demo_hourly"
    by (simp add: demo_hourly_def Spec_def normal_rule_def Every_def)
  have b: "built_schedule demo_hourly" unfolding demo_hourly_def by (intro built_spec built_every)
  obtain d where "Schedule_Definition demo_lib demo_hourly = Inr d"
    "ScheduleFromDefinition demo_lib d = Inr (demo_hourly\<lparr>sc_rule := normal_rule (sc_rule demo_hourly)\<rparr>)"
    by (rule reads_back [OF b demo_valid(2), of UTC]) (auto simp: demo_hourly_def Spec_def UTC_def demo_lib_def)
  then show "ScheduleFromDefinition demo_lib demo_sd = Inr demo_hourly" using demo_definition n by simp
  show "Schedule_Validate demo_lib (Schedule_Anchor (demo_t 0) demo_hourly) = None"
    by (simp add: Schedule_Validate_def demo_lib_def demo_hourly_def Schedule_Anchor_def Spec_def UTC_def Every_def
        zeroRule_def bad_interval_def IsZero_def time_Truncate_def unixEpoch_def)
qed

lemma demo_anchor: "time_Truncate 1000 (demo_t n) = demo_t n"
proof -
  have "demo_t n = 1000 * (1000000 * (unixEpoch + n))" by simp
  then have "demo_t n mod 1000 = 0" by (metis mod_mult_self1_is_0)
  then show ?thesis by (simp add: time_Truncate_def)
qed

lemma demo_anchored_reads:
  "ScheduleFromDefinition demo_lib (jd_Schedule demo_anchored) = Inr (Schedule_Anchor (demo_t 0) demo_hourly)"
  using anchored_reads [OF demo_reads(1) _ demo_reads(2)]
  by (simp add: demo_anchored_def anchored_definition_def demo_sd_def)

lemma demo_next: "Schedule_Next demo_lib (Schedule_Anchor (demo_t 0) demo_hourly) (demo_t (3600 * int k)) = Inr (demo_t (3600 * int k + 3600))"
  if "k < 10"
proof -
  have "every_next (demo_t 0) (60 * minute) (demo_t (3600 * int k)) = demo_t (3600 * int k + 3600)"
    using that by (simp add: every_next_def time_Sub_def minDuration_def maxDuration_def wrap_int64_def algebra_simps)
  then show ?thesis
    using demo_reads(2) demo_anchor [of 0]
    by (simp add: Schedule_Next_def Schedule_Anchor_def demo_hourly_def Spec_def Every_def zeroRule_def)
qed

subsection \<open>The store and its first claim\<close>

definition demo_digest :: "string \<Rightarrow> string" where
  "demo_digest s = s"

definition demo_store :: MemoryStore where
  "demo_store = \<lparr>ms_jobs = [(''tick'', demo_state)], ms_occurrences = []\<rparr>"

lemma demo_normalized:
  "normalizedDefinition demo_lib demo_job (demo_t 0) = Inr (demo_anchored, Schedule_Anchor (demo_t 0) demo_hourly)"
  using demo_reads(1) anchored_definition_of [OF demo_definition demo_reads(2)] demo_anchor [of 0]
  by (simp add: normalizedDefinition_def demo_job_def validateJobName_def name_char_def CatchUpPolicy_valid_def
      OverlapPolicy_valid_def demo_anchored_def anchored_definition_def)
    (simp add: demo_sd_def)

lemma demo_one: "reconcile_one demo_lib NewMemoryStore (demo_t 0) demo_job = Inr demo_state"
  using demo_normalized demo_next [of 0]
  by (simp add: reconcile_one_def NewMemoryStore_def demo_state_def)

lemma demo_reconcile:
  "store_step demo_lib demo_digest (LiveContext, DoReconcile [demo_job] (demo_t 0)) NewMemoryStore = demo_store"
  using demo_one
  by (simp add: Store_Reconcile_def IsZero_def unixEpoch_def)
    (simp add: demo_store_def NewMemoryStore_def demo_job_def Let_def)

definition demo_claim :: "string \<Rightarrow> int \<Rightarrow> ClaimRequest" where
  "demo_claim token n =
     \<lparr>cl_OccurrenceID = OccurrenceID demo_digest ''tick'' (demo_t 3600), cl_JobName = ''tick'',
      cl_ScheduledAt = demo_t 3600, cl_NextRunAt = demo_t 7200, cl_LeaseOwner = ''runner'', cl_LeaseToken = token,
      cl_ClaimedAt = demo_t n, cl_LeaseUntil = demo_t (n + 30)\<rparr>"

abbreviation demo_key :: string where
  "demo_key \<equiv> OccurrenceID demo_digest ''tick'' (demo_t 3600)"

lemma demo_durably: "durablyAfter (demo_t m) (demo_t n) \<longleftrightarrow> n < m"
  by (simp only: durablyAfter_def demo_anchor) simp

lemma demo_checked:
  assumes "map_of (ms_jobs st) ''tick'' = Some s" "js_Definition s = demo_anchored" "token \<in> {''t1'', ''t2'', ''lease_00''}" "0 \<le> n"
  shows "claim_checked demo_lib demo_digest LiveContext (demo_claim token n) st s"
proof -
  have "follows demo_lib s (demo_t 3600) (demo_t 7200)"
    using demo_anchored_reads demo_next [of 1] assms(2) by (auto simp: follows_iff)
  moreover have "demo_key \<noteq> []" by (simp add: OccurrenceID_def)
  ultimately show ?thesis
    using assms demo_durably [of "n + 30" n]
    by (auto simp: claim_checked_def demo_claim_def validateClaim_def follows_def maxLeaseOwnerBytes_def maxLeaseTokenBytes_def
        IsZero_def unixEpoch_def)
qed

definition demo_claimed :: MemoryStore where
  "demo_claimed = \<lparr>ms_jobs = [(''tick'', demo_state\<lparr>js_NextRunAt := demo_t 7200, js_UpdatedAt := demo_t 3601\<rparr>)],
                   ms_occurrences = [(demo_key, first_claim (demo_claim ''t1'' 3601))]\<rparr>"

lemma demo_first:
  "Store_Claim demo_lib demo_digest LiveContext (demo_claim ''t1'' 3601) demo_store =
     (demo_claimed, Inr \<lparr>cr_Disposition = ClaimAcquired, cr_Occurrence = first_claim (demo_claim ''t1'' 3601)\<rparr>)"
proof -
  have "claim_checked demo_lib demo_digest LiveContext (demo_claim ''t1'' 3601) demo_store demo_state"
    by (rule demo_checked) (simp_all add: demo_store_def demo_state_def)
  then show ?thesis unfolding claim_checked_def
    by (simp add: Store_Claim_def Let_def)
      (simp add: demo_store_def demo_claim_def demo_state_def demo_claimed_def advanceLocked_def put_occurrence_def map_get_def)
qed

lemma demo_fresh:
  assumes "token \<in> {''t1'', ''t2'', ''lease_00''}" and "0 \<le> n"
  shows "\<exists>st'. Store_Claim demo_lib demo_digest LiveContext (demo_claim token n) demo_store =
     (st', Inr \<lparr>cr_Disposition = ClaimAcquired, cr_Occurrence = first_claim (demo_claim token n)\<rparr>)"
proof -
  have "claim_checked demo_lib demo_digest LiveContext (demo_claim token n) demo_store demo_state"
    by (rule demo_checked) (use assms in \<open>simp_all add: demo_store_def demo_state_def\<close>)
  then show ?thesis unfolding claim_checked_def
    by (simp add: Store_Claim_def Let_def) (simp add: demo_store_def demo_claim_def demo_state_def)
qed

lemma demo_run: "store_run demo_lib demo_digest
    [(LiveContext, DoReconcile [demo_job] (demo_t 0)), (LiveContext, DoClaim (demo_claim ''t1'' 3601))] NewMemoryStore = demo_claimed"
  using demo_reconcile demo_first by simp

lemma demo_wf: "wf_store demo_claimed" "wf_store demo_store"
proof -
  show "wf_store demo_claimed" unfolding demo_run [symmetric] by (rule wf_run) simp
  show "wf_store demo_store" by (simp add: wf_store_def demo_store_def)
qed

text \<open>The lease of the first claim has run out; a second scheduler takes the occurrence over.\<close>

definition demo_taken :: MemoryStore where
  "demo_taken = fst (Store_Claim demo_lib demo_digest LiveContext (demo_claim ''t2'' 3700) demo_claimed)"

lemma demo_second:
  "Store_Claim demo_lib demo_digest LiveContext (demo_claim ''t2'' 3700) demo_claimed =
     (demo_taken, Inr \<lparr>cr_Disposition = ClaimAcquired,
        cr_Occurrence = reclaimed (demo_claim ''t2'' 3700) (first_claim (demo_claim ''t1'' 3601))\<rparr>)"
proof -
  have "claim_checked demo_lib demo_digest LiveContext (demo_claim ''t2'' 3700) demo_claimed
      (demo_state\<lparr>js_NextRunAt := demo_t 7200, js_UpdatedAt := demo_t 3601\<rparr>)"
    by (rule demo_checked) (simp_all add: demo_claimed_def demo_state_def)
  moreover have "cl_OccurrenceID (demo_claim ''t2'' 3700) = demo_key" by (simp add: demo_claim_def)
  moreover have "map_of (ms_occurrences demo_claimed) demo_key = Some (first_claim (demo_claim ''t1'' 3601))"
    by (simp add: demo_claimed_def)
  moreover have "\<not> durablyAfter (oc_LeaseUntil (first_claim (demo_claim ''t1'' 3601))) (demo_t 3700)"
    using demo_durably [of 3631 3700] by (simp add: first_claim_def demo_claim_def)
  moreover have "\<not> hasLiveOverlapLocked ''tick'' demo_key (demo_t 3700) demo_claimed"
    by (simp add: hasLiveOverlapLocked_def demo_claimed_def first_claim_def demo_claim_def)
  moreover have "sameOccurrence (first_claim (demo_claim ''t1'' 3601)) ''tick'' (demo_t 3600) = None"
    "oc_Status (first_claim (demo_claim ''t1'' 3601)) = OccurrenceRunning"
    by (simp_all add: sameOccurrence_def first_claim_def demo_claim_def)
  ultimately show ?thesis unfolding claim_checked_def demo_taken_def
    by (simp add: Store_Claim_def Let_def demo_claim_def)
qed

subsection \<open>The theorems applied\<close>

theorem store_refines_leases_witness:
  "wf_store (store_step demo_lib demo_digest (LiveContext, DoClaim (demo_claim ''t2'' 3700)) demo_claimed)
   \<and> (leases (store_step demo_lib demo_digest (LiveContext, DoClaim (demo_claim ''t2'' 3700)) demo_claimed) = leases demo_claimed
      \<or> lease_step (exclusive_in demo_claimed) (op_time (DoClaim (demo_claim ''t2'' 3700))) (leases demo_claimed)
           (leases (store_step demo_lib demo_digest (LiveContext, DoClaim (demo_claim ''t2'' 3700)) demo_claimed)))"
  by (rule store_refines_leases [OF demo_wf(1)])

abbreviation demo_ops :: "(ctx \<times> store_op) list" where
  "demo_ops \<equiv> [(LiveContext, DoReconcile [demo_job] (demo_t 0)), (LiveContext, DoClaim (demo_claim ''t1'' 3601))]"

theorem one_live_lease_witness:
  "{k. \<exists>r. map_of (ms_occurrences (store_run demo_lib demo_digest demo_ops NewMemoryStore)) k = Some r
        \<and> oc_JobName r = ''tick'' \<and> oc_Status r = OccurrenceRunning \<and> durablyAfter (oc_LeaseUntil r) (demo_t 3610)}
   = {demo_key}" (is "?live = _")
proof -
  have r: "map_of (ms_occurrences (store_run demo_lib demo_digest demo_ops NewMemoryStore)) demo_key
     = Some (first_claim (demo_claim ''t1'' 3601))"
    unfolding demo_run by (simp add: demo_claimed_def)
  have f: "durablyAfter (oc_LeaseUntil (first_claim (demo_claim ''t1'' 3601))) (demo_t 3610)"
    "oc_JobName (first_claim (demo_claim ''t1'' 3601)) = ''tick''"
    "oc_Status (first_claim (demo_claim ''t1'' 3601)) = OccurrenceRunning"
    using demo_durably [of 3631 3610] by (simp_all add: first_claim_def demo_claim_def)
  have o: "sorted (map (op_time \<circ> snd) demo_ops)" "\<forall>p \<in> set demo_ops. op_time (snd p) \<le> demo_t 3610"
    "\<forall>p \<in> set demo_ops. declares_skip ''tick'' (snd p)" by (simp_all add: demo_claim_def demo_job_def)
  have "b = demo_key" if "b \<in> ?live" for b
    using that one_live_lease [OF o r _ f(2,3,1)] by blast
  moreover have "demo_key \<in> ?live" using r f by blast
  ultimately show ?thesis by blast
qed

definition demo_completion :: "string \<Rightarrow> int \<Rightarrow> Completion" where
  "demo_completion token n = \<lparr>cm_OccurrenceID = demo_key, cm_LeaseToken = token, cm_Status = OccurrenceSucceeded,
     cm_FinishedAt = demo_t n, cm_Error = []\<rparr>"

definition demo_renewal :: "string \<Rightarrow> int \<Rightarrow> LeaseRenewal" where
  "demo_renewal token n = \<lparr>rn_OccurrenceID = demo_key, rn_LeaseToken = token, rn_RenewedAt = demo_t n,
     rn_LeaseUntil = demo_t (n + 30)\<rparr>"

theorem closed_is_final_witness:
  "map_of (ms_occurrences (store_run demo_lib demo_digest [(LiveContext, DoClaim (demo_claim ''t2'' 3700))]
       (put_occurrence (completed (demo_completion ''t1'' 3610) (first_claim (demo_claim ''t1'' 3601))) demo_key demo_claimed)))
     demo_key = Some (completed (demo_completion ''t1'' 3610) (first_claim (demo_claim ''t1'' 3601)))"
proof (rule closed_is_final)
  show "wf_store (put_occurrence (completed (demo_completion ''t1'' 3610) (first_claim (demo_claim ''t1'' 3601))) demo_key demo_claimed)"
    by (rule wf_put [OF demo_wf(1) put_occurrence_occurrences(1)]) (simp add: first_claim_def demo_claim_def)
qed (simp_all add: demo_completion_def status_simps update_conv')

theorem stale_owner_fenced_witness:
  "fst (Store_Complete LiveContext (demo_completion ''t1'' 3701) demo_taken) = demo_taken
   \<and> snd (Store_Complete LiveContext (demo_completion ''t1'' 3701) demo_taken) \<noteq> None
   \<and> fst (Store_Renew LiveContext (demo_renewal ''t1'' 3701) demo_taken) = demo_taken
   \<and> snd (Store_Renew LiveContext (demo_renewal ''t1'' 3701) demo_taken) \<noteq> None"
  using stale_owner_fenced [OF demo_wf(1) demo_second, where token = "''t1''" and ops = "[]" and c' = LiveContext
      and c'' = LiveContext and m = "demo_completion ''t1'' 3701" and n = "demo_renewal ''t1'' 3701"]
  by (simp add: demo_claim_def demo_completion_def demo_renewal_def)


theorem expired_exact_witness:
  "\<exists>rs. Store_Expired LiveContext (demo_t 3700) 10 demo_claimed = Inr rs
   \<and> (\<forall>r \<in> set rs. abandoned demo_claimed (demo_t 3700) r) \<and> sorted (map abandon_order rs) \<and> distinct rs \<and> length rs \<le> nat 10
   \<and> (\<forall>r. abandoned demo_claimed (demo_t 3700) r \<longrightarrow> r \<notin> set rs
        \<longrightarrow> length rs = nat 10 \<and> (\<forall>q \<in> set rs. abandon_order q \<le> abandon_order r))"
proof -
  obtain rs where rs: "Store_Expired LiveContext (demo_t 3700) 10 demo_claimed = Inr rs"
    by (simp add: Store_Expired_def IsZero_def unixEpoch_def maxCatchUpLimit_def)
  with expired_exact [OF demo_wf(1) this] show ?thesis by blast
qed

theorem restart_keeps_job_witness:
  "reconcile_one demo_lib demo_claimed (demo_t 5000) demo_job
     = Inr (demo_state\<lparr>js_NextRunAt := demo_t 7200, js_UpdatedAt := demo_t 3601\<rparr>)"
proof (rule restart_keeps_job [OF _ demo_valid(2), of UTC _ NewMemoryStore "demo_t 0" demo_state])
  show "built_schedule demo_hourly" unfolding demo_hourly_def by (intro built_spec built_every)
  show "Schedule_Definition demo_lib demo_hourly = Inr (jd_Schedule demo_job)"
    using demo_definition by (simp add: demo_job_def)
  show "reconcile_one demo_lib NewMemoryStore (demo_t 0) demo_job = Inr demo_state" by (rule demo_one)
qed (simp_all add: demo_hourly_def Spec_def UTC_def demo_lib_def demo_claimed_def demo_job_def
      demo_state_def unixEpoch_def)

end
