(* ===== verification/Go_Utf8.thy ===== *)
theory Go_Utf8
  imports Warden_Prelude
begin

text \<open>
  The part of Go's UTF-8 that the sources use on byte strings: \<^verbatim>\<open>utf8.ValidString\<close>,
  \<^verbatim>\<open>utf8.RuneStart\<close> and \<^verbatim>\<open>strings.ToValidUTF8\<close>.
\<close>

text \<open>
  The length of the UTF-8 sequence at the head of a byte string, 0 if there is none: the
  table of package \<open>utf8\<close>, without surrogates, overlong forms and values past 10FFFF.
\<close>

definition cont_byte :: "string \<Rightarrow> nat \<Rightarrow> nat \<Rightarrow> nat \<Rightarrow> bool" where
  "cont_byte s i lo hi \<longleftrightarrow> i < length s \<and> lo \<le> of_char (s ! i) \<and> of_char (s ! i) \<le> hi"

definition rune_len :: "string \<Rightarrow> nat" where
  "rune_len s =
     (case s of
        [] \<Rightarrow> 0
      | c # _ \<Rightarrow>
          let b = (of_char c :: nat); tail = (\<lambda>i. cont_byte s i 0x80 0xBF)
          in if b < 0x80 then 1
             else if 0xC2 \<le> b \<and> b \<le> 0xDF \<and> tail 1 then 2
             else if b = 0xE0 \<and> cont_byte s 1 0xA0 0xBF \<and> tail 2 then 3
             else if b = 0xED \<and> cont_byte s 1 0x80 0x9F \<and> tail 2 then 3
             else if 0xE1 \<le> b \<and> b \<le> 0xEF \<and> b \<noteq> 0xED \<and> tail 1 \<and> tail 2 then 3
             else if b = 0xF0 \<and> cont_byte s 1 0x90 0xBF \<and> tail 2 \<and> tail 3 then 4
             else if 0xF1 \<le> b \<and> b \<le> 0xF3 \<and> tail 1 \<and> tail 2 \<and> tail 3 then 4
             else if b = 0xF4 \<and> cont_byte s 1 0x80 0x8F \<and> tail 2 \<and> tail 3 then 4
             else 0)"

text \<open>\<open>left\<close> counts the bytes of the current sequence that are still to pass.\<close>

fun valid_utf8 :: "nat \<Rightarrow> string \<Rightarrow> bool" where
  "valid_utf8 left [] = True"
| "valid_utf8 (Suc left) (c # cs) = valid_utf8 left cs"
| "valid_utf8 0 (c # cs) = (rune_len (c # cs) \<noteq> 0 \<and> valid_utf8 (rune_len (c # cs) - 1) cs)"

text \<open>\<open>strings.ToValidUTF8\<close>: a run of invalid bytes becomes one replacement.\<close>

fun to_valid :: "string \<Rightarrow> bool \<Rightarrow> nat \<Rightarrow> string \<Rightarrow> string" where
  "to_valid repl invalid left [] = []"
| "to_valid repl invalid (Suc left) (c # cs) = c # to_valid repl False left cs"
| "to_valid repl invalid 0 (c # cs) =
     (if rune_len (c # cs) = 0 then (if invalid then [] else repl) @ to_valid repl True 0 cs
      else c # to_valid repl False (rune_len (c # cs) - 1) cs)"

text \<open>A byte starts a rune unless it is a continuation byte.\<close>

definition RuneStart :: "char \<Rightarrow> bool" where
  "RuneStart c \<longleftrightarrow> (of_char c :: nat) div 64 \<noteq> 2"

end
