(* ===== verification/Cron_Service.thy ===== *)
theory Cron_Service
  imports Cron_Store Go_Utf8
begin

text \<open>
  The scheduler: \<^verbatim>\<open>pkg/cron/service.go\<close> and the options of \<^verbatim>\<open>options.go\<close>, with the snapshot of
  \<^verbatim>\<open>status.go\<close>.

  An \<open>IStore\<close> is the record of its methods over some state. What a scheduler touches is a
  world: the state of its store, the number of outside readings taken so far (the clock, random
  bytes and the state of the context are functions of that number), and the invocations it has
  started. A handler and its run are outside; what it returns is an argument of
  \<open>finish_invocation\<close>. Options are data, applied as the code applies the functions.
\<close>

record 'st IStore =
  is_Reconcile :: "ctx \<Rightarrow> JobDefinition list \<Rightarrow> time \<Rightarrow> 'st \<Rightarrow> 'st \<times> (cron_err + JobState list)"
  is_Claim :: "ctx \<Rightarrow> ClaimRequest \<Rightarrow> 'st \<Rightarrow> 'st \<times> (cron_err + ClaimResult)"
  is_Renew :: "ctx \<Rightarrow> LeaseRenewal \<Rightarrow> 'st \<Rightarrow> 'st \<times> cron_err option"
  is_Complete :: "ctx \<Rightarrow> Completion \<Rightarrow> 'st \<Rightarrow> 'st \<times> cron_err option"
  is_Skip :: "ctx \<Rightarrow> SkipRequest \<Rightarrow> 'st \<Rightarrow> 'st \<times> cron_err option"
  is_Expired :: "ctx \<Rightarrow> time \<Rightarrow> int \<Rightarrow> 'st \<Rightarrow> cron_err + OccurrenceRecord list"
  is_Snapshot :: "ctx \<Rightarrow> 'st \<Rightarrow> cron_err + StoreSnapshot"

definition memory_IStore :: "CronLib \<Rightarrow> (string \<Rightarrow> string) \<Rightarrow> MemoryStore IStore" where
  "memory_IStore lib digest =
     \<lparr>is_Reconcile = Store_Reconcile lib, is_Claim = Store_Claim lib digest, is_Renew = Store_Renew,
      is_Complete = Store_Complete, is_Skip = Store_Skip lib digest, is_Expired = Store_Expired,
      is_Snapshot = Store_Snapshot\<rparr>"

subsection \<open>Options and construction\<close>

record jobConfig =
  jc_catchUp :: string
  jc_overlap :: string

record 'h registeredJob =
  rj_name :: string
  rj_schedule :: Schedule
  rj_handler :: 'h
  rj_config :: jobConfig

record ('st, 'h) serviceConfig =
  sv_store :: "'st IStore option"
  sv_jobs :: "'h registeredJob list"
  sv_leaseDuration :: duration
  sv_catchUpLimit :: int
  sv_leaseOwner :: string

datatype JobOption = NilJobOption | WithCatchUp string | WithOverlap string

datatype ('st, 'h) Option =
    NilOption
  | WithStore "'st IStore option"
  | WithJob string Schedule "'h option" "JobOption list"
  | WithLeaseDuration duration
  | WithCatchUpLimit int
  | WithLeaseOwner string

datatype run_err =
    RunConfig cron_err
  | RunJobSchedule string sched_err
  | ErrStoreRequired
  | ErrNoJobs
  | ErrAlreadyRunning
  | ErrRandom string
  | ErrReconcile string
  | ErrStoreCall string cron_err

fun apply_job_option :: "string \<Rightarrow> JobOption \<Rightarrow> jobConfig \<Rightarrow> run_err + jobConfig" where
  "apply_job_option name NilJobOption c = Inl (RunConfig (ErrInvalidConfiguration (''nil option of job '' @ name)))"
| "apply_job_option name (WithCatchUp p) c =
     (if \<not> CatchUpPolicy_valid p then Inl (RunConfig (ErrInvalidConfiguration (''unknown catch-up policy '' @ p)))
      else Inr (c\<lparr>jc_catchUp := p\<rparr>))"
| "apply_job_option name (WithOverlap p) c =
     (if \<not> OverlapPolicy_valid p then Inl (RunConfig (ErrInvalidConfiguration (''unknown overlap policy '' @ p)))
      else Inr (c\<lparr>jc_overlap := p\<rparr>))"

fun apply_job_options :: "string \<Rightarrow> JobOption list \<Rightarrow> jobConfig \<Rightarrow> run_err + jobConfig" where
  "apply_job_options name [] c = Inr c"
| "apply_job_options name (p # ps) c = and_then (apply_job_option name p c) (apply_job_options name ps)"

definition bad_microseconds :: "duration \<Rightarrow> bool" where
  "bad_microseconds d \<longleftrightarrow> d < 1000 \<or> d mod 1000 \<noteq> 0"

fun apply_option :: "CronLib \<Rightarrow> ('st, 'h) Option \<Rightarrow> ('st, 'h) serviceConfig \<Rightarrow> run_err + ('st, 'h) serviceConfig" where
  "apply_option lib NilOption c = Inl (RunConfig (ErrInvalidConfiguration ''nil service option''))"
| "apply_option lib (WithStore s) c =
     (case s of None \<Rightarrow> Inl (RunConfig (ErrInvalidConfiguration ''nil store''))
      | Some store \<Rightarrow> Inr (c\<lparr>sv_store := Some store\<rparr>))"
| "apply_option lib (WithJob name schedule handler options) c =
     (case validateJobName name of
        Some err \<Rightarrow> Inl (RunConfig err)
      | None \<Rightarrow>
          (case Schedule_Validate lib schedule of
             Some err \<Rightarrow> Inl (RunJobSchedule name err)
           | None \<Rightarrow>
               (case handler of
                  None \<Rightarrow> Inl (RunConfig (ErrInvalidConfiguration (''nil handler of job '' @ name)))
                | Some h \<Rightarrow>
                    and_then (apply_job_options name options \<lparr>jc_catchUp = CatchUpNone, jc_overlap = OverlapSkip\<rparr>) (\<lambda>jc.
                      Inr (c\<lparr>sv_jobs := sv_jobs c @ [\<lparr>rj_name = name, rj_schedule = schedule, rj_handler = h, rj_config = jc\<rparr>]\<rparr>)))))"
| "apply_option lib (WithLeaseDuration d) c =
     (if bad_microseconds d
      then Inl (RunConfig (ErrInvalidConfiguration ''lease duration must be a positive whole number of microseconds''))
      else Inr (c\<lparr>sv_leaseDuration := d\<rparr>))"
| "apply_option lib (WithCatchUpLimit n) c =
     (if n \<le> 0 \<or> n > maxCatchUpLimit then Inl (RunConfig (ErrInvalidConfiguration ''catch-up limit must be between 1 and 2147483647''))
      else Inr (c\<lparr>sv_catchUpLimit := n\<rparr>))"
| "apply_option lib (WithLeaseOwner owner0) c =
     (let owner = TrimSpace owner0
      in if owner = [] \<or> length owner > 128
         then Inl (RunConfig (ErrInvalidConfiguration ''lease owner must contain 1 to 128 bytes''))
         else Inr (c\<lparr>sv_leaseOwner := owner\<rparr>))"

fun apply_options ::
  "CronLib \<Rightarrow> ('st, 'h) Option list \<Rightarrow> ('st, 'h) serviceConfig \<Rightarrow> run_err + ('st, 'h) serviceConfig" where
  "apply_options lib [] c = Inr c"
| "apply_options lib (p # ps) c = and_then (apply_option lib p c) (apply_options lib ps)"

record ('st, 'h) Service =
  se_store :: "'st IStore"
  se_jobs :: "'h registeredJob list"
  se_leaseDuration :: duration
  se_catchUpLimit :: int
  se_leaseOwner :: string

definition defaultLeaseDuration :: duration where "defaultLeaseDuration = 30 * second"
definition defaultCatchUpLimit :: int where "defaultCatchUpLimit = 1000"

text \<open>The hexadecimal form of the 16 random bytes, or no bytes at all.\<close>

definition randomIdentity :: "string \<Rightarrow> string option \<Rightarrow> run_err + string" where
  "randomIdentity prefix bytes =
     (case bytes of None \<Rightarrow> Inl (ErrRandom prefix) | Some hex \<Rightarrow> Inr (prefix @ ''_'' @ hex))"

definition cron_New :: "CronLib \<Rightarrow> string option \<Rightarrow> ('st, 'h) Option list \<Rightarrow> run_err + ('st, 'h) Service" where
  "cron_New lib random options =
     and_then (apply_options lib options
         \<lparr>sv_store = None, sv_jobs = [], sv_leaseDuration = defaultLeaseDuration,
          sv_catchUpLimit = defaultCatchUpLimit, sv_leaseOwner = []\<rparr>) (\<lambda>config.
       case sv_store config of
         None \<Rightarrow> Inl ErrStoreRequired
       | Some store \<Rightarrow>
           if sv_jobs config = [] then Inl ErrNoJobs
           else and_then (if sv_leaseOwner config = [] then randomIdentity ''runner'' random
                          else Inr (sv_leaseOwner config)) (\<lambda>owner.
                  if \<not> distinct (map rj_name (sv_jobs config))
                  then Inl (RunConfig (ErrInvalidConfiguration ''duplicate job''))
                  else Inr \<lparr>se_store = store, se_jobs = sv_jobs config,
                            se_leaseDuration = sv_leaseDuration config,
                            se_catchUpLimit = sv_catchUpLimit config, se_leaseOwner = owner\<rparr>))"

subsection \<open>The world of a scheduler\<close>

record Invocation =
  iv_ID :: string
  iv_JobName :: string
  iv_ScheduledAt :: time
  iv_StartedAt :: time
  iv_Attempt :: "32 word"

text \<open>\<open>wo_started\<close>: the invocations started, with their lease tokens, the last one first.\<close>

record 'st world =
  wo_store :: 'st
  wo_tick :: nat
  wo_started :: "(Invocation \<times> string) list"

record outside =
  ou_lib :: CronLib
  ou_digest :: "string \<Rightarrow> string"
  ou_now :: "nat \<Rightarrow> time"
  ou_random :: "nat \<Rightarrow> string option"
  ou_ctx :: "nat \<Rightarrow> ctx"

definition tick :: "'st world \<Rightarrow> 'st world" where
  "tick w = w\<lparr>wo_tick := Suc (wo_tick w)\<rparr>"

record 'h runtimeJob =
  rt_registered :: "'h registeredJob"
  rt_schedule :: Schedule
  rt_state :: JobState
  rt_startup :: bool

record dueOccurrence =
  du_scheduledAt :: time
  du_nextRunAt :: time

subsection \<open>What is due\<close>

text \<open>\<open>n\<close> occurrences may still be collected.\<close>

fun collect_loop ::
  "CronLib \<Rightarrow> Schedule \<Rightarrow> time \<Rightarrow> time \<Rightarrow> nat \<Rightarrow> sched_err + dueOccurrence list \<times> bool" where
  "collect_loop lib schedule now next 0 = Inr ([], \<not> next > now)"
| "collect_loop lib schedule now next (Suc n) =
     (if next > now then Inr ([], False)
      else and_then (Schedule_Next lib schedule next) (\<lambda>following.
             and_then (collect_loop lib schedule now following n) (\<lambda>(rest, further).
               Inr (\<lparr>du_scheduledAt = next, du_nextRunAt = following\<rparr> # rest, further))))"

definition collectDue ::
  "CronLib \<Rightarrow> Schedule \<Rightarrow> time \<Rightarrow> time \<Rightarrow> int \<Rightarrow> sched_err + dueOccurrence list \<times> bool" where
  "collectDue lib schedule next now limit = collect_loop lib schedule now next (nat limit)"

definition occurrenceRunIndex :: "string \<Rightarrow> nat \<Rightarrow> bool \<Rightarrow> bool \<Rightarrow> nat" where
  "occurrenceRunIndex policy n startup further =
     (if n = 0 \<or> policy = CatchUpAll then 0
      else if startup \<and> policy = CatchUpNone then n
      else if further then n
      else n - 1)"

definition recoveryInterval :: "('st, 'h) Service \<Rightarrow> duration" where
  "recoveryInterval service =
     (let interval = se_leaseDuration service div 3
      in if interval \<le> 0 then se_leaseDuration service else interval)"

text \<open>With no job the code panics on the first element; \<open>cron_New\<close> refuses that.\<close>

definition nextWait :: "'h runtimeJob list \<Rightarrow> time \<Rightarrow> duration \<Rightarrow> duration option" where
  "nextWait jobs now maximum =
     (case jobs of
        [] \<Rightarrow> None
      | j # js \<Rightarrow>
          let next = foldl (\<lambda>next job. if js_NextRunAt (rt_state job) < next then js_NextRunAt (rt_state job) else next)
                       (js_NextRunAt (rt_state j)) js
          in if \<not> next > now then Some 0
             else let wait = time_Sub next now in Some (if wait > maximum then maximum else wait))"

subsection \<open>Calls on the store\<close>

definition rt_name :: "'h runtimeJob \<Rightarrow> string" where
  "rt_name job = rj_name (rt_registered job)"

definition skip ::
  "outside \<Rightarrow> ('st, 'h) Service \<Rightarrow> 'h runtimeJob \<Rightarrow> dueOccurrence \<Rightarrow> string \<Rightarrow> 'st world
     \<Rightarrow> 'st world \<times> (run_err + 'h runtimeJob)" where
  "skip out service job occurrence reason w0 =
     (let now = ou_now out (wo_tick w0);
          request = \<lparr>sk_OccurrenceID = OccurrenceID (ou_digest out) (rt_name job) (du_scheduledAt occurrence),
                     sk_JobName = rt_name job, sk_ScheduledAt = du_scheduledAt occurrence,
                     sk_NextRunAt = du_nextRunAt occurrence, sk_SkippedAt = now, sk_Reason = reason\<rparr>;
          (st, err) = is_Skip (se_store service) (ou_ctx out (wo_tick w0)) request (wo_store w0);
          w = (tick w0)\<lparr>wo_store := st\<rparr>
      in case err of
           Some e \<Rightarrow> (w, Inl (ErrStoreCall ''skip'' e))
         | None \<Rightarrow>
             (w, Inr (job\<lparr>rt_state := (rt_state job)\<lparr>js_NextRunAt := du_nextRunAt occurrence, js_UpdatedAt := now\<rparr>\<rparr>)))"

definition startInvocation :: "Invocation \<Rightarrow> string \<Rightarrow> 'st world \<Rightarrow> 'st world" where
  "startInvocation invocation token w = w\<lparr>wo_started := (invocation, token) # wo_started w\<rparr>"

definition claimAndRun ::
  "outside \<Rightarrow> ('st, 'h) Service \<Rightarrow> 'h runtimeJob \<Rightarrow> dueOccurrence \<Rightarrow> 'st world
     \<Rightarrow> 'st world \<times> (run_err + 'h runtimeJob \<times> ClaimDisposition)" where
  "claimAndRun out service job occurrence w0 =
     (let now = ou_now out (wo_tick w0)
      in case randomIdentity ''lease'' (ou_random out (wo_tick w0)) of
           Inl err \<Rightarrow> (tick w0, Inl err)
         | Inr token \<Rightarrow>
             let request = \<lparr>cl_OccurrenceID = OccurrenceID (ou_digest out) (rt_name job) (du_scheduledAt occurrence),
                            cl_JobName = rt_name job, cl_ScheduledAt = du_scheduledAt occurrence,
                            cl_NextRunAt = du_nextRunAt occurrence, cl_LeaseOwner = se_leaseOwner service,
                            cl_LeaseToken = token, cl_ClaimedAt = now,
                            cl_LeaseUntil = now + se_leaseDuration service\<rparr>;
                 (st, result) = is_Claim (se_store service) (ou_ctx out (wo_tick w0)) request (wo_store w0);
                 w = (tick w0)\<lparr>wo_store := st\<rparr>
             in case result of
                  Inl e \<Rightarrow> (w, Inl (ErrStoreCall ''claim'' e))
                | Inr res \<Rightarrow>
                    let state = rt_state job;
                        state = (if js_NextRunAt state < du_nextRunAt occurrence
                                 then state\<lparr>js_NextRunAt := du_nextRunAt occurrence\<rparr> else state);
                        job = job\<lparr>rt_state := state\<lparr>js_UpdatedAt := now\<rparr>\<rparr>;
                        o' = cr_Occurrence res
                    in if cr_Disposition res \<noteq> ClaimAcquired then (w, Inr (job, cr_Disposition res))
                       else (startInvocation \<lparr>iv_ID = oc_ID o', iv_JobName = oc_JobName o', iv_ScheduledAt = oc_ScheduledAt o',
                                iv_StartedAt = oc_StartedAt o', iv_Attempt = oc_Attempt o'\<rparr> token w,
                             Inr (job, cr_Disposition res)))"

subsection \<open>Reconciliation at start\<close>

fun job_definitions :: "CronLib \<Rightarrow> 'h registeredJob list \<Rightarrow> run_err + JobDefinition list" where
  "job_definitions lib [] = Inr []"
| "job_definitions lib (j # js) =
     (case Schedule_Definition lib (rj_schedule j) of
        Inl err \<Rightarrow> Inl (RunJobSchedule (rj_name j) err)
      | Inr d \<Rightarrow>
          and_then (job_definitions lib js) (\<lambda>ds.
            Inr (\<lparr>jd_Name = rj_name j, jd_Schedule = d, jd_CatchUp = jc_catchUp (rj_config j),
                  jd_Overlap = jc_overlap (rj_config j)\<rparr> # ds)))"

fun runtime_jobs ::
  "CronLib \<Rightarrow> 'h registeredJob list \<Rightarrow> string list \<Rightarrow> JobState list \<Rightarrow> run_err + 'h runtimeJob list" where
  "runtime_jobs lib jobs seen [] = Inr []"
| "runtime_jobs lib jobs seen (state # states) =
     (let name = jd_Name (js_Definition state)
      in case find (\<lambda>j. rj_name j = name) jobs of
           None \<Rightarrow> Inl (ErrReconcile (''unknown job '' @ name))
         | Some registered \<Rightarrow>
             if name \<in> set seen then Inl (ErrReconcile (''duplicate job '' @ name))
             else if IsZero (js_NextRunAt state) then Inl (ErrReconcile (''zero next occurrence for job '' @ name))
             else case ScheduleFromDefinition lib (jd_Schedule (js_Definition state)) of
                    Inl err \<Rightarrow> Inl (RunJobSchedule name err)
                  | Inr schedule \<Rightarrow>
                      and_then (runtime_jobs lib jobs (name # seen) states) (\<lambda>rest.
                        Inr (\<lparr>rt_registered = registered\<lparr>rj_schedule := schedule,
                                rj_config := \<lparr>jc_catchUp = jd_CatchUp (js_Definition state),
                                              jc_overlap = jd_Overlap (js_Definition state)\<rparr>\<rparr>,
                              rt_schedule = schedule, rt_state = state, rt_startup = True\<rparr> # rest)))"

definition reconcile ::
  "outside \<Rightarrow> ('st, 'h) Service \<Rightarrow> time \<Rightarrow> 'st world \<Rightarrow> 'st world \<times> (run_err + 'h runtimeJob list)" where
  "reconcile out service now w0 =
     (case job_definitions (ou_lib out) (se_jobs service) of
        Inl err \<Rightarrow> (w0, Inl err)
      | Inr definitions \<Rightarrow>
          let (st, result) = is_Reconcile (se_store service) (ou_ctx out (wo_tick w0)) definitions now (wo_store w0);
              w = (tick w0)\<lparr>wo_store := st\<rparr>
          in case result of
               Inl e \<Rightarrow> (w, Inl (ErrStoreCall ''reconcile static jobs'' e))
             | Inr states \<Rightarrow>
                 if length states \<noteq> length (se_jobs service) then (w, Inl (ErrReconcile ''wrong number of active jobs''))
                 else (w, runtime_jobs (ou_lib out) (se_jobs service) [] states))"

subsection \<open>A scheduling cycle\<close>

fun recover_loop ::
  "outside \<Rightarrow> ('st, 'h) Service \<Rightarrow> bool \<Rightarrow> OccurrenceRecord list \<Rightarrow> 'h runtimeJob list \<Rightarrow> 'st world
     \<Rightarrow> 'st world \<times> (run_err + 'h runtimeJob list \<times> bool)" where
  "recover_loop out service progressed [] jobs w = (w, Inr (jobs, progressed))"
| "recover_loop out service progressed (r # rs) jobs w =
     (case find (\<lambda>j. rt_name j = oc_JobName r) jobs of
        None \<Rightarrow> (w, Inl (ErrReconcile (''expired occurrence of inactive job '' @ oc_JobName r)))
      | Some job \<Rightarrow>
          (case Schedule_Next (ou_lib out) (rt_schedule job) (oc_ScheduledAt r) of
             Inl err \<Rightarrow> (w, Inl (RunJobSchedule (oc_JobName r) err))
           | Inr nextRunAt \<Rightarrow>
               (case claimAndRun out service job \<lparr>du_scheduledAt = oc_ScheduledAt r, du_nextRunAt = nextRunAt\<rparr> w of
                  (w', Inl err) \<Rightarrow> (w', Inl err)
                | (w', Inr (job', disposition)) \<Rightarrow>
                    recover_loop out service (progressed \<or> disposition \<noteq> ClaimLeaseHeld) rs
                      (map (\<lambda>j. if rt_name j = oc_JobName r then job' else j) jobs) w')))"

definition recoverExpired ::
  "outside \<Rightarrow> ('st, 'h) Service \<Rightarrow> 'h runtimeJob list \<Rightarrow> time \<Rightarrow> 'st world
     \<Rightarrow> 'st world \<times> (run_err + 'h runtimeJob list \<times> bool)" where
  "recoverExpired out service jobs now w =
     (case is_Expired (se_store service) (ou_ctx out (wo_tick w)) now (se_catchUpLimit service) (wo_store w) of
        Inl e \<Rightarrow> (tick w, Inl (ErrStoreCall ''list expired occurrence leases'' e))
      | Inr expired \<Rightarrow>
          (case recover_loop out service False expired jobs (tick w) of
             (w', Inl err) \<Rightarrow> (w', Inl err)
           | (w', Inr (jobs', progressed)) \<Rightarrow>
               (w', Inr (jobs', progressed \<and> int (length expired) = se_catchUpLimit service))))"

text \<open>The occurrences of a job from position \<open>index\<close> on.\<close>

fun due_loop ::
  "outside \<Rightarrow> ('st, 'h) Service \<Rightarrow> nat \<Rightarrow> nat \<Rightarrow> dueOccurrence list \<Rightarrow> 'h runtimeJob \<Rightarrow> 'st world
     \<Rightarrow> 'st world \<times> (run_err + 'h runtimeJob)" where
  "due_loop out service firstToRun index [] job w = (w, Inr job)"
| "due_loop out service firstToRun index (d # ds) job w =
     (if index < firstToRun then
        (case skip out service job d
                (if rt_startup job \<and> jc_catchUp (rj_config (rt_registered job)) = CatchUpNone
                 then ''catch_up_disabled'' else ''superseded'') w of
           (w', Inl err) \<Rightarrow> (w', Inl err)
         | (w', Inr job') \<Rightarrow> due_loop out service firstToRun (Suc index) ds job' w')
      else
        (case claimAndRun out service job d w of
           (w', Inl err) \<Rightarrow> (w', Inl err)
         | (w', Inr (job', _)) \<Rightarrow> due_loop out service firstToRun (Suc index) ds job' w'))"

definition cycle_job ::
  "outside \<Rightarrow> ('st, 'h) Service \<Rightarrow> time \<Rightarrow> 'h runtimeJob \<Rightarrow> 'st world
     \<Rightarrow> 'st world \<times> (run_err + 'h runtimeJob \<times> bool)" where
  "cycle_job out service now job w =
     (case collectDue (ou_lib out) (rt_schedule job) (js_NextRunAt (rt_state job)) now (se_catchUpLimit service) of
        Inl err \<Rightarrow> (w, Inl (RunJobSchedule (rt_name job) err))
      | Inr (due, further) \<Rightarrow>
          if due = [] then (w, Inr (job\<lparr>rt_startup := False\<rparr>, False))
          else
            (case due_loop out service
                    (occurrenceRunIndex (jc_catchUp (rj_config (rt_registered job))) (length due) (rt_startup job) further)
                    0 due job w of
               (w', Inl err) \<Rightarrow> (w', Inl err)
             | (w', Inr job') \<Rightarrow> (w', Inr (if further then job' else job'\<lparr>rt_startup := False\<rparr>, further))))"

fun cycle_jobs ::
  "outside \<Rightarrow> ('st, 'h) Service \<Rightarrow> time \<Rightarrow> bool \<Rightarrow> 'h runtimeJob list \<Rightarrow> 'st world
     \<Rightarrow> 'st world \<times> (run_err + 'h runtimeJob list \<times> bool)" where
  "cycle_jobs out service now immediate [] w = (w, Inr ([], immediate))"
| "cycle_jobs out service now immediate (j # js) w =
     (case cycle_job out service now j w of
        (w', Inl err) \<Rightarrow> (w', Inl err)
      | (w', Inr (j', further)) \<Rightarrow>
          (case cycle_jobs out service now (immediate \<or> further) js w' of
             (w'', Inl err) \<Rightarrow> (w'', Inl err)
           | (w'', Inr (js', immediate')) \<Rightarrow> (w'', Inr (j' # js', immediate'))))"

definition cycle ::
  "outside \<Rightarrow> ('st, 'h) Service \<Rightarrow> 'h runtimeJob list \<Rightarrow> time \<Rightarrow> 'st world
     \<Rightarrow> 'st world \<times> (run_err + 'h runtimeJob list \<times> bool)" where
  "cycle out service jobs now w =
     (case recoverExpired out service jobs now w of
        (w', Inl err) \<Rightarrow> (w', Inl err)
      | (w', Inr (jobs', immediate)) \<Rightarrow> cycle_jobs out service now immediate jobs' w')"

subsection \<open>The end of an invocation\<close>

definition maxRecordedError :: nat where "maxRecordedError = 4096"

fun drop_to_valid :: "string \<Rightarrow> string" where
  "drop_to_valid s = (if valid_utf8 0 s \<or> s = [] then s else drop_to_valid (butlast s))"

declare drop_to_valid.simps [simp del]

definition boundedError :: "string option \<Rightarrow> string" where
  "boundedError err =
     (case err of
        None \<Rightarrow> []
      | Some text \<Rightarrow>
          let message = to_valid ''?'' False 0 text
          in if length message \<le> maxRecordedError then message
             else TrimSpace (drop_to_valid (take maxRecordedError message)))"

text \<open>What a handler does: return, with an error that is a cancellation or not, or panic.\<close>

datatype outcome = Returns | Errs bool string | Panics string

fun callJob :: "outcome \<Rightarrow> (bool \<times> string) option" where
  "callJob Returns = None"
| "callJob (Errs canceled text) = Some (canceled, text)"
| "callJob (Panics v) = Some (False, ''job panic: '' @ v)"

definition completion_status :: "(bool \<times> string) option \<Rightarrow> string" where
  "completion_status err =
     (case err of None \<Rightarrow> OccurrenceSucceeded
      | Some (canceled, _) \<Rightarrow> if canceled then OccurrenceCanceled else OccurrenceFailed)"

definition finish_invocation ::
  "outside \<Rightarrow> ('st, 'h) Service \<Rightarrow> Invocation \<Rightarrow> string \<Rightarrow> outcome \<Rightarrow> cron_err option \<Rightarrow> 'st world
     \<Rightarrow> 'st world \<times> cron_err option list" where
  "finish_invocation out service invocation token result renewError w =
     (let jobError = callJob result;
          (st, completionError) = is_Complete (se_store service) LiveContext
            \<lparr>cm_OccurrenceID = iv_ID invocation, cm_LeaseToken = token, cm_Status = completion_status jobError,
             cm_FinishedAt = ou_now out (wo_tick w), cm_Error = boundedError (map_option snd jobError)\<rparr> (wo_store w)
      in ((tick w)\<lparr>wo_store := st\<rparr>,
          if renewError \<noteq> None \<or> completionError \<noteq> None then [renewError, completionError] else []))"

text \<open>One turn of the renewal ticker: the error that stops it, if any.\<close>

definition renew_tick ::
  "outside \<Rightarrow> ('st, 'h) Service \<Rightarrow> string \<Rightarrow> string \<Rightarrow> 'st world \<Rightarrow> 'st world \<times> cron_err option" where
  "renew_tick out service occurrenceID token w =
     (let renewedAt = ou_now out (wo_tick w);
          (st, err) = is_Renew (se_store service) (ou_ctx out (wo_tick w))
            \<lparr>rn_OccurrenceID = occurrenceID, rn_LeaseToken = token, rn_RenewedAt = renewedAt,
             rn_LeaseUntil = renewedAt + se_leaseDuration service\<rparr> (wo_store w)
      in ((tick w)\<lparr>wo_store := st\<rparr>, err))"

subsection \<open>Run\<close>

definition beginRun :: "bool \<Rightarrow> run_err + bool" where
  "beginRun running = (if running then Inl ErrAlreadyRunning else Inr True)"

definition endRun :: "bool \<Rightarrow> bool" where
  "endRun running = False"

definition context_error :: "run_err \<Rightarrow> string option" where
  "context_error err = (case err of ErrStoreCall _ (ErrContext cause) \<Rightarrow> Some cause | _ \<Rightarrow> None)"

text \<open>\<open>cause\<close>: why the context of the caller ended, if it did.\<close>

definition normalizeRunError :: "string option \<Rightarrow> run_err option \<Rightarrow> run_err option" where
  "normalizeRunError cause err =
     (case err of
        None \<Rightarrow> None
      | Some e \<Rightarrow>
          (case (cause, context_error e) of
             (Some c, Some c') \<Rightarrow> if c' = c \<or> c' = ''context canceled'' \<or> c' = ''context deadline exceeded'' then None else Some e
           | _ \<Rightarrow> Some e))"

text \<open>Up to the loop: the error that ends the run, or the jobs and whether the next cycle is due at once.\<close>

definition run_start ::
  "outside \<Rightarrow> ('st, 'h) Service \<Rightarrow> string option \<Rightarrow> 'st world \<Rightarrow> 'st world \<times> (run_err option + 'h runtimeJob list \<times> bool)" where
  "run_start out service cause w =
     (let startedAt = ou_now out (wo_tick w)
      in case reconcile out service startedAt (tick w) of
           (w', Inl err) \<Rightarrow> (w', Inl (normalizeRunError cause (Some err)))
         | (w', Inr jobs) \<Rightarrow>
             (case cycle out service jobs startedAt w' of
                (w'', Inl err) \<Rightarrow> (w'', Inl (normalizeRunError cause (Some err)))
              | (w'', Inr r) \<Rightarrow> (w'', Inr r)))"

definition run_wait :: "outside \<Rightarrow> ('st, 'h) Service \<Rightarrow> 'h runtimeJob list \<Rightarrow> bool \<Rightarrow> 'st world \<Rightarrow> duration option" where
  "run_wait out service jobs immediate w =
     (case nextWait jobs (ou_now out (wo_tick w)) (recoveryInterval service) of
        None \<Rightarrow> None
      | Some wait \<Rightarrow> Some (if immediate then 0 else wait))"

datatype wake = WakeCancelled | WakeError run_err | WakeTimer

definition run_turn ::
  "outside \<Rightarrow> ('st, 'h) Service \<Rightarrow> string option \<Rightarrow> 'h runtimeJob list \<Rightarrow> wake \<Rightarrow> 'st world
     \<Rightarrow> 'st world \<times> (run_err option + 'h runtimeJob list \<times> bool)" where
  "run_turn out service cause jobs e w =
     (case e of
        WakeCancelled \<Rightarrow> (w, Inl None)
      | WakeError err \<Rightarrow> (w, Inl (normalizeRunError cause (Some err)))
      | WakeTimer \<Rightarrow>
          (case cycle out service jobs (ou_now out (wo_tick w)) (tick w) of
             (w', Inl err) \<Rightarrow> (w', Inl (normalizeRunError cause (Some err)))
           | (w', Inr r) \<Rightarrow> (w', Inr r)))"

subsection \<open>Snapshot\<close>

record Snapshot =
  ss_GeneratedAt :: time
  ss_Running :: bool
  ss_Jobs :: "JobState list"
  ss_Occurrences :: "OccurrenceRecord list"

definition Service_Snapshot ::
  "outside \<Rightarrow> ('st, 'h) Service \<Rightarrow> bool \<Rightarrow> ctx \<Rightarrow> 'st world \<Rightarrow> cron_err + Snapshot" where
  "Service_Snapshot out service running c w =
     and_then (is_Snapshot (se_store service) c (wo_store w)) (\<lambda>stored.
       Inr \<lparr>ss_GeneratedAt = ou_now out (wo_tick w), ss_Running = running, ss_Jobs = sn_Jobs stored,
            ss_Occurrences = sn_Occurrences stored\<rparr>)"

end
