(* ===== verification/Cron_Cycle.thy ===== *)
theory Cron_Cycle
  imports Cron_Demo Cron_Service
begin

text \<open>
  What a scheduling cycle of \<^verbatim>\<open>pkg/cron/service.go\<close> does to its store. The locale
  \<open>occurrence_log\<close> is the part of the store contract that the cycle relies on: an answered
  claim or skip has recorded its occurrence, and records stay. The process-local store
  fulfils it.
\<close>

subsection \<open>What is collected\<close>

lemma collect_loop_Inr:
  assumes "collect_loop lib sch now t0 n = Inr (ds, further)"
  shows "length ds \<le> n \<and> (\<forall>d \<in> set ds. du_scheduledAt d \<le> now \<and> Schedule_Next lib sch (du_scheduledAt d) = Inr (du_nextRunAt d))
    \<and> (\<forall>i < length ds. du_scheduledAt (ds ! i) = (if i = 0 then t0 else du_nextRunAt (ds ! (i - 1))))
    \<and> (further \<longleftrightarrow> (if ds = [] then t0 else du_nextRunAt (last ds)) \<le> now) \<and> (further \<longrightarrow> length ds = n)"
  using assms
proof (induction n arbitrary: t0 ds further)
  case (Suc n)
  show ?case
  proof (cases "t0 > now")
    case False
    then obtain f rest where f: "Schedule_Next lib sch t0 = Inr f" "collect_loop lib sch now f n = Inr (rest, further)"
      and ds: "ds = \<lparr>du_scheduledAt = t0, du_nextRunAt = f\<rparr> # rest"
      using Suc.prems by (auto simp: and_then_Inr split: prod.splits)
    note IH = Suc.IH [OF f(2)]
    have "du_scheduledAt (ds ! i) = (if i = 0 then t0 else du_nextRunAt (ds ! (i - 1)))" if "i < length ds" for i
    proof (cases i)
      case (Suc j)
      with that ds have "j < length rest" by simp
      with IH have "du_scheduledAt (rest ! j) = (if j = 0 then f else du_nextRunAt (rest ! (j - 1)))" by blast
      with Suc ds show ?thesis by (cases j) auto
    qed (simp add: ds)
    with IH f(1) False ds show ?thesis by auto
  qed (use Suc.prems in auto)
qed auto

text \<open>
  The due occurrences are a chain of the schedule: the first is the cursor, each next one is
  the schedule's next instant after it, none lies in the future and no more than the limit are
  taken. The flag tells exactly whether the occurrence after the last one is due as well.
\<close>
theorem collectDue_exact:
  assumes "collectDue lib sch t0 now limit = Inr (ds, further)"
  shows "length ds \<le> nat limit \<and> (\<forall>d \<in> set ds. du_scheduledAt d \<le> now \<and> Schedule_Next lib sch (du_scheduledAt d) = Inr (du_nextRunAt d))
    \<and> (\<forall>i < length ds. du_scheduledAt (ds ! i) = (if i = 0 then t0 else du_nextRunAt (ds ! (i - 1))))
    \<and> (further \<longleftrightarrow> (if ds = [] then t0 else du_nextRunAt (last ds)) \<le> now) \<and> (further \<longrightarrow> length ds = nat limit)"
  using collect_loop_Inr [of lib sch now t0 "nat limit"] assms by (simp add: collectDue_def)

subsection \<open>The store contract\<close>

locale occurrence_log =
  fixes store :: "'st IStore"
    and recorded :: "'st \<Rightarrow> string \<Rightarrow> bool"
  assumes claim_records: "is_Claim store c r st = (st', Inr res) \<Longrightarrow> recorded st' (cl_OccurrenceID r)"
    and skip_records: "is_Skip store c q st = (st', None) \<Longrightarrow> recorded st' (sk_OccurrenceID q)"
    and claim_keeps: "recorded st k \<Longrightarrow> recorded (fst (is_Claim store c r st)) k"
    and skip_keeps: "recorded st k \<Longrightarrow> recorded (fst (is_Skip store c q st)) k"
begin

text \<open>A call kept every record, and, if it succeeded, recorded its occurrence and moved the cursor.\<close>

definition handled :: "outside \<Rightarrow> 'h runtimeJob \<Rightarrow> dueOccurrence \<Rightarrow> 'st world \<Rightarrow> 'st world \<Rightarrow> 'h runtimeJob \<Rightarrow> bool" where
  "handled out job d w w' job' \<longleftrightarrow>
     (\<forall>k. recorded (wo_store w) k \<longrightarrow> recorded (wo_store w') k)
     \<and> recorded (wo_store w') (OccurrenceID (ou_digest out) (rt_name job) (du_scheduledAt d))
     \<and> rt_registered job' = rt_registered job \<and> rt_startup job' = rt_startup job
     \<and> du_nextRunAt d \<le> js_NextRunAt (rt_state job')"

lemma skip_handled:
  assumes "se_store service = store" and "skip out service job d reason w = (w', Inr job')"
  shows "handled out job d w w' job'"
proof -
  let ?q = "\<lparr>sk_OccurrenceID = OccurrenceID (ou_digest out) (rt_name job) (du_scheduledAt d), sk_JobName = rt_name job,
    sk_ScheduledAt = du_scheduledAt d, sk_NextRunAt = du_nextRunAt d, sk_SkippedAt = ou_now out (wo_tick w), sk_Reason = reason\<rparr>"
  obtain st where c: "is_Skip store (ou_ctx out (wo_tick w)) ?q (wo_store w) = (st, None)"
    using assms by (auto simp: skip_def Let_def split: prod.splits option.splits)
  then have w': "wo_store w' = st" "rt_registered job' = rt_registered job" "rt_startup job' = rt_startup job"
    "js_NextRunAt (rt_state job') = du_nextRunAt d"
    using assms by (auto simp: skip_def Let_def tick_def)
  show ?thesis
    using w' skip_records [OF c] skip_keeps [of "wo_store w" _ "ou_ctx out (wo_tick w)" ?q] c by (simp add: handled_def)
qed

lemma claim_handled:
  assumes s: "se_store service = store" and ok: "claimAndRun out service job d w = (w', Inr (job', disposition))"
  shows "handled out job d w w' job'"
proof -
  obtain token where t: "randomIdentity ''lease'' (ou_random out (wo_tick w)) = Inr token"
    using ok by (auto simp: claimAndRun_def Let_def split: sum.splits)
  let ?r = "\<lparr>cl_OccurrenceID = OccurrenceID (ou_digest out) (rt_name job) (du_scheduledAt d), cl_JobName = rt_name job,
    cl_ScheduledAt = du_scheduledAt d, cl_NextRunAt = du_nextRunAt d, cl_LeaseOwner = se_leaseOwner service,
    cl_LeaseToken = token, cl_ClaimedAt = ou_now out (wo_tick w),
    cl_LeaseUntil = ou_now out (wo_tick w) + se_leaseDuration service\<rparr>"
  obtain st res where c: "is_Claim store (ou_ctx out (wo_tick w)) ?r (wo_store w) = (st, Inr res)"
    using ok s t by (auto simp: claimAndRun_def Let_def split: prod.splits sum.splits)
  then have w': "wo_store w' = st" "rt_registered job' = rt_registered job" "rt_startup job' = rt_startup job"
    "du_nextRunAt d \<le> js_NextRunAt (rt_state job')"
    using ok s t by (auto simp: claimAndRun_def Let_def startInvocation_def tick_def split: if_splits)
  show ?thesis
    using w' claim_records [OF c] claim_keeps [of "wo_store w" _ "ou_ctx out (wo_tick w)" ?r] c by (simp add: handled_def)
qed

lemma due_loop_handled:
  assumes "se_store service = store" and "due_loop out service first i ds job w = (w', Inr job')"
  shows "(\<forall>k. recorded (wo_store w) k \<longrightarrow> recorded (wo_store w') k)
    \<and> (\<forall>d \<in> set ds. recorded (wo_store w') (OccurrenceID (ou_digest out) (rt_name job) (du_scheduledAt d)))
    \<and> rt_registered job' = rt_registered job
    \<and> (ds \<noteq> [] \<longrightarrow> du_nextRunAt (last ds) \<le> js_NextRunAt (rt_state job'))"
  using assms(2)
proof (induction ds arbitrary: i job w)
  case (Cons d ds)
  obtain w1 job1 where h: "handled out job d w w1 job1" and r: "due_loop out service first (Suc i) ds job1 w1 = (w', Inr job')"
  proof (cases "i < first")
    case True
    then obtain w1 job1 where "skip out service job d
        (if rt_startup job \<and> jc_catchUp (rj_config (rt_registered job)) = CatchUpNone then ''catch_up_disabled'' else ''superseded'') w
        = (w1, Inr job1)" "due_loop out service first (Suc i) ds job1 w1 = (w', Inr job')"
      using Cons.prems by (auto split: prod.splits sum.splits)
    then show thesis using that skip_handled [OF assms(1)] by blast
  next
    case False
    then obtain w1 job1 x where "claimAndRun out service job d w = (w1, Inr (job1, x))"
      "due_loop out service first (Suc i) ds job1 w1 = (w', Inr job')"
      using Cons.prems by (auto split: prod.splits sum.splits)
    then show thesis using that claim_handled [OF assms(1)] by blast
  qed
  note IH = Cons.IH [OF r]
  have n: "rt_name job1 = rt_name job" using h by (simp add: handled_def rt_name_def)
  have "js_NextRunAt (rt_state job') = js_NextRunAt (rt_state job1)" if "ds = []" using that r by simp
  then show ?case using h IH n by (auto simp: handled_def)
qed simp

lemma cycle_job_handled:
  assumes s: "se_store service = store" "0 < se_catchUpLimit service"
    and ok: "cycle_job out service now job w = (w', Inr (job', further))"
  obtains due where "collectDue (ou_lib out) (rt_schedule job) (js_NextRunAt (rt_state job)) now (se_catchUpLimit service) = Inr (due, further)"
    and "\<forall>d \<in> set due. recorded (wo_store w') (OccurrenceID (ou_digest out) (rt_name job) (du_scheduledAt d))"
    and "\<forall>k. recorded (wo_store w) k \<longrightarrow> recorded (wo_store w') k"
    and "\<not> further \<longrightarrow> now < js_NextRunAt (rt_state job')"
proof -
  obtain due f where c': "collectDue (ou_lib out) (rt_schedule job) (js_NextRunAt (rt_state job)) now (se_catchUpLimit service) = Inr (due, f)"
    using ok by (auto simp: cycle_job_def split: sum.splits)
  note e' = collect_loop_Inr [OF c' [unfolded collectDue_def]]
  have "f = further"
    using ok c' e' s(2) by (auto simp: cycle_job_def split: sum.splits prod.splits if_splits)
  note c = c' [unfolded this] and e = e' [unfolded this]
  show thesis
  proof (cases "due = []")
    case True
    with ok c e that [OF c] show ?thesis by (auto simp: cycle_job_def)
  next
    case False
    then obtain job1 where r: "due_loop out service (occurrenceRunIndex (jc_catchUp (rj_config (rt_registered job))) (length due)
        (rt_startup job) further) 0 due job w = (w', Inr job1)" "rt_state job' = rt_state job1"
      using ok c by (auto simp: cycle_job_def split: prod.splits sum.splits if_splits)
    from due_loop_handled [OF s(1) r(1)] r(2) e False that [OF c] show ?thesis by fastforce
  qed
qed

lemma cycle_jobs_handled:
  assumes s: "se_store service = store" "0 < se_catchUpLimit service" and "cycle_jobs out service now b jobs w = (w', Inr (jobs', immediate))"
  shows "(\<forall>job \<in> set jobs. \<exists>due further.
      collectDue (ou_lib out) (rt_schedule job) (js_NextRunAt (rt_state job)) now (se_catchUpLimit service) = Inr (due, further)
      \<and> (\<forall>d \<in> set due. recorded (wo_store w') (OccurrenceID (ou_digest out) (rt_name job) (du_scheduledAt d))))
    \<and> (\<forall>k. recorded (wo_store w) k \<longrightarrow> recorded (wo_store w') k)
    \<and> (b \<longrightarrow> immediate) \<and> (\<not> immediate \<longrightarrow> (\<forall>job \<in> set jobs'. now < js_NextRunAt (rt_state job)))"
  using assms(3)
proof (induction jobs arbitrary: b w jobs')
  case (Cons job jobs)
  then obtain w1 job1 further js where j: "cycle_job out service now job w = (w1, Inr (job1, further))"
    and r: "cycle_jobs out service now (b \<or> further) jobs w1 = (w', Inr (js, immediate))" and js: "jobs' = job1 # js"
    by (auto split: prod.splits sum.splits)
  note IH = Cons.IH [OF r]
  from cycle_job_handled [OF s j] obtain due where
    d: "collectDue (ou_lib out) (rt_schedule job) (js_NextRunAt (rt_state job)) now (se_catchUpLimit service) = Inr (due, further)"
      "\<forall>d \<in> set due. recorded (wo_store w1) (OccurrenceID (ou_digest out) (rt_name job) (du_scheduledAt d))"
      "\<forall>k. recorded (wo_store w) k \<longrightarrow> recorded (wo_store w1) k" "\<not> further \<longrightarrow> now < js_NextRunAt (rt_state job1)"
    by metis
  then show ?case using IH js by auto
qed simp

end

definition recorded :: "MemoryStore \<Rightarrow> string \<Rightarrow> bool" where
  "recorded st k \<longleftrightarrow> map_of (ms_occurrences st) k \<noteq> None"

lemma memory_claim_records: "Store_Claim lib digest c r st = (st', Inr res) \<Longrightarrow> recorded st' (cl_OccurrenceID r)"
proof (cases rule: Claim_cases [of lib digest c r st])
  case (answered state st'' d e)
  assume "Store_Claim lib digest c r st = (st', Inr res)"
  with answered(1,3) have "claim_outcome r st state st' d e" by simp
  then show ?thesis by cases (auto simp: recorded_def update_conv')
qed simp

lemma memory_skip_records: "Store_Skip lib digest c q st = (st', None) \<Longrightarrow> recorded st' (sk_OccurrenceID q)"
proof (cases rule: Skip_cases [of lib digest c q st])
  case (answered state st'')
  assume "Store_Skip lib digest c q st = (st', None)"
  with answered(1,3) have "skip_outcome q st state st'" by simp
  then show ?thesis by cases (auto simp: recorded_def update_conv')
qed simp

lemma memory_claim_keeps: "recorded st k \<Longrightarrow> recorded (fst (Store_Claim lib digest c r st)) k"
proof (cases rule: Claim_cases [of lib digest c r st])
  case (answered state st' d e)
  assume "recorded st k"
  with answered(3) have "recorded st' k" by cases (auto simp: recorded_def update_conv')
  with answered(1) show ?thesis by simp
qed simp

lemma memory_skip_keeps: "recorded st k \<Longrightarrow> recorded (fst (Store_Skip lib digest c q st)) k"
proof (cases rule: Skip_cases [of lib digest c q st])
  case (answered state st')
  assume "recorded st k"
  with answered(3) have "recorded st' k" by cases (auto simp: recorded_def update_conv')
  with answered(1) show ?thesis by simp
qed simp

interpretation memory: occurrence_log "memory_IStore lib digest" recorded for lib digest
  by unfold_locales (auto simp: memory_IStore_def memory_claim_records memory_skip_records memory_claim_keeps memory_skip_keeps)

text \<open>
  C36. A cycle drops nothing. When a scheduling cycle over the process-local store succeeds, every
  occurrence that was due after the abandoned ones were recovered has a record in the store, and
  unless the cycle asks to be repeated at once, every job's next occurrence lies in the future.
\<close>
theorem cycle_leaves_nothing_due:
  assumes "se_store service = memory_IStore lib digest" and "0 < se_catchUpLimit service"
    and "cycle out service jobs now w = (w', Inr (jobs', immediate))"
  shows "\<exists>w1 jobs1 b. recoverExpired out service jobs now w = (w1, Inr (jobs1, b))
    \<and> (\<forall>job \<in> set jobs1. \<exists>due further.
         collectDue (ou_lib out) (rt_schedule job) (js_NextRunAt (rt_state job)) now (se_catchUpLimit service) = Inr (due, further)
         \<and> (\<forall>d \<in> set due. recorded (wo_store w') (OccurrenceID (ou_digest out) (rt_name job) (du_scheduledAt d))))
    \<and> (\<not> immediate \<longrightarrow> (\<forall>job \<in> set jobs'. now < js_NextRunAt (rt_state job)))"
proof -
  obtain w1 jobs1 b where r: "recoverExpired out service jobs now w = (w1, Inr (jobs1, b))"
    and c: "cycle_jobs out service now b jobs1 w1 = (w', Inr (jobs', immediate))"
    using assms(3) by (auto simp: cycle_def split: prod.splits sum.splits)
  from memory.cycle_jobs_handled [OF assms(1,2) c] r show ?thesis by blast
qed

subsection \<open>What is started\<close>

lemma skip_starts: "skip out service job d reason w = (w', r) \<Longrightarrow> wo_started w' = wo_started w"
  by (auto simp: skip_def Let_def tick_def split: prod.splits option.splits)

lemma claim_starts: "claimAndRun out service job d w = (w', r) \<Longrightarrow>
    wo_started w' = wo_started w \<or> (\<exists>i. wo_started w' = i # wo_started w)"
  by (auto simp: claimAndRun_def Let_def tick_def startInvocation_def split: prod.splits sum.splits if_splits)

lemma due_loop_starts:
  "due_loop out service first i ds job w = (w', r) \<Longrightarrow>
     \<exists>new. wo_started w' = new @ wo_started w \<and> length new \<le> length ds - (first - i)"
proof (induction ds arbitrary: i job w)
  case (Cons d ds)
  show ?case
  proof (cases "i < first")
    case True
    then obtain w1 r1 where s: "skip out service job d
        (if rt_startup job \<and> jc_catchUp (rj_config (rt_registered job)) = CatchUpNone then ''catch_up_disabled'' else ''superseded'') w
        = (w1, r1)" by fastforce
    note same = skip_starts [OF s]
    show ?thesis
    proof (cases r1)
      case (Inr job1)
      with Cons.prems s True have "due_loop out service first (Suc i) ds job1 w1 = (w', r)" by simp
      from Cons.IH [OF this] same True show ?thesis by (auto simp: Suc_diff_Suc)
    qed (use Cons.prems s True same in auto)
  next
    case False
    then obtain w1 r1 where s: "claimAndRun out service job d w = (w1, r1)" by fastforce
    from claim_starts [OF s] obtain new1 where n1: "wo_started w1 = new1 @ wo_started w" "length new1 \<le> 1" by force
    show ?thesis
    proof (cases r1)
      case (Inr z)
      then obtain job1 x where "r1 = Inr (job1, x)" by (cases z) auto
      with Cons.prems s False have "due_loop out service first (Suc i) ds job1 w1 = (w', r)" by simp
      from Cons.IH [OF this] obtain new where "wo_started w' = new @ wo_started w1" "length new \<le> length ds" using False by auto
      with n1 False show ?thesis by (intro exI [of _ "new @ new1"]) simp
    qed (use Cons.prems s False n1 in auto)
  qed
qed auto

text \<open>
  C35. The catch-up policy bounds what one cycle starts for a job, whatever the store answers:
  nothing for occurrences missed before the start when catch-up is off, nothing while more is
  due than the limit unless every occurrence is to run, otherwise at most the latest one, and
  never more than the limit.
\<close>
theorem policy_bounds_starts:
  assumes c: "collectDue (ou_lib out) (rt_schedule job) (js_NextRunAt (rt_state job)) now (se_catchUpLimit service) = Inr (due, further)"
    and r: "cycle_job out service now job w = (w', res)"
    and p: "policy = jc_catchUp (rj_config (rt_registered job))"
  shows "\<exists>new. wo_started w' = new @ wo_started w \<and> length new \<le> nat (se_catchUpLimit service)
    \<and> (policy \<noteq> CatchUpAll \<longrightarrow> length new \<le> 1)
    \<and> (policy \<noteq> CatchUpAll \<and> further \<longrightarrow> new = [])
    \<and> (policy = CatchUpNone \<and> rt_startup job \<longrightarrow> new = [])"
proof (cases "due = []")
  case True
  with r c show ?thesis by (auto simp: cycle_job_def)
next
  case False
  let ?first = "occurrenceRunIndex policy (length due) (rt_startup job) further"
  obtain r1 where "due_loop out service ?first 0 due job w = (w', r1)"
    using r c p False by (auto simp: cycle_job_def split: prod.splits sum.splits)
  from due_loop_starts [OF this] obtain new where n: "wo_started w' = new @ wo_started w" "length new \<le> length due - ?first" by auto
  have "length due \<le> nat (se_catchUpLimit service)"
    using collect_loop_Inr [OF c [unfolded collectDue_def]] by simp
  moreover have "policy \<noteq> CatchUpAll \<longrightarrow> length due - ?first \<le> 1" "policy \<noteq> CatchUpAll \<and> further \<longrightarrow> length due - ?first = 0"
    "policy = CatchUpNone \<and> rt_startup job \<longrightarrow> length due - ?first = 0"
    using False by (auto simp: occurrenceRunIndex_def status_simps)
  ultimately show ?thesis using n by (intro exI [of _ new]) auto
qed

text \<open>
  What is started is leased: when a claim of the scheduler is acquired, the invocation it
  starts names an occurrence that the store has recorded as running under the very token the
  invocation carries, with the attempt of that record.
\<close>
theorem started_under_lease:
  assumes s: "se_store service = memory_IStore lib digest"
    and ok: "claimAndRun out service job d w = (w', Inr (job', ClaimAcquired))"
  shows "\<exists>i token e. wo_started w' = (i, token) # wo_started w
    \<and> map_of (ms_occurrences (wo_store w')) (OccurrenceID (ou_digest out) (rt_name job) (du_scheduledAt d)) = Some e
    \<and> oc_Status e = OccurrenceRunning \<and> oc_LeaseToken e = token
    \<and> iv_Attempt i = oc_Attempt e \<and> iv_JobName i = oc_JobName e \<and> iv_ScheduledAt i = oc_ScheduledAt e"
proof -
  obtain token where t: "randomIdentity ''lease'' (ou_random out (wo_tick w)) = Inr token"
    using ok by (auto simp: claimAndRun_def Let_def split: sum.splits)
  let ?r = "\<lparr>cl_OccurrenceID = OccurrenceID (ou_digest out) (rt_name job) (du_scheduledAt d), cl_JobName = rt_name job,
    cl_ScheduledAt = du_scheduledAt d, cl_NextRunAt = du_nextRunAt d, cl_LeaseOwner = se_leaseOwner service,
    cl_LeaseToken = token, cl_ClaimedAt = ou_now out (wo_tick w),
    cl_LeaseUntil = ou_now out (wo_tick w) + se_leaseDuration service\<rparr>"
  obtain st res where c: "Store_Claim lib digest (ou_ctx out (wo_tick w)) ?r (wo_store w) = (st, Inr res)"
    using ok s t by (auto simp: claimAndRun_def Let_def memory_IStore_def split: prod.splits sum.splits)
  then have w': "cr_Disposition res = ClaimAcquired" "wo_store w' = st"
    "wo_started w' = (\<lparr>iv_ID = oc_ID (cr_Occurrence res), iv_JobName = oc_JobName (cr_Occurrence res),
       iv_ScheduledAt = oc_ScheduledAt (cr_Occurrence res), iv_StartedAt = oc_StartedAt (cr_Occurrence res),
       iv_Attempt = oc_Attempt (cr_Occurrence res)\<rparr>, token) # wo_started w"
    using ok s t by (auto simp: claimAndRun_def Let_def startInvocation_def tick_def memory_IStore_def split: if_splits)
  obtain state e where "res = \<lparr>cr_Disposition = ClaimAcquired, cr_Occurrence = e\<rparr>" and o': "claim_outcome ?r (wo_store w) state st ClaimAcquired e"
  proof (cases rule: Claim_cases [of lib digest "ou_ctx out (wo_tick w)" ?r "wo_store w"])
    case (answered state st'' dd e)
    from answered(1) c have "st'' = st" "res = \<lparr>cr_Disposition = dd, cr_Occurrence = e\<rparr>" by auto
    with w'(1) answered(3) show thesis by (intro that [of e state]) auto
  qed (use c in simp)
  from o' have "map_of (ms_occurrences st) (OccurrenceID (ou_digest out) (rt_name job) (du_scheduledAt d)) = Some e
      \<and> oc_Status e = OccurrenceRunning \<and> oc_LeaseToken e = token"
    by cases (auto simp: update_conv' reclaimed_def first_claim_def)
  with w' \<open>res = _\<close> show ?thesis by auto
qed

subsection \<open>What is recorded at the end\<close>

lemma length_TrimSpace: "length (TrimSpace s) \<le> length s"
  by (simp add: TrimSpace_def) (metis length_dropWhile_le length_rev order_trans)

lemma length_drop_to_valid: "length (drop_to_valid s) \<le> length s"
proof (induction s rule: drop_to_valid.induct)
  case (1 s)
  then show ?case by (cases "valid_utf8 0 s \<or> s = []") (auto simp: drop_to_valid.simps [of s])
qed

lemma length_boundedError: "length (boundedError err) \<le> maxStoreTextBytes"
proof -
  have "length (TrimSpace (drop_to_valid (take maxRecordedError m))) \<le> maxRecordedError" for m
    using length_TrimSpace length_drop_to_valid by (metis le_trans length_take min.cobounded2)
  then show ?thesis
    by (auto simp: boundedError_def Let_def maxRecordedError_def maxStoreTextBytes_def split: option.split)
qed

text \<open>
  However a handler ends (returning, failing, cancelled, panicking, with a message of any
  length), the completion that its scheduler offers is well formed: as long as its token still
  owns a live lease, the store accepts it, and the record becomes succeeded, failed or cancelled
  accordingly with a bounded message.
\<close>
theorem completion_accepted:
  assumes s: "se_store service = memory_IStore lib digest"
    and h: "holds_lease (map_of (ms_occurrences (wo_store w)) (iv_ID i)) token (ou_now out (wo_tick w))"
    and wf: "iv_ID i \<noteq> []" "token \<noteq> []" "length token \<le> maxLeaseTokenBytes" "ou_now out (wo_tick w) \<noteq> 0"
  shows "\<exists>w' e e'. finish_invocation out service i token result None w = (w', [])
    \<and> map_of (ms_occurrences (wo_store w)) (iv_ID i) = Some e \<and> map_of (ms_occurrences (wo_store w')) (iv_ID i) = Some e'
    \<and> oc_Status e' = (case callJob result of None \<Rightarrow> OccurrenceSucceeded
          | Some (canceled, _) \<Rightarrow> if canceled then OccurrenceCanceled else OccurrenceFailed)
    \<and> length (oc_Error e') \<le> 4096 \<and> oc_JobName e' = oc_JobName e \<and> oc_ScheduledAt e' = oc_ScheduledAt e"
proof -
  let ?err = "boundedError (map_option snd (callJob result))"
  let ?m = "\<lparr>cm_OccurrenceID = iv_ID i, cm_LeaseToken = token, cm_Status = completion_status (callJob result),
    cm_FinishedAt = ou_now out (wo_tick w), cm_Error = ?err\<rparr>"
  from holds_lease_Some [OF h] obtain e where e: "map_of (ms_occurrences (wo_store w)) (iv_ID i) = Some e" by auto
  have t: "terminalCompletion (completion_status (callJob result))"
    by (auto simp: completion_status_def terminalCompletion_def split: option.split)
  have none: "completion_status (callJob result) = OccurrenceSucceeded \<longrightarrow> ?err = []"
    by (auto simp: completion_status_def boundedError_def OccurrenceSucceeded_def OccurrenceCanceled_def OccurrenceFailed_def
        split: option.splits)
  have "Store_Complete LiveContext ?m (wo_store w) = (put_occurrence (completed ?m e) (iv_ID i) (wo_store w), None)"
    using h e wf t none length_boundedError [of "map_option snd (callJob result)"]
    by (simp add: Store_Complete_def IsZero_def)
  then show ?thesis
    using e length_boundedError [of "map_option snd (callJob result)"]
    by (simp add: finish_invocation_def Let_def s memory_IStore_def tick_def completed_def update_conv' completion_status_def
        maxStoreTextBytes_def)
qed

subsection \<open>A second scheduler\<close>

text \<open>
  A scheduler started on the store of the demonstration: it read the cursor before the first
  scheduler claimed the occurrence, and its clock stands at ten seconds past the hour.
\<close>

definition demo_out :: outside where
  "demo_out = \<lparr>ou_lib = demo_lib, ou_digest = demo_digest, ou_now = (\<lambda>_. demo_t 3610),
     ou_random = (\<lambda>_. Some ''00''), ou_ctx = (\<lambda>_. LiveContext)\<rparr>"

definition demo_registered :: "unit registeredJob" where
  "demo_registered = \<lparr>rj_name = ''tick'', rj_schedule = demo_hourly, rj_handler = (),
     rj_config = \<lparr>jc_catchUp = CatchUpNone, jc_overlap = OverlapSkip\<rparr>\<rparr>"

definition demo_service :: "(MemoryStore, unit) Service" where
  "demo_service = \<lparr>se_store = memory_IStore demo_lib demo_digest, se_jobs = [demo_registered],
     se_leaseDuration = 30 * second, se_catchUpLimit = 10, se_leaseOwner = ''runner''\<rparr>"

definition demo_runtime :: "unit runtimeJob" where
  "demo_runtime = \<lparr>rt_registered = demo_registered, rt_schedule = Schedule_Anchor (demo_t 0) demo_hourly,
     rt_state = demo_state, rt_startup = True\<rparr>"

definition demo_world :: "MemoryStore \<Rightarrow> MemoryStore world" where
  "demo_world st = \<lparr>wo_store = st, wo_tick = 0, wo_started = []\<rparr>"

definition demo_due :: dueOccurrence where
  "demo_due = \<lparr>du_scheduledAt = demo_t 3600, du_nextRunAt = demo_t 7200\<rparr>"

lemma demo_collect:
  "collectDue demo_lib (Schedule_Anchor (demo_t 0) demo_hourly) (demo_t 3600) (demo_t 3610) 10 = Inr ([demo_due], False)"
proof -
  have "collect_loop demo_lib (Schedule_Anchor (demo_t 0) demo_hourly) (demo_t 3610) (demo_t 7200) 9 = Inr ([], False)"
    using collect_loop.simps(2) [of demo_lib "Schedule_Anchor (demo_t 0) demo_hourly" "demo_t 3610" "demo_t 7200" 8]
    by (simp add: numeral_eq_Suc)
  moreover have "nat 10 = Suc 9" by simp
  ultimately show ?thesis using demo_next [of 1]
    unfolding collectDue_def \<open>nat 10 = Suc 9\<close> collect_loop.simps(2) by (simp add: demo_due_def)
qed

lemma demo_recover:
  assumes "\<forall>r \<in> snd ` set (ms_occurrences st). durablyAfter (oc_LeaseUntil r) (demo_t 3610)"
  shows "recoverExpired demo_out demo_service [demo_runtime] (demo_t 3610) (demo_world st) = (tick (demo_world st), Inr ([demo_runtime], False))"
proof -
  have "filter (\<lambda>o'. \<not> (oc_Status o' \<noteq> OccurrenceRunning \<or> durablyAfter (oc_LeaseUntil o') (demo_t 3610))
      \<and> map_of (ms_jobs st) (oc_JobName o') \<noteq> None) (map snd (ms_occurrences st)) = []"
    using assms by (auto simp: filter_empty_conv)
  then have "Store_Expired LiveContext (demo_t 3610) 10 st = Inr []"
    by (simp add: Store_Expired_def IsZero_def unixEpoch_def maxCatchUpLimit_def)
  then show ?thesis
    by (simp add: recoverExpired_def demo_out_def demo_service_def memory_IStore_def demo_world_def)
qed

lemma demo_cycle_eq:
  assumes "\<forall>r \<in> snd ` set (ms_occurrences st). durablyAfter (oc_LeaseUntil r) (demo_t 3610)"
  shows "cycle demo_out demo_service [demo_runtime] (demo_t 3610) (demo_world st) =
    (case skip demo_out demo_service demo_runtime demo_due ''catch_up_disabled'' (tick (demo_world st)) of
       (w', Inl err) \<Rightarrow> (w', Inl err) | (w', Inr job') \<Rightarrow> (w', Inr ([job'\<lparr>rt_startup := False\<rparr>], False)))"
proof -
  have "rt_startup demo_runtime" "jc_catchUp (rj_config (rt_registered demo_runtime)) = CatchUpNone"
    "rt_schedule demo_runtime = Schedule_Anchor (demo_t 0) demo_hourly" "js_NextRunAt (rt_state demo_runtime) = demo_t 3600"
    "ou_lib demo_out = demo_lib" "se_catchUpLimit demo_service = 10"
    by (simp_all add: demo_runtime_def demo_registered_def demo_state_def demo_out_def demo_service_def)
  then show ?thesis
    using demo_recover [OF assms] demo_collect
    by (simp add: cycle_def cycle_job_def occurrenceRunIndex_def status_simps split: prod.splits sum.splits)
qed

lemma demo_skip_request:
  "skip demo_out demo_service demo_runtime demo_due ''catch_up_disabled'' (tick (demo_world st)) =
    (case Store_Skip demo_lib demo_digest LiveContext \<lparr>sk_OccurrenceID = demo_key, sk_JobName = ''tick'', sk_ScheduledAt = demo_t 3600,
        sk_NextRunAt = demo_t 7200, sk_SkippedAt = demo_t 3610, sk_Reason = ''catch_up_disabled''\<rparr> st of
       (st', Some e) \<Rightarrow> ((tick (tick (demo_world st)))\<lparr>wo_store := st'\<rparr>, Inl (ErrStoreCall ''skip'' e))
     | (st', None) \<Rightarrow> ((tick (tick (demo_world st)))\<lparr>wo_store := st'\<rparr>,
         Inr (demo_runtime\<lparr>rt_state := demo_state\<lparr>js_NextRunAt := demo_t 7200, js_UpdatedAt := demo_t 3610\<rparr>\<rparr>)))"
  by (simp add: skip_def Let_def demo_out_def demo_service_def memory_IStore_def demo_world_def tick_def demo_due_def
      rt_name_def demo_runtime_def demo_registered_def split: prod.splits option.splits)

lemma demo_skip_valid: "validateSkip demo_digest \<lparr>sk_OccurrenceID = demo_key, sk_JobName = ''tick'', sk_ScheduledAt = demo_t 3600,
    sk_NextRunAt = demo_t 7200, sk_SkippedAt = demo_t 3610, sk_Reason = ''catch_up_disabled''\<rparr> = None"
proof -
  have "demo_key \<noteq> []" by (simp add: OccurrenceID_def)
  then show ?thesis by (simp add: validateSkip_def IsZero_def unixEpoch_def maxStoreTextBytes_def)
qed


subsection \<open>The theorems applied\<close>

theorem collectDue_exact_witness:
  "length [demo_due] \<le> nat 10
   \<and> (\<forall>d \<in> set [demo_due]. du_scheduledAt d \<le> demo_t 3610
        \<and> Schedule_Next demo_lib (Schedule_Anchor (demo_t 0) demo_hourly) (du_scheduledAt d) = Inr (du_nextRunAt d))
   \<and> (\<forall>i < length [demo_due]. du_scheduledAt ([demo_due] ! i) = (if i = 0 then demo_t 3600 else du_nextRunAt ([demo_due] ! (i - 1))))
   \<and> (False \<longleftrightarrow> (if [demo_due] = [] then demo_t 3600 else du_nextRunAt (last [demo_due])) \<le> demo_t 3610)
   \<and> (False \<longrightarrow> length [demo_due] = nat 10)"
  by (rule collectDue_exact [OF demo_collect])

lemma demo_cycle_ok: "\<exists>w' jobs'. cycle demo_out demo_service [demo_runtime] (demo_t 3610) (demo_world demo_store) = (w', Inr (jobs', False))"
proof -
  have "follows demo_lib demo_state (demo_t 3600) (demo_t 7200)"
    using demo_anchored_reads demo_next [of 1] by (auto simp: follows_iff demo_state_def)
  moreover have "map_of (ms_jobs demo_store) ''tick'' = Some demo_state" "map_of (ms_occurrences demo_store) demo_key = None"
    "js_NextRunAt demo_state = demo_t 3600" by (simp_all add: demo_store_def demo_state_def)
  ultimately have "\<exists>st'. Store_Skip demo_lib demo_digest LiveContext \<lparr>sk_OccurrenceID = demo_key, sk_JobName = ''tick'', sk_ScheduledAt = demo_t 3600,
      sk_NextRunAt = demo_t 7200, sk_SkippedAt = demo_t 3610, sk_Reason = ''catch_up_disabled''\<rparr> demo_store = (st', None)"
    using demo_skip_valid by (simp add: Store_Skip_def Let_def follows_def)
  moreover have "\<forall>r \<in> snd ` set (ms_occurrences demo_store). durablyAfter (oc_LeaseUntil r) (demo_t 3610)"
    by (simp add: demo_store_def)
  ultimately show ?thesis
    unfolding demo_cycle_eq [OF \<open>\<forall>r \<in> snd ` set (ms_occurrences demo_store). _\<close>] demo_skip_request by auto
qed

theorem cycle_leaves_nothing_due_witness:
  "\<exists>w' jobs' w1 jobs1 b. cycle demo_out demo_service [demo_runtime] (demo_t 3610) (demo_world demo_store) = (w', Inr (jobs', False))
    \<and> recoverExpired demo_out demo_service [demo_runtime] (demo_t 3610) (demo_world demo_store) = (w1, Inr (jobs1, b))
    \<and> (\<forall>job \<in> set jobs1. \<exists>due further.
         collectDue (ou_lib demo_out) (rt_schedule job) (js_NextRunAt (rt_state job)) (demo_t 3610) (se_catchUpLimit demo_service) = Inr (due, further)
         \<and> (\<forall>d \<in> set due. recorded (wo_store w') (OccurrenceID (ou_digest demo_out) (rt_name job) (du_scheduledAt d))))
    \<and> (\<forall>job \<in> set jobs'. demo_t 3610 < js_NextRunAt (rt_state job))"
proof -
  obtain w' jobs' where c: "cycle demo_out demo_service [demo_runtime] (demo_t 3610) (demo_world demo_store) = (w', Inr (jobs', False))"
    using demo_cycle_ok by auto
  have "se_store demo_service = memory_IStore demo_lib demo_digest" "0 < se_catchUpLimit demo_service"
    by (simp_all add: demo_service_def)
  from cycle_leaves_nothing_due [OF this c] c show ?thesis by blast
qed

lemma demo_runtime_collect:
  "collectDue (ou_lib demo_out) (rt_schedule demo_runtime) (js_NextRunAt (rt_state demo_runtime)) (demo_t 3610)
     (se_catchUpLimit demo_service) = Inr ([demo_due], False)"
  using demo_collect by (simp add: demo_out_def demo_runtime_def demo_state_def demo_service_def)

theorem policy_bounds_starts_witness:
  "\<exists>w' res new. cycle_job demo_out demo_service (demo_t 3610) demo_runtime (demo_world demo_store) = (w', res)
    \<and> wo_started w' = new @ wo_started (demo_world demo_store) \<and> new = []"
proof -
  obtain w' res where c: "cycle_job demo_out demo_service (demo_t 3610) demo_runtime (demo_world demo_store) = (w', res)" by fastforce
  from policy_bounds_starts [OF demo_runtime_collect c refl] have "\<exists>new. wo_started w' = new @ wo_started (demo_world demo_store)
    \<and> (jc_catchUp (rj_config (rt_registered demo_runtime)) = CatchUpNone \<and> rt_startup demo_runtime \<longrightarrow> new = [])" by blast
  with c show ?thesis by (auto simp: demo_runtime_def demo_registered_def)
qed

lemma demo_claimAndRun: "\<exists>w' job'. claimAndRun demo_out demo_service demo_runtime demo_due (demo_world demo_store) = (w', Inr (job', ClaimAcquired))"
proof -
  have r: "\<lparr>cl_OccurrenceID = demo_key, cl_JobName = ''tick'', cl_ScheduledAt = demo_t 3600, cl_NextRunAt = demo_t 7200,
      cl_LeaseOwner = ''runner'', cl_LeaseToken = ''lease_00'', cl_ClaimedAt = demo_t 3610, cl_LeaseUntil = demo_t 3610 + 30 * second\<rparr>
    = demo_claim ''lease_00'' 3610" by (simp add: demo_claim_def)
  obtain st' where "Store_Claim demo_lib demo_digest LiveContext (demo_claim ''lease_00'' 3610) demo_store =
     (st', Inr \<lparr>cr_Disposition = ClaimAcquired, cr_Occurrence = first_claim (demo_claim ''lease_00'' 3610)\<rparr>)"
    using demo_fresh [of "''lease_00''" 3610] by auto
  note c = this [folded r]
  have "randomIdentity ''lease'' (Some ''00'') = Inr ''lease_00''" by (simp add: randomIdentity_def)
  then show ?thesis
    using c by (simp add: claimAndRun_def Let_def demo_out_def demo_service_def memory_IStore_def demo_world_def demo_due_def
        rt_name_def demo_runtime_def demo_registered_def)
qed

theorem started_under_lease_witness:
  "\<exists>w' job' i token e. claimAndRun demo_out demo_service demo_runtime demo_due (demo_world demo_store) = (w', Inr (job', ClaimAcquired))
    \<and> wo_started w' = (i, token) # wo_started (demo_world demo_store)
    \<and> map_of (ms_occurrences (wo_store w')) (OccurrenceID (ou_digest demo_out) (rt_name demo_runtime) (du_scheduledAt demo_due)) = Some e
    \<and> oc_Status e = OccurrenceRunning \<and> oc_LeaseToken e = token
    \<and> iv_Attempt i = oc_Attempt e \<and> iv_JobName i = oc_JobName e \<and> iv_ScheduledAt i = oc_ScheduledAt e"
proof -
  obtain w' job' where c: "claimAndRun demo_out demo_service demo_runtime demo_due (demo_world demo_store) = (w', Inr (job', ClaimAcquired))"
    using demo_claimAndRun by auto
  have "se_store demo_service = memory_IStore demo_lib demo_digest" by (simp add: demo_service_def)
  from started_under_lease [OF this c] c show ?thesis by blast
qed

definition demo_invocation :: Invocation where
  "demo_invocation = \<lparr>iv_ID = demo_key, iv_JobName = ''tick'', iv_ScheduledAt = demo_t 3600, iv_StartedAt = demo_t 3601, iv_Attempt = 1\<rparr>"

theorem completion_accepted_witness:
  "\<exists>w' e e'. finish_invocation demo_out demo_service demo_invocation ''t1'' (Panics ''boom'') None (demo_world demo_claimed) = (w', [])
    \<and> map_of (ms_occurrences (wo_store (demo_world demo_claimed))) (iv_ID demo_invocation) = Some e
    \<and> map_of (ms_occurrences (wo_store w')) (iv_ID demo_invocation) = Some e'
    \<and> oc_Status e' = (case callJob (Panics ''boom'') of None \<Rightarrow> OccurrenceSucceeded
          | Some (canceled, _) \<Rightarrow> if canceled then OccurrenceCanceled else OccurrenceFailed)
    \<and> length (oc_Error e') \<le> 4096 \<and> oc_JobName e' = oc_JobName e \<and> oc_ScheduledAt e' = oc_ScheduledAt e"
proof (rule completion_accepted)
  show "se_store demo_service = memory_IStore demo_lib demo_digest" by (simp add: demo_service_def)
  have "oc_LeaseUntil (first_claim (demo_claim ''t1'' 3601)) = demo_t 3631" by (simp add: first_claim_def demo_claim_def)
  then have "durablyAfter (oc_LeaseUntil (first_claim (demo_claim ''t1'' 3601))) (demo_t 3610)"
    using demo_durably [of 3631 3610] by simp
  then show "holds_lease (map_of (ms_occurrences (wo_store (demo_world demo_claimed))) (iv_ID demo_invocation)) ''t1''
      (ou_now demo_out (wo_tick (demo_world demo_claimed)))"
    by (simp add: holds_lease_def demo_world_def demo_claimed_def demo_invocation_def demo_out_def first_claim_def)
      (simp add: demo_claim_def)
qed (simp_all add: demo_invocation_def OccurrenceID_def maxLeaseTokenBytes_def demo_out_def unixEpoch_def)

end
