(* ===== verification/Live_Protocol.thy ===== *)
theory Live_Protocol
  imports Warden_Prelude Go_Utf8
begin

text \<open>
  The wire protocol of gotth-live: \<^verbatim>\<open>pkg/gotth/internal/protocol\<close> over the messages and
  refinement predicates of \<^verbatim>\<open>proto/gotthlive/v1/frame.proto\<close>.

  A frame is a record with the member of its payload oneof, if one is set. Enumerations are
  open in protobuf, so they are integers with named constants. The validators generated from
  the predicates are written out. \<^verbatim>\<open>proto.Marshal\<close> and \<^verbatim>\<open>proto.Unmarshal\<close> are parameters: the
  encoded size of a frame if it can be encoded, and the frame of a byte string if it has one.
\<close>

subsection \<open>Enumerations\<close>

definition PatchOp_MORPH :: int where "PatchOp_MORPH = 1"
definition PatchOp_APPEND :: int where "PatchOp_APPEND = 2"
definition PatchOp_PREPEND :: int where "PatchOp_PREPEND = 3"
definition PatchOp_REMOVE :: int where "PatchOp_REMOVE = 4"

definition OriginKind_CLIENT_EVENT :: int where "OriginKind_CLIENT_EVENT = 1"
definition OriginKind_EFFECT :: int where "OriginKind_EFFECT = 2"
definition OriginKind_TIMER :: int where "OriginKind_TIMER = 3"
definition OriginKind_MOUNT :: int where "OriginKind_MOUNT = 5"
definition OriginKind_RESYNC :: int where "OriginKind_RESYNC = 6"

definition ErrorCode_UNSUPPORTED_VERSION :: int where "ErrorCode_UNSUPPORTED_VERSION = 1"
definition ErrorCode_UNAUTHORIZED :: int where "ErrorCode_UNAUTHORIZED = 2"
definition ErrorCode_INVALID_FRAME :: int where "ErrorCode_INVALID_FRAME = 3"
definition ErrorCode_UNKNOWN_EVENT :: int where "ErrorCode_UNKNOWN_EVENT = 4"
definition ErrorCode_UNKNOWN_FRAGMENT :: int where "ErrorCode_UNKNOWN_FRAGMENT = 5"
definition ErrorCode_RATE_LIMITED :: int where "ErrorCode_RATE_LIMITED = 6"
definition ErrorCode_INTERNAL :: int where "ErrorCode_INTERNAL = 7"

lemmas enum_defs = PatchOp_MORPH_def PatchOp_APPEND_def PatchOp_PREPEND_def PatchOp_REMOVE_def
  OriginKind_CLIENT_EVENT_def OriginKind_EFFECT_def OriginKind_TIMER_def OriginKind_MOUNT_def OriginKind_RESYNC_def
  ErrorCode_UNSUPPORTED_VERSION_def ErrorCode_UNAUTHORIZED_def ErrorCode_INVALID_FRAME_def
  ErrorCode_UNKNOWN_EVENT_def ErrorCode_UNKNOWN_FRAGMENT_def ErrorCode_RATE_LIMITED_def ErrorCode_INTERNAL_def

datatype CloseCode =
    CloseNone | CloseNormal | CloseGoingAway | CloseProtocolViolation | CloseUnsupportedVersion
  | CloseUnauthenticated | CloseForbiddenOrigin | CloseUnauthorized | CloseFrameTooLarge
  | CloseRateLimited | CloseSlowClient | CloseHeartbeatTimeout | CloseSessionEvicted
  | CloseInternalError | CloseResyncFailed

fun CloseCode_Label :: "CloseCode \<Rightarrow> string" where
  "CloseCode_Label CloseNormal = ''normal''"
| "CloseCode_Label CloseGoingAway = ''going_away''"
| "CloseCode_Label CloseProtocolViolation = ''protocol_violation''"
| "CloseCode_Label CloseUnsupportedVersion = ''unsupported_version''"
| "CloseCode_Label CloseUnauthenticated = ''unauthenticated''"
| "CloseCode_Label CloseForbiddenOrigin = ''forbidden_origin''"
| "CloseCode_Label CloseUnauthorized = ''unauthorized''"
| "CloseCode_Label CloseFrameTooLarge = ''frame_too_large''"
| "CloseCode_Label CloseRateLimited = ''rate_limited''"
| "CloseCode_Label CloseSlowClient = ''slow_client''"
| "CloseCode_Label CloseHeartbeatTimeout = ''heartbeat_timeout''"
| "CloseCode_Label CloseSessionEvicted = ''session_evicted''"
| "CloseCode_Label CloseInternalError = ''internal_error''"
| "CloseCode_Label CloseResyncFailed = ''resync_failed''"
| "CloseCode_Label CloseNone = ''unenumerated''"

definition CloseCode_Valid :: "CloseCode \<Rightarrow> bool" where
  "CloseCode_Valid c \<longleftrightarrow> c \<noteq> CloseNone"

datatype Kind = KindUnknown | KindEvent | KindAck | KindHeartbeat | KindClientTelemetry
  | KindResyncRequest | KindPatch | KindSnapshot | KindError

fun Kind_String :: "Kind \<Rightarrow> string" where
  "Kind_String KindUnknown = ''unknown''"
| "Kind_String KindEvent = ''event''"
| "Kind_String KindAck = ''ack''"
| "Kind_String KindHeartbeat = ''heartbeat''"
| "Kind_String KindClientTelemetry = ''client_telemetry''"
| "Kind_String KindResyncRequest = ''resync_request''"
| "Kind_String KindPatch = ''patch''"
| "Kind_String KindSnapshot = ''snapshot''"
| "Kind_String KindError = ''error''"

definition ClientToServer :: "Kind \<Rightarrow> bool" where
  "ClientToServer k \<longleftrightarrow> k \<in> {KindEvent, KindAck, KindHeartbeat, KindClientTelemetry, KindResyncRequest}"

subsection \<open>Frames\<close>

record Causal =
  ca_ServerSeq :: "64 word"
  ca_PatchID :: "64 word"
  ca_TransitionID :: "64 word"
  ca_StateVersion :: "64 word"

record Origin =
  og_Kind :: int
  og_EventID :: "64 word"
  og_ClientRef :: "64 word"
  og_Source :: string
  og_Contributing :: "64 word list"

record Update =
  up_FragmentID :: string
  up_Op :: int
  up_HTML :: string

record SessionParams =
  sp_HeartbeatIntervalMS :: "32 word"
  sp_MaxInboundFrameBytes :: "32 word"
  sp_AckWindow :: "32 word"

record Supersession =
  su_FromSeq :: "64 word"
  su_ThroughSeq :: "64 word"

record EventField =
  ef_Key :: string
  ef_Value :: string

record pbEvent =
  pe_ClientRef :: "64 word"
  pe_Name :: string
  pe_FragmentId :: string
  pe_SeenServerSeq :: "64 word"
  pe_Fields :: "EventField list"

record pbError =
  px_Code :: int
  px_Message :: string
  px_EventId :: "64 word"
  px_ClientRef :: "64 word"
  px_Fatal :: bool

datatype Payload =
    Frame_Event pbEvent
  | Frame_Ack "64 word"
  | Frame_Heartbeat "64 word" "32 word"
  | Frame_ClientTelemetry "64 word" "32 word" "32 word"
  | Frame_ResyncRequest "64 word" int
  | Frame_Patch Causal "Origin option" "Update list"
  | Frame_Snapshot Causal "Origin option" SessionParams "Update list" Supersession
  | Frame_Error pbError

record Frame =
  fr_ProtocolVersion :: "32 word"
  fr_SessionId :: string
  fr_Payload :: "Payload option"

fun payload_kind :: "Payload option \<Rightarrow> Kind" where
  "payload_kind None = KindUnknown"
| "payload_kind (Some (Frame_Event e)) = KindEvent"
| "payload_kind (Some (Frame_Ack n)) = KindAck"
| "payload_kind (Some (Frame_Heartbeat n i)) = KindHeartbeat"
| "payload_kind (Some (Frame_ClientTelemetry p m a)) = KindClientTelemetry"
| "payload_kind (Some (Frame_ResyncRequest n r)) = KindResyncRequest"
| "payload_kind (Some (Frame_Patch c o' us)) = KindPatch"
| "payload_kind (Some (Frame_Snapshot c o' p us s)) = KindSnapshot"
| "payload_kind (Some (Frame_Error e)) = KindError"

definition KindOf :: "Frame \<Rightarrow> Kind" where
  "KindOf f = payload_kind (fr_Payload f)"

definition protocol_Version :: "32 word" where "protocol_Version = 1"

definition new_frame :: "string \<Rightarrow> Payload \<Rightarrow> Frame" where
  "new_frame session p = \<lparr>fr_ProtocolVersion = protocol_Version, fr_SessionId = session, fr_Payload = Some p\<rparr>"

definition NewPatch :: "string \<Rightarrow> Causal \<Rightarrow> Origin \<Rightarrow> Update list \<Rightarrow> Frame" where
  "NewPatch session c o' updates = new_frame session (Frame_Patch c (Some o') updates)"

definition NewSnapshot ::
  "string \<Rightarrow> Causal \<Rightarrow> Origin \<Rightarrow> SessionParams \<Rightarrow> Supersession \<Rightarrow> Update list \<Rightarrow> Frame" where
  "NewSnapshot session c o' p s updates = new_frame session (Frame_Snapshot c (Some o') p updates s)"

definition maxErrorMessage :: nat where "maxErrorMessage = 512"

fun back_to_rune :: "string \<Rightarrow> nat \<Rightarrow> nat" where
  "back_to_rune s 0 = 0"
| "back_to_rune s (Suc n) = (if RuneStart (s ! Suc n) then Suc n else back_to_rune s n)"

definition truncateMessage :: "string \<Rightarrow> string" where
  "truncateMessage s =
     (if length s \<le> maxErrorMessage then s
      else take (back_to_rune s (maxErrorMessage - 3)) s @ ''...'')"

definition NewError :: "string \<Rightarrow> int \<Rightarrow> string \<Rightarrow> 64 word \<Rightarrow> 64 word \<Rightarrow> bool \<Rightarrow> Frame" where
  "NewError session code message eventID clientRef fatal =
     new_frame session (Frame_Error \<lparr>px_Code = code, px_Message = truncateMessage message,
       px_EventId = eventID, px_ClientRef = clientRef, px_Fatal = fatal\<rparr>)"

definition NewHeartbeat :: "string \<Rightarrow> 64 word \<Rightarrow> 32 word \<Rightarrow> Frame" where
  "NewHeartbeat session nonce intervalMS = new_frame session (Frame_Heartbeat nonce intervalMS)"

definition NewAck :: "string \<Rightarrow> 64 word \<Rightarrow> Frame" where
  "NewAck session serverSeq = new_frame session (Frame_Ack serverSeq)"

subsection \<open>Origin sources\<close>

definition SourceMount :: string where "SourceMount = ''mount''"
definition SourceResync :: string where "SourceResync = ''resync''"
definition SourceEventPrefix :: string where "SourceEventPrefix = ''event:''"
definition SourceEffectPrefix :: string where "SourceEffectPrefix = ''effect:''"
definition SourceSlowClient :: string where "SourceSlowClient = ''timer:slow_client''"
definition SourceClientRecovered :: string where "SourceClientRecovered = ''timer:client_recovered''"
definition SourceEffectInvalid :: string where "SourceEffectInvalid = ''effect:invalid_source''"

definition MaxOriginSource :: nat where "MaxOriginSource = 64"

definition is_lower :: "char \<Rightarrow> bool" where
  "is_lower c \<longleftrightarrow> (of_char CHR ''a'' :: nat) \<le> of_char c \<and> (of_char c :: nat) \<le> of_char CHR ''z''"

definition is_upper :: "char \<Rightarrow> bool" where
  "is_upper c \<longleftrightarrow> (of_char CHR ''A'' :: nat) \<le> of_char c \<and> (of_char c :: nat) \<le> of_char CHR ''Z''"

definition is_digit :: "char \<Rightarrow> bool" where
  "is_digit c \<longleftrightarrow> (of_char CHR ''0'' :: nat) \<le> of_char c \<and> (of_char c :: nat) \<le> of_char CHR ''9''"

definition ValidOriginSource :: "string \<Rightarrow> bool" where
  "ValidOriginSource s \<longleftrightarrow>
     (case s of
        [] \<Rightarrow> False
      | c # cs \<Rightarrow> length s \<le> MaxOriginSource \<and> is_lower c
          \<and> list_all (\<lambda>c. is_lower c \<or> is_digit c \<or> c \<in> set ''_.:/-'') cs)"

subsection \<open>Refinement predicates\<close>

text \<open>The predicates of the schema. A violation names the field.\<close>

datatype frame_err =
    RefineFailed string
  | EnumUnspecified string
  | EnumUndeclared string int
  | ListBoundExceeded string nat nat
  | OrphanPatch
  | OriginEventId int
  | OriginClientRef int
  | ErrorCausalIds
  | SupersessionHalf
  | SupersessionKind
  | SupersessionEmpty
  | SupersessionNotPast
  | NoPayload
  | ServerNeverSends Kind
  | MarshalFailed
  | EmptyEncoding

fun first_err :: "'e option list \<Rightarrow> 'e option" where
  "first_err [] = None"
| "first_err (Some e # xs) = Some e"
| "first_err (None # xs) = first_err xs"

definition demand :: "bool \<Rightarrow> 'e \<Rightarrow> 'e option" where
  "demand ok e = (if ok then None else Some e)"

definition refine :: "string \<Rightarrow> bool \<Rightarrow> frame_err option" where
  "refine field ok = demand ok (RefineFailed field)"

definition fragment_charset :: "string \<Rightarrow> bool" where
  "fragment_charset s \<longleftrightarrow>
     0 < length s \<and> length s \<le> 64 \<and> list_all (\<lambda>c. is_upper c \<or> is_lower c \<or> is_digit c \<or> c \<in> set ''_:.-'') s"

definition event_name :: "string \<Rightarrow> bool" where
  "event_name s \<longleftrightarrow>
     0 < length s \<and> length s \<le> 64 \<and> is_lower (hd s)
     \<and> list_all (\<lambda>c. is_lower c \<or> is_digit c \<or> c \<in> set ''_.:-'') (tl s)"

definition field_key :: "string \<Rightarrow> bool" where
  "field_key s \<longleftrightarrow>
     0 < length s \<and> length s \<le> 128
     \<and> list_all (\<lambda>c. is_upper c \<or> is_lower c \<or> is_digit c \<or> c \<in> set ''_.[]-'') s"

definition origin_source :: "string \<Rightarrow> bool" where
  "origin_source s \<longleftrightarrow>
     0 < length s \<and> length s \<le> 64 \<and> is_lower (hd s)
     \<and> list_all (\<lambda>c. is_lower c \<or> is_digit c \<or> c \<in> set ''_.:/-'') (tl s)"

definition ValidateFrame :: "Frame \<Rightarrow> frame_err option" where
  "ValidateFrame f = first_err
     [refine ''protocol_version'' (fr_ProtocolVersion f > 0),
      refine ''session_id'' (length (fr_SessionId f) = 16)]"

definition ValidateEvent :: "pbEvent \<Rightarrow> frame_err option" where
  "ValidateEvent e = first_err
     [refine ''client_ref'' (pe_ClientRef e > 0), refine ''name'' (event_name (pe_Name e)),
      refine ''fragment_id'' (fragment_charset (pe_FragmentId e)), refine ''seen_server_seq'' (pe_SeenServerSeq e > 0)]"

definition ValidateEventField :: "EventField \<Rightarrow> frame_err option" where
  "ValidateEventField f = first_err
     [refine ''key'' (field_key (ef_Key f)), refine ''value'' (length (ef_Value f) \<le> 8192)]"

definition ValidateAck :: "64 word \<Rightarrow> frame_err option" where
  "ValidateAck n = refine ''server_seq'' (n > 0)"

definition ValidateResyncRequest :: "64 word \<Rightarrow> frame_err option" where
  "ValidateResyncRequest n = refine ''last_applied_seq'' (n > 0)"

definition ValidateClientTelemetry :: "64 word \<Rightarrow> 32 word \<Rightarrow> 32 word \<Rightarrow> frame_err option" where
  "ValidateClientTelemetry p m a = first_err
     [refine ''patch_id'' (p > 0), refine ''morph_micros'' (m \<le> 60000000), refine ''apply_micros'' (a \<le> 60000000)]"

definition ValidateCausal :: "Causal \<Rightarrow> frame_err option" where
  "ValidateCausal c = first_err
     [refine ''server_seq'' (ca_ServerSeq c > 0), refine ''patch_id'' (ca_PatchID c > 0),
      refine ''transition_id'' (ca_TransitionID c > 0), refine ''state_version'' (ca_StateVersion c > 0)]"

definition ValidateSnapshotParams :: "SessionParams \<Rightarrow> frame_err option" where
  "ValidateSnapshotParams p = first_err
     [refine ''heartbeat_interval_ms'' (1000 \<le> sp_HeartbeatIntervalMS p \<and> sp_HeartbeatIntervalMS p \<le> 300000),
      refine ''max_inbound_frame_bytes'' (1024 \<le> sp_MaxInboundFrameBytes p \<and> sp_MaxInboundFrameBytes p \<le> 1048576),
      refine ''ack_window'' (1 \<le> sp_AckWindow p \<and> sp_AckWindow p \<le> 256)]"

definition ValidateFragmentUpdate :: "Update \<Rightarrow> frame_err option" where
  "ValidateFragmentUpdate u = first_err
     [refine ''fragment_id'' (fragment_charset (up_FragmentID u)), refine ''html'' (length (up_HTML u) \<le> 1048576)]"

definition ValidateOrigin :: "Origin \<Rightarrow> frame_err option" where
  "ValidateOrigin o' = refine ''source'' (origin_source (og_Source o'))"

definition ValidateError :: "pbError \<Rightarrow> frame_err option" where
  "ValidateError e = refine ''message'' (length (px_Message e) \<le> 512)"

definition ValidateHeartbeat :: "64 word \<Rightarrow> 32 word \<Rightarrow> frame_err option" where
  "ValidateHeartbeat n i = first_err
     [refine ''nonce'' (n > 0), refine ''interval_ms'' (1000 \<le> i \<and> i \<le> 300000)]"

subsection \<open>Invariants over every field\<close>

definition CoalesceFlushCeiling :: nat where "CoalesceFlushCeiling = 1024"

definition listBounds :: "(string \<times> nat) list" where
  "listBounds = [(''Event.fields'', 64), (''Patch.updates'', 64), (''Snapshot.updates'', 64),
     (''Origin.contributing_event_ids'', CoalesceFlushCeiling)]"

definition ListBound :: "string \<Rightarrow> nat option" where
  "ListBound name = map_of listBounds name"

definition checkListBound :: "string \<Rightarrow> 'a list \<Rightarrow> frame_err option" where
  "checkListBound field xs =
     (case ListBound field of
        None \<Rightarrow> Some (ListBoundExceeded field (length xs) 0)
      | Some bound \<Rightarrow> if length xs > bound then Some (ListBoundExceeded field (length xs) bound) else None)"

definition checkEnumValue :: "string \<Rightarrow> int list \<Rightarrow> int \<Rightarrow> frame_err option" where
  "checkEnumValue field declared n =
     (if n = 0 then Some (EnumUnspecified field)
      else if n \<notin> set declared then Some (EnumUndeclared field n) else None)"

text \<open>
  The walk of \<^verbatim>\<open>checkFieldInvariants\<close> over the fields of each message in declaration order,
  into the sub-messages that are present.
\<close>

definition check_origin :: "Origin option \<Rightarrow> frame_err option" where
  "check_origin o' =
     (case o' of
        None \<Rightarrow> None
      | Some q \<Rightarrow> first_err
          [checkEnumValue ''Origin.kind'' [0, 1, 2, 3, 4, 5, 6] (og_Kind q),
           checkListBound ''Origin.contributing_event_ids'' (og_Contributing q)])"

definition check_updates :: "string \<Rightarrow> Update list \<Rightarrow> frame_err option" where
  "check_updates field us = first_err
     (checkListBound field us # map (\<lambda>u. checkEnumValue ''FragmentUpdate.op'' [0, 1, 2, 3, 4] (up_Op u)) us)"

fun check_payload :: "Payload \<Rightarrow> frame_err option" where
  "check_payload (Frame_Event e) = checkListBound ''Event.fields'' (pe_Fields e)"
| "check_payload (Frame_Ack n) = None"
| "check_payload (Frame_Heartbeat n i) = None"
| "check_payload (Frame_ClientTelemetry p m a) = None"
| "check_payload (Frame_ResyncRequest n r) = checkEnumValue ''ResyncRequest.reason'' [0, 1, 2, 3] r"
| "check_payload (Frame_Patch c o' us) = first_err [check_origin o', check_updates ''Patch.updates'' us]"
| "check_payload (Frame_Snapshot c o' p us s) = first_err [check_origin o', check_updates ''Snapshot.updates'' us]"
| "check_payload (Frame_Error e) = checkEnumValue ''Error.code'' [0, 1, 2, 3, 4, 5, 6, 7, 8] (px_Code e)"

definition checkFieldInvariants :: "Frame \<Rightarrow> frame_err option" where
  "checkFieldInvariants f = (case fr_Payload f of None \<Rightarrow> None | Some p \<Rightarrow> check_payload p)"

subsection \<open>Invariants across fields\<close>

definition eventBearing :: "int \<Rightarrow> bool" where
  "eventBearing kind \<longleftrightarrow> kind = OriginKind_CLIENT_EVENT \<or> kind = OriginKind_RESYNC"

definition validateOrigin :: "Origin option \<Rightarrow> frame_err option" where
  "validateOrigin o' =
     (case o' of
        None \<Rightarrow> Some OrphanPatch
      | Some q \<Rightarrow> first_err
          [demand ((og_EventID q \<noteq> 0) = eventBearing (og_Kind q)) (OriginEventId (og_Kind q)),
           demand ((og_ClientRef q \<noteq> 0) = eventBearing (og_Kind q)) (OriginClientRef (og_Kind q))])"

definition validateError :: "pbError \<Rightarrow> frame_err option" where
  "validateError e = demand ((px_EventId e = 0) = (px_ClientRef e = 0)) ErrorCausalIds"

definition validateSnapshot :: "Causal \<Rightarrow> Origin option \<Rightarrow> Supersession \<Rightarrow> frame_err option" where
  "validateSnapshot c o' s =
     (let from = su_FromSeq s; through = su_ThroughSeq s;
          resync = (case o' of None \<Rightarrow> False | Some q \<Rightarrow> og_Kind q = OriginKind_RESYNC)
      in if (from = 0) \<noteq> (through = 0) then Some SupersessionHalf
         else if (from \<noteq> 0) \<noteq> resync then Some SupersessionKind
         else if from = 0 then None
         else if from > through then Some SupersessionEmpty
         else if through \<ge> ca_ServerSeq c then Some SupersessionNotPast
         else None)"

definition validateOriginAndUpdates :: "Origin option \<Rightarrow> Update list \<Rightarrow> frame_err option" where
  "validateOriginAndUpdates o' us = first_err
     ((case o' of None \<Rightarrow> None | Some q \<Rightarrow> ValidateOrigin q) # validateOrigin o' # map ValidateFragmentUpdate us)"

definition validate_payload :: "Payload option \<Rightarrow> frame_err option" where
  "validate_payload p =
     (case p of
        None \<Rightarrow> Some NoPayload
      | Some (Frame_Patch c o' us) \<Rightarrow> first_err [ValidateCausal c, validateOriginAndUpdates o' us]
      | Some (Frame_Snapshot c o' ps us s) \<Rightarrow> first_err
          [ValidateCausal c, ValidateSnapshotParams ps, validateOriginAndUpdates o' us, validateSnapshot c o' s]
      | Some (Frame_Error e) \<Rightarrow> first_err [ValidateError e, validateError e]
      | Some (Frame_Heartbeat n i) \<Rightarrow> ValidateHeartbeat n i
      | Some (Frame_Ack n) \<Rightarrow> ValidateAck n
      | Some q \<Rightarrow> Some (ServerNeverSends (payload_kind (Some q))))"

definition ValidateOutbound :: "Frame \<Rightarrow> frame_err option" where
  "ValidateOutbound f = first_err [ValidateFrame f, checkFieldInvariants f, validate_payload (fr_Payload f)]"

subsection \<open>The framer\<close>

datatype send_err = InvalidFrame Kind frame_err | WriteFailed

text \<open>\<open>Encode\<close> gives the size of the encoding; \<open>write\<close> is whether the transport takes it.\<close>

definition Framer_Encode :: "(Frame \<Rightarrow> nat option) \<Rightarrow> Frame \<Rightarrow> send_err + nat" where
  "Framer_Encode marshal f =
     (case ValidateOutbound f of
        Some e \<Rightarrow> Inl (InvalidFrame (KindOf f) e)
      | None \<Rightarrow> (case marshal f of None \<Rightarrow> Inl (InvalidFrame (KindOf f) MarshalFailed) | Some n \<Rightarrow> Inr n))"

definition Framer_Write :: "Kind \<Rightarrow> nat \<Rightarrow> bool \<Rightarrow> send_err + nat" where
  "Framer_Write kind n ok =
     (if n = 0 then Inl (InvalidFrame kind EmptyEncoding) else if ok then Inr n else Inl WriteFailed)"

subsection \<open>Inbound frames\<close>

datatype InboundPayload =
    InboundEvent "64 word" string string "64 word" "EventField list"
  | InboundAck "64 word"
  | InboundHeartbeat
  | InboundClientTelemetry "64 word" "32 word" "32 word"
  | InboundResyncRequest "64 word" int

record Inbound =
  ib_Kind :: Kind
  ib_SessionID :: string
  ib_Payload :: InboundPayload

definition ReasonRefineFailed :: string where "ReasonRefineFailed = ''refine_failed''"
definition ReasonOversize :: string where "ReasonOversize = ''oversize''"
definition ReasonUnknownKind :: string where "ReasonUnknownKind = ''unknown_kind''"
definition ReasonBadVersion :: string where "ReasonBadVersion = ''bad_version''"
definition ReasonSessionMismatch :: string where "ReasonSessionMismatch = ''session_mismatch''"
definition ReasonEnumDomain :: string where "ReasonEnumDomain = ''enum_domain''"
definition ReasonListBound :: string where "ReasonListBound = ''list_bound''"

record RejectError =
  re_Reason :: string
  re_Code :: int
  re_Close :: CloseCode
  re_Err :: "frame_err option"

definition RejectError_Fatal :: "RejectError \<Rightarrow> bool" where
  "RejectError_Fatal e \<longleftrightarrow> re_Close e \<noteq> CloseNone"

definition reject :: "string \<Rightarrow> int \<Rightarrow> CloseCode \<Rightarrow> frame_err option \<Rightarrow> RejectError" where
  "reject reason code close err = \<lparr>re_Reason = reason, re_Code = code, re_Close = close, re_Err = err\<rparr>"

definition checkVersion :: "32 word \<Rightarrow> RejectError option" where
  "checkVersion v =
     (if v = protocol_Version then None
      else Some (reject ReasonBadVersion ErrorCode_UNSUPPORTED_VERSION CloseUnsupportedVersion None))"

fun invariant_reason :: "frame_err \<Rightarrow> string" where
  "invariant_reason (ListBoundExceeded f n b) = ReasonListBound"
| "invariant_reason e = ReasonEnumDomain"

fun parse_payload :: "Payload \<Rightarrow> frame_err + InboundPayload" where
  "parse_payload (Frame_Event e) =
     (case first_err (ValidateEvent e # map ValidateEventField (pe_Fields e)) of
        Some err \<Rightarrow> Inl err
      | None \<Rightarrow> Inr (InboundEvent (pe_ClientRef e) (pe_Name e) (pe_FragmentId e) (pe_SeenServerSeq e) (pe_Fields e)))"
| "parse_payload (Frame_Ack n) =
     (case ValidateAck n of Some err \<Rightarrow> Inl err | None \<Rightarrow> Inr (InboundAck n))"
| "parse_payload (Frame_Heartbeat n i) =
     (case ValidateHeartbeat n i of Some err \<Rightarrow> Inl err | None \<Rightarrow> Inr InboundHeartbeat)"
| "parse_payload (Frame_ClientTelemetry p m a) =
     (case ValidateClientTelemetry p m a of Some err \<Rightarrow> Inl err | None \<Rightarrow> Inr (InboundClientTelemetry p m a))"
| "parse_payload (Frame_ResyncRequest n r) =
     (case ValidateResyncRequest n of Some err \<Rightarrow> Inl err | None \<Rightarrow> Inr (InboundResyncRequest n r))"
| "parse_payload q = Inl (ServerNeverSends (payload_kind (Some q)))"

definition ParseInbound ::
  "(string \<Rightarrow> Frame option) \<Rightarrow> string \<Rightarrow> int \<Rightarrow> RejectError + Inbound" where
  "ParseInbound unmarshal b limit =
     (if limit > 0 \<and> int (length b) > limit
      then Inl (reject ReasonOversize ErrorCode_INVALID_FRAME CloseFrameTooLarge None)
      else case unmarshal b of
        None \<Rightarrow> Inl (reject ReasonRefineFailed ErrorCode_INVALID_FRAME CloseProtocolViolation None)
      | Some f \<Rightarrow>
      (case ValidateFrame f of
        Some e \<Rightarrow> Inl (reject ReasonRefineFailed ErrorCode_INVALID_FRAME CloseProtocolViolation (Some e))
      | None \<Rightarrow>
      (case checkVersion (fr_ProtocolVersion f) of
        Some r \<Rightarrow> Inl r
      | None \<Rightarrow>
      (if \<not> ClientToServer (KindOf f)
       then Inl (reject ReasonUnknownKind ErrorCode_INVALID_FRAME CloseProtocolViolation None)
       else case checkFieldInvariants f of
        Some e \<Rightarrow> Inl (reject (invariant_reason e) ErrorCode_INVALID_FRAME CloseProtocolViolation (Some e))
      | None \<Rightarrow>
      (case fr_Payload f of
        None \<Rightarrow> Inl (reject ReasonUnknownKind ErrorCode_INVALID_FRAME CloseProtocolViolation None)
      | Some p \<Rightarrow>
      (case parse_payload p of
        Inl e \<Rightarrow> Inl (reject ReasonRefineFailed ErrorCode_INVALID_FRAME CloseNone (Some e))
      | Inr q \<Rightarrow> Inr \<lparr>ib_Kind = KindOf f, ib_SessionID = fr_SessionId f, ib_Payload = q\<rparr>))))))"

definition CheckSessionID :: "Inbound \<Rightarrow> string \<Rightarrow> RejectError option" where
  "CheckSessionID i want =
     (if ib_SessionID i = want then None
      else Some (reject ReasonSessionMismatch ErrorCode_INVALID_FRAME CloseProtocolViolation None))"

end
