(* ===== verification/Live_Limits.thy ===== *)
theory Live_Limits
  imports Live_Protocol
begin

text \<open>
  The bounds of a gotth-live session: \<^verbatim>\<open>internal/session/limits.go\<close> with its token bucket, the
  acknowledgement window of \<^verbatim>\<open>window.go\<close>, and the checks of \<^verbatim>\<open>live/config.go\<close> on the limits an
  application sets.

  Go's \<open>int\<close> is an unbounded integer here; every limit is far below its range. A \<open>float64\<close> is a
  rational number, and each arithmetic operation is the exact one followed by the rounding
  function \<open>rnd\<close>.
\<close>

subsection \<open>Limits\<close>

record Limits =
  lm_MaxInboundFrameBytes :: int
  lm_MaxEventsPerSecond :: rat
  lm_EventBurst :: int
  lm_MailboxDepth :: int
  lm_AckChannelDepth :: int
  lm_AckWindow :: int
  lm_CoalesceFlushAt :: int
  lm_MinResyncInterval :: duration
  lm_ResyncBurst :: int
  lm_WriteDeadline :: duration
  lm_SlowClientGrace :: duration
  lm_HeartbeatInterval :: duration
  lm_HeartbeatTimeout :: duration
  lm_IdleTimeout :: duration
  lm_EffectDrainTimeout :: duration
  lm_PanicBudget :: int

definition MaxEventContributing :: nat where "MaxEventContributing = 64"

definition MaxCoalesceFlushAt :: nat where
  "MaxCoalesceFlushAt = CoalesceFlushCeiling - 1 - MaxEventContributing"

definition DefaultLimits :: Limits where
  "DefaultLimits =
     \<lparr>lm_MaxInboundFrameBytes = 65536, lm_MaxEventsPerSecond = 50, lm_EventBurst = 100, lm_MailboxDepth = 64,
      lm_AckChannelDepth = 32, lm_AckWindow = 16, lm_CoalesceFlushAt = 512, lm_MinResyncInterval = second,
      lm_ResyncBurst = 3, lm_WriteDeadline = 5 * second, lm_SlowClientGrace = 30 * second,
      lm_HeartbeatInterval = 20 * second, lm_HeartbeatTimeout = 50 * second, lm_IdleTimeout = 30 * minute,
      lm_EffectDrainTimeout = 5 * second, lm_PanicBudget = 3\<rparr>"

definition nonzero :: "'n::zero \<Rightarrow> 'n \<Rightarrow> 'n" where
  "nonzero x d = (if x = 0 then d else x)"

definition Limits_Normalize :: "Limits \<Rightarrow> Limits" where
  "Limits_Normalize l =
     (let d = DefaultLimits in
      \<lparr>lm_MaxInboundFrameBytes = nonzero (lm_MaxInboundFrameBytes l) (lm_MaxInboundFrameBytes d),
       lm_MaxEventsPerSecond = nonzero (lm_MaxEventsPerSecond l) (lm_MaxEventsPerSecond d),
       lm_EventBurst = nonzero (lm_EventBurst l) (lm_EventBurst d),
       lm_MailboxDepth = nonzero (lm_MailboxDepth l) (lm_MailboxDepth d),
       lm_AckChannelDepth = nonzero (lm_AckChannelDepth l) (lm_AckChannelDepth d),
       lm_AckWindow = nonzero (lm_AckWindow l) (lm_AckWindow d),
       lm_CoalesceFlushAt = nonzero (lm_CoalesceFlushAt l) (lm_CoalesceFlushAt d),
       lm_MinResyncInterval = nonzero (lm_MinResyncInterval l) (lm_MinResyncInterval d),
       lm_ResyncBurst = nonzero (lm_ResyncBurst l) (lm_ResyncBurst d),
       lm_WriteDeadline = nonzero (lm_WriteDeadline l) (lm_WriteDeadline d),
       lm_SlowClientGrace = nonzero (lm_SlowClientGrace l) (lm_SlowClientGrace d),
       lm_HeartbeatInterval = nonzero (lm_HeartbeatInterval l) (lm_HeartbeatInterval d),
       lm_HeartbeatTimeout = nonzero (lm_HeartbeatTimeout l) (lm_HeartbeatTimeout d),
       lm_IdleTimeout = nonzero (lm_IdleTimeout l) (lm_IdleTimeout d),
       lm_EffectDrainTimeout = nonzero (lm_EffectDrainTimeout l) (lm_EffectDrainTimeout d),
       lm_PanicBudget = nonzero (lm_PanicBudget l) (lm_PanicBudget d)\<rparr>)"

subsection \<open>The limits an application sets\<close>

text \<open>
  The type \<^verbatim>\<open>live.Limits\<close> has two fields more, which no session reads. An error names the field.
\<close>

record live_Limits = Limits +
  lm_MaxSessionsPerIdentity :: int
  lm_MaxSessions :: int

record SessionParamRange =
  pr_Min :: int
  pr_Max :: int

definition HeartbeatIntervalMSRange :: SessionParamRange where
  "HeartbeatIntervalMSRange = \<lparr>pr_Min = 1000, pr_Max = 300000\<rparr>"

definition MaxInboundFrameBytesRange :: SessionParamRange where
  "MaxInboundFrameBytesRange = \<lparr>pr_Min = 1024, pr_Max = 1048576\<rparr>"

definition AckWindowRange :: SessionParamRange where
  "AckWindowRange = \<lparr>pr_Min = 1, pr_Max = 256\<rparr>"

definition range_Contains :: "SessionParamRange \<Rightarrow> int \<Rightarrow> bool" where
  "range_Contains r v \<longleftrightarrow> pr_Min r \<le> v \<and> v \<le> pr_Max r"

definition negative_fields :: "live_Limits \<Rightarrow> (string \<times> bool) list" where
  "negative_fields l =
     [(''MaxInboundFrameBytes'', lm_MaxInboundFrameBytes l < 0), (''MaxEventsPerSecond'', lm_MaxEventsPerSecond l < 0),
      (''EventBurst'', lm_EventBurst l < 0), (''MailboxDepth'', lm_MailboxDepth l < 0),
      (''AckChannelDepth'', lm_AckChannelDepth l < 0), (''AckWindow'', lm_AckWindow l < 0),
      (''CoalesceFlushAt'', lm_CoalesceFlushAt l < 0), (''MinResyncInterval'', lm_MinResyncInterval l < 0),
      (''ResyncBurst'', lm_ResyncBurst l < 0), (''WriteDeadline'', lm_WriteDeadline l < 0),
      (''SlowClientGrace'', lm_SlowClientGrace l < 0), (''HeartbeatInterval'', lm_HeartbeatInterval l < 0),
      (''HeartbeatTimeout'', lm_HeartbeatTimeout l < 0), (''IdleTimeout'', lm_IdleTimeout l < 0),
      (''EffectDrainTimeout'', lm_EffectDrainTimeout l < 0),
      (''MaxSessionsPerIdentity'', lm_MaxSessionsPerIdentity l < 0), (''MaxSessions'', lm_MaxSessions l < 0),
      (''PanicBudget'', lm_PanicBudget l < 0)]"

text \<open>Field, whether it is set, the value on the wire and its range.\<close>

definition snapshotParams :: "live_Limits \<Rightarrow> (string \<times> bool \<times> int \<times> SessionParamRange) list" where
  "snapshotParams l =
     [(''HeartbeatInterval'', lm_HeartbeatInterval l \<noteq> 0, lm_HeartbeatInterval l div millisecond, HeartbeatIntervalMSRange),
      (''MaxInboundFrameBytes'', lm_MaxInboundFrameBytes l \<noteq> 0, lm_MaxInboundFrameBytes l, MaxInboundFrameBytesRange),
      (''AckWindow'', lm_AckWindow l \<noteq> 0, lm_AckWindow l, AckWindowRange)]"

definition heartbeatTimeoutIntervals :: int where "heartbeatTimeoutIntervals = 2"

definition validateHeartbeatPair :: "live_Limits \<Rightarrow> string option" where
  "validateHeartbeatPair l =
     (let interval = nonzero (lm_HeartbeatInterval l) (lm_HeartbeatInterval DefaultLimits);
          timeout = nonzero (lm_HeartbeatTimeout l) (lm_HeartbeatTimeout DefaultLimits)
      in if timeout \<ge> wrap_int64 (heartbeatTimeoutIntervals * interval) then None else Some ''HeartbeatTimeout'')"

definition Limits_validate :: "live_Limits \<Rightarrow> string option" where
  "Limits_validate l =
     (case find snd (negative_fields l) of
        Some (field, _) \<Rightarrow> Some field
      | None \<Rightarrow>
          (if lm_CoalesceFlushAt l > int MaxCoalesceFlushAt then Some ''CoalesceFlushAt''
           else case find (\<lambda>(field, isset, wire, range). isset \<and> \<not> range_Contains range wire) (snapshotParams l) of
             Some (field, _) \<Rightarrow> Some field
           | None \<Rightarrow> validateHeartbeatPair l))"

definition Limits_internal :: "live_Limits \<Rightarrow> Limits" where
  "Limits_internal l = Limits_Normalize (Limits.truncate l)"

subsection \<open>Token buckets\<close>

record bucket =
  bk_perSecond :: rat
  bk_burst :: rat
  bk_tokens :: rat
  bk_last :: time

definition newBucket :: "rat \<Rightarrow> int \<Rightarrow> time \<Rightarrow> bucket" where
  "newBucket perSecond burst now =
     \<lparr>bk_perSecond = perSecond, bk_burst = of_int burst, bk_tokens = of_int burst, bk_last = now\<rparr>"

text \<open>\<^verbatim>\<open>Duration.Seconds\<close>, on durations that are not negative.\<close>

definition Seconds :: "(rat \<Rightarrow> rat) \<Rightarrow> duration \<Rightarrow> rat" where
  "Seconds rnd d = rnd (rnd (of_int (d div second)) + rnd (of_int (d mod second) / 1000000000))"

definition bucket_allow :: "(rat \<Rightarrow> rat) \<Rightarrow> time \<Rightarrow> bucket \<Rightarrow> bucket \<times> bool" where
  "bucket_allow rnd now b =
     (let elapsed = time_Sub now (bk_last b);
          b = (if elapsed > 0
               then let tokens = rnd (bk_tokens b + rnd (Seconds rnd elapsed * bk_perSecond b))
                    in b\<lparr>bk_tokens := (if tokens > bk_burst b then bk_burst b else tokens), bk_last := now\<rparr>
               else b)
      in if bk_tokens b < 1 then (b, False) else (b\<lparr>bk_tokens := rnd (bk_tokens b - 1)\<rparr>, True))"

subsection \<open>The acknowledgement window\<close>

text \<open>A slot without its reference to a tracing span.\<close>

record slot =
  sl_serverSeq :: "64 word"
  sl_patchID :: "64 word"

record window =
  wn_slots :: "slot list"
  wn_cap :: int
  wn_acked :: "64 word"
  wn_highest :: "64 word"
  wn_fullSince :: time

definition newWindow :: "int \<Rightarrow> window" where
  "newWindow capacity = \<lparr>wn_slots = [], wn_cap = capacity, wn_acked = 0, wn_highest = 0, wn_fullSince = 0\<rparr>"

definition retentionSlots :: "window \<Rightarrow> int" where
  "retentionSlots w = wn_cap w + 1"

definition ackedSeq :: "window \<Rightarrow> 64 word" where
  "ackedSeq w = wn_acked w"

definition win_depth :: "window \<Rightarrow> int" where
  "win_depth w = sint (wn_highest w - wn_acked w)"

definition win_full :: "window \<Rightarrow> bool" where
  "win_full w \<longleftrightarrow> win_depth w \<ge> wn_cap w"

definition win_coalescing :: "window \<Rightarrow> bool" where
  "win_coalescing w \<longleftrightarrow> win_depth w \<ge> wn_cap w div 2"

definition win_push :: "slot \<Rightarrow> window \<Rightarrow> window" where
  "win_push s w =
     (let slots = wn_slots w @ [s]
      in w\<lparr>wn_highest := sl_serverSeq s, wn_slots := drop (length slots - nat (retentionSlots w)) slots\<rparr>)"

datatype ack_err = AckNeverEmitted | AckBackwards

definition win_ack :: "64 word \<Rightarrow> window \<Rightarrow> window \<times> ack_err option" where
  "win_ack seq w =
     (if seq > wn_highest w then (w, Some AckNeverEmitted)
      else if seq < wn_acked w then (w, Some AckBackwards)
      else (w\<lparr>wn_acked := seq\<rparr>, None))"

definition slotFor :: "64 word \<Rightarrow> window \<Rightarrow> slot option" where
  "slotFor patch w = find (\<lambda>s. sl_patchID s = patch) (wn_slots w)"

definition noteFullness :: "time \<Rightarrow> window \<Rightarrow> window" where
  "noteFullness now w =
     (if \<not> win_full w then w\<lparr>wn_fullSince := 0\<rparr>
      else if IsZero (wn_fullSince w) then w\<lparr>wn_fullSince := now\<rparr>
      else w)"

definition window_trackedBytes :: "window \<Rightarrow> int" where
  "window_trackedBytes w = retentionSlots w * 48"

end
