(* ===== verification/Live_Render.thy ===== *)
theory Live_Render
  imports Live_Protocol
begin

text \<open>
  The render path of gotth-live: \<^verbatim>\<open>internal/render\<close> (\<^verbatim>\<open>registry.go\<close>, \<^verbatim>\<open>renderer.go\<close>, \<^verbatim>\<open>collection.go\<close>).

  Application code is total here: rendering gives markup, an error or a panic, a change
  declaration and a projection of children may panic. The hash of the registry is a function
  on byte strings. The dirty set is the bitset of the source, 64 bits to a word; Go's maps are
  association lists. The shared buffer with its writer and the tracing hook are left out.
\<close>

subsection \<open>Bitsets\<close>

type_synonym bitset = "64 word list"

definition newBitset :: "nat \<Rightarrow> bitset" where
  "newBitset n = replicate ((n + 63) div 64) 0"

definition bs_set :: "bitset \<Rightarrow> nat \<Rightarrow> bitset" where
  "bs_set b i = b[i div 64 := or (b ! (i div 64)) (push_bit (i mod 64) 1)]"

definition bs_clear :: "bitset \<Rightarrow> nat \<Rightarrow> bitset" where
  "bs_clear b i = b[i div 64 := and (b ! (i div 64)) (not (push_bit (i mod 64) 1))]"

definition bs_has :: "bitset \<Rightarrow> nat \<Rightarrow> bool" where
  "bs_has b i \<longleftrightarrow> and (b ! (i div 64)) (push_bit (i mod 64) 1) \<noteq> 0"

definition bs_any :: "bitset \<Rightarrow> bool" where
  "bs_any b \<longleftrightarrow> list_ex (\<lambda>w. w \<noteq> 0) b"

definition bs_setAll :: "bitset \<Rightarrow> nat \<Rightarrow> bitset" where
  "bs_setAll b n =
     (let all = replicate (length b) (not 0); rem = n mod 64
      in if rem \<noteq> 0 then all[length b - 1 := push_bit rem 1 - 1] else all)"

subsection \<open>Fragments and their registry\<close>

definition OpMorph :: int where "OpMorph = 1"
definition OpAppend :: int where "OpAppend = 2"
definition OpPrepend :: int where "OpPrepend = 3"
definition OpRemove :: int where "OpRemove = 4"

record rendered =
  rd_FragmentID :: string
  rd_Op :: int
  rd_HTML :: string

datatype render_out = Markup string | RenderError string | RenderPanic string

datatype (dead 'a) Fragment =
  Fragment (fg_ID: string) (fg_Render: "('a \<Rightarrow> render_out) option")
    (fg_Dirty: "('a \<Rightarrow> 'a \<Rightarrow> string + bool) option")
    (fg_Children: "('a \<Rightarrow> string + 'a Fragment list) option")

record 'a Registry =
  rg_frags :: "'a Fragment list"
  rg_index :: "(string \<times> nat) list"
  rg_hash :: "string \<Rightarrow> 64 word"

datatype registry_err =
    NoFragments
  | FragmentWithoutID nat
  | FragmentIDTooLong
  | FragmentIDByte char
  | FragmentWithoutRender nat
  | DuplicateFragment nat nat
  | OverlapsNamespace string string
  | ChildOutsideNamespace string
  | ChildRepeated string
  | ChildWithoutRender string
  | ChildWithChildren string

definition id_byte :: "char \<Rightarrow> bool" where
  "id_byte c \<longleftrightarrow> is_upper c \<or> is_lower c \<or> is_digit c \<or> c \<in> set ''_:.-''"

definition validFragmentID :: "string \<Rightarrow> registry_err option" where
  "validFragmentID s =
     (if length s > 64 then Some FragmentIDTooLong
      else case find (\<lambda>c. \<not> id_byte c) s of Some c \<Rightarrow> Some (FragmentIDByte c) | None \<Rightarrow> None)"

fun index_fragments :: "nat \<Rightarrow> 'a Fragment list \<Rightarrow> (string \<times> nat) list \<Rightarrow> registry_err + (string \<times> nat) list" where
  "index_fragments i [] index = Inr index"
| "index_fragments i (f # fs) index =
     (if fg_ID f = [] then Inl (FragmentWithoutID i)
      else case validFragmentID (fg_ID f) of
        Some e \<Rightarrow> Inl e
      | None \<Rightarrow>
          (if fg_Render f = None then Inl (FragmentWithoutRender i)
           else case map_of index (fg_ID f) of
             Some prev \<Rightarrow> Inl (DuplicateFragment prev i)
           | None \<Rightarrow> index_fragments (Suc i) fs (map_put (fg_ID f) i index)))"

definition has_prefix :: "string \<Rightarrow> string \<Rightarrow> bool" where
  "has_prefix s p \<longleftrightarrow> take (length p) s = p"

definition overlap_err :: "'a Fragment list \<Rightarrow> registry_err option" where
  "overlap_err frags = first_err (map (\<lambda>parent.
     if fg_Children parent = None then None
     else map_option (\<lambda>other. OverlapsNamespace (fg_ID other) (fg_ID parent))
            (find (\<lambda>other. fg_ID other \<noteq> fg_ID parent \<and> has_prefix (fg_ID other) (fg_ID parent @ '':'')) frags)) frags)"

definition NewRegistry :: "(string \<Rightarrow> 64 word) \<Rightarrow> 'a Fragment list \<Rightarrow> registry_err + 'a Registry" where
  "NewRegistry hash frags =
     (if frags = [] then Inl NoFragments
      else and_then (index_fragments 0 frags []) (\<lambda>index.
        case overlap_err frags of
          Some e \<Rightarrow> Inl e
        | None \<Rightarrow> Inr \<lparr>rg_frags = frags, rg_index = index, rg_hash = hash\<rparr>))"

definition AdmitsID :: "'a Registry \<Rightarrow> string \<Rightarrow> bool" where
  "AdmitsID r s \<longleftrightarrow>
     map_of (rg_index r) s \<noteq> None
     \<or> list_ex (\<lambda>parent. fg_Children parent \<noteq> None \<and> s \<noteq> fg_ID parent @ '':'' \<and> has_prefix s (fg_ID parent @ '':''))
         (rg_frags r)"

subsection \<open>The renderer of a session\<close>

record collectionCache =
  cc_ids :: "string list"
  cc_hashes :: "(string \<times> 64 word) list"
  cc_parentCurrent :: bool

record collectionResult =
  cq_index :: nat
  cq_cache :: collectionCache
  cq_whole :: bool
  cq_dirty :: "string list"

record Failure =
  fl_FragmentID :: string
  fl_Site :: string
  fl_Value :: string

record RenderResult =
  rs_Updates :: "rendered list"
  rs_Suppressed :: "string list"
  rs_Failed :: "Failure list"
  rs_updated :: "nat list"
  rs_hashes :: "64 word list"
  rs_collections :: "collectionResult list"

definition zeroResult :: RenderResult where
  "zeroResult = \<lparr>rs_Updates = [], rs_Suppressed = [], rs_Failed = [], rs_updated = [], rs_hashes = [], rs_collections = []\<rparr>"

record 'a Renderer =
  rn_reg :: "'a Registry"
  rn_hashes :: "64 word list"
  rn_dirty :: bitset
  rn_collections :: "(nat \<times> collectionCache) list"
  rn_childDirty :: "(nat \<times> string list) list"
  rn_parentDirty :: bitset
  rn_known :: "string list"

definition MarkAll :: "'a Renderer \<Rightarrow> 'a Renderer" where
  "MarkAll v =
     (let n = length (rg_frags (rn_reg v))
      in v\<lparr>rn_dirty := bs_setAll (rn_dirty v) n, rn_parentDirty := bs_setAll (rn_parentDirty v) n\<rparr>)"

definition publishIDs :: "'a Renderer \<Rightarrow> 'a Renderer" where
  "publishIDs v = v\<lparr>rn_known := map fg_ID (rg_frags (rn_reg v)) @ concat (map (cc_ids \<circ> snd) (rn_collections v))\<rparr>"

definition NewRenderer :: "'a Registry \<Rightarrow> 'a Renderer" where
  "NewRenderer r =
     (let n = length (rg_frags r)
      in publishIDs (MarkAll \<lparr>rn_reg = r, rn_hashes = replicate n 0, rn_dirty = newBitset n, rn_collections = [],
           rn_childDirty = [], rn_parentDirty = newBitset n, rn_known = []\<rparr>))"

definition KnownID :: "'a Renderer \<Rightarrow> string \<Rightarrow> bool" where
  "KnownID v s \<longleftrightarrow> s \<in> set (rn_known v)"

definition set_dirty :: "nat \<Rightarrow> 'a Renderer \<Rightarrow> 'a Renderer" where
  "set_dirty i v = v\<lparr>rn_dirty := bs_set (rn_dirty v) i\<rparr>"

definition set_parentDirty :: "nat \<Rightarrow> 'a Renderer \<Rightarrow> 'a Renderer" where
  "set_parentDirty i v = v\<lparr>rn_parentDirty := bs_set (rn_parentDirty v) i\<rparr>"

definition mark_child :: "nat \<Rightarrow> string \<Rightarrow> 'a Renderer \<Rightarrow> 'a Renderer" where
  "mark_child i child v =
     v\<lparr>rn_childDirty := map_put i (List.insert child (map_get [] (rn_childDirty v) i)) (rn_childDirty v)\<rparr>"

definition delete_childDirty :: "nat \<Rightarrow> 'a Renderer \<Rightarrow> 'a Renderer" where
  "delete_childDirty i v = v\<lparr>rn_childDirty := map_del i (rn_childDirty v)\<rparr>"

definition MarkID :: "string \<Rightarrow> 'a Renderer \<Rightarrow> 'a Renderer \<times> bool" where
  "MarkID s v =
     (case map_of (rg_index (rn_reg v)) s of
        Some i \<Rightarrow> (set_parentDirty i (set_dirty i v), True)
      | None \<Rightarrow>
          (case find (\<lambda>(_, c). map_of (cc_hashes c) s \<noteq> None) (rn_collections v) of
             Some (i, _) \<Rightarrow> (set_dirty i (mark_child i s v), True)
           | None \<Rightarrow> (v, False)))"

definition callDirty :: "'a Fragment \<Rightarrow> 'a \<Rightarrow> 'a \<Rightarrow> bool \<times> Failure list" where
  "callDirty f prev next =
     (case fg_Dirty f of
        None \<Rightarrow> (True, [])
      | Some dirty \<Rightarrow>
          (case dirty prev next of
             Inr changed \<Rightarrow> (changed, [])
           | Inl panic \<Rightarrow> (True, [\<lparr>fl_FragmentID = fg_ID f, fl_Site = ''dirty'', fl_Value = panic\<rparr>])))"

subsection \<open>Collections\<close>

definition validCollectionChild :: "string \<Rightarrow> 'a Fragment \<Rightarrow> bool \<Rightarrow> registry_err option" where
  "validCollectionChild parentID child duplicate =
     (case validFragmentID (fg_ID child) of
        Some e \<Rightarrow> Some e
      | None \<Rightarrow>
          (let namespace = parentID @ '':''
           in if \<not> has_prefix (fg_ID child) namespace \<or> fg_ID child = namespace then Some (ChildOutsideNamespace (fg_ID child))
              else if duplicate then Some (ChildRepeated (fg_ID child))
              else if fg_Render child = None then Some (ChildWithoutRender (fg_ID child))
              else if fg_Children child \<noteq> None then Some (ChildWithChildren (fg_ID child))
              else None))"

fun check_children :: "string \<Rightarrow> 'a Fragment list \<Rightarrow> string list \<Rightarrow> registry_err option" where
  "check_children parentID [] seen = None"
| "check_children parentID (c # cs) seen =
     (case validCollectionChild parentID c (fg_ID c \<in> set seen) of
        Some e \<Rightarrow> Some e
      | None \<Rightarrow> check_children parentID cs (fg_ID c # seen))"

text \<open>A rejected projection is reported by its error, of which only the fact is kept.\<close>

definition children_failure :: "'a Fragment \<Rightarrow> string \<Rightarrow> Failure" where
  "children_failure parent v = \<lparr>fl_FragmentID = fg_ID parent, fl_Site = ''children'', fl_Value = v\<rparr>"

definition collectionChildren :: "'a Fragment \<Rightarrow> 'a \<Rightarrow> Failure + 'a Fragment list" where
  "collectionChildren parent state =
     (case fg_Children parent of
        None \<Rightarrow> Inl (children_failure parent ''nil'')
      | Some project \<Rightarrow>
          (case project state of
             Inl panic \<Rightarrow> Inl (children_failure parent panic)
           | Inr children \<Rightarrow>
               (case check_children (fg_ID parent) children [] of
                  Some e \<Rightarrow> Inl (children_failure parent ''invalid child'')
                | None \<Rightarrow> Inr children)))"

fun mark_children :: "nat \<Rightarrow> 'a \<Rightarrow> 'a \<Rightarrow> 'a Fragment list \<Rightarrow> 'a Renderer \<Rightarrow> 'a Renderer \<times> Failure list" where
  "mark_children i prev next [] v = (v, [])"
| "mark_children i prev next (c # cs) v =
     (let (changed, fs) = callDirty c prev next;
          v = (if changed then set_dirty i (mark_child i (fg_ID c) v) else v);
          (v, gs) = mark_children i prev next cs v
      in (v, fs @ gs))"

text \<open>The identities of a collection that was never sent are those of the zero cache: none.\<close>

definition cached_ids :: "'a Renderer \<Rightarrow> nat \<Rightarrow> string list" where
  "cached_ids v i = (case map_of (rn_collections v) i of None \<Rightarrow> [] | Some c \<Rightarrow> cc_ids c)"

definition markCollection :: "nat \<Rightarrow> 'a Fragment \<Rightarrow> 'a \<Rightarrow> 'a \<Rightarrow> 'a Renderer \<Rightarrow> 'a Renderer \<times> Failure list" where
  "markCollection i parent prev next v =
     (case collectionChildren parent next of
        Inl f \<Rightarrow> (v, [f])
      | Inr children \<Rightarrow>
          (let (structural, fs) = callDirty parent prev next;
               v = (if structural \<or> map fg_ID children \<noteq> cached_ids v i then set_dirty i (set_parentDirty i v) else v)
           in if bs_has (rn_parentDirty v) i then (delete_childDirty i v, fs)
              else let (v, gs) = mark_children i prev next children v in (v, fs @ gs)))"

definition mark_fragment :: "'a \<Rightarrow> 'a \<Rightarrow> nat \<times> 'a Fragment \<Rightarrow> 'a Renderer \<Rightarrow> 'a Renderer \<times> Failure list" where
  "mark_fragment prev next p v =
     (let (i, f) = p
      in if fg_Children f \<noteq> None then markCollection i f prev next v
         else let (changed, fs) = callDirty f prev next in (if changed then set_dirty i v else v, fs))"

fun mark_loop :: "'a \<Rightarrow> 'a \<Rightarrow> (nat \<times> 'a Fragment) list \<Rightarrow> 'a Renderer \<Rightarrow> 'a Renderer \<times> Failure list" where
  "mark_loop prev next [] v = (v, [])"
| "mark_loop prev next (p # ps) v =
     (let (v, fs) = mark_fragment prev next p v; (v, gs) = mark_loop prev next ps v in (v, fs @ gs))"

definition Renderer_Mark :: "'a \<Rightarrow> 'a \<Rightarrow> 'a Renderer \<Rightarrow> 'a Renderer \<times> Failure list" where
  "Renderer_Mark prev next v = mark_loop prev next (enumerate 0 (rg_frags (rn_reg v))) v"

definition Renderer_Pending :: "'a Renderer \<Rightarrow> bool" where
  "Renderer_Pending v \<longleftrightarrow> bs_any (rn_dirty v)"

subsection \<open>Render passes\<close>

definition callRender :: "'a Fragment \<Rightarrow> 'a \<Rightarrow> Failure + string" where
  "callRender f state =
     (let failure = (\<lambda>x. Inl \<lparr>fl_FragmentID = fg_ID f, fl_Site = ''render'', fl_Value = x\<rparr>)
      in case fg_Render f of
           None \<Rightarrow> failure ''nil''
         | Some render \<Rightarrow>
             (case render state of Markup html \<Rightarrow> Inr html | RenderError e \<Rightarrow> failure e | RenderPanic e \<Rightarrow> failure e))"

definition morph :: "string \<Rightarrow> string \<Rightarrow> rendered" where
  "morph fragment html = \<lparr>rd_FragmentID = fragment, rd_Op = OpMorph, rd_HTML = html\<rparr>"

definition add_failure :: "Failure \<Rightarrow> RenderResult \<Rightarrow> RenderResult" where
  "add_failure f res = res\<lparr>rs_Failed := rs_Failed res @ [f]\<rparr>"

definition add_suppressed :: "string \<Rightarrow> RenderResult \<Rightarrow> RenderResult" where
  "add_suppressed s res = res\<lparr>rs_Suppressed := rs_Suppressed res @ [s]\<rparr>"

definition add_update :: "rendered \<Rightarrow> RenderResult \<Rightarrow> RenderResult" where
  "add_update u res = res\<lparr>rs_Updates := rs_Updates res @ [u]\<rparr>"

definition add_hash :: "nat \<Rightarrow> 64 word \<Rightarrow> RenderResult \<Rightarrow> RenderResult" where
  "add_hash i h res = res\<lparr>rs_updated := rs_updated res @ [i], rs_hashes := rs_hashes res @ [h]\<rparr>"

definition add_collection :: "collectionResult \<Rightarrow> RenderResult \<Rightarrow> RenderResult" where
  "add_collection c res = res\<lparr>rs_collections := rs_collections res @ [c]\<rparr>"

definition render_static :: "'a \<Rightarrow> bool \<Rightarrow> nat \<Rightarrow> 'a Fragment \<Rightarrow> 'a Renderer \<Rightarrow> RenderResult \<Rightarrow> RenderResult" where
  "render_static state all i f v res =
     (case callRender f state of
        Inl failure \<Rightarrow> add_failure failure res
      | Inr html \<Rightarrow>
          (let sum = rg_hash (rn_reg v) html
           in if \<not> all \<and> sum = rn_hashes v ! i then add_suppressed (fg_ID f) res
              else add_update (morph (fg_ID f) html) (add_hash i sum res)))"

text \<open>The hashes of a whole collection, or the first failure.\<close>

fun stage_children :: "('a Registry) \<Rightarrow> 'a \<Rightarrow> 'a Fragment list \<Rightarrow> (string \<times> 64 word) list \<Rightarrow> Failure + (string \<times> 64 word) list" where
  "stage_children reg state [] hs = Inr hs"
| "stage_children reg state (c # cs) hs =
     and_then (callRender c state) (\<lambda>html. stage_children reg state cs (map_put (fg_ID c) (rg_hash reg html) hs))"

definition render_whole ::
  "'a \<Rightarrow> bool \<Rightarrow> nat \<Rightarrow> 'a Fragment \<Rightarrow> 'a Fragment list \<Rightarrow> 'a Renderer \<Rightarrow> RenderResult \<Rightarrow> RenderResult" where
  "render_whole state all i parent children v res =
     (let ids = map fg_ID children; previous = map_of (rn_collections v) i
      in case stage_children (rn_reg v) state children [] of
           Inl failure \<Rightarrow> add_failure failure res
         | Inr hs \<Rightarrow>
             (let compare = \<not> all \<and> (case previous of None \<Rightarrow> False | Some c \<Rightarrow> cc_parentCurrent c \<and> cc_ids c = ids)
              in case callRender parent state of
                   Inl failure \<Rightarrow> add_failure failure res
                 | Inr html \<Rightarrow>
                     (let hash = rg_hash (rn_reg v) html
                      in if compare \<and> hash = rn_hashes v ! i then add_suppressed (fg_ID parent) res
                         else add_collection \<lparr>cq_index = i, cq_cache = \<lparr>cc_ids = ids, cc_hashes = hs, cc_parentCurrent = True\<rparr>,
                                  cq_whole = True, cq_dirty = [fg_ID parent]\<rparr>
                                (add_update (morph (fg_ID parent) html) (add_hash i hash res)))))"

fun render_children ::
  "'a Registry \<Rightarrow> 'a \<Rightarrow> string list \<Rightarrow> (string \<times> 64 word) list \<Rightarrow> 'a Fragment list
     \<Rightarrow> (string \<times> 64 word) list \<Rightarrow> string list \<Rightarrow> RenderResult
     \<Rightarrow> (string \<times> 64 word) list \<times> string list \<times> RenderResult" where
  "render_children reg state pending previous [] hs dirty res = (hs, dirty, res)"
| "render_children reg state pending previous (c # cs) hs dirty res =
     (if fg_ID c \<notin> set pending then render_children reg state pending previous cs hs dirty res
      else case callRender c state of
        Inl failure \<Rightarrow> render_children reg state pending previous cs hs dirty (add_failure failure res)
      | Inr html \<Rightarrow>
          (let hash = rg_hash reg html; hs = map_put (fg_ID c) hash hs
           in if hash = map_get 0 previous (fg_ID c)
              then render_children reg state pending previous cs hs dirty (add_suppressed (fg_ID c) res)
              else render_children reg state pending previous cs hs (dirty @ [fg_ID c])
                     (add_update (morph (fg_ID c) html) res)))"

definition renderCollectionChildren ::
  "'a \<Rightarrow> nat \<Rightarrow> 'a Fragment list \<Rightarrow> 'a Renderer \<Rightarrow> RenderResult \<Rightarrow> 'a Renderer \<times> RenderResult" where
  "renderCollectionChildren state i children v res =
     (let pending = map_get [] (rn_childDirty v) i;
          (ids, previous) = (case map_of (rn_collections v) i of None \<Rightarrow> ([], []) | Some c \<Rightarrow> (cc_ids c, cc_hashes c));
          (hs, dirty, res) = render_children (rn_reg v) state pending previous children previous [] res
      in (delete_childDirty i v,
          if dirty = [] then res
          else add_collection \<lparr>cq_index = i, cq_cache = \<lparr>cc_ids = ids, cc_hashes = hs, cc_parentCurrent = False\<rparr>,
                 cq_whole = False, cq_dirty = dirty\<rparr> res))"

definition renderCollection ::
  "'a \<Rightarrow> bool \<Rightarrow> nat \<Rightarrow> 'a Fragment \<Rightarrow> 'a Renderer \<Rightarrow> RenderResult \<Rightarrow> 'a Renderer \<times> RenderResult" where
  "renderCollection state all i parent v res =
     (case collectionChildren parent state of
        Inl failure \<Rightarrow> (v, add_failure failure res)
      | Inr children \<Rightarrow>
          (let initialized = map_of (rn_collections v) i \<noteq> None;
               sameMembers = (cached_ids v i = map fg_ID children);
               whole = (all \<or> \<not> initialized \<or> bs_has (rn_parentDirty v) i \<or> \<not> sameMembers);
               v = v\<lparr>rn_parentDirty := bs_clear (rn_parentDirty v) i\<rparr>
           in if \<not> whole then renderCollectionChildren state i children v res
              else let v = delete_childDirty i v in (v, render_whole state all i parent children v res)))"

definition render_fragment :: "'a \<Rightarrow> bool \<Rightarrow> nat \<times> 'a Fragment \<Rightarrow> 'a Renderer \<times> RenderResult \<Rightarrow> 'a Renderer \<times> RenderResult" where
  "render_fragment state all p vr =
     (let (i, f) = p; (v, res) = vr
      in if \<not> all \<and> \<not> bs_has (rn_dirty v) i then (v, res)
         else let v = v\<lparr>rn_dirty := bs_clear (rn_dirty v) i\<rparr>
              in if fg_Children f \<noteq> None then renderCollection state all i f v res
                 else (v, render_static state all i f v res))"

definition render_pass :: "'a \<Rightarrow> bool \<Rightarrow> 'a Renderer \<Rightarrow> 'a Renderer \<times> RenderResult" where
  "render_pass state all v = fold (render_fragment state all) (enumerate 0 (rg_frags (rn_reg v))) (v, zeroResult)"

definition Renderer_Render :: "'a \<Rightarrow> 'a Renderer \<Rightarrow> 'a Renderer \<times> RenderResult" where
  "Renderer_Render state v = render_pass state False v"

definition RenderAll :: "'a \<Rightarrow> 'a Renderer \<Rightarrow> 'a Renderer \<times> RenderResult" where
  "RenderAll state v = render_pass state True v"

fun commit_hashes :: "nat list \<Rightarrow> 64 word list \<Rightarrow> 64 word list \<Rightarrow> 64 word list" where
  "commit_hashes (i # is) (h # hs) old = commit_hashes is hs (old[i := h])"
| "commit_hashes is hs old = old"

definition Renderer_Commit :: "RenderResult \<Rightarrow> 'a Renderer \<Rightarrow> 'a Renderer" where
  "Renderer_Commit res v =
     (let v = v\<lparr>rn_hashes := commit_hashes (rs_updated res) (rs_hashes res) (rn_hashes v),
                rn_collections := fold (\<lambda>c. map_put (cq_index c) (cq_cache c)) (rs_collections res) (rn_collections v)\<rparr>
      in if rs_collections res \<noteq> [] then publishIDs v else v)"

definition discard_collection :: "collectionResult \<Rightarrow> 'a Renderer \<Rightarrow> 'a Renderer" where
  "discard_collection c v =
     (let v = set_dirty (cq_index c) v
      in if cq_whole c then set_parentDirty (cq_index c) v
         else fold (mark_child (cq_index c)) (cq_dirty c) v)"

definition Renderer_Discard :: "RenderResult \<Rightarrow> 'a Renderer \<Rightarrow> 'a Renderer" where
  "Renderer_Discard res v = fold discard_collection (rs_collections res) (fold set_dirty (rs_updated res) v)"

end
