(* ===== verification/Live_Actor.thy ===== *)
theory Live_Actor
  imports Live_Limits Live_Render
begin

text \<open>
  The session of one browser tab: \<^verbatim>\<open>internal/session\<close> (\<^verbatim>\<open>actor.go\<close>, \<^verbatim>\<open>ingress.go\<close>, \<^verbatim>\<open>resync.go\<close>,
  \<^verbatim>\<open>effects.go\<close>, \<^verbatim>\<open>mailbox.go\<close>, \<^verbatim>\<open>types.go\<close>).

  The record \<open>Actor\<close> holds the fields of the Go struct, and what leaves it: the frames that
  reached the transport, the close codes, the provenance rows and the effects under way.
  The application is a record of its hooks; an authorization may depend on all of an event,
  whose identifier is never used twice, so the hook may answer differently each time. What the
  codec and the transport answer is given by a \<open>boundary\<close>: the encoded size of a frame, whether
  write number \<open>n\<close> succeeds, and the rounding of \<open>float64\<close>. Each operation is atomic and reads
  the clock once. Logging, metrics, tracing and stack traces are left out.
\<close>

subsection \<open>Data\<close>

record Event =
  ev_ID :: "64 word"
  ev_ClientRef :: "64 word"
  ev_SeenServerSeq :: "64 word"
  ev_Name :: string
  ev_FragmentID :: string
  ev_At :: time
  ev_Fields :: "EventField list"
  ev_Contributing :: "64 word list"

definition zeroEvent :: Event where
  "zeroEvent = \<lparr>ev_ID = 0, ev_ClientRef = 0, ev_SeenServerSeq = 0, ev_Name = [], ev_FragmentID = [], ev_At = 0,
     ev_Fields = [], ev_Contributing = []\<rparr>"

text \<open>\<open>fx_Run\<close>: whether the effect carries a behaviour. The behaviour runs outside.\<close>

record Effect =
  fx_Source :: string
  fx_Run :: bool

datatype deny = DenyError string | FatalDenyError string | OtherError string

record 'a IApp =
  ia_nil :: 'a
  ia_Init :: "string + 'a \<times> Effect list"
  ia_Authorize :: "Event \<Rightarrow> deny option"
  ia_Reduce :: "'a \<Rightarrow> Event \<Rightarrow> string + 'a \<times> Effect list"
  ia_Registry :: "'a Registry"
  ia_Registered :: "string \<Rightarrow> bool"
  ia_StateComparable :: bool

datatype msgKind = msgEvent | msgEffectResult | msgSynthetic | msgResync | msgTelemetry

record inbound =
  im_kind :: msgKind
  im_ev :: Event
  im_origin :: Origin
  im_lastAppliedSeq :: "64 word"
  im_patchID :: "64 word"
  im_morphMicros :: "32 word"
  im_applyMicros :: "32 word"

definition zeroOrigin :: Origin where
  "zeroOrigin = \<lparr>og_Kind = 0, og_EventID = 0, og_ClientRef = 0, og_Source = [], og_Contributing = []\<rparr>"

definition getInbound :: "msgKind \<Rightarrow> Event \<Rightarrow> Origin \<Rightarrow> inbound" where
  "getInbound kind ev origin =
     \<lparr>im_kind = kind, im_ev = ev, im_origin = origin, im_lastAppliedSeq = 0, im_patchID = 0,
      im_morphMicros = 0, im_applyMicros = 0\<rparr>"

record Provenance =
  pv_EventID :: "64 word"
  pv_ClientRef :: "64 word"
  pv_TransitionID :: "64 word"
  pv_StateVersion :: "64 word"
  pv_PatchID :: "64 word"
  pv_ServerSeq :: "64 word"
  pv_OriginKind :: int
  pv_OriginSource :: string
  pv_FragmentIDs :: "string list"
  pv_Contributing :: "64 word list"
  pv_Superseded :: Supersession

record 'a Actor =
  ac_app :: "'a IApp"
  ac_lim :: Limits
  ac_peer :: string
  ac_dev :: bool
  ac_mailbox :: "inbound list"
  ac_acks :: "64 word list"
  ac_state :: 'a
  ac_view :: "'a Renderer"
  ac_win :: window
  ac_serverSeq :: "64 word"
  ac_patchID :: "64 word"
  ac_transitionID :: "64 word"
  ac_stateVersion :: "64 word"
  ac_hbNonce :: "64 word"
  ac_panics :: "(string \<times> int) list"
  ac_pendingOrig :: "Origin option"
  ac_pendingIDs :: "64 word list"
  ac_slowNotified :: bool
  ac_coalesceNotified :: bool
  ac_coalesceHeld :: bool
  ac_resyncBucket :: bucket
  ac_resyncDenied :: int
  ac_lastSnapshotSeq :: "64 word"
  ac_eventSeq :: "64 word"
  ac_eventBucket :: bucket
  ac_eventDenied :: int
  ac_ingressReady :: bool
  ac_lastInbound :: time
  ac_lastEvent :: time
  ac_closing :: bool
  ac_closed :: "CloseCode list"
  ac_sent :: "Frame list"
  ac_writes :: nat
  ac_provenance :: "Provenance list"
  ac_effects :: "(string \<times> 64 word) list"

record boundary =
  bd_Marshal :: "Frame \<Rightarrow> nat option"
  bd_Write :: "nat \<Rightarrow> bool"
  bd_round :: "rat \<Rightarrow> rat"

definition Actor_New :: "boundary \<Rightarrow> 'a IApp \<Rightarrow> Limits \<Rightarrow> string \<Rightarrow> bool \<Rightarrow> time \<Rightarrow> 'a Actor" where
  "Actor_New b app limits peer dev now =
     (let lim = Limits_Normalize limits in
      \<lparr>ac_app = app, ac_lim = lim, ac_peer = peer, ac_dev = dev, ac_mailbox = [], ac_acks = [],
       ac_state = ia_nil app, ac_view = NewRenderer (ia_Registry app), ac_win = newWindow (lm_AckWindow lim),
       ac_serverSeq = 0, ac_patchID = 0, ac_transitionID = 0, ac_stateVersion = 0, ac_hbNonce = 0,
       ac_panics = [], ac_pendingOrig = None, ac_pendingIDs = [],
       ac_slowNotified = False, ac_coalesceNotified = False, ac_coalesceHeld = False,
       ac_resyncBucket = newBucket (bd_round b (1 / Seconds (bd_round b) (lm_MinResyncInterval lim))) (lm_ResyncBurst lim) now,
       ac_resyncDenied = 0, ac_lastSnapshotSeq = 0, ac_eventSeq = 0,
       ac_eventBucket = newBucket (lm_MaxEventsPerSecond lim) (lm_EventBurst lim) now,
       ac_eventDenied = 0, ac_ingressReady = False, ac_lastInbound = now, ac_lastEvent = now, ac_closing = False,
       ac_closed = [], ac_sent = [], ac_writes = 0, ac_provenance = [], ac_effects = []\<rparr>)"

subsection \<open>Helpers\<close>

definition Actor_Close :: "CloseCode \<Rightarrow> 'a Actor \<Rightarrow> 'a Actor" where
  "Actor_Close code a =
     (if ac_closing a then a else a\<lparr>ac_closing := True, ac_closed := ac_closed a @ [code]\<rparr>)"

definition post :: "inbound \<Rightarrow> 'a Actor \<Rightarrow> 'a Actor \<times> bool" where
  "post m a =
     (if int (length (ac_mailbox a)) < lm_MailboxDepth (ac_lim a)
      then (a\<lparr>ac_mailbox := ac_mailbox a @ [m]\<rparr>, True) else (a, False))"

text \<open>\<^verbatim>\<open>Framer.Send\<close>: a frame that encodes is offered to the transport.\<close>

definition Framer_Send :: "boundary \<Rightarrow> Frame \<Rightarrow> 'a Actor \<Rightarrow> 'a Actor \<times> (send_err + nat)" where
  "Framer_Send b f a =
     (case Framer_Encode (bd_Marshal b) f of
        Inl e \<Rightarrow> (a, Inl e)
      | Inr n \<Rightarrow>
          (let r = Framer_Write (KindOf f) n (bd_Write b (ac_writes a))
           in (a\<lparr>ac_writes := (if n = 0 then ac_writes a else Suc (ac_writes a)),
                 ac_sent := (case r of Inl e \<Rightarrow> ac_sent a | Inr m \<Rightarrow> ac_sent a @ [f])\<rparr>, r)))"

definition emitError :: "boundary \<Rightarrow> int \<Rightarrow> string \<Rightarrow> 64 word \<Rightarrow> 64 word \<Rightarrow> bool \<Rightarrow> 'a Actor \<Rightarrow> 'a Actor" where
  "emitError b code message eventID clientRef fatal a =
     fst (Framer_Send b (NewError (ac_peer a) code message eventID clientRef fatal) a)"

definition provenance ::
  "Origin \<Rightarrow> Event \<Rightarrow> string list \<Rightarrow> 64 word \<Rightarrow> 64 word \<Rightarrow> Supersession \<Rightarrow> 'a Actor \<Rightarrow> 'a Actor" where
  "provenance o' ev fragments patch seq superseded a =
     a\<lparr>ac_provenance := ac_provenance a @
         [\<lparr>pv_EventID = ev_ID ev, pv_ClientRef = ev_ClientRef ev, pv_TransitionID = ac_transitionID a,
           pv_StateVersion = ac_stateVersion a, pv_PatchID = patch, pv_ServerSeq = seq,
           pv_OriginKind = og_Kind o', pv_OriginSource = og_Source o', pv_FragmentIDs = fragments,
           pv_Contributing = og_Contributing o', pv_Superseded = superseded\<rparr>]\<rparr>"

definition no_supersession :: Supersession where
  "no_supersession = \<lparr>su_FromSeq = 0, su_ThroughSeq = 0\<rparr>"

fun dev_lines :: "string list \<Rightarrow> string" where
  "dev_lines [] = []"
| "dev_lines (d # ds) = (if d = [] then [] else CHR 10 # d) @ dev_lines ds"

definition devMessage :: "bool \<Rightarrow> string \<Rightarrow> string list \<Rightarrow> string" where
  "devMessage dev generic detail = (if \<not> dev then generic else generic @ dev_lines detail)"

definition notePanic :: "string \<Rightarrow> 'a Actor \<Rightarrow> 'a Actor" where
  "notePanic site a =
     (let n = map_get 0 (ac_panics a) site + 1; a = a\<lparr>ac_panics := map_put site n (ac_panics a)\<rparr>
      in if n \<ge> lm_PanicBudget (ac_lim a) then Actor_Close CloseInternalError a else a)"

definition reduceFailedMessage :: string where "reduceFailedMessage = ''the transition failed''"
definition renderFailedMessage :: string where
  "renderFailedMessage = ''a region of the page could not be rendered and is stale''"

definition renderDetail :: "Failure list \<Rightarrow> string list" where
  "renderDetail fs =
     (case fs of
        [] \<Rightarrow> []
      | f # rest \<Rightarrow>
          [''fragment '' @ fl_FragmentID f @ '' ('' @ fl_Site f @ ''): '' @ fl_Value f
             @ (if rest = [] then []
                else '' (and '' @ show_nat (length rest) @ '' more in this pass; the log has them all)'')])"

definition noteRenderFailures :: "boundary \<Rightarrow> Failure list \<Rightarrow> 64 word \<Rightarrow> 64 word \<Rightarrow> 'a Actor \<Rightarrow> 'a Actor" where
  "noteRenderFailures b fs eventID clientRef a =
     (if fs = [] then a
      else let a = emitError b ErrorCode_INTERNAL (devMessage (ac_dev a) renderFailedMessage (renderDetail fs))
                     eventID clientRef False a
           in (notePanic ''render'' ^^ length fs) a)"

definition sameState :: "'a IApp \<Rightarrow> 'a \<Rightarrow> 'a \<Rightarrow> bool" where
  "sameState app prev next =
     (if prev = ia_nil app \<or> next = ia_nil app then prev = next
      else if \<not> ia_StateComparable app then False
      else prev = next)"

definition wireOp :: "int \<Rightarrow> int" where
  "wireOp op =
     (if op = OpAppend then PatchOp_APPEND else if op = OpPrepend then PatchOp_PREPEND
      else if op = OpRemove then PatchOp_REMOVE else PatchOp_MORPH)"

definition toWireUpdates :: "rendered list \<Rightarrow> Update list" where
  "toWireUpdates us = map (\<lambda>u. \<lparr>up_FragmentID = rd_FragmentID u, up_Op = wireOp (rd_Op u), up_HTML = rd_HTML u\<rparr>) us"

definition fragmentIDs :: "rendered list \<Rightarrow> string list" where
  "fragmentIDs us = map rd_FragmentID us"

subsection \<open>Deferred provenance\<close>

definition deferPatch :: "Origin \<Rightarrow> 'a Actor \<Rightarrow> 'a Actor" where
  "deferPatch origin a =
     a\<lparr>ac_pendingIDs :=
         (case ac_pendingOrig a of
            None \<Rightarrow> ac_pendingIDs a
          | Some prev \<Rightarrow> ac_pendingIDs a @ (if og_EventID prev \<noteq> 0 then [og_EventID prev] else []) @ og_Contributing prev),
       ac_pendingOrig := Some origin\<rparr>"

text \<open>In first-seen order, without zero, what was seen before and repetitions.\<close>

fun new_ids :: "64 word list \<Rightarrow> 64 word list \<Rightarrow> 64 word list" where
  "new_ids seen [] = []"
| "new_ids seen (x # xs) = (if x = 0 \<or> x \<in> set seen then new_ids seen xs else x # new_ids (x # seen) xs)"

definition own_id :: "Origin \<Rightarrow> 64 word list" where
  "own_id origin = (if og_EventID origin \<noteq> 0 then [og_EventID origin] else [])"

definition unionEdges :: "Origin \<Rightarrow> 64 word list \<Rightarrow> 64 word list" where
  "unionEdges origin deferred = new_ids (own_id origin) (og_Contributing origin @ deferred)"

definition unionReaches :: "Origin \<Rightarrow> int \<Rightarrow> 'a Actor \<Rightarrow> bool" where
  "unionReaches origin n a =
     (let prev_ids = (case ac_pendingOrig a of None \<Rightarrow> [] | Some prev \<Rightarrow> og_EventID prev # og_Contributing prev)
      in if int (length (ac_pendingIDs a) + length (og_Contributing origin) + length prev_ids) < n then False
         else int (length (new_ids (own_id origin) (og_Contributing origin @ ac_pendingIDs a @ prev_ids))) \<ge> n)"

definition takePending :: "Origin \<Rightarrow> 'a Actor \<Rightarrow> 'a Actor \<times> 64 word list" where
  "takePending origin a =
     (a\<lparr>ac_pendingIDs := [], ac_pendingOrig := None\<rparr>,
      case ac_pendingOrig a of
        None \<Rightarrow> ac_pendingIDs a
      | Some prev \<Rightarrow>
          ac_pendingIDs a
          @ (if og_EventID prev \<noteq> 0 \<and> og_EventID prev \<noteq> og_EventID origin then [og_EventID prev] else [])
          @ og_Contributing prev)"

definition redefer :: "Origin \<Rightarrow> 64 word list \<Rightarrow> 'a Actor \<Rightarrow> 'a Actor" where
  "redefer origin contributing a =
     deferPatch origin (a\<lparr>ac_pendingIDs := take CoalesceFlushCeiling (ac_pendingIDs a @ contributing)\<rparr>)"

definition synthesize :: "time \<Rightarrow> string \<Rightarrow> 'a Actor \<Rightarrow> 'a Actor" where
  "synthesize now source a =
     fst (post (getInbound msgSynthetic (zeroEvent\<lparr>ev_Name := source, ev_At := now\<rparr>)
                 (zeroOrigin\<lparr>og_Kind := OriginKind_TIMER, og_Source := source\<rparr>)) a)"

definition note_fullness :: "time \<Rightarrow> 'a Actor \<Rightarrow> 'a Actor" where
  "note_fullness now a = a\<lparr>ac_win := noteFullness now (ac_win a)\<rparr>"

definition enterCoalesce :: "time \<Rightarrow> Origin \<Rightarrow> 'a Actor \<Rightarrow> 'a Actor" where
  "enterCoalesce now origin a = note_fullness now ((deferPatch origin a)\<lparr>ac_coalesceNotified := True\<rparr>)"

definition degrade :: "time \<Rightarrow> Origin \<Rightarrow> 'a Actor \<Rightarrow> 'a Actor" where
  "degrade now origin a =
     (let a = deferPatch origin a;
          a = (if ac_slowNotified a then a else synthesize now SourceSlowClient (a\<lparr>ac_slowNotified := True\<rparr>))
      in note_fullness now a)"

subsection \<open>Emission\<close>

definition renderPass :: "bool \<Rightarrow> 'a Actor \<Rightarrow> 'a Actor \<times> RenderResult" where
  "renderPass all a =
     (if all then let (v, res) = RenderAll (ac_state a) (ac_view a) in (a\<lparr>ac_view := v\<rparr>, res)
      else let (v, res) = Renderer_Render (ac_state a) (ac_view a)
           in if length (rs_Updates res) > (case ListBound ''Patch.updates'' of None \<Rightarrow> 0 | Some n \<Rightarrow> n)
              then let (v, complete) = RenderAll (ac_state a) (Renderer_Discard res v)
                   in (a\<lparr>ac_view := v\<rparr>, complete\<lparr>rs_Failed := rs_Failed res @ rs_Failed complete\<rparr>)
              else (a\<lparr>ac_view := v\<rparr>, res))"

text \<open>Encoding, writing and the sequence counters; the encoded size if the frame was sent.\<close>

definition Actor_send :: "boundary \<Rightarrow> Frame \<Rightarrow> Causal \<Rightarrow> 'a Actor \<Rightarrow> 'a Actor \<times> nat option" where
  "Actor_send b frame causal a =
     (case Framer_Send b frame a of
        (a, Inr n) \<Rightarrow> (a\<lparr>ac_serverSeq := ca_ServerSeq causal, ac_patchID := ca_PatchID causal\<rparr>, Some n)
      | (a, Inl (InvalidFrame k e)) \<Rightarrow>
          (emitError b ErrorCode_INTERNAL ''the server could not encode an update'' 0 0 False a, None)
      | (a, Inl WriteFailed) \<Rightarrow>
          (Actor_Close (if win_full (ac_win a) then CloseSlowClient else CloseNormal) a, None))"

definition next_causal :: "'a Actor \<Rightarrow> Causal" where
  "next_causal a = \<lparr>ca_ServerSeq = ac_serverSeq a + 1, ca_PatchID = ac_patchID a + 1,
     ca_TransitionID = ac_transitionID a, ca_StateVersion = ac_stateVersion a\<rparr>"

definition push_slot :: "Causal \<Rightarrow> 'a Actor \<Rightarrow> 'a Actor" where
  "push_slot c a = a\<lparr>ac_win := win_push \<lparr>sl_serverSeq = ca_ServerSeq c, sl_patchID = ca_PatchID c\<rparr> (ac_win a)\<rparr>"

text \<open>From the decision to emit on: take the deferred, render, build, send, commit or put back.\<close>

definition emit_now :: "boundary \<Rightarrow> Origin \<Rightarrow> Event \<Rightarrow> 'a Actor \<Rightarrow> 'a Actor" where
  "emit_now b origin ev a =
     (let (a, contributing) = takePending origin (a\<lparr>ac_coalesceHeld := False\<rparr>);
          (a, res) = renderPass False a;
          a = (if rs_Updates res = [] then
                 provenance origin ev [] 0 0 no_supersession (redefer origin contributing a)
               else
                 let origin = origin\<lparr>og_Contributing := unionEdges origin contributing\<rparr>;
                     causal = next_causal a
                 in case Actor_send b (NewPatch (ac_peer a) causal origin (toWireUpdates (rs_Updates res))) causal a of
                      (a, None) \<Rightarrow> redefer origin contributing (a\<lparr>ac_view := Renderer_Discard res (ac_view a)\<rparr>)
                    | (a, Some n) \<Rightarrow>
                        provenance origin ev (fragmentIDs (rs_Updates res)) (ca_PatchID causal) (ca_ServerSeq causal)
                          no_supersession (push_slot causal (a\<lparr>ac_view := Renderer_Commit res (ac_view a)\<rparr>)))
      in noteRenderFailures b (rs_Failed res) (ev_ID ev) (ev_ClientRef ev) a)"

definition emitPatch :: "boundary \<Rightarrow> time \<Rightarrow> Origin \<Rightarrow> Event \<Rightarrow> bool \<Rightarrow> 'a Actor \<Rightarrow> 'a Actor" where
  "emitPatch b now origin ev forced a =
     (if unionReaches origin (lm_CoalesceFlushAt (ac_lim a)) a then emit_now b origin ev a
      else if win_full (ac_win a) then provenance origin ev [] 0 0 no_supersession (degrade now origin a)
      else if win_coalescing (ac_win a) \<and> \<not> forced \<and> \<not> ac_coalesceHeld a
      then provenance origin ev [] 0 0 no_supersession (enterCoalesce now origin (a\<lparr>ac_coalesceHeld := True\<rparr>))
      else emit_now b origin ev a)"

definition session_params :: "Limits \<Rightarrow> SessionParams" where
  "session_params l =
     \<lparr>sp_HeartbeatIntervalMS = word_of_int (lm_HeartbeatInterval l div millisecond),
      sp_MaxInboundFrameBytes = word_of_int (lm_MaxInboundFrameBytes l), sp_AckWindow = word_of_int (lm_AckWindow l)\<rparr>"

definition emitSnapshot :: "boundary \<Rightarrow> Origin \<Rightarrow> Supersession \<Rightarrow> 64 word \<Rightarrow> 'a Actor \<Rightarrow> 'a Actor \<times> nat option" where
  "emitSnapshot b origin superseded eventID a =
     (let (a, res) = renderPass True a;
          (a, contributing) = takePending origin a;
          origin = origin\<lparr>og_Contributing := unionEdges origin contributing\<rparr>;
          causal = next_causal a;
          (a, sent) =
            (case Actor_send b (NewSnapshot (ac_peer a) causal origin (session_params (ac_lim a)) superseded
                                  (toWireUpdates (rs_Updates res))) causal a of
               (a, None) \<Rightarrow> (redefer origin contributing (a\<lparr>ac_view := Renderer_Discard res (ac_view a)\<rparr>), None)
             | (a, Some n) \<Rightarrow>
                 (provenance origin (zeroEvent\<lparr>ev_ID := eventID, ev_ClientRef := og_ClientRef origin\<rparr>)
                    (fragmentIDs (rs_Updates res)) (ca_PatchID causal) (ca_ServerSeq causal) superseded
                    (push_slot causal (a\<lparr>ac_view := Renderer_Commit res (ac_view a), ac_lastSnapshotSeq := ca_ServerSeq causal\<rparr>)),
                  Some n))
      in (noteRenderFailures b (rs_Failed res) eventID (og_ClientRef origin) a, sent))"

subsection \<open>Effects\<close>

definition EffectFailedEvent :: string where "EffectFailedEvent = ''gotth.effect_failed''"

definition effectOrigin :: "string \<Rightarrow> string" where
  "effectOrigin source =
     (if ValidOriginSource (SourceEffectPrefix @ source) then SourceEffectPrefix @ source else SourceEffectInvalid)"

definition scheduledEdge :: "64 word \<Rightarrow> 64 word list" where
  "scheduledEdge scheduledBy = (if scheduledBy = 0 then [] else [scheduledBy])"

definition effect_origin :: "string \<Rightarrow> 64 word list \<Rightarrow> Origin" where
  "effect_origin source contributing =
     zeroOrigin\<lparr>og_Kind := OriginKind_EFFECT, og_Source := effectOrigin source, og_Contributing := contributing\<rparr>"

definition emitFailure :: "time \<Rightarrow> string \<Rightarrow> string \<Rightarrow> bool \<Rightarrow> 64 word \<Rightarrow> 'a Actor \<Rightarrow> 'a Actor" where
  "emitFailure now source detail retryable scheduledBy a =
     (if ac_closing a then a
      else fst (post (getInbound msgEffectResult
             (zeroEvent\<lparr>ev_Name := EffectFailedEvent, ev_At := now,
                ev_Fields := [\<lparr>ef_Key = ''source'', ef_Value = source\<rparr>, \<lparr>ef_Key = ''error'', ef_Value = detail\<rparr>,
                  \<lparr>ef_Key = ''retryable'', ef_Value = (if retryable then ''true'' else ''false'')\<rparr>]\<rparr>)
             (effect_origin source (scheduledEdge scheduledBy))) a))"

definition effectSourceRefused :: string where
  "effectSourceRefused =
     ''gotth-live: Effect.Source is not usable as an origin source: it must be at most ''
     @ show_nat (MaxOriginSource - length SourceEffectPrefix)
     @ '' bytes and match ^[a-z][a-z0-9_.:/-]*$, because the library namespaces it as ''
     @ [CHR 0x22] @ SourceEffectPrefix @ [CHR 0x22]
     @ '' + source onto the origin of every patch the effect causes''"

definition effectRunMissing :: string where
  "effectRunMissing =
     ''gotth-live: Effect.Run is nil: an effect that names itself and carries no behaviour is a change that never happens ''
     @ [CHR 0xE2, CHR 0x80, CHR 0x94] @ '' set Run, or return no effect at all''"

definition execute :: "time \<Rightarrow> 64 word \<Rightarrow> Effect \<Rightarrow> 'a Actor \<Rightarrow> 'a Actor" where
  "execute now scheduledBy e a =
     (if \<not> ValidOriginSource (SourceEffectPrefix @ fx_Source e)
      then emitFailure now (fx_Source e) effectSourceRefused False scheduledBy a
      else if \<not> fx_Run e then emitFailure now (fx_Source e) effectRunMissing False scheduledBy a
      else a\<lparr>ac_effects := ac_effects a @ [(fx_Source e, scheduledBy)]\<rparr>)"

definition runEffects :: "time \<Rightarrow> Effect list \<Rightarrow> 64 word \<Rightarrow> 'a Actor \<Rightarrow> 'a Actor" where
  "runEffects now effects scheduledBy a =
     fold (\<lambda>e a. if fx_Source e = [] \<and> \<not> fx_Run e then a else execute now scheduledBy e a) effects a"

text \<open>What an effect under way does: emit an event, or end.\<close>

datatype emit_err = ErrSessionSaturated | ErrSessionClosing

definition emitter :: "time \<Rightarrow> string \<Rightarrow> 64 word \<Rightarrow> Event \<Rightarrow> 'a Actor \<Rightarrow> 'a Actor \<times> emit_err option" where
  "emitter now source scheduledBy ev a =
     (if ac_closing a then (a, Some ErrSessionClosing)
      else case post (getInbound msgEffectResult (ev\<lparr>ev_ID := 0, ev_ClientRef := 0, ev_At := now\<rparr>)
                       (effect_origin source (scheduledEdge scheduledBy @ ev_Contributing ev))) a of
             (a, True) \<Rightarrow> (a, None)
           | (a, False) \<Rightarrow> (a, Some ErrSessionSaturated))"

datatype effect_end = EffectOk | EffectCancelled | EffectError string bool | EffectPanic string

fun runOne_end :: "time \<Rightarrow> string \<Rightarrow> 64 word \<Rightarrow> effect_end \<Rightarrow> 'a Actor \<Rightarrow> 'a Actor" where
  "runOne_end now source scheduledBy EffectOk a = a"
| "runOne_end now source scheduledBy EffectCancelled a = a"
| "runOne_end now source scheduledBy (EffectError e retryable) a = emitFailure now source e retryable scheduledBy a"
| "runOne_end now source scheduledBy (EffectPanic e) a = emitFailure now source e False scheduledBy a"

definition effect_ends :: "time \<Rightarrow> string \<Rightarrow> 64 word \<Rightarrow> effect_end \<Rightarrow> 'a Actor \<Rightarrow> 'a Actor" where
  "effect_ends now source scheduledBy e a =
     (let a = runOne_end now source scheduledBy e a
      in a\<lparr>ac_effects := remove1 (source, scheduledBy) (ac_effects a)\<rparr>)"

subsection \<open>The actor's steps\<close>

definition mount :: "boundary \<Rightarrow> time \<Rightarrow> 'a Actor \<Rightarrow> 'a Actor" where
  "mount b now a =
     (case ia_Init (ac_app a) of
        Inl err \<Rightarrow>
          Actor_Close CloseInternalError
            (emitError b ErrorCode_INTERNAL ''the session could not be established'' 0 0 True a)
      | Inr (state, effects) \<Rightarrow>
          (let a = a\<lparr>ac_state := state, ac_transitionID := 1, ac_stateVersion := 1\<rparr>;
               origin = zeroOrigin\<lparr>og_Kind := OriginKind_MOUNT, og_Source := SourceMount\<rparr>
           in case emitSnapshot b origin no_supersession 0 a of
                (a, None) \<Rightarrow>
                  Actor_Close CloseInternalError
                    (emitError b ErrorCode_INTERNAL ''the session could not be established'' 0 0 True a)
              | (a, Some n) \<Rightarrow> runEffects now effects 0 a))"

definition unknown_fragment :: string where
  "unknown_fragment = ''the event names a fragment this session does not currently declare''"

definition rejectUnknownFragment :: "boundary \<Rightarrow> 64 word \<Rightarrow> 64 word \<Rightarrow> 'a Actor \<Rightarrow> 'a Actor" where
  "rejectUnknownFragment b eventID clientRef a = emitError b ErrorCode_UNKNOWN_FRAGMENT unknown_fragment eventID clientRef False a"

definition transition :: "boundary \<Rightarrow> time \<Rightarrow> Event \<Rightarrow> Origin \<Rightarrow> 'a Actor \<Rightarrow> 'a Actor" where
  "transition b now ev origin a =
     (if ev_SeenServerSeq ev > ac_serverSeq a then
        emitError b ErrorCode_INVALID_FRAME ''the event claims to have seen a patch this session has not sent''
          (ev_ID ev) (ev_ClientRef ev) False a
      else if og_Kind origin = OriginKind_CLIENT_EVENT \<and> \<not> KnownID (ac_view a) (ev_FragmentID ev) then
        rejectUnknownFragment b (ev_ID ev) (ev_ClientRef ev) a
      else
        let prev = ac_state a; a = a\<lparr>ac_transitionID := ac_transitionID a + 1\<rparr>
        in case ia_Reduce (ac_app a) prev ev of
             Inl panic \<Rightarrow>
               provenance origin ev [] 0 0 no_supersession (notePanic ''reduce''
                 (emitError b ErrorCode_INTERNAL (devMessage (ac_dev a) reduceFailedMessage [panic])
                    (ev_ID ev) (ev_ClientRef ev) False a))
           | Inr (next, effects) \<Rightarrow>
               (let changed = \<not> sameState (ac_app a) prev next;
                    (v, failures) = Renderer_Mark prev next (ac_view a);
                    a = a\<lparr>ac_state := next, ac_stateVersion := (if changed then ac_stateVersion a + 1 else ac_stateVersion a),
                          ac_view := v\<rparr>
                in noteRenderFailures b failures (ev_ID ev) (ev_ClientRef ev)
                     (runEffects now effects (ev_ID ev) (emitPatch b now origin ev False a))))"

definition consecutiveDenialsBeforeClose :: int where "consecutiveDenialsBeforeClose = 3"

definition resync :: "boundary \<Rightarrow> time \<Rightarrow> inbound \<Rightarrow> 'a Actor \<Rightarrow> 'a Actor" where
  "resync b now m a =
     (case bucket_allow (bd_round b) now (ac_resyncBucket a) of
        (bucket, False) \<Rightarrow>
          (let a = a\<lparr>ac_resyncBucket := bucket, ac_resyncDenied := ac_resyncDenied a + 1\<rparr>;
               a = emitError b ErrorCode_RATE_LIMITED ''resync requests are rate limited: wait before requesting another''
                     (ev_ID (im_ev m)) (ev_ClientRef (im_ev m)) False a
           in if ac_resyncDenied a \<ge> consecutiveDenialsBeforeClose * lm_ResyncBurst (ac_lim a)
              then Actor_Close CloseRateLimited a else a)
      | (bucket, True) \<Rightarrow>
          (let a = a\<lparr>ac_resyncBucket := bucket, ac_resyncDenied := 0\<rparr>;
               applied = max (max (im_lastAppliedSeq m) (ackedSeq (ac_win a))) (ac_lastSnapshotSeq a)
           in if applied \<ge> ac_serverSeq a then fst (Framer_Send b (NewAck (ac_peer a) (ac_serverSeq a)) a)
              else fst (emitSnapshot b
                     (zeroOrigin\<lparr>og_Kind := OriginKind_RESYNC, og_EventID := ev_ID (im_ev m),
                        og_ClientRef := ev_ClientRef (im_ev m), og_Source := SourceResync\<rparr>)
                     \<lparr>su_FromSeq = applied + 1, su_ThroughSeq = ac_serverSeq a\<rparr> (ev_ID (im_ev m))
                     (a\<lparr>ac_transitionID := ac_transitionID a + 1\<rparr>))))"

text \<open>A report counts when it names a retained patch; nothing else of the session changes.\<close>

definition telemetry :: "inbound \<Rightarrow> 'a Actor \<Rightarrow> slot option" where
  "telemetry m a = slotFor (im_patchID m) (ac_win a)"

definition Actor_step :: "boundary \<Rightarrow> time \<Rightarrow> inbound \<Rightarrow> 'a Actor \<Rightarrow> 'a Actor" where
  "Actor_step b now m a =
     (case im_kind m of
        msgEvent \<Rightarrow> transition b now (im_ev m) (im_origin m) a
      | msgEffectResult \<Rightarrow> transition b now (im_ev m) (im_origin m) a
      | msgSynthetic \<Rightarrow> transition b now (im_ev m) (im_origin m) a
      | msgResync \<Rightarrow> resync b now m a
      | msgTelemetry \<Rightarrow> a)"

text \<open>The cause of an emission that no transition asked for: the most recent deferred one.\<close>

definition deferred_origin :: "'a Actor \<Rightarrow> Origin" where
  "deferred_origin a =
     (case ac_pendingOrig a of
        None \<Rightarrow> zeroOrigin\<lparr>og_Kind := OriginKind_TIMER, og_Source := SourceClientRecovered\<rparr>
      | Some o' \<Rightarrow> o')"

definition emit_deferred :: "boundary \<Rightarrow> time \<Rightarrow> 'a Actor \<Rightarrow> 'a Actor" where
  "emit_deferred b now a =
     (let origin = deferred_origin a
      in emitPatch b now origin (zeroEvent\<lparr>ev_ID := og_EventID origin, ev_ClientRef := og_ClientRef origin\<rparr>) True a)"

definition onAck :: "boundary \<Rightarrow> time \<Rightarrow> 64 word \<Rightarrow> 'a Actor \<Rightarrow> 'a Actor" where
  "onAck b now seq a =
     (case win_ack seq (ac_win a) of
        (w, Some err) \<Rightarrow> Actor_Close CloseProtocolViolation a
      | (w, None) \<Rightarrow>
          (let a = note_fullness now (a\<lparr>ac_win := w\<rparr>);
               a = (if win_coalescing (ac_win a) then a else a\<lparr>ac_coalesceNotified := False, ac_coalesceHeld := False\<rparr>)
           in if win_full (ac_win a) \<or> \<not> Renderer_Pending (ac_view a) then a
              else let a = (if ac_slowNotified a
                            then synthesize now SourceClientRecovered (a\<lparr>ac_slowNotified := False\<rparr>) else a)
                   in emit_deferred b now a))"

definition onTick :: "boundary \<Rightarrow> time \<Rightarrow> time \<Rightarrow> 'a Actor \<Rightarrow> 'a Actor" where
  "onTick b clock t a =
     (let now = (if IsZero t then clock else t)
      in if time_Sub now (ac_lastInbound a) > lm_HeartbeatTimeout (ac_lim a) then Actor_Close CloseHeartbeatTimeout a
         else if time_Sub now (ac_lastEvent a) > lm_IdleTimeout (ac_lim a) then Actor_Close CloseSessionEvicted a
         else let a = note_fullness now a; full = wn_fullSince (ac_win a)
              in if \<not> IsZero full \<and> time_Sub now full > lm_SlowClientGrace (ac_lim a) then Actor_Close CloseSlowClient a
                 else let a = (if Renderer_Pending (ac_view a) \<and> \<not> win_full (ac_win a) then emit_deferred b clock a else a);
                          a = a\<lparr>ac_hbNonce := ac_hbNonce a + 1\<rparr>
                      in case Framer_Send b (NewHeartbeat (ac_peer a) (ac_hbNonce a)
                                  (word_of_int (lm_HeartbeatInterval (ac_lim a) div millisecond))) a of
                           (a, Inl err) \<Rightarrow> Actor_Close CloseNormal a
                         | (a, Inr n) \<Rightarrow> a)"

subsection \<open>The ingress\<close>

definition Actor_authorize :: "boundary \<Rightarrow> Event \<Rightarrow> 'a Actor \<Rightarrow> 'a Actor \<times> bool" where
  "Actor_authorize b ev a =
     (case ia_Authorize (ac_app a) ev of
        None \<Rightarrow> (a, True)
      | Some (FatalDenyError reason) \<Rightarrow>
          (Actor_Close CloseUnauthorized
             (emitError b ErrorCode_UNAUTHORIZED ''not permitted'' (ev_ID ev) (ev_ClientRef ev) True a), False)
      | Some e \<Rightarrow> (emitError b ErrorCode_UNAUTHORIZED ''not permitted'' (ev_ID ev) (ev_ClientRef ev) False a, False))"

definition saturated :: string where "saturated = ''the session is saturated: slow down and retry''"

definition ingressEvent ::
  "boundary \<Rightarrow> time \<Rightarrow> 64 word \<Rightarrow> string \<Rightarrow> string \<Rightarrow> 64 word \<Rightarrow> EventField list \<Rightarrow> 'a Actor \<Rightarrow> 'a Actor" where
  "ingressEvent b now clientRef name fragment seen form a =
     (let a = a\<lparr>ac_eventSeq := ac_eventSeq a + 1\<rparr>; eventID = ac_eventSeq a
      in case bucket_allow (bd_round b) now (ac_eventBucket a) of
           (bucket, False) \<Rightarrow>
             (let a = a\<lparr>ac_eventBucket := bucket, ac_eventDenied := ac_eventDenied a + 1\<rparr>;
                  a = emitError b ErrorCode_RATE_LIMITED ''too many events: slow down and retry'' eventID clientRef False a
              in if ac_eventDenied a \<ge> consecutiveDenialsBeforeClose * lm_EventBurst (ac_lim a)
                 then Actor_Close CloseRateLimited a else a)
         | (bucket, True) \<Rightarrow>
             (let a = a\<lparr>ac_eventBucket := bucket, ac_eventDenied := 0\<rparr>
              in if \<not> ia_Registered (ac_app a) name then
                   emitError b ErrorCode_UNKNOWN_EVENT ''the event name is not registered by this application''
                     eventID clientRef False a
                 else if \<not> AdmitsID (ia_Registry (ac_app a)) fragment then rejectUnknownFragment b eventID clientRef a
                 else
                   let ev = zeroEvent\<lparr>ev_ID := eventID, ev_ClientRef := clientRef, ev_SeenServerSeq := seen, ev_Name := name,
                              ev_FragmentID := fragment, ev_At := now, ev_Fields := form\<rparr>
                   in case Actor_authorize b ev a of
                        (a, False) \<Rightarrow> a
                      | (a, True) \<Rightarrow>
                          (case post (getInbound msgEvent ev
                                   (zeroOrigin\<lparr>og_Kind := OriginKind_CLIENT_EVENT, og_EventID := eventID,
                                      og_ClientRef := clientRef, og_Source := SourceEventPrefix @ name\<rparr>)) a of
                             (a, True) \<Rightarrow> a
                           | (a, False) \<Rightarrow> emitError b ErrorCode_RATE_LIMITED saturated eventID clientRef False a)))"

definition ResyncEventName :: string where "ResyncEventName = ''gotth.resync''"

definition ingressResync :: "boundary \<Rightarrow> time \<Rightarrow> 64 word \<Rightarrow> 'a Actor \<Rightarrow> 'a Actor" where
  "ingressResync b now lastApplied a =
     (let a = a\<lparr>ac_eventSeq := ac_eventSeq a + 1\<rparr>; eventID = ac_eventSeq a;
          ev = zeroEvent\<lparr>ev_ID := eventID, ev_ClientRef := eventID, ev_SeenServerSeq := lastApplied,
                 ev_Name := ResyncEventName, ev_At := now\<rparr>
      in case Actor_authorize b ev a of
           (a, False) \<Rightarrow> a
         | (a, True) \<Rightarrow>
             (case post ((getInbound msgResync ev
                      (zeroOrigin\<lparr>og_Kind := OriginKind_RESYNC, og_EventID := eventID, og_ClientRef := eventID,
                         og_Source := SourceResync\<rparr>))\<lparr>im_lastAppliedSeq := lastApplied\<rparr>) a of
                (a, True) \<Rightarrow> a
              | (a, False) \<Rightarrow> emitError b ErrorCode_RATE_LIMITED saturated eventID eventID False a))"

definition ingressAck :: "64 word \<Rightarrow> 'a Actor \<Rightarrow> 'a Actor" where
  "ingressAck seq a =
     (if int (length (ac_acks a)) < lm_AckChannelDepth (ac_lim a) then a\<lparr>ac_acks := ac_acks a @ [seq]\<rparr> else a)"

definition ingressTelemetry :: "64 word \<Rightarrow> 32 word \<Rightarrow> 32 word \<Rightarrow> 'a Actor \<Rightarrow> 'a Actor" where
  "ingressTelemetry patch morphed applied a =
     fst (post ((getInbound msgTelemetry zeroEvent zeroOrigin)
       \<lparr>im_patchID := patch, im_morphMicros := morphed, im_applyMicros := applied\<rparr>) a)"

definition Ingress :: "boundary \<Rightarrow> time \<Rightarrow> Inbound \<Rightarrow> 'a Actor \<Rightarrow> 'a Actor" where
  "Ingress b now i a =
     (let a = a\<lparr>ac_lastInbound := now\<rparr>
      in case ib_Payload i of
           InboundEvent clientRef name fragment seen form \<Rightarrow>
             ingressEvent b now clientRef name fragment seen form (a\<lparr>ac_lastEvent := now\<rparr>)
         | InboundResyncRequest lastApplied reason \<Rightarrow> ingressResync b now lastApplied (a\<lparr>ac_lastEvent := now\<rparr>)
         | InboundAck seq \<Rightarrow> ingressAck seq a
         | InboundClientTelemetry patch morphed applied \<Rightarrow> ingressTelemetry patch morphed applied a
         | InboundHeartbeat \<Rightarrow> a)"

subsection \<open>The session\<close>

text \<open>
  Everything that can happen to a session after its mount: the loop takes a message, an
  acknowledgement or a tick, the read pump hands in a frame, an effect emits or ends, the
  transport closes.
\<close>

datatype live_input =
    TakeMessage
  | TakeAck
  | TakeTick time
  | ReadFrame Inbound
  | EffectEmits string "64 word" Event
  | EffectEnds string "64 word" effect_end
  | CloseCalled CloseCode

fun live_turn :: "boundary \<Rightarrow> time \<times> live_input \<Rightarrow> 'a Actor \<Rightarrow> 'a Actor" where
  "live_turn b (now, TakeMessage) a =
     (case ac_mailbox a of [] \<Rightarrow> a | m # ms \<Rightarrow> Actor_step b now m (a\<lparr>ac_mailbox := ms\<rparr>))"
| "live_turn b (now, TakeAck) a =
     (case ac_acks a of [] \<Rightarrow> a | s # ss \<Rightarrow> onAck b now s (a\<lparr>ac_acks := ss\<rparr>))"
| "live_turn b (now, TakeTick t) a = onTick b now t a"
| "live_turn b (now, ReadFrame i) a = Ingress b now i a"
| "live_turn b (now, EffectEmits source by ev) a =
     (if (source, by) \<in> set (ac_effects a) then fst (emitter now source by ev a) else a)"
| "live_turn b (now, EffectEnds source by e) a =
     (if (source, by) \<in> set (ac_effects a) then effect_ends now source by e a else a)"
| "live_turn b (now, CloseCalled code) a = Actor_Close code a"

definition live_start :: "boundary \<Rightarrow> 'a IApp \<Rightarrow> Limits \<Rightarrow> string \<Rightarrow> bool \<Rightarrow> time \<Rightarrow> 'a Actor" where
  "live_start b app limits peer dev now = (mount b now (Actor_New b app limits peer dev now))\<lparr>ac_ingressReady := True\<rparr>"

definition live_run :: "boundary \<Rightarrow> (time \<times> live_input) list \<Rightarrow> 'a Actor \<Rightarrow> 'a Actor" where
  "live_run b inputs a = fold (live_turn b) inputs a"

end
