(* ===== verification/Live_Wire.thy ===== *)
theory Live_Wire
  imports Live_Actor
begin

text \<open>
  What a session puts on the wire. The specification is a machine with the sequenced frames
  sent so far, the counters and the acknowledged sequence; it sends a patch or a snapshot under
  the next numbers, or takes an acknowledgement. Every turn of the actor refines it, so the
  properties of the wire are proved on the machine by rule induction.
\<close>

subsection \<open>The specification\<close>

fun payload_causal :: "Payload option \<Rightarrow> Causal option" where
  "payload_causal (Some (Frame_Patch c o' us)) = Some c"
| "payload_causal (Some (Frame_Snapshot c o' p us s)) = Some c"
| "payload_causal p = None"

definition causal_of :: "Frame \<Rightarrow> Causal option" where
  "causal_of f = payload_causal (fr_Payload f)"

definition sequenced :: "Frame \<Rightarrow> bool" where
  "sequenced f \<longleftrightarrow> causal_of f \<noteq> None"

record wire =
  wr_frames :: "Frame list"
  wr_seq :: "64 word"
  wr_patch :: "64 word"
  wr_highest :: "64 word"
  wr_acked :: "64 word"
  wr_snapshot :: "64 word"
  wr_slots :: "slot list"
  wr_cap :: int

definition wire_of :: "'a Actor \<Rightarrow> wire" where
  "wire_of a =
     \<lparr>wr_frames = filter sequenced (ac_sent a), wr_seq = ac_serverSeq a, wr_patch = ac_patchID a,
      wr_highest = wn_highest (ac_win a), wr_acked = wn_acked (ac_win a), wr_snapshot = ac_lastSnapshotSeq a,
      wr_slots = wn_slots (ac_win a), wr_cap = wn_cap (ac_win a)\<rparr>"

definition wire_causal :: "wire \<Rightarrow> 64 word \<Rightarrow> 64 word \<Rightarrow> Causal" where
  "wire_causal w tid version =
     \<lparr>ca_ServerSeq = wr_seq w + 1, ca_PatchID = wr_patch w + 1, ca_TransitionID = tid, ca_StateVersion = version\<rparr>"

definition wire_sends :: "Frame \<Rightarrow> wire \<Rightarrow> wire" where
  "wire_sends f w =
     (let slots = wr_slots w @ [\<lparr>sl_serverSeq = wr_seq w + 1, sl_patchID = wr_patch w + 1\<rparr>]
      in w\<lparr>wr_frames := wr_frames w @ [f], wr_seq := wr_seq w + 1, wr_patch := wr_patch w + 1,
           wr_highest := wr_seq w + 1, wr_slots := drop (length slots - nat (wr_cap w + 1)) slots\<rparr>)"

inductive wire_step :: "wire \<Rightarrow> wire \<Rightarrow> bool" where
  idle: "wire_step w w"
| patch: "wire_step w (wire_sends f w)"
    if "f = NewPatch peer (wire_causal w tid version) o' us" and "ValidateOutbound f = None"
| again: "wire_step w ((wire_sends f w)\<lparr>wr_snapshot := wr_seq w + 1\<rparr>)"
    if "f = NewSnapshot peer (wire_causal w tid version) o' ps \<lparr>su_FromSeq = applied + 1, su_ThroughSeq = wr_seq w\<rparr> us"
      and "ValidateOutbound f = None" and "og_Kind o' = OriginKind_RESYNC"
      and "wr_acked w \<le> applied" and "wr_snapshot w \<le> applied" and "applied < wr_seq w"
| ack: "wire_step w (w\<lparr>wr_acked := seq\<rparr>)" if "wr_acked w \<le> seq" and "seq \<le> wr_highest w"

subsection \<open>What leaves the wire alone\<close>

named_theorems wire_simps \<open>operations of the actor that send no sequenced frame\<close>

lemma wire_of_upd [wire_simps]:
  "wire_of (a\<lparr>ac_mailbox := x1\<rparr>) = wire_of a" "wire_of (a\<lparr>ac_acks := x2\<rparr>) = wire_of a"
  "wire_of (a\<lparr>ac_state := x3\<rparr>) = wire_of a" "wire_of (a\<lparr>ac_view := x4\<rparr>) = wire_of a"
  "wire_of (a\<lparr>ac_transitionID := x5\<rparr>) = wire_of a" "wire_of (a\<lparr>ac_stateVersion := x6\<rparr>) = wire_of a"
  "wire_of (a\<lparr>ac_hbNonce := x7\<rparr>) = wire_of a" "wire_of (a\<lparr>ac_panics := x8\<rparr>) = wire_of a"
  "wire_of (a\<lparr>ac_pendingOrig := x9\<rparr>) = wire_of a" "wire_of (a\<lparr>ac_pendingIDs := x10\<rparr>) = wire_of a"
  "wire_of (a\<lparr>ac_slowNotified := x11\<rparr>) = wire_of a" "wire_of (a\<lparr>ac_coalesceNotified := x12\<rparr>) = wire_of a"
  "wire_of (a\<lparr>ac_coalesceHeld := x13\<rparr>) = wire_of a" "wire_of (a\<lparr>ac_resyncBucket := x14\<rparr>) = wire_of a"
  "wire_of (a\<lparr>ac_resyncDenied := x15\<rparr>) = wire_of a" "wire_of (a\<lparr>ac_eventSeq := x16\<rparr>) = wire_of a"
  "wire_of (a\<lparr>ac_eventBucket := x17\<rparr>) = wire_of a" "wire_of (a\<lparr>ac_eventDenied := x18\<rparr>) = wire_of a"
  "wire_of (a\<lparr>ac_ingressReady := x19\<rparr>) = wire_of a" "wire_of (a\<lparr>ac_lastInbound := x20\<rparr>) = wire_of a"
  "wire_of (a\<lparr>ac_lastEvent := x21\<rparr>) = wire_of a" "wire_of (a\<lparr>ac_closing := x22\<rparr>) = wire_of a"
  "wire_of (a\<lparr>ac_closed := x23\<rparr>) = wire_of a" "wire_of (a\<lparr>ac_writes := x24\<rparr>) = wire_of a"
  "wire_of (a\<lparr>ac_provenance := x25\<rparr>) = wire_of a" "wire_of (a\<lparr>ac_effects := x26\<rparr>) = wire_of a"
  by (simp_all add: wire_of_def)

lemma sequenced_new [simp]:
  "\<not> sequenced (NewError s c m e r f)" "\<not> sequenced (NewHeartbeat s n i)" "\<not> sequenced (NewAck s n)"
  "sequenced (NewPatch s ca o' us)" "sequenced (NewSnapshot s ca o' ps su us)"
  by (simp_all add: sequenced_def causal_of_def NewError_def NewHeartbeat_def NewAck_def NewPatch_def NewSnapshot_def new_frame_def)

lemma wire_Framer_Send [wire_simps]: "\<not> sequenced f \<Longrightarrow> wire_of (fst (Framer_Send b f a)) = wire_of a"
  by (simp add: Framer_Send_def wire_of_def Let_def split: sum.split)

lemma wire_quiet [wire_simps]:
  "wire_of (Actor_Close code a) = wire_of a"
  "wire_of (fst (post m a)) = wire_of a"
  "wire_of (emitError b c s e r f a) = wire_of a"
  "wire_of (provenance o' ev fs p q su a) = wire_of a"
  "wire_of (deferPatch origin a) = wire_of a"
  "wire_of (redefer origin ids a) = wire_of a"
  "wire_of (synthesize now source a) = wire_of a"
  "wire_of (note_fullness now a) = wire_of a"
  "wire_of (emitFailure now source detail retryable by' a) = wire_of a"
proof -
  show p: "wire_of (fst (post m a)) = wire_of a" for m and a :: "'a Actor" by (simp add: post_def wire_simps)
  show "wire_of (emitError b c s e r f a) = wire_of a" by (simp add: emitError_def wire_simps)
  show d: "wire_of (deferPatch origin a) = wire_of a" for a :: "'a Actor" by (simp add: deferPatch_def wire_simps)
  show "wire_of (redefer origin ids a) = wire_of a" by (simp add: redefer_def d wire_simps)
  show "wire_of (synthesize now source a) = wire_of a" by (simp add: synthesize_def p)
  show "wire_of (note_fullness now a) = wire_of a" by (simp add: note_fullness_def noteFullness_def wire_of_def)
  show "wire_of (emitFailure now source detail retryable by' a) = wire_of a" by (simp add: emitFailure_def p)
qed (simp_all add: Actor_Close_def provenance_def wire_simps)

lemma wire_funpow:
  fixes g :: "'a Actor \<Rightarrow> 'a Actor"
  shows "(\<And>a. wire_of (g a) = wire_of a) \<Longrightarrow> wire_of ((g ^^ n) a) = wire_of a"
  by (induction n) simp_all

lemma wire_notePanic [wire_simps]: "wire_of (notePanic site a) = wire_of a"
  by (simp add: notePanic_def Let_def wire_simps)

lemma wire_noteRenderFailures [wire_simps]: "wire_of (noteRenderFailures b fs e r a) = wire_of a"
  by (simp add: noteRenderFailures_def Let_def wire_funpow wire_simps)

lemma wire_execute: "wire_of (execute now by' e a) = wire_of a"
  by (simp add: execute_def wire_simps)

lemma wire_runEffects [wire_simps]: "wire_of (runEffects now es by' a) = wire_of a"
  unfolding runEffects_def by (induction es arbitrary: a) (simp_all add: wire_execute)

lemma wire_renderPass [wire_simps]: "wire_of (fst (renderPass all a)) = wire_of a"
  by (simp add: renderPass_def Let_def wire_simps split: prod.split)

lemma wire_takePending [wire_simps]: "wire_of (fst (takePending origin a)) = wire_of a"
  by (simp add: takePending_def wire_simps)

lemma wire_ladder [wire_simps]:
  "wire_of (enterCoalesce now origin a) = wire_of a" "wire_of (degrade now origin a) = wire_of a"
  by (simp_all add: enterCoalesce_def degrade_def Let_def wire_simps)

lemma wire_effect_ends [wire_simps]:
  "wire_of (fst (emitter now source by' ev a)) = wire_of a" "wire_of (effect_ends now source by' e a) = wire_of a"
proof -
  show "wire_of (fst (emitter now source by' ev a)) = wire_of a"
    by (simp add: emitter_def wire_quiet(2) split: prod.split bool.split)
      (metis fst_conv wire_quiet(2))
  show "wire_of (effect_ends now source by' e a) = wire_of a"
    by (cases e) (simp_all add: effect_ends_def Let_def wire_simps)
qed

subsection \<open>The refinement\<close>

lemma Framer_Send_Inr:
  assumes "Framer_Send b f a = (a', Inr n)"
  shows "ValidateOutbound f = None" "a' = a\<lparr>ac_writes := Suc (ac_writes a), ac_sent := ac_sent a @ [f]\<rparr>"
  using assms by (auto simp: Framer_Send_def Framer_Encode_def Framer_Write_def Let_def split: option.splits if_splits)

lemma Framer_Send_Inl:
  assumes "Framer_Send b f a = (a', Inl e)"
  shows "wire_of a' = wire_of a"
  using assms by (auto simp: Framer_Send_def Let_def wire_of_def split: sum.splits)

lemma Actor_send_None: "Actor_send b f c a = (a', None) \<Longrightarrow> wire_of a' = wire_of a"
  by (auto simp: Actor_send_def wire_simps Framer_Send_Inl split: prod.splits sum.splits send_err.splits)

lemma Actor_send_Some:
  assumes "Actor_send b f c a = (a', Some n)"
  shows "ValidateOutbound f = None"
    and "a' = a\<lparr>ac_writes := Suc (ac_writes a), ac_sent := ac_sent a @ [f], ac_serverSeq := ca_ServerSeq c, ac_patchID := ca_PatchID c\<rparr>"
proof -
  from assms obtain a1 where "Framer_Send b f a = (a1, Inr n)"
    and "a' = a1\<lparr>ac_serverSeq := ca_ServerSeq c, ac_patchID := ca_PatchID c\<rparr>"
    by (auto simp: Actor_send_def split: prod.splits sum.splits send_err.splits)
  then show "ValidateOutbound f = None"
    and "a' = a\<lparr>ac_writes := Suc (ac_writes a), ac_sent := ac_sent a @ [f], ac_serverSeq := ca_ServerSeq c, ac_patchID := ca_PatchID c\<rparr>"
    by (auto dest: Framer_Send_Inr)
qed

lemma wire_sent:
  assumes "Actor_send b f (next_causal a) a = (a', Some n)" and "sequenced f"
  shows "wire_of (push_slot (next_causal a) (a'\<lparr>ac_view := v\<rparr>)) = wire_sends f (wire_of a)"
  unfolding Actor_send_Some(2) [OF assms(1)] using assms(2)
  by (simp add: push_slot_def win_push_def next_causal_def wire_sends_def wire_of_def retentionSlots_def Let_def)

lemma next_causal_wire:
  "wire_of a = w \<Longrightarrow> next_causal a = wire_causal w (ac_transitionID a) (ac_stateVersion a)"
  by (auto simp: next_causal_def wire_causal_def wire_of_def)

lemma step_idle: "wire_of a' = wire_of a \<Longrightarrow> wire_step (wire_of a) (wire_of a')"
  by (simp add: wire_step.idle)

lemma emit_now_step: "wire_step (wire_of a) (wire_of (emit_now b origin ev a))"
proof -
  obtain a1 ids where t: "takePending origin (a\<lparr>ac_coalesceHeld := False\<rparr>) = (a1, ids)" by fastforce
  obtain a2 res where r: "renderPass False a1 = (a2, res)" by fastforce
  have w: "wire_of a2 = wire_of a"
    using wire_takePending [of origin "a\<lparr>ac_coalesceHeld := False\<rparr>"] wire_renderPass [of False a1]
    by (simp add: t r wire_simps)
  let ?o = "origin\<lparr>og_Contributing := unionEdges origin ids\<rparr>"
  let ?f = "NewPatch (ac_peer a2) (next_causal a2) ?o (toWireUpdates (rs_Updates res))"
  obtain a3 s where p: "Actor_send b ?f (next_causal a2) a2 = (a3, s)" by fastforce
  show ?thesis
  proof (cases "rs_Updates res = []")
    case True
    then show ?thesis by (intro step_idle) (simp add: emit_now_def t r Let_def wire_simps w)
  next
    case False
    show ?thesis
    proof (cases s)
      case None
      with False p show ?thesis
        by (intro step_idle) (simp add: emit_now_def t r Let_def wire_simps w Actor_send_None)
    next
      case (Some n)
      then have f: "Actor_send b ?f (next_causal a2) a2 = (a3, Some n)" using p by simp
      have "wire_of (emit_now b origin ev a) = wire_sends ?f (wire_of a2)"
        using False wire_sent [OF f] by (simp add: emit_now_def t r Let_def wire_simps f)
      then show ?thesis
        using wire_step.patch [OF _ Actor_send_Some(1) [OF f]] next_causal_wire [OF w] w by metis
    qed
  qed
qed

lemma emitPatch_step: "wire_step (wire_of a) (wire_of (emitPatch b now origin ev forced a))"
proof -
  have "wire_of (provenance origin ev [] 0 0 no_supersession (enterCoalesce now origin (a\<lparr>ac_coalesceHeld := True\<rparr>))) = wire_of a"
    by (simp add: wire_simps)
  moreover have "wire_of (provenance origin ev [] 0 0 no_supersession (degrade now origin a)) = wire_of a"
    by (simp add: wire_simps)
  ultimately show ?thesis
    using emit_now_step [of a b origin ev] wire_step.idle [of "wire_of a"] by (simp add: emitPatch_def)
qed

lemma emit_deferred_step: "wire_step (wire_of a) (wire_of (emit_deferred b now a))"
  unfolding emit_deferred_def Let_def by (rule emitPatch_step)

text \<open>A snapshot: what was sent, if it was.\<close>

lemma emitSnapshot_step:
  assumes "emitSnapshot b origin su event a = (a', r)"
  shows "r = None \<Longrightarrow> wire_of a' = wire_of a"
    and "r = Some n \<Longrightarrow> \<exists>f o' us. f = NewSnapshot (ac_peer a) (wire_causal (wire_of a) (ac_transitionID a) (ac_stateVersion a))
           o' (session_params (ac_lim a)) su us \<and> ValidateOutbound f = None \<and> og_Kind o' = og_Kind origin
         \<and> wire_of a' = (wire_sends f (wire_of a))\<lparr>wr_snapshot := wr_seq (wire_of a) + 1\<rparr>"
proof -
  obtain a1 res where r: "renderPass True a = (a1, res)" by fastforce
  obtain a2 ids where t: "takePending origin a1 = (a2, ids)" by fastforce
  have w: "wire_of a2 = wire_of a"
    using wire_takePending [of origin a1] wire_renderPass [of True a] by (simp add: t r)
  have same: "ac_peer a2 = ac_peer a" "ac_lim a2 = ac_lim a" "ac_transitionID a2 = ac_transitionID a"
    "ac_stateVersion a2 = ac_stateVersion a"
    using r t by (auto simp: renderPass_def takePending_def split: prod.splits)
  let ?o = "origin\<lparr>og_Contributing := unionEdges origin ids\<rparr>"
  let ?f = "NewSnapshot (ac_peer a2) (next_causal a2) ?o (session_params (ac_lim a2)) su (toWireUpdates (rs_Updates res))"
  obtain a3 s where p: "Actor_send b ?f (next_causal a2) a2 = (a3, s)" by fastforce
  show "r = None \<Longrightarrow> wire_of a' = wire_of a"
    using assms p by (auto simp: emitSnapshot_def r t Let_def wire_simps w Actor_send_None split: option.splits)
  assume "r = Some n"
  then have s: "s = Some n" using assms p by (auto simp: emitSnapshot_def r t Let_def split: option.splits)
  note f = p [unfolded s]
  have q: "wire_of (push_slot c (x\<lparr>ac_view := v, ac_lastSnapshotSeq := q\<rparr>)) = (wire_of (push_slot c (x\<lparr>ac_view := v\<rparr>)))\<lparr>wr_snapshot := q\<rparr>"
    for c v q and x :: "'a Actor" by (simp add: push_slot_def wire_of_def)
  have c: "ca_ServerSeq (next_causal a2) = wr_seq (wire_of a2) + 1" by (simp add: next_causal_def wire_of_def)
  have "wire_of a' = (wire_sends ?f (wire_of a2))\<lparr>wr_snapshot := wr_seq (wire_of a2) + 1\<rparr>"
    using assms wire_sent [OF f] c by (auto simp: emitSnapshot_def r t Let_def f s wire_simps q)
  then show "\<exists>f o' us. f = NewSnapshot (ac_peer a) (wire_causal (wire_of a) (ac_transitionID a) (ac_stateVersion a))
           o' (session_params (ac_lim a)) su us \<and> ValidateOutbound f = None \<and> og_Kind o' = og_Kind origin
         \<and> wire_of a' = (wire_sends f (wire_of a))\<lparr>wr_snapshot := wr_seq (wire_of a) + 1\<rparr>"
    using Actor_send_Some(1) [OF f] next_causal_wire [OF w] by (intro exI [of _ ?f] exI [of _ ?o]) (simp add: w same, blast)
qed


lemma transition_step: "wire_step (wire_of a) (wire_of (transition b now ev origin a))"
proof (cases "ia_Reduce (ac_app a) (ac_state a) ev")
  case (Inl panic)
  then show ?thesis
    by (intro step_idle) (simp add: transition_def rejectUnknownFragment_def Let_def wire_simps)
next
  case (Inr r)
  obtain n es v fs where r: "r = (n, es)" and v: "Renderer_Mark (ac_state a) n (ac_view a) = (v, fs)" by fastforce
  have "wire_step (wire_of a) (wire_of (emitPatch b now origin ev False
      (a\<lparr>ac_transitionID := ti, ac_state := n, ac_stateVersion := sv, ac_view := v\<rparr>)))" for ti sv
    using emitPatch_step [of "a\<lparr>ac_transitionID := ti, ac_state := n, ac_stateVersion := sv, ac_view := v\<rparr>" b now origin ev False]
    by (simp add: wire_simps)
  then show ?thesis
    using Inr v by (simp add: transition_def rejectUnknownFragment_def Let_def wire_simps r wire_step.idle)
qed

lemma snapshot_again:
  assumes "wire_of a1 = wire_of a" and "og_Kind o' = OriginKind_RESYNC"
    and "wr_acked (wire_of a) \<le> applied" "wr_snapshot (wire_of a) \<le> applied" "applied < wr_seq (wire_of a)"
  shows "wire_step (wire_of a)
           (wire_of (fst (emitSnapshot b o' \<lparr>su_FromSeq = applied + 1, su_ThroughSeq = wr_seq (wire_of a)\<rparr> ev a1)))"
proof -
  obtain a' r where e: "emitSnapshot b o' \<lparr>su_FromSeq = applied + 1, su_ThroughSeq = wr_seq (wire_of a)\<rparr> ev a1 = (a', r)"
    by fastforce
  show ?thesis
  proof (cases r)
    case None
    then show ?thesis using emitSnapshot_step(1) [OF e] by (simp add: e assms(1) wire_step.idle)
  next
    case (Some n)
    from emitSnapshot_step(2) [OF e Some] assms show ?thesis
      by (auto simp: e intro!: wire_step.again [where applied = applied])
  qed
qed

lemma resync_step: "wire_step (wire_of a) (wire_of (resync b now m a))"
proof -
  obtain bucket ok where k: "bucket_allow (bd_round b) now (ac_resyncBucket a) = (bucket, ok)" by fastforce
  define applied where "applied = max (max (im_lastAppliedSeq m) (ackedSeq (ac_win a))) (ac_lastSnapshotSeq a)"
  have le: "wr_acked (wire_of a) \<le> applied" "wr_snapshot (wire_of a) \<le> applied"
    by (auto simp: applied_def wire_of_def ackedSeq_def le_max_iff_disj)
  have seq: "ac_serverSeq a = wr_seq (wire_of a)" by (simp add: wire_of_def)
  show ?thesis
  proof (cases ok)
    case False
    then show ?thesis by (intro step_idle) (simp add: resync_def k Let_def wire_simps)
  next
    case True
    let ?a = "a\<lparr>ac_resyncBucket := bucket, ac_resyncDenied := 0\<rparr>"
    show ?thesis
    proof (cases "applied \<ge> ac_serverSeq a")
      case True
      then show ?thesis using \<open>ok\<close>
        by (intro step_idle) (simp add: resync_def k Let_def wire_simps applied_def [symmetric])
    next
      case False
      then have "applied < wr_seq (wire_of a)" by (simp add: seq)
      from snapshot_again [OF _ _ le this, where ?a1.0 = "?a\<lparr>ac_transitionID := ac_transitionID ?a + 1\<rparr>"
          and o' = "zeroOrigin\<lparr>og_Kind := OriginKind_RESYNC, og_EventID := ev_ID (im_ev m),
                        og_ClientRef := ev_ClientRef (im_ev m), og_Source := SourceResync\<rparr>"]
      show ?thesis using \<open>ok\<close> False
        by (simp add: resync_def k Let_def wire_simps applied_def [symmetric] seq [symmetric])
    qed
  qed
qed

lemma Actor_step_step: "wire_step (wire_of a) (wire_of (Actor_step b now m a))"
  by (simp add: Actor_step_def transition_step resync_step wire_step.idle split: msgKind.split)

subsection \<open>Turns\<close>

lemma authorize_quiet: "Actor_authorize b ev a = (a', r) \<Longrightarrow> wire_of a' = wire_of a"
  by (auto simp: Actor_authorize_def wire_simps split: option.splits deny.splits)

lemma post_quiet: "post m a = (a', r) \<Longrightarrow> wire_of a' = wire_of a"
  using wire_quiet(2) [of m a] by simp

lemma enqueue_quiet:
  "wire_of (case Actor_authorize b ev a of (a, False) \<Rightarrow> a
     | (a, True) \<Rightarrow> (case post (g a) a of (a, True) \<Rightarrow> a | (a, False) \<Rightarrow> emitError b c s e i f a)) = wire_of a"
proof -
  obtain a' r where p: "Actor_authorize b ev a = (a', r)" by fastforce
  obtain y q where o: "post (g a') a' = (y, q)" by fastforce
  show ?thesis
    using authorize_quiet [OF p] post_quiet [OF o] by (cases r; cases q) (simp_all add: p o wire_simps)
qed

lemma ingressEvent_quiet: "wire_of (ingressEvent b now r n fr s fs a) = wire_of a"
proof -
  obtain bucket ok where k: "bucket_allow (bd_round b) now (ac_eventBucket a) = (bucket, ok)" by fastforce
  show ?thesis
    by (cases ok) (simp_all add: ingressEvent_def rejectUnknownFragment_def k Let_def wire_simps enqueue_quiet)
qed

lemma ingressResync_quiet: "wire_of (ingressResync b now l a) = wire_of a"
  by (simp add: ingressResync_def Let_def wire_simps enqueue_quiet)

lemma Ingress_quiet [wire_simps]: "wire_of (Ingress b now i a) = wire_of a"
  by (cases "ib_Payload i")
    (simp_all add: Ingress_def Let_def ingressEvent_quiet ingressResync_quiet ingressAck_def ingressTelemetry_def wire_simps)

lemma onAck_step: "wire_step\<^sup>*\<^sup>* (wire_of a) (wire_of (onAck b now seq a))"
proof -
  obtain w err where k: "win_ack seq (ac_win a) = (w, err)" by fastforce
  show ?thesis
  proof (cases err)
    case (Some e)
    then show ?thesis by (simp add: onAck_def k wire_simps)
  next
    case None
    have w: "wire_of (a\<lparr>ac_win := w\<rparr>) = (wire_of a)\<lparr>wr_acked := seq\<rparr>"
      and le: "wr_acked (wire_of a) \<le> seq" "seq \<le> wr_highest (wire_of a)"
      using k None by (auto simp: win_ack_def wire_of_def not_less split: if_splits)
    have acked: "wire_step (wire_of a) (wire_of (a\<lparr>ac_win := w\<rparr>))"
      unfolding w using le by (rule wire_step.ack)
    define a1 where "a1 = note_fullness now (a\<lparr>ac_win := w\<rparr>)"
    define a2 where "a2 = (if win_coalescing (ac_win a1) then a1 else a1\<lparr>ac_coalesceNotified := False, ac_coalesceHeld := False\<rparr>)"
    define a3 where "a3 = (if ac_slowNotified a2
                            then synthesize now SourceClientRecovered (a2\<lparr>ac_slowNotified := False\<rparr>) else a2)"
    have w3: "wire_of a2 = wire_of (a\<lparr>ac_win := w\<rparr>)" "wire_of a3 = wire_of (a\<lparr>ac_win := w\<rparr>)"
      by (simp_all add: a3_def a2_def a1_def wire_simps)
    have "wire_step (wire_of (a\<lparr>ac_win := w\<rparr>)) (wire_of (onAck b now seq a))"
      using emit_deferred_step [of a3 b now] w3
      by (simp only: onAck_def k None Let_def prod.case option.case a1_def [symmetric] a2_def [symmetric] a3_def [symmetric])
        (simp add: wire_step.idle)
    then show ?thesis using acked by (meson r_into_rtranclp rtranclp_trans)
  qed
qed

lemma onTick_step: "wire_step (wire_of a) (wire_of (onTick b clock t a))"
proof -
  have beat: "(case Framer_Send b (NewHeartbeat s n i) x of (y, Inl e) \<Rightarrow> Actor_Close CloseNormal y | (y, Inr k) \<Rightarrow> y) = z
      \<Longrightarrow> wire_of z = wire_of x" for s n i and x z :: "'a Actor"
    using wire_Framer_Send [of "NewHeartbeat s n i" b x] by (auto simp: wire_quiet(1) split: prod.splits sum.splits)
  have "wire_step (wire_of a) (wire_of x) \<Longrightarrow>
      wire_step (wire_of a) (wire_of (case Framer_Send b (NewHeartbeat (ac_peer x) (ac_hbNonce x + 1) i) (x\<lparr>ac_hbNonce := ac_hbNonce x + 1\<rparr>) of
        (y, Inl e) \<Rightarrow> Actor_Close CloseNormal y | (y, Inr k) \<Rightarrow> y))" for i and x :: "'a Actor"
    by (subst beat [OF refl]) (simp add: wire_simps)
  note this [of "if c then emit_deferred b clock (note_fullness now a) else note_fullness now a" for c now]
  moreover have "wire_step (wire_of a) (wire_of (if c then emit_deferred b clock (note_fullness now a) else note_fullness now a))" for c now
    using emit_deferred_step [of "note_fullness now a" b clock] by (simp add: wire_simps wire_step.idle)
  ultimately show ?thesis
    by (simp only: onTick_def Let_def) (simp add: wire_simps wire_step.idle)
qed

lemma live_turn_step: "wire_step\<^sup>*\<^sup>* (wire_of a) (wire_of (live_turn b x a))"
proof (cases x)
  case (Pair now i)
  show ?thesis
  proof (cases i)
    case TakeMessage
    show ?thesis
    proof (cases "ac_mailbox a")
      case (Cons m ms)
      then show ?thesis using Actor_step_step [of "a\<lparr>ac_mailbox := ms\<rparr>" b now m] Pair TakeMessage by (simp add: wire_simps r_into_rtranclp)
    qed (simp add: Pair TakeMessage)
  next
    case TakeAck
    show ?thesis
    proof (cases "ac_acks a")
      case (Cons s ss)
      then show ?thesis using onAck_step [of "a\<lparr>ac_acks := ss\<rparr>" b now s] Pair TakeAck by (simp add: wire_simps)
    qed (simp add: Pair TakeAck)
  next
    case (TakeTick t)
    then show ?thesis using onTick_step [of a b now t] Pair by (simp add: r_into_rtranclp)
  qed (simp_all add: Pair wire_simps)
qed

lemma live_run_step: "wire_step\<^sup>*\<^sup>* (wire_of a) (wire_of (live_run b inputs a))"
  unfolding live_run_def
proof (induction inputs arbitrary: a)
  case (Cons x inputs)
  then show ?case using live_turn_step [of a b x] by (simp, meson rtranclp_trans)
qed simp

end
