(* ===== verification/Live_Sequence.thy ===== *)
theory Live_Sequence
  imports Live_Wire
begin

text \<open>
  The numbering of what a session sends. The facts are invariants of the wire machine, proved by
  rule induction over its steps, and they reach the actor through the refinement of \<open>Live_Wire\<close>.
\<close>

subsection \<open>Invariants of the wire\<close>

definition numbered :: "Frame \<Rightarrow> (64 word \<times> 64 word) option" where
  "numbered f = map_option (\<lambda>c. (ca_ServerSeq c, ca_PatchID c)) (causal_of f)"

definition nth_slot :: "nat \<Rightarrow> slot" where
  "nth_slot n = \<lparr>sl_serverSeq = of_nat n, sl_patchID = of_nat n\<rparr>"

definition wire_ok :: "wire \<Rightarrow> bool" where
  "wire_ok w \<longleftrightarrow>
     (let n = length (wr_frames w) in
        map numbered (wr_frames w) = map (\<lambda>i. Some (of_nat i, of_nat i)) [1..<Suc n]
      \<and> list_all (\<lambda>f. ValidateOutbound f = None) (wr_frames w)
      \<and> wr_seq w = of_nat n \<and> wr_patch w = of_nat n \<and> wr_highest w = of_nat n
      \<and> wr_slots w = map nth_slot (drop (n - nat (wr_cap w + 1)) [1..<Suc n]))"

lemma numbered_new [simp]:
  "numbered (NewPatch peer (wire_causal w tid v) o' us) = Some (wr_seq w + 1, wr_patch w + 1)"
  "numbered (NewSnapshot peer (wire_causal w tid v) o' ps su us) = Some (wr_seq w + 1, wr_patch w + 1)"
  by (simp_all add: numbered_def causal_of_def NewPatch_def NewSnapshot_def new_frame_def wire_causal_def)

lemma slots_step:
  "drop (length (map g (drop (n - k) [1..<Suc n]) @ [g (Suc n)]) - k) (map g (drop (n - k) [1..<Suc n]) @ [g (Suc n)])
   = map g (drop (Suc n - k) [1..<Suc (Suc n)])"
proof -
  have "map g (drop (n - k) [1..<Suc n]) @ [g (Suc n)] = map g (drop (n - k) [1..<Suc (Suc n)])" by simp
  then show ?thesis by (simp add: drop_map del: upt_Suc) (intro arg_cong [where f = "map g"], cases "k \<le> n", auto simp: Suc_diff_le)
qed

lemma wire_ok_sends:
  assumes "wire_ok w" "numbered f = Some (wr_seq w + 1, wr_patch w + 1)" "ValidateOutbound f = None"
  shows "wire_ok (wire_sends f w)"
  using assms slots_step [of nth_slot "length (wr_frames w)" "nat (wr_cap w + 1)"]
  by (simp add: wire_ok_def wire_sends_def Let_def add.commute nth_slot_def)

lemma wire_ok_snapshot [simp]: "wire_ok (w\<lparr>wr_snapshot := s\<rparr>) = wire_ok w" "wire_ok (w\<lparr>wr_acked := s\<rparr>) = wire_ok w"
  by (simp_all add: wire_ok_def)

lemma wire_ok_step: "wire_step w w' \<Longrightarrow> wire_ok w \<Longrightarrow> wire_ok w'"
  by (induction rule: wire_step.induct) (simp_all add: wire_ok_sends)

lemma wire_ok_steps: "wire_step\<^sup>*\<^sup>* w w' \<Longrightarrow> wire_ok w \<Longrightarrow> wire_ok w'"
  by (induction rule: rtranclp_induct) (auto intro: wire_ok_step)

text \<open>Snapshots: the frames each one replaces come after the snapshot before it.\<close>

fun superseded :: "Frame \<Rightarrow> Supersession option" where
  "superseded f = (case fr_Payload f of Some (Frame_Snapshot c o' p us s) \<Rightarrow> Some s | _ \<Rightarrow> None)"

fun last_snapshot :: "64 word \<Rightarrow> Frame list \<Rightarrow> 64 word" where
  "last_snapshot l [] = l"
| "last_snapshot l (f # fs) =
     last_snapshot (case (superseded f, numbered f) of (Some s, Some (seq, p)) \<Rightarrow> seq | _ \<Rightarrow> l) fs"

fun ranges_after :: "64 word \<Rightarrow> Frame list \<Rightarrow> bool" where
  "ranges_after l [] = True"
| "ranges_after l (f # fs) =
     (case (superseded f, numbered f) of
        (Some s, Some (seq, p)) \<Rightarrow>
          l < su_FromSeq s \<and> su_FromSeq s \<le> su_ThroughSeq s \<and> su_ThroughSeq s + 1 = seq \<and> ranges_after seq fs
      | _ \<Rightarrow> ranges_after l fs)"

lemma last_snapshot_append: "last_snapshot l (fs @ [f]) = last_snapshot (last_snapshot l fs) [f]"
  by (induction fs arbitrary: l) simp_all

lemma ranges_after_append: "ranges_after l (fs @ [f]) \<longleftrightarrow> ranges_after l fs \<and> ranges_after (last_snapshot l fs) [f]"
  by (induction fs arbitrary: l) (auto split: option.split simp del: superseded.simps)

lemma superseded_new [simp]:
  "superseded (NewPatch peer c o' us) = None" "superseded (NewSnapshot peer c o' ps su us) = Some su"
  by (simp_all add: NewPatch_def NewSnapshot_def new_frame_def)

definition mounted :: "Frame \<Rightarrow> wire \<Rightarrow> bool" where
  "mounted f w \<longleftrightarrow>
     (\<exists>fs. wr_frames w = f # fs \<and> ranges_after 1 fs \<and> wr_snapshot w = last_snapshot 1 fs)"

lemma wire_sends_simps [simp]:
  "wr_frames (wire_sends f w) = wr_frames w @ [f]" "wr_seq (wire_sends f w) = wr_seq w + 1"
  "wr_snapshot (wire_sends f w) = wr_snapshot w" "wr_acked (wire_sends f w) = wr_acked w"
  "wr_cap (wire_sends f w) = wr_cap w" "wr_highest (wire_sends f w) = wr_seq w + 1"
  by (simp_all add: wire_sends_def Let_def)

lemma mounted_step: "wire_step w w' \<Longrightarrow> mounted f w \<Longrightarrow> mounted f w'"
proof (induction rule: wire_step.induct)
  case (patch g peer w tid version o' us)
  then show ?case
    by (auto simp: mounted_def ranges_after_append last_snapshot_append simp del: superseded.simps)
next
  case (again g peer w tid version o' ps applied us)
  then obtain fs where w: "wr_frames w = f # fs" "ranges_after 1 fs" "wr_snapshot w = last_snapshot 1 fs"
    by (auto simp: mounted_def)
  have "applied < applied + 1" using \<open>applied < wr_seq w\<close> by unat_arith
  with again w have "last_snapshot 1 fs < applied + 1" "applied + 1 \<le> wr_seq w"
    by (auto intro: inc_le)
  with again w show ?case
    by (auto simp: mounted_def ranges_after_append last_snapshot_append simp del: superseded.simps)
qed (auto simp: mounted_def)

lemma mounted_steps: "wire_step\<^sup>*\<^sup>* w w' \<Longrightarrow> mounted f w \<Longrightarrow> mounted f w'"
  by (induction rule: rtranclp_induct) (auto intro: mounted_step)

subsection \<open>Where a session starts\<close>

definition new_wire :: "Limits \<Rightarrow> wire" where
  "new_wire limits =
     \<lparr>wr_frames = [], wr_seq = 0, wr_patch = 0, wr_highest = 0, wr_acked = 0, wr_snapshot = 0, wr_slots = [],
      wr_cap = lm_AckWindow (Limits_Normalize limits)\<rparr>"

lemma new_wire_simps [simp]:
  "wr_frames (new_wire limits) = []" "wr_seq (new_wire limits) = 0" "wr_patch (new_wire limits) = 0"
  "wr_snapshot (new_wire limits) = 0" "wr_acked (new_wire limits) = 0" "wr_highest (new_wire limits) = 0"
  by (simp_all add: new_wire_def)

lemma wire_Actor_New: "wire_of (Actor_New b app limits peer dev now) = new_wire limits"
  by (simp add: Actor_New_def wire_of_def new_wire_def newWindow_def Let_def)

lemma Actor_New_app [simp]: "ac_app (Actor_New b app limits peer dev now) = app"
  by (simp add: Actor_New_def Let_def)

lemma closing_Close [simp]: "ac_closing (Actor_Close code a)"
  by (simp add: Actor_Close_def)

definition mounts :: "Limits \<Rightarrow> Frame \<Rightarrow> bool" where
  "mounts limits f \<longleftrightarrow>
     (\<exists>peer tid v o' ps us. f = NewSnapshot peer (wire_causal (new_wire limits) tid v) o' ps no_supersession us
        \<and> ValidateOutbound f = None \<and> og_Kind o' = OriginKind_MOUNT)"

lemma live_start_wire:
  "wire_of (live_start b app limits peer dev now) = new_wire limits \<and> ac_closing (live_start b app limits peer dev now)
   \<or> (\<exists>f. mounts limits f
        \<and> wire_of (live_start b app limits peer dev now) = (wire_sends f (new_wire limits))\<lparr>wr_snapshot := 1\<rparr>)"
proof (cases "ia_Init app")
  case (Inl err)
  then show ?thesis
    by (simp add: live_start_def mount_def wire_simps wire_Actor_New)
next
  case (Inr se)
  obtain st es where se: "se = (st, es)" by fastforce
  let ?a = "(Actor_New b app limits peer dev now)\<lparr>ac_state := st, ac_transitionID := 1, ac_stateVersion := 1\<rparr>"
  let ?o = "zeroOrigin\<lparr>og_Kind := OriginKind_MOUNT, og_Source := SourceMount\<rparr>"
  obtain a' r where e: "emitSnapshot b ?o no_supersession 0 ?a = (a', r)" by fastforce
  have w: "wire_of ?a = new_wire limits" by (simp add: wire_simps wire_Actor_New)
  show ?thesis
  proof (cases r)
    case None
    then show ?thesis using emitSnapshot_step(1) [OF e] w
      by (simp add: live_start_def mount_def Inr se e Let_def wire_simps)
  next
    case (Some n)
    from emitSnapshot_step(2) [OF e Some] obtain f peer' tid v o' ps us
      where "f = NewSnapshot peer' (wire_causal (new_wire limits) tid v) o' ps no_supersession us"
        and "ValidateOutbound f = None" "og_Kind o' = OriginKind_MOUNT"
        and "wire_of a' = (wire_sends f (new_wire limits))\<lparr>wr_snapshot := 1\<rparr>"
      unfolding w by (auto simp: mounts_def)
    then have "mounts limits f" "wire_of a' = (wire_sends f (new_wire limits))\<lparr>wr_snapshot := 1\<rparr>"
      unfolding mounts_def by blast+
    then show ?thesis using Some
      by (auto simp: live_start_def mount_def Inr se e Let_def wire_simps)
  qed
qed

lemma mounts_numbered: "mounts limits f \<Longrightarrow> numbered f = Some (1, 1) \<and> superseded f = Some no_supersession"
  by (auto simp: mounts_def simp del: superseded.simps)

lemma new_wire_ok: "wire_ok (new_wire limits)"
  by (simp add: wire_ok_def new_wire_def)

lemma live_start_ok: "wire_ok (wire_of (live_start b app limits peer dev now))"
proof -
  have "wire_ok (wire_sends f (new_wire limits))" if "mounts limits f" for f
    using that wire_ok_sends [OF new_wire_ok, of f limits] by (auto simp: mounts_def)
  then show ?thesis using live_start_wire [of b app limits peer dev now] new_wire_ok by auto
qed

lemma live_run_ok: "wire_ok (wire_of (live_run b inputs (live_start b app limits peer dev now)))"
  using wire_ok_steps [OF live_run_step live_start_ok] .

lemma wire_cap_step: "wire_step w w' \<Longrightarrow> wr_cap w' = wr_cap w"
  by (induction rule: wire_step.induct) simp_all

lemma live_run_cap:
  "wr_cap (wire_of (live_run b inputs (live_start b app limits peer dev now))) = lm_AckWindow (Limits_Normalize limits)"
proof -
  have "wire_step\<^sup>*\<^sup>* w w' \<Longrightarrow> wr_cap w' = wr_cap w" for w w'
    by (induction rule: rtranclp_induct) (auto simp: wire_cap_step)
  from this [OF live_run_step [of "live_start b app limits peer dev now" b inputs]] show ?thesis
    using live_start_wire [of b app limits peer dev now] by (auto simp: new_wire_def)
qed

subsection \<open>Acknowledgements never run ahead\<close>

definition acked_ok :: "wire \<Rightarrow> bool" where
  "acked_ok w \<longleftrightarrow> wire_ok w \<and> (length (wr_frames w) < 2 ^ 63 \<longrightarrow> wr_acked w \<le> wr_highest w)"

lemma acked_ok_sends:
  assumes "acked_ok w" "wire_ok (wire_sends f w)"
  shows "acked_ok (wire_sends f w)"
proof -
  have "wr_acked w \<le> wr_seq w + 1" if "Suc (length (wr_frames w)) < 2 ^ 63"
  proof -
    have "wr_acked w \<le> wr_seq w" "wr_seq w = of_nat (length (wr_frames w))"
      using assms that by (auto simp: acked_ok_def wire_ok_def Let_def)
    moreover from this have "wr_seq w \<le> wr_seq w + 1"
      using that by (simp add: word_le_nat_alt unat_of_nat unat_word_ariths)
    ultimately show ?thesis by order
  qed
  then show ?thesis using assms by (auto simp: acked_ok_def)
qed

lemma acked_ok_step: "wire_step w w' \<Longrightarrow> acked_ok w \<Longrightarrow> acked_ok w'"
proof (induction rule: wire_step.induct)
  case (patch f peer w tid version o' us)
  then show ?case by (intro acked_ok_sends wire_ok_sends) (auto simp: acked_ok_def)
next
  case (again f peer w tid version o' ps applied us)
  have "acked_ok (wire_sends f w)"
    using again by (intro acked_ok_sends wire_ok_sends) (auto simp: acked_ok_def)
  then show ?case by (simp add: acked_ok_def)
qed (auto simp: acked_ok_def)

lemma live_run_acked: "acked_ok (wire_of (live_run b inputs (live_start b app limits peer dev now)))"
proof -
  have steps: "wire_step\<^sup>*\<^sup>* w w' \<Longrightarrow> acked_ok w \<Longrightarrow> acked_ok w'" for w w'
    by (induction rule: rtranclp_induct) (auto intro: acked_ok_step)
  have "acked_ok (wire_of (live_start b app limits peer dev now))"
    using live_start_wire [of b app limits peer dev now] live_start_ok [of b app limits peer dev now]
    by (auto simp: acked_ok_def new_wire_def)
  then show ?thesis using steps [OF live_run_step [of "live_start b app limits peer dev now" b inputs]] by blast
qed

end
