(* ===== verification/Live_Demo.thy ===== *)
theory Live_Demo
  imports Live_Sequence
begin

text \<open>A small application, a client's connection and a session over them, for the examples.\<close>

definition demo_hash :: "string \<Rightarrow> 64 word" where
  "demo_hash s = of_nat (Suc (length s))"

definition demo_registry :: "nat Registry" where
  "demo_registry =
     \<lparr>rg_frags = [Fragment ''counter'' (Some (\<lambda>n. Markup (replicate (n mod 8) CHR ''i''))) None None],
      rg_index = [(''counter'', 0)], rg_hash = demo_hash\<rparr>"

definition demo_app :: "nat IApp" where
  "demo_app =
     \<lparr>ia_nil = 0, ia_Init = Inr (1, []), ia_Authorize = (\<lambda>ev. None), ia_Reduce = (\<lambda>n ev. Inr (Suc n, [])),
      ia_Registry = demo_registry, ia_Registered = (\<lambda>n. n = ''tick''), ia_StateComparable = True\<rparr>"

definition demo_boundary :: boundary where
  "demo_boundary = \<lparr>bd_Marshal = (\<lambda>f. Some 1), bd_Write = (\<lambda>n. True), bd_round = (\<lambda>x. x)\<rparr>"

definition zeroLimits :: Limits where
  "zeroLimits =
     \<lparr>lm_MaxInboundFrameBytes = 0, lm_MaxEventsPerSecond = 0, lm_EventBurst = 0, lm_MailboxDepth = 0,
      lm_AckChannelDepth = 0, lm_AckWindow = 0, lm_CoalesceFlushAt = 0, lm_MinResyncInterval = 0,
      lm_ResyncBurst = 0, lm_WriteDeadline = 0, lm_SlowClientGrace = 0,
      lm_HeartbeatInterval = 0, lm_HeartbeatTimeout = 0, lm_IdleTimeout = 0,
      lm_EffectDrainTimeout = 0, lm_PanicBudget = 0\<rparr>"

definition demo_session :: "nat Actor" where
  "demo_session = live_start demo_boundary demo_app zeroLimits ''0123456789abcdef'' False 1000"

definition demo_event :: Inbound where
  "demo_event = \<lparr>ib_Kind = KindEvent, ib_SessionID = ''0123456789abcdef'',
     ib_Payload = InboundEvent 1 ''tick'' ''counter'' 1 []\<rparr>"


lemmas live_eval =
  live_start_def live_run_def mount_def Actor_New_def emitSnapshot_def renderPass_def RenderAll_def Renderer_Render_def render_pass_def
  render_fragment_def render_static_def callRender_def NewRenderer_def MarkAll_def publishIDs_def newBitset_def bs_setAll_def
  bs_set_def bs_has_def bs_clear_def bs_any_def takePending_def unionEdges_def own_id_def next_causal_def Actor_send_def
  Framer_Send_def Framer_Encode_def Framer_Write_def push_slot_def win_push_def retentionSlots_def newWindow_def
  Renderer_Commit_def Renderer_Discard_def provenance_def noteRenderFailures_def runEffects_def session_params_def newBucket_def
  add_update_def add_hash_def add_suppressed_def add_failure_def morph_def zeroResult_def toWireUpdates_def wireOp_def
  fragmentIDs_def zeroOrigin_def zeroEvent_def no_supersession_def
  NewSnapshot_def NewPatch_def NewError_def NewHeartbeat_def NewAck_def new_frame_def KindOf_def
  ValidateOutbound_def ValidateFrame_def checkFieldInvariants_def validate_payload_def ValidateCausal_def
  ValidateSnapshotParams_def validateOriginAndUpdates_def ValidateOrigin_def validateOrigin_def ValidateFragmentUpdate_def
  validateSnapshot_def check_origin_def check_updates_def checkListBound_def ListBound_def listBounds_def checkEnumValue_def
  refine_def demand_def origin_source_def fragment_charset_def eventBearing_def is_lower_def is_upper_def is_digit_def
  protocol_Version_def SourceMount_def OpMorph_def OpAppend_def OpPrepend_def OpRemove_def
  PatchOp_MORPH_def OriginKind_MOUNT_def OriginKind_CLIENT_EVENT_def OriginKind_RESYNC_def
  Ingress_def ingressEvent_def bucket_allow_def Seconds_def AdmitsID_def Actor_authorize_def post_def getInbound_def
  Actor_step_def transition_def KnownID_def sameState_def Renderer_Mark_def mark_fragment_def callDirty_def set_dirty_def
  emitPatch_def unionReaches_def win_full_def win_coalescing_def win_depth_def emit_now_def Renderer_Pending_def
  time_Sub_def minDuration_def maxDuration_def SourceEventPrefix_def
  ingressResync_def resync_def ackedSeq_def OriginKind_TIMER_def SourceResync_def
  word_le_def word_less_def
  Limits_Normalize_def DefaultLimits_def nonzero_def CoalesceFlushCeiling_def

lemmas demo_eval = demo_session_def demo_app_def demo_boundary_def zeroLimits_def demo_registry_def demo_hash_def



definition demo_resync :: Inbound where
  "demo_resync = \<lparr>ib_Kind = KindResyncRequest, ib_SessionID = ''0123456789abcdef'',
     ib_Payload = InboundResyncRequest 1 1\<rparr>"

definition demo_inputs :: "(time \<times> live_input) list" where
  "demo_inputs =
     [(1000, ReadFrame demo_event), (1000, TakeMessage), (1000, ReadFrame demo_resync), (1000, TakeMessage)]"

lemmas demo_input_eval = demo_inputs_def demo_event_def demo_resync_def

lemma demo_limits: "lm_AckWindow (Limits_Normalize zeroLimits) = 16"
  by (simp add: Limits_Normalize_def zeroLimits_def DefaultLimits_def nonzero_def Let_def)

text \<open>The mounted session in closed form, and what the example puts on the wire.\<close>

lemma demo_session_sent:
  "filter sequenced (ac_sent demo_session) =
     [NewSnapshot ''0123456789abcdef'' \<lparr>ca_ServerSeq = 1, ca_PatchID = 1, ca_TransitionID = 1, ca_StateVersion = 1\<rparr>
        (zeroOrigin\<lparr>og_Kind := OriginKind_MOUNT, og_Source := SourceMount\<rparr>) (session_params DefaultLimits)
        no_supersession [\<lparr>up_FragmentID = ''counter'', up_Op = PatchOp_MORPH, up_HTML = ''i''\<rparr>]]"
  by (simp add: live_eval demo_eval Let_def sequenced_def causal_of_def)

lemma demo_run_sent:
  "map superseded (filter sequenced (ac_sent (live_run demo_boundary demo_inputs demo_session))) =
     [Some no_supersession, None, Some \<lparr>su_FromSeq = 2, su_ThroughSeq = 2\<rparr>]"
  by (simp add: live_eval demo_eval demo_input_eval Let_def sequenced_def causal_of_def)

end
