(* ===== verification/Live_Session.thy ===== *)
theory Live_Session
  imports Live_Demo
begin

text \<open>
  What every session of gotth-live puts on the wire: the numbering of its frames, its mount, its
  resynchronisations and its acknowledgement window, with the example session of \<open>Live_Demo\<close>.
\<close>

text \<open>
  C12. The sequenced frames of a session carry the server sequences and the patch identifiers
  1, 2, 3, and so on in the order they reached the transport, whatever the application, the
  client and the transport did; a frame that could not be sent took no number.
\<close>

theorem live_sequence:
  "map numbered (filter sequenced (ac_sent (live_run b inputs (live_start b app limits peer dev now))))
   = map (\<lambda>i. Some (of_nat i, of_nat i))
       [1..<Suc (length (filter sequenced (ac_sent (live_run b inputs (live_start b app limits peer dev now)))))]"
  using live_run_ok [of b inputs app limits peer dev now] by (simp add: wire_ok_def wire_of_def Let_def)

text \<open>
  A session's first sequenced frame is the mount snapshot, number 1, which replaces nothing. A
  session that could not send it is closed and has sent no patch and no snapshot.
\<close>

theorem live_mount:
  "filter sequenced (ac_sent (live_start b app limits peer dev now)) = [] \<and> ac_closing (live_start b app limits peer dev now)
   \<or> (\<exists>f. filter sequenced (ac_sent (live_start b app limits peer dev now)) = [f]
        \<and> (\<exists>who c o' ps us. f = NewSnapshot who c o' ps no_supersession us \<and> og_Kind o' = OriginKind_MOUNT)
        \<and> numbered f = Some (1, 1))"
proof -
  have frames: "filter sequenced (ac_sent a) = wr_frames (wire_of a)" for a :: "'a Actor" by (simp add: wire_of_def)
  show ?thesis
  proof (cases "wire_of (live_start b app limits peer dev now) = new_wire limits \<and> ac_closing (live_start b app limits peer dev now)")
    case False
    then obtain f where f: "mounts limits f"
      and "wire_of (live_start b app limits peer dev now) = (wire_sends f (new_wire limits))\<lparr>wr_snapshot := 1\<rparr>"
      using live_start_wire [of b app limits peer dev now] by blast
    then show ?thesis using mounts_numbered [OF f]
      unfolding frames mounts_def by (simp del: superseded.simps) metis
  qed (simp add: frames)
qed

text \<open>
  C13. After its mount, every snapshot of a session is a resynchronisation that says which frames it
  replaces: a range that is not empty, starts after the snapshot before it and ends with the
  frame just before the snapshot itself. So the ranges of a session are disjoint and increasing.
\<close>

theorem live_supersession:
  assumes "filter sequenced (ac_sent (live_start b app limits peer dev now)) = [f]"
  shows "\<exists>fs. filter sequenced (ac_sent (live_run b inputs (live_start b app limits peer dev now))) = f # fs
           \<and> ranges_after 1 fs"
proof -
  have frames: "filter sequenced (ac_sent a) = wr_frames (wire_of a)" for a :: "'a Actor" by (simp add: wire_of_def)
  have "wire_of (live_start b app limits peer dev now) = (wire_sends f (new_wire limits))\<lparr>wr_snapshot := 1\<rparr>"
    using live_start_wire [of b app limits peer dev now] assms by (auto simp: frames new_wire_def)
  then have "mounted f (wire_of (live_start b app limits peer dev now))"
    by (simp add: mounted_def new_wire_def)
  from mounted_steps [OF live_run_step this] show ?thesis by (auto simp: mounted_def frames)
qed

theorem live_supersession_witness:
  "\<exists>f fs. filter sequenced (ac_sent demo_session) = [f] \<and> length fs = 2
     \<and> filter sequenced (ac_sent (live_run demo_boundary demo_inputs demo_session)) = f # fs \<and> ranges_after 1 fs"
proof -
  obtain f where f: "filter sequenced (ac_sent demo_session) = [f]" using demo_session_sent by blast
  obtain fs where fs: "filter sequenced (ac_sent (live_run demo_boundary demo_inputs demo_session)) = f # fs" "ranges_after 1 fs"
    using live_supersession [OF f [unfolded demo_session_def], of demo_inputs] unfolding demo_session_def by blast
  then have "length fs = 2" using arg_cong [OF demo_run_sent, of length] by simp
  with f fs show ?thesis by blast
qed

text \<open>
  The acknowledgement window of a session always holds its last \<open>AckWindow + 1\<close> sequenced frames,
  and while fewer than \<open>2^63\<close> were sent its depth is the number sent less the acknowledged
  sequence, which is never negative: an accepted acknowledgement is never ahead of what was sent.
\<close>

theorem live_window:
  assumes "n = length (filter sequenced (ac_sent (live_run b inputs (live_start b app limits peer dev now))))"
    and "n < 2 ^ 63"
  shows "wn_slots (ac_win (live_run b inputs (live_start b app limits peer dev now)))
         = map nth_slot (drop (n - nat (lm_AckWindow (Limits_Normalize limits) + 1)) [1..<Suc n])
       \<and> win_depth (ac_win (live_run b inputs (live_start b app limits peer dev now)))
         = int n - uint (ackedSeq (ac_win (live_run b inputs (live_start b app limits peer dev now))))
       \<and> win_depth (ac_win (live_run b inputs (live_start b app limits peer dev now))) \<ge> 0"
proof -
  let ?a = "live_run b inputs (live_start b app limits peer dev now)"
  have n: "n = length (wr_frames (wire_of ?a))" using assms(1) by (simp add: wire_of_def)
  have ok: "wire_ok (wire_of ?a)" and cap: "wr_cap (wire_of ?a) = lm_AckWindow (Limits_Normalize limits)"
    by (rule live_run_ok, rule live_run_cap)
  have le: "wn_acked (ac_win ?a) \<le> wn_highest (ac_win ?a)" and high: "wn_highest (ac_win ?a) = of_nat n"
    using live_run_acked [of b inputs app limits peer dev now] assms(2) n
    by (auto simp: acked_ok_def wire_ok_def wire_of_def Let_def)
  have u: "uint (wn_highest (ac_win ?a)) = int n" using assms(2) by (simp add: high uint_nat unat_of_nat)
  have d: "uint (wn_highest (ac_win ?a) - wn_acked (ac_win ?a)) = int n - uint (wn_acked (ac_win ?a))"
    using le by (simp add: uint_minus_simple_alt u word_le_def [symmetric])
  moreover have "sint x = uint x" if "uint x < 2 ^ 63" for x :: "64 word"
    using that order_trans [OF _ uint_ge_0 [of x], of "- (2 ^ 63)"]
    by (simp add: sint_uint signed_take_bit_int_eq_self)
  moreover have "int n - uint (wn_acked (ac_win ?a)) < 2 ^ 63"
  proof -
    have "int n < 2 ^ 63" using assms(2) by simp
    then show ?thesis using uint_ge_0 [of "wn_acked (ac_win ?a)"] by linarith
  qed
  ultimately have "win_depth (ac_win ?a) = int n - uint (wn_acked (ac_win ?a))"
    by (simp add: win_depth_def)
  moreover have "uint (wn_acked (ac_win ?a)) \<le> int n" using le u by (simp add: word_le_def)
  moreover have "wn_slots (ac_win ?a) = wr_slots (wire_of ?a)" by (simp add: wire_of_def)
  moreover have "wr_slots (wire_of ?a) = map nth_slot (drop (n - nat (lm_AckWindow (Limits_Normalize limits) + 1)) [1..<Suc n])"
    using ok by (simp only: wire_ok_def Let_def n [symmetric] cap)
  ultimately show ?thesis by (simp add: ackedSeq_def del: upt_Suc)
qed

theorem live_window_witness:
  "map sl_patchID (wn_slots (ac_win (live_run demo_boundary demo_inputs demo_session))) = [1, 2, 3]
   \<and> win_depth (ac_win (live_run demo_boundary demo_inputs demo_session)) =
       3 - uint (ackedSeq (ac_win (live_run demo_boundary demo_inputs demo_session)))"
  using live_window [of 3 demo_boundary demo_inputs demo_app zeroLimits "''0123456789abcdef''" False 1000]
    arg_cong [OF demo_run_sent, of length]
  by (simp add: demo_session_def [symmetric] demo_limits nth_slot_def upt_rec)

text \<open>
  C39. Whatever a session does after its mount, what it puts on the wire is what the wire machine
  may do: send the next patch, send the next snapshot as the answer to a resynchronisation,
  take an acknowledgement that does not go back nor ahead, or nothing.
\<close>

theorem live_refines_wire: "wire_step\<^sup>*\<^sup>* (wire_of a) (wire_of (live_run b inputs a))"
  by (rule live_run_step)

end
