(* ===== verification/Live_Safe.thy ===== *)
theory Live_Safe
  imports Live_Demo
begin

text \<open>
  An invariant of the whole session: what may stand in its queues, how long they get, what it has
  sent and how it closes. Every operation of the actor, its ingress and its effects keeps it.
\<close>

subsection \<open>The invariant\<close>

text \<open>
  A queued client event was admitted: its name is registered, its fragment is one the registry
  admits, the application allowed it, and its origin is the client under the same identifiers.
\<close>

definition admitted :: "'a IApp \<Rightarrow> inbound \<Rightarrow> bool" where
  "admitted app m \<longleftrightarrow>
     (case im_kind m of
        msgEvent \<Rightarrow> ia_Registered app (ev_Name (im_ev m)) \<and> AdmitsID (ia_Registry app) (ev_FragmentID (im_ev m))
          \<and> ia_Authorize app (im_ev m) = None \<and> og_Kind (im_origin m) = OriginKind_CLIENT_EVENT
          \<and> og_EventID (im_origin m) = ev_ID (im_ev m) \<and> og_ClientRef (im_origin m) = ev_ClientRef (im_ev m)
      | msgResync \<Rightarrow> ia_Authorize app (im_ev m) = None
      | _ \<Rightarrow> True)"

record 'a outline =
  ol_app :: "'a IApp"
  ol_lim :: Limits
  ol_mailbox :: "inbound list"
  ol_acks :: nat
  ol_closing :: bool
  ol_closed :: "CloseCode list"
  ol_sent :: "Frame list"

definition outline_of :: "'a Actor \<Rightarrow> 'a outline" where
  "outline_of a =
     \<lparr>ol_app = ac_app a, ol_lim = ac_lim a, ol_mailbox = ac_mailbox a, ol_acks = length (ac_acks a),
      ol_closing = ac_closing a, ol_closed = ac_closed a, ol_sent = ac_sent a\<rparr>"

definition outline_ok :: "'a outline \<Rightarrow> bool" where
  "outline_ok s \<longleftrightarrow>
     list_all (admitted (ol_app s)) (ol_mailbox s)
     \<and> length (ol_mailbox s) \<le> nat (lm_MailboxDepth (ol_lim s))
     \<and> ol_acks s \<le> nat (lm_AckChannelDepth (ol_lim s))
     \<and> ol_closing s = (ol_closed s \<noteq> []) \<and> length (ol_closed s) \<le> 1
     \<and> list_all (\<lambda>f. ValidateOutbound f = None) (ol_sent s)"

definition safe :: "'a Actor \<Rightarrow> bool" where
  "safe a \<longleftrightarrow> outline_ok (outline_of a)"

named_theorems safe_simps \<open>operations of the actor that keep the session safe\<close>

lemma outline_upd [safe_simps]:
  "outline_of (a\<lparr>ac_state := x3\<rparr>) = outline_of a" "outline_of (a\<lparr>ac_view := x4\<rparr>) = outline_of a"
  "outline_of (a\<lparr>ac_transitionID := x5\<rparr>) = outline_of a" "outline_of (a\<lparr>ac_stateVersion := x6\<rparr>) = outline_of a"
  "outline_of (a\<lparr>ac_hbNonce := x7\<rparr>) = outline_of a" "outline_of (a\<lparr>ac_panics := x8\<rparr>) = outline_of a"
  "outline_of (a\<lparr>ac_pendingOrig := x9\<rparr>) = outline_of a" "outline_of (a\<lparr>ac_pendingIDs := x10\<rparr>) = outline_of a"
  "outline_of (a\<lparr>ac_slowNotified := x11\<rparr>) = outline_of a" "outline_of (a\<lparr>ac_coalesceNotified := x12\<rparr>) = outline_of a"
  "outline_of (a\<lparr>ac_coalesceHeld := x13\<rparr>) = outline_of a" "outline_of (a\<lparr>ac_resyncBucket := x14\<rparr>) = outline_of a"
  "outline_of (a\<lparr>ac_resyncDenied := x15\<rparr>) = outline_of a" "outline_of (a\<lparr>ac_eventSeq := x16\<rparr>) = outline_of a"
  "outline_of (a\<lparr>ac_eventBucket := x17\<rparr>) = outline_of a" "outline_of (a\<lparr>ac_eventDenied := x18\<rparr>) = outline_of a"
  "outline_of (a\<lparr>ac_ingressReady := x19\<rparr>) = outline_of a" "outline_of (a\<lparr>ac_lastInbound := x20\<rparr>) = outline_of a"
  "outline_of (a\<lparr>ac_lastEvent := x21\<rparr>) = outline_of a" "outline_of (a\<lparr>ac_win := x22\<rparr>) = outline_of a"
  "outline_of (a\<lparr>ac_writes := x24\<rparr>) = outline_of a" "outline_of (a\<lparr>ac_serverSeq := x26\<rparr>) = outline_of a"
  "outline_of (a\<lparr>ac_patchID := x27\<rparr>) = outline_of a" "outline_of (a\<lparr>ac_lastSnapshotSeq := x28\<rparr>) = outline_of a"
  "outline_of (a\<lparr>ac_provenance := x25\<rparr>) = outline_of a" "outline_of (a\<lparr>ac_effects := x29\<rparr>) = outline_of a"
  by (simp_all add: outline_of_def)

text \<open>One operation keeps the application and the limits, and the invariant.\<close>

definition keeps :: "'a Actor \<Rightarrow> 'a Actor \<Rightarrow> bool" where
  "keeps a a' \<longleftrightarrow> ac_app a' = ac_app a \<and> ac_lim a' = ac_lim a \<and> (safe a \<longrightarrow> safe a')"

lemma keeps_refl [simp]: "keeps a a"
  by (simp add: keeps_def)

lemma keeps_trans: "keeps a b \<Longrightarrow> keeps b c \<Longrightarrow> keeps a c"
  by (simp add: keeps_def)

lemma keeps_outline: "outline_of a' = outline_of a \<Longrightarrow> keeps a a'"
  by (simp add: keeps_def safe_def) (simp add: outline_of_def)

lemma keeps_left: "outline_of a1 = outline_of a \<Longrightarrow> keeps a1 a' \<Longrightarrow> keeps a a'"
  using keeps_outline keeps_trans by blast

lemma keeps_cong: "outline_of a1 = outline_of a \<Longrightarrow> outline_of a2 = outline_of a' \<Longrightarrow> keeps a1 a2 = keeps a a'"
  by (simp add: keeps_def safe_def) (metis keeps_def keeps_outline)

lemma keeps_upd [safe_simps]:
  "keeps c (a\<lparr>ac_state := x3\<rparr>) = keeps c a" "keeps c (a\<lparr>ac_view := x4\<rparr>) = keeps c a"
  "keeps c (a\<lparr>ac_transitionID := x5\<rparr>) = keeps c a" "keeps c (a\<lparr>ac_stateVersion := x6\<rparr>) = keeps c a"
  "keeps c (a\<lparr>ac_hbNonce := x7\<rparr>) = keeps c a" "keeps c (a\<lparr>ac_panics := x8\<rparr>) = keeps c a"
  "keeps c (a\<lparr>ac_pendingOrig := x9\<rparr>) = keeps c a" "keeps c (a\<lparr>ac_pendingIDs := x10\<rparr>) = keeps c a"
  "keeps c (a\<lparr>ac_slowNotified := x11\<rparr>) = keeps c a" "keeps c (a\<lparr>ac_coalesceNotified := x12\<rparr>) = keeps c a"
  "keeps c (a\<lparr>ac_coalesceHeld := x13\<rparr>) = keeps c a" "keeps c (a\<lparr>ac_resyncBucket := x14\<rparr>) = keeps c a"
  "keeps c (a\<lparr>ac_resyncDenied := x15\<rparr>) = keeps c a" "keeps c (a\<lparr>ac_eventSeq := x16\<rparr>) = keeps c a"
  "keeps c (a\<lparr>ac_eventBucket := x17\<rparr>) = keeps c a" "keeps c (a\<lparr>ac_eventDenied := x18\<rparr>) = keeps c a"
  "keeps c (a\<lparr>ac_ingressReady := x19\<rparr>) = keeps c a" "keeps c (a\<lparr>ac_lastInbound := x20\<rparr>) = keeps c a"
  "keeps c (a\<lparr>ac_lastEvent := x21\<rparr>) = keeps c a" "keeps c (a\<lparr>ac_win := x22\<rparr>) = keeps c a"
  "keeps c (a\<lparr>ac_writes := x24\<rparr>) = keeps c a" "keeps c (a\<lparr>ac_serverSeq := x26\<rparr>) = keeps c a"
  "keeps c (a\<lparr>ac_patchID := x27\<rparr>) = keeps c a" "keeps c (a\<lparr>ac_lastSnapshotSeq := x28\<rparr>) = keeps c a"
  "keeps c (a\<lparr>ac_provenance := x25\<rparr>) = keeps c a" "keeps c (a\<lparr>ac_effects := x29\<rparr>) = keeps c a"
  by (rule keeps_cong, rule refl, rule outline_upd)+

subsection \<open>The primitive operations\<close>

lemma keeps_Close: "keeps a (Actor_Close code a)"
  by (simp add: keeps_def Actor_Close_def safe_def outline_ok_def outline_of_def)

lemma keeps_post: "admitted (ac_app a) m \<Longrightarrow> keeps a (fst (post m a))"
  by (auto simp: keeps_def post_def safe_def outline_ok_def outline_of_def)

lemma keeps_Framer_Send: "keeps a (fst (Framer_Send b f a))"
proof (cases "ValidateOutbound f")
  case None
  then show ?thesis
    by (auto simp: keeps_def Framer_Send_def Framer_Encode_def Let_def safe_def outline_ok_def outline_of_def
        split: option.split sum.split)
qed (simp add: Framer_Send_def Framer_Encode_def)

lemma keeps_emitError: "keeps a (emitError b code s e r f a)"
  by (simp add: emitError_def keeps_Framer_Send)


text \<open>In the form the simplifier chains: what keeps the invariant up to here still keeps it.\<close>

lemma keeps_chain [safe_simps]:
  "keeps c a \<Longrightarrow> keeps c (Actor_Close code a)"
  "keeps c a \<Longrightarrow> keeps c (emitError b code' s e r f a)"
  "keeps c a \<Longrightarrow> keeps c (fst (Framer_Send b fr a))"
  "keeps c a \<Longrightarrow> admitted (ac_app c) m \<Longrightarrow> keeps c (fst (post m a))"
  using keeps_trans keeps_Close keeps_emitError keeps_Framer_Send keeps_post
  by (metis, metis, metis, metis keeps_def)

lemma admitted_internal [simp]:
  "admitted app (getInbound msgEffectResult ev o')" "admitted app (getInbound msgSynthetic ev o')"
  "admitted app ((getInbound msgTelemetry ev o')\<lparr>im_patchID := p, im_morphMicros := m, im_applyMicros := n\<rparr>)"
  by (simp_all add: admitted_def getInbound_def)

lemma keeps_small [safe_simps]:
  assumes "keeps c a"
  shows "keeps c (provenance o' ev fs p q su a)"
    and "keeps c (deferPatch origin a)"
    and "keeps c (redefer origin ids a)"
    and "keeps c (synthesize now source a)"
    and "keeps c (note_fullness now a)"
    and "keeps c (emitFailure now source detail retryable by' a)"
    and "keeps c (notePanic site a)"
    and "keeps c (fst (takePending origin a))"
    and "keeps c (push_slot ca a)"
    and "keeps c (enterCoalesce now origin a)"
    and "keeps c (degrade now origin a)"
    and "keeps c (fst (renderPass all a))"
    and "keeps c (execute now by' e a)"
  using assms
  by (simp_all add: provenance_def deferPatch_def redefer_def synthesize_def note_fullness_def emitFailure_def notePanic_def
      takePending_def push_slot_def enterCoalesce_def degrade_def renderPass_def execute_def Let_def safe_simps split: prod.split)

lemma keeps_funpow:
  fixes g :: "'a Actor \<Rightarrow> 'a Actor"
  shows "(\<And>x. keeps c x \<Longrightarrow> keeps c (g x)) \<Longrightarrow> keeps c a \<Longrightarrow> keeps c ((g ^^ n) a)"
  by (induction n) simp_all

lemma keeps_noteRenderFailures [safe_simps]: "keeps c a \<Longrightarrow> keeps c (noteRenderFailures b fs e r a)"
  by (simp add: noteRenderFailures_def Let_def keeps_funpow safe_simps)

lemma keeps_runEffects [safe_simps]: "keeps c a \<Longrightarrow> keeps c (runEffects now es by' a)"
  unfolding runEffects_def by (induction es arbitrary: a) (simp_all add: safe_simps)

lemma keeps_pairs:
  assumes "keeps c a"
  shows "Framer_Send b fr a = (a', r1) \<Longrightarrow> keeps c a'"
    and "renderPass all a = (a', r2) \<Longrightarrow> keeps c a'"
    and "takePending origin a = (a', r3) \<Longrightarrow> keeps c a'"
  using assms keeps_chain(3) [of c a b fr] keeps_small(12) [of c a all] keeps_small(8) [of c a origin] by simp_all

lemma keeps_send: "keeps c a \<Longrightarrow> Actor_send b fr ca a = (a', r) \<Longrightarrow> keeps c a'"
  by (auto simp: Actor_send_def safe_simps keeps_pairs(1) split: prod.splits sum.splits send_err.splits)

subsection \<open>Emission\<close>

lemma keeps_emit_now [safe_simps]: "keeps c a \<Longrightarrow> keeps c (emit_now b origin ev a)"
proof -
  assume c: "keeps c a"
  obtain a1 ids where t: "takePending origin (a\<lparr>ac_coalesceHeld := False\<rparr>) = (a1, ids)" by fastforce
  obtain a2 res where r: "renderPass False a1 = (a2, res)" by fastforce
  have c2: "keeps c a2" using keeps_pairs(2) [OF keeps_pairs(3) [OF _ t] r] c by (simp add: safe_simps)
  let ?o = "origin\<lparr>og_Contributing := unionEdges origin ids\<rparr>"
  let ?f = "NewPatch (ac_peer a2) (next_causal a2) ?o (toWireUpdates (rs_Updates res))"
  obtain a3 s where p: "Actor_send b ?f (next_causal a2) a2 = (a3, s)" by fastforce
  note c3 = keeps_send [OF c2 p]
  show ?thesis
    by (cases s) (simp_all add: emit_now_def t r p Let_def safe_simps c2 c3)
qed

lemma keeps_emitPatch [safe_simps]: "keeps c a \<Longrightarrow> keeps c (emitPatch b now origin ev forced a)"
  by (simp add: emitPatch_def safe_simps)

lemma keeps_emit_deferred [safe_simps]: "keeps c a \<Longrightarrow> keeps c (emit_deferred b now a)"
  by (simp add: emit_deferred_def Let_def safe_simps)

lemma keeps_emitSnapshot:
  assumes "keeps c a" "emitSnapshot b origin su event a = (a', r)"
  shows "keeps c a'"
proof -
  obtain a1 res where r: "renderPass True a = (a1, res)" by fastforce
  obtain a2 ids where t: "takePending origin a1 = (a2, ids)" by fastforce
  note c2 = keeps_pairs(3) [OF keeps_pairs(2) [OF assms(1) r] t]
  let ?o = "origin\<lparr>og_Contributing := unionEdges origin ids\<rparr>"
  let ?f = "NewSnapshot (ac_peer a2) (next_causal a2) ?o (session_params (ac_lim a2)) su (toWireUpdates (rs_Updates res))"
  obtain a3 s where p: "Actor_send b ?f (next_causal a2) a2 = (a3, s)" by fastforce
  note c3 = keeps_send [OF c2 p]
  show ?thesis
    using assms(2) by (cases s) (auto simp: emitSnapshot_def r t p Let_def safe_simps c2 c3)
qed

subsection \<open>The actor\<close>

lemma keeps_transition [safe_simps]: "keeps c a \<Longrightarrow> keeps c (transition b now ev origin a)"
  by (simp add: transition_def rejectUnknownFragment_def Let_def safe_simps split: sum.split prod.split)

lemma keeps_fst_snapshot [safe_simps]: "keeps c a \<Longrightarrow> keeps c (fst (emitSnapshot b origin su event a))"
  using keeps_emitSnapshot by (metis surjective_pairing)

lemma keeps_resync [safe_simps]: "keeps c a \<Longrightarrow> keeps c (resync b now m a)"
  by (simp add: resync_def Let_def safe_simps split: prod.split bool.split)

lemma keeps_step [safe_simps]: "keeps c a \<Longrightarrow> keeps c (Actor_step b now m a)"
  by (simp add: Actor_step_def safe_simps split: msgKind.split)

lemma keeps_onAck [safe_simps]: "keeps c a \<Longrightarrow> keeps c (onAck b now seq a)"
  by (simp add: onAck_def Let_def safe_simps split: prod.split option.split)

lemma keeps_beat: "keeps c a \<Longrightarrow>
    keeps c (case Framer_Send b f a of (y, Inl e) \<Rightarrow> Actor_Close code y | (y, Inr n) \<Rightarrow> y)"
  by (cases "Framer_Send b f a"; cases "snd (Framer_Send b f a)") (simp_all add: safe_simps keeps_pairs(1))

lemma keeps_onTick [safe_simps]: "keeps c a \<Longrightarrow> keeps c (onTick b clock t a)"
  by (simp add: onTick_def Let_def safe_simps keeps_beat)

lemma keeps_authorize:
  assumes "keeps c a" "Actor_authorize b ev a = (a', ok)"
  shows "keeps c a'" and "ok \<Longrightarrow> ia_Authorize (ac_app c) ev = None"
proof -
  have "ac_app a = ac_app c" using assms(1) by (simp add: keeps_def)
  then show "keeps c a'" and "ok \<Longrightarrow> ia_Authorize (ac_app c) ev = None"
    using assms by (auto simp: Actor_authorize_def safe_simps split: option.splits deny.splits)
qed

lemma keeps_enqueue:
  assumes "keeps c a" and "\<And>a'. keeps c a' \<Longrightarrow> ia_Authorize (ac_app c) ev = None \<Longrightarrow> admitted (ac_app c) (g a')"
  shows "keeps c (case Actor_authorize b ev a of (a, False) \<Rightarrow> a
     | (a, True) \<Rightarrow> (case post (g a) a of (a, True) \<Rightarrow> a | (a, False) \<Rightarrow> emitError b code s e i f a))"
proof -
  obtain a' r where p: "Actor_authorize b ev a = (a', r)" by fastforce
  note k = keeps_authorize [OF assms(1) p]
  obtain y q where o: "post (g a') a' = (y, q)" by fastforce
  have "r \<Longrightarrow> keeps c y"
    using keeps_chain(4) [OF k(1) assms(2), OF k(1) k(2)] by (simp add: o)
  then show ?thesis using k by (cases r; cases q) (simp_all add: p o safe_simps)
qed

lemma keeps_ingressEvent [safe_simps]:
  assumes "keeps c a"
  shows "keeps c (ingressEvent b now r n fr s fs a)"
proof -
  obtain bucket ok where k: "bucket_allow (bd_round b) now (ac_eventBucket a) = (bucket, ok)" by fastforce
  have app: "ac_app a = ac_app c" using assms by (simp add: keeps_def)
  show ?thesis
    using assms
    by (cases ok) (auto simp: ingressEvent_def rejectUnknownFragment_def k app Let_def safe_simps admitted_def getInbound_def zeroEvent_def
        intro!: keeps_enqueue)
qed

lemma keeps_ingressResync [safe_simps]: "keeps c a \<Longrightarrow> keeps c (ingressResync b now l a)"
  by (auto simp: ingressResync_def Let_def safe_simps admitted_def getInbound_def intro!: keeps_enqueue)

lemma keeps_ingressAck: "keeps a (ingressAck seq a)"
  by (auto simp: ingressAck_def keeps_def safe_def outline_ok_def outline_of_def)

lemma keeps_Ingress: "keeps a (Ingress b now i a)"
proof (cases "ib_Payload i")
  case (InboundAck seq)
  then show ?thesis
    using keeps_trans [OF _ keeps_ingressAck, of a "a\<lparr>ac_lastInbound := now\<rparr>" seq] by (simp add: Ingress_def Let_def safe_simps)
qed (simp_all add: Ingress_def ingressTelemetry_def Let_def safe_simps)

subsection \<open>Turns\<close>

lemma keeps_dequeue:
  "ac_mailbox a = m # ms \<Longrightarrow> keeps a (a\<lparr>ac_mailbox := ms\<rparr>)" "ac_acks a = s # ss \<Longrightarrow> keeps a (a\<lparr>ac_acks := ss\<rparr>)"
  by (auto simp: keeps_def safe_def outline_ok_def outline_of_def)

lemma keeps_effects:
  "keeps a (fst (emitter now source by' ev a))" "keeps a (effect_ends now source by' e a)"
proof -
  show "keeps a (fst (emitter now source by' ev a))"
    using keeps_chain(4) [OF keeps_refl [of a] admitted_internal(1)] by (simp add: emitter_def split: prod.split bool.split) (metis fst_conv)
  show "keeps a (effect_ends now source by' e a)"
    by (cases e) (simp_all add: effect_ends_def Let_def safe_simps)
qed

lemma keeps_turn: "keeps a (live_turn b x a)"
proof (cases x)
  case (Pair now i)
  then show ?thesis
    by (cases i) (auto simp: keeps_effects keeps_Ingress safe_simps dest: keeps_dequeue split: list.split)
qed

lemma keeps_run: "keeps a (live_run b inputs a)"
  unfolding live_run_def
proof (induction inputs arbitrary: a)
  case (Cons x inputs)
  then show ?case using keeps_turn keeps_trans by (simp, blast)
qed simp

lemma keeps_mount: "keeps a (mount b now a)"
proof (cases "ia_Init (ac_app a)")
  case (Inr se)
  obtain st es where se: "se = (st, es)" by fastforce
  let ?a = "a\<lparr>ac_state := st, ac_transitionID := 1, ac_stateVersion := 1\<rparr>"
  obtain a' r where e: "emitSnapshot b (zeroOrigin\<lparr>og_Kind := OriginKind_MOUNT, og_Source := SourceMount\<rparr>) no_supersession 0 ?a
      = (a', r)" by fastforce
  have "keeps a a'" using keeps_emitSnapshot [OF _ e, of a] by (simp add: safe_simps)
  then show ?thesis by (cases r) (simp_all add: mount_def Inr se e Let_def safe_simps)
qed (simp add: mount_def safe_simps)

lemma keeps_start: "keeps (Actor_New b app limits peer dev now) (live_start b app limits peer dev now)"
  by (simp add: live_start_def safe_simps keeps_mount)

lemma safe_New: "safe (Actor_New b app limits peer dev now)"
  by (simp add: safe_def outline_ok_def outline_of_def Actor_New_def Let_def)

lemma live_run_keeps: "keeps (Actor_New b app limits peer dev now) (live_run b inputs (live_start b app limits peer dev now))"
  using keeps_trans [OF keeps_start keeps_run] .

lemma live_run_safe:
  assumes "a = live_run b inputs (live_start b app limits peer dev now)"
  shows "safe a" "ac_app a = app" "ac_lim a = Limits_Normalize limits"
  using live_run_keeps [of b app limits peer dev now inputs] safe_New [of b app limits peer dev now] assms
  by (auto simp: keeps_def Actor_New_def Let_def)

subsection \<open>Properties\<close>

text \<open>
  C40. Only an event the application admitted waits for its transition, and so only such an event
  reaches the reducer as the client's: its name is registered, its fragment is one the registry
  admits, the application's authorization allowed it and its origin names the client's event. A
  queued resynchronisation was authorized too.
\<close>

theorem live_only_admitted:
  "list_all (admitted app) (ac_mailbox (live_run b inputs (live_start b app limits peer dev now)))"
  using live_run_safe [OF refl, of b inputs app limits peer dev now] by (simp add: safe_def outline_ok_def outline_of_def)

text \<open>
  A session's queues never hold more than its limits allow, and the session is closed at most
  once: it records one close code from the moment it is closing, and none before.
\<close>

theorem live_queues_bounded:
  "length (ac_mailbox (live_run b inputs (live_start b app limits peer dev now)))
     \<le> nat (lm_MailboxDepth (Limits_Normalize limits))
   \<and> length (ac_acks (live_run b inputs (live_start b app limits peer dev now)))
     \<le> nat (lm_AckChannelDepth (Limits_Normalize limits))
   \<and> length (ac_closed (live_run b inputs (live_start b app limits peer dev now)))
     = (if ac_closing (live_run b inputs (live_start b app limits peer dev now)) then 1 else 0)"
  using live_run_safe [OF refl, of b inputs app limits peer dev now]
  by (cases "ac_closed (live_run b inputs (live_start b app limits peer dev now))")
    (auto simp: safe_def outline_ok_def outline_of_def)

text \<open>
  Every frame a session ever gave the transport passes the checks of the protocol: its fields are
  in their declared domains, its lists within their bounds and its origin and range consistent.
\<close>

theorem live_frames_valid:
  "list_all (\<lambda>f. ValidateOutbound f = None) (ac_sent (live_run b inputs (live_start b app limits peer dev now)))"
  using live_run_safe [OF refl, of b inputs app limits peer dev now] by (simp add: safe_def outline_ok_def outline_of_def)

end
