(* ===== verification/Live_Dirty.thy ===== *)
theory Live_Dirty
  imports Live_Render
begin

text \<open>
  The dirty set of a renderer. Its interface is a set of positions below a size; the bitset of
  the source provides it, so that the render path is reasoned about with sets of positions.
\<close>

subsection \<open>The interface\<close>

locale position_set =
  fixes has :: "'s \<Rightarrow> nat \<Rightarrow> bool" and put :: "'s \<Rightarrow> nat \<Rightarrow> 's" and clear :: "'s \<Rightarrow> nat \<Rightarrow> 's"
    and capacity :: "'s \<Rightarrow> nat"
  assumes has_put: "i < capacity s \<Longrightarrow> j < capacity s \<Longrightarrow> has (put s i) j \<longleftrightarrow> j = i \<or> has s j"
    and has_clear: "i < capacity s \<Longrightarrow> j < capacity s \<Longrightarrow> has (clear s i) j \<longleftrightarrow> j \<noteq> i \<and> has s j"
    and capacity_put: "capacity (put s i) = capacity s"
    and capacity_clear: "capacity (clear s i) = capacity s"
begin

lemma capacity_puts: "capacity (fold (\<lambda>i s. put s i) is s) = capacity s"
  by (induction "is" arbitrary: s) (simp_all add: capacity_put)

lemma has_puts:
  "list_all (\<lambda>i. i < capacity s) is \<Longrightarrow> j < capacity s \<Longrightarrow>
     has (fold (\<lambda>i s. put s i) is s) j \<longleftrightarrow> j \<in> set is \<or> has s j"
  by (induction "is" arbitrary: s) (auto simp: has_put capacity_put)

lemma capacity_clears: "capacity (fold (\<lambda>i s. clear s i) is s) = capacity s"
  by (induction "is" arbitrary: s) (simp_all add: capacity_clear)

lemma has_clears:
  "list_all (\<lambda>i. i < capacity s) is \<Longrightarrow> j < capacity s \<Longrightarrow>
     has (fold (\<lambda>i s. clear s i) is s) j \<longleftrightarrow> j \<notin> set is \<and> has s j"
  by (induction "is" arbitrary: s) (auto simp: has_clear capacity_clear)

end

subsection \<open>The bitset provides it\<close>

definition bs_capacity :: "bitset \<Rightarrow> nat" where
  "bs_capacity b = 64 * length b"

lemma bs_has_bit: "bs_has b i \<longleftrightarrow> bit (b ! (i div 64)) (i mod 64)"
proof -
  have "and w (push_bit n 1) \<noteq> 0 \<longleftrightarrow> bit w n" if "n < 64" for w :: "64 word" and n
  proof
    assume "bit w n"
    with that have "bit (and w (push_bit n 1)) n" by (simp add: bit_simps)
    then show "and w (push_bit n 1) \<noteq> 0" by auto
  next
    assume "and w (push_bit n 1) \<noteq> 0"
    then obtain m where "bit (and w (push_bit n 1)) m" by (auto simp: bit_eq_iff)
    then show "bit w n" by (auto simp: bit_simps split: if_splits)
  qed
  then show ?thesis by (simp add: bs_has_def)
qed

lemma position_word: "i < bs_capacity b \<Longrightarrow> i div 64 < length b"
  by (simp add: bs_capacity_def less_mult_imp_div_less mult.commute)

lemma same_position: "(i::nat) div 64 = j div 64 \<Longrightarrow> i mod 64 = j mod 64 \<Longrightarrow> i = j"
  by (metis div_mult_mod_eq)

lemma bit_one_at: "bit (2 ^ m :: 64 word) k \<longleftrightarrow> k = m \<and> m < 64"
  by (auto simp: bit_simps)

interpretation bits: position_set bs_has bs_set bs_clear bs_capacity
proof
  fix b :: bitset and i j :: nat
  assume ij: "i < bs_capacity b" "j < bs_capacity b"
  have i: "i div 64 < length b" using ij(1) by (rule position_word)
  show "bs_has (bs_set b i) j \<longleftrightarrow> j = i \<or> bs_has b j"
  proof (cases "i div 64 = j div 64")
    case True
    then have "bs_has (bs_set b i) j \<longleftrightarrow> bs_has b j \<or> j mod 64 = i mod 64"
      using i by (simp add: bs_has_bit bs_set_def bit_or_iff bit_one_at)
    moreover have "j mod 64 = i mod 64 \<longleftrightarrow> j = i" using True same_position by metis
    ultimately show ?thesis by blast
  next
    case False
    then have "i \<noteq> j" by auto
    with False show ?thesis by (simp add: bs_has_bit bs_set_def)
  qed
  show "bs_has (bs_clear b i) j \<longleftrightarrow> j \<noteq> i \<and> bs_has b j"
  proof (cases "i div 64 = j div 64")
    case True
    then have "bs_has (bs_clear b i) j \<longleftrightarrow> bs_has b j \<and> j mod 64 \<noteq> i mod 64"
      using i by (simp add: bs_has_bit bs_clear_def bit_and_iff bit_not_iff bit_one_at)
    moreover have "j mod 64 = i mod 64 \<longleftrightarrow> j = i" using True same_position by metis
    ultimately show ?thesis by blast
  next
    case False
    then have "i \<noteq> j" by auto
    with False show ?thesis by (simp add: bs_has_bit bs_clear_def)
  qed
qed (simp_all add: bs_capacity_def bs_set_def bs_clear_def)

definition dirty_positions :: "bitset \<Rightarrow> nat set" where
  "dirty_positions b = {i. i < bs_capacity b \<and> bs_has b i}"

lemma positions_put: "i < bs_capacity b \<Longrightarrow> dirty_positions (bs_set b i) = insert i (dirty_positions b)"
  by (auto simp: dirty_positions_def bits.has_put bits.capacity_put)

lemma positions_clear: "i < bs_capacity b \<Longrightarrow> dirty_positions (bs_clear b i) = dirty_positions b - {i}"
  by (auto simp: dirty_positions_def bits.has_clear bits.capacity_clear)

lemma capacity_new: "n \<le> bs_capacity (newBitset n)"
proof -
  have "n \<le> 64 * ((n + 63) div 64)" by presburger
  then show ?thesis by (simp add: bs_capacity_def newBitset_def)
qed

lemma bs_any_members: "bs_any b \<longleftrightarrow> dirty_positions b \<noteq> {}"
proof -
  have "(\<exists>w\<in>set b. w \<noteq> 0) \<longleftrightarrow> (\<exists>i < 64 * length b. bit (b ! (i div 64)) (i mod 64))"
  proof
    assume "\<exists>w\<in>set b. w \<noteq> 0"
    then obtain k where k: "k < length b" "b ! k \<noteq> 0" by (metis in_set_conv_nth)
    then obtain n where n: "bit (b ! k) n" by (auto simp: bit_eq_iff)
    then have "n < 64" using bit_imp_le_length [of "b ! k" n] by simp
    with n k show "\<exists>i < 64 * length b. bit (b ! (i div 64)) (i mod 64)"
      by (intro exI [of _ "64 * k + n"]) auto
  next
    assume "\<exists>i < 64 * length b. bit (b ! (i div 64)) (i mod 64)"
    then obtain i where i: "i < 64 * length b" "bit (b ! (i div 64)) (i mod 64)" by blast
    then have "b ! (i div 64) \<in> set b" by (intro nth_mem) (simp add: less_mult_imp_div_less mult.commute)
    with i(2) show "\<exists>w\<in>set b. w \<noteq> 0" by (metis bit_0_eq bot_apply bot_bool_def)
  qed
  then show ?thesis by (auto simp: bs_any_def list_ex_iff dirty_positions_def bs_capacity_def bs_has_bit)
qed

lemma words_for: "n = 64 * q + r \<Longrightarrow> r < 64 \<Longrightarrow> 0 < r \<Longrightarrow> (n + 63) div 64 = Suc q" for q r :: nat
  by (intro div_nat_eqI) simp_all

lemma bs_setAll_members:
  assumes "length b = (n + 63) div 64"
  shows "dirty_positions (bs_setAll b n) = {..<n}"
proof -
  have len: "length (bs_setAll b n) = length b" by (simp add: bs_setAll_def Let_def)
  have words: "i < 64 * length b \<longleftrightarrow> i div 64 < length b" for i
    by (simp add: div_less_iff_less_mult mult.commute)
  have "i < 64 * length b \<and> bit (bs_setAll b n ! (i div 64)) (i mod 64) \<longleftrightarrow> i < n" for i
  proof (cases "n mod 64 = 0")
    case True
    then have "64 * (n div 64) = n" using div_mult_mod_eq [of n 64] by simp
    moreover from this have "(n + 63) div 64 = n div 64" by (intro div_nat_eqI) simp_all
    ultimately have "64 * length b = n" using assms by simp
    have all: "bs_setAll b n = replicate (length b) (- 1)" using True by (simp add: bs_setAll_def Let_def)
    have "bit (bs_setAll b n ! (i div 64)) (i mod 64)" if "i < n"
    proof -
      have "i div 64 < length b" using that \<open>64 * length b = n\<close> by (simp add: less_mult_imp_div_less mult.commute)
      then have "bs_setAll b n ! (i div 64) = - 1" unfolding all by (rule nth_replicate)
      then show ?thesis by (simp add: bit_simps)
    qed
    then show ?thesis unfolding \<open>64 * length b = n\<close> by blast
  next
    case False
    have "(n + 63) div 64 = Suc (n div 64)" by (rule words_for [of _ _ "n mod 64"]) (use False in simp_all)
    then have l: "length b = Suc (n div 64)" using assms by simp
    then have last: "length b - 1 = n div 64" "n div 64 < length b" by simp_all
    show ?thesis
    proof (cases "i div 64 = n div 64")
      case True
      then have "i < n \<longleftrightarrow> i mod 64 < n mod 64" by (metis add_less_cancel_left div_mult_mod_eq)
      moreover have "i < 64 * length b" using words True l by simp
      moreover have "bs_setAll b n ! (i div 64) = mask (n mod 64)"
        using False True last by (simp add: bs_setAll_def Let_def mask_eq_exp_minus_1)
      ultimately show ?thesis by (simp add: bit_mask_iff)
    next
      case False
      then have "i < n \<longleftrightarrow> i div 64 < n div 64"
        using div_le_mono [of i n 64] div_le_mono [of n i 64] by linarith
      moreover have "i < 64 * length b \<longleftrightarrow> i div 64 \<le> n div 64" unfolding words by (simp add: l less_Suc_eq_le)
      moreover have "bs_setAll b n ! (i div 64) = - 1" if "i div 64 < n div 64"
        using that \<open>n mod 64 \<noteq> 0\<close> last by (simp add: bs_setAll_def Let_def)
      ultimately show ?thesis using False by auto
    qed
  qed
  then show ?thesis by (auto simp: dirty_positions_def bs_capacity_def len bs_has_bit)
qed

text \<open>
  The bitset of the dirty fragments is a set of positions: setting and clearing a bit add and
  remove its position and no other, setting all of them gives exactly the positions of the
  fragments, also when their number is not a multiple of 64, and the test for any bit is the
  test for a position.
\<close>

theorem bitset_refines_set:
  assumes "i < bs_capacity b"
  shows "dirty_positions (bs_set b i) = insert i (dirty_positions b)
       \<and> dirty_positions (bs_clear b i) = dirty_positions b - {i}
       \<and> dirty_positions (bs_setAll (newBitset n) n) = {..<n}
       \<and> bs_any b = (dirty_positions b \<noteq> {})"
  using positions_put [OF assms] positions_clear [OF assms] bs_setAll_members [of "newBitset n" n]
  by (simp add: bs_any_members newBitset_def)

theorem bitset_refines_set_witness:
  "65 < bs_capacity (newBitset 70) \<and> dirty_positions (bs_setAll (newBitset 70) 70) = {..<70}"
  using bitset_refines_set [of 65 "newBitset 70" 70] by (simp add: bs_capacity_def newBitset_def)

end
