(* ===== verification/Live_Page.thy ===== *)
theory Live_Page
  imports Live_Dirty
begin

text \<open>
  The contract of the render path for registries without collections: whatever is marked,
  rendered, sent or lost, a fragment that is not dirty shows the rendering of the current state.
  The page is what the updates of the sent passes leave in the browser.
\<close>

subsection \<open>The page and what it is used with\<close>

type_synonym page = "string \<Rightarrow> string option"

definition show_update :: "rendered \<Rightarrow> page \<Rightarrow> page" where
  "show_update u page = page(rd_FragmentID u \<mapsto> rd_HTML u)"

definition static_registry :: "'a Registry \<Rightarrow> bool" where
  "static_registry reg \<longleftrightarrow> list_all (\<lambda>f. fg_Children f = None) (rg_frags reg) \<and> distinct (map fg_ID (rg_frags reg))"

text \<open>A change declaration is sound when it is false only between states that render the same.\<close>

definition sound_dirty :: "'a Registry \<Rightarrow> bool" where
  "sound_dirty reg \<longleftrightarrow>
     (\<forall>f\<in>set (rg_frags reg). \<forall>prev next. \<not> fst (callDirty f prev next) \<longrightarrow> callRender f prev = callRender f next)"

definition outputs :: "'a Registry \<Rightarrow> string set" where
  "outputs reg = {html. \<exists>f\<in>set (rg_frags reg). \<exists>s. callRender f s = Inr html}"

text \<open>The hash tells apart what the fragments render, and from the initial zero.\<close>

definition hash_ok :: "'a Registry \<Rightarrow> bool" where
  "hash_ok reg \<longleftrightarrow> inj_on (rg_hash reg) (outputs reg) \<and> 0 \<notin> rg_hash reg ` outputs reg"

lemma index_fragments_distinct:
  "index_fragments i fs index = Inr idx \<Longrightarrow>
     distinct (map fg_ID fs) \<and> set (map fg_ID fs) \<inter> dom (map_of index) = {}"
proof (induction fs arbitrary: i index)
  case (Cons f fs)
  have dom: "dom (map_of (map_put k v m)) = insert k (dom (map_of m))" for k :: string and v :: nat and m
    by (auto simp: update_conv' split: if_splits)
  from Cons.prems have f: "map_of index (fg_ID f) = None"
    and r: "index_fragments (Suc i) fs (map_put (fg_ID f) i index) = Inr idx"
    by (auto split: if_splits option.splits)
  from Cons.IH [OF r] f show ?case by (auto simp: dom)
qed simp

lemma NewRegistry_static:
  assumes "NewRegistry hash frags = Inr reg" "list_all (\<lambda>f. fg_Children f = None) frags"
  shows "static_registry reg" "rg_frags reg = frags" "rg_hash reg = hash"
  using assms index_fragments_distinct [of 0 frags "[]"]
  by (auto simp: NewRegistry_def static_registry_def and_then_Inr split: if_splits option.splits)

subsection \<open>One pass over static fragments\<close>

definition html_of :: "'a \<Rightarrow> 'a Fragment \<Rightarrow> string" where
  "html_of s f = (case callRender f s of Inl e \<Rightarrow> [] | Inr html \<Rightarrow> html)"

definition visits :: "bool \<Rightarrow> 'a Renderer \<Rightarrow> nat \<times> 'a Fragment \<Rightarrow> bool" where
  "visits all v p \<longleftrightarrow> all \<or> bs_has (rn_dirty v) (fst p)"

definition fresh :: "'a \<Rightarrow> bool \<Rightarrow> 'a Renderer \<Rightarrow> nat \<times> 'a Fragment \<Rightarrow> bool" where
  "fresh s all v p \<longleftrightarrow> visits all v p
     \<and> (\<exists>html. callRender (snd p) s = Inr html \<and> (all \<or> rg_hash (rn_reg v) html \<noteq> rn_hashes v ! fst p))"

definition visited :: "bool \<Rightarrow> 'a Renderer \<Rightarrow> (nat \<times> 'a Fragment) list \<Rightarrow> 'a Renderer" where
  "visited all v ps = v\<lparr>rn_dirty := fold (\<lambda>i b. bs_clear b i) (map fst (filter (visits all v) ps)) (rn_dirty v)\<rparr>"

definition sent :: "'a \<Rightarrow> bool \<Rightarrow> 'a Renderer \<Rightarrow> (nat \<times> 'a Fragment) list \<Rightarrow> RenderResult \<Rightarrow> RenderResult" where
  "sent s all v ps res =
     (let out = filter (fresh s all v) ps
      in res\<lparr>rs_Updates := rs_Updates res @ map (\<lambda>p. morph (fg_ID (snd p)) (html_of s (snd p))) out,
             rs_updated := rs_updated res @ map fst out,
             rs_hashes := rs_hashes res @ map (\<lambda>p. rg_hash (rn_reg v) (html_of s (snd p))) out\<rparr>)"

definition same_sent :: "RenderResult \<Rightarrow> RenderResult \<Rightarrow> bool" where
  "same_sent r q \<longleftrightarrow> rs_Updates r = rs_Updates q \<and> rs_updated r = rs_updated q \<and> rs_hashes r = rs_hashes q
     \<and> rs_collections r = rs_collections q"

lemma static_fragment:
  assumes "fg_Children f = None"
  shows "fst (render_fragment s all (i, f) (v, res)) = (if visits all v (i, f) then v\<lparr>rn_dirty := bs_clear (rn_dirty v) i\<rparr> else v)"
    and "same_sent (snd (render_fragment s all (i, f) (v, res))) (sent s all v [(i, f)] res)"
  using assms
  by (auto simp: render_fragment_def render_static_def visits_def fresh_def sent_def same_sent_def html_of_def Let_def
      add_failure_def add_suppressed_def add_update_def add_hash_def split: sum.split)

lemma static_pass:
  assumes "list_all (\<lambda>p. fg_Children (snd p) = None) ps" "distinct (map fst ps)"
    and "list_all (\<lambda>p. fst p < bs_capacity (rn_dirty v)) ps" "same_sent res q"
  shows "fst (fold (render_fragment s all) ps (v, res)) = visited all v ps
       \<and> same_sent (snd (fold (render_fragment s all) ps (v, res))) (sent s all v ps q)"
  using assms
proof (induction ps arbitrary: v res q)
  case Nil
  then show ?case by (simp add: visited_def sent_def same_sent_def)
next
  case (Cons p ps)
  obtain i f where p: "p = (i, f)" by fastforce
  obtain v1 r1 where one: "render_fragment s all (i, f) (v, res) = (v1, r1)" by fastforce
  have f: "fg_Children f = None" using Cons.prems(1) by (simp add: p)
  have v1: "v1 = (if visits all v (i, f) then v\<lparr>rn_dirty := bs_clear (rn_dirty v) i\<rparr> else v)"
    and r1: "same_sent r1 (sent s all v [(i, f)] res)"
    using static_fragment [OF f, of s all i v res] one by simp_all
  have cap: "bs_capacity (rn_dirty v1) = bs_capacity (rn_dirty v)"
    by (simp add: v1 bits.capacity_clear)
  have q1: "same_sent r1 (sent s all v [(i, f)] q)"
    using r1 Cons.prems(4) by (auto simp: same_sent_def sent_def Let_def)
  have vis: "visits all v1 x = visits all v x" "fresh s all v1 x = fresh s all v x" if "x \<in> set ps" for x
  proof -
    have "fst x \<noteq> i" "fst x < bs_capacity (rn_dirty v)" "i < bs_capacity (rn_dirty v)"
      using that Cons.prems(2,3) by (auto simp: p list_all_iff)
    then show "visits all v1 x = visits all v x" by (simp add: visits_def v1 bits.has_clear)
    then show "fresh s all v1 x = fresh s all v x" by (simp add: fresh_def v1)
  qed
  have eq: "filter (visits all v1) ps = filter (visits all v) ps" "filter (fresh s all v1) ps = filter (fresh s all v) ps"
    using vis by (auto intro: filter_cong)
  have "fst (fold (render_fragment s all) ps (v1, r1)) = visited all v1 ps
      \<and> same_sent (snd (fold (render_fragment s all) ps (v1, r1))) (sent s all v1 ps (sent s all v [(i, f)] q))"
    using Cons.prems q1 by (intro Cons.IH) (simp_all add: cap p)
  moreover have "visited all v1 ps = visited all v (p # ps)"
    unfolding visited_def eq by (simp add: v1 p)
  moreover have "sent s all v1 ps (sent s all v [(i, f)] q) = sent s all v (p # ps) q"
    by (simp add: sent_def eq p Let_def) (simp add: v1)
  ultimately show ?case by (simp add: p one)
qed

lemma commit_hashes_length: "length (commit_hashes is hs old) = length old"
  by (induction "is" hs old rule: commit_hashes.induct) simp_all

lemma commit_hashes_other:
  "j \<notin> fst ` set ps \<Longrightarrow> commit_hashes (map fst ps) (map h ps) old ! j = old ! j"
  by (induction ps arbitrary: old) auto

lemma commit_hashes_new:
  "distinct (map fst ps) \<Longrightarrow> p \<in> set ps \<Longrightarrow> fst p < length old \<Longrightarrow>
     commit_hashes (map fst ps) (map h ps) old ! fst p = h p"
  by (induction ps arbitrary: old) (auto simp: commit_hashes_other)

lemma show_morph: "show_update (morph name html) page = page(name \<mapsto> html)"
  by (simp add: show_update_def morph_def)

lemma show_updates_other:
  "name \<notin> (\<lambda>p. fg_ID (snd p)) ` set ps \<Longrightarrow>
     fold show_update (map (\<lambda>p. morph (fg_ID (snd p)) (h (snd p))) ps) page name = page name"
  by (induction ps arbitrary: page) (auto simp: show_morph)

lemma show_updates_new:
  "distinct (map (\<lambda>p. fg_ID (snd p)) ps) \<Longrightarrow> p \<in> set ps \<Longrightarrow>
     fold show_update (map (\<lambda>p. morph (fg_ID (snd p)) (h (snd p))) ps) page (fg_ID (snd p)) = Some (h (snd p))"
  by (induction ps arbitrary: page) (auto simp: show_morph show_updates_other)

text \<open>The fragments of a static registry with their positions.\<close>

definition numbered_frags :: "'a Registry \<Rightarrow> (nat \<times> 'a Fragment) list" where
  "numbered_frags reg = enumerate 0 (rg_frags reg)"

lemma numbered_frags:
  assumes "static_registry reg"
  shows "distinct (map fst (numbered_frags reg))" "list_all (\<lambda>p. fg_Children (snd p) = None) (numbered_frags reg)"
    and "distinct (map (\<lambda>p. fg_ID (snd p)) (numbered_frags reg))"
    and "p \<in> set (numbered_frags reg) \<longleftrightarrow> fst p < length (rg_frags reg) \<and> snd p = rg_frags reg ! fst p"
proof -
  show "p \<in> set (numbered_frags reg) \<longleftrightarrow> fst p < length (rg_frags reg) \<and> snd p = rg_frags reg ! fst p" for p
    by (cases p) (auto simp: numbered_frags_def in_set_enumerate_eq)
  have "map (\<lambda>p. fg_ID (snd p)) (numbered_frags reg) = map fg_ID (map snd (numbered_frags reg))" by simp
  then show "distinct (map (\<lambda>p. fg_ID (snd p)) (numbered_frags reg))"
    using assms by (simp add: numbered_frags_def static_registry_def)
  show "list_all (\<lambda>p. fg_Children (snd p) = None) (numbered_frags reg)"
    using assms by (auto simp: numbered_frags_def static_registry_def list_all_iff in_set_enumerate_eq)
qed (simp add: numbered_frags_def)

subsection \<open>A pass, sent or lost\<close>

definition deliver :: "'a \<Rightarrow> bool \<Rightarrow> 'a Renderer \<Rightarrow> page \<Rightarrow> 'a Renderer \<times> page" where
  "deliver s all v page =
     (let (v', res) = render_pass s all v
      in (Renderer_Commit res v', fold show_update (rs_Updates res) page))"

definition lose :: "'a \<Rightarrow> bool \<Rightarrow> 'a Renderer \<Rightarrow> 'a Renderer" where
  "lose s all v = (let (v', res) = render_pass s all v in Renderer_Discard res v')"

fun shown_hash :: "'a Registry \<Rightarrow> string option \<Rightarrow> 64 word \<Rightarrow> bool" where
  "shown_hash reg None h \<longleftrightarrow> h = 0"
| "shown_hash reg (Some html) h \<longleftrightarrow> html \<in> outputs reg \<and> h = rg_hash reg html"

definition page_ok :: "'a Registry \<Rightarrow> 'a \<Rightarrow> 'a Renderer \<Rightarrow> page \<Rightarrow> bool" where
  "page_ok reg s v page \<longleftrightarrow>
     rn_reg v = reg \<and> length (rg_frags reg) \<le> bs_capacity (rn_dirty v) \<and> length (rn_hashes v) = length (rg_frags reg)
     \<and> (\<forall>i<length (rg_frags reg).
          shown_hash reg (page (fg_ID (rg_frags reg ! i))) (rn_hashes v ! i)
        \<and> (\<not> bs_has (rn_dirty v) i \<longrightarrow>
             (\<forall>html. callRender (rg_frags reg ! i) s = Inr html \<longrightarrow> page (fg_ID (rg_frags reg ! i)) = Some html)))"

lemma pass_static:
  assumes "static_registry reg" "rn_reg v = reg" "length (rg_frags reg) \<le> bs_capacity (rn_dirty v)"
  shows "fst (render_pass s all v) = visited all v (numbered_frags reg)"
    and "same_sent (snd (render_pass s all v)) (sent s all v (numbered_frags reg) zeroResult)"
proof -
  have "list_all (\<lambda>p. fst p < bs_capacity (rn_dirty v)) (numbered_frags reg)"
    using numbered_frags(4) [OF assms(1)] assms(3) by (auto simp: list_all_iff)
  from static_pass [OF numbered_frags(2) [OF assms(1)] numbered_frags(1) [OF assms(1)] this, of zeroResult zeroResult s all]
  show "fst (render_pass s all v) = visited all v (numbered_frags reg)"
    and "same_sent (snd (render_pass s all v)) (sent s all v (numbered_frags reg) zeroResult)"
    by (simp_all add: render_pass_def numbered_frags_def [symmetric] assms(2) same_sent_def)
qed

lemma visited_has:
  assumes "static_registry reg" "length (rg_frags reg) \<le> bs_capacity (rn_dirty v)" "i < length (rg_frags reg)"
  shows "\<not> bs_has (rn_dirty (visited all v (numbered_frags reg))) i"
proof -
  have mem: "p \<in> set (numbered_frags reg) \<longleftrightarrow> fst p < length (rg_frags reg) \<and> snd p = rg_frags reg ! fst p" for p
    by (rule numbered_frags(4) [OF assms(1)])
  have "list_all (\<lambda>j. j < bs_capacity (rn_dirty v)) (map fst (filter (visits all v) (numbered_frags reg)))"
    using assms(2) mem by (auto simp: list_all_iff)
  moreover have "i \<in> fst ` set (filter (visits all v) (numbered_frags reg))" if "bs_has (rn_dirty v) i"
    using that mem [of "(i, rg_frags reg ! i)"] assms(3) by (force simp: visits_def)
  ultimately show ?thesis using assms(2,3) by (auto simp: visited_def bits.has_clears)
qed

lemma fresh_out:
  assumes "static_registry reg"
  shows "distinct (map fst (filter (fresh s all v) (numbered_frags reg)))"
    and "distinct (map (\<lambda>p. fg_ID (snd p)) (filter (fresh s all v) (numbered_frags reg)))"
    and "i < length (rg_frags reg) \<Longrightarrow>
      i \<in> fst ` set (filter (fresh s all v) (numbered_frags reg)) \<longleftrightarrow> fresh s all v (i, rg_frags reg ! i)"
    and "i < length (rg_frags reg) \<Longrightarrow>
      fg_ID (rg_frags reg ! i) \<in> (\<lambda>p. fg_ID (snd p)) ` set (filter (fresh s all v) (numbered_frags reg))
        \<longleftrightarrow> fresh s all v (i, rg_frags reg ! i)"
proof -
  note mem = numbered_frags(4) [OF assms]
  show "distinct (map fst (filter (fresh s all v) (numbered_frags reg)))"
    "distinct (map (\<lambda>p. fg_ID (snd p)) (filter (fresh s all v) (numbered_frags reg)))"
    using numbered_frags(1,3) [OF assms] by (simp_all add: distinct_map_filter)
  assume i: "i < length (rg_frags reg)"
  show "i \<in> fst ` set (filter (fresh s all v) (numbered_frags reg)) \<longleftrightarrow> fresh s all v (i, rg_frags reg ! i)"
    using i mem by (force simp: image_iff)
  have inj: "fg_ID (rg_frags reg ! i) = fg_ID (rg_frags reg ! j) \<Longrightarrow> j < length (rg_frags reg) \<Longrightarrow> i = j" for j
    using assms i by (auto simp: static_registry_def distinct_conv_nth)
  show "fg_ID (rg_frags reg ! i) \<in> (\<lambda>p. fg_ID (snd p)) ` set (filter (fresh s all v) (numbered_frags reg))
        \<longleftrightarrow> fresh s all v (i, rg_frags reg ! i)"
  proof
    assume "fg_ID (rg_frags reg ! i) \<in> (\<lambda>p. fg_ID (snd p)) ` set (filter (fresh s all v) (numbered_frags reg))"
    then obtain p where p: "p \<in> set (numbered_frags reg)" "fresh s all v p" "fg_ID (rg_frags reg ! i) = fg_ID (snd p)" by auto
    then have "i = fst p" "snd p = rg_frags reg ! fst p" using mem [of p] inj [of "fst p"] by auto
    then have "p = (i, rg_frags reg ! i)" by (simp add: prod_eq_iff)
    with p show "fresh s all v (i, rg_frags reg ! i)" by simp
  next
    assume "fresh s all v (i, rg_frags reg ! i)"
    then show "fg_ID (rg_frags reg ! i) \<in> (\<lambda>p. fg_ID (snd p)) ` set (filter (fresh s all v) (numbered_frags reg))"
      using mem [of "(i, rg_frags reg ! i)"] i by force
  qed
qed


lemma deliver_parts:
  assumes "static_registry reg" "rn_reg v = reg" "length (rg_frags reg) \<le> bs_capacity (rn_dirty v)"
    and "deliver s all v page = (v', page')" and "out = filter (fresh s all v) (numbered_frags reg)"
  shows "v' = (visited all v (numbered_frags reg))
      \<lparr>rn_hashes := commit_hashes (map fst out) (map (\<lambda>p. rg_hash reg (html_of s (snd p))) out) (rn_hashes v)\<rparr>"
    and "page' = fold show_update (map (\<lambda>p. morph (fg_ID (snd p)) (html_of s (snd p))) out) page"
  using pass_static [OF assms(1-3), of s all] assms(2,4,5)
  by (auto simp: deliver_def Renderer_Commit_def same_sent_def sent_def zeroResult_def Let_def visited_def split: prod.splits)

text \<open>What becomes of one fragment in a pass that was sent.\<close>

lemma deliver_fragment:
  assumes "static_registry reg" "rn_reg v = reg" "length (rg_frags reg) \<le> bs_capacity (rn_dirty v)"
    and "deliver s all v page = (v', page')" and "i < length (rg_frags reg)" "length (rn_hashes v) = length (rg_frags reg)"
    and "f = rg_frags reg ! i"
  shows "page' (fg_ID f) = (if fresh s all v (i, f) then Some (html_of s f) else page (fg_ID f))"
    and "rn_hashes v' ! i = (if fresh s all v (i, f) then rg_hash reg (html_of s f) else rn_hashes v ! i)"
    and "\<not> bs_has (rn_dirty v') i"
proof -
  define out where "out = filter (fresh s all v) (numbered_frags reg)"
  note parts = deliver_parts [OF assms(1-4) out_def]
  note fresh = fresh_out [OF assms(1), where s = s and all = all and v = v, folded out_def]
  have mem: "(i, f) \<in> set out \<longleftrightarrow> fresh s all v (i, f)"
    using numbered_frags(4) [OF assms(1), of "(i, f)"] assms(5,7) by (auto simp: out_def)
  show "page' (fg_ID f) = (if fresh s all v (i, f) then Some (html_of s f) else page (fg_ID f))"
    using show_updates_new [OF fresh(2), of "(i, f)" "html_of s" page] show_updates_other [of "fg_ID f" out "html_of s" page]
      mem fresh(4) [OF assms(5)] assms(7) by (simp add: parts(2))
  show "rn_hashes v' ! i = (if fresh s all v (i, f) then rg_hash reg (html_of s f) else rn_hashes v ! i)"
    using commit_hashes_new [OF fresh(1), of "(i, f)" "rn_hashes v" "\<lambda>p. rg_hash reg (html_of s (snd p))"]
      commit_hashes_other [of i out "\<lambda>p. rg_hash reg (html_of s (snd p))" "rn_hashes v"]
      mem fresh(3) [OF assms(5)] assms(5-7) by (simp add: parts(1))
  show "\<not> bs_has (rn_dirty v') i"
    using visited_has [OF assms(1,3,5), of all] by (simp add: parts(1))
qed

lemma fresh_html: "fresh s all v (i, f) \<Longrightarrow> callRender f s = Inr (html_of s f)"
  by (auto simp: fresh_def html_of_def)

lemma visited_capacity: "bs_capacity (rn_dirty (visited all v ps)) = bs_capacity (rn_dirty v)"
  by (simp add: visited_def bits.capacity_clears)

text \<open>A rendered fragment that was not sent was on the page already.\<close>

lemma suppressed_shown:
  assumes "hash_ok reg" "page_ok reg s v page" "i < length (rg_frags reg)" "f = rg_frags reg ! i"
    and "callRender f s = Inr html" "\<not> fresh s all v (i, f)"
  shows "page (fg_ID f) = Some html"
proof (cases "visits all v (i, f)")
  case False
  then show ?thesis using assms by (auto simp: page_ok_def visits_def)
next
  case True
  then have h: "rg_hash reg html = rn_hashes v ! i" using assms by (auto simp: fresh_def page_ok_def)
  have out: "html \<in> outputs reg" using assms(3-5) by (auto simp: outputs_def intro!: bexI [of _ f])
  then have "rn_hashes v ! i \<noteq> 0" using assms(1) h by (force simp: hash_ok_def)
  then obtain old where old: "page (fg_ID f) = Some old" "old \<in> outputs reg" "rg_hash reg old = rn_hashes v ! i"
    using assms(2-4) by (cases "page (fg_ID f)") (auto simp: page_ok_def)
  then have "old = html" using assms(1) h out by (auto simp: hash_ok_def inj_on_def)
  with old show ?thesis by simp
qed

lemma deliver_ok:
  assumes "static_registry reg" "hash_ok reg" "page_ok reg s v page" "deliver s all v page = (v', page')"
  shows "page_ok reg s v' page'"
proof -
  have v: "rn_reg v = reg" "length (rg_frags reg) \<le> bs_capacity (rn_dirty v)" "length (rn_hashes v) = length (rg_frags reg)"
    using assms(3) by (simp_all add: page_ok_def)
  note parts = deliver_parts [OF assms(1) v(1,2) assms(4) refl]
  have "rn_reg v' = reg" "length (rg_frags reg) \<le> bs_capacity (rn_dirty v')" "length (rn_hashes v') = length (rg_frags reg)"
    using v by (simp_all add: parts(1) visited_capacity commit_hashes_length) (simp add: visited_def)
  moreover have "shown_hash reg (page' (fg_ID (rg_frags reg ! i))) (rn_hashes v' ! i)
        \<and> (callRender (rg_frags reg ! i) s = Inr html \<longrightarrow> page' (fg_ID (rg_frags reg ! i)) = Some html)"
    if i: "i < length (rg_frags reg)" for i html
  proof (cases "fresh s all v (i, rg_frags reg ! i)")
    case True
    then have "html_of s (rg_frags reg ! i) \<in> outputs reg"
      using fresh_html [OF True] i by (auto simp: outputs_def intro!: bexI [of _ "rg_frags reg ! i"])
    then show ?thesis
      using True fresh_html [OF True] deliver_fragment [OF assms(1) v(1,2) assms(4) i v(3) refl] by simp
  next
    case False
    then show ?thesis
      using deliver_fragment [OF assms(1) v(1,2) assms(4) i v(3) refl] assms(3) i
        suppressed_shown [OF assms(2,3) i refl _ False]
      by (simp add: page_ok_def)
  qed
  ultimately show ?thesis by (simp add: page_ok_def)
qed

lemma lose_dirty:
  assumes "static_registry reg" "rn_reg v = reg" "length (rg_frags reg) \<le> bs_capacity (rn_dirty v)"
  shows "\<exists>b. lose s all v = v\<lparr>rn_dirty := b\<rparr> \<and> bs_capacity b = bs_capacity (rn_dirty v)
       \<and> (\<forall>i<length (rg_frags reg). fresh s all v (i, rg_frags reg ! i) \<longrightarrow> bs_has b i)"
proof -
  define out where "out = filter (fresh s all v) (numbered_frags reg)"
  have puts: "fold set_dirty is x = x\<lparr>rn_dirty := fold (\<lambda>i b. bs_set b i) is (rn_dirty x)\<rparr>" for "is" and x :: "'a Renderer"
    by (induction "is" arbitrary: x) (simp_all add: set_dirty_def)
  have l: "lose s all v = v\<lparr>rn_dirty := fold (\<lambda>i b. bs_set b i) (map fst out) (rn_dirty (visited all v (numbered_frags reg)))\<rparr>"
    using pass_static [OF assms, of s all]
    by (auto simp: lose_def Renderer_Discard_def same_sent_def sent_def zeroResult_def out_def puts visited_def Let_def split: prod.splits)
  have cap: "bs_capacity (rn_dirty (visited all v (numbered_frags reg))) = bs_capacity (rn_dirty v)" by (rule visited_capacity)
  have below: "list_all (\<lambda>i. i < bs_capacity (rn_dirty v)) (map fst out)"
    using numbered_frags(4) [OF assms(1)] assms(3) by (auto simp: out_def list_all_iff)
  have "i \<in> set (map fst out)" if "fresh s all v (i, rg_frags reg ! i)" "i < length (rg_frags reg)" for i
    using that fresh_out(3) [OF assms(1) that(2)] by (simp add: out_def)
  then show ?thesis
    using assms(3) below by (auto simp: l cap bits.capacity_puts bits.has_puts)
qed

lemma lose_ok:
  assumes "static_registry reg" "hash_ok reg" "page_ok reg s v page"
  shows "page_ok reg s (lose s all v) page"
proof -
  obtain b where b: "lose s all v = v\<lparr>rn_dirty := b\<rparr>" "bs_capacity b = bs_capacity (rn_dirty v)"
    and put: "\<And>i. i < length (rg_frags reg) \<Longrightarrow> fresh s all v (i, rg_frags reg ! i) \<Longrightarrow> bs_has b i"
    using lose_dirty [OF assms(1), of v s all] assms(3) by (auto simp: page_ok_def)
  show ?thesis
    using assms(3) suppressed_shown [OF assms(2,3) _ refl] put by (auto simp: page_ok_def b)
qed

subsection \<open>A transition\<close>

lemma mark_static:
  assumes "list_all (\<lambda>p. fg_Children (snd p) = None) ps"
  shows "fst (mark_loop s t ps v) =
    v\<lparr>rn_dirty := fold (\<lambda>i b. bs_set b i) (map fst (filter (\<lambda>p. fst (callDirty (snd p) s t)) ps)) (rn_dirty v)\<rparr>"
  using assms
proof (induction ps arbitrary: v)
  case (Cons p ps)
  then show ?case
    by (cases p) (simp add: mark_fragment_def set_dirty_def Let_def case_prod_unfold)
qed simp

lemma mark_ok:
  assumes "static_registry reg" "sound_dirty reg" "page_ok reg s v page"
  shows "page_ok reg t (fst (Renderer_Mark s t v)) page"
proof -
  let ?out = "filter (\<lambda>p. fst (callDirty (snd p) s t)) (numbered_frags reg)"
  have v: "rn_reg v = reg" "length (rg_frags reg) \<le> bs_capacity (rn_dirty v)" using assms(3) by (simp_all add: page_ok_def)
  have m: "fst (Renderer_Mark s t v) = v\<lparr>rn_dirty := fold (\<lambda>i b. bs_set b i) (map fst ?out) (rn_dirty v)\<rparr>"
    using mark_static [OF numbered_frags(2) [OF assms(1)], of s t v] by (simp add: Renderer_Mark_def numbered_frags_def v)
  have below: "list_all (\<lambda>i. i < bs_capacity (rn_dirty v)) (map fst ?out)"
    using numbered_frags(4) [OF assms(1)] v(2) by (auto simp: list_all_iff)
  have has: "bs_has (rn_dirty (fst (Renderer_Mark s t v))) i \<longleftrightarrow> i \<in> fst ` set ?out \<or> bs_has (rn_dirty v) i"
    if "i < length (rg_frags reg)" for i
    using that v(2) below by (simp add: m bits.has_puts)
  have same: "callRender (rg_frags reg ! i) t = callRender (rg_frags reg ! i) s"
    if "i < length (rg_frags reg)" "\<not> bs_has (rn_dirty (fst (Renderer_Mark s t v))) i" for i
  proof -
    have "(i, rg_frags reg ! i) \<in> set (numbered_frags reg)"
      using numbered_frags(4) [OF assms(1), of "(i, rg_frags reg ! i)"] that(1) by simp
    then have "\<not> fst (callDirty (rg_frags reg ! i) s t)"
      using that(2) unfolding has [OF that(1)] by (force simp: image_iff)
    then show ?thesis using assms(2) that(1) by (simp add: sound_dirty_def)
  qed
  show ?thesis
    using assms(3) same has by (auto simp: page_ok_def m bits.capacity_puts)
qed

lemma page_ok_new:
  assumes "static_registry reg" "rn_reg v = reg" "\<And>i. i < length (rg_frags reg) \<Longrightarrow> bs_has (rn_dirty v) i"
    and "rn_hashes v = replicate (length (rg_frags reg)) 0" "length (rg_frags reg) \<le> bs_capacity (rn_dirty v)"
  shows "page_ok reg s v Map.empty"
  using assms by (simp add: page_ok_def)

lemma NewRenderer_ok: "static_registry reg \<Longrightarrow> page_ok reg s (NewRenderer reg) Map.empty"
proof (rule page_ok_new)
  let ?n = "length (rg_frags reg)"
  have d: "rn_dirty (NewRenderer reg) = bs_setAll (newBitset ?n) ?n"
    by (simp add: NewRenderer_def publishIDs_def MarkAll_def Let_def)
  have "dirty_positions (rn_dirty (NewRenderer reg)) = {..<?n}"
    unfolding d by (rule bs_setAll_members) (simp add: newBitset_def)
  then show "i < ?n \<Longrightarrow> bs_has (rn_dirty (NewRenderer reg)) i" for i by (auto simp: dirty_positions_def)
  show "?n \<le> bs_capacity (rn_dirty (NewRenderer reg))"
    using capacity_new [of ?n] by (simp add: d bs_capacity_def bs_setAll_def Let_def)
qed (simp_all add: NewRenderer_def publishIDs_def MarkAll_def Let_def)

end
