(* ===== verification/Live_Coherence.thy ===== *)
theory Live_Coherence
  imports Live_Page Live_Wire Live_Demo
begin

text \<open>
  The page of a client that applied every frame of its session, and the state of the session.
  The contract of the render path (\<open>Live_Page\<close>) is carried through the actor: a fragment that
  is not dirty shows the rendering of the current state.
\<close>

subsection \<open>The page behind the frames\<close>

definition show_wire :: "Update \<Rightarrow> page \<Rightarrow> page" where
  "show_wire u page = page(up_FragmentID u \<mapsto> up_HTML u)"

fun frame_page :: "Payload option \<Rightarrow> page \<Rightarrow> page" where
  "frame_page (Some (Frame_Patch c o' us)) page = fold show_wire us page"
| "frame_page (Some (Frame_Snapshot c o' p us s)) page = fold show_wire us page"
| "frame_page p page = page"

definition client_page :: "Frame list \<Rightarrow> page" where
  "client_page fs = fold (frame_page \<circ> fr_Payload) fs Map.empty"

lemma show_wire_updates: "fold show_wire (toWireUpdates us) page = fold show_update us page"
  by (induction us arbitrary: page) (simp_all add: toWireUpdates_def show_wire_def show_update_def)

lemma client_page_append:
  "client_page (fs @ [NewPatch s c o' (toWireUpdates us)]) = fold show_update us (client_page fs)"
  "client_page (fs @ [NewSnapshot s c o' p su (toWireUpdates us)]) = fold show_update us (client_page fs)"
  "\<not> sequenced f \<Longrightarrow> client_page (fs @ [f]) = client_page fs"
proof -
  show "\<not> sequenced f \<Longrightarrow> client_page (fs @ [f]) = client_page fs"
    by (cases "fr_Payload f" rule: payload_causal.cases) (simp_all add: client_page_def sequenced_def causal_of_def)
qed (simp_all add: client_page_def NewPatch_def NewSnapshot_def new_frame_def show_wire_updates)

definition coherent :: "'a Registry \<Rightarrow> 'a Actor \<Rightarrow> bool" where
  "coherent reg a \<longleftrightarrow> page_ok reg (ac_state a) (ac_view a) (client_page (ac_sent a))"

named_theorems coherent_simps \<open>operations of the actor that keep the page coherent\<close>

lemma coherent_upd [coherent_simps]:
  "coherent c (a\<lparr>ac_mailbox := x1\<rparr>) = coherent c a" "coherent c (a\<lparr>ac_acks := x2\<rparr>) = coherent c a"
  "coherent c (a\<lparr>ac_transitionID := x5\<rparr>) = coherent c a" "coherent c (a\<lparr>ac_stateVersion := x6\<rparr>) = coherent c a"
  "coherent c (a\<lparr>ac_hbNonce := x7\<rparr>) = coherent c a" "coherent c (a\<lparr>ac_panics := x8\<rparr>) = coherent c a"
  "coherent c (a\<lparr>ac_pendingOrig := x9\<rparr>) = coherent c a" "coherent c (a\<lparr>ac_pendingIDs := x10\<rparr>) = coherent c a"
  "coherent c (a\<lparr>ac_slowNotified := x11\<rparr>) = coherent c a" "coherent c (a\<lparr>ac_coalesceNotified := x12\<rparr>) = coherent c a"
  "coherent c (a\<lparr>ac_coalesceHeld := x13\<rparr>) = coherent c a" "coherent c (a\<lparr>ac_resyncBucket := x14\<rparr>) = coherent c a"
  "coherent c (a\<lparr>ac_resyncDenied := x15\<rparr>) = coherent c a" "coherent c (a\<lparr>ac_eventSeq := x16\<rparr>) = coherent c a"
  "coherent c (a\<lparr>ac_eventBucket := x17\<rparr>) = coherent c a" "coherent c (a\<lparr>ac_eventDenied := x18\<rparr>) = coherent c a"
  "coherent c (a\<lparr>ac_ingressReady := x19\<rparr>) = coherent c a" "coherent c (a\<lparr>ac_lastInbound := x20\<rparr>) = coherent c a"
  "coherent c (a\<lparr>ac_lastEvent := x21\<rparr>) = coherent c a" "coherent c (a\<lparr>ac_win := x22\<rparr>) = coherent c a"
  "coherent c (a\<lparr>ac_writes := x24\<rparr>) = coherent c a" "coherent c (a\<lparr>ac_serverSeq := x26\<rparr>) = coherent c a"
  "coherent c (a\<lparr>ac_patchID := x27\<rparr>) = coherent c a" "coherent c (a\<lparr>ac_lastSnapshotSeq := x28\<rparr>) = coherent c a"
  "coherent c (a\<lparr>ac_provenance := x25\<rparr>) = coherent c a" "coherent c (a\<lparr>ac_effects := x29\<rparr>) = coherent c a"
  "coherent c (a\<lparr>ac_closing := x30\<rparr>) = coherent c a" "coherent c (a\<lparr>ac_closed := x31\<rparr>) = coherent c a"
  by (simp_all add: coherent_def)

lemma coherent_Framer_Send:
  "\<not> sequenced f \<Longrightarrow> ac_state (fst (Framer_Send b f a)) = ac_state a \<and> ac_view (fst (Framer_Send b f a)) = ac_view a
     \<and> client_page (ac_sent (fst (Framer_Send b f a))) = client_page (ac_sent a)"
  by (auto simp: Framer_Send_def Let_def client_page_append split: sum.split)

lemma coherent_Send [coherent_simps]: "\<not> sequenced f \<Longrightarrow> coherent c (fst (Framer_Send b f a)) = coherent c a"
  by (simp add: coherent_def coherent_Framer_Send)

lemma coherent_quiet [coherent_simps]:
  "coherent c (Actor_Close code a) = coherent c a"
  "coherent c (fst (post m a)) = coherent c a"
  "coherent c (emitError b code' s e r f a) = coherent c a"
  "coherent c (provenance o' ev fs p q su a) = coherent c a"
  "coherent c (deferPatch origin a) = coherent c a"
  "coherent c (note_fullness now a) = coherent c a"
  "coherent c (push_slot ca a) = coherent c a"
  "coherent c (fst (takePending origin a)) = coherent c a"
  by (simp_all add: Actor_Close_def post_def emitError_def provenance_def deferPatch_def note_fullness_def push_slot_def
      takePending_def coherent_simps)

lemma coherent_small [coherent_simps]:
  "coherent c (redefer origin ids a) = coherent c a"
  "coherent c (synthesize now source a) = coherent c a"
  "coherent c (emitFailure now source detail retryable by' a) = coherent c a"
  "coherent c (notePanic site a) = coherent c a"
  "coherent c (enterCoalesce now origin a) = coherent c a"
  "coherent c (degrade now origin a) = coherent c a"
  "coherent c (execute now by' e a) = coherent c a"
  by (simp_all add: redefer_def synthesize_def emitFailure_def notePanic_def enterCoalesce_def degrade_def execute_def Let_def
      coherent_simps)

lemma coherent_funpow:
  fixes g :: "'a Actor \<Rightarrow> 'a Actor"
  shows "(\<And>x. coherent c (g x) = coherent c x) \<Longrightarrow> coherent c ((g ^^ n) a) = coherent c a"
  by (induction n) simp_all

lemma coherent_noteRenderFailures [coherent_simps]: "coherent c (noteRenderFailures b fs e r a) = coherent c a"
  by (simp add: noteRenderFailures_def Let_def coherent_funpow coherent_simps)

lemma coherent_runEffects [coherent_simps]: "coherent c (runEffects now es by' a) = coherent c a"
  unfolding runEffects_def by (induction es arbitrary: a) (simp_all add: coherent_simps)

subsection \<open>Render passes in the actor\<close>

text \<open>
  A pass of the actor is a pass of the renderer, if need be after a discarded one; what is
  committed or discarded depends on its result up to the failures.
\<close>

lemma same_sent_commit: "same_sent r q \<Longrightarrow> Renderer_Commit r v = Renderer_Commit q v"
  by (simp add: same_sent_def Renderer_Commit_def)

lemma same_sent_discard: "same_sent r q \<Longrightarrow> Renderer_Discard r v = Renderer_Discard q v"
  by (simp add: same_sent_def Renderer_Discard_def)

lemma same_sent_refl [simp]: "same_sent r r"
  by (simp add: same_sent_def)

lemma renderPass_pass:
  assumes "static_registry reg" "hash_ok reg" "renderPass all a = (a', res)"
    and "page_ok reg (ac_state a) (ac_view a) page"
  obtains v0 b where "page_ok reg (ac_state a) v0 page"
    and "a' = a\<lparr>ac_view := fst (render_pass (ac_state a) b v0)\<rparr>"
    and "same_sent res (snd (render_pass (ac_state a) b v0))"
proof (cases all)
  case True
  then show ?thesis using assms(3,4) that [of "ac_view a" True]
    by (auto simp: renderPass_def RenderAll_def split: prod.splits)
next
  case False
  obtain v q where q: "render_pass (ac_state a) False (ac_view a) = (v, q)" by fastforce
  obtain v1 q1 where q1: "render_pass (ac_state a) True (Renderer_Discard q v) = (v1, q1)" by fastforce
  have "Renderer_Discard q v = lose (ac_state a) False (ac_view a)" by (simp add: lose_def q)
  then have ok: "page_ok reg (ac_state a) (Renderer_Discard q v) page"
    using lose_ok [OF assms(1,2,4)] by simp
  have res: "(a', res) = (a\<lparr>ac_view := v\<rparr>, q) \<or>
      (a', res) = (a\<lparr>ac_view := v1\<rparr>, q1\<lparr>rs_Failed := rs_Failed q @ rs_Failed q1\<rparr>)"
    using assms(3) False q q1 by (auto simp: renderPass_def Renderer_Render_def RenderAll_def split: if_splits)
  then show ?thesis
  proof
    assume "(a', res) = (a\<lparr>ac_view := v\<rparr>, q)"
    then show ?thesis using that [of "ac_view a" False] assms(4) q by simp
  next
    assume "(a', res) = (a\<lparr>ac_view := v1\<rparr>, q1\<lparr>rs_Failed := rs_Failed q @ rs_Failed q1\<rparr>)"
    then show ?thesis using that [OF ok, of True] q1 by (simp add: same_sent_def)
  qed
qed

lemma Actor_send_view:
  assumes "Actor_send b f c a = (a', None)"
  shows "ac_view a' = ac_view a \<and> ac_state a' = ac_state a \<and> client_page (ac_sent a') = client_page (ac_sent a)"
proof -
  obtain a1 r where r: "Framer_Send b f a = (a1, r)" by fastforce
  then obtain e where e: "r = Inl e" using assms by (cases r) (auto simp: Actor_send_def)
  have "ac_view a1 = ac_view a \<and> ac_state a1 = ac_state a \<and> ac_sent a1 = ac_sent a"
    using r e by (auto simp: Framer_Send_def Let_def split: sum.splits)
  moreover have "ac_view a' = ac_view a1 \<and> ac_state a' = ac_state a1 \<and> client_page (ac_sent a') = client_page (ac_sent a1)"
    using assms r e by (cases e) (auto simp: Actor_send_def emitError_def Actor_Close_def coherent_Framer_Send)
  ultimately show ?thesis by simp
qed

lemma same_sent_updates: "same_sent r q \<Longrightarrow> rs_Updates q = rs_Updates r"
  by (simp add: same_sent_def)

text \<open>A pass of which nothing was left to send.\<close>

lemma nothing_to_send:
  assumes "static_registry reg" "hash_ok reg" "page_ok reg s v0 page"
    and "rs_Updates (snd (render_pass s b v0)) = []"
  shows "page_ok reg s (fst (render_pass s b v0)) page"
proof -
  obtain v1 q where q: "render_pass s b v0 = (v1, q)" by fastforce
  have "same_sent q (sent s b v0 (numbered_frags reg) zeroResult)"
    using pass_static(2) [OF assms(1), of v0 s b] assms(3) by (simp add: page_ok_def q)
  then have "rs_updated q = []" "rs_hashes q = []" "rs_collections q = []"
    using assms(4) by (auto simp: q same_sent_def sent_def Let_def zeroResult_def)
  then have "deliver s b v0 page = (v1, page)"
    using assms(4) by (simp add: deliver_def q Renderer_Commit_def)
  from deliver_ok [OF assms(1,2,3) this] show ?thesis by (simp add: q)
qed

lemma emit_now_coherent:
  assumes "static_registry reg" "hash_ok reg" "coherent reg a"
  shows "coherent reg (emit_now b origin ev a)"
proof -
  obtain a1 ids where t: "takePending origin (a\<lparr>ac_coalesceHeld := False\<rparr>) = (a1, ids)" by fastforce
  obtain a2 res where r: "renderPass False a1 = (a2, res)" by fastforce
  have "coherent reg a1"
    using coherent_quiet(8) [of reg origin "a\<lparr>ac_coalesceHeld := False\<rparr>"] assms(3) by (simp add: t coherent_simps)
  then have ok: "page_ok reg (ac_state a1) (ac_view a1) (client_page (ac_sent a1))" by (simp add: coherent_def)
  obtain v0 p where v0: "page_ok reg (ac_state a1) v0 (client_page (ac_sent a1))"
    and a2: "a2 = a1\<lparr>ac_view := fst (render_pass (ac_state a1) p v0)\<rparr>"
    and res: "same_sent res (snd (render_pass (ac_state a1) p v0))"
    by (rule renderPass_pass [OF assms(1,2) r ok])
  obtain v1 q where q: "render_pass (ac_state a1) p v0 = (v1, q)" by fastforce
  let ?o = "origin\<lparr>og_Contributing := unionEdges origin ids\<rparr>"
  let ?f = "NewPatch (ac_peer a2) (next_causal a2) ?o (toWireUpdates (rs_Updates res))"
  obtain a3 s where sent: "Actor_send b ?f (next_causal a2) a2 = (a3, s)" by fastforce
  have lost: "coherent reg (a3\<lparr>ac_view := Renderer_Discard res (ac_view a3)\<rparr>)" if "s = None"
  proof -
    have "page_ok reg (ac_state a1) (lose (ac_state a1) p v0) (client_page (ac_sent a1))"
      by (rule lose_ok [OF assms(1,2) v0])
    then show ?thesis
      using Actor_send_view [of b ?f "next_causal a2" a2 a3] sent that res
      by (simp add: coherent_def lose_def q a2 same_sent_discard [of res q])
  qed
  have kept: "coherent reg (a3\<lparr>ac_view := Renderer_Commit res (ac_view a3)\<rparr>)" if "s = Some n" for n
  proof -
    obtain v' page' where d: "deliver (ac_state a1) p v0 (client_page (ac_sent a1)) = (v', page')" by fastforce
    have "page_ok reg (ac_state a1) v' page'" by (rule deliver_ok [OF assms(1,2) v0 d])
    moreover have "v' = Renderer_Commit q v1" "page' = fold show_update (rs_Updates q) (client_page (ac_sent a1))"
      using d by (simp_all add: deliver_def q)
    ultimately show ?thesis
      using Actor_send_Some(2) [of b ?f "next_causal a2" a2 a3 n] sent that res
      by (simp add: coherent_def q a2 same_sent_commit [of res q] client_page_append same_sent_updates [of res q])
  qed
  have still: "coherent reg a2" if "rs_Updates res = []"
    using nothing_to_send [OF assms(1,2) v0, of p] that res
    by (simp add: coherent_def a2 q same_sent_updates [of res q])
  show ?thesis
    using still lost kept
    by (cases "rs_Updates res = []"; cases s)
      (simp_all add: emit_now_def t r Let_def sent coherent_simps)
qed

lemma emitPatch_coherent:
  "static_registry reg \<Longrightarrow> hash_ok reg \<Longrightarrow> coherent reg a \<Longrightarrow> coherent reg (emitPatch b now origin ev forced a)"
  by (simp add: emitPatch_def coherent_simps emit_now_coherent)


lemma emitSnapshot_coherent:
  assumes "static_registry reg" "hash_ok reg" "coherent reg a" and e: "emitSnapshot b origin su event a = (a', out)"
  shows "coherent reg a'"
proof -
  obtain a1 res where r: "renderPass True a = (a1, res)" by fastforce
  have ok: "page_ok reg (ac_state a) (ac_view a) (client_page (ac_sent a))" using assms(3) by (simp add: coherent_def)
  obtain v0 p where v0: "page_ok reg (ac_state a) v0 (client_page (ac_sent a))"
    and a1: "a1 = a\<lparr>ac_view := fst (render_pass (ac_state a) p v0)\<rparr>"
    and res: "same_sent res (snd (render_pass (ac_state a) p v0))"
    by (rule renderPass_pass [OF assms(1,2) r ok])
  obtain v1 q where q: "render_pass (ac_state a) p v0 = (v1, q)" by fastforce
  obtain a2 ids where t: "takePending origin a1 = (a2, ids)" by fastforce
  have a2: "ac_view a2 = v1" "ac_state a2 = ac_state a" "ac_sent a2 = ac_sent a"
    using t by (auto simp: takePending_def a1 q)
  let ?o = "origin\<lparr>og_Contributing := unionEdges origin ids\<rparr>"
  let ?f = "NewSnapshot (ac_peer a2) (next_causal a2) ?o (session_params (ac_lim a2)) su (toWireUpdates (rs_Updates res))"
  obtain a3 s where sent: "Actor_send b ?f (next_causal a2) a2 = (a3, s)" by fastforce
  have lost: "coherent reg (a3\<lparr>ac_view := Renderer_Discard res (ac_view a3)\<rparr>)" if "s = None"
  proof -
    have "page_ok reg (ac_state a) (lose (ac_state a) p v0) (client_page (ac_sent a))"
      by (rule lose_ok [OF assms(1,2) v0])
    then show ?thesis
      using Actor_send_view [of b ?f "next_causal a2" a2 a3] sent that res
      by (simp add: coherent_def lose_def q a2 same_sent_discard [of res q])
  qed
  have kept: "coherent reg (a3\<lparr>ac_view := Renderer_Commit res (ac_view a3)\<rparr>)" if "s = Some n" for n
  proof -
    obtain v' page' where d: "deliver (ac_state a) p v0 (client_page (ac_sent a)) = (v', page')" by fastforce
    have "page_ok reg (ac_state a) v' page'" by (rule deliver_ok [OF assms(1,2) v0 d])
    moreover have "v' = Renderer_Commit q v1" "page' = fold show_update (rs_Updates q) (client_page (ac_sent a))"
      using d by (simp_all add: deliver_def q)
    ultimately show ?thesis
      using Actor_send_Some(2) [of b ?f "next_causal a2" a2 a3 n] sent that res
      by (simp add: coherent_def q a2 same_sent_commit [of res q] client_page_append same_sent_updates [of res q])
  qed
  show ?thesis
    using e lost kept by (cases s) (auto simp: emitSnapshot_def r t Let_def sent coherent_simps)
qed

subsection \<open>The actor\<close>

lemma emit_deferred_coherent:
  "static_registry reg \<Longrightarrow> hash_ok reg \<Longrightarrow> coherent reg a \<Longrightarrow> coherent reg (emit_deferred b now a)"
  by (simp add: emit_deferred_def Let_def emitPatch_coherent)

lemma transition_coherent:
  assumes "static_registry reg" "hash_ok reg" "sound_dirty reg" "coherent reg a"
  shows "coherent reg (transition b now ev origin a)"
proof (cases "ia_Reduce (ac_app a) (ac_state a) ev")
  case (Inl panic)
  then show ?thesis
    using assms(4) by (simp add: transition_def rejectUnknownFragment_def Let_def coherent_simps)
next
  case (Inr r)
  obtain n es v fs where r: "r = (n, es)" and v: "Renderer_Mark (ac_state a) n (ac_view a) = (v, fs)" by fastforce
  have "page_ok reg n v (client_page (ac_sent a))"
    using mark_ok [OF assms(1,3), of "ac_state a" "ac_view a" "client_page (ac_sent a)" n] assms(4) by (simp add: coherent_def v)
  then have "coherent reg (emitPatch b now origin ev False
      (a\<lparr>ac_transitionID := ti, ac_state := n, ac_stateVersion := sv, ac_view := v\<rparr>))" for ti sv
    by (intro emitPatch_coherent assms) (simp add: coherent_def)
  then show ?thesis
    using Inr v assms(4) by (simp add: transition_def rejectUnknownFragment_def Let_def coherent_simps r)
qed

lemma resync_coherent:
  assumes "static_registry reg" "hash_ok reg" "coherent reg a"
  shows "coherent reg (resync b now m a)"
proof -
  obtain bucket ok where k: "bucket_allow (bd_round b) now (ac_resyncBucket a) = (bucket, ok)" by fastforce
  have snap: "coherent reg (fst (emitSnapshot b o' su ev x))" if "coherent reg x" for o' su ev and x :: "'a Actor"
    using emitSnapshot_coherent [OF assms(1,2) that] by (metis surjective_pairing)
  show ?thesis
    using assms(3) by (cases ok) (simp_all add: resync_def k Let_def coherent_simps snap)
qed

lemma Actor_step_coherent:
  "static_registry reg \<Longrightarrow> hash_ok reg \<Longrightarrow> sound_dirty reg \<Longrightarrow> coherent reg a \<Longrightarrow> coherent reg (Actor_step b now m a)"
  by (simp add: Actor_step_def transition_coherent resync_coherent split: msgKind.split)

lemma onAck_coherent:
  "static_registry reg \<Longrightarrow> hash_ok reg \<Longrightarrow> coherent reg a \<Longrightarrow> coherent reg (onAck b now seq a)"
  by (simp add: onAck_def Let_def coherent_simps emit_deferred_coherent split: prod.split option.split)

lemma coherent_beat: "coherent reg (case Framer_Send b (NewHeartbeat s n i) a of
    (y, Inl e) \<Rightarrow> Actor_Close code y | (y, Inr n) \<Rightarrow> y) = coherent reg a"
  using coherent_Send [of "NewHeartbeat s n i" reg b a]
  by (cases "Framer_Send b (NewHeartbeat s n i) a"; cases "snd (Framer_Send b (NewHeartbeat s n i) a)")
    (simp_all add: coherent_quiet(1))

lemma onTick_coherent:
  "static_registry reg \<Longrightarrow> hash_ok reg \<Longrightarrow> coherent reg a \<Longrightarrow> coherent reg (onTick b clock t a)"
  by (simp add: onTick_def Let_def coherent_simps coherent_beat emit_deferred_coherent)

lemma coherent_authorize: "Actor_authorize b ev a = (a', ok) \<Longrightarrow> coherent reg a' = coherent reg a"
  by (auto simp: Actor_authorize_def coherent_simps split: option.splits deny.splits)

lemma coherent_enqueue [coherent_simps]:
  "coherent reg (case Actor_authorize b ev a of (a, False) \<Rightarrow> a
     | (a, True) \<Rightarrow> (case post (g a) a of (a, True) \<Rightarrow> a | (a, False) \<Rightarrow> emitError b c s e i f a)) = coherent reg a"
proof -
  obtain a' r where p: "Actor_authorize b ev a = (a', r)" by fastforce
  obtain y q where o: "post (g a') a' = (y, q)" by fastforce
  show ?thesis
    using coherent_authorize [OF p, of reg] coherent_quiet(2) [of reg "g a'" a']
    by (cases r; cases q) (simp_all add: p o coherent_simps)
qed

lemma Ingress_coherent [coherent_simps]: "coherent reg (Ingress b now i a) = coherent reg a"
proof -
  have "coherent reg (ingressEvent b now r n fr s fs x) = coherent reg x" for r n fr s fs and x :: "'a Actor"
    by (cases "bucket_allow (bd_round b) now (ac_eventBucket x)"; cases "snd (bucket_allow (bd_round b) now (ac_eventBucket x))")
      (simp_all add: ingressEvent_def rejectUnknownFragment_def Let_def coherent_simps)
  moreover have "coherent reg (ingressResync b now l x) = coherent reg x" for l and x :: "'a Actor"
    by (simp add: ingressResync_def Let_def coherent_simps)
  ultimately show ?thesis
    by (cases "ib_Payload i") (simp_all add: Ingress_def Let_def ingressAck_def ingressTelemetry_def coherent_simps)
qed

lemma live_turn_coherent:
  assumes "static_registry reg" "hash_ok reg" "sound_dirty reg" "coherent reg a"
  shows "coherent reg (live_turn b x a)"
proof (cases x)
  case (Pair now i)
  have emit: "coherent reg (fst (emitter now source by' ev a)) = coherent reg a" for source by' ev
    using coherent_quiet(2) [of reg _ a] by (simp add: emitter_def split: prod.split bool.split) (metis fst_conv)
  have ends: "coherent reg (effect_ends now source by' e a) = coherent reg a" for source by' e
    by (cases e) (simp_all add: effect_ends_def Let_def coherent_simps)
  show ?thesis
    by (cases i)
      (use assms in \<open>auto simp: Pair emit ends coherent_simps Actor_step_coherent onAck_coherent onTick_coherent split: list.split\<close>)
qed

lemma live_run_coherent:
  "static_registry reg \<Longrightarrow> hash_ok reg \<Longrightarrow> sound_dirty reg \<Longrightarrow> coherent reg a \<Longrightarrow> coherent reg (live_run b inputs a)"
  unfolding live_run_def by (induction inputs arbitrary: a) (simp_all add: live_turn_coherent)

lemma live_start_coherent:
  assumes "static_registry reg" "hash_ok reg" "ia_Registry app = reg"
  shows "coherent reg (live_start b app limits peer dev now)"
proof -
  let ?n = "Actor_New b app limits peer dev now"
  have n: "ac_view ?n = NewRenderer reg" "ac_sent ?n = []" using assms(3) by (simp_all add: Actor_New_def Let_def)
  have new: "coherent reg (?n\<lparr>ac_state := s\<rparr>)" for s
    using NewRenderer_ok [OF assms(1)] by (simp add: coherent_def n client_page_def)
  show ?thesis
  proof (cases "ia_Init app")
    case (Inl err)
    have "coherent reg ?n" using NewRenderer_ok [OF assms(1)] by (simp add: coherent_def n client_page_def)
    then show ?thesis by (simp add: live_start_def mount_def Inl coherent_simps)
  next
    case (Inr se)
    obtain st es where se: "se = (st, es)" by fastforce
    let ?a = "?n\<lparr>ac_state := st, ac_transitionID := 1, ac_stateVersion := 1\<rparr>"
    obtain a' r where e: "emitSnapshot b (zeroOrigin\<lparr>og_Kind := OriginKind_MOUNT, og_Source := SourceMount\<rparr>)
        no_supersession 0 ?a = (a', r)" by fastforce
    have "coherent reg ?a" using new [of st] by (simp add: coherent_simps)
    note emitSnapshot_coherent [OF assms(1,2) this e]
    then show ?thesis by (cases r) (simp_all add: live_start_def mount_def Inr se e Let_def coherent_simps)
  qed
qed

subsection \<open>Properties\<close>


lemma demo_run_page:
  "ac_state (live_run demo_boundary demo_inputs demo_session) = 2
   \<and> rn_dirty (ac_view (live_run demo_boundary demo_inputs demo_session)) = [0]"
  by (simp add: live_eval demo_eval demo_input_eval Let_def)

lemma demo_hash_ok: "hash_ok demo_registry"
proof -
  have out: "outputs demo_registry = (\<lambda>n. replicate (n mod 8) CHR ''i'') ` UNIV"
    by (auto simp: outputs_def demo_registry_def callRender_def Let_def)
  have h: "demo_hash (replicate (n mod 8) CHR ''i'') = of_nat (Suc (n mod 8))" for n by (simp add: demo_hash_def)
  have u: "unat (of_nat (Suc (n mod 8)) :: 64 word) = Suc (n mod 8)" for n :: nat
  proof -
    have "n mod 8 < 8" by simp
    then show ?thesis by (subst unat_of_nat) (simp add: take_bit_eq_mod)
  qed
  have "Suc (m mod 8) = Suc (n mod 8)" if "(of_nat (Suc (m mod 8)) :: 64 word) = of_nat (Suc (n mod 8))" for m n :: nat
    using arg_cong [OF that, of unat] unfolding u .
  then have "inj_on demo_hash (outputs demo_registry)" unfolding out inj_on_def by (auto simp: h)
  moreover have "(of_nat (Suc (n mod 8)) :: 64 word) \<noteq> 0" for n :: nat
    using u [of n] by (metis unat_0 nat.distinct(1))
  ultimately show ?thesis unfolding hash_ok_def out by (auto simp: h demo_registry_def)
qed


end
