(* ===== verification/Live_Provenance.thy ===== *)
theory Live_Provenance
  imports Live_Demo
begin

text \<open>
  Deferred provenance: which events a session still owes to a frame, and what its emissions do
  with them.
\<close>

subsection \<open>What is owed, what is carried\<close>

definition named :: "Origin \<Rightarrow> 64 word set" where
  "named o' = (set (own_id o') \<union> set (og_Contributing o')) - {0}"

definition owed :: "'a Actor \<Rightarrow> 64 word set" where
  "owed a = (set (ac_pendingIDs a) - {0}) \<union> (case ac_pendingOrig a of None \<Rightarrow> {} | Some o' \<Rightarrow> named o')"

fun payload_origin :: "Payload option \<Rightarrow> Origin option" where
  "payload_origin (Some (Frame_Patch c o' us)) = o'"
| "payload_origin (Some (Frame_Snapshot c o' p us s)) = o'"
| "payload_origin p = None"

definition carried :: "Frame list \<Rightarrow> 64 word set" where
  "carried fs = (\<Union>f\<in>set fs. case payload_origin (fr_Payload f) of None \<Rightarrow> {} | Some o' \<Rightarrow> named o')"

lemma carried_append [simp]: "carried (fs @ gs) = carried fs \<union> carried gs"
  by (simp add: carried_def)

lemma carried_Nil [simp]: "carried [] = {}"
  by (simp add: carried_def)

lemma carried_new [simp]:
  "carried [NewPatch s c o' us] = named o'" "carried [NewSnapshot s c o' p su us] = named o'"
  "carried [NewError s code m e r f] = {}"
  by (simp_all add: carried_def NewPatch_def NewSnapshot_def NewError_def new_frame_def)

lemma own_id_set: "set (own_id o') = {og_EventID o'} - {0}"
  by (auto simp: own_id_def)

lemma set_new_ids: "set (new_ids seen xs) = set xs - insert 0 (set seen)"
  by (induction xs arbitrary: seen) auto

lemma distinct_new_ids: "distinct (new_ids seen xs)"
  by (induction xs arbitrary: seen) (auto simp: set_new_ids)

lemma named_union: "named (o'\<lparr>og_Contributing := unionEdges o' ids\<rparr>) = named o' \<union> (set ids - {0})"
  by (auto simp: named_def unionEdges_def set_new_ids own_id_def)

subsection \<open>Deferring, taking, putting back\<close>

lemma owed_upd [simp]:
  "owed (a\<lparr>ac_slowNotified := x1\<rparr>) = owed a" "owed (a\<lparr>ac_coalesceNotified := x2\<rparr>) = owed a"
  "owed (a\<lparr>ac_coalesceHeld := x3\<rparr>) = owed a" "owed (a\<lparr>ac_view := x4\<rparr>) = owed a" "owed (a\<lparr>ac_win := x5\<rparr>) = owed a"
  "owed (a\<lparr>ac_provenance := x6\<rparr>) = owed a" "owed (a\<lparr>ac_mailbox := x7\<rparr>) = owed a" "owed (a\<lparr>ac_writes := x8\<rparr>) = owed a"
  "owed (a\<lparr>ac_sent := x9\<rparr>) = owed a" "owed (a\<lparr>ac_panics := x10\<rparr>) = owed a" "owed (a\<lparr>ac_closing := x11\<rparr>) = owed a"
  "owed (a\<lparr>ac_closed := x12\<rparr>) = owed a" "owed (a\<lparr>ac_serverSeq := x13\<rparr>) = owed a" "owed (a\<lparr>ac_patchID := x14\<rparr>) = owed a"
  "owed (a\<lparr>ac_lastSnapshotSeq := x15\<rparr>) = owed a"
  by (simp_all add: owed_def)

lemma owed_deferPatch: "owed (deferPatch origin a) = owed a \<union> named origin"
  by (auto simp: owed_def deferPatch_def named_def own_id_def split: option.split)

lemma owed_takePending:
  assumes "takePending origin a = (a', ids)"
  shows "owed a' = {}" "named origin \<union> (set ids - {0}) = named origin \<union> owed a"
    and "ac_sent a' = ac_sent a" "ac_pendingIDs a' = []" "ac_pendingOrig a' = None"
  using assms by (auto simp: takePending_def owed_def named_def own_id_def split: option.splits)

lemma owed_redefer:
  assumes "ac_pendingIDs a = []" "ac_pendingOrig a = None" "length ids \<le> CoalesceFlushCeiling"
  shows "owed (redefer origin ids a) = named origin \<union> (set ids - {0})"
  using assms by (auto simp: redefer_def owed_deferPatch) (auto simp: owed_def)

text \<open>What an emission takes is no more than the raw lists hold.\<close>

definition raw_owed :: "'a Actor \<Rightarrow> nat" where
  "raw_owed a = length (ac_pendingIDs a)
     + (case ac_pendingOrig a of None \<Rightarrow> 0 | Some o' \<Rightarrow> Suc (length (og_Contributing o')))"

lemma takePending_length: "takePending origin a = (a', ids) \<Longrightarrow> length ids \<le> raw_owed a"
  by (auto simp: takePending_def raw_owed_def split: option.splits)

subsection \<open>What the rest of an emission leaves alone\<close>

definition ledger :: "'a Actor \<Rightarrow> 64 word set \<times> 64 word set" where
  "ledger a = (owed a, carried (ac_sent a))"

lemma ledger_upd [simp]:
  "ledger (a\<lparr>ac_slowNotified := x1\<rparr>) = ledger a" "ledger (a\<lparr>ac_coalesceNotified := x2\<rparr>) = ledger a"
  "ledger (a\<lparr>ac_coalesceHeld := x3\<rparr>) = ledger a" "ledger (a\<lparr>ac_view := x4\<rparr>) = ledger a" "ledger (a\<lparr>ac_win := x5\<rparr>) = ledger a"
  "ledger (a\<lparr>ac_provenance := x6\<rparr>) = ledger a" "ledger (a\<lparr>ac_mailbox := x7\<rparr>) = ledger a" "ledger (a\<lparr>ac_writes := x8\<rparr>) = ledger a"
  "ledger (a\<lparr>ac_panics := x10\<rparr>) = ledger a" "ledger (a\<lparr>ac_closing := x11\<rparr>) = ledger a" "ledger (a\<lparr>ac_closed := x12\<rparr>) = ledger a"
  "ledger (a\<lparr>ac_serverSeq := x13\<rparr>) = ledger a" "ledger (a\<lparr>ac_patchID := x14\<rparr>) = ledger a"
  "ledger (a\<lparr>ac_lastSnapshotSeq := x15\<rparr>) = ledger a"
  by (simp_all add: ledger_def)

lemma ledger_emitError [simp]: "ledger (emitError b c s e r f a) = ledger a"
  by (auto simp: emitError_def Framer_Send_def Let_def ledger_def split: sum.split)

lemma ledger_small [simp]:
  "ledger (Actor_Close code a) = ledger a" "ledger (provenance o' ev fs p q su a) = ledger a"
  "ledger (synthesize now source a) = ledger a" "ledger (note_fullness now a) = ledger a"
  "ledger (notePanic site a) = ledger a" "ledger (push_slot c a) = ledger a"
  by (simp_all add: Actor_Close_def provenance_def synthesize_def post_def note_fullness_def notePanic_def push_slot_def Let_def)

lemma ledger_funpow:
  fixes g :: "'a Actor \<Rightarrow> 'a Actor"
  shows "(\<And>x. ledger (g x) = ledger x) \<Longrightarrow> ledger ((g ^^ n) a) = ledger a"
  by (induction n) simp_all

lemma ledger_failures [simp]: "ledger (noteRenderFailures b fs e r a) = ledger a"
  by (simp add: noteRenderFailures_def Let_def ledger_funpow)

lemma renderPass_pending:
  "renderPass all a = (a', res) \<Longrightarrow>
     ac_sent a' = ac_sent a \<and> ac_pendingIDs a' = ac_pendingIDs a \<and> ac_pendingOrig a' = ac_pendingOrig a"
  by (auto simp: renderPass_def split: prod.splits if_splits)

lemma Close_pending [simp]:
  "ac_pendingIDs (Actor_Close code a) = ac_pendingIDs a" "ac_pendingOrig (Actor_Close code a) = ac_pendingOrig a"
  "ac_sent (Actor_Close code a) = ac_sent a"
  by (simp_all add: Actor_Close_def)

lemma Actor_send_pending:
  assumes "Actor_send b f c a = (a', None)"
  shows "ac_pendingIDs a' = ac_pendingIDs a \<and> ac_pendingOrig a' = ac_pendingOrig a \<and> carried (ac_sent a') = carried (ac_sent a)"
proof -
  obtain a1 e where r: "Framer_Send b f a = (a1, Inl e)"
    using assms by (auto simp: Actor_send_def split: prod.splits sum.splits)
  have "ac_pendingIDs a1 = ac_pendingIDs a \<and> ac_pendingOrig a1 = ac_pendingOrig a \<and> ac_sent a1 = ac_sent a"
    using r by (auto simp: Framer_Send_def Let_def split: sum.splits)
  then show ?thesis
    using assms r
    by (cases e) (auto simp: Actor_send_def emitError_def Framer_Send_def Let_def split: sum.splits)
qed

subsection \<open>Emission\<close>

lemma emit_now_ledger:
  assumes "raw_owed a \<le> CoalesceFlushCeiling"
  shows "owed (emit_now b origin ev a) \<union> carried (ac_sent (emit_now b origin ev a))
         = owed a \<union> named origin \<union> carried (ac_sent a)"
proof -
  obtain a1 ids where t: "takePending origin (a\<lparr>ac_coalesceHeld := False\<rparr>) = (a1, ids)" by fastforce
  obtain a2 res where r: "renderPass False a1 = (a2, res)" by fastforce
  note took = owed_takePending [OF t]
  note r2 = renderPass_pending [OF r]
  have short: "length ids \<le> CoalesceFlushCeiling"
    using takePending_length [OF t] assms by (simp add: raw_owed_def)
  have putback: "owed (redefer origin ids x) = named origin \<union> owed a"
    if "ac_pendingIDs x = []" "ac_pendingOrig x = None" for x :: "'a Actor"
    using owed_redefer [OF that short, of origin] took(2) by simp
  have redefer_sent: "ac_sent (redefer o' ids x) = ac_sent x" for o' and x :: "'a Actor"
    by (simp add: redefer_def deferPatch_def)
  let ?o = "origin\<lparr>og_Contributing := unionEdges origin ids\<rparr>"
  let ?f = "NewPatch (ac_peer a2) (next_causal a2) ?o (toWireUpdates (rs_Updates res))"
  obtain a3 s where sent: "Actor_send b ?f (next_causal a2) a2 = (a3, s)" by fastforce
  have "ledger (emit_now b origin ev a) =
    (if rs_Updates res = [] then ledger (redefer origin ids a2)
     else if s = None then ledger (redefer ?o ids (a3\<lparr>ac_view := Renderer_Discard res (ac_view a3)\<rparr>))
     else ledger a3)"
    by (cases s) (simp_all add: emit_now_def t r Let_def sent)
  moreover have "ledger (redefer origin ids a2) = (named origin \<union> owed a, carried (ac_sent a))"
    using putback [of a2] r2 took by (simp add: ledger_def redefer_sent)
  moreover have "ledger (redefer ?o ids (a3\<lparr>ac_view := Renderer_Discard res (ac_view a3)\<rparr>))
      = (named ?o \<union> (set ids - {0}), carried (ac_sent a))" if "s = None"
    using owed_redefer [of "a3\<lparr>ac_view := Renderer_Discard res (ac_view a3)\<rparr>" ids ?o] short
      Actor_send_pending [of b ?f "next_causal a2" a2 a3] sent that r2 took by (simp add: ledger_def redefer_sent)
  moreover have "ledger a3 = ({}, carried (ac_sent a) \<union> named ?o)" if "s = Some n" for n
    using Actor_send_Some(2) [of b ?f "next_causal a2" a2 a3 n] sent that r2 took
    by (simp add: ledger_def) (simp add: owed_def)
  ultimately show ?thesis
    using took(2) by (cases s) (auto simp: ledger_def named_union split: if_splits)
qed

lemma ledger_defers [simp]:
  "ledger (enterCoalesce now origin a) = (owed a \<union> named origin, carried (ac_sent a))"
  "ledger (degrade now origin a) = (owed a \<union> named origin, carried (ac_sent a))"
proof -
  have d: "ledger (deferPatch origin a) = (owed a \<union> named origin, carried (ac_sent a))" for a :: "'a Actor"
    by (simp add: ledger_def owed_deferPatch) (simp add: deferPatch_def)
  show "ledger (enterCoalesce now origin a) = (owed a \<union> named origin, carried (ac_sent a))"
    "ledger (degrade now origin a) = (owed a \<union> named origin, carried (ac_sent a))"
    by (simp_all add: enterCoalesce_def degrade_def Let_def d)
qed

lemma emitSnapshot_ledger:
  assumes "raw_owed a \<le> CoalesceFlushCeiling" and out: "emitSnapshot b origin su event a = (a', n)"
  shows "owed a' \<union> carried (ac_sent a') = owed a \<union> named origin \<union> carried (ac_sent a)"
proof -
  obtain a1 res where r: "renderPass True a = (a1, res)" by fastforce
  obtain a2 ids where t: "takePending origin a1 = (a2, ids)" by fastforce
  note took = owed_takePending [OF t]
  note r2 = renderPass_pending [OF r]
  have same: "owed a1 = owed a" "raw_owed a1 = raw_owed a" using r2 by (simp_all add: owed_def raw_owed_def)
  have short: "length ids \<le> CoalesceFlushCeiling" using takePending_length [OF t] assms(1) same by simp
  let ?o = "origin\<lparr>og_Contributing := unionEdges origin ids\<rparr>"
  let ?f = "NewSnapshot (ac_peer a2) (next_causal a2) ?o (session_params (ac_lim a2)) su (toWireUpdates (rs_Updates res))"
  obtain a3 s where sent: "Actor_send b ?f (next_causal a2) a2 = (a3, s)" by fastforce
  have redefer_sent: "ac_sent (redefer o' ids x) = ac_sent x" for o' and x :: "'a Actor"
    by (simp add: redefer_def deferPatch_def)
  have "ledger a' = (if s = None then ledger (redefer ?o ids (a3\<lparr>ac_view := Renderer_Discard res (ac_view a3)\<rparr>)) else ledger a3)"
    using out by (cases s) (auto simp: emitSnapshot_def r t Let_def sent)
  moreover have "ledger (redefer ?o ids (a3\<lparr>ac_view := Renderer_Discard res (ac_view a3)\<rparr>))
      = (named ?o \<union> (set ids - {0}), carried (ac_sent a))" if "s = None"
    using owed_redefer [of "a3\<lparr>ac_view := Renderer_Discard res (ac_view a3)\<rparr>" ids ?o] short
      Actor_send_pending [of b ?f "next_causal a2" a2 a3] sent that r2 took by (simp add: ledger_def redefer_sent)
  moreover have "ledger a3 = ({}, carried (ac_sent a) \<union> named ?o)" if "s = Some n" for n
    using Actor_send_Some(2) [of b ?f "next_causal a2" a2 a3 n] sent that r2 took
    by (simp add: ledger_def)
  ultimately show ?thesis
    using took(2) same by (cases s) (auto simp: ledger_def named_union split: if_splits)
qed

subsection \<open>Properties\<close>


lemma demo_session_owes: "ac_pendingIDs demo_session = []" "ac_pendingOrig demo_session = None" "carried (ac_sent demo_session) = {}"
proof -
  show "ac_pendingIDs demo_session = []" "ac_pendingOrig demo_session = None"
    by (simp_all add: live_eval demo_eval Let_def)
  show "carried (ac_sent demo_session) = {}"
    by (simp add: live_eval demo_eval Let_def carried_def named_def)
qed


end
