(* ===== verification/Live_Wedge.thy ===== *)
theory Live_Wedge
  imports Live_Provenance
begin

text \<open>
  A session whose events change nothing on the page for long enough can never send again: the
  deferred list fills up to the ceiling of the schema, and the frame that would carry it and one
  event more is refused by the session's own checks, each time and for resynchronisations too.
\<close>

subsection \<open>Refused frames\<close>

lemma first_err_None: "first_err xs = None \<longleftrightarrow> list_all (\<lambda>x. x = None) xs"
  by (induction xs rule: first_err.induct) simp_all

lemma overlong_refused:
  assumes "length (og_Contributing o') > CoalesceFlushCeiling"
  shows "ValidateOutbound (NewPatch s c o' us) \<noteq> None" "ValidateOutbound (NewSnapshot s c o' p su us) \<noteq> None"
  using assms
  by (simp_all add: ValidateOutbound_def first_err_None NewPatch_def NewSnapshot_def new_frame_def checkFieldInvariants_def
      check_origin_def checkListBound_def ListBound_def listBounds_def)

lemma refused_not_sent:
  assumes "ValidateOutbound f \<noteq> None"
  shows "Actor_send b f c a = (emitError b ErrorCode_INTERNAL ''the server could not encode an update'' 0 0 False a, None)"
  using assms by (auto simp: Actor_send_def Framer_Send_def Framer_Encode_def)

lemma emitError_pending [simp]:
  "ac_pendingIDs (emitError b c s e r f a) = ac_pendingIDs a" "ac_pendingOrig (emitError b c s e r f a) = ac_pendingOrig a"
  "ac_lim (emitError b c s e r f a) = ac_lim a"
  by (simp_all add: emitError_def Framer_Send_def Let_def split: sum.split)

text \<open>Fields of the deferral that the tail of an emission leaves alone.\<close>

definition deferral :: "'a Actor \<Rightarrow> 64 word list \<times> Origin option \<times> Limits" where
  "deferral a = (ac_pendingIDs a, ac_pendingOrig a, ac_lim a)"

lemma deferral_tail [simp]:
  "deferral (provenance o' ev fs p q su a) = deferral a" "deferral (emitError b c s e r f a) = deferral a"
  "deferral (notePanic site a) = deferral a"
  by (simp_all add: deferral_def provenance_def notePanic_def Actor_Close_def Let_def)

lemma deferral_funpow:
  fixes g :: "'a Actor \<Rightarrow> 'a Actor"
  shows "(\<And>x. deferral (g x) = deferral x) \<Longrightarrow> deferral ((g ^^ n) a) = deferral a"
  by (induction n) simp_all

lemma deferral_failures [simp]: "deferral (noteRenderFailures b fs e r a) = deferral a"
  by (simp add: noteRenderFailures_def Let_def deferral_funpow)

subsection \<open>The wedge\<close>

definition wedged :: "'a Actor \<Rightarrow> bool" where
  "wedged a \<longleftrightarrow> length (ac_pendingIDs a) = CoalesceFlushCeiling \<and> distinct (ac_pendingIDs a) \<and> 0 \<notin> set (ac_pendingIDs a)
     \<and> (\<exists>o'. ac_pendingOrig a = Some o' \<and> og_EventID o' \<notin> insert 0 (set (ac_pendingIDs a)))
     \<and> lm_CoalesceFlushAt (ac_lim a) \<le> int CoalesceFlushCeiling"

definition fresh_id :: "'a Actor \<Rightarrow> Origin \<Rightarrow> bool" where
  "fresh_id a origin \<longleftrightarrow> og_EventID origin \<notin> insert 0 (set (ac_pendingIDs a))
     \<and> (\<forall>o'. ac_pendingOrig a = Some o' \<longrightarrow> og_EventID o' \<noteq> og_EventID origin)"

text \<open>The identifiers the next emission must differ from to be new.\<close>

definition held_ids :: "'a Actor \<Rightarrow> 64 word set" where
  "held_ids a = insert 0 (set (ac_pendingIDs a)) \<union> (case ac_pendingOrig a of None \<Rightarrow> {} | Some o' \<Rightarrow> {og_EventID o'})"

lemma fresh_held: "fresh_id a origin \<longleftrightarrow> og_EventID origin \<notin> held_ids a"
  by (auto simp: fresh_id_def held_ids_def split: option.split)

lemma overlong:
  assumes "length ds = CoalesceFlushCeiling" "distinct ds" "0 \<notin> set ds" "e \<notin> insert 0 (set ds)"
    and "set ds \<union> {e} \<subseteq> set xs" "x \<notin> insert e (set ds)"
  shows "length (new_ids (if x \<noteq> 0 then [x] else []) xs) > CoalesceFlushCeiling"
proof -
  have "set ds \<union> {e} \<subseteq> set (new_ids (if x \<noteq> 0 then [x] else []) xs)"
    using assms(3-6) by (cases "x = 0"; simp add: set_new_ids subset_iff; blast)
  from card_mono [OF finite_set this]
  have "card (set ds \<union> {e}) \<le> length (new_ids (if x \<noteq> 0 then [x] else []) xs)"
    using card_length le_trans by blast
  moreover have "card (set ds \<union> {e}) = Suc CoalesceFlushCeiling"
    using assms(1,2,4) by (simp add: distinct_card)
  ultimately show ?thesis by simp
qed

lemma wedged_union:
  assumes "wedged a" "fresh_id a origin" "takePending origin a = (a', ids)"
  shows "length (unionEdges origin ids) > CoalesceFlushCeiling"
    and "take CoalesceFlushCeiling ids = ac_pendingIDs a" "ac_pendingIDs a' = []" "ac_pendingOrig a' = None" "ac_lim a' = ac_lim a"
    and "unionReaches origin (lm_CoalesceFlushAt (ac_lim a)) a"
proof -
  obtain o' where o': "ac_pendingOrig a = Some o'" "og_EventID o' \<notin> insert 0 (set (ac_pendingIDs a))"
    using assms(1) by (auto simp: wedged_def)
  have x: "og_EventID origin \<notin> insert (og_EventID o') (set (ac_pendingIDs a))"
    using assms(2) o' by (auto simp: fresh_id_def)
  have w: "length (ac_pendingIDs a) = CoalesceFlushCeiling" "distinct (ac_pendingIDs a)" "0 \<notin> set (ac_pendingIDs a)"
    "lm_CoalesceFlushAt (ac_lim a) \<le> int CoalesceFlushCeiling"
    using assms(1) by (simp_all add: wedged_def)
  have ids: "ids = ac_pendingIDs a @ og_EventID o' # og_Contributing o'"
    and a': "a' = a\<lparr>ac_pendingIDs := [], ac_pendingOrig := None\<rparr>"
    using assms(3) o' x by (auto simp: takePending_def)
  show "length (unionEdges origin ids) > CoalesceFlushCeiling"
    unfolding unionEdges_def own_id_def by (rule overlong [OF w(1-3) o'(2) _ x]) (auto simp: ids)
  show "take CoalesceFlushCeiling ids = ac_pendingIDs a" using w(1) by (simp add: ids)
  show "ac_pendingIDs a' = []" "ac_pendingOrig a' = None" "ac_lim a' = ac_lim a" by (simp_all add: a')
  have "length (new_ids (own_id origin) (og_Contributing origin @ ac_pendingIDs a @ og_EventID o' # og_Contributing o'))
      > CoalesceFlushCeiling"
    unfolding own_id_def by (rule overlong [OF w(1-3) o'(2) _ x]) auto
  then show "unionReaches origin (lm_CoalesceFlushAt (ac_lim a)) a"
    using w(1,4) o'(1) by (simp add: unionReaches_def Let_def)
qed

lemma wedged_redefer:
  assumes "wedged a" "fresh_id a origin" "take CoalesceFlushCeiling ids = ac_pendingIDs a"
    and "ac_pendingIDs x = []" "ac_pendingOrig x = None" "ac_lim x = ac_lim a" "og_EventID o' = og_EventID origin"
    and "deferral y = deferral (redefer o' ids x)"
  shows "wedged y \<and> held_ids y \<subseteq> insert (og_EventID origin) (held_ids a)"
  using assms by (auto simp: wedged_def fresh_id_def redefer_def deferPatch_def deferral_def held_ids_def)

lemma wedged_emit_now:
  assumes "wedged a" "fresh_id a origin"
  shows "wire_of (emit_now b origin ev a) = wire_of a"
    "wedged (emit_now b origin ev a) \<and> held_ids (emit_now b origin ev a) \<subseteq> insert (og_EventID origin) (held_ids a)"
proof -
  obtain a1 ids where t: "takePending origin (a\<lparr>ac_coalesceHeld := False\<rparr>) = (a1, ids)" by fastforce
  obtain a2 res where r: "renderPass False a1 = (a2, res)" by fastforce
  have "wedged (a\<lparr>ac_coalesceHeld := False\<rparr>)" "fresh_id (a\<lparr>ac_coalesceHeld := False\<rparr>) origin"
    using assms by (simp_all add: wedged_def fresh_id_def)
  note w = wedged_union [OF this t]
  have lim: "ac_lim a2 = ac_lim a1" using r by (auto simp: renderPass_def split: prod.splits if_splits)
  note p2 = renderPass_pending [OF r]
  let ?o = "origin\<lparr>og_Contributing := unionEdges origin ids\<rparr>"
  let ?f = "NewPatch (ac_peer a2) (next_causal a2) ?o (toWireUpdates (rs_Updates res))"
  let ?a3 = "emitError b ErrorCode_INTERNAL ''the server could not encode an update'' 0 0 False a2"
  have sent: "Actor_send b ?f (next_causal a2) a2 = (?a3, None)"
    by (rule refused_not_sent, rule overlong_refused) (simp add: w)
  have w2: "wire_of a2 = wire_of a"
    using wire_takePending [of origin "a\<lparr>ac_coalesceHeld := False\<rparr>"] wire_renderPass [of False a1]
    by (simp add: t r wire_simps)
  show "wire_of (emit_now b origin ev a) = wire_of a"
    by (simp add: emit_now_def t r Let_def sent wire_simps w2)
  have "deferral (emit_now b origin ev a) =
     (if rs_Updates res = [] then deferral (redefer origin ids a2)
      else deferral (redefer ?o ids (?a3\<lparr>ac_view := Renderer_Discard res (ac_view ?a3)\<rparr>)))"
    by (simp add: emit_now_def t r Let_def sent)
  then show "wedged (emit_now b origin ev a) \<and> held_ids (emit_now b origin ev a) \<subseteq> insert (og_EventID origin) (held_ids a)"
    using wedged_redefer [OF assms, of ids a2 origin] wedged_redefer [OF assms, of ids "?a3\<lparr>ac_view := Renderer_Discard res (ac_view ?a3)\<rparr>" ?o]
      w p2 lim by (simp split: if_splits)
qed

lemma wedged_emitPatch:
  assumes "wedged a" "fresh_id a origin"
  shows "wire_of (emitPatch b now origin ev forced a) = wire_of a"
    "wedged (emitPatch b now origin ev forced a)
     \<and> held_ids (emitPatch b now origin ev forced a) \<subseteq> insert (og_EventID origin) (held_ids a)"
proof -
  obtain a1 ids where t: "takePending origin a = (a1, ids)" by fastforce
  have "unionReaches origin (lm_CoalesceFlushAt (ac_lim a)) a" by (rule wedged_union(6) [OF assms t])
  then show "wire_of (emitPatch b now origin ev forced a) = wire_of a"
    "wedged (emitPatch b now origin ev forced a)
     \<and> held_ids (emitPatch b now origin ev forced a) \<subseteq> insert (og_EventID origin) (held_ids a)"
    using wedged_emit_now [OF assms] by (simp_all add: emitPatch_def)
qed

lemma wedged_snapshot:
  assumes "wedged a" "fresh_id a origin"
  shows "snd (emitSnapshot b origin su event a) = None"
proof -
  obtain a1 res where r: "renderPass True a = (a1, res)" by fastforce
  obtain a2 ids where t: "takePending origin a1 = (a2, ids)" by fastforce
  have "ac_lim a1 = ac_lim a" using r by (auto simp: renderPass_def split: prod.splits)
  then have "wedged a1" "fresh_id a1 origin"
    using assms renderPass_pending [OF r] by (simp_all add: wedged_def fresh_id_def)
  note w = wedged_union [OF this t]
  let ?o = "origin\<lparr>og_Contributing := unionEdges origin ids\<rparr>"
  let ?f = "NewSnapshot (ac_peer a2) (next_causal a2) ?o (session_params (ac_lim a2)) su (toWireUpdates (rs_Updates res))"
  have "snd (Actor_send b ?f (next_causal a2) a2) = None"
    by (subst refused_not_sent, rule overlong_refused) (simp_all add: w)
  then show ?thesis
    by (auto simp: emitSnapshot_def r t Let_def split: prod.splits option.splits)
qed

subsection \<open>How a quiet session gets there\<close>

text \<open>The window is below the coalesce stage.\<close>

definition settled :: "'a Actor \<Rightarrow> bool" where
  "settled a \<longleftrightarrow> \<not> win_full (ac_win a) \<and> \<not> win_coalescing (ac_win a)"

text \<open>
  A legal event of the client whose transition leaves the state as it is and has no effects; what
  it marks renders to what the page shows.
\<close>

definition changes_nothing :: "'a Actor \<Rightarrow> Event \<Rightarrow> bool" where
  "changes_nothing a ev \<longleftrightarrow>
     ia_Reduce (ac_app a) (ac_state a) ev = Inr (ac_state a, [])
     \<and> ev_SeenServerSeq ev \<le> ac_serverSeq a \<and> KnownID (ac_view a) (ev_FragmentID ev)
     \<and> (let (marked, failures) = Renderer_Mark (ac_state a) (ac_state a) (ac_view a);
            (v, res) = Renderer_Render (ac_state a) marked
        in failures = [] \<and> v = ac_view a \<and> rs_Updates res = [] \<and> rs_Failed res = [])"

text \<open>The origin the ingress gives to an event.\<close>

definition client_origin :: "Event \<Rightarrow> Origin" where
  "client_origin ev =
     zeroOrigin\<lparr>og_Kind := OriginKind_CLIENT_EVENT, og_EventID := ev_ID ev, og_ClientRef := ev_ClientRef ev,
       og_Source := SourceEventPrefix @ ev_Name ev\<rparr>"

lemma client_origin_simps [simp]:
  "og_EventID (client_origin ev) = ev_ID ev" "og_Contributing (client_origin ev) = []"
  "og_Kind (client_origin ev) = OriginKind_CLIENT_EVENT"
  by (simp_all add: client_origin_def zeroOrigin_def)

definition deferred_more :: "Origin \<Rightarrow> 'a Actor \<Rightarrow> 'a Actor" where
  "deferred_more origin a =
     a\<lparr>ac_pendingIDs := take CoalesceFlushCeiling (snd (takePending origin a)), ac_pendingOrig := Some origin\<rparr>"

lemma emit_now_suppressed:
  assumes "Renderer_Render (ac_state a) (ac_view a) = (v, res)" "rs_Updates res = []" "rs_Failed res = []"
  shows "\<exists>p. emit_now b origin ev a = (deferred_more origin (a\<lparr>ac_coalesceHeld := False, ac_view := v\<rparr>))\<lparr>ac_provenance := p\<rparr>"
proof -
  have "renderPass False x = (x\<lparr>ac_view := v\<rparr>, res)" if "ac_state x = ac_state a" "ac_view x = ac_view a" for x :: "'a Actor"
    using assms that by (simp add: renderPass_def)
  then show ?thesis using assms(2,3)
    by (simp add: emit_now_def takePending_def Let_def redefer_def deferPatch_def deferred_more_def
        provenance_def noteRenderFailures_def cong: option.case_cong) (rule exI, rule refl)
qed

lemma transition_quiet:
  assumes "settled a" "changes_nothing a ev"
  shows "\<exists>t s p. transition b now ev (client_origin ev) a =
     (deferred_more (client_origin ev) (a\<lparr>ac_transitionID := t, ac_stateVersion := s, ac_coalesceHeld := False\<rparr>))\<lparr>ac_provenance := p\<rparr>"
proof -
  obtain marked fs where m: "Renderer_Mark (ac_state a) (ac_state a) (ac_view a) = (marked, fs)" by fastforce
  obtain v res where r: "Renderer_Render (ac_state a) marked = (v, res)" by fastforce
  have q: "fs = []" "v = ac_view a" "rs_Updates res = []" "rs_Failed res = []"
    using assms(2) by (simp_all add: changes_nothing_def m r)
  define x where "x = a\<lparr>ac_transitionID := ac_transitionID a + 1,
    ac_stateVersion := (if \<not> sameState (ac_app a) (ac_state a) (ac_state a) then ac_stateVersion a + 1 else ac_stateVersion a),
    ac_view := marked\<rparr>"
  have seen: "\<not> ac_serverSeq a < ev_SeenServerSeq ev" using assms(2) by (simp add: changes_nothing_def not_less)
  have "transition b now ev (client_origin ev) a = emitPatch b now (client_origin ev) ev False x"
    using assms(2) seen
    by (simp add: transition_def changes_nothing_def Let_def x_def runEffects_def noteRenderFailures_def m q)
  also have "\<dots> = emit_now b (client_origin ev) ev x"
    using assms(1) by (simp add: emitPatch_def settled_def x_def)
  finally have eq: "transition b now ev (client_origin ev) a = emit_now b (client_origin ev) ev x" .
  have "Renderer_Render (ac_state x) (ac_view x) = (v, res)" using r by (simp add: x_def)
  from emit_now_suppressed [OF this q(3,4), of b "client_origin ev" ev] obtain p where
    "emit_now b (client_origin ev) ev x =
       (deferred_more (client_origin ev) (x\<lparr>ac_coalesceHeld := False, ac_view := v\<rparr>))\<lparr>ac_provenance := p\<rparr>"
    by blast
  moreover have "x\<lparr>ac_coalesceHeld := False, ac_view := v\<rparr> =
      a\<lparr>ac_transitionID := ac_transitionID x, ac_stateVersion := ac_stateVersion x, ac_coalesceHeld := False\<rparr>"
    by (simp add: x_def q(2))
  ultimately show ?thesis unfolding eq by metis
qed

definition quiet_run :: "boundary \<Rightarrow> time \<Rightarrow> Event list \<Rightarrow> 'a Actor \<Rightarrow> 'a Actor" where
  "quiet_run b now evs a = fold (\<lambda>ev. transition b now ev (client_origin ev)) evs a"

definition stands :: "'a Actor \<Rightarrow> 'a Actor \<Rightarrow> bool" where
  "stands a x \<longleftrightarrow> ac_app x = ac_app a \<and> ac_state x = ac_state a \<and> ac_view x = ac_view a \<and> ac_win x = ac_win a
     \<and> ac_lim x = ac_lim a \<and> ac_serverSeq x = ac_serverSeq a \<and> wire_of x = wire_of a"

lemma quiet_run_pending:
  assumes "settled a" "list_all (changes_nothing a) evs" "distinct (map ev_ID evs)" "0 \<notin> set (map ev_ID evs)"
    and "length evs \<le> Suc CoalesceFlushCeiling" "evs \<noteq> []" "ac_pendingIDs a = []" "ac_pendingOrig a = None"
  shows "ac_pendingIDs (quiet_run b now evs a) = map ev_ID (butlast evs)
    \<and> ac_pendingOrig (quiet_run b now evs a) = Some (client_origin (last evs)) \<and> stands a (quiet_run b now evs a)"
  using assms(2-6)
proof (induction evs rule: rev_induct)
  case Nil then show ?case by simp
next
  case (snoc ev evs)
  let ?x = "quiet_run b now evs a"
  have before: "stands a ?x \<and> take CoalesceFlushCeiling (snd (takePending (client_origin ev) ?x)) = map ev_ID evs"
  proof (cases "evs = []")
    case True
    then show ?thesis using assms(7,8) by (simp add: quiet_run_def stands_def takePending_def)
  next
    case False
    with snoc have IH: "ac_pendingIDs ?x = map ev_ID (butlast evs)" "ac_pendingOrig ?x = Some (client_origin (last evs))" "stands a ?x"
      by simp_all
    have "ev_ID (last evs) \<in> ev_ID ` set evs" using False by simp
    then have "ev_ID (last evs) \<noteq> 0" "ev_ID (last evs) \<noteq> ev_ID ev" using snoc.prems(2,3) by auto
    then have "snd (takePending (client_origin ev) ?x) = map ev_ID (butlast evs) @ map ev_ID [last evs]"
      by (simp add: takePending_def IH)
    also have "\<dots> = map ev_ID evs"
      unfolding map_append [symmetric] append_butlast_last_id [OF False] by (rule refl)
    finally show ?thesis using IH snoc.prems by simp
  qed
  then have "settled ?x" "changes_nothing ?x ev"
    using assms(1) snoc.prems by (simp_all add: stands_def settled_def changes_nothing_def)
  from transition_quiet [OF this, of b now] obtain t s p where
    "quiet_run b now (evs @ [ev]) a =
      (deferred_more (client_origin ev) (?x\<lparr>ac_transitionID := t, ac_stateVersion := s, ac_coalesceHeld := False\<rparr>))\<lparr>ac_provenance := p\<rparr>"
    by (auto simp: quiet_run_def)
  moreover have "snd (takePending o' (x\<lparr>ac_transitionID := t, ac_stateVersion := s, ac_coalesceHeld := False\<rparr>))
      = snd (takePending o' x)" for o' and x :: "'a Actor"
    by (simp add: takePending_def split: option.split)
  ultimately show ?case using before by (simp add: deferred_more_def stands_def wire_simps)
qed

lemma quiet_run_wedged:
  assumes "settled a" "list_all (changes_nothing a) evs" "distinct (map ev_ID evs)" "0 \<notin> set (map ev_ID evs)"
    and "length evs = Suc CoalesceFlushCeiling" "ac_pendingIDs a = []" "ac_pendingOrig a = None"
    and "lm_CoalesceFlushAt (ac_lim a) \<le> int CoalesceFlushCeiling"
  shows "wedged (quiet_run b now evs a)" "stands a (quiet_run b now evs a)"
    "insert (ev_ID (last evs)) (set (ac_pendingIDs (quiet_run b now evs a))) = set (map ev_ID evs)"
proof -
  have ne: "evs \<noteq> []" using assms(5) by auto
  note q = quiet_run_pending [OF assms(1-4) eq_refl [OF assms(5)] ne assms(6,7), of b now]
  have split: "map ev_ID evs = map ev_ID (butlast evs) @ [ev_ID (last evs)]"
    using ne by (metis append_butlast_last_id list.simps(8,9) map_append)
  show "stands a (quiet_run b now evs a)" using q by simp
  show "insert (ev_ID (last evs)) (set (ac_pendingIDs (quiet_run b now evs a))) = set (map ev_ID evs)"
    using q by (simp add: split flip: set_map)
  show "wedged (quiet_run b now evs a)"
    using q assms(3-5,8) by (simp add: wedged_def stands_def split flip: set_map)
qed

text \<open>An emission in whatever state, view and window the session has come to by then.\<close>

fun later_emission :: "boundary \<Rightarrow> time \<times> Origin \<times> Event \<times> bool \<times> 'a \<times> 'a Renderer \<times> window \<Rightarrow> 'a Actor \<Rightarrow> 'a Actor" where
  "later_emission b (now, origin, ev, forced, s, v, w) a =
     emitPatch b now origin ev forced (a\<lparr>ac_state := s, ac_view := v, ac_win := w\<rparr>)"

definition later_id :: "time \<times> Origin \<times> Event \<times> bool \<times> 'a \<times> 'a Renderer \<times> window \<Rightarrow> 64 word" where
  "later_id x = og_EventID (fst (snd x))"

definition patches_and_snapshots :: "'a Actor \<Rightarrow> Frame list" where
  "patches_and_snapshots a = filter sequenced (ac_sent a)"

lemma frames_of_wire: "patches_and_snapshots a = wr_frames (wire_of a)"
  by (simp add: patches_and_snapshots_def wire_of_def)

lemma wedged_upd:
  "wedged (a\<lparr>ac_state := s, ac_view := v, ac_win := w\<rparr>) = wedged a"
  "held_ids (a\<lparr>ac_state := s, ac_view := v, ac_win := w\<rparr>) = held_ids a"
  "patches_and_snapshots (a\<lparr>ac_state := s, ac_view := v, ac_win := w\<rparr>) = patches_and_snapshots a"
  by (simp_all add: wedged_def held_ids_def patches_and_snapshots_def)

lemma later_wedged:
  assumes "wedged a" "later_id x \<notin> held_ids a"
  shows "wedged (later_emission b x a)" "held_ids (later_emission b x a) \<subseteq> insert (later_id x) (held_ids a)"
    "patches_and_snapshots (later_emission b x a) = patches_and_snapshots a"
proof -
  obtain now origin ev forced s v w where x: "x = (now, origin, ev, forced, s, v, w)" by (metis prod_cases7)
  have "wedged (a\<lparr>ac_state := s, ac_view := v, ac_win := w\<rparr>)" "fresh_id (a\<lparr>ac_state := s, ac_view := v, ac_win := w\<rparr>) origin"
    using assms by (simp_all add: wedged_upd fresh_held x later_id_def)
  note e = wedged_emitPatch [OF this, of b now ev forced]
  show "wedged (later_emission b x a)" "held_ids (later_emission b x a) \<subseteq> insert (later_id x) (held_ids a)"
    using e(2) by (simp_all add: x later_id_def wedged_upd)
  show "patches_and_snapshots (later_emission b x a) = patches_and_snapshots a"
    using e(1) wedged_upd(3) [where a = a and s = s and v = v and w = w] by (simp add: x frames_of_wire)
qed

lemma forever_wedged:
  assumes "wedged a" "distinct (map later_id later @ [e])" "held_ids a \<inter> set (map later_id later @ [e]) = {}"
  shows "wedged (fold (later_emission b) later a) \<and> e \<notin> held_ids (fold (later_emission b) later a)
    \<and> patches_and_snapshots (fold (later_emission b) later a) = patches_and_snapshots a"
  using assms
proof (induction later arbitrary: a)
  case (Cons x later)
  have x: "later_id x \<notin> set (map later_id later @ [e])" using Cons.prems(2) by simp
  have d: "held_ids a \<inter> set (map later_id later @ [e]) = {}" using Cons.prems(3) by auto
  have "later_id x \<notin> held_ids a" using Cons.prems(3) by auto
  note l = later_wedged [OF Cons.prems(1) this, of b]
  have "distinct (map later_id later @ [e])" using Cons.prems(2) by simp
  moreover have "held_ids (later_emission b x a) \<inter> set (map later_id later @ [e]) = {}"
    using l(2) x d by blast
  ultimately show ?case using Cons.IH [OF l(1)] l(3) by simp
qed simp

subsection \<open>Properties\<close>

text \<open>
  C9. A quiet session wedges. Once 1025 events in a row changed nothing on the page, the ordinary
  case of a reducer that ignores them, no later event of the client reaches the page any more,
  whatever it changes, and no resynchronisation is answered: the deferred list is at the ceiling
  of the schema, suppressed emissions put it back, and every frame that would carry it and one
  event more is refused by the session's own checks and put back in turn.
\<close>

theorem quiet_session_wedges:
  assumes "settled a" "list_all (changes_nothing a) evs" "length evs = Suc CoalesceFlushCeiling"
    and "ac_pendingIDs a = []" "ac_pendingOrig a = None" "lm_CoalesceFlushAt (ac_lim a) \<le> int CoalesceFlushCeiling"
    and "distinct (0 # map ev_ID evs @ map later_id later @ [og_EventID origin])"
    and "w = fold (later_emission b) later (quiet_run b now evs a)"
  shows "patches_and_snapshots w = patches_and_snapshots a \<and> snd (emitSnapshot b origin su event w) = None"
proof -
  have ids: "distinct (map ev_ID evs)" "0 \<notin> set (map ev_ID evs)" using assms(7) by simp_all
  note q = quiet_run_wedged [OF assms(1,2) ids assms(3-6), of b now]
  have "evs \<noteq> []" using assms(3) by auto
  with quiet_run_pending [OF assms(1,2) ids eq_refl [OF assms(3)] _ assms(4,5), of b now]
  have "held_ids (quiet_run b now evs a) = insert 0 (insert (ev_ID (last evs)) (set (ac_pendingIDs (quiet_run b now evs a))))"
    by (auto simp: held_ids_def)
  then have held: "held_ids (quiet_run b now evs a) = insert 0 (set (map ev_ID evs))" by (simp only: q(3))
  have "distinct (map later_id later @ [og_EventID origin])"
    "held_ids (quiet_run b now evs a) \<inter> set (map later_id later @ [og_EventID origin]) = {}"
    unfolding held using assms(7) by auto
  from forever_wedged [OF q(1) this, of b] show ?thesis
    using wedged_snapshot [of w origin b su event] q(2)
    by (simp add: assms(8) fresh_held stands_def frames_of_wire)
qed

text \<open>An application that ignores its events.\<close>

definition quiet_app :: "nat IApp" where
  "quiet_app = demo_app\<lparr>ia_Reduce := (\<lambda>n ev. Inr (n, []))\<rparr>"

definition quiet_session :: "nat Actor" where
  "quiet_session = live_start demo_boundary quiet_app zeroLimits ''0123456789abcdef'' False 1000"

lemma quiet_session_is:
  "settled quiet_session" "ac_pendingIDs quiet_session = []" "ac_pendingOrig quiet_session = None"
  "lm_CoalesceFlushAt (ac_lim quiet_session) \<le> int CoalesceFlushCeiling"
  by (simp_all add: settled_def quiet_session_def quiet_app_def live_eval demo_eval Let_def)

definition quiet_event :: "nat \<Rightarrow> Event" where
  "quiet_event n = zeroEvent\<lparr>ev_ID := of_nat n, ev_Name := ''tick'', ev_FragmentID := ''counter''\<rparr>"

lemma quiet_session_ignores: "changes_nothing quiet_session (quiet_event n)"
  by (simp add: changes_nothing_def quiet_event_def quiet_session_def quiet_app_def live_eval demo_eval Let_def)

text \<open>An event that changes the state and every fragment afterwards, and a resynchronisation.\<close>

definition loud_emission :: "time \<times> Origin \<times> Event \<times> bool \<times> nat \<times> nat Renderer \<times> window" where
  "loud_emission = (1000, zeroOrigin\<lparr>og_EventID := of_nat 1026\<rparr>, zeroEvent, False, 2, NewRenderer demo_registry, ac_win quiet_session)"

lemma quiet_ids:
  "distinct (0 # map ev_ID (map quiet_event [1..<Suc (Suc CoalesceFlushCeiling)]) @ map later_id [loud_emission] @ [of_nat 1027])"
proof -
  have u: "unat (of_nat k :: 64 word) = k" if "k < 1028" for k
  proof -
    have "(1028::nat) \<le> 2 ^ 64" by simp
    with that have "k < 2 ^ 64" by (rule order_less_le_trans)
    then show ?thesis by (subst unat_of_nat) (simp add: take_bit_nat_eq_self)
  qed
  have "inj_on (of_nat :: nat \<Rightarrow> 64 word) (set [0..<1028])"
    by (rule inj_on_inverseI [where g = unat]) (auto intro: u)
  then have "distinct (map (of_nat :: nat \<Rightarrow> 64 word) [0..<1028])"
    by (simp only: distinct_map distinct_upt simp_thms)
  moreover have "[0..<1028] = 0 # [1..<1026] @ [1026, 1027]"
    by (simp add: upt_rec [of 0] upt_rec [of 1026] upt_rec [of 1027] upt_add_eq_append [of 1 1026 2, simplified])
  ultimately show ?thesis
    by (simp add: quiet_event_def CoalesceFlushCeiling_def comp_def later_id_def loud_emission_def zeroOrigin_def)
qed

theorem quiet_session_wedges_witness:
  "snd (emitSnapshot demo_boundary (zeroOrigin\<lparr>og_EventID := of_nat 1027\<rparr>) no_supersession 1027
     (later_emission demo_boundary loud_emission
        (quiet_run demo_boundary 1000 (map quiet_event [1..<Suc (Suc CoalesceFlushCeiling)]) quiet_session))) = None"
proof -
  have all: "list_all (changes_nothing quiet_session) (map quiet_event [1..<Suc (Suc CoalesceFlushCeiling)])"
    by (simp add: list_all_iff quiet_session_ignores)
  have len: "length (map quiet_event [1..<Suc (Suc CoalesceFlushCeiling)]) = Suc CoalesceFlushCeiling" by simp
  have oid: "og_EventID (zeroOrigin\<lparr>og_EventID := of_nat 1027\<rparr>) = of_nat 1027" by simp
  show ?thesis
    using quiet_session_wedges [OF quiet_session_is(1) all len quiet_session_is(2-4), of "[loud_emission]"
        "zeroOrigin\<lparr>og_EventID := of_nat 1027\<rparr>", unfolded oid, OF quiet_ids refl,
        where b = demo_boundary and su = no_supersession and event = 1027 and now = 1000]
    by simp
qed

end
