(* ===== verification/Os_Text.thy ===== *)
theory Os_Text
  imports Go_Utf8 Go_Strings
begin

text \<open>
  Strings of CandaceOS: identifiers and labels (\<^verbatim>\<open>services/candaceos/validate.go\<close>), slash-separated
  paths (package \<^verbatim>\<open>path\<close>), and the patterns of the generated validators of
  \<^verbatim>\<open>proto/candace/candaceos/v1\<close>. White space is that of Unicode, over UTF-8 bytes.
\<close>

subsection \<open>White space\<close>

text \<open>The white space of package \<^verbatim>\<open>unicode\<close> outside ASCII.\<close>

definition wide_spaces :: "string list" where
  "wide_spaces =
     [[CHR 0xC2, CHR 0x85], [CHR 0xC2, CHR 0xA0], [CHR 0xE1, CHR 0x9A, CHR 0x80]]
     @ map (\<lambda>c. [CHR 0xE2, CHR 0x80, c])
         [CHR 0x80, CHR 0x81, CHR 0x82, CHR 0x83, CHR 0x84, CHR 0x85, CHR 0x86, CHR 0x87, CHR 0x88, CHR 0x89, CHR 0x8A,
          CHR 0xA8, CHR 0xA9, CHR 0xAF]
     @ [[CHR 0xE2, CHR 0x81, CHR 0x9F], [CHR 0xE3, CHR 0x80, CHR 0x80]]"

text \<open>\<^verbatim>\<open>unicode.IsSpace\<close>, and the class \<^verbatim>\<open>[\s\p{Z}\x{0085}]\<close>, which lacks the vertical tab.\<close>

definition unicode_spaces :: "string list" where
  "unicode_spaces = map (\<lambda>c. [c]) [CHR 0x09, CHR 0x0A, CHR 0x0B, CHR 0x0C, CHR 0x0D, CHR 0x20] @ wide_spaces"

definition regexp_spaces :: "string list" where
  "regexp_spaces = map (\<lambda>c. [c]) [CHR 0x09, CHR 0x0A, CHR 0x0C, CHR 0x0D, CHR 0x20] @ wide_spaces"

definition begins_with :: "string list \<Rightarrow> string \<Rightarrow> bool" where
  "begins_with ps s = list_ex (\<lambda>p. take (length p) s = p) ps"

definition ends_with :: "string list \<Rightarrow> string \<Rightarrow> bool" where
  "ends_with ps s = list_ex (\<lambda>p. length p \<le> length s \<and> drop (length s - length p) s = p) ps"

text \<open>\<^verbatim>\<open>value != strings.TrimSpace(value)\<close>.\<close>

definition untrimmed :: "string \<Rightarrow> bool" where
  "untrimmed s \<longleftrightarrow> begins_with unicode_spaces s \<or> ends_with unicode_spaces s"

definition contains_any :: "string \<Rightarrow> string \<Rightarrow> bool" where
  "contains_any s chars = list_ex (\<lambda>c. c \<in> set chars) s"

definition blanks :: string where "blanks = [CHR 0x20, CHR 0x09, CHR 0x0D, CHR 0x0A]"

subsection \<open>Identifiers and labels\<close>

text \<open>The first error of a list of checks.\<close>

fun first_error :: "'e option list \<Rightarrow> 'e option" where
  "first_error [] = None"
| "first_error (Some e # rest) = Some e"
| "first_error (None # rest) = first_error rest"

lemma first_error_None: "first_error es = None \<longleftrightarrow> list_all (\<lambda>e. e = None) es"
  by (induction es rule: first_error.induct) simp_all

definition fails :: "bool \<Rightarrow> 'e \<Rightarrow> 'e option" where
  "fails bad e = (if bad then Some e else None)"

lemma fails_None [simp]: "fails bad e = None \<longleftrightarrow> \<not> bad"
  by (simp add: fails_def)


datatype reason =
    Required string
  | HasWhitespace string
  | NeedsLabel string
  | InvalidKey string
  | InvalidValue string
  | Other string

definition validateID :: "string \<Rightarrow> string \<Rightarrow> reason option" where
  "validateID field value =
     (if value = [] then Some (Required field)
      else if untrimmed value \<or> contains_any value blanks then Some (HasWhitespace field)
      else None)"

text \<open>A map of the source: an association list with distinct keys, in the order of its keys.\<close>

type_synonym labels = "(string \<times> string) list"

fun first_bad_label :: "(string \<times> string) list \<Rightarrow> reason option" where
  "first_bad_label [] = None"
| "first_bad_label ((key, value) # rest) =
     (if key = [] \<or> untrimmed key \<or> contains_any key blanks then Some (InvalidKey key)
      else if value = [] \<or> untrimmed value then Some (InvalidValue key)
      else first_bad_label rest)"

definition validateLabels :: "string \<Rightarrow> labels \<Rightarrow> bool \<Rightarrow> reason option" where
  "validateLabels field ls requireOne =
     (if requireOne \<and> ls = [] then Some (NeedsLabel field) else first_bad_label ls)"

subsection \<open>Paths\<close>

fun split_slash_acc :: "string \<Rightarrow> string \<Rightarrow> string list" where
  "split_slash_acc w [] = [w]"
| "split_slash_acc w (c # cs) = (if c = CHR ''/'' then w # split_slash_acc [] cs else split_slash_acc (w @ [c]) cs)"

definition split_slash :: "string \<Rightarrow> string list" where
  "split_slash s = split_slash_acc [] s"

definition IsAbs :: "string \<Rightarrow> bool" where
  "IsAbs p \<longleftrightarrow> p \<noteq> [] \<and> hd p = CHR ''/''"

text \<open>
  \<^verbatim>\<open>path.Clean\<close> on the components: empty ones and \<^verbatim>\<open>.\<close> go, \<^verbatim>\<open>..\<close> removes the component before it,
  at the root nothing, and stays in front of a relative path.
\<close>

fun clean_components :: "bool \<Rightarrow> string list \<Rightarrow> string list \<Rightarrow> string list" where
  "clean_components rooted acc [] = rev acc"
| "clean_components rooted acc (c # cs) =
     (if c = [] \<or> c = ''.'' then clean_components rooted acc cs
      else if c = ''..'' then
        (case acc of
           [] \<Rightarrow> clean_components rooted (if rooted then [] else [c]) cs
         | d # ds \<Rightarrow> clean_components rooted (if d = ''..'' then c # acc else ds) cs)
      else clean_components rooted (c # acc) cs)"

definition path_Clean :: "string \<Rightarrow> string" where
  "path_Clean p =
     (let cleaned = strings_Join (clean_components (IsAbs p) [] (split_slash p)) ''/''
      in if IsAbs p then CHR ''/'' # cleaned else if cleaned = [] then ''.'' else cleaned)"

text \<open>\<^verbatim>\<open>path.Ext\<close>: from the last dot of the last component.\<close>

definition path_Ext :: "string \<Rightarrow> string" where
  "path_Ext p =
     (let c = last (split_slash p); after = takeWhile (\<lambda>x. x \<noteq> CHR ''.'') (rev c)
      in if length after = length c then [] else CHR ''.'' # rev after)"

definition ascii_lower :: "char \<Rightarrow> char" where
  "ascii_lower c = (let n = of_char c :: nat in if 65 \<le> n \<and> n \<le> 90 then char_of (n + 32) else c)"

definition yaml_exts :: "string list" where "yaml_exts = [''.yaml'', ''.yml'']"

datatype path_err = ComposeRequired | ComposeNotClean | ComposeNotYaml

definition validateComposePath :: "string \<Rightarrow> path_err option" where
  "validateComposePath p =
     (if p = [] then Some ComposeRequired
      else if CHR 0x5C \<in> set p \<or> IsAbs p \<or> path_Clean p \<noteq> p \<or> take 3 p = ''../'' then Some ComposeNotClean
      else if map ascii_lower (path_Ext p) \<notin> set yaml_exts then Some ComposeNotYaml
      else None)"

subsection \<open>Patterns of the generated validators\<close>

definition is_lower_alnum :: "char \<Rightarrow> bool" where
  "is_lower_alnum c \<longleftrightarrow> c \<in> set ''abcdefghijklmnopqrstuvwxyz0123456789''"

definition is_alnum :: "char \<Rightarrow> bool" where
  "is_alnum c \<longleftrightarrow> is_lower_alnum c \<or> c \<in> set ''ABCDEFGHIJKLMNOPQRSTUVWXYZ''"

definition is_hex :: "char \<Rightarrow> bool" where
  "is_hex c \<longleftrightarrow> c \<in> set ''0123456789abcdef''"

text \<open>\<^verbatim>\<open>^[A-Za-z0-9][A-Za-z0-9._:-]*$\<close> of 1 to 128 bytes.\<close>

definition node_id_ok :: "string \<Rightarrow> bool" where
  "node_id_ok s \<longleftrightarrow> s \<noteq> [] \<and> length s \<le> 128 \<and> is_alnum (hd s) \<and> list_all (\<lambda>c. is_alnum c \<or> c \<in> set ''._:-'') (tl s)"

text \<open>\<^verbatim>\<open>^[a-z0-9][a-z0-9._-]{0,62}$\<close> and, for a project, the same without the dot.\<close>

definition app_name_ok :: "string \<Rightarrow> bool" where
  "app_name_ok s \<longleftrightarrow> s \<noteq> [] \<and> length s \<le> 63 \<and> is_lower_alnum (hd s) \<and> list_all (\<lambda>c. is_lower_alnum c \<or> c \<in> set ''._-'') (tl s)"

definition project_ok :: "string \<Rightarrow> bool" where
  "project_ok s \<longleftrightarrow> s \<noteq> [] \<and> length s \<le> 63 \<and> is_lower_alnum (hd s) \<and> list_all (\<lambda>c. is_lower_alnum c \<or> c \<in> set ''_-'') (tl s)"

definition git_object_ok :: "string \<Rightarrow> bool" where
  "git_object_ok s \<longleftrightarrow> (length s = 40 \<or> length s = 64) \<and> list_all is_hex s"

definition sha256_ok :: "string \<Rightarrow> bool" where
  "sha256_ok s \<longleftrightarrow> take 7 s = ''sha256:'' \<and> length s = 71 \<and> list_all is_hex (drop 7 s)"

text \<open>No empty, \<^verbatim>\<open>.\<close> or \<^verbatim>\<open>..\<close> component and no backslash: what the pattern of a subtree path excludes.\<close>

definition plain_component :: "string \<Rightarrow> bool" where
  "plain_component c \<longleftrightarrow> c \<noteq> [] \<and> c \<noteq> ''.'' \<and> c \<noteq> ''..''"

definition subtree_ok :: "string \<Rightarrow> bool" where
  "subtree_ok p \<longleftrightarrow> p \<noteq> [] \<and> length p \<le> 512
     \<and> (p = ''.'' \<or> list_all plain_component (split_slash p) \<and> CHR 0x5C \<notin> set p)"

fun rune_count :: "nat \<Rightarrow> string \<Rightarrow> nat" where
  "rune_count left [] = 0"
| "rune_count (Suc left) (c # cs) = rune_count left cs"
| "rune_count 0 (c # cs) = Suc (rune_count (rune_len (c # cs) - 1) cs)"

text \<open>A path in an archive: also at most 255 characters in a component and 64 components.\<close>

definition entry_path_ok :: "string \<Rightarrow> bool" where
  "entry_path_ok p \<longleftrightarrow> p \<noteq> [] \<and> length p \<le> 1024 \<and> list_all plain_component (split_slash p) \<and> CHR 0x5C \<notin> set p
     \<and> list_all (\<lambda>c. rune_count 0 c < 256) (split_slash p)
     \<and> \<not> (64 < length (split_slash p) \<and> list_all (\<lambda>c. c \<noteq> []) (take 64 (split_slash p)))"

definition label_key_ok :: "string \<Rightarrow> bool" where
  "label_key_ok k \<longleftrightarrow> k \<noteq> [] \<and> \<not> contains_any k blanks \<and> \<not> begins_with regexp_spaces k \<and> \<not> ends_with regexp_spaces k"

definition label_value_ok :: "string \<Rightarrow> bool" where
  "label_value_ok v \<longleftrightarrow> v \<noteq> [] \<and> \<not> begins_with regexp_spaces v \<and> \<not> ends_with regexp_spaces v"

definition labels_ok :: "labels \<Rightarrow> bool" where
  "labels_ok ls \<longleftrightarrow> list_all (\<lambda>(k, v). label_key_ok k \<and> label_value_ok v) ls"

definition compose_pattern_ok :: "string \<Rightarrow> bool" where
  "compose_pattern_ok p \<longleftrightarrow> p \<noteq> [] \<and> length p \<le> 512 \<and> CHR 0x5C \<notin> set p
     \<and> list_ex (\<lambda>e. length e \<le> length p \<and> map ascii_lower (drop (length p - length e) p) = e) yaml_exts
     \<and> list_all plain_component (split_slash p)"

subsection \<open>Components of a path\<close>

lemma split_slash_acc_noslash:
  "CHR ''/'' \<notin> set w \<Longrightarrow> list_all (\<lambda>c. CHR ''/'' \<notin> set c) (split_slash_acc w s)"
  by (induction s arbitrary: w) simp_all

lemma split_slash_noslash: "c \<in> set (split_slash s) \<Longrightarrow> CHR ''/'' \<notin> set c"
  using split_slash_acc_noslash [of "[]" s] by (simp add: split_slash_def list_all_iff)

lemma split_slash_acc_ne [simp]: "split_slash_acc w s \<noteq> []"
  by (induction s arbitrary: w) simp_all

lemma Join_split_acc: "strings_Join (split_slash_acc w s) ''/'' = w @ s"
proof (induction s arbitrary: w)
  case (Cons c s)
  show ?case
  proof (cases "c = CHR ''/''")
    case True
    obtain v vs where "split_slash_acc [] s = v # vs" by (cases "split_slash_acc [] s") simp_all
    with Cons.IH [of "[]"] True show ?thesis by simp
  qed (simp add: Cons.IH)
qed simp

lemma Join_split: "strings_Join (split_slash s) ''/'' = s"
  by (simp add: split_slash_def Join_split_acc)

lemma clean_plain: "list_all plain_component cs \<Longrightarrow> clean_components rooted acc cs = rev acc @ cs"
  by (induction cs arbitrary: acc) (simp_all add: plain_component_def)

lemma plain_path_clean:
  assumes "list_all plain_component (split_slash p)"
  shows "path_Clean p = p" "\<not> IsAbs p" "take 3 p \<noteq> ''../''"
proof -
  have ne: "split_slash p \<noteq> []" by (simp add: split_slash_def)
  have p: "p = strings_Join (split_slash p) ''/''" by (simp add: Join_split)
  obtain c cs where c: "split_slash p = c # cs" using ne by (cases "split_slash p") simp_all
  have pc: "plain_component c" using assms c by simp
  have "strings_Join (c # cs) ''/'' = c @ (if cs = [] then [] else CHR ''/'' # strings_Join cs ''/'')" by (cases cs) simp_all
  then have "p = c @ (if cs = [] then [] else CHR ''/'' # strings_Join cs ''/'')" using p c by simp
  then obtain rest where rest: "p = c @ rest" by blast
  have nos: "CHR ''/'' \<notin> set c" using split_slash_noslash [of c p] c by simp
  show abs: "\<not> IsAbs p" using pc nos rest by (cases c) (auto simp: IsAbs_def plain_component_def)
  show "path_Clean p = p"
    using abs clean_plain [OF assms, of False "[]"] rest pc
    by (simp add: path_Clean_def Join_split plain_component_def)
  show "take 3 p \<noteq> ''../''"
  proof
    assume "take 3 p = ''../''"
    then obtain t where "p = ''../'' @ t" by (metis append_take_drop_id)
    then have "split_slash p = ''..'' # split_slash t" by (simp add: split_slash_def)
    then show False using pc c by (simp add: plain_component_def)
  qed
qed

end
