(* ===== verification/Os_Domain.thy ===== *)
theory Os_Domain
  imports Os_Text
begin

text \<open>
  The domain of CandaceOS (\<^verbatim>\<open>services/candaceos\<close>): nodes and clusters, revisions, placements,
  deployments, runs, approvals and receipts with their checks, the resolution of a placement over a
  cluster, and the append-only receipt log of a run.
\<close>

subsection \<open>Errors\<close>

text \<open>The sentinels of \<^verbatim>\<open>errors.go\<close>; \<open>Wrapped\<close> is \<^verbatim>\<open>%w: %w\<close>.\<close>

datatype sentinel =
    ErrInvalidNode | ErrInvalidAppRevision | ErrInvalidPlacement | ErrInvalidDeployment | ErrInvalidRun
  | ErrInvalidApproval | ErrInvalidReceipt | ErrInvalidClusterSnapshot | ErrNotAuthoritative | ErrNoQuorum
  | ErrLeaderUnavailable | ErrPlacementUnsatisfied | ErrReceiptAppend

datatype os_err =
    Because reason
  | BadPath path_err
  | Sentinel sentinel
  | Wrapped sentinel os_err

definition wraps :: "sentinel \<Rightarrow> os_err option \<Rightarrow> os_err option" where
  "wraps s e = map_option (Wrapped s) e"

definition because :: "reason option \<Rightarrow> os_err option" where
  "because r = map_option Because r"

lemma wraps_None [simp]: "wraps s e = None \<longleftrightarrow> e = None" "because r = None \<longleftrightarrow> r = None"
  by (simp_all add: wraps_def because_def)

subsection \<open>Nodes and clusters\<close>

record OsNode =
  on_Id :: string
  on_Labels :: labels
  on_Alive :: bool

fun node_label_error :: "labels \<Rightarrow> os_err option" where
  "node_label_error [] = None"
| "node_label_error ((k, v) # rest) =
     (if \<not> label_key_ok k then Some (Because (InvalidKey k))
      else if \<not> label_value_ok v then Some (Because (InvalidValue v))
      else node_label_error rest)"

definition ValidateNode :: "OsNode \<Rightarrow> os_err option" where
  "ValidateNode n =
     (if \<not> node_id_ok (on_Id n) then Some (Because (Other ''id'')) else node_label_error (on_Labels n))"

record ClusterSnapshot =
  cs_Nodes :: "OsNode list"
  cs_LeaderNodeID :: string
  cs_Authoritative :: bool
  cs_HasQuorum :: bool

fun nodes_error :: "string list \<Rightarrow> OsNode list \<Rightarrow> os_err option" where
  "nodes_error seen [] = None"
| "nodes_error seen (n # ns) =
     (case ValidateNode n of
        Some e \<Rightarrow> Some (Wrapped ErrInvalidNode e)
      | None \<Rightarrow>
          (if on_Id n \<in> set seen then Some (Because (Other ''duplicate node id'')) else nodes_error (on_Id n # seen) ns))"

definition ClusterSnapshot_Validate :: "ClusterSnapshot \<Rightarrow> os_err option" where
  "ClusterSnapshot_Validate c =
     (case nodes_error [] (cs_Nodes c) of
        Some e \<Rightarrow> Some (Wrapped ErrInvalidClusterSnapshot e)
      | None \<Rightarrow>
          (if cs_LeaderNodeID c \<noteq> []
           then wraps ErrInvalidClusterSnapshot (because (validateID ''leader_node_id'' (cs_LeaderNodeID c))) else None))"

subsection \<open>Revisions and deployments\<close>

record AppRevision =
  rv_ID :: string
  rv_AppID :: string
  rv_Source :: string
  rv_Revision :: string
  rv_Digest :: string
  rv_ComposePath :: string

definition AppRevision_Validate :: "AppRevision \<Rightarrow> os_err option" where
  "AppRevision_Validate r =
     wraps ErrInvalidAppRevision (first_error
       [because (validateID ''id'' (rv_ID r)),
        because (validateID ''app_id'' (rv_AppID r)),
        fails (rv_Source r = [] \<or> untrimmed (rv_Source r)) (Because (Other ''source'')),
        fails (\<not> git_object_ok (rv_Revision r)) (Because (Other ''revision'')),
        fails (\<not> sha256_ok (rv_Digest r)) (Because (Other ''digest'')),
        map_option BadPath (validateComposePath (rv_ComposePath r))])"

definition DesiredStateRunning :: string where "DesiredStateRunning = ''running''"
definition DesiredStateStopped :: string where "DesiredStateStopped = ''stopped''"

record MatchLabelsPlacement =
  ml_Labels :: labels
  ml_Replicas :: int

text \<open>A pointer that may be nil is an option; \<^verbatim>\<open>LeaderPlacement\<close> has no fields.\<close>

record Placement =
  pc_ExactNode :: "string option"
  pc_Leader :: "unit option"
  pc_MatchLabels :: "MatchLabelsPlacement option"

definition variants :: "Placement \<Rightarrow> nat" where
  "variants p = (if pc_ExactNode p \<noteq> None then 1 else 0) + (if pc_Leader p \<noteq> None then 1 else 0)
     + (if pc_MatchLabels p \<noteq> None then 1 else 0)"

definition Placement_Validate :: "Placement \<Rightarrow> os_err option" where
  "Placement_Validate p =
     wraps ErrInvalidPlacement (first_error
       [fails (variants p \<noteq> 1) (Because (Other ''exactly one variant'')),
        (case pc_ExactNode p of None \<Rightarrow> None | Some n \<Rightarrow> because (validateID ''exact_node.node_id'' n)),
        (case pc_MatchLabels p of
           None \<Rightarrow> None
         | Some m \<Rightarrow>
             first_error [because (validateLabels ''match_labels.labels'' (ml_Labels m) True),
               fails (ml_Replicas m < 1) (Because (Other ''match_labels.replicas''))])])"

record Deployment =
  dp_ID :: string
  dp_AppRevisionID :: string
  dp_DesiredState :: string
  dp_Placement :: Placement
  dp_Stateful :: bool

definition Deployment_Validate :: "Deployment \<Rightarrow> os_err option" where
  "Deployment_Validate d =
     wraps ErrInvalidDeployment (first_error
       [because (validateID ''id'' (dp_ID d)),
        because (validateID ''app_revision_id'' (dp_AppRevisionID d)),
        fails (dp_DesiredState d \<noteq> DesiredStateRunning \<and> dp_DesiredState d \<noteq> DesiredStateStopped) (Because (Other ''desired_state'')),
        Placement_Validate (dp_Placement d),
        fails (dp_Stateful d \<and> pc_ExactNode (dp_Placement d) = None) (Because (Other ''stateful''))])"

subsection \<open>Resolution of a placement\<close>

text \<open>\<^verbatim>\<open>sort.Slice\<close> is not stable; the nodes it sorts have distinct identifiers.\<close>

definition aliveNodesSorted :: "OsNode list \<Rightarrow> OsNode list" where
  "aliveNodesSorted nodes = sort_key on_Id (filter on_Alive nodes)"

definition hasExactLabels :: "labels \<Rightarrow> labels \<Rightarrow> bool" where
  "hasExactLabels actual required = list_all (\<lambda>(k, v). map_get [] actual k = v) required"

definition ResolvePlacement :: "Deployment \<Rightarrow> ClusterSnapshot \<Rightarrow> os_err + OsNode list" where
  "ResolvePlacement d c =
     (case Deployment_Validate d of Some e \<Rightarrow> Inl e | None \<Rightarrow>
      case ClusterSnapshot_Validate c of Some e \<Rightarrow> Inl e | None \<Rightarrow>
      if dp_DesiredState d = DesiredStateStopped then Inr []
      else if \<not> cs_Authoritative c then Inl (Sentinel ErrNotAuthoritative)
      else if \<not> cs_HasQuorum c then Inl (Sentinel ErrNoQuorum)
      else if cs_LeaderNodeID c = [] then Inl (Sentinel ErrLeaderUnavailable)
      else
        let alive = aliveNodesSorted (cs_Nodes c)
        in case find (\<lambda>n. on_Id n = cs_LeaderNodeID c) alive of
             None \<Rightarrow> Inl (Sentinel ErrLeaderUnavailable)
           | Some leader \<Rightarrow>
               (case pc_ExactNode (dp_Placement d) of
                  Some nodeID \<Rightarrow>
                    (case find (\<lambda>n. on_Id n = nodeID) alive of
                       Some n \<Rightarrow> Inr [n]
                     | None \<Rightarrow> Inl (Sentinel ErrPlacementUnsatisfied))
                | None \<Rightarrow>
                    if pc_Leader (dp_Placement d) \<noteq> None then Inr [leader]
                    else
                      case pc_MatchLabels (dp_Placement d) of
                        Some policy \<Rightarrow>
                          (let matches = filter (\<lambda>n. hasExactLabels (on_Labels n) (ml_Labels policy)) alive
                           in if int (length matches) < ml_Replicas policy then Inl (Sentinel ErrPlacementUnsatisfied)
                              else Inr (take (nat (ml_Replicas policy)) matches))
                      | None \<Rightarrow> Inl (Sentinel ErrInvalidPlacement)))"

subsection \<open>Runs and approvals\<close>

definition RunStatusQueued :: string where "RunStatusQueued = ''queued''"
definition RunStatusAwaitingApproval :: string where "RunStatusAwaitingApproval = ''awaiting_approval''"
definition RunStatusRunning :: string where "RunStatusRunning = ''running''"
definition RunStatusSucceeded :: string where "RunStatusSucceeded = ''succeeded''"
definition RunStatusFailed :: string where "RunStatusFailed = ''failed''"
definition RunStatusCanceled :: string where "RunStatusCanceled = ''canceled''"

record OsRun =
  ru_ID :: string
  ru_DeploymentID :: string
  ru_AppRevisionID :: string
  ru_NodeID :: string
  ru_Status :: string
  ru_RequestedAt :: time
  ru_StartedAt :: "time option"
  ru_FinishedAt :: "time option"

definition before :: "time option \<Rightarrow> time \<Rightarrow> bool" where
  "before a b = (case a of None \<Rightarrow> False | Some x \<Rightarrow> x < b)"

definition run_status_error :: "OsRun \<Rightarrow> os_err option" where
  "run_status_error r =
     (let s = ru_Status r; started = ru_StartedAt r \<noteq> None; finished = ru_FinishedAt r \<noteq> None
      in if s = RunStatusQueued \<or> s = RunStatusAwaitingApproval then fails (started \<or> finished) (Because (Other ''not started''))
         else if s = RunStatusRunning then fails (\<not> started \<or> finished) (Because (Other ''running''))
         else if s = RunStatusSucceeded \<or> s = RunStatusFailed then fails (\<not> started \<or> \<not> finished) (Because (Other ''finished''))
         else if s = RunStatusCanceled then fails (\<not> finished) (Because (Other ''canceled''))
         else Some (Because (Other ''unknown status'')))"

definition Run_Validate :: "OsRun \<Rightarrow> os_err option" where
  "Run_Validate r =
     wraps ErrInvalidRun (first_error
       [because (validateID ''id'' (ru_ID r)),
        because (validateID ''deployment_id'' (ru_DeploymentID r)),
        because (validateID ''app_revision_id'' (ru_AppRevisionID r)),
        because (validateID ''node_id'' (ru_NodeID r)),
        fails (IsZero (ru_RequestedAt r)) (Because (Other ''requested_at'')),
        fails (before (ru_StartedAt r) (ru_RequestedAt r)) (Because (Other ''started_at'')),
        fails (before (ru_FinishedAt r) (ru_RequestedAt r)) (Because (Other ''finished_at'')),
        fails (case ru_StartedAt r of None \<Rightarrow> False | Some t \<Rightarrow> before (ru_FinishedAt r) t) (Because (Other ''finished_at'')),
        run_status_error r])"

definition ApprovalPending :: string where "ApprovalPending = ''pending''"
definition ApprovalApproved :: string where "ApprovalApproved = ''approved''"
definition ApprovalDenied :: string where "ApprovalDenied = ''denied''"

record DomainApproval =
  da_ID :: string
  da_RunID :: string
  da_Action :: string
  da_Decision :: string
  da_RequestedAt :: time
  da_DecidedAt :: "time option"
  da_DecidedBy :: string
  da_Reason :: string

definition Approval_Validate :: "DomainApproval \<Rightarrow> os_err option" where
  "Approval_Validate a =
     wraps ErrInvalidApproval (first_error
       [because (validateID ''id'' (da_ID a)),
        because (validateID ''run_id'' (da_RunID a)),
        fails (da_Action a = []) (Because (Other ''action'')),
        fails (IsZero (da_RequestedAt a)) (Because (Other ''requested_at'')),
        (if da_Decision a = ApprovalPending then
           fails (da_DecidedAt a \<noteq> None \<or> da_DecidedBy a \<noteq> [] \<or> da_Reason a \<noteq> []) (Because (Other ''pending''))
         else if da_Decision a = ApprovalApproved \<or> da_Decision a = ApprovalDenied then
           first_error
             [fails (da_DecidedAt a = None) (Because (Other ''decided_at'')),
              fails (before (da_DecidedAt a) (da_RequestedAt a)) (Because (Other ''decided_at'')),
              because (validateID ''decided_by'' (da_DecidedBy a))]
         else Some (Because (Other ''unknown decision'')))])"

subsection \<open>Receipts\<close>

text \<open>\<^verbatim>\<open>^[a-z][a-z0-9]*(?:[._-][a-z0-9]+)*$\<close>; the flag: a letter or digit was just read.\<close>

fun kind_from :: "bool \<Rightarrow> string \<Rightarrow> bool" where
  "kind_from in_word [] = in_word"
| "kind_from in_word (c # cs) =
     (if is_lower_alnum c then kind_from True cs else in_word \<and> c \<in> set ''._-'' \<and> kind_from False cs)"

definition receiptKindPattern :: "string \<Rightarrow> bool" where
  "receiptKindPattern s \<longleftrightarrow> s \<noteq> [] \<and> hd s \<in> set ''abcdefghijklmnopqrstuvwxyz'' \<and> kind_from False s"

record Receipt =
  rc_ID :: string
  rc_RunID :: string
  rc_Sequence :: "64 word"
  rc_Kind :: string
  rc_At :: time
  rc_Summary :: string

definition Receipt_Validate :: "Receipt \<Rightarrow> os_err option" where
  "Receipt_Validate r =
     wraps ErrInvalidReceipt (first_error
       [because (validateID ''id'' (rc_ID r)),
        because (validateID ''run_id'' (rc_RunID r)),
        fails (rc_Sequence r = 0) (Because (Other ''sequence'')),
        fails (\<not> receiptKindPattern (rc_Kind r)) (Because (Other ''kind'')),
        fails (IsZero (rc_At r)) (Because (Other ''at'')),
        fails (rc_Summary r = []) (Because (Other ''summary''))])"

record ReceiptLog =
  lg_runID :: string
  lg_entries :: "Receipt list"

definition NewReceiptLog :: "string \<Rightarrow> os_err + ReceiptLog" where
  "NewReceiptLog runID =
     (case wraps ErrReceiptAppend (because (validateID ''run_id'' runID)) of
        Some e \<Rightarrow> Inl e
      | None \<Rightarrow> Inr \<lparr>lg_runID = runID, lg_entries = []\<rparr>)"

definition append_error :: "ReceiptLog \<Rightarrow> Receipt \<Rightarrow> os_err option" where
  "append_error l r =
     wraps ErrReceiptAppend (first_error
       [Receipt_Validate r,
        fails (rc_RunID r \<noteq> lg_runID l) (Because (Other ''run_id'')),
        fails (rc_Sequence r \<noteq> of_nat (length (lg_entries l)) + 1) (Because (Other ''sequence'')),
        fails (rc_ID r \<in> rc_ID ` set (lg_entries l)) (Because (Other ''duplicate'')),
        fails (lg_entries l \<noteq> [] \<and> rc_At r < rc_At (last (lg_entries l))) (Because (Other ''at''))])"

definition ReceiptLog_Append :: "Receipt \<Rightarrow> ReceiptLog \<Rightarrow> os_err + ReceiptLog" where
  "ReceiptLog_Append r l =
     (case append_error l r of
        Some e \<Rightarrow> Inl e
      | None \<Rightarrow> Inr (l\<lparr>lg_entries := lg_entries l @ [r]\<rparr>))"

fun append_all :: "Receipt list \<Rightarrow> ReceiptLog \<Rightarrow> os_err + ReceiptLog" where
  "append_all [] l = Inr l"
| "append_all (r # rs) l = and_then (ReceiptLog_Append r l) (append_all rs)"

definition RestoreReceiptLog :: "string \<Rightarrow> Receipt list \<Rightarrow> os_err + ReceiptLog" where
  "RestoreReceiptLog runID receipts = and_then (NewReceiptLog runID) (append_all receipts)"

definition ReceiptLog_Entries :: "ReceiptLog \<Rightarrow> Receipt list" where
  "ReceiptLog_Entries l = lg_entries l"

definition ReceiptLog_Len :: "ReceiptLog \<Rightarrow> nat" where
  "ReceiptLog_Len l = length (lg_entries l)"

end
