(* ===== verification/Os_Placement.thy ===== *)
theory Os_Placement
  imports Os_Domain
begin

text \<open>What the receipt log accepts, and what a resolved placement is.\<close>

subsection \<open>Receipt histories\<close>

definition history_ok :: "string \<Rightarrow> Receipt list \<Rightarrow> bool" where
  "history_ok run rs \<longleftrightarrow>
     list_all (\<lambda>r. Receipt_Validate r = None \<and> rc_RunID r = run) rs
     \<and> map rc_Sequence rs = map of_nat [1..<Suc (length rs)]
     \<and> distinct (map rc_ID rs) \<and> sorted (map rc_At rs)"

lemma history_snoc:
  "history_ok run (rs @ [r]) \<longleftrightarrow>
     history_ok run rs \<and> Receipt_Validate r = None \<and> rc_RunID r = run \<and> rc_Sequence r = of_nat (length rs) + 1
     \<and> rc_ID r \<notin> rc_ID ` set rs \<and> (rs = [] \<or> rc_At (last rs) \<le> rc_At r)"
proof -
  have "sorted (map rc_At rs @ [rc_At r]) \<longleftrightarrow> sorted (map rc_At rs) \<and> (rs = [] \<or> rc_At (last rs) \<le> rc_At r)"
  proof (cases rs rule: rev_cases)
    case (snoc ys y)
    then show ?thesis by (auto simp: sorted_append)
  qed simp
  then show ?thesis by (auto simp: history_ok_def add.commute)
qed

lemma append_error_None:
  "append_error l r = None \<longleftrightarrow>
     Receipt_Validate r = None \<and> rc_RunID r = lg_runID l \<and> rc_Sequence r = of_nat (length (lg_entries l)) + 1
     \<and> rc_ID r \<notin> rc_ID ` set (lg_entries l) \<and> (lg_entries l = [] \<or> rc_At (last (lg_entries l)) \<le> rc_At r)"
  by (auto simp: append_error_def first_error_None not_less)

lemma append_history:
  assumes "history_ok (lg_runID l) (lg_entries l)"
  shows "ReceiptLog_Append r l = Inr l' \<longleftrightarrow>
     history_ok (lg_runID l) (lg_entries l @ [r]) \<and> l' = l\<lparr>lg_entries := lg_entries l @ [r]\<rparr>"
  using assms append_error_None [of l r]
  by (auto simp: ReceiptLog_Append_def history_snoc split: option.split)

lemma history_prefix: "history_ok run (rs @ ss) \<Longrightarrow> history_ok run rs"
  by (induction ss rule: rev_induct) (simp_all add: history_snoc flip: append_assoc)

lemma append_all_history:
  assumes "history_ok (lg_runID l) (lg_entries l)"
  shows "append_all rs l = Inr l' \<longleftrightarrow>
     history_ok (lg_runID l) (lg_entries l @ rs) \<and> l' = l\<lparr>lg_entries := lg_entries l @ rs\<rparr>"
  using assms
proof (induction rs arbitrary: l)
  case Nil
  then show ?case by auto
next
  case (Cons r rs)
  let ?m = "l\<lparr>lg_entries := lg_entries l @ [r]\<rparr>"
  show ?case
  proof (cases "history_ok (lg_runID l) (lg_entries l @ [r])")
    case True
    then have "ReceiptLog_Append r l = Inr ?m" using append_history [OF Cons.prems] by simp
    then show ?thesis using Cons.IH [of ?m] True by simp
  next
    case False
    then have "\<not> history_ok (lg_runID l) (lg_entries l @ r # rs)"
      using history_prefix [of "lg_runID l" "lg_entries l @ [r]" rs] by auto
    moreover have "ReceiptLog_Append r l \<noteq> Inr m" for m using append_history [OF Cons.prems] False by simp
    ultimately show ?thesis by (auto simp: and_then_Inr)
  qed
qed

lemma history_Nil [simp]: "history_ok run []"
  by (simp add: history_ok_def)

subsection \<open>Nodes of a valid cluster\<close>

lemma nodes_error_None:
  "nodes_error seen ns = None \<longleftrightarrow>
     list_all (\<lambda>n. ValidateNode n = None) ns \<and> distinct (map on_Id ns) \<and> set (map on_Id ns) \<inter> set seen = {}"
  by (induction ns arbitrary: seen) (auto split: option.split)

lemma cluster_valid:
  "ClusterSnapshot_Validate c = None \<longleftrightarrow>
     list_all (\<lambda>n. ValidateNode n = None) (cs_Nodes c) \<and> distinct (map on_Id (cs_Nodes c))
     \<and> (cs_LeaderNodeID c = [] \<or> validateID ''leader_node_id'' (cs_LeaderNodeID c) = None)"
  using nodes_error_None [of "[]" "cs_Nodes c"]
  by (cases "nodes_error [] (cs_Nodes c)") (auto simp: ClusterSnapshot_Validate_def)

lemma set_alive [simp]: "set (aliveNodesSorted ns) = {n \<in> set ns. on_Alive n}"
  by (auto simp: aliveNodesSorted_def)

lemma sorted_alive: "sorted (map on_Id (aliveNodesSorted ns))"
  by (simp add: aliveNodesSorted_def)

lemma distinct_alive:
  assumes "distinct (map on_Id ns)"
  shows "distinct (map on_Id (aliveNodesSorted ns))"
proof -
  have "distinct (map on_Id (filter on_Alive ns))" using assms by (rule distinct_map_filter)
  then have "distinct (filter on_Alive ns)" "inj_on on_Id (set (filter on_Alive ns))"
    by (simp_all only: distinct_map)
  then show ?thesis by (simp add: aliveNodesSorted_def distinct_map)
qed

lemma alive_order_free:
  assumes "mset ns = mset ms" "distinct (map on_Id ns)"
  shows "aliveNodesSorted ns = aliveNodesSorted ms"
proof -
  have m: "mset (filter on_Alive ns) = mset (filter on_Alive ms)" using assms(1) by (simp add: mset_filter)
  have "distinct (map on_Id (filter on_Alive ns))" using assms(2) by (rule distinct_map_filter)
  then have "inj_on on_Id (set (filter on_Alive ns))" by (simp only: distinct_map)
  then show ?thesis
    unfolding aliveNodesSorted_def using m by (intro sort_key_inj_key_eq) simp_all
qed

subsection \<open>Properties\<close>

text \<open>
  C28. A receipt history is accepted from storage exactly when it is a history the log could have
  grown: valid receipts of the one run, numbered 1, 2, 3 and so on, with distinct identifiers and
  times that do not go back; and it is restored as it was. Appending keeps what is there.
\<close>

theorem receipts_restore:
  "RestoreReceiptLog run rs = Inr l \<longleftrightarrow>
     validateID ''run_id'' run = None \<and> history_ok run rs \<and> l = \<lparr>lg_runID = run, lg_entries = rs\<rparr>"
proof (cases "validateID ''run_id'' run")
  case None
  then show ?thesis
    using append_all_history [of "\<lparr>lg_runID = run, lg_entries = []\<rparr>" rs l]
    by (simp add: RestoreReceiptLog_def NewReceiptLog_def because_def wraps_def)
next
  case (Some e)
  then show ?thesis by (simp add: RestoreReceiptLog_def NewReceiptLog_def because_def wraps_def)
qed

lemma find_id:
  "find (\<lambda>n. on_Id n = i) ns = Some n \<Longrightarrow> n \<in> set ns \<and> on_Id n = i"
  by (auto simp: find_Some_iff)

lemma resolve_cases:
  assumes "ResolvePlacement d c = Inr ns" "dp_DesiredState d \<noteq> DesiredStateStopped"
  obtains leader where "Deployment_Validate d = None" "ClusterSnapshot_Validate c = None" "cs_Authoritative c" "cs_HasQuorum c"
    and "leader \<in> set (cs_Nodes c)" "on_Alive leader" "on_Id leader = cs_LeaderNodeID c"
    and "(\<exists>i n. pc_ExactNode (dp_Placement d) = Some i \<and> n \<in> set (cs_Nodes c) \<and> on_Alive n \<and> on_Id n = i \<and> ns = [n])
         \<or> (pc_ExactNode (dp_Placement d) = None \<and> pc_Leader (dp_Placement d) \<noteq> None \<and> ns = [leader])
         \<or> (\<exists>m. pc_ExactNode (dp_Placement d) = None \<and> pc_MatchLabels (dp_Placement d) = Some m
              \<and> ns = take (nat (ml_Replicas m)) (filter (\<lambda>n. hasExactLabels (on_Labels n) (ml_Labels m)) (aliveNodesSorted (cs_Nodes c)))
              \<and> ml_Replicas m \<le> int (length (filter (\<lambda>n. hasExactLabels (on_Labels n) (ml_Labels m)) (aliveNodesSorted (cs_Nodes c)))))"
proof -
  obtain leader where l: "find (\<lambda>n. on_Id n = cs_LeaderNodeID c) (aliveNodesSorted (cs_Nodes c)) = Some leader"
    and v: "Deployment_Validate d = None" "ClusterSnapshot_Validate c = None" "cs_Authoritative c" "cs_HasQuorum c"
    using assms by (auto simp: ResolvePlacement_def Let_def split: option.splits if_splits)
  note f = find_id [OF l]
  have lead: "leader \<in> set (cs_Nodes c)" "on_Alive leader" "on_Id leader = cs_LeaderNodeID c" using f by simp_all
  have eq: "(case pc_ExactNode (dp_Placement d) of
                  Some nodeID \<Rightarrow>
                    (case find (\<lambda>n. on_Id n = nodeID) (aliveNodesSorted (cs_Nodes c)) of
                       Some n \<Rightarrow> Inr [n]
                     | None \<Rightarrow> Inl (Sentinel ErrPlacementUnsatisfied))
                | None \<Rightarrow>
                    if pc_Leader (dp_Placement d) \<noteq> None then Inr [leader]
                    else
                      case pc_MatchLabels (dp_Placement d) of
                        Some policy \<Rightarrow>
                          (let matches = filter (\<lambda>n. hasExactLabels (on_Labels n) (ml_Labels policy)) (aliveNodesSorted (cs_Nodes c))
                           in if int (length matches) < ml_Replicas policy then Inl (Sentinel ErrPlacementUnsatisfied)
                              else Inr (take (nat (ml_Replicas policy)) matches))
                      | None \<Rightarrow> Inl (Sentinel ErrInvalidPlacement)) = Inr ns"
    using assms v l by (simp add: ResolvePlacement_def Let_def split: if_splits)
  show ?thesis
  proof (rule that [OF v lead])
  qed (use eq in \<open>auto simp: Let_def dest!: find_id split: option.splits if_splits\<close>)
qed

lemma take_filter_least:
  assumes "sorted_wrt R xs" "x \<in> set xs" "x \<notin> set (take k xs)" "y \<in> set (take k xs)"
  shows "R y x"
proof -
  have "sorted_wrt R (take k xs @ drop k xs)" using assms(1) by simp
  moreover have "x \<in> set (drop k xs)" using assms(2,3) by (metis Un_iff append_take_drop_id set_append)
  ultimately show ?thesis using assms(4) unfolding sorted_wrt_append by blast
qed

text \<open>
  C15. A running deployment is placed only by an authoritative cluster with quorum whose elected leader
  is alive, on distinct alive nodes in the order of their identifiers: on the exact node, on the
  leader, or on exactly the requested number of nodes that carry all the labels, the least ones of
  those that do. There is never a partial placement.
\<close>

theorem placement_resolved:
  assumes "ResolvePlacement d c = Inr ns" "dp_DesiredState d \<noteq> DesiredStateStopped"
  shows "cs_Authoritative c \<and> cs_HasQuorum c \<and> (\<exists>l\<in>set (cs_Nodes c). on_Alive l \<and> on_Id l = cs_LeaderNodeID c)
    \<and> sorted_wrt (<) (map on_Id ns) \<and> set ns \<subseteq> {n \<in> set (cs_Nodes c). on_Alive n}
    \<and> (case pc_ExactNode (dp_Placement d) of
         Some i \<Rightarrow> map on_Id ns = [i]
       | None \<Rightarrow>
           (case pc_MatchLabels (dp_Placement d) of
              None \<Rightarrow> map on_Id ns = [cs_LeaderNodeID c]
            | Some m \<Rightarrow>
                int (length ns) = ml_Replicas m \<and> ml_Replicas m > 0
                \<and> (\<forall>n\<in>set ns. hasExactLabels (on_Labels n) (ml_Labels m))
                \<and> (\<forall>n\<in>set (cs_Nodes c). on_Alive n \<and> hasExactLabels (on_Labels n) (ml_Labels m) \<and> n \<notin> set ns
                     \<longrightarrow> (\<forall>k\<in>set ns. on_Id k < on_Id n))))"
proof -
  obtain leader where v: "Deployment_Validate d = None" "ClusterSnapshot_Validate c = None" "cs_Authoritative c" "cs_HasQuorum c"
    and lead: "leader \<in> set (cs_Nodes c)" "on_Alive leader" "on_Id leader = cs_LeaderNodeID c"
    and how: "(\<exists>i n. pc_ExactNode (dp_Placement d) = Some i \<and> n \<in> set (cs_Nodes c) \<and> on_Alive n \<and> on_Id n = i \<and> ns = [n])
         \<or> (pc_ExactNode (dp_Placement d) = None \<and> pc_Leader (dp_Placement d) \<noteq> None \<and> ns = [leader])
         \<or> (\<exists>m. pc_ExactNode (dp_Placement d) = None \<and> pc_MatchLabels (dp_Placement d) = Some m
              \<and> ns = take (nat (ml_Replicas m)) (filter (\<lambda>n. hasExactLabels (on_Labels n) (ml_Labels m)) (aliveNodesSorted (cs_Nodes c)))
              \<and> ml_Replicas m \<le> int (length (filter (\<lambda>n. hasExactLabels (on_Labels n) (ml_Labels m)) (aliveNodesSorted (cs_Nodes c)))))"
    by (rule resolve_cases [OF assms])
  have pv: "Placement_Validate (dp_Placement d) = None"
    using v(1) by (simp add: Deployment_Validate_def first_error_None)
  have one: "pc_MatchLabels (dp_Placement d) = None" if "pc_Leader (dp_Placement d) \<noteq> None"
    using pv that by (auto simp: Placement_Validate_def first_error_None variants_def split: if_splits)
  have common: "cs_Authoritative c \<and> cs_HasQuorum c \<and> (\<exists>l\<in>set (cs_Nodes c). on_Alive l \<and> on_Id l = cs_LeaderNodeID c)"
    using v lead by blast
  from how show ?thesis
  proof (elim disjE exE conjE)
    fix i n assume "pc_ExactNode (dp_Placement d) = Some i" "n \<in> set (cs_Nodes c)" "on_Alive n" "on_Id n = i" "ns = [n]"
    with common show ?thesis by simp
  next
    assume "pc_ExactNode (dp_Placement d) = None" "pc_Leader (dp_Placement d) \<noteq> None" "ns = [leader]"
    with common one lead show ?thesis by simp
  next
    fix m :: MatchLabelsPlacement
    let ?match = "\<lambda>n. hasExactLabels (on_Labels n) (ml_Labels m)"
    let ?all = "filter ?match (aliveNodesSorted (cs_Nodes c))"
    assume e: "pc_ExactNode (dp_Placement d) = None" and m: "pc_MatchLabels (dp_Placement d) = Some m"
      and ns: "ns = take (nat (ml_Replicas m)) ?all" and enough: "ml_Replicas m \<le> int (length ?all)"
    have pos: "ml_Replicas m > 0" using pv by (auto simp: Placement_Validate_def first_error_None m)
    have "distinct (map on_Id (cs_Nodes c))" using v(2) by (simp add: cluster_valid)
    then have "distinct (map on_Id ?all)" using distinct_alive distinct_map_filter by blast
    moreover have "sorted (map on_Id ?all)" using sorted_alive sorted_filter by blast
    ultimately have strict: "sorted_wrt (<) (map on_Id ?all)" by (simp add: strict_sorted_iff)
    have "sorted_wrt (<) (map on_Id ns)" unfolding ns take_map [symmetric] using strict by (rule sorted_wrt_take)
    moreover have "set ns \<subseteq> set ?all" unfolding ns by (rule set_take_subset)
    moreover have "int (length ns) = ml_Replicas m" using enough pos by (simp add: ns)
    moreover have "on_Id k < on_Id n" if "n \<in> set ?all" "n \<notin> set ns" "k \<in> set ns" for n k
      using take_filter_least [OF strict [unfolded sorted_wrt_map] that(1) that(2,3) [unfolded ns]] .
    ultimately show ?thesis using common pos by (auto simp: e m)
  qed
qed

text \<open>
  The resolved nodes do not depend on the order in which the cluster lists its nodes.
\<close>

theorem placement_order_free:
  assumes "ClusterSnapshot_Validate c = None" "mset ns = mset (cs_Nodes c)"
  shows "ResolvePlacement d (c\<lparr>cs_Nodes := ns\<rparr>) = ResolvePlacement d c"
proof -
  have d: "distinct (map on_Id (cs_Nodes c))" using assms(1) by (simp add: cluster_valid)
  have "mset (map on_Id ns) = mset (map on_Id (cs_Nodes c))" by (simp add: assms(2))
  then have d': "distinct (map on_Id ns)" using d by (metis mset_eq_imp_distinct_iff)
  have "aliveNodesSorted ns = aliveNodesSorted (cs_Nodes c)" using alive_order_free [OF assms(2) d'] .
  moreover have "ClusterSnapshot_Validate (c\<lparr>cs_Nodes := ns\<rparr>) = None"
    using assms d' by (auto simp: cluster_valid list_all_iff dest: mset_eq_setD)
  ultimately show ?thesis using assms(1) by (simp add: ResolvePlacement_def Let_def cong: option.case_cong)
qed

subsection \<open>An example\<close>

definition demo_node :: "string \<Rightarrow> string \<Rightarrow> bool \<Rightarrow> OsNode" where
  "demo_node i disk alive = \<lparr>on_Id = i, on_Labels = [(''disk'', disk)], on_Alive = alive\<rparr>"

definition demo_cluster :: ClusterSnapshot where
  "demo_cluster =
     \<lparr>cs_Nodes = [demo_node ''c'' ''ssd'' True, demo_node ''a'' ''ssd'' True, demo_node ''b'' ''ssd'' False,
        demo_node ''d'' ''ssd'' True], cs_LeaderNodeID = ''c'', cs_Authoritative = True, cs_HasQuorum = True\<rparr>"

definition demo_deployment :: Deployment where
  "demo_deployment =
     \<lparr>dp_ID = ''app'', dp_AppRevisionID = ''r1'', dp_DesiredState = DesiredStateRunning,
      dp_Placement = \<lparr>pc_ExactNode = None, pc_Leader = None,
        pc_MatchLabels = Some \<lparr>ml_Labels = [(''disk'', ''ssd'')], ml_Replicas = 2\<rparr>\<rparr>,
      dp_Stateful = False\<rparr>"

lemma demo_placement_valid:
  "Deployment_Validate demo_deployment = None" "ClusterSnapshot_Validate demo_cluster = None"
  by code_simp+

lemma demo_resolved:
  "ResolvePlacement demo_deployment demo_cluster = Inr [demo_node ''a'' ''ssd'' True, demo_node ''c'' ''ssd'' True]"
  by code_simp

theorem placement_resolved_witness:
  "ResolvePlacement demo_deployment demo_cluster = Inr [demo_node ''a'' ''ssd'' True, demo_node ''c'' ''ssd'' True]
   \<and> sorted_wrt (<) (map on_Id [demo_node ''a'' ''ssd'' True, demo_node ''c'' ''ssd'' True])"
proof -
  have "dp_DesiredState demo_deployment \<noteq> DesiredStateStopped" by code_simp
  from placement_resolved [OF demo_resolved this] show ?thesis using demo_resolved by blast
qed

theorem placement_order_free_witness:
  "ResolvePlacement demo_deployment (demo_cluster\<lparr>cs_Nodes := rev (cs_Nodes demo_cluster)\<rparr>)
   = ResolvePlacement demo_deployment demo_cluster"
  using placement_order_free [OF demo_placement_valid(2), of "rev (cs_Nodes demo_cluster)" demo_deployment] by simp

end
