(* ===== verification/Os_Agent.thy ===== *)
theory Os_Agent
  imports Os_Text
begin

text \<open>
  The node agent of CandaceOS (\<^verbatim>\<open>app/candaceos-agent/internal/agent\<close>): the durable snapshot and its
  stores, the Docker Compose runner, and the reconciler that fences leaders. The file system, Git
  and Docker answer through records of functions of the number of the operation, so that a later
  call may be answered differently; every call that can fail takes its outcome from a script.
\<close>

subsection \<open>Messages\<close>

record Fence =
  fn_Term :: "64 word"
  fn_LeaderId :: string

record Assignment =
  as_App :: string
  as_Project :: string
  as_Path :: string
  as_DesiredState :: int
  as_SourceRevision :: string
  as_ContentSha256 :: string

definition STATE_UNSPECIFIED :: int where "STATE_UNSPECIFIED = 0"
definition STATE_RUNNING :: int where "STATE_RUNNING = 1"
definition STATE_STOPPED :: int where "STATE_STOPPED = 2"

definition ValidateFence :: "Fence \<Rightarrow> bool" where
  "ValidateFence f \<longleftrightarrow> fn_Term f \<ge> 1 \<and> node_id_ok (fn_LeaderId f)"

definition ValidateAssignment :: "Assignment \<Rightarrow> bool" where
  "ValidateAssignment a \<longleftrightarrow> app_name_ok (as_App a) \<and> project_ok (as_Project a) \<and> subtree_ok (as_Path a)
     \<and> (as_DesiredState a = STATE_RUNNING \<or> as_DesiredState a = STATE_STOPPED)
     \<and> git_object_ok (as_SourceRevision a) \<and> sha256_ok (as_ContentSha256 a)"

type_synonym Command = "string list"

record AgentSnapshot =
  sn_Fence :: "Fence option"
  sn_Assignment :: "Assignment option"
  sn_Commands :: "Command list"
  sn_UpdatedAt :: time

definition zeroSnapshot :: AgentSnapshot where
  "zeroSnapshot = \<lparr>sn_Fence = None, sn_Assignment = None, sn_Commands = [], sn_UpdatedAt = 0\<rparr>"

subsection \<open>The persisted form\<close>

record persistedAssignment =
  pa_App :: string
  pa_Project :: string
  pa_Path :: string
  pa_DesiredState :: string
  pa_SourceRevision :: "string option"
  pa_ContentSHA256 :: "string option"

record persistedSnapshot =
  ps_Fence :: "(64 word \<times> string) option"
  ps_Assignment :: "persistedAssignment option"
  ps_Commands :: "Command list"
  ps_UpdatedAt :: "time option"

definition persistedDesiredState :: "int \<Rightarrow> string" where
  "persistedDesiredState s = (if s = STATE_RUNNING then ''running'' else if s = STATE_STOPPED then ''stopped'' else [])"

definition encodePersistedSnapshot :: "AgentSnapshot \<Rightarrow> persistedSnapshot" where
  "encodePersistedSnapshot s =
     \<lparr>ps_Fence = map_option (\<lambda>f. (fn_Term f, fn_LeaderId f)) (sn_Fence s),
      ps_Assignment = map_option (\<lambda>a.
        \<lparr>pa_App = as_App a, pa_Project = as_Project a, pa_Path = as_Path a,
         pa_DesiredState = persistedDesiredState (as_DesiredState a),
         pa_SourceRevision = Some (as_SourceRevision a), pa_ContentSHA256 = Some (as_ContentSha256 a)\<rparr>) (sn_Assignment s),
      ps_Commands = sn_Commands s,
      ps_UpdatedAt = (if IsZero (sn_UpdatedAt s) then None else Some (sn_UpdatedAt s))\<rparr>"

definition or_empty :: "string option \<Rightarrow> string" where
  "or_empty v = (case v of None \<Rightarrow> [] | Some s \<Rightarrow> s)"

definition decodePersistedAssignment :: "persistedAssignment \<Rightarrow> Assignment \<times> bool" where
  "decodePersistedAssignment p =
     (let state = (if pa_DesiredState p = ''running'' then STATE_RUNNING
                   else if pa_DesiredState p = ''stopped'' then STATE_STOPPED else STATE_UNSPECIFIED);
          a = \<lparr>as_App = pa_App p, as_Project = pa_Project p, as_Path = pa_Path p, as_DesiredState = state,
               as_SourceRevision = or_empty (pa_SourceRevision p), as_ContentSha256 = or_empty (pa_ContentSHA256 p)\<rparr>
      in if pa_SourceRevision p \<noteq> None \<or> pa_ContentSHA256 p \<noteq> None then (a, False)
         else (a, ValidateAssignment
                    (a\<lparr>as_SourceRevision := replicate 40 CHR ''0'', as_ContentSha256 := ''sha256:'' @ replicate 64 CHR ''0''\<rparr>)))"

definition decodePersistedSnapshot :: "persistedSnapshot \<Rightarrow> AgentSnapshot \<times> bool" where
  "decodePersistedSnapshot p =
     (let s = \<lparr>sn_Fence = map_option (\<lambda>(t, l). \<lparr>fn_Term = t, fn_LeaderId = l\<rparr>) (ps_Fence p), sn_Assignment = None,
               sn_Commands = ps_Commands p, sn_UpdatedAt = (case ps_UpdatedAt p of None \<Rightarrow> 0 | Some t \<Rightarrow> t)\<rparr>
      in case ps_Assignment p of
           None \<Rightarrow> (s, False)
         | Some pa \<Rightarrow> (let (a, legacy) = decodePersistedAssignment pa in (s\<lparr>sn_Assignment := Some a\<rparr>, legacy)))"

subsection \<open>Stores\<close>

text \<open>
  \<^verbatim>\<open>IStore\<close>: saving succeeds or fails, loading fails, finds nothing or finds a snapshot; both may
  change the state \<open>'s\<close> of the store.
\<close>

datatype loaded = LoadFailed | NotFound | Found AgentSnapshot

record 's AgentStore =
  st_Save :: "AgentSnapshot \<Rightarrow> 's \<Rightarrow> 's \<times> bool"
  st_Load :: "'s \<Rightarrow> 's \<times> loaded"

text \<open>The state file with contents \<open>'f\<close>, and the outcomes of the coming calls; a call with none left succeeds.\<close>

record 'f statefs =
  sf_target :: "'f option"
  sf_script :: "bool list"

datatype os_op = MkdirAll | CreateTemp | Chmod | WriteTemp | SyncTemp | CloseTemp | Rename | OpenDir | SyncDir | ReadFile

definition os_call :: "os_op \<Rightarrow> 'f statefs \<Rightarrow> 'f statefs \<times> bool" where
  "os_call operation s = (case sf_script s of [] \<Rightarrow> (s, True) | ok # rest \<Rightarrow> (s\<lparr>sf_script := rest\<rparr>, ok))"

fun os_calls :: "os_op list \<Rightarrow> 'f statefs \<Rightarrow> 'f statefs \<times> bool" where
  "os_calls [] s = (s, True)"
| "os_calls (operation # ops) s = (case os_call operation s of (s, True) \<Rightarrow> os_calls ops s | (s, False) \<Rightarrow> (s, False))"

text \<open>The encoding of the persisted form with its final newline, and its inverse.\<close>

record 'f codec =
  co_Marshal :: "persistedSnapshot \<Rightarrow> 'f option"
  co_Unmarshal :: "'f \<Rightarrow> persistedSnapshot option"

definition writeSnapshotAtomically :: "'f codec \<Rightarrow> AgentSnapshot \<Rightarrow> 'f statefs \<Rightarrow> 'f statefs \<times> bool" where
  "writeSnapshotAtomically c snapshot s =
     (case co_Marshal c (encodePersistedSnapshot snapshot) of
        None \<Rightarrow> (s, False)
      | Some content \<Rightarrow>
          (case os_calls [MkdirAll, CreateTemp, Chmod, WriteTemp, SyncTemp, CloseTemp, Rename] s of
             (s, False) \<Rightarrow> (s, False)
           | (s, True) \<Rightarrow> os_calls [OpenDir, SyncDir] (s\<lparr>sf_target := Some content\<rparr>)))"

definition validatePersistedFence :: "AgentSnapshot \<Rightarrow> bool" where
  "validatePersistedFence s =
     (case sn_Fence s of None \<Rightarrow> True | Some f \<Rightarrow> fn_Term f = 0 \<or> ValidateFence f)"

definition adoptLegacyFenceOnlySnapshot :: "'f codec \<Rightarrow> AgentSnapshot \<Rightarrow> 'f statefs \<Rightarrow> 'f statefs \<times> loaded" where
  "adoptLegacyFenceOnlySnapshot c snapshot s =
     (let adopted = snapshot\<lparr>sn_Assignment := None, sn_Commands := [], sn_UpdatedAt := 0\<rparr>
      in case writeSnapshotAtomically c adopted s of
           (s, False) \<Rightarrow> (s, LoadFailed)
         | (s, True) \<Rightarrow> (s, Found adopted))"

definition AgentStore_Load :: "'f codec \<Rightarrow> 'f statefs \<Rightarrow> 'f statefs \<times> loaded" where
  "AgentStore_Load c s =
     (case sf_target s of
        None \<Rightarrow> (s, NotFound)
      | Some content \<Rightarrow>
          (case os_call ReadFile s of
             (s, False) \<Rightarrow> (s, LoadFailed)
           | (s, True) \<Rightarrow>
               (case co_Unmarshal c content of
                  None \<Rightarrow> (s, LoadFailed)
                | Some p \<Rightarrow>
                    (let (snapshot, legacy) = decodePersistedSnapshot p
                     in if \<not> validatePersistedFence snapshot then (s, LoadFailed)
                        else
                          case sn_Assignment snapshot of
                            None \<Rightarrow> (s, Found snapshot)
                          | Some a \<Rightarrow>
                              if legacy then adoptLegacyFenceOnlySnapshot c snapshot s
                              else if \<not> ValidateAssignment a then (s, LoadFailed)
                              else (s, Found snapshot)))))"

definition NewAgentFileStore :: "'f codec \<Rightarrow> 'f statefs AgentStore" where
  "NewAgentFileStore c = \<lparr>st_Save = writeSnapshotAtomically c, st_Load = AgentStore_Load c\<rparr>"

text \<open>\<^verbatim>\<open>MemoryStore\<close>: a snapshot and whether it was saved.\<close>

definition newMemoryStore :: "(AgentSnapshot \<times> bool) AgentStore" where
  "newMemoryStore = \<lparr>st_Save = (\<lambda>snapshot s. ((snapshot, True), True)),
     st_Load = (\<lambda>s. (s, if snd s then Found (fst s) else NotFound))\<rparr>"

subsection \<open>The runner\<close>

text \<open>What the host answers to the runner, for each operation.\<close>

datatype stat = NotExist | StatFails | NotRegular | RegularEscaping | Regular string

record tree =
  tr_RealDir :: bool
  tr_Digest :: "string option"
  tr_Writable :: bool

record host =
  ho_cached :: "nat \<Rightarrow> string \<Rightarrow> tree option option"
  ho_remove :: "nat \<Rightarrow> string \<Rightarrow> bool"
  ho_usage :: "nat \<Rightarrow> (int \<times> int) option"
  ho_repository :: "nat \<Rightarrow> string \<Rightarrow> string option"
  ho_materialize :: "nat \<Rightarrow> string \<Rightarrow> string \<Rightarrow> string \<Rightarrow> int \<Rightarrow> string option"
  ho_seal :: "nat \<Rightarrow> bool"
  ho_rename :: "nat \<Rightarrow> bool"
  ho_pathHash :: "string \<Rightarrow> string"
  ho_stat :: "nat \<Rightarrow> string \<Rightarrow> stat"
  ho_stopFile :: "nat \<Rightarrow> string \<Rightarrow> string \<Rightarrow> string option"
  ho_run :: "nat \<Rightarrow> Command \<Rightarrow> bool"

record DockerComposeRunner =
  dr_dockerBin :: string
  dr_workspace :: string
  dr_revisionRoot :: string
  dr_maxEntries :: int
  dr_maxBytes :: int
  dr_dryRun :: bool

definition defaultAppSourceBytes :: int where "defaultAppSourceBytes = 256 * 2 ^ 20"

definition verifyMaterializedRevision :: "tree \<Rightarrow> string \<Rightarrow> bool" where
  "verifyMaterializedRevision t expected \<longleftrightarrow> tr_RealDir t \<and> tr_Digest t = Some expected \<and> \<not> tr_Writable t"

definition revisionCachePath :: "host \<Rightarrow> DockerComposeRunner \<Rightarrow> Assignment \<Rightarrow> string" where
  "revisionCachePath h r a =
     dr_revisionRoot r @ ''/'' @ as_SourceRevision a @ ''-''
       @ (if take 7 (as_ContentSha256 a) = ''sha256:'' then drop 7 (as_ContentSha256 a) else as_ContentSha256 a)
       @ ''-'' @ ho_pathHash h (as_Path a)"

text \<open>
  \<open>ho_cached\<close>: \<open>None\<close> is a failed \<^verbatim>\<open>Lstat\<close>, \<open>Some None\<close> a path that does not exist. The result: an error,
  or whether the cached tree can be reused.
\<close>

definition reuseOrRemoveInvalidRevision :: "host \<Rightarrow> nat \<Rightarrow> string \<Rightarrow> string \<Rightarrow> bool option" where
  "reuseOrRemoveInvalidRevision h n target expected =
     (case ho_cached h n target of
        None \<Rightarrow> None
      | Some None \<Rightarrow> Some False
      | Some (Some t) \<Rightarrow>
          (if verifyMaterializedRevision t expected then Some True
           else if ho_remove h n target then Some False else None))"

text \<open>After a failed rename the target may be there, installed by another process.\<close>

definition installMaterializedRevision :: "host \<Rightarrow> nat \<Rightarrow> string \<Rightarrow> string \<Rightarrow> string option" where
  "installMaterializedRevision h n target expected =
     (if ho_rename h n then Some target
      else case ho_cached h (Suc n) target of
             Some (Some t) \<Rightarrow> (if verifyMaterializedRevision t expected then Some target else None)
           | _ \<Rightarrow> None)"

definition materializeRevision :: "host \<Rightarrow> nat \<Rightarrow> DockerComposeRunner \<Rightarrow> Assignment \<Rightarrow> string option" where
  "materializeRevision h n r a =
     (let target = revisionCachePath h r a
      in case reuseOrRemoveInvalidRevision h n target (as_ContentSha256 a) of
           None \<Rightarrow> None
         | Some True \<Rightarrow> Some target
         | Some False \<Rightarrow>
             (case ho_usage h n of
                None \<Rightarrow> None
              | Some (entries, bytesUsed) \<Rightarrow>
                  if entries \<ge> dr_maxEntries r \<or> bytesUsed \<ge> dr_maxBytes r then None
                  else
                    case ho_repository h n (as_SourceRevision a) of
                      None \<Rightarrow> None
                    | Some repository \<Rightarrow>
                        (case ho_materialize h n repository (as_SourceRevision a) (as_Path a)
                                (min (dr_maxBytes r - bytesUsed) defaultAppSourceBytes) of
                           None \<Rightarrow> None
                         | Some digest \<Rightarrow>
                             if digest \<noteq> as_ContentSha256 a then None
                             else if \<not> ho_seal h n then None
                             else installMaterializedRevision h n target (as_ContentSha256 a))))"

definition composeFileNames :: "string list" where
  "composeFileNames = [''compose.yaml'', ''compose.yml'', ''docker-compose.yaml'', ''docker-compose.yml'']"

fun find_compose :: "host \<Rightarrow> nat \<Rightarrow> string \<Rightarrow> string list \<Rightarrow> string option" where
  "find_compose h n dir [] = None"
| "find_compose h n dir (name # names) =
     (case ho_stat h n (dir @ ''/'' @ name) of
        NotExist \<Rightarrow> find_compose h n dir names
      | Regular resolved \<Rightarrow> Some resolved
      | _ \<Rightarrow> None)"

definition composePlan :: "DockerComposeRunner \<Rightarrow> string \<Rightarrow> string \<Rightarrow> Assignment \<Rightarrow> string list \<Rightarrow> Command list" where
  "composePlan r directory composeFile a action =
     (let base = [dr_dockerBin r, ''compose'', ''--project-directory'', directory, ''--project-name'', as_Project a,
                  ''--file'', composeFile]
      in [base @ [''config'', ''--quiet''], base @ action])"

definition Runner_Plan :: "host \<Rightarrow> DockerComposeRunner \<Rightarrow> nat \<Rightarrow> Assignment \<Rightarrow> Command list option" where
  "Runner_Plan h r n a =
     (if \<not> ValidateAssignment a then None
      else if as_DesiredState a = STATE_STOPPED then
        map_option (\<lambda>file. composePlan r (dr_workspace r) file a [''stop'', as_App a]) (ho_stopFile h n (as_Project a) (as_App a))
      else
        case materializeRevision h n r a of
          None \<Rightarrow> None
        | Some dir \<Rightarrow>
            map_option (\<lambda>file. composePlan r dir file a [''up'', ''-d'', ''--remove-orphans'', as_App a])
              (find_compose h n dir composeFileNames))"

definition isDirectDockerCommand :: "DockerComposeRunner \<Rightarrow> Command \<Rightarrow> bool" where
  "isDirectDockerCommand r cmd \<longleftrightarrow> cmd \<noteq> [] \<and> hd cmd = dr_dockerBin r"

text \<open>The commands that were run, in order, and whether the execution succeeded.\<close>

definition Runner_Execute :: "host \<Rightarrow> DockerComposeRunner \<Rightarrow> nat \<Rightarrow> Command list \<Rightarrow> Command list \<times> bool" where
  "Runner_Execute h r n plan =
     (case plan of
        [preflight, action] \<Rightarrow>
          (if \<not> isDirectDockerCommand r preflight \<or> \<not> isDirectDockerCommand r action then ([], False)
           else if \<not> ho_run h n preflight then ([preflight], False)
           else if dr_dryRun r then ([preflight], True)
           else ([preflight, action], ho_run h (Suc n) action))
      | _ \<Rightarrow> ([], False))"

record IExecutor =
  ex_Plan :: "nat \<Rightarrow> Assignment \<Rightarrow> Command list option"
  ex_Execute :: "nat \<Rightarrow> Command list \<Rightarrow> Command list \<times> bool"
  ex_DryRun :: bool

definition runner_executor :: "host \<Rightarrow> DockerComposeRunner \<Rightarrow> IExecutor" where
  "runner_executor h r = \<lparr>ex_Plan = Runner_Plan h r, ex_Execute = Runner_Execute h r, ex_DryRun = dr_dryRun r\<rparr>"

subsection \<open>The reconciler\<close>

text \<open>
  \<open>rl_ran\<close> is not in the source: the commands that reached Docker, each under the fence of its
  request. \<open>rl_op\<close> numbers the operations.
\<close>

record 's Reconciler =
  rl_store :: 's
  rl_state :: AgentSnapshot
  rl_op :: nat
  rl_ran :: "(Fence \<times> Command) list"

datatype agent_err =
    FenceRequired | AssignmentRequired | InvalidFence | InvalidAssignment
  | ErrStaleFence | ErrFenceConflict | ErrPersistence | PlanFailed | ErrExecution

record ReconcileRequest =
  rq_Fence :: "Fence option"
  rq_Assignment :: "Assignment option"

record ReconcileResponse =
  rp_Fence :: "Fence option"
  rp_Assignment :: "Assignment option"
  rp_DryRun :: bool
  rp_Commands :: "Command list"
  rp_UpdatedAt :: "time option"

definition responseFromSnapshot :: "AgentSnapshot \<Rightarrow> bool \<Rightarrow> ReconcileResponse" where
  "responseFromSnapshot s dry =
     \<lparr>rp_Fence = sn_Fence s, rp_Assignment = sn_Assignment s, rp_DryRun = dry, rp_Commands = sn_Commands s,
      rp_UpdatedAt = (if IsZero (sn_UpdatedAt s) then None else Some (sn_UpdatedAt s))\<rparr>"

definition validatedOwnedRequest :: "ReconcileRequest option \<Rightarrow> agent_err + Fence \<times> Assignment" where
  "validatedOwnedRequest request =
     (case request of
        None \<Rightarrow> Inl FenceRequired
      | Some q \<Rightarrow>
          (case rq_Fence q of
             None \<Rightarrow> Inl FenceRequired
           | Some f \<Rightarrow>
               (case rq_Assignment q of
                  None \<Rightarrow> Inl AssignmentRequired
                | Some a \<Rightarrow>
                    if \<not> ValidateFence f then Inl InvalidFence
                    else if \<not> ValidateAssignment a then Inl InvalidAssignment
                    else Inr (f, a))))"

text \<open>An agent that could not load its state is down, until it is started again.\<close>

datatype 's agent = Up "'s Reconciler" | Down 's nat "(Fence \<times> Command) list"

definition NewReconciler :: "'s AgentStore \<Rightarrow> nat \<Rightarrow> (Fence \<times> Command) list \<Rightarrow> 's \<Rightarrow> 's agent" where
  "NewReconciler st n past s =
     (case st_Load st s of
        (s, LoadFailed) \<Rightarrow> Down s n past
      | (s, NotFound) \<Rightarrow> Up \<lparr>rl_store = s, rl_state = zeroSnapshot, rl_op = n, rl_ran = past\<rparr>
      | (s, Found snapshot) \<Rightarrow> Up \<lparr>rl_store = s, rl_state = snapshot, rl_op = n, rl_ran = past\<rparr>)"

definition persistStateLocked :: "'s AgentStore \<Rightarrow> AgentSnapshot \<Rightarrow> 's Reconciler \<Rightarrow> 's Reconciler \<times> bool" where
  "persistStateLocked st candidate r =
     (case st_Save st candidate (rl_store r) of
        (s, False) \<Rightarrow> (r\<lparr>rl_store := s\<rparr>, False)
      | (s, True) \<Rightarrow> (r\<lparr>rl_store := s, rl_state := candidate\<rparr>, True))"

definition acceptFence :: "'s AgentStore \<Rightarrow> Fence \<Rightarrow> 's Reconciler \<Rightarrow> 's Reconciler \<times> agent_err option" where
  "acceptFence st fence r =
     (let persist = (case persistStateLocked st ((rl_state r)\<lparr>sn_Fence := Some fence\<rparr>) r of
                       (r, False) \<Rightarrow> (r, Some ErrPersistence)
                     | (r, True) \<Rightarrow> (r, None))
      in case sn_Fence (rl_state r) of
           None \<Rightarrow> persist
         | Some current \<Rightarrow>
             (if fn_Term fence < fn_Term current then (r, Some ErrStaleFence)
              else if fn_Term fence = fn_Term current \<and> fn_LeaderId fence \<noteq> fn_LeaderId current then (r, Some ErrFenceConflict)
              else if fn_Term fence = fn_Term current then (r, None)
              else persist))"

definition Reconciler_Reconcile ::
  "'s AgentStore \<Rightarrow> IExecutor \<Rightarrow> time \<Rightarrow> ReconcileRequest option \<Rightarrow> 's Reconciler
     \<Rightarrow> 's Reconciler \<times> ReconcileResponse option \<times> agent_err option" where
  "Reconciler_Reconcile st ex now request r =
     (case validatedOwnedRequest request of
        Inl e \<Rightarrow> (r, None, Some e)
      | Inr (fence, assignment) \<Rightarrow>
          (case acceptFence st fence r of
             (r, Some e) \<Rightarrow> (r, None, Some e)
           | (r, None) \<Rightarrow>
               (case ex_Plan ex (rl_op r) assignment of
                  None \<Rightarrow> (r\<lparr>rl_op := rl_op r + 1\<rparr>, None, Some PlanFailed)
                | Some plan \<Rightarrow>
                    (let candidate = \<lparr>sn_Fence = Some fence, sn_Assignment = Some assignment, sn_Commands = plan, sn_UpdatedAt = 0\<rparr>;
                         result = responseFromSnapshot candidate (ex_DryRun ex);
                         (commands, ok) = ex_Execute ex (rl_op r) plan;
                         r = r\<lparr>rl_op := rl_op r + 2, rl_ran := rl_ran r @ map (Pair fence) commands\<rparr>
                     in if \<not> ok then (r, Some result, Some ErrExecution)
                        else
                          let candidate = candidate\<lparr>sn_UpdatedAt := now\<rparr>
                          in case persistStateLocked st candidate r of
                               (r, False) \<Rightarrow> (r, Some result, Some ErrPersistence)
                             | (r, True) \<Rightarrow> (r, Some (responseFromSnapshot candidate (ex_DryRun ex)), None)))))"

text \<open>A life of the agent: requests, and restarts that lose everything but the store.\<close>

datatype agent_input = AgentRequest time "ReconcileRequest option" | AgentRestart

fun agent_turn :: "'s AgentStore \<Rightarrow> IExecutor \<Rightarrow> agent_input \<Rightarrow> 's agent \<Rightarrow> 's agent" where
  "agent_turn st ex (AgentRequest now request) (Up r) = Up (fst (Reconciler_Reconcile st ex now request r))"
| "agent_turn st ex (AgentRequest now request) (Down s n past) = Down s n past"
| "agent_turn st ex AgentRestart (Up r) = NewReconciler st (rl_op r) (rl_ran r) (rl_store r)"
| "agent_turn st ex AgentRestart (Down s n past) = NewReconciler st n past s"

definition agent_run :: "'s AgentStore \<Rightarrow> IExecutor \<Rightarrow> agent_input list \<Rightarrow> 's agent \<Rightarrow> 's agent" where
  "agent_run st ex inputs a = fold (agent_turn st ex) inputs a"

definition ran_of :: "'s agent \<Rightarrow> (Fence \<times> Command) list" where
  "ran_of a = (case a of Up r \<Rightarrow> rl_ran r | Down s n past \<Rightarrow> past)"

end
