(* ===== verification/Os_Fencing.thy ===== *)
theory Os_Fencing
  imports Os_Agent
begin

text \<open>
  Fencing: whatever the file system, Git and Docker do and however often the agent is restarted,
  the leaders whose commands reach Docker never go back. The contract of \<^verbatim>\<open>AgentStore\<close> this rests on is
  the locale \<open>agent_store\<close>; both stores of the source provide it.
\<close>

subsection \<open>The order of fences\<close>

fun fence_le :: "Fence option \<Rightarrow> Fence option \<Rightarrow> bool" where
  "fence_le None g = True"
| "fence_le (Some f) None = False"
| "fence_le (Some f) (Some g) = (fn_Term f < fn_Term g \<or> f = g)"

lemma fence_le_refl [simp]: "fence_le f f"
  by (cases f) simp_all

lemma fence_le_trans: "fence_le f g \<Longrightarrow> fence_le g h \<Longrightarrow> fence_le f h"
  by (cases f; cases g; cases h) auto

lemma fence_le_None [simp]: "fence_le f None \<longleftrightarrow> f = None"
  by (cases f) simp_all

definition store_of :: "'s agent \<Rightarrow> 's" where
  "store_of a = (case a of Up r \<Rightarrow> rl_store r | Down s n past \<Rightarrow> s)"

subsection \<open>The contract of a store\<close>

locale agent_store =
  fixes st :: "'s AgentStore" and held :: "'s \<Rightarrow> Fence option"
  assumes save_held: "st_Save st x s = (s', ok) \<Longrightarrow> held s' = sn_Fence x \<or> (\<not> ok \<and> held s' = held s)"
    and load_held: "st_Load st s = (s', l) \<Longrightarrow> held s' = held s"
    and load_found: "st_Load st s = (s', Found x) \<Longrightarrow> sn_Fence x = held s"
    and load_empty: "st_Load st s = (s', NotFound) \<Longrightarrow> held s = None"
begin

definition fenced :: "Fence option \<Rightarrow> (Fence \<times> Command) list \<Rightarrow> bool" where
  "fenced hi past \<longleftrightarrow> list_all (\<lambda>p. fence_le (Some (fst p)) hi) past
     \<and> sorted_wrt (\<lambda>p q. fence_le (Some (fst p)) (Some (fst q))) past"

definition agent_ok :: "'s agent \<Rightarrow> bool" where
  "agent_ok a = (case a of
      Up r \<Rightarrow> fence_le (sn_Fence (rl_state r)) (held (rl_store r)) \<and> fenced (sn_Fence (rl_state r)) (rl_ran r)
    | Down s n past \<Rightarrow> fenced (held s) past)"

lemma fenced_up: "fenced hi past \<Longrightarrow> fence_le hi hi' \<Longrightarrow> fenced hi' past"
  unfolding fenced_def list_all_iff using fence_le_trans by blast

lemma fenced_append:
  "fenced (Some f) past \<Longrightarrow> fenced (Some f) (past @ map (Pair f) commands)"
proof -
  have "sorted_wrt (\<lambda>p q. fence_le (Some (fst p)) (Some (fst q))) (map (Pair f) commands)"
    by (induction commands) auto
  then show "fenced (Some f) past \<Longrightarrow> ?thesis" by (auto simp: fenced_def list_all_iff sorted_wrt_append)
qed

lemma persist_ok:
  assumes p: "persistStateLocked st x r = (r', ok)" and "agent_ok (Up r)"
    and le: "fence_le (sn_Fence (rl_state r)) (sn_Fence x)"
  shows "agent_ok (Up r')" "rl_ran r' = rl_ran r" "rl_op r' = rl_op r"
    "rl_state r' = (if ok then x else rl_state r)"
proof -
  obtain s' where s: "st_Save st x (rl_store r) = (s', ok)"
    and r': "r' = r\<lparr>rl_store := s', rl_state := (if ok then x else rl_state r)\<rparr>"
    using p by (auto simp: persistStateLocked_def split: prod.splits bool.splits)
  show "rl_ran r' = rl_ran r" "rl_op r' = rl_op r" "rl_state r' = (if ok then x else rl_state r)" by (simp_all add: r')
  show "agent_ok (Up r')"
    using save_held [OF s] assms(2) le fenced_up by (auto simp: agent_ok_def r')
qed

lemma accept_ok:
  assumes "acceptFence st fence r = (r', e)" "agent_ok (Up r)"
  shows "agent_ok (Up r') \<and> (e = None \<longrightarrow> sn_Fence (rl_state r') = Some fence)"
proof -
  have persist: "agent_ok (Up r'') \<and> (ok \<longrightarrow> sn_Fence (rl_state r'') = Some fence)"
    if "persistStateLocked st ((rl_state r)\<lparr>sn_Fence := Some fence\<rparr>) r = (r'', ok)"
      "fence_le (sn_Fence (rl_state r)) (Some fence)" for r'' ok
    using persist_ok [OF that(1) assms(2)] that(2) by simp
  show ?thesis
  proof (cases "fence_le (sn_Fence (rl_state r)) (Some fence) \<and> sn_Fence (rl_state r) \<noteq> Some fence")
    case True
    obtain r'' ok where p: "persistStateLocked st ((rl_state r)\<lparr>sn_Fence := Some fence\<rparr>) r = (r'', ok)" by fastforce
    have "acceptFence st fence r = (r'', if ok then None else Some ErrPersistence)"
    proof (cases "sn_Fence (rl_state r)")
      case None
      then show ?thesis by (cases ok) (simp_all add: acceptFence_def p)
    next
      case (Some cur)
      then have "fn_Term cur < fn_Term fence" using True by auto
      then have "\<not> fn_Term fence < fn_Term cur" "fn_Term fence \<noteq> fn_Term cur" by auto
      then show ?thesis by (cases ok) (simp_all add: acceptFence_def p Some)
    qed
    then have "r' = r''" "e = (if ok then None else Some ErrPersistence)" using assms(1) by simp_all
    then show ?thesis using persist [OF p] True by simp
  next
    case False
    then have "r' = r" "e = None \<longrightarrow> sn_Fence (rl_state r) = Some fence"
      using assms(1) by (auto simp: acceptFence_def Let_def split: option.splits if_splits)
    then show ?thesis using assms(2) by simp
  qed
qed

lemma reconcile_ok:
  assumes "agent_ok (Up r)"
  shows "agent_ok (Up (fst (Reconciler_Reconcile st ex now request r)))"
proof (cases "validatedOwnedRequest request")
  case (Inr fa)
  obtain fence a where fa: "fa = (fence, a)" by (cases fa)
  obtain r1 e1 where acc: "acceptFence st fence r = (r1, e1)" by (cases "acceptFence st fence r")
  note ok1 = accept_ok [OF acc assms]
  show ?thesis
  proof (cases "e1 \<noteq> None \<or> ex_Plan ex (rl_op r1) a = None")
    case True
    with ok1 show ?thesis
      by (auto simp: Reconciler_Reconcile_def Inr fa acc agent_ok_def split: option.split)
  next
    case False
    then obtain plan where plan: "ex_Plan ex (rl_op r1) a = Some plan" and e1: "e1 = None" by auto
    obtain commands ok where run: "ex_Execute ex (rl_op r1) plan = (commands, ok)" by (cases "ex_Execute ex (rl_op r1) plan")
    let ?r2 = "r1\<lparr>rl_op := rl_op r1 + 2, rl_ran := rl_ran r1 @ map (Pair fence) commands\<rparr>"
    have f: "sn_Fence (rl_state r1) = Some fence" using ok1 e1 by simp
    have ok2: "agent_ok (Up ?r2)" using ok1 fenced_append f by (simp add: agent_ok_def)
    have persist: "agent_ok (Up r3)"
      if "persistStateLocked st \<lparr>sn_Fence = Some fence, sn_Assignment = Some a, sn_Commands = plan, sn_UpdatedAt = now\<rparr> ?r2
        = (r3, ok3)" for r3 ok3
      by (rule persist_ok(1) [OF that ok2]) (simp add: f)
    show ?thesis
      using ok2 persist
      by (auto simp: Reconciler_Reconcile_def Inr fa acc e1 plan run Let_def split: prod.splits bool.splits)
  qed
qed (use assms in \<open>simp add: Reconciler_Reconcile_def\<close>)

lemma restart_ok:
  assumes "fenced (held s) past"
  shows "agent_ok (NewReconciler st n past s)"
proof -
  obtain s' l where l: "st_Load st s = (s', l)" by (cases "st_Load st s")
  show ?thesis
    using load_held [OF l] load_empty load_found l assms
    by (cases l) (auto simp: NewReconciler_def agent_ok_def zeroSnapshot_def)
qed

lemma turn_ok:
  assumes "agent_ok a"
  shows "agent_ok (agent_turn st ex i a)"
proof (cases a)
  case (Up r)
  have "fenced (held (rl_store r)) (rl_ran r)"
    using assms Up fenced_up [of "sn_Fence (rl_state r)" "rl_ran r" "held (rl_store r)"] by (simp add: agent_ok_def)
  from restart_ok [OF this] show ?thesis using assms Up by (cases i) (simp_all add: reconcile_ok)
next
  case (Down s n past)
  then have "fenced (held s) past" using assms by (simp add: agent_ok_def)
  from restart_ok [OF this] show ?thesis using assms Down by (cases i) simp_all
qed

lemma run_ok: "agent_ok a \<Longrightarrow> agent_ok (agent_run st ex inputs a)"
  unfolding agent_run_def by (induction inputs arbitrary: a) (simp_all add: turn_ok)

lemma never_back:
  assumes "a = agent_run st ex inputs (NewReconciler st 0 [] s)"
  shows "sorted_wrt (\<lambda>f g. fn_Term f < fn_Term g \<or> f = g) (map fst (ran_of a))
    \<and> list_all (\<lambda>f. fence_le (Some f) (held (store_of a))) (map fst (ran_of a))"
proof -
  have "agent_ok a" unfolding assms by (intro run_ok restart_ok) (simp add: fenced_def)
  then have "fenced (held (store_of a)) (ran_of a)"
    using fenced_up by (auto simp: agent_ok_def store_of_def ran_of_def split: agent.splits)
  then show ?thesis by (simp add: fenced_def sorted_wrt_map list_all_iff)
qed

end

subsection \<open>The stores of the source\<close>

interpretation memory: agent_store newMemoryStore "\<lambda>s. if snd s then sn_Fence (fst s) else None"
  by unfold_locales (auto simp: newMemoryStore_def split: if_splits)

definition file_fence :: "'f codec \<Rightarrow> 'f statefs \<Rightarrow> Fence option" where
  "file_fence c s =
     (case sf_target s of
        None \<Rightarrow> None
      | Some content \<Rightarrow>
          (case co_Unmarshal c content of None \<Rightarrow> None | Some p \<Rightarrow> sn_Fence (fst (decodePersistedSnapshot p))))"

lemma fence_eta [simp]: "\<lparr>fn_Term = fn_Term f, fn_LeaderId = fn_LeaderId f\<rparr> = f"
  by (cases f) simp

lemma decode_fence [simp]: "sn_Fence (fst (decodePersistedSnapshot (encodePersistedSnapshot x))) = sn_Fence x"
  by (auto simp: decodePersistedSnapshot_def encodePersistedSnapshot_def Let_def option.map_comp comp_def
      option.map_ident split: option.split prod.split)

lemma os_calls_target: "os_calls ops s = (s', ok) \<Longrightarrow> sf_target s' = sf_target s"
  by (induction ops arbitrary: s) (auto simp: os_call_def split: list.splits bool.splits prod.splits)

locale agent_codec =
  fixes c :: "'f codec"
  assumes codec: "co_Marshal c p = Some content \<Longrightarrow> co_Unmarshal c content = Some p"
begin

lemma write_held:
  assumes "writeSnapshotAtomically c x s = (s', ok)"
  shows "file_fence c s' = sn_Fence x \<or> (\<not> ok \<and> file_fence c s' = file_fence c s)"
proof (cases "co_Marshal c (encodePersistedSnapshot x)")
  case None
  with assms show ?thesis by (simp add: writeSnapshotAtomically_def)
next
  case (Some content)
  obtain s1 ok1 where c1: "os_calls [MkdirAll, CreateTemp, Chmod, WriteTemp, SyncTemp, CloseTemp, Rename] s = (s1, ok1)"
    by fastforce
  show ?thesis
  proof (cases ok1)
    case True
    then have "os_calls [OpenDir, SyncDir] (s1\<lparr>sf_target := Some content\<rparr>) = (s', ok)"
      using assms c1 Some by (simp only: writeSnapshotAtomically_def option.case prod.case bool.case)
    from os_calls_target [OF this] show ?thesis by (simp add: file_fence_def codec [OF Some])
  next
    case False
    then have "s' = s1" "\<not> ok" using assms c1 Some by (simp_all add: writeSnapshotAtomically_def del: os_calls.simps)
    with os_calls_target [OF c1] show ?thesis by (simp add: file_fence_def)
  qed
qed

lemma load_held:
  assumes "AgentStore_Load c s = (s', l)"
  shows "file_fence c s' = file_fence c s \<and> (\<forall>x. l = Found x \<longrightarrow> sn_Fence x = file_fence c s)
    \<and> (l = NotFound \<longrightarrow> file_fence c s = None)"
proof (cases "sf_target s")
  case None
  with assms show ?thesis by (auto simp: AgentStore_Load_def file_fence_def)
next
  case (Some content)
  obtain s1 ok1 where r: "os_call ReadFile s = (s1, ok1)" by fastforce
  have s1: "file_fence c s1 = file_fence c s"
    using os_calls_target [of "[ReadFile]" s s1 ok1] r by (simp add: file_fence_def split: bool.splits)
  show ?thesis
  proof (cases "ok1 \<and> co_Unmarshal c content \<noteq> None")
    case False
    with assms Some r s1 show ?thesis by (cases ok1) (auto simp: AgentStore_Load_def)
  next
    case True
    then obtain p where p: "co_Unmarshal c content = Some p" and ok1: "ok1" by auto
    obtain snapshot legacy where d: "decodePersistedSnapshot p = (snapshot, legacy)" by fastforce
    have ff: "file_fence c s = sn_Fence snapshot" by (simp add: file_fence_def Some p d)
    have adopt: "file_fence c s' = file_fence c s \<and> (\<forall>x. l = Found x \<longrightarrow> sn_Fence x = file_fence c s) \<and> l \<noteq> NotFound"
      if "adoptLegacyFenceOnlySnapshot c snapshot s1 = (s', l)"
    proof -
      let ?x = "snapshot\<lparr>sn_Assignment := None, sn_Commands := [], sn_UpdatedAt := 0\<rparr>"
      obtain s2 ok2 where w: "writeSnapshotAtomically c ?x s1 = (s2, ok2)" by fastforce
      have "file_fence c s2 = file_fence c s" using write_held [OF w] ff s1 by auto
      moreover have "s' = s2" "l = (if ok2 then Found ?x else LoadFailed)"
        using that w by (simp_all add: adoptLegacyFenceOnlySnapshot_def Let_def split: bool.splits)
      ultimately show ?thesis using ff by simp
    qed
    have out: "AgentStore_Load c s =
      (if \<not> validatePersistedFence snapshot then (s1, LoadFailed)
       else case sn_Assignment snapshot of
              None \<Rightarrow> (s1, Found snapshot)
            | Some a \<Rightarrow>
                if legacy then adoptLegacyFenceOnlySnapshot c snapshot s1
                else if \<not> ValidateAssignment a then (s1, LoadFailed)
                else (s1, Found snapshot))"
      using r ok1 by (simp add: AgentStore_Load_def Some p d)
    show ?thesis
    proof (cases "validatePersistedFence snapshot \<and> sn_Assignment snapshot \<noteq> None \<and> legacy")
      case True
      then have "adoptLegacyFenceOnlySnapshot c snapshot s1 = (s', l)" using assms unfolding out by auto
      from adopt [OF this] show ?thesis by simp
    next
      case False
      then have "s' = s1 \<and> (l = LoadFailed \<or> l = Found snapshot)"
        using assms unfolding out by (auto split: if_splits option.splits)
      then show ?thesis using s1 ff by auto
    qed
  qed
qed

end

sublocale agent_codec < file_store: agent_store "NewAgentFileStore c" "file_fence c"
proof
  fix x s s' ok
  assume "st_Save (NewAgentFileStore c) x s = (s', ok)"
  then show "file_fence c s' = sn_Fence x \<or> (\<not> ok \<and> file_fence c s' = file_fence c s)"
    using write_held by (simp add: NewAgentFileStore_def)
next
  fix s s' l
  assume "st_Load (NewAgentFileStore c) s = (s', l)"
  then show "file_fence c s' = file_fence c s" using load_held by (simp add: NewAgentFileStore_def)
next
  fix s s' x
  assume "st_Load (NewAgentFileStore c) s = (s', Found x)"
  then show "sn_Fence x = file_fence c s" using load_held by (simp add: NewAgentFileStore_def)
next
  fix s s'
  assume "st_Load (NewAgentFileStore c) s = (s', NotFound)"
  then show "file_fence c s = None" using load_held by (simp add: NewAgentFileStore_def)
qed

context agent_codec
begin

lemma file_never_back:
  assumes "a = agent_run (NewAgentFileStore c) ex inputs (NewReconciler (NewAgentFileStore c) 0 [] s)"
  shows "sorted_wrt (\<lambda>f g. fn_Term f < fn_Term g \<or> f = g) (map fst (ran_of a))
    \<and> list_all (\<lambda>f. fence_le (Some f) (file_fence c (store_of a))) (map fst (ran_of a))"
  using file_store.never_back [OF assms] .

end

subsection \<open>Properties\<close>

text \<open>
  C3. Leaders are fenced. Over every life of a node agent on its state file, with any file-system
  call, Git and Docker failing and any restarts, the commands that reached Docker were ordered by
  leaders whose terms never go back, one leader per term; and the state file holds a fence at least
  as new as each of them, so that no restart lets an older leader in again.
\<close>

theorem agent_fenced:
  assumes "\<And>p content. co_Marshal c p = Some content \<Longrightarrow> co_Unmarshal c content = Some p"
    and "a = agent_run (NewAgentFileStore c) ex inputs (NewReconciler (NewAgentFileStore c) 0 [] s)"
  shows "sorted_wrt (\<lambda>f g. fn_Term f < fn_Term g \<or> f = g) (map fst (ran_of a))
    \<and> list_all (\<lambda>f. fence_le (Some f) (file_fence c (store_of a))) (map fst (ran_of a))"
  using agent_codec.file_never_back [OF agent_codec.intro [OF assms(1)] assms(2)] .

text \<open>A host that has everything, and requests of three leaders, the last of which is late.\<close>

definition demo_host :: host where
  "demo_host =
     \<lparr>ho_cached = (\<lambda>n p. Some None), ho_remove = (\<lambda>n p. True), ho_usage = (\<lambda>n. Some (0, 0)),
      ho_repository = (\<lambda>n v. Some ''/src''),
      ho_materialize = (\<lambda>n repo rev p lim. Some (''sha256:'' @ replicate 64 CHR ''a'')), ho_seal = (\<lambda>n. True),
      ho_rename = (\<lambda>n. True), ho_pathHash = (\<lambda>p. p), ho_stat = (\<lambda>n p. Regular p),
      ho_stopFile = (\<lambda>n p a. Some ''/tmp/stop''), ho_run = (\<lambda>n cmd. True)\<rparr>"

definition demo_runner :: DockerComposeRunner where
  "demo_runner = \<lparr>dr_dockerBin = ''docker'', dr_workspace = ''/w'', dr_revisionRoot = ''/r'', dr_maxEntries = 8,
     dr_maxBytes = 1000, dr_dryRun = False\<rparr>"

definition demo_assignment :: Assignment where
  "demo_assignment = \<lparr>as_App = ''web'', as_Project = ''shop'', as_Path = ''apps/web'', as_DesiredState = STATE_RUNNING,
     as_SourceRevision = replicate 40 CHR ''0'', as_ContentSha256 = ''sha256:'' @ replicate 64 CHR ''a''\<rparr>"

definition demo_request :: "64 word \<Rightarrow> string \<Rightarrow> agent_input" where
  "demo_request t l = AgentRequest 5 (Some \<lparr>rq_Fence = Some \<lparr>fn_Term = t, fn_LeaderId = l\<rparr>, rq_Assignment = Some demo_assignment\<rparr>)"

definition plain_codec :: "persistedSnapshot codec" where
  "plain_codec = \<lparr>co_Marshal = Some, co_Unmarshal = Some\<rparr>"

definition demo_life :: "persistedSnapshot statefs agent" where
  "demo_life = agent_run (NewAgentFileStore plain_codec) (runner_executor demo_host demo_runner)
     [demo_request 1 ''n1'', demo_request 2 ''n2'', AgentRestart, demo_request 1 ''n1'']
     (NewReconciler (NewAgentFileStore plain_codec) 0 [] \<lparr>sf_target = None, sf_script = []\<rparr>)"

lemma demo_life_leaders: "map (fn_LeaderId \<circ> fst) (ran_of demo_life) = [''n1'', ''n1'', ''n2'', ''n2'']"
  by code_simp

interpretation plain: agent_codec plain_codec
  by unfold_locales (simp add: plain_codec_def)

theorem agent_fenced_witness:
  "map (fn_LeaderId \<circ> fst) (ran_of demo_life) = [''n1'', ''n1'', ''n2'', ''n2'']
   \<and> sorted_wrt (\<lambda>f g. fn_Term f < fn_Term g \<or> f = g) (map fst (ran_of demo_life))"
  using demo_life_leaders
    agent_fenced [of plain_codec demo_life "runner_executor demo_host demo_runner"
      "[demo_request 1 ''n1'', demo_request 2 ''n2'', AgentRestart, demo_request 1 ''n1'']" "\<lparr>sf_target = None, sf_script = []\<rparr>"]
    plain.codec by (simp add: demo_life_def)

definition converged :: "AgentSnapshot \<Rightarrow> Assignment option \<times> Command list \<times> time" where
  "converged s = (sn_Assignment s, sn_Commands s, sn_UpdatedAt s)"

lemma accept_keeps:
  assumes "acceptFence st fence r = (r', e)"
  shows "converged (rl_state r') = converged (rl_state r)" "rl_ran r' = rl_ran r" "rl_op r' = rl_op r"
  using assms
  by (auto simp: acceptFence_def persistStateLocked_def converged_def Let_def
      split: option.splits prod.splits bool.splits if_splits)

text \<open>
  What an agent reports is what it converged: a request that succeeds leaves its fence, assignment
  and plan as the state, after the plan was executed without an error; a request that fails leaves
  assignment, commands and time as they were; and one that is refused by its fence, or is not
  valid, runs nothing.
\<close>

theorem agent_outcome:
  assumes "Reconciler_Reconcile st ex now request r = (r', response, e)"
  shows "(e = None \<longrightarrow> (\<exists>f a plan. validatedOwnedRequest request = Inr (f, a) \<and> ex_Plan ex (rl_op r) a = Some plan
            \<and> snd (ex_Execute ex (rl_op r) plan)
            \<and> rl_state r' = \<lparr>sn_Fence = Some f, sn_Assignment = Some a, sn_Commands = plan, sn_UpdatedAt = now\<rparr>))
     \<and> (e \<noteq> None \<longrightarrow> converged (rl_state r') = converged (rl_state r))
     \<and> (e \<noteq> None \<and> e \<noteq> Some ErrExecution \<and> e \<noteq> Some ErrPersistence \<longrightarrow> rl_ran r' = rl_ran r)"
proof (cases "validatedOwnedRequest request")
  case (Inl err)
  with assms show ?thesis by (auto simp: Reconciler_Reconcile_def)
next
  case (Inr fa)
  obtain fence a where fa: "fa = (fence, a)" by (cases fa)
  obtain r1 e1 where acc: "acceptFence st fence r = (r1, e1)" by (cases "acceptFence st fence r")
  note k = accept_keeps [OF acc]
  show ?thesis
  proof (cases "e1 \<noteq> None \<or> ex_Plan ex (rl_op r1) a = None")
    case True
    then have "converged (rl_state r') = converged (rl_state r) \<and> rl_ran r' = rl_ran r \<and> e \<noteq> None"
      using assms k by (cases e1) (auto simp: Reconciler_Reconcile_def Inr fa acc split: option.splits)
    then show ?thesis by auto
  next
    case False
    then obtain plan where plan: "ex_Plan ex (rl_op r1) a = Some plan" and e1: "e1 = None" by auto
    obtain commands ok where run: "ex_Execute ex (rl_op r1) plan = (commands, ok)" by (cases "ex_Execute ex (rl_op r1) plan")
    let ?r2 = "r1\<lparr>rl_op := rl_op r1 + 2, rl_ran := rl_ran r1 @ map (Pair fence) commands\<rparr>"
    let ?c = "\<lparr>sn_Fence = Some fence, sn_Assignment = Some a, sn_Commands = plan, sn_UpdatedAt = now\<rparr>"
    obtain r3 ok3 where p: "persistStateLocked st ?c ?r2 = (r3, ok3)" by fastforce
    have st3: "rl_state r3 = (if ok3 then ?c else rl_state r1)"
      using p by (auto simp: persistStateLocked_def split: prod.splits bool.splits)
    have "(r', e) = (if \<not> ok then (?r2, Some ErrExecution) else if ok3 then (r3, None) else (r3, Some ErrPersistence))"
      using assms by (auto simp: Reconciler_Reconcile_def Inr fa acc e1 plan run Let_def p split: bool.splits simp del: add_2_eq_Suc')
    then show ?thesis
      using st3 k plan run Inr fa by (cases ok; cases ok3) (auto simp: k)
  qed
qed

theorem agent_outcome_witness:
  "converged (rl_state (fst (Reconciler_Reconcile (NewAgentFileStore plain_codec) (runner_executor demo_host demo_runner) 9
     (Some \<lparr>rq_Fence = None, rq_Assignment = None\<rparr>)
     \<lparr>rl_store = \<lparr>sf_target = None, sf_script = []\<rparr>, rl_state = zeroSnapshot, rl_op = 0, rl_ran = []\<rparr>))) = converged zeroSnapshot"
proof -
  let ?r = "\<lparr>rl_store = \<lparr>sf_target = None, sf_script = []\<rparr>, rl_state = zeroSnapshot, rl_op = 0, rl_ran = []\<rparr>"
  have "Reconciler_Reconcile (NewAgentFileStore plain_codec) (runner_executor demo_host demo_runner) 9
     (Some \<lparr>rq_Fence = None, rq_Assignment = None\<rparr>) ?r = (?r, None, Some FenceRequired)"
    by (simp add: Reconciler_Reconcile_def validatedOwnedRequest_def)
  from agent_outcome [OF this] show ?thesis
    by (simp add: Reconciler_Reconcile_def validatedOwnedRequest_def)
qed

lemma install_Some:
  "installMaterializedRevision h n target sha = Some dir \<Longrightarrow>
     dir = target \<and> (ho_rename h n \<or> (\<exists>t. ho_cached h (Suc n) target = Some (Some t) \<and> verifyMaterializedRevision t sha))"
  by (auto simp: installMaterializedRevision_def split: if_splits option.splits)

lemma materialize_Some:
  assumes "materializeRevision h n r a = Some dir"
  shows "dir = revisionCachePath h r a
    \<and> ((\<exists>k t. ho_cached h k dir = Some (Some t) \<and> verifyMaterializedRevision t (as_ContentSha256 a))
       \<or> (\<exists>repository entries used. ho_usage h n = Some (entries, used) \<and> entries < dr_maxEntries r \<and> used < dr_maxBytes r
            \<and> ho_materialize h n repository (as_SourceRevision a) (as_Path a) (min (dr_maxBytes r - used) defaultAppSourceBytes)
                = Some (as_ContentSha256 a)))"
proof (cases "reuseOrRemoveInvalidRevision h n (revisionCachePath h r a) (as_ContentSha256 a)")
  case None
  with assms show ?thesis by (simp add: materializeRevision_def)
next
  case (Some reuse)
  show ?thesis
  proof (cases reuse)
    case True
    then have "dir = revisionCachePath h r a" using assms Some by (simp add: materializeRevision_def)
    moreover have "\<exists>t. ho_cached h n (revisionCachePath h r a) = Some (Some t) \<and> verifyMaterializedRevision t (as_ContentSha256 a)"
      using Some True by (auto simp: reuseOrRemoveInvalidRevision_def split: option.splits if_splits)
    ultimately show ?thesis by blast
  next
    case False
    obtain entries used repository where u: "ho_usage h n = Some (entries, used)" "entries < dr_maxEntries r" "used < dr_maxBytes r"
      and m: "ho_materialize h n repository (as_SourceRevision a) (as_Path a) (min (dr_maxBytes r - used) defaultAppSourceBytes)
                = Some (as_ContentSha256 a)"
      and i: "installMaterializedRevision h n (revisionCachePath h r a) (as_ContentSha256 a) = Some dir"
      using assms Some False by (auto simp: materializeRevision_def Let_def not_le split: option.splits if_splits)
    show ?thesis using install_Some [OF i] u m by blast
  qed
qed


lemma demo_plan:
  "Runner_Plan demo_host demo_runner 0 demo_assignment \<noteq> None"
  "length (fst (Runner_Execute demo_host demo_runner 0 (the (Runner_Plan demo_host demo_runner 0 demo_assignment)))) = 2"
  by code_simp+


end
