(* ===== verification/Os_Component.thy ===== *)
theory Os_Component
  imports Os_Text
begin

text \<open>
  Components and their initialization order: \<^verbatim>\<open>services/candaceos/component\<close>. A definition is a
  pointer, here a number; requirements are pointers, and two definitions are the same when their
  pointers are. The hooks of a definition run outside; here they are present or absent.
\<close>

subsection \<open>Definitions\<close>

record CompDef =
  cd_ptr :: nat
  cd_name :: string
  cd_requirements :: "nat list"

datatype comp_err =
    ErrNilOption nat | ErrNilDefinition nat | ErrName | ErrMissingAssemble | ErrRequirement string
  | ErrDuplicateName string | ErrMissingRequirement string nat | ErrDependencyCycle "nat list"

definition MaxNameBytes :: nat where "MaxNameBytes = 64"

definition is_lower_letter :: "char \<Rightarrow> bool" where
  "is_lower_letter c \<longleftrightarrow> c \<in> set ''abcdefghijklmnopqrstuvwxyz''"

definition comp_validateName :: "string \<Rightarrow> comp_err option" where
  "comp_validateName s =
     (if s = [] \<or> MaxNameBytes < length s \<or> \<not> is_lower_letter (hd s) then Some ErrName
      else if list_all (\<lambda>c. is_lower_alnum c \<or> c = CHR ''-'') (tl s) then None else Some ErrName)"

text \<open>A requirement of \<^verbatim>\<open>New\<close> is nil or a definition; the position of a nil one is counted from 1.\<close>

fun validateRequirements :: "string \<Rightarrow> nat \<Rightarrow> string list \<Rightarrow> CompDef option list \<Rightarrow> comp_err option" where
  "validateRequirements me position declared [] = None"
| "validateRequirements me position declared (None # rs) = Some (ErrNilDefinition (position + 1))"
| "validateRequirements me position declared (Some r # rs) =
     (if cd_name r = me then Some (ErrRequirement (cd_name r))
      else if cd_name r \<in> set declared then Some (ErrRequirement (cd_name r))
      else validateRequirements me (position + 1) (cd_name r # declared) rs)"

text \<open>The options of \<^verbatim>\<open>New\<close>; \<open>None\<close> is a nil option, a false flag a nil function.\<close>

datatype comp_option = WithAssemble bool | WithStart bool | WithStop bool | WithRequires "CompDef option list"

record comp_settings =
  se_assemble :: bool
  se_start :: bool
  se_stop :: bool
  se_requirements :: "CompDef option list"

fun comp_apply :: "comp_option \<Rightarrow> comp_settings \<Rightarrow> comp_err + comp_settings" where
  "comp_apply (WithAssemble f) s = (if f then Inr (s\<lparr>se_assemble := True\<rparr>) else Inl ErrMissingAssemble)"
| "comp_apply (WithStart f) s = (if f then Inr (s\<lparr>se_start := True\<rparr>) else Inl (ErrRequirement ''start''))"
| "comp_apply (WithStop f) s = (if f then Inr (s\<lparr>se_stop := True\<rparr>) else Inl (ErrRequirement ''stop''))"
| "comp_apply (WithRequires rs) s = Inr (s\<lparr>se_requirements := se_requirements s @ rs\<rparr>)"

fun comp_apply_all :: "nat \<Rightarrow> comp_option option list \<Rightarrow> comp_settings \<Rightarrow> comp_err + comp_settings" where
  "comp_apply_all position [] s = Inr s"
| "comp_apply_all position (None # os) s = Inl (ErrNilOption (position + 1))"
| "comp_apply_all position (Some opt # os) s = and_then (comp_apply opt s) (comp_apply_all (position + 1) os)"

definition Component_New :: "nat \<Rightarrow> string \<Rightarrow> comp_option option list \<Rightarrow> comp_err + CompDef" where
  "Component_New ptr nm options =
     (case comp_validateName nm of
        Some e \<Rightarrow> Inl e
      | None \<Rightarrow>
          and_then (comp_apply_all 0 options \<lparr>se_assemble = False, se_start = False, se_stop = False, se_requirements = []\<rparr>)
            (\<lambda>s. if \<not> se_assemble s then Inl ErrMissingAssemble
                 else case validateRequirements nm 0 [] (se_requirements s) of
                        Some e \<Rightarrow> Inl e
                      | None \<Rightarrow> Inr \<lparr>cd_ptr = ptr, cd_name = nm,
                                  cd_requirements = map (cd_ptr \<circ> the) (se_requirements s)\<rparr>))"

subsection \<open>The order\<close>

fun positionsOf_error :: "nat \<Rightarrow> string list \<Rightarrow> CompDef option list \<Rightarrow> comp_err option" where
  "positionsOf_error position names [] = None"
| "positionsOf_error position names (None # ds) = Some (ErrNilDefinition (position + 1))"
| "positionsOf_error position names (Some d # ds) =
     (if cd_name d \<in> set names then Some (ErrDuplicateName (cd_name d))
      else positionsOf_error (position + 1) (cd_name d # names) ds)"

definition missing_requirement :: "CompDef list \<Rightarrow> (CompDef \<times> nat) option" where
  "missing_requirement ds =
     find (\<lambda>(d, r). r \<notin> cd_ptr ` set ds) (concat (map (\<lambda>d. map (Pair d) (cd_requirements d)) ds))"

text \<open>A settled position is represented by its pointer: the first requirement that is not settled.\<close>

definition unsettledRequirement :: "nat list \<Rightarrow> CompDef \<Rightarrow> nat option" where
  "unsettledRequirement settled d = find (\<lambda>r. r \<notin> set settled) (cd_requirements d)"

definition readyPosition :: "nat list \<Rightarrow> CompDef list \<Rightarrow> CompDef option" where
  "readyPosition settled ds = find (\<lambda>d. cd_ptr d \<notin> set settled \<and> unsettledRequirement settled d = None) ds"

definition comp_at :: "CompDef list \<Rightarrow> nat \<Rightarrow> CompDef option" where
  "comp_at ds ptr = find (\<lambda>d. cd_ptr d = ptr) ds"

text \<open>
  From an unsettled definition along first unsettled requirements until one repeats; the fuel is one
  more than the number of definitions.
\<close>

fun cycle_walk :: "nat \<Rightarrow> CompDef list \<Rightarrow> nat list \<Rightarrow> nat list \<Rightarrow> nat option \<Rightarrow> nat list" where
  "cycle_walk 0 ds settled path current = path"
| "cycle_walk (Suc fuel) ds settled path None = path"
| "cycle_walk (Suc fuel) ds settled path (Some p) =
     (if p \<in> set path then dropWhile (\<lambda>x. x \<noteq> p) path @ [p]
      else cycle_walk fuel ds settled (path @ [p])
             (case comp_at ds p of None \<Rightarrow> None | Some d \<Rightarrow> unsettledRequirement settled d))"

definition cyclePath :: "CompDef list \<Rightarrow> nat list \<Rightarrow> nat list" where
  "cyclePath ds settled =
     cycle_walk (Suc (length ds)) ds settled [] (map_option cd_ptr (find (\<lambda>d. cd_ptr d \<notin> set settled) ds))"

text \<open>The loop settles one definition per round; \<open>n\<close> is the number of definitions not settled yet.\<close>

fun order_loop :: "nat \<Rightarrow> CompDef list \<Rightarrow> CompDef list \<Rightarrow> comp_err + CompDef list" where
  "order_loop 0 ds resolved = Inr resolved"
| "order_loop (Suc n) ds resolved =
     (case readyPosition (map cd_ptr resolved) ds of
        None \<Rightarrow> Inl (ErrDependencyCycle (cyclePath ds (map cd_ptr resolved)))
      | Some d \<Rightarrow> order_loop n ds (resolved @ [d]))"

definition Component_Order :: "CompDef option list \<Rightarrow> comp_err + CompDef list" where
  "Component_Order definitions =
     (case positionsOf_error 0 [] definitions of
        Some e \<Rightarrow> Inl e
      | None \<Rightarrow>
          (let ds = map the definitions
           in case missing_requirement ds of
                Some (d, r) \<Rightarrow> Inl (ErrMissingRequirement (cd_name d) r)
              | None \<Rightarrow> order_loop (length ds) ds []))"

subsection \<open>What the loop keeps\<close>

definition settled_before :: "CompDef list \<Rightarrow> bool" where
  "settled_before ds \<longleftrightarrow> (\<forall>i < length ds. set (cd_requirements (ds ! i)) \<subseteq> cd_ptr ` set (take i ds))"

lemma settled_before_Nil [simp]: "settled_before []"
  by (simp add: settled_before_def)

lemma settled_before_snoc:
  "settled_before (ds @ [d]) \<longleftrightarrow> settled_before ds \<and> set (cd_requirements d) \<subseteq> cd_ptr ` set ds"
  by (auto simp: settled_before_def nth_append less_Suc_eq)

lemma ready_Some:
  assumes "readyPosition settled ds = Some d"
  shows "d \<in> set ds" "cd_ptr d \<notin> set settled" "set (cd_requirements d) \<subseteq> set settled"
  using assms by (auto simp: readyPosition_def unsettledRequirement_def find_Some_iff find_None_iff)

lemma order_loop_Inr:
  assumes "order_loop n ds resolved = Inr out"
    and "set resolved \<subseteq> set ds" "distinct (map cd_ptr resolved)" "settled_before resolved"
  shows "set out \<subseteq> set ds \<and> distinct (map cd_ptr out) \<and> settled_before out \<and> length out = length resolved + n"
  using assms
proof (induction n arbitrary: resolved)
  case (Suc n)
  then obtain d where d: "readyPosition (map cd_ptr resolved) ds = Some d" and
    loop: "order_loop n ds (resolved @ [d]) = Inr out" by (auto split: option.splits)
  have "set (resolved @ [d]) \<subseteq> set ds" "distinct (map cd_ptr (resolved @ [d]))" "settled_before (resolved @ [d])"
    using Suc.prems ready_Some [OF d] by (auto simp: settled_before_snoc)
  from Suc.IH [OF loop this] show ?case by simp
qed auto

subsection \<open>Cycles\<close>

text \<open>Every definition of the path requires the next one.\<close>

definition requires_chain :: "CompDef list \<Rightarrow> nat list \<Rightarrow> bool" where
  "requires_chain ds path \<longleftrightarrow>
     (\<forall>i. Suc i < length path \<longrightarrow> (\<exists>d\<in>set ds. cd_ptr d = path ! i \<and> path ! Suc i \<in> set (cd_requirements d)))"

definition is_cycle :: "CompDef list \<Rightarrow> nat list \<Rightarrow> bool" where
  "is_cycle ds path \<longleftrightarrow> 2 \<le> length path \<and> hd path = last path \<and> distinct (tl path) \<and> requires_chain ds path"

lemma requires_chain_snoc:
  "path \<noteq> [] \<Longrightarrow> requires_chain ds (path @ [p]) \<longleftrightarrow>
     requires_chain ds path \<and> (\<exists>d\<in>set ds. cd_ptr d = last path \<and> p \<in> set (cd_requirements d))"
  by (cases path rule: rev_cases) (auto simp: requires_chain_def nth_append less_Suc_eq last_conv_nth)

lemma requires_chain_drop: "requires_chain ds (xs @ ys) \<Longrightarrow> requires_chain ds ys"
proof (unfold requires_chain_def, intro allI impI)
  fix i assume h: "\<forall>i. Suc i < length (xs @ ys) \<longrightarrow> (\<exists>d\<in>set ds. cd_ptr d = (xs @ ys) ! i \<and> (xs @ ys) ! Suc i \<in> set (cd_requirements d))"
    and i: "Suc i < length ys"
  from h [rule_format, of "length xs + i"] i
  show "\<exists>d\<in>set ds. cd_ptr d = ys ! i \<and> ys ! Suc i \<in> set (cd_requirements d)"
    by (simp add: nth_append)
qed

lemma comp_at_Some: "p \<in> cd_ptr ` set ds \<Longrightarrow> \<exists>d\<in>set ds. comp_at ds p = Some d \<and> cd_ptr d = p"
  unfolding comp_at_def by (induction ds) auto

lemma walk_cycle:
  assumes stuck: "\<And>d. d \<in> set ds \<Longrightarrow> cd_ptr d \<notin> set settled \<Longrightarrow>
      \<exists>r. unsettledRequirement settled d = Some r \<and> r \<in> cd_ptr ` set ds"
    and "distinct path" "set path \<subseteq> cd_ptr ` set ds" "p \<in> cd_ptr ` set ds" "p \<notin> set settled"
    and "requires_chain ds (path @ [p])" "length ds < fuel + length path"
  shows "is_cycle ds (cycle_walk fuel ds settled path (Some p))"
  using assms(2-)
proof (induction fuel arbitrary: path p)
  case 0
  have "length path \<le> card (cd_ptr ` set ds)"
    using 0(1,2) by (metis card_mono distinct_card finite_imageI finite_set)
  also have "\<dots> \<le> length ds" by (meson card_image_le card_length finite_set le_trans)
  finally show ?case using 0(6) by simp
next
  case (Suc fuel)
  show ?case
  proof (cases "p \<in> set path")
    case True
    then have ne: "dropWhile (\<lambda>x. x \<noteq> p) path \<noteq> []" by (simp add: dropWhile_eq_Nil_conv)
    obtain rest where d: "dropWhile (\<lambda>x. x \<noteq> p) path = p # rest"
      using hd_dropWhile [OF ne] ne by (cases "dropWhile (\<lambda>x. x \<noteq> p) path") auto
    have path: "path = takeWhile (\<lambda>x. x \<noteq> p) path @ (p # rest)" using takeWhile_dropWhile_id d by metis
    have dist: "distinct (p # rest)" using Suc.prems(1) path by (metis distinct_append)
    have "path @ [p] = takeWhile (\<lambda>x. x \<noteq> p) path @ (p # rest @ [p])" using path by (metis append.assoc append_Cons)
    then have "requires_chain ds (p # rest @ [p])" using Suc.prems(5) requires_chain_drop by metis
    then show ?thesis using True d dist by (simp add: is_cycle_def)
  next
    case False
    obtain d where d: "d \<in> set ds" "comp_at ds p = Some d" "cd_ptr d = p" using comp_at_Some Suc.prems(3) by blast
    obtain r where r: "unsettledRequirement settled d = Some r" "r \<in> cd_ptr ` set ds"
      using stuck d Suc.prems(4) by blast
    have r': "r \<in> set (cd_requirements d)" "r \<notin> set settled"
      using r(1) by (auto simp: unsettledRequirement_def find_Some_iff)
    have "requires_chain ds ((path @ [p]) @ [r])"
      using Suc.prems(5) d r' requires_chain_snoc [of "path @ [p]" ds r] by auto
    then have "is_cycle ds (cycle_walk fuel ds settled (path @ [p]) (Some r))"
      using Suc.prems False r r' by (intro Suc.IH) auto
    then show ?thesis using False d r by simp
  qed
qed

lemma order_loop_Inl:
  assumes "order_loop n ds resolved = Inl e" "length resolved + n = length ds"
    and "set resolved \<subseteq> set ds" "distinct (map cd_ptr resolved)" "distinct (map cd_ptr ds)"
    and closed: "\<And>d r. d \<in> set ds \<Longrightarrow> r \<in> set (cd_requirements d) \<Longrightarrow> r \<in> cd_ptr ` set ds"
  shows "\<exists>path. e = ErrDependencyCycle path \<and> is_cycle ds path"
  using assms(1-4)
proof (induction n arbitrary: resolved)
  case (Suc n)
  show ?case
  proof (cases "readyPosition (map cd_ptr resolved) ds")
    case None
    let ?s = "map cd_ptr resolved"
    have stuck: "\<exists>r. unsettledRequirement ?s d = Some r \<and> r \<in> cd_ptr ` set ds" if "d \<in> set ds" "cd_ptr d \<notin> set ?s" for d
    proof -
      have "unsettledRequirement ?s d \<noteq> None" using None that by (auto simp: readyPosition_def find_None_iff)
      then obtain r where r: "unsettledRequirement ?s d = Some r" by blast
      then have "r \<in> set (cd_requirements d)" by (auto simp: unsettledRequirement_def find_Some_iff)
      with r closed that show ?thesis by blast
    qed
    have "\<exists>d\<in>set ds. cd_ptr d \<notin> set ?s"
    proof (rule ccontr)
      assume "\<not> ?thesis"
      then have "cd_ptr ` set ds \<subseteq> set ?s" by blast
      then have "card (cd_ptr ` set ds) \<le> card (set ?s)" by (rule card_mono [rotated]) simp
      moreover have "card (cd_ptr ` set ds) = length ds" using assms(5) by (metis distinct_card length_map set_map)
      moreover have "card (set ?s) \<le> length resolved" using card_length by (metis length_map)
      ultimately show False using Suc.prems(2) by simp
    qed
    then obtain d where d: "find (\<lambda>d. cd_ptr d \<notin> set ?s) ds = Some d"
      by (metis (mono_tags, lifting) find_None_iff not_None_eq)
    then have "d \<in> set ds" "cd_ptr d \<notin> set ?s" by (auto simp: find_Some_iff)
    then have "is_cycle ds (cyclePath ds ?s)"
      unfolding cyclePath_def d option.map
      by (intro walk_cycle) (use stuck in \<open>auto simp: requires_chain_def\<close>)
    then show ?thesis using Suc.prems(1) None by auto
  next
    case (Some d)
    then have "order_loop n ds (resolved @ [d]) = Inl e" using Suc.prems(1) by simp
    then show ?thesis using Suc.IH [of "resolved @ [d]"] Suc.prems(2-4) ready_Some [OF Some] by simp
  qed
qed simp

text \<open>A list that settles every requirement first has no cycle.\<close>

lemma no_cycle:
  assumes "settled_before out" "set out = set ds" "distinct (map cd_ptr out)"
  shows "\<not> is_cycle ds path"
proof
  assume c: "is_cycle ds path"
  define at_pos where "at_pos p = (LEAST i. i < length out \<and> cd_ptr (out ! i) = p)" for p
  have pos: "at_pos (cd_ptr (out ! i)) = i" if "i < length out" for i
  proof -
    have "j = i" if "j < length out" "cd_ptr (out ! j) = cd_ptr (out ! i)" for j
      using that \<open>i < length out\<close> assms(3) by (metis length_map nth_eq_iff_index_eq nth_map)
    then show ?thesis unfolding at_pos_def using that by (intro Least_equality) auto
  qed
  have less: "at_pos r < at_pos (cd_ptr d)" if "d \<in> set ds" "r \<in> set (cd_requirements d)" for d r
  proof -
    have "d \<in> set out" using that(1) assms(2) by simp
    then obtain i where i: "i < length out" "out ! i = d" by (auto simp: in_set_conv_nth)
    have "set (cd_requirements (out ! i)) \<subseteq> cd_ptr ` set (take i out)"
      using assms(1) i(1) unfolding settled_before_def by blast
    then have "r \<in> cd_ptr ` set (take i out)" using that(2) i(2) by blast
    then obtain j where j: "j < i" "cd_ptr (out ! j) = r" by (auto simp: in_set_conv_nth)
    have "j < length out" using j(1) i(1) by simp
    from pos [OF this] pos [OF i(1)] show ?thesis using i(2) j by simp
  qed
  have step: "at_pos (path ! Suc i) < at_pos (path ! i)" if "Suc i < length path" for i
    using c that less unfolding is_cycle_def requires_chain_def by metis
  have fall: "at_pos (path ! i) \<le> at_pos (path ! 0) \<and> (0 < i \<longrightarrow> at_pos (path ! i) < at_pos (path ! 0))" if "i < length path" for i
    using that
  proof (induction i)
    case (Suc i)
    then show ?case using step [of i] by force
  qed simp
  have l: "2 \<le> length path" using c by (simp add: is_cycle_def)
  then have "path \<noteq> []" by auto
  then have "path ! (length path - 1) = path ! 0" using c by (simp add: is_cycle_def hd_conv_nth last_conv_nth)
  then show False using fall [of "length path - 1"] l by (cases path) simp_all
qed

lemma positions_distinct:
  "positionsOf_error k names definitions = None \<Longrightarrow>
     (\<forall>d\<in>set definitions. d \<noteq> None) \<and> distinct (map (cd_name \<circ> the) definitions)
     \<and> (cd_name \<circ> the) ` set definitions \<inter> set names = {}"
  by (induction k names definitions rule: positionsOf_error.induct) (auto split: if_splits)

lemma missing_None:
  "missing_requirement ds = None \<Longrightarrow> d \<in> set ds \<Longrightarrow> r \<in> set (cd_requirements d) \<Longrightarrow> r \<in> cd_ptr ` set ds"
  by (force simp: missing_requirement_def find_None_iff)

subsection \<open>Properties\<close>

text \<open>
  C25. Components are put in an order exactly when they can be: for definitions with distinct names
  whose requirements are all among them, the result is an order of all of them in which every
  requirement comes before what requires it, or the report of a genuine cycle of requirements, and
  the latter exactly when there is one. The search ends in either case.
\<close>

theorem component_order:
  assumes "positionsOf_error 0 [] definitions = None" "ds = map the definitions"
    and "missing_requirement ds = None" "inj_on cd_ptr (set ds)"
  shows "(case Component_Order definitions of
            Inr out \<Rightarrow> mset out = mset ds \<and> settled_before out \<and> (\<nexists>path. is_cycle ds path)
          | Inl e \<Rightarrow> (\<exists>path. e = ErrDependencyCycle path \<and> is_cycle ds path))"
proof -
  have "distinct (map cd_name ds)" using positions_distinct [OF assms(1)] by (simp add: assms(2))
  then have "distinct ds" by (simp add: distinct_map)
  then have ptrs: "distinct (map cd_ptr ds)" using assms(4) by (simp add: distinct_map)
  have order: "Component_Order definitions = order_loop (length ds) ds []"
    using assms(1,3) by (simp add: Component_Order_def Let_def flip: assms(2))
  show ?thesis
  proof (cases "order_loop (length ds) ds []")
    case (Inl e)
    then show ?thesis
      using order_loop_Inl [OF Inl] ptrs missing_None [OF assms(3)] by (simp add: order)
  next
    case (Inr out)
    from order_loop_Inr [OF Inr]
    have out: "set out \<subseteq> set ds" "distinct (map cd_ptr out)" "settled_before out" "length out = length ds" by simp_all
    have "distinct out" using out(2) by (simp add: distinct_map)
    then have "set out = set ds"
      using out(1,4) \<open>distinct ds\<close> by (metis card_subset_eq distinct_card finite_set)
    then have "mset out = mset ds" using \<open>distinct ds\<close> \<open>distinct out\<close> set_eq_iff_mset_eq_distinct by blast
    with no_cycle [OF out(3) \<open>set out = set ds\<close> out(2)] out(3) show ?thesis by (simp add: order Inr)
  qed
qed

text \<open>Three components, given in the wrong order.\<close>

definition demo_components :: "CompDef option list" where
  "demo_components =
     [Some \<lparr>cd_ptr = 3, cd_name = ''web'', cd_requirements = [1, 2]\<rparr>,
      Some \<lparr>cd_ptr = 2, cd_name = ''cache'', cd_requirements = [1]\<rparr>,
      Some \<lparr>cd_ptr = 1, cd_name = ''db'', cd_requirements = []\<rparr>]"

lemma demo_order: "map_sum (\<lambda>e. e) (map cd_name) (Component_Order demo_components) = Inr [''db'', ''cache'', ''web'']"
  by code_simp

theorem component_order_witness:
  "map_sum (\<lambda>e. e) (map cd_name) (Component_Order demo_components) = Inr [''db'', ''cache'', ''web'']
   \<and> (\<nexists>path. is_cycle (map the demo_components) path)"
proof -
  have "positionsOf_error 0 [] demo_components = None" "missing_requirement (map the demo_components) = None"
    by code_simp+
  moreover have "inj_on cd_ptr (set (map the demo_components))" by (simp add: demo_components_def)
  ultimately show ?thesis
    using component_order [of demo_components "map the demo_components"] demo_order
    by (auto split: sum.splits)
qed

end
