(* ===== verification/Os_Approvals.thy ===== *)
theory Os_Approvals
  imports Warden_Prelude
begin

text \<open>
  The approval queue of the CandaceOS operator: \<^verbatim>\<open>services/candaceos/operator/approvals.go\<close>. Every
  region under the mutex of the source is one operation here, and so is every call of a hook, so
  that requests, resolutions and aborts interleave as they do there (\<open>queue_step\<close>). The hooks answer
  with success or failure; identifiers are new when they are made.
\<close>

subsection \<open>Data\<close>

definition DecisionApprove :: string where "DecisionApprove = ''approve''"
definition DecisionReject :: string where "DecisionReject = ''reject''"
definition DecisionExpired :: string where "DecisionExpired = ''expired''"

definition actor_operator :: string where "actor_operator = ''operator''"
definition actor_runtime :: string where "actor_runtime = ''runtime''"
definition actor_timeout :: string where "actor_timeout = ''timeout''"
definition actor_abort :: string where "actor_abort = ''abort''"

text \<open>\<open>ar_Payload\<close>: the encoded payload, if it encodes.\<close>

record ApprovalRequest =
  ar_RunID :: string
  ar_ToolCallID :: string
  ar_Kind :: string
  ar_Title :: string
  ar_Detail :: string
  ar_Risk :: string
  ar_Payload :: "string option"
  ar_RequiresFleetQuorum :: bool

record QueuedApproval =
  qa_ID :: string
  qa_RunID :: string
  qa_ToolCallID :: string
  qa_Kind :: string
  qa_Title :: string
  qa_Detail :: string
  qa_Risk :: string
  qa_PayloadSHA256 :: string
  qa_RequiresFleetQuorum :: bool
  qa_RequestedAt :: time
  qa_ExpiresAt :: time

record ApprovalResolution =
  ap_Approval :: QueuedApproval
  ap_Decision :: string
  ap_Actor :: string
  ap_At :: time

record pendingApproval =
  pd_approval :: QueuedApproval
  pd_resolving :: bool
  pd_invalidatedBy :: string

text \<open>
  The two maps of the queue. Not in the source: the identifiers used so far, the calls of the hook
  that records a resolution, the resolutions between their mark and their removal (with the answer
  of the hook, once it was called), and the results handed to the requests that wait for them.
\<close>

record ApprovalQueue =
  aq_timeout :: duration
  aq_recording :: "(string \<times> pendingApproval) list"
  aq_pending :: "(string \<times> pendingApproval) list"
  aq_used :: "string list"
  aq_resolved :: "ApprovalResolution list"
  aq_finishing :: "(ApprovalResolution \<times> bool option) list"
  aq_results :: "(ApprovalResolution \<times> bool) list"

definition NewApprovalQueue :: "duration \<Rightarrow> ApprovalQueue" where
  "NewApprovalQueue timeout =
     \<lparr>aq_timeout = timeout, aq_recording = [], aq_pending = [], aq_used = [], aq_resolved = [], aq_finishing = [], aq_results = []\<rparr>"

subsection \<open>A request\<close>

datatype request_err = MissingFields | BadRisk | BadPayload

definition new_approval ::
  "(string \<Rightarrow> string) \<Rightarrow> duration \<Rightarrow> time \<Rightarrow> time option \<Rightarrow> string \<Rightarrow> ApprovalRequest \<Rightarrow> request_err + QueuedApproval" where
  "new_approval sha256 timeout now deadline ident r =
     (if ar_Kind r = [] \<or> ar_Title r = [] \<or> ar_Detail r = [] then Inl MissingFields
      else if ar_Risk r \<noteq> ''low'' \<and> ar_Risk r \<noteq> ''medium'' \<and> ar_Risk r \<noteq> ''high'' then Inl BadRisk
      else
        case ar_Payload r of
          None \<Rightarrow> Inl BadPayload
        | Some payload \<Rightarrow>
            (let expires = now + timeout
             in Inr \<lparr>qa_ID = ident, qa_RunID = ar_RunID r, qa_ToolCallID = ar_ToolCallID r, qa_Kind = ar_Kind r,
                     qa_Title = ar_Title r, qa_Detail = ar_Detail r, qa_Risk = ar_Risk r,
                     qa_PayloadSHA256 = sha256 payload, qa_RequiresFleetQuorum = ar_RequiresFleetQuorum r,
                     qa_RequestedAt = now,
                     qa_ExpiresAt = (case deadline of None \<Rightarrow> expires | Some d \<Rightarrow> if d < expires then d else expires)\<rparr>))"

definition Request_record :: "QueuedApproval \<Rightarrow> ApprovalQueue \<Rightarrow> ApprovalQueue" where
  "Request_record a q =
     q\<lparr>aq_recording := map_put (qa_ID a) \<lparr>pd_approval = a, pd_resolving = False, pd_invalidatedBy = []\<rparr> (aq_recording q),
       aq_used := qa_ID a # aq_used q\<rparr>"

text \<open>The hook of the request failed: the request fails.\<close>

definition Request_unrecorded :: "string \<Rightarrow> ApprovalQueue \<Rightarrow> ApprovalQueue" where
  "Request_unrecorded ident q = q\<lparr>aq_recording := map_del ident (aq_recording q)\<rparr>"

text \<open>
  It succeeded: the approval is published, unless it was invalidated meanwhile or its context is
  done. Then it is resolved as expired, through the hook alone.
\<close>

definition Request_publish :: "string \<Rightarrow> bool \<Rightarrow> time \<Rightarrow> ApprovalQueue \<Rightarrow> ApprovalQueue" where
  "Request_publish ident ctx_done now q =
     (case map_of (aq_recording q) ident of
        None \<Rightarrow> q
      | Some p \<Rightarrow>
          (let q = q\<lparr>aq_recording := map_del ident (aq_recording q)\<rparr>
           in if pd_invalidatedBy p = [] \<and> \<not> ctx_done then q\<lparr>aq_pending := map_put ident p (aq_pending q)\<rparr>
              else q\<lparr>aq_resolved := aq_resolved q @
                     [\<lparr>ap_Approval = pd_approval p, ap_Decision = DecisionExpired,
                       ap_Actor = (if pd_invalidatedBy p = [] then actor_runtime else pd_invalidatedBy p), ap_At = now\<rparr>]\<rparr>))"

subsection \<open>Finishing\<close>

datatype finish_state = FinishMissing | FinishRecording | FinishResolving | FinishApplied ApprovalResolution

definition finish_mark :: "string \<Rightarrow> string \<Rightarrow> string \<Rightarrow> time \<Rightarrow> ApprovalQueue \<Rightarrow> ApprovalQueue \<times> finish_state" where
  "finish_mark ident decision actor now q =
     (if map_of (aq_recording q) ident \<noteq> None then (q, FinishRecording)
      else
        case map_of (aq_pending q) ident of
          None \<Rightarrow> (q, FinishMissing)
        | Some p \<Rightarrow>
            (if pd_resolving p then (q, FinishResolving)
             else
               let late = decision \<noteq> DecisionExpired \<and> \<not> now < qa_ExpiresAt (pd_approval p);
                   r = \<lparr>ap_Approval = pd_approval p, ap_Decision = (if late then DecisionExpired else decision),
                        ap_Actor = (if late then actor_timeout else actor), ap_At = now\<rparr>
               in (q\<lparr>aq_pending := map_put ident (p\<lparr>pd_resolving := True\<rparr>) (aq_pending q),
                     aq_finishing := (r, None) # aq_finishing q\<rparr>, FinishApplied r)))"

definition finish_hook :: "ApprovalResolution \<Rightarrow> bool \<Rightarrow> ApprovalQueue \<Rightarrow> ApprovalQueue" where
  "finish_hook r ok q =
     q\<lparr>aq_resolved := aq_resolved q @ [r], aq_finishing := (r, Some ok) # remove1 (r, None) (aq_finishing q)\<rparr>"

definition finish_deliver :: "ApprovalResolution \<Rightarrow> bool \<Rightarrow> ApprovalQueue \<Rightarrow> ApprovalQueue" where
  "finish_deliver r ok q =
     q\<lparr>aq_pending := map_del (qa_ID (ap_Approval r)) (aq_pending q),
       aq_finishing := remove1 (r, Some ok) (aq_finishing q), aq_results := aq_results q @ [(r, ok)]\<rparr>"

datatype resolve_err =
  BadDecision | ApprovalNotPending | ErrApprovalRecording | ErrApprovalResolving | ErrApprovalExpired | ErrRecordingResolution

definition Resolve :: "string \<Rightarrow> string \<Rightarrow> string \<Rightarrow> time \<Rightarrow> ApprovalQueue \<Rightarrow> ApprovalQueue \<times> (resolve_err + ApprovalResolution)" where
  "Resolve ident decision actor now q =
     (if decision \<noteq> DecisionApprove \<and> decision \<noteq> DecisionReject then (q, Inl BadDecision)
      else
        case finish_mark ident decision (if actor = [] then actor_operator else actor) now q of
          (q, FinishMissing) \<Rightarrow> (q, Inl ApprovalNotPending)
        | (q, FinishRecording) \<Rightarrow> (q, Inl ErrApprovalRecording)
        | (q, FinishResolving) \<Rightarrow> (q, Inl ErrApprovalResolving)
        | (q, FinishApplied r) \<Rightarrow> (q, Inr r))"

text \<open>What \<^verbatim>\<open>Resolve\<close> and \<^verbatim>\<open>ExpireRun\<close> report once the hook has answered.\<close>

definition Resolve_errors :: "ApprovalResolution \<Rightarrow> bool \<Rightarrow> resolve_err list" where
  "Resolve_errors r ok = (if ap_Decision r = DecisionExpired then [ErrApprovalExpired] else []) @ (if ok then [] else [ErrRecordingResolution])"

definition ExpireRun_failed :: "finish_state \<Rightarrow> bool \<Rightarrow> bool" where
  "ExpireRun_failed s ok = (case s of FinishApplied r \<Rightarrow> \<not> ok | FinishMissing \<Rightarrow> True | FinishRecording \<Rightarrow> True | FinishResolving \<Rightarrow> True)"

text \<open>\<^verbatim>\<open>ExpireRun\<close> first invalidates what is being recorded and lists what is pending, then finishes each.\<close>

definition ExpireRun_mark :: "string \<Rightarrow> string \<Rightarrow> ApprovalQueue \<Rightarrow> ApprovalQueue \<times> string list" where
  "ExpireRun_mark run actor q =
     (if run = [] then (q, [])
      else
        (q\<lparr>aq_recording := map (\<lambda>(i, p). (i, if qa_RunID (pd_approval p) = run \<and> pd_invalidatedBy p = []
                                              then p\<lparr>pd_invalidatedBy := (if actor = [] then actor_abort else actor)\<rparr> else p))
                             (aq_recording q)\<rparr>,
         sort (map fst (filter (\<lambda>(i, p). qa_RunID (pd_approval p) = run) (aq_pending q)))))"

definition Pending :: "ApprovalQueue \<Rightarrow> QueuedApproval list" where
  "Pending q = sort_key qa_RequestedAt (map (pd_approval \<circ> snd) (aq_pending q))"

definition Get :: "string \<Rightarrow> ApprovalQueue \<Rightarrow> QueuedApproval option" where
  "Get ident q =
     (case map_of (aq_pending q) ident of
        None \<Rightarrow> None
      | Some p \<Rightarrow> if pd_resolving p then None else Some (pd_approval p))"

subsection \<open>Interleavings\<close>

text \<open>
  What the requests, the operators and the aborts do, one operation at a time. A request whose
  context ends or whose timer fires finishes its approval as expired, like an abort.
\<close>

inductive queue_step :: "ApprovalQueue \<Rightarrow> ApprovalQueue \<Rightarrow> bool" where
  request: "queue_step q (Request_record a q)"
    if "new_approval sha256 (aq_timeout q) now deadline ident r = Inr a" and "ident \<notin> set (aq_used q)"
| refuse: "queue_step q (Request_unrecorded ident q)"
| publish: "queue_step q (Request_publish ident ctx_done now q)"
| resolve: "queue_step q (fst (Resolve ident decision actor now q))"
| expire: "queue_step q (fst (finish_mark ident DecisionExpired actor now q))"
| hook: "queue_step q (finish_hook r ok q)" if "(r, None) \<in> set (aq_finishing q)"
| deliver: "queue_step q (finish_deliver r ok q)" if "(r, Some ok) \<in> set (aq_finishing q)"
| abort: "queue_step q (fst (ExpireRun_mark run actor q))"

inductive_cases queue_stepE: "queue_step q q'"

end
