(* ===== verification/Os_Queue.thy ===== *)
theory Os_Queue
  imports Os_Approvals
begin

text \<open>What the approval queue keeps, over every interleaving of its operations.\<close>

definition rid :: "ApprovalResolution \<Rightarrow> string" where
  "rid r = qa_ID (ap_Approval r)"

definition in_time :: "ApprovalResolution \<Rightarrow> bool" where
  "in_time r \<longleftrightarrow> ap_Decision r = DecisionExpired \<or> ap_At r < qa_ExpiresAt (ap_Approval r)"

definition resolved_ids :: "ApprovalQueue \<Rightarrow> string set" where
  "resolved_ids q = rid ` set (aq_resolved q)"

definition finishing_ids :: "ApprovalQueue \<Rightarrow> string set" where
  "finishing_ids q = (rid \<circ> fst) ` set (aq_finishing q)"

definition result_ids :: "ApprovalQueue \<Rightarrow> string set" where
  "result_ids q = (rid \<circ> fst) ` set (aq_results q)"

lemma resolved_ids_simps [simp]:
  "resolved_ids (q\<lparr>aq_recording := x\<rparr>) = resolved_ids q" "resolved_ids (q\<lparr>aq_pending := x\<rparr>) = resolved_ids q"
  "resolved_ids (q\<lparr>aq_used := u\<rparr>) = resolved_ids q" "resolved_ids (q\<lparr>aq_finishing := f\<rparr>) = resolved_ids q"
  "resolved_ids (q\<lparr>aq_results := e\<rparr>) = resolved_ids q"
  "resolved_ids (q\<lparr>aq_resolved := rs @ [r]\<rparr>) = insert (rid r) (resolved_ids (q\<lparr>aq_resolved := rs\<rparr>))"
  "resolved_ids (q\<lparr>aq_resolved := aq_resolved q\<rparr>) = resolved_ids q"
  by (simp_all add: resolved_ids_def)

lemma finishing_ids_simps [simp]:
  "finishing_ids (q\<lparr>aq_recording := x\<rparr>) = finishing_ids q" "finishing_ids (q\<lparr>aq_pending := x\<rparr>) = finishing_ids q"
  "finishing_ids (q\<lparr>aq_used := u\<rparr>) = finishing_ids q" "finishing_ids (q\<lparr>aq_resolved := r\<rparr>) = finishing_ids q"
  "finishing_ids (q\<lparr>aq_results := e\<rparr>) = finishing_ids q"
  by (simp_all add: finishing_ids_def)

lemma result_ids_simps [simp]:
  "result_ids (q\<lparr>aq_recording := x\<rparr>) = result_ids q" "result_ids (q\<lparr>aq_pending := x\<rparr>) = result_ids q"
  "result_ids (q\<lparr>aq_used := u\<rparr>) = result_ids q" "result_ids (q\<lparr>aq_resolved := r\<rparr>) = result_ids q"
  "result_ids (q\<lparr>aq_finishing := f\<rparr>) = result_ids q"
  by (simp_all add: result_ids_def)

definition recording_ok :: "ApprovalQueue \<Rightarrow> bool" where
  "recording_ok q \<longleftrightarrow> (\<forall>i p. map_of (aq_recording q) i = Some p \<longrightarrow>
     qa_ID (pd_approval p) = i \<and> i \<in> set (aq_used q) \<and> map_of (aq_pending q) i = None \<and> i \<notin> resolved_ids q
     \<and> i \<notin> finishing_ids q \<and> \<not> pd_resolving p)"

definition pending_ok :: "ApprovalQueue \<Rightarrow> bool" where
  "pending_ok q \<longleftrightarrow> (\<forall>i p. map_of (aq_pending q) i = Some p \<longrightarrow>
     qa_ID (pd_approval p) = i \<and> i \<in> set (aq_used q) \<and> i \<notin> result_ids q
     \<and> (\<not> pd_resolving p \<longrightarrow> i \<notin> resolved_ids q \<and> i \<notin> finishing_ids q))"

definition finishing_ok :: "ApprovalQueue \<Rightarrow> bool" where
  "finishing_ok q \<longleftrightarrow> distinct (map (rid \<circ> fst) (aq_finishing q))
     \<and> (\<forall>r h. (r, h) \<in> set (aq_finishing q) \<longrightarrow>
          (\<exists>p. map_of (aq_pending q) (rid r) = Some p \<and> pd_resolving p) \<and> in_time r)
     \<and> (\<forall>r. (r, None) \<in> set (aq_finishing q) \<longrightarrow> rid r \<notin> resolved_ids q)
     \<and> (\<forall>r ok. (r, Some ok) \<in> set (aq_finishing q) \<longrightarrow> r \<in> set (aq_resolved q))"

definition resolved_ok :: "ApprovalQueue \<Rightarrow> bool" where
  "resolved_ok q \<longleftrightarrow> distinct (map rid (aq_resolved q)) \<and> resolved_ids q \<subseteq> set (aq_used q) \<and> list_all in_time (aq_resolved q)"

definition results_ok :: "ApprovalQueue \<Rightarrow> bool" where
  "results_ok q \<longleftrightarrow> distinct (map (rid \<circ> fst) (aq_results q)) \<and> fst ` set (aq_results q) \<subseteq> set (aq_resolved q)"

definition queue_ok :: "ApprovalQueue \<Rightarrow> bool" where
  "queue_ok q \<longleftrightarrow> recording_ok q \<and> pending_ok q \<and> finishing_ok q \<and> resolved_ok q \<and> results_ok q"

lemmas queue_parts = queue_ok_def recording_ok_def pending_ok_def finishing_ok_def resolved_ok_def results_ok_def

lemma map_of_put [simp]: "map_of (map_put k v m) i = (if i = k then Some v else map_of m i)"
  by (simp add: update_conv')

lemma map_of_del [simp]: "map_of (map_del k m) i = (if i = k then None else map_of m i)"
  by (simp add: delete_conv')

lemma resolved_id: "r \<in> set (aq_resolved q) \<Longrightarrow> rid r \<in> resolved_ids q"
  by (simp add: resolved_ids_def)

lemma finishing_id: "(r, h) \<in> set (aq_finishing q) \<Longrightarrow> rid r \<in> finishing_ids q"
  by (force simp: finishing_ids_def)

lemma result_is_resolved: "results_ok q \<Longrightarrow> i \<in> result_ids q \<Longrightarrow> i \<in> resolved_ids q"
  by (auto simp: results_ok_def result_ids_def resolved_ids_def)

lemma new_resolved: "rid r \<notin> resolved_ids q \<Longrightarrow> resolved_ok q \<Longrightarrow> rid r \<in> set (aq_used q) \<Longrightarrow> in_time r
    \<Longrightarrow> resolved_ok (q\<lparr>aq_resolved := aq_resolved q @ [r]\<rparr>)"
  by (auto simp: resolved_ok_def resolved_ids_def)

lemma new_queue_ok: "queue_ok (NewApprovalQueue timeout)"
  by (simp add: queue_parts NewApprovalQueue_def resolved_ids_def)

lemma new_approval_id: "new_approval sha timeout now deadline ident r = Inr a \<Longrightarrow> qa_ID a = ident"
  by (auto simp: new_approval_def Let_def split: if_splits option.splits)

lemma record_ok:
  assumes "queue_ok q" "qa_ID a \<notin> set (aq_used q)"
  shows "queue_ok (Request_record a q)"
proof -
  have "map_of (aq_pending q) (qa_ID a) = None" "qa_ID a \<notin> resolved_ids q"
    using assms by (cases "map_of (aq_pending q) (qa_ID a)"; auto simp: queue_parts)+
  moreover have "qa_ID a \<notin> finishing_ids q"
    using assms by (force simp: queue_parts finishing_ids_def)
  ultimately show ?thesis using assms by (auto simp: queue_parts Request_record_def)
qed

lemma unrecorded_ok: "queue_ok q \<Longrightarrow> queue_ok (Request_unrecorded ident q)"
  by (simp add: queue_parts Request_unrecorded_def)

lemma add_resolution:
  assumes "queue_ok q" "rid r \<notin> resolved_ids q" "rid r \<in> set (aq_used q)" "in_time r"
    and "map_of (aq_recording q) (rid r) = None" "rid r \<notin> finishing_ids q"
    and "\<And>p. map_of (aq_pending q) (rid r) = Some p \<Longrightarrow> pd_resolving p"
  shows "queue_ok (q\<lparr>aq_resolved := aq_resolved q @ [r]\<rparr>)"
proof -
  have "resolved_ok (q\<lparr>aq_resolved := aq_resolved q @ [r]\<rparr>)"
    using new_resolved[of r q] assms by (simp add: queue_ok_def)
  moreover have "recording_ok (q\<lparr>aq_resolved := aq_resolved q @ [r]\<rparr>)"
    using assms(1,5) unfolding queue_ok_def recording_ok_def by auto
  moreover have "pending_ok (q\<lparr>aq_resolved := aq_resolved q @ [r]\<rparr>)"
    using assms(1,7) unfolding queue_ok_def pending_ok_def by auto
  moreover have "results_ok (q\<lparr>aq_resolved := aq_resolved q @ [r]\<rparr>)"
    using assms(1) unfolding queue_ok_def results_ok_def by auto
  moreover have "rid r' \<noteq> rid r" if "(r', None) \<in> set (aq_finishing q)" for r'
    using finishing_id[OF that] assms(6) by auto
  then have "finishing_ok (q\<lparr>aq_resolved := aq_resolved q @ [r]\<rparr>)"
    using assms(1) by (auto simp: queue_ok_def finishing_ok_def)
  ultimately show ?thesis by (simp add: queue_ok_def)
qed

lemma publish_ok:
  assumes "queue_ok q"
  shows "queue_ok (Request_publish ident ctx_done now q)"
proof (cases "map_of (aq_recording q) ident")
  case None
  then show ?thesis using assms by (simp add: Request_publish_def)
next
  case (Some p)
  then have p: "qa_ID (pd_approval p) = ident" "ident \<in> set (aq_used q)" "map_of (aq_pending q) ident = None"
    "ident \<notin> resolved_ids q" "ident \<notin> finishing_ids q" "\<not> pd_resolving p"
    using assms by (auto simp: queue_ok_def recording_ok_def)
  show ?thesis
  proof (cases "pd_invalidatedBy p = [] \<and> \<not> ctx_done")
    case True
    have "Request_publish ident ctx_done now q =
        q\<lparr>aq_recording := map_del ident (aq_recording q), aq_pending := map_put ident p (aq_pending q)\<rparr>"
      using True by (simp add: Request_publish_def Some Let_def)
    moreover have "ident \<notin> result_ids q" using assms p(4) result_is_resolved by (auto simp: queue_ok_def)
    ultimately show ?thesis using assms p by (auto simp: queue_parts)
  next
    case False
    let ?r = "\<lparr>ap_Approval = pd_approval p, ap_Decision = DecisionExpired,
                ap_Actor = (if pd_invalidatedBy p = [] then actor_runtime else pd_invalidatedBy p), ap_At = now\<rparr>"
    have r: "rid ?r = ident" "in_time ?r" by (simp_all add: rid_def p in_time_def)
    have "Request_publish ident ctx_done now q = Request_unrecorded ident q\<lparr>aq_resolved := aq_resolved (Request_unrecorded ident q) @ [?r]\<rparr>"
      using False by (auto simp: Request_publish_def Request_unrecorded_def Some Let_def)
    moreover have "queue_ok (Request_unrecorded ident q\<lparr>aq_resolved := aq_resolved (Request_unrecorded ident q) @ [?r]\<rparr>)"
      by (rule add_resolution[OF unrecorded_ok[OF assms]]) (simp_all only: r, simp_all add: Request_unrecorded_def p)
    ultimately show ?thesis by simp
  qed
qed

lemma finishing_cons [simp]: "finishing_ids (q\<lparr>aq_finishing := (r, h) # f\<rparr>) = insert (rid r) (finishing_ids (q\<lparr>aq_finishing := f\<rparr>))"
  "finishing_ids (q\<lparr>aq_finishing := aq_finishing q\<rparr>) = finishing_ids q"
  by (auto simp: finishing_ids_def)

lemma start_finishing:
  assumes "queue_ok q" "map_of (aq_recording q) (rid r) = None" "map_of (aq_pending q) (rid r) = Some p"
    and "\<not> pd_resolving p" "in_time r"
  shows "queue_ok (q\<lparr>aq_pending := map_put (rid r) (p\<lparr>pd_resolving := True\<rparr>) (aq_pending q), aq_finishing := (r, None) # aq_finishing q\<rparr>)"
proof -
  have "rid r \<notin> (rid \<circ> fst) ` set (aq_finishing q)" "rid r \<notin> resolved_ids q" "rid r \<notin> finishing_ids q"
    using assms by (auto simp: queue_parts finishing_ids_def)
  then show ?thesis using assms by (auto simp: queue_parts)
qed

lemma finish_mark_ok:
  assumes "queue_ok q" "finish_mark ident decision actor now q = (q', s)"
  shows "queue_ok q'"
proof (cases "\<exists>p. map_of (aq_recording q) ident = None \<and> map_of (aq_pending q) ident = Some p \<and> \<not> pd_resolving p")
  case False
  then show ?thesis using assms by (auto simp: finish_mark_def split: if_splits option.splits)
next
  case True
  then obtain p where p: "map_of (aq_recording q) ident = None" "map_of (aq_pending q) ident = Some p" "\<not> pd_resolving p" by blast
  define late where "late \<longleftrightarrow> decision \<noteq> DecisionExpired \<and> \<not> now < qa_ExpiresAt (pd_approval p)"
  define r where "r = \<lparr>ap_Approval = pd_approval p, ap_Decision = (if late then DecisionExpired else decision),
              ap_Actor = (if late then actor_timeout else actor), ap_At = now\<rparr>"
  have "qa_ID (pd_approval p) = ident" using assms(1) p by (auto simp: queue_ok_def pending_ok_def)
  then have r: "rid r = ident" "in_time r" by (auto simp: rid_def in_time_def r_def late_def)
  have "q' = q\<lparr>aq_pending := map_put ident (p\<lparr>pd_resolving := True\<rparr>) (aq_pending q), aq_finishing := (r, None) # aq_finishing q\<rparr>"
    using assms(2) p by (simp add: finish_mark_def Let_def r_def late_def)
  then show ?thesis using start_finishing[OF assms(1), of r p] p r by simp
qed

lemma resolve_mark:
  "fst (Resolve ident decision actor now q) = q
   \<or> (\<exists>a s. finish_mark ident decision a now q = (fst (Resolve ident decision actor now q), s))"
  by (cases "finish_mark ident decision (if actor = [] then actor_operator else actor) now q")
    (auto simp: Resolve_def split: finish_state.splits)

lemma resolve_ok: "queue_ok q \<Longrightarrow> queue_ok (fst (Resolve ident decision actor now q))"
  using resolve_mark[of ident decision actor now q] finish_mark_ok by metis

lemma in_remove1: "y \<in> set (remove1 x xs) \<Longrightarrow> y \<in> set xs"
  using set_remove1_subset[of x xs] by blast

lemma distinct_map_remove1: "distinct (map f xs) \<Longrightarrow> distinct (map f (remove1 x xs))"
  by (induction xs) (auto dest: in_remove1)

lemma only_one: "distinct (map f xs) \<Longrightarrow> x \<in> set xs \<Longrightarrow> y \<in> set (remove1 x xs) \<Longrightarrow> f y \<noteq> f x"
  by (induction xs) (auto simp: image_iff dest: in_remove1 split: if_splits)

lemma finishing_removed:
  assumes "finishing_ok q" "(r, h) \<in> set (aq_finishing q)"
  shows "rid r \<notin> finishing_ids (q\<lparr>aq_finishing := remove1 (r, h) (aq_finishing q)\<rparr>)"
  using only_one[of "rid \<circ> fst" "aq_finishing q" "(r, h)"] assms
  by (fastforce simp: finishing_ok_def finishing_ids_def)

lemma finishing_removed_sub: "i \<in> finishing_ids (q\<lparr>aq_finishing := remove1 x (aq_finishing q)\<rparr>) \<Longrightarrow> i \<in> finishing_ids q"
  by (auto simp: finishing_ids_def dest: in_remove1)

lemma removed_ok:
  assumes "queue_ok q"
  shows "queue_ok (q\<lparr>aq_finishing := remove1 x (aq_finishing q)\<rparr>)"
proof -
  note sub = finishing_removed_sub[of _ x q]
  have "finishing_ok (q\<lparr>aq_finishing := remove1 x (aq_finishing q)\<rparr>)"
    using assms in_remove1[of _ x "aq_finishing q"] unfolding queue_ok_def finishing_ok_def
    by (simp add: distinct_map_remove1) blast
  moreover have "recording_ok (q\<lparr>aq_finishing := remove1 x (aq_finishing q)\<rparr>)"
    using assms sub unfolding queue_ok_def recording_ok_def by auto
  moreover have "pending_ok (q\<lparr>aq_finishing := remove1 x (aq_finishing q)\<rparr>)"
    using assms sub unfolding queue_ok_def pending_ok_def by auto
  ultimately show ?thesis using assms by (simp add: queue_ok_def resolved_ok_def results_ok_def)
qed

lemma add_finished:
  assumes "queue_ok q" "r \<in> set (aq_resolved q)" "rid r \<notin> finishing_ids q" "in_time r"
    and "map_of (aq_pending q) (rid r) = Some p" "pd_resolving p"
  shows "queue_ok (q\<lparr>aq_finishing := (r, Some ok) # aq_finishing q\<rparr>)"
  using assms unfolding queue_parts by (auto simp: finishing_ids_def)

lemma finishing_facts:
  assumes "queue_ok q" "(r, h) \<in> set (aq_finishing q)"
  obtains p where "map_of (aq_pending q) (rid r) = Some p" "pd_resolving p" "in_time r" "map_of (aq_recording q) (rid r) = None"
    "rid r \<in> set (aq_used q)"
proof -
  obtain p where p: "map_of (aq_pending q) (rid r) = Some p" "pd_resolving p" "in_time r"
    using assms by (auto simp: queue_ok_def finishing_ok_def)
  moreover have "map_of (aq_recording q) (rid r) = None"
    using assms(1) p(1) by (cases "map_of (aq_recording q) (rid r)") (auto simp: queue_ok_def recording_ok_def)
  ultimately show ?thesis using assms(1) that by (auto simp: queue_ok_def pending_ok_def)
qed

lemma hook_ok:
  assumes "queue_ok q" "(r, None) \<in> set (aq_finishing q)"
  shows "queue_ok (finish_hook r ok q)"
proof -
  obtain p where p: "map_of (aq_pending q) (rid r) = Some p" "pd_resolving p" "in_time r" "map_of (aq_recording q) (rid r) = None"
    "rid r \<in> set (aq_used q)" by (rule finishing_facts[OF assms])
  define q1 where "q1 = q\<lparr>aq_finishing := remove1 (r, None) (aq_finishing q)\<rparr>"
  define q2 where "q2 = q1\<lparr>aq_resolved := aq_resolved q1 @ [r]\<rparr>"
  have q1: "queue_ok q1" unfolding q1_def by (rule removed_ok[OF assms(1)])
  have f: "rid r \<notin> finishing_ids q1" using finishing_removed[of q r None] assms by (simp add: q1_def queue_ok_def)
  have "rid r \<notin> resolved_ids q1" using assms by (auto simp: q1_def queue_ok_def finishing_ok_def)
  then have q2: "queue_ok q2" unfolding q2_def
    by (rule add_resolution[OF q1]) (use p f in \<open>simp_all add: q1_def\<close>)
  have "queue_ok (q2\<lparr>aq_finishing := (r, Some ok) # aq_finishing q2\<rparr>)"
    by (rule add_finished[OF q2, of r p]) (use p f in \<open>simp_all add: q2_def q1_def\<close>)
  then show ?thesis by (simp add: q2_def q1_def finish_hook_def)
qed

lemma result_delivered_ok:
  assumes "queue_ok q" "(r, Some ok) \<in> set (aq_finishing q)"
  shows "queue_ok (finish_deliver r ok q)"
proof -
  obtain p where p: "map_of (aq_pending q) (rid r) = Some p" "pd_resolving p" by (rule finishing_facts[OF assms])
  define q1 where "q1 = q\<lparr>aq_finishing := remove1 (r, Some ok) (aq_finishing q)\<rparr>"
  have q1: "queue_ok q1" unfolding q1_def by (rule removed_ok[OF assms(1)])
  have f: "rid r \<notin> finishing_ids q1" using finishing_removed[of q r "Some ok"] assms by (simp add: q1_def queue_ok_def)
  have "r \<in> set (aq_resolved q1)" using assms by (auto simp: q1_def queue_ok_def finishing_ok_def)
  moreover have "rid r \<notin> result_ids q1" using assms(1) p by (auto simp: q1_def queue_ok_def pending_ok_def)
  ultimately have "results_ok (q1\<lparr>aq_pending := map_del (rid r) (aq_pending q1), aq_results := aq_results q1 @ [(r, ok)]\<rparr>)"
    using q1 by (auto simp: queue_ok_def results_ok_def result_ids_def)
  moreover have "rid r' \<noteq> rid r" if "(r', h) \<in> set (aq_finishing q1)" for r' h
    using finishing_id[OF that] f by auto
  then have "finishing_ok (q1\<lparr>aq_pending := map_del (rid r) (aq_pending q1), aq_results := aq_results q1 @ [(r, ok)]\<rparr>)"
    using q1 by (auto simp: queue_ok_def finishing_ok_def)
  moreover have "pending_ok (q1\<lparr>aq_pending := map_del (rid r) (aq_pending q1), aq_results := aq_results q1 @ [(r, ok)]\<rparr>)"
    using q1 by (auto simp: queue_ok_def pending_ok_def result_ids_def)
  moreover have "recording_ok (q1\<lparr>aq_pending := map_del (rid r) (aq_pending q1), aq_results := aq_results q1 @ [(r, ok)]\<rparr>)"
      "resolved_ok (q1\<lparr>aq_pending := map_del (rid r) (aq_pending q1), aq_results := aq_results q1 @ [(r, ok)]\<rparr>)"
    using q1 by (auto simp: queue_ok_def recording_ok_def resolved_ok_def)
  ultimately have "queue_ok (q1\<lparr>aq_pending := map_del (rid r) (aq_pending q1), aq_results := aq_results q1 @ [(r, ok)]\<rparr>)"
    by (simp add: queue_ok_def)
  moreover have "finish_deliver r ok q = q1\<lparr>aq_pending := map_del (rid r) (aq_pending q1), aq_results := aq_results q1 @ [(r, ok)]\<rparr>"
    by (cases q) (simp add: q1_def finish_deliver_def rid_def)
  ultimately show ?thesis by simp
qed

lemma abort_ok:
  assumes "queue_ok q"
  shows "queue_ok (fst (ExpireRun_mark run actor q))"
proof -
  have "queue_ok (q\<lparr>aq_recording := map (\<lambda>(i, p). (i, f p)) (aq_recording q)\<rparr>)"
    if "\<And>p. pd_approval (f p) = pd_approval p \<and> pd_resolving (f p) = pd_resolving p" for f
    using assms that by (auto simp: queue_parts map_of_map split: option.splits)
  then show ?thesis using assms by (simp add: ExpireRun_mark_def)
qed

lemma queue_step_ok: "queue_step q q' \<Longrightarrow> queue_ok q \<Longrightarrow> queue_ok q'"
  by (erule queue_stepE)
    (auto simp: record_ok new_approval_id unrecorded_ok publish_ok resolve_ok hook_ok result_delivered_ok abort_ok intro: finish_mark_ok prod.collapse[symmetric])

lemma queue_steps_ok: "queue_step\<^sup>*\<^sup>* q q' \<Longrightarrow> queue_ok q \<Longrightarrow> queue_ok q'"
  by (induction rule: rtranclp_induct) (auto intro: queue_step_ok)

subsection \<open>An invalidated approval\<close>

text \<open>Invalidated while it is recorded, or recorded and gone: all that is left for it is to expire.\<close>

definition invalidated :: "string \<Rightarrow> ApprovalQueue \<Rightarrow> bool" where
  "invalidated i q \<longleftrightarrow> i \<in> set (aq_used q) \<and> map_of (aq_pending q) i = None
     \<and> (\<forall>p. map_of (aq_recording q) i = Some p \<longrightarrow> pd_invalidatedBy p \<noteq> [])
     \<and> (\<forall>r \<in> set (aq_resolved q). rid r = i \<longrightarrow> ap_Decision r = DecisionExpired)"

lemma invalidated_publish: "invalidated i q \<Longrightarrow> invalidated i (Request_publish ident ctx_done now q)"
  by (auto simp: invalidated_def Request_publish_def Let_def rid_def split: option.splits)

lemma invalidated_mark:
  "invalidated i q \<Longrightarrow> finish_mark ident decision actor now q = (q', s) \<Longrightarrow> invalidated i q'"
  by (auto simp: invalidated_def finish_mark_def Let_def split: if_splits option.splits)

lemma invalidated_resolve: "invalidated i q \<Longrightarrow> invalidated i (fst (Resolve ident decision actor now q))"
  using resolve_mark[of ident decision actor now q] invalidated_mark by metis

lemma invalidated_hook:
  assumes "invalidated i q" "queue_ok q" "(r, None) \<in> set (aq_finishing q)"
  shows "invalidated i (finish_hook r ok q)"
proof -
  obtain p where "map_of (aq_pending q) (rid r) = Some p" by (rule finishing_facts[OF assms(2,3)])
  then have "rid r \<noteq> i" using assms(1) by (auto simp: invalidated_def)
  then show ?thesis using assms(1) by (auto simp: invalidated_def finish_hook_def)
qed

lemma invalidated_abort: "invalidated i q \<Longrightarrow> invalidated i (fst (ExpireRun_mark run actor q))"
  by (auto simp: invalidated_def ExpireRun_mark_def map_of_map actor_abort_def split: option.splits if_splits)

lemma invalidated_step: "queue_step q q' \<Longrightarrow> queue_ok q \<Longrightarrow> invalidated i q \<Longrightarrow> invalidated i q'"
proof (erule queue_stepE)
  fix sha now deadline ident r a
  assume "invalidated i q" "new_approval sha (aq_timeout q) now deadline ident r = Inr a" "ident \<notin> set (aq_used q)" "q' = Request_record a q"
  then show "invalidated i q'" using new_approval_id[of sha _ now deadline ident r a] by (auto simp: invalidated_def Request_record_def)
next
  fix ident
  assume "invalidated i q" "q' = Request_unrecorded ident q"
  then show "invalidated i q'" by (auto simp: invalidated_def Request_unrecorded_def)
next
  fix r ok
  assume "invalidated i q" "q' = finish_deliver r ok q"
  then show "invalidated i q'" by (auto simp: invalidated_def finish_deliver_def)
qed (auto simp: invalidated_publish invalidated_resolve invalidated_hook invalidated_abort intro: invalidated_mark prod.collapse[symmetric])

lemma invalidated_steps: "queue_step\<^sup>*\<^sup>* q q' \<Longrightarrow> queue_ok q \<Longrightarrow> invalidated i q \<Longrightarrow> invalidated i q'"
  by (induction rule: rtranclp_induct) (auto intro: invalidated_step queue_steps_ok)

lemma invalidated_start:
  assumes "queue_ok q" "map_of (aq_recording q) i = Some p" "pd_invalidatedBy p \<noteq> []"
  shows "invalidated i q"
  using assms resolved_id[of _ q] by (auto simp: invalidated_def queue_ok_def recording_ok_def)

lemmas reachable_queue_ok = queue_steps_ok[OF _ new_queue_ok]

subsection \<open>A run of the queue\<close>

definition demo_ask :: ApprovalRequest where
  "demo_ask = \<lparr>ar_RunID = ''r1'', ar_ToolCallID = ''t1'', ar_Kind = ''shell'', ar_Title = ''run'', ar_Detail = ''ls'',
     ar_Risk = ''low'', ar_Payload = Some ''{}'', ar_RequiresFleetQuorum = False\<rparr>"

definition demo_approval :: QueuedApproval where
  "demo_approval = projr (new_approval id 60 100 None ''a1'' demo_ask)"

definition demo_recorded :: ApprovalQueue where
  "demo_recorded = Request_record demo_approval (NewApprovalQueue 60)"

definition demo_marked :: ApprovalQueue where
  "demo_marked = fst (Resolve ''a1'' DecisionApprove [] 110 (Request_publish ''a1'' False 101 demo_recorded))"

definition demo_verdict :: ApprovalResolution where
  "demo_verdict = \<lparr>ap_Approval = demo_approval, ap_Decision = DecisionApprove, ap_Actor = actor_operator, ap_At = 110\<rparr>"

definition demo_delivered :: ApprovalQueue where
  "demo_delivered = finish_deliver demo_verdict True (finish_hook demo_verdict True demo_marked)"

definition demo_invalidated :: ApprovalQueue where
  "demo_invalidated = fst (ExpireRun_mark ''r1'' [] demo_recorded)"

lemmas demo_queue_defs = demo_ask_def demo_approval_def demo_recorded_def demo_marked_def demo_verdict_def demo_delivered_def
  demo_invalidated_def

lemma demo_recorded_reached: "queue_step\<^sup>*\<^sup>* (NewApprovalQueue 60) demo_recorded"
proof -
  have "new_approval id (aq_timeout (NewApprovalQueue 60)) 100 None ''a1'' demo_ask = Inr demo_approval"
    by (simp add: NewApprovalQueue_def demo_queue_defs new_approval_def)
  then have "queue_step (NewApprovalQueue 60) demo_recorded"
    unfolding demo_recorded_def by (rule queue_step.request) (simp add: NewApprovalQueue_def)
  then show ?thesis ..
qed

lemma demo_delivered_reached: "queue_step\<^sup>*\<^sup>* (NewApprovalQueue 60) demo_delivered"
proof -
  have "(demo_verdict, None) \<in> set (aq_finishing demo_marked)" by code_simp
  moreover have "(demo_verdict, Some True) \<in> set (aq_finishing (finish_hook demo_verdict True demo_marked))"
    by (simp add: finish_hook_def)
  moreover have "queue_step\<^sup>*\<^sup>* (NewApprovalQueue 60) demo_marked"
    unfolding demo_marked_def by (rule rtranclp.rtrancl_into_rtrancl[OF rtranclp.rtrancl_into_rtrancl[OF demo_recorded_reached
          queue_step.publish] queue_step.resolve])
  ultimately show ?thesis unfolding demo_delivered_def
    by (meson rtranclp.rtrancl_into_rtrancl queue_step.hook queue_step.deliver)
qed

subsection \<open>Properties\<close>



text \<open>
  C26. An approval that is invalidated while its request is still being recorded, because its run was
  aborted, is never approved or rejected afterwards: whatever happens later, it resolves as expired.
\<close>

theorem invalidated_expires:
  assumes "queue_step\<^sup>*\<^sup>* (NewApprovalQueue timeout) q" and "map_of (aq_recording q) i = Some p" and "pd_invalidatedBy p \<noteq> []"
    and "queue_step\<^sup>*\<^sup>* q q'" and "r \<in> set (aq_resolved q')" and "qa_ID (ap_Approval r) = i"
  shows "ap_Decision r = DecisionExpired"
proof -
  have q: "queue_ok q" by (rule reachable_queue_ok[OF assms(1)])
  have "invalidated i q'" by (rule invalidated_steps[OF assms(4) q invalidated_start[OF q assms(2,3)]])
  then show ?thesis using assms(5,6) by (auto simp: invalidated_def rid_def)
qed

theorem invalidated_expires_witness:
  "ap_Decision (hd (aq_resolved (Request_publish ''a1'' False 101 demo_invalidated))) = DecisionExpired"
proof (rule invalidated_expires)
  show "queue_step\<^sup>*\<^sup>* (NewApprovalQueue 60) demo_invalidated" unfolding demo_invalidated_def
    by (rule rtranclp.rtrancl_into_rtrancl[OF demo_recorded_reached queue_step.abort])
  show "map_of (aq_recording demo_invalidated) ''a1'' = Some \<lparr>pd_approval = demo_approval, pd_resolving = False, pd_invalidatedBy = actor_abort\<rparr>"
    by code_simp
  show "pd_invalidatedBy \<lparr>pd_approval = demo_approval, pd_resolving = False, pd_invalidatedBy = actor_abort\<rparr> \<noteq> []" by code_simp
  show "queue_step\<^sup>*\<^sup>* demo_invalidated (Request_publish ''a1'' False 101 demo_invalidated)" by (rule r_into_rtranclp[of queue_step, OF queue_step.publish])
  show "hd (aq_resolved (Request_publish ''a1'' False 101 demo_invalidated)) \<in> set (aq_resolved (Request_publish ''a1'' False 101 demo_invalidated))"
    by code_simp
  show "qa_ID (ap_Approval (hd (aq_resolved (Request_publish ''a1'' False 101 demo_invalidated)))) = ''a1''" by code_simp
qed

end
