(* ===== verification/Os_Fleet.thy ===== *)
theory Os_Fleet
  imports Os_Agent Watchdog
begin

text \<open>
  The fleet as CandaceOS Core sees it (\<^verbatim>\<open>services/candaceos/fleet\<close>): the status of one Warden node,
  normalized, and kept with its authority cleared when it cannot be read; and the transport to one
  node agent (\<^verbatim>\<open>services/candaceos/agentclient\<close>). HTTP and JSON answer through parameters.
\<close>

subsection \<open>Snapshots\<close>

record FleetNode =
  fl_ID :: string
  fl_Name :: string
  fl_Role :: string
  fl_Status :: string
  fl_Address :: string
  fl_LastSeen :: time

record FleetSnapshot =
  ft_Self :: string
  ft_LeaderID :: string
  ft_Term :: "64 word"
  ft_Authoritative :: bool
  ft_HasQuorum :: bool
  ft_Online :: nat
  ft_Required :: nat
  ft_Nodes :: "FleetNode list"
  ft_UpdatedAt :: time
  ft_Error :: string

definition zeroFleet :: FleetSnapshot where
  "zeroFleet = \<lparr>ft_Self = [], ft_LeaderID = [], ft_Term = 0, ft_Authoritative = False, ft_HasQuorum = False, ft_Online = 0,
     ft_Required = 0, ft_Nodes = [], ft_UpdatedAt = 0, ft_Error = []\<rparr>"

definition CanMutate :: "FleetSnapshot \<Rightarrow> bool" where
  "CanMutate s \<longleftrightarrow> ft_Authoritative s \<and> ft_LeaderID s \<noteq> [] \<and> ft_HasQuorum s"

text \<open>The part of Warden's status that is decoded: the view of \<open>Warden_Types\<close>.\<close>

definition fleet_node :: "ClusterView \<Rightarrow> PeerView \<Rightarrow> FleetNode" where
  "fleet_node view p =
     \<lparr>fl_ID = node_ID (pv_Node p), fl_Name = node_ID (pv_Node p),
      fl_Role = (if node_ID (pv_Node p) = cv_LeaderID view then ''leader'' else ''worker''),
      fl_Status = pv_Status p, fl_Address = node_Addr (pv_Node p), fl_LastSeen = pv_LastSeen p\<rparr>"

definition normalize :: "ClusterView \<Rightarrow> FleetSnapshot" where
  "normalize view =
     (let voters = remdups (map node_ID (mb_Voters (cv_Membership view)));
          required = length voters div 2 + 1;
          online = length (filter (\<lambda>p. node_ID (pv_Node p) \<in> set voters \<and> pv_Status p = ''alive'') (cv_Peers view))
      in \<lparr>ft_Self = cv_Self view, ft_LeaderID = cv_LeaderID view, ft_Term = cv_Term view,
          ft_Authoritative = cv_Authoritative view, ft_HasQuorum = (required > 0 \<and> online \<ge> required),
          ft_Online = online, ft_Required = required,
          ft_Nodes = sort_key fl_ID (map (fleet_node view) (cv_Peers view)),
          ft_UpdatedAt = cv_UpdatedAt view, ft_Error = []\<rparr>)"

definition recordError :: "string \<Rightarrow> time \<Rightarrow> FleetSnapshot \<Rightarrow> FleetSnapshot" where
  "recordError e now s = s\<lparr>ft_Authoritative := False, ft_HasQuorum := False, ft_Error := e, ft_UpdatedAt := now\<rparr>"

text \<open>What a poll brings: no request, an error of the transport, the status or the decoder, or a view.\<close>

datatype fleet_poll = NoRequest | PollFailed string | Polled ClusterView

definition Client_Refresh :: "fleet_poll \<Rightarrow> time \<Rightarrow> FleetSnapshot \<Rightarrow> FleetSnapshot \<times> FleetSnapshot \<times> bool" where
  "Client_Refresh p now s =
     (case p of
        NoRequest \<Rightarrow> (s, zeroFleet, False)
      | PollFailed e \<Rightarrow> (recordError e now s, recordError e now s, False)
      | Polled view \<Rightarrow> (normalize view, normalize view, True))"

text \<open>\<^verbatim>\<open>publishLatest\<close>: the channel has one slot, in which the newest snapshot replaces an older one.\<close>

definition publishLatest :: "FleetSnapshot \<Rightarrow> FleetSnapshot option \<Rightarrow> FleetSnapshot option" where
  "publishLatest s slot = (case slot of None \<Rightarrow> Some s | Some old \<Rightarrow> Some s)"

subsection \<open>Configured labels\<close>

record ConfiguredNode =
  cn_Node :: FleetNode
  cn_Role :: string
  cn_Labels :: labels

definition deploymentRole :: "labels \<Rightarrow> string" where
  "deploymentRole ls = (let role = map_get [] ls ''role'' in if role \<noteq> [] then role else ''worker'')"

definition WithConfiguration :: "FleetSnapshot \<Rightarrow> (string \<times> labels) list \<Rightarrow> FleetSnapshot \<times> ConfiguredNode list" where
  "WithConfiguration s configured =
     (s, map (\<lambda>n. let ls = map_get [] configured (fl_ID n)
                  in \<lparr>cn_Node = n, cn_Role = deploymentRole ls, cn_Labels = ls\<rparr>) (ft_Nodes s))"

subsection \<open>The transport to a node agent\<close>

record AgentClient =
  ac_overrideURL :: string
  ac_agentPort :: string

text \<open>The host of a Warden address, if it splits; a host with a colon is bracketed.\<close>

definition JoinHostPort :: "string \<Rightarrow> string \<Rightarrow> string" where
  "JoinHostPort host port = (if CHR '':'' \<in> set host then ''['' @ host @ '']:'' @ port else host @ '':'' @ port)"

definition AgentClient_baseURL :: "(string \<Rightarrow> string option) \<Rightarrow> AgentClient \<Rightarrow> string \<Rightarrow> string option" where
  "AgentClient_baseURL split_host c address =
     (if ac_overrideURL c \<noteq> [] then Some (ac_overrideURL c)
      else map_option (\<lambda>host. ''http://'' @ JoinHostPort host (ac_agentPort c)) (split_host address))"

text \<open>
  What the endpoint does: the node it reports, if its health is read and valid; whether the request
  had an effect on the node; and the answer, if one is read and decodes.
\<close>

record endpoint =
  en_Health :: "(string \<times> string) option"
  en_Effect :: bool
  en_Response :: "ReconcileResponse option"

definition ValidateHealthResponse :: "string \<times> string \<Rightarrow> bool" where
  "ValidateHealthResponse h \<longleftrightarrow> fst h = ''ok'' \<and> node_id_ok (snd h)"

datatype call_err = BadAddress | HealthFailed | IdentityMismatch | CallFailed | WrongAnswer | NoTimestamp

text \<open>The result, and whether the node was changed; \<open>timestamp_ok\<close> is \<^verbatim>\<open>CheckValid\<close>.\<close>

definition AgentClient_Reconcile ::
  "(time \<Rightarrow> bool) \<Rightarrow> string option \<Rightarrow> string \<Rightarrow> Fence \<Rightarrow> Assignment \<Rightarrow> endpoint \<Rightarrow> (call_err + ReconcileResponse) \<times> bool" where
  "AgentClient_Reconcile timestamp_ok url nodeID fence assignment e =
     (if url = None then (Inl BadAddress, False)
      else case en_Health e of
        None \<Rightarrow> (Inl HealthFailed, False)
      | Some h \<Rightarrow>
          if \<not> ValidateHealthResponse h then (Inl HealthFailed, False)
          else if snd h \<noteq> nodeID then (Inl IdentityMismatch, False)
          else
            case en_Response e of
              None \<Rightarrow> (Inl CallFailed, en_Effect e)
            | Some r \<Rightarrow>
                if rp_Fence r \<noteq> Some fence \<or> rp_Assignment r \<noteq> Some assignment then (Inl WrongAnswer, en_Effect e)
                else if (case rp_UpdatedAt r of None \<Rightarrow> True | Some t \<Rightarrow> \<not> timestamp_ok t) then (Inl NoTimestamp, en_Effect e)
                else (Inr r, en_Effect e))"

end
