(* ===== verification/Os_Reconcile.thy ===== *)
theory Os_Reconcile
  imports Os_Fleet Os_Domain
begin

text \<open>
  The write path of CandaceOS Core (\<^verbatim>\<open>services/candaceos/reconcile\<close>): an intent is resolved to a
  revision and to nodes, recorded with its runs, and only then sent to the agents of the nodes. The
  tables are those of \<^verbatim>\<open>store/migrations\<close>, the statements those of \<^verbatim>\<open>store/queries.sql\<close>.
\<close>

subsection \<open>Messages\<close>

record ReconcileIntent =
  ri_App :: string
  ri_Project :: string
  ri_Path :: string
  ri_DesiredState :: int
  ri_PlacementMode :: int
  ri_NodeId :: string
  ri_Labels :: labels
  ri_Replicas :: int
  ri_Stateful :: bool

definition MODE_EXACT_NODE :: int where "MODE_EXACT_NODE = 1"
definition MODE_LEADER :: int where "MODE_LEADER = 2"
definition MODE_LABELS :: int where "MODE_LABELS = 3"

definition ValidateReconcileIntent :: "ReconcileIntent \<Rightarrow> bool" where
  "ValidateReconcileIntent i \<longleftrightarrow> app_name_ok (ri_App i) \<and> project_ok (ri_Project i) \<and> subtree_ok (ri_Path i)
     \<and> (ri_DesiredState i = STATE_RUNNING \<or> ri_DesiredState i = STATE_STOPPED)
     \<and> (ri_PlacementMode i = MODE_EXACT_NODE \<or> ri_PlacementMode i = MODE_LEADER \<or> ri_PlacementMode i = MODE_LABELS)
     \<and> (ri_NodeId i = [] \<or> node_id_ok (ri_NodeId i)) \<and> labels_ok (ri_Labels i)
     \<and> 0 \<le> ri_Replicas i \<and> ri_Replicas i \<le> 1000000"

record ReconcileRevision =
  rr_Id :: string
  rr_Source :: string
  rr_SourceRevision :: string
  rr_ContentDigest :: string
  rr_ComposePath :: string

definition ValidateReconcileRevision :: "ReconcileRevision \<Rightarrow> bool" where
  "ValidateReconcileRevision r \<longleftrightarrow> node_id_ok (rr_Id r)
     \<and> rr_Source r \<noteq> [] \<and> length (rr_Source r) \<le> 4096
     \<and> \<not> begins_with regexp_spaces (rr_Source r) \<and> \<not> ends_with regexp_spaces (rr_Source r)
     \<and> git_object_ok (rr_SourceRevision r) \<and> sha256_ok (rr_ContentDigest r) \<and> compose_pattern_ok (rr_ComposePath r)"

definition approvedRevision :: "AppRevision \<Rightarrow> ReconcileRevision" where
  "approvedRevision r = \<lparr>rr_Id = rv_ID r, rr_Source = rv_Source r, rr_SourceRevision = rv_Revision r,
     rr_ContentDigest = rv_Digest r, rr_ComposePath = rv_ComposePath r\<rparr>"

record ReconcileEvidence =
  ev_DeploymentId :: string
  ev_RevisionId :: string
  ev_RunIds :: "string list"
  ev_NodeIds :: "string list"
  ev_ReceiptIds :: "nat list"
  ev_DryRun :: bool

definition ValidateReconcileEvidence :: "ReconcileEvidence \<Rightarrow> bool" where
  "ValidateReconcileEvidence e \<longleftrightarrow> ev_DeploymentId e \<noteq> [] \<and> length (ev_DeploymentId e) \<le> 128
     \<and> ev_RevisionId e \<noteq> [] \<and> length (ev_RevisionId e) \<le> 128"

subsection \<open>Tables\<close>

text \<open>A row of \<^verbatim>\<open>candaceos_app_revisions\<close> is an \<open>AppRevision\<close>.\<close>

record DeploymentRow =
  dw_AppRevisionID :: string
  dw_ProjectName :: string
  dw_WorkspacePath :: string
  dw_DesiredState :: string
  dw_PlacementMode :: string
  dw_ExactNodeID :: "string option"
  dw_Replicas :: int
  dw_Stateful :: bool
  dw_CreatedAt :: time
  dw_UpdatedAt :: time

record RolloutRow =
  lw_ID :: string
  lw_DeploymentID :: string
  lw_AppRevisionID :: string
  lw_DesiredState :: string
  lw_RequestedAt :: time

record RunRow =
  rw_ID :: string
  rw_RolloutID :: string
  rw_DeploymentID :: string
  rw_AppRevisionID :: string
  rw_NodeID :: string
  rw_DesiredState :: string
  rw_WardenTerm :: int
  rw_LeaderID :: string
  rw_Status :: string
  rw_DryRun :: "bool option"
  rw_Error :: "string option"
  rw_RequestedAt :: time
  rw_FinishedAt :: "time option"

record ActivityReceipt =
  ax_EntityType :: string
  ax_EntityID :: string
  ax_Kind :: string
  ax_PayloadSha256 :: "string option"
  ax_OccurredAt :: time

text \<open>A receipt is numbered by its position from 1; the numbers of one that is rolled back are used again here.\<close>

record tables =
  tb_revisions :: "AppRevision list"
  tb_deployments :: "(string \<times> DeploymentRow) list"
  tb_labels :: "(string \<times> labels) list"
  tb_rollouts :: "RolloutRow list"
  tb_runs :: "RunRow list"
  tb_receipts :: "ActivityReceipt list"

definition no_tables :: tables where
  "no_tables = \<lparr>tb_revisions = [], tb_deployments = [], tb_labels = [], tb_rollouts = [], tb_runs = [], tb_receipts = []\<rparr>"

datatype rc_err =
    BadIntent | BadApprovedRevision | BadState | SourceError | NoDeployment | OtherDeployment | BadPersisted
  | RevisionChanged | BadAssignment | BadDeployment os_err | MutationBlocked | TermRange | NoPlacement os_err
  | StoreFailed | CommitUnknown | NotRunning | BadEvidence | AgentFailed call_err

text \<open>
  A transaction that does its writes, fails and leaves none, or loses the answer to its commit after
  the database committed (\<^verbatim>\<open>TransactionCommitError\<close>).
\<close>

datatype tx = TxOk | TxFails | TxUnknown

definition WithTx :: "tx \<Rightarrow> (tables \<Rightarrow> rc_err + tables \<times> 'a) \<Rightarrow> tables \<Rightarrow> tables \<times> (rc_err + 'a)" where
  "WithTx outcome f t =
     (case f t of
        Inl e \<Rightarrow> (t, Inl e)
      | Inr (t', x) \<Rightarrow>
          (case outcome of
             TxOk \<Rightarrow> (t', Inr x)
           | TxFails \<Rightarrow> (t, Inl StoreFailed)
           | TxUnknown \<Rightarrow> (t', Inl CommitUnknown)))"

definition optionalText :: "string \<Rightarrow> string option" where
  "optionalText s = (if s = [] then None else Some s)"

definition AppendReceipt :: "string \<Rightarrow> string \<Rightarrow> string \<Rightarrow> string \<Rightarrow> time \<Rightarrow> tables \<Rightarrow> tables \<times> nat" where
  "AppendReceipt etype eid kind payload now t =
     (t\<lparr>tb_receipts := tb_receipts t @
          [\<lparr>ax_EntityType = etype, ax_EntityID = eid, ax_Kind = kind, ax_PayloadSha256 = optionalText payload, ax_OccurredAt = now\<rparr>]\<rparr>,
      Suc (length (tb_receipts t)))"

text \<open>
  \<^verbatim>\<open>ON CONFLICT (app_revision_id) DO NOTHING\<close>; another row with the same application, commit and
  digest violates the second key of the table.
\<close>

definition UpsertAppRevision :: "AppRevision \<Rightarrow> tables \<Rightarrow> rc_err + tables" where
  "UpsertAppRevision r t =
     (if rv_ID r \<in> rv_ID ` set (tb_revisions t) then Inr t
      else if (rv_AppID r, rv_Revision r, rv_Digest r) \<in> (\<lambda>x. (rv_AppID x, rv_Revision x, rv_Digest x)) ` set (tb_revisions t)
      then Inl StoreFailed
      else Inr (t\<lparr>tb_revisions := tb_revisions t @ [r]\<rparr>))"

definition deployment_row_ok :: "DeploymentRow \<Rightarrow> bool" where
  "deployment_row_ok r \<longleftrightarrow> dw_DesiredState r \<in> set [''running'', ''stopped''] \<and> dw_PlacementMode r \<in> set [''node'', ''leader'', ''labels'']
     \<and> dw_Replicas r > 0 \<and> (dw_PlacementMode r = ''node'' \<longleftrightarrow> dw_ExactNodeID r \<noteq> None)
     \<and> (dw_Stateful r \<longrightarrow> dw_PlacementMode r = ''node'')"

definition UpsertDeployment :: "string \<Rightarrow> DeploymentRow \<Rightarrow> tables \<Rightarrow> rc_err + tables" where
  "UpsertDeployment d r t =
     (if \<not> deployment_row_ok r then Inl StoreFailed
      else
        let created = (case map_of (tb_deployments t) d of None \<Rightarrow> dw_CreatedAt r | Some old \<Rightarrow> dw_CreatedAt old)
        in Inr (t\<lparr>tb_deployments := map_put d (r\<lparr>dw_CreatedAt := created\<rparr>) (tb_deployments t)\<rparr>))"

definition CreateDeploymentRollout :: "RolloutRow \<Rightarrow> tables \<Rightarrow> rc_err + tables" where
  "CreateDeploymentRollout r t =
     (if lw_ID r \<in> lw_ID ` set (tb_rollouts t) then Inl StoreFailed else Inr (t\<lparr>tb_rollouts := tb_rollouts t @ [r]\<rparr>))"

definition CreateDeploymentRun :: "RunRow \<Rightarrow> tables \<Rightarrow> rc_err + tables" where
  "CreateDeploymentRun r t =
     (if rw_ID r \<in> rw_ID ` set (tb_runs t) \<or> \<not> 0 < rw_WardenTerm r then Inl StoreFailed
      else Inr (t\<lparr>tb_runs := tb_runs t @ [r]\<rparr>))"

fun create_runs :: "RunRow list \<Rightarrow> tables \<Rightarrow> rc_err + tables" where
  "create_runs [] t = Inr t"
| "create_runs (r # rs) t = and_then (CreateDeploymentRun r t) (create_runs rs)"

text \<open>The rows updated are those with the run's identifier that are still running.\<close>

definition FinishDeploymentRun :: "string \<Rightarrow> string \<Rightarrow> bool \<Rightarrow> string option \<Rightarrow> time \<Rightarrow> tables \<Rightarrow> tables \<times> nat" where
  "FinishDeploymentRun run status dry err now t =
     (t\<lparr>tb_runs := map (\<lambda>r. if rw_ID r = run \<and> rw_Status r = ''running''
                           then r\<lparr>rw_Status := status, rw_DryRun := Some dry, rw_Error := err, rw_FinishedAt := Some now\<rparr> else r)
                        (tb_runs t)\<rparr>,
      length (filter (\<lambda>r. rw_ID r = run \<and> rw_Status r = ''running'') (tb_runs t)))"

text \<open>
  The view \<^verbatim>\<open>candaceos_possibly_active_deployment_nodes\<close>: of the attempts on a node that are not dry
  runs the latest by request, rollout and run decides.
\<close>

definition later :: "RunRow \<Rightarrow> RunRow \<Rightarrow> bool" where
  "later a b \<longleftrightarrow> rw_RequestedAt a < rw_RequestedAt b
     \<or> rw_RequestedAt a = rw_RequestedAt b
       \<and> (rw_RolloutID a < rw_RolloutID b \<or> rw_RolloutID a = rw_RolloutID b \<and> rw_ID a < rw_ID b)"

fun latest_attempt :: "RunRow list \<Rightarrow> RunRow option" where
  "latest_attempt [] = None"
| "latest_attempt (r # rs) =
     (case latest_attempt rs of None \<Rightarrow> Some r | Some b \<Rightarrow> if later b r then Some r else Some b)"

definition live_attempts :: "string \<Rightarrow> string \<Rightarrow> RunRow list \<Rightarrow> RunRow list" where
  "live_attempts d n rs = filter (\<lambda>r. rw_DeploymentID r = d \<and> rw_NodeID r = n \<and> rw_DryRun r \<noteq> Some True) rs"

definition possibly_active :: "string \<Rightarrow> tables \<Rightarrow> string \<Rightarrow> bool" where
  "possibly_active d t n =
     (case latest_attempt (live_attempts d n (tb_runs t)) of
        None \<Rightarrow> False
      | Some r \<Rightarrow> rw_Status r \<noteq> ''succeeded'' \<or> rw_DesiredState r = ''running'')"

definition ListPossiblyActiveDeploymentNodes :: "string \<Rightarrow> tables \<Rightarrow> string list" where
  "ListPossiblyActiveDeploymentNodes d t =
     filter (possibly_active d t) (sort (remdups (map rw_NodeID (filter (\<lambda>r. rw_DeploymentID r = d) (tb_runs t)))))"

definition FailInterruptedDeploymentRuns :: "time \<Rightarrow> tables \<Rightarrow> tables" where
  "FailInterruptedDeploymentRuns now t =
     t\<lparr>tb_runs := map (\<lambda>r. if rw_Status r = ''running''
                          then r\<lparr>rw_Status := ''failed'', rw_FinishedAt := Some now,
                                 rw_Error := Some ''CandaceOS Core restarted before the node outcome was recorded''\<rparr> else r)
                       (tb_runs t)\<rparr>"

subsection \<open>The source of an application\<close>

text \<open>
  What the workspace answers: whether the path stays inside; Git's status of it, the head, the
  remote; the digest of the materialized tree and the kinds of its Compose files; and a URL without
  its user.
\<close>

record workspace_view =
  ws_inside :: "string \<Rightarrow> bool"
  ws_status :: "string \<Rightarrow> string option"
  ws_head :: "string option"
  ws_materialize :: "string \<Rightarrow> string \<Rightarrow> (string \<times> (string \<Rightarrow> bool)) option"
  ws_remote :: "string option"
  ws_strip :: "string \<Rightarrow> string"

definition find_compose_name :: "(string \<Rightarrow> bool) \<Rightarrow> string option" where
  "find_compose_name regular = find regular composeFileNames"

definition join_path :: "string \<Rightarrow> string \<Rightarrow> string" where
  "join_path dir name = path_Clean (dir @ ''/'' @ name)"

definition service_revision :: "workspace_view \<Rightarrow> string \<Rightarrow> string \<Rightarrow> rc_err + AppRevision" where
  "service_revision w app path =
     (if \<not> ws_inside w path then Inl SourceError
      else case ws_status w path of
        None \<Rightarrow> Inl SourceError
      | Some status \<Rightarrow>
          if TrimSpace status \<noteq> [] then Inl SourceError
          else case ws_head w of
            None \<Rightarrow> Inl SourceError
          | Some head \<Rightarrow>
              (let sha = TrimSpace head
               in case ws_materialize w sha path of
                    None \<Rightarrow> Inl SourceError
                  | Some (digest, regular) \<Rightarrow>
                      (case find_compose_name regular of
                         None \<Rightarrow> Inl SourceError
                       | Some name \<Rightarrow>
                           (let source = (case ws_remote w of None \<Rightarrow> [] | Some url \<Rightarrow> ws_strip w (TrimSpace url));
                                r = \<lparr>rv_ID = app @ ''-'' @ sha, rv_AppID = app,
                                     rv_Source = (if source = [] then ''local://candaceos-workspace'' else source),
                                     rv_Revision = sha, rv_Digest = digest, rv_ComposePath = join_path path name\<rparr>
                            in if AppRevision_Validate r \<noteq> None then Inl SourceError else Inr r))))"

subsection \<open>Resolution of an intent\<close>

definition desiredStateFrom :: "int \<Rightarrow> string option" where
  "desiredStateFrom s =
     (if s = STATE_RUNNING then Some DesiredStateRunning else if s = STATE_STOPPED then Some DesiredStateStopped else None)"

definition persistedStopInput :: "tables \<Rightarrow> ReconcileIntent \<Rightarrow> rc_err + ReconcileIntent \<times> AppRevision" where
  "persistedStopInput t i =
     (case map_of (tb_deployments t) (ri_Project i) of
        None \<Rightarrow> Inl NoDeployment
      | Some row \<Rightarrow>
          (case find (\<lambda>r. rv_ID r = dw_AppRevisionID row) (tb_revisions t) of
             None \<Rightarrow> Inl NoDeployment
           | Some revision \<Rightarrow>
               if ri_App i \<noteq> rv_AppID revision \<or> ri_Project i \<noteq> dw_ProjectName row \<or> ri_Path i \<noteq> dw_WorkspacePath row
               then Inl OtherDeployment
               else
                 let base = \<lparr>ri_App = rv_AppID revision, ri_Project = dw_ProjectName row, ri_Path = dw_WorkspacePath row,
                             ri_DesiredState = STATE_STOPPED, ri_PlacementMode = 0, ri_NodeId = [], ri_Labels = [],
                             ri_Replicas = dw_Replicas row, ri_Stateful = dw_Stateful row\<rparr>;
                     effective =
                       (if dw_PlacementMode row = ''node''
                        then Some (base\<lparr>ri_PlacementMode := MODE_EXACT_NODE, ri_NodeId := or_empty (dw_ExactNodeID row)\<rparr>)
                        else if dw_PlacementMode row = ''leader'' then Some (base\<lparr>ri_PlacementMode := MODE_LEADER\<rparr>)
                        else if dw_PlacementMode row = ''labels''
                        then Some (base\<lparr>ri_PlacementMode := MODE_LABELS, ri_Labels := map_get [] (tb_labels t) (ri_Project i)\<rparr>)
                        else None)
                 in case effective of
                      None \<Rightarrow> Inl BadPersisted
                    | Some e \<Rightarrow>
                        if \<not> ValidateReconcileIntent e \<or> AppRevision_Validate revision \<noteq> None then Inl BadPersisted
                        else Inr (e, revision)))"

definition resolveInput :: "workspace_view \<Rightarrow> tables \<Rightarrow> ReconcileIntent \<Rightarrow> rc_err + ReconcileIntent \<times> AppRevision" where
  "resolveInput w t i =
     (case desiredStateFrom (ri_DesiredState i) of
        None \<Rightarrow> Inl BadState
      | Some s \<Rightarrow>
          if s = DesiredStateStopped then persistedStopInput t i
          else and_then (service_revision w (ri_App i) (ri_Path i)) (\<lambda>r. Inr (i, r)))"

definition assignmentFrom :: "ReconcileIntent \<Rightarrow> AppRevision \<Rightarrow> rc_err + Assignment \<times> string" where
  "assignmentFrom i r =
     (case desiredStateFrom (ri_DesiredState i) of
        None \<Rightarrow> Inl BadState
      | Some s \<Rightarrow>
          let a = \<lparr>as_App = ri_App i, as_Project = ri_Project i, as_Path = ri_Path i, as_DesiredState = ri_DesiredState i,
                   as_SourceRevision = rv_Revision r, as_ContentSha256 = rv_Digest r\<rparr>
          in if \<not> valid_utf8 0 (ri_Path i) \<or> \<not> ValidateAssignment a then Inl BadAssignment else Inr (a, s))"

text \<open>The placement with its name in the table, the exact node and the replicas.\<close>

definition placementFrom :: "ReconcileIntent \<Rightarrow> (Placement \<times> string \<times> string \<times> int) option" where
  "placementFrom i =
     (if ri_PlacementMode i = MODE_EXACT_NODE
      then Some (\<lparr>pc_ExactNode = Some (ri_NodeId i), pc_Leader = None, pc_MatchLabels = None\<rparr>, ''node'', ri_NodeId i, 1)
      else if ri_PlacementMode i = MODE_LEADER
      then Some (\<lparr>pc_ExactNode = None, pc_Leader = Some (), pc_MatchLabels = None\<rparr>, ''leader'', [], 1)
      else if ri_PlacementMode i = MODE_LABELS
      then Some (\<lparr>pc_ExactNode = None, pc_Leader = None,
                  pc_MatchLabels = Some \<lparr>ml_Labels = ri_Labels i, ml_Replicas = ri_Replicas i\<rparr>\<rparr>, ''labels'', [], ri_Replicas i)
      else None)"

definition Prepare :: "workspace_view \<Rightarrow> tables \<Rightarrow> ReconcileIntent \<Rightarrow> rc_err + ReconcileRevision" where
  "Prepare w t i =
     (if \<not> ValidateReconcileIntent i then Inl BadIntent
      else and_then (resolveInput w t i) (\<lambda>(effective, revision).
        and_then (assignmentFrom effective revision) (\<lambda>_.
          if ValidateReconcileRevision (approvedRevision revision) then Inr (approvedRevision revision) else Inl BadApprovedRevision)))"

subsection \<open>Planning and recording\<close>

text \<open>New identifiers are drawn in order from \<open>uuid\<close>; \<open>k\<close> counts those drawn so far.\<close>

record deploymentRun =
  pr_ID :: string
  pr_NodeID :: string
  pr_DesiredState :: string

definition planDeploymentRuns :: "(nat \<Rightarrow> string) \<Rightarrow> nat \<Rightarrow> string list \<Rightarrow> string list \<Rightarrow> deploymentRun list" where
  "planDeploymentRuns uuid k active targets =
     (let steps = map (\<lambda>n. (n, DesiredStateRunning)) targets
                  @ map (\<lambda>n. (n, DesiredStateStopped)) (filter (\<lambda>n. n \<notin> set targets) active)
      in map (\<lambda>(j, n, s). \<lparr>pr_ID = uuid (k + j), pr_NodeID = n, pr_DesiredState = s\<rparr>) (enumerate 0 steps))"

record rollout =
  ro_ID :: string
  ro_Deployment :: Deployment
  ro_Project :: string
  ro_Path :: string
  ro_Labels :: labels
  ro_Revision :: AppRevision
  ro_Mode :: string
  ro_ExactNode :: string
  ro_Replicas :: int
  ro_Fleet :: FleetSnapshot
  ro_Runs :: "deploymentRun list"
  ro_At :: time

definition run_row :: "rollout \<Rightarrow> deploymentRun \<Rightarrow> RunRow" where
  "run_row o' p =
     \<lparr>rw_ID = pr_ID p, rw_RolloutID = ro_ID o', rw_DeploymentID = dp_ID (ro_Deployment o'),
      rw_AppRevisionID = rv_ID (ro_Revision o'), rw_NodeID = pr_NodeID p, rw_DesiredState = pr_DesiredState p,
      rw_WardenTerm = sint (ft_Term (ro_Fleet o')), rw_LeaderID = ft_LeaderID (ro_Fleet o'), rw_Status = ''running'',
      rw_DryRun = None, rw_Error = None, rw_RequestedAt = ro_At o', rw_FinishedAt = None\<rparr>"

definition persistIntent :: "rollout \<Rightarrow> tables \<Rightarrow> rc_err + tables \<times> nat" where
  "persistIntent o' t =
     (let d = dp_ID (ro_Deployment o')
      in and_then (UpsertAppRevision (ro_Revision o') t) (\<lambda>t.
         and_then (UpsertDeployment d
           \<lparr>dw_AppRevisionID = rv_ID (ro_Revision o'), dw_ProjectName = ro_Project o', dw_WorkspacePath = ro_Path o',
            dw_DesiredState = dp_DesiredState (ro_Deployment o'), dw_PlacementMode = ro_Mode o',
            dw_ExactNodeID = optionalText (ro_ExactNode o'), dw_Replicas = ro_Replicas o',
            dw_Stateful = dp_Stateful (ro_Deployment o'), dw_CreatedAt = ro_At o', dw_UpdatedAt = ro_At o'\<rparr> t) (\<lambda>t.
         and_then (CreateDeploymentRollout
           \<lparr>lw_ID = ro_ID o', lw_DeploymentID = d, lw_AppRevisionID = rv_ID (ro_Revision o'),
            lw_DesiredState = dp_DesiredState (ro_Deployment o'), lw_RequestedAt = ro_At o'\<rparr> t) (\<lambda>t.
         and_then (create_runs (map (run_row o') (ro_Runs o')) (t\<lparr>tb_labels := map_put d (ro_Labels o') (tb_labels t)\<rparr>)) (\<lambda>t.
         if ro_Runs o' = []
         then Inr (AppendReceipt ''deployment_rollout'' (ro_ID o') ''deployment.noop'' (rv_Digest (ro_Revision o')) (ro_At o') t)
         else Inr (t, 0))))))"

definition finishRun_writes :: "string \<Rightarrow> bool \<Rightarrow> string option \<Rightarrow> time \<Rightarrow> tables \<Rightarrow> rc_err + tables \<times> nat" where
  "finishRun_writes run dry err now t =
     (let status = (if err = None then ''succeeded'' else ''failed'');
          kind = (if err \<noteq> None then ''deployment.failed'' else if dry then ''deployment.dry_run'' else ''deployment.succeeded'');
          (t, rows) = FinishDeploymentRun run status dry err now t
      in if rows \<noteq> 1 then Inl NotRunning
         else Inr (AppendReceipt ''deployment_run'' run kind [] now t))"

definition finishRun :: "tx \<Rightarrow> string \<Rightarrow> bool \<Rightarrow> string option \<Rightarrow> time \<Rightarrow> tables \<Rightarrow> tables \<times> (rc_err + nat)" where
  "finishRun outcome run dry err now t = WithTx outcome (finishRun_writes run dry err now) t"

subsection \<open>The reconciliation\<close>

text \<open>What the cluster is to the placement: Warden's nodes with their configured labels.\<close>

definition fleet_cluster :: "(string \<times> labels) list \<Rightarrow> FleetSnapshot \<Rightarrow> ClusterSnapshot" where
  "fleet_cluster configured s =
     \<lparr>cs_Nodes = map (\<lambda>n. \<lparr>on_Id = fl_ID n, on_Labels = map_get [] configured (fl_ID n), on_Alive = (fl_Status n = ''alive'')\<rparr>) (ft_Nodes s),
      cs_LeaderNodeID = ft_LeaderID s, cs_Authoritative = ft_Authoritative s, cs_HasQuorum = ft_HasQuorum s\<rparr>"

text \<open>
  A reconciliation under way: its rollout, the assignment, the runs still to call, and the evidence
  and errors so far.
\<close>

record job =
  jb_Rollout :: rollout
  jb_Assignment :: Assignment
  jb_Left :: "deploymentRun list"
  jb_Evidence :: ReconcileEvidence
  jb_Errors :: "rc_err list"

text \<open>What surrounds the service when an intent arrives: \<open>en_read\<close> is whether the query for active nodes answers.\<close>

record surroundings =
  su_Workspace :: workspace_view
  su_Labels :: "(string \<times> labels) list"
  su_Fleet :: FleetSnapshot
  su_Read :: bool
  su_Tx :: tx
  su_Now :: time

definition plan_nodes :: "surroundings \<Rightarrow> Deployment \<Rightarrow> rc_err + OsNode list" where
  "plan_nodes su deployment =
     (case Deployment_Validate deployment of
        Some e \<Rightarrow> Inl (BadDeployment e)
      | None \<Rightarrow>
          if \<not> CanMutate (su_Fleet su) then Inl MutationBlocked
          else if ft_Term (su_Fleet su) > 0x7FFFFFFFFFFFFFFF then Inl TermRange
          else if \<not> su_Read su then Inl StoreFailed
          else if dp_DesiredState deployment = DesiredStateRunning
          then (case ResolvePlacement deployment (fleet_cluster (su_Labels su) (su_Fleet su)) of
                  Inl e \<Rightarrow> Inl (NoPlacement e)
                | Inr targets \<Rightarrow> Inr targets)
          else Inr [])"

definition plan_rollout ::
  "(nat \<Rightarrow> string) \<Rightarrow> nat \<Rightarrow> surroundings \<Rightarrow> ReconcileIntent \<Rightarrow> ReconcileRevision option \<Rightarrow> tables \<Rightarrow> rc_err + rollout \<times> Assignment" where
  "plan_rollout uuid k su i expected t =
     (if \<not> ValidateReconcileIntent i then Inl BadIntent
      else and_then (resolveInput (su_Workspace su) t i) (\<lambda>(i, revision).
        if expected \<noteq> None \<and> expected \<noteq> Some (approvedRevision revision) then Inl RevisionChanged
        else and_then (assignmentFrom i revision) (\<lambda>(assignment, desired).
          case placementFrom i of
            None \<Rightarrow> Inl BadIntent
          | Some (placement, mode, exact, replicas) \<Rightarrow>
              (let deployment = \<lparr>dp_ID = ri_Project i, dp_AppRevisionID = rv_ID revision, dp_DesiredState = desired,
                                 dp_Placement = placement, dp_Stateful = ri_Stateful i\<rparr>
               in and_then (plan_nodes su deployment) (\<lambda>targets.
                    let active = ListPossiblyActiveDeploymentNodes (dp_ID deployment) t;
                        runs = planDeploymentRuns uuid k active (map on_Id targets)
                    in Inr (\<lparr>ro_ID = uuid (k + length runs), ro_Deployment = deployment, ro_Project = ri_Project i,
                             ro_Path = ri_Path i, ro_Labels = ri_Labels i, ro_Revision = revision, ro_Mode = mode,
                             ro_ExactNode = exact, ro_Replicas = replicas, ro_Fleet = su_Fleet su, ro_Runs = runs, ro_At = su_Now su\<rparr>,
                            assignment))))))"

definition new_job :: "rollout \<Rightarrow> Assignment \<Rightarrow> nat \<Rightarrow> job" where
  "new_job o' assignment receipt =
     \<lparr>jb_Rollout = o', jb_Assignment = assignment, jb_Left = ro_Runs o',
      jb_Evidence = \<lparr>ev_DeploymentId = dp_ID (ro_Deployment o'), ev_RevisionId = rv_ID (ro_Revision o'), ev_RunIds = [], ev_NodeIds = [],
                     ev_ReceiptIds = (if receipt \<noteq> 0 then [receipt] else []), ev_DryRun = (ro_Runs o' \<noteq> [])\<rparr>,
      jb_Errors = []\<rparr>"

definition reconcile_begin ::
  "(nat \<Rightarrow> string) \<Rightarrow> nat \<Rightarrow> surroundings \<Rightarrow> ReconcileIntent \<Rightarrow> ReconcileRevision option \<Rightarrow> tables
     \<Rightarrow> tables \<times> nat \<times> (rc_err + job)" where
  "reconcile_begin uuid k su i expected t =
     (case plan_rollout uuid k su i expected t of
        Inl e \<Rightarrow> (t, k, Inl e)
      | Inr (o', assignment) \<Rightarrow>
          (case WithTx (su_Tx su) (persistIntent o') t of
             (t, result) \<Rightarrow> (t, k + length (ro_Runs o') + 1, map_sum (\<lambda>e. e) (new_job o' assignment) result)))"

text \<open>
  The call of the next run. \<open>live\<close> is not in the source: on which nodes which deployment may be
  running, as far as the calls of this service go. A call with an effect starts or stops it.
\<close>

type_synonym live_nodes = "(string \<times> string) list"

definition call_effect :: "string \<Rightarrow> deploymentRun \<Rightarrow> bool \<Rightarrow> live_nodes \<Rightarrow> live_nodes" where
  "call_effect d p changed live =
     (if \<not> changed then live
      else if pr_DesiredState p = DesiredStateStopped then filter (\<lambda>x. x \<noteq> (d, pr_NodeID p)) live
      else (d, pr_NodeID p) # live)"

record call_world =
  cw_timestamp_ok :: "time \<Rightarrow> bool"
  cw_url :: "string \<Rightarrow> string option"
  cw_endpoint :: endpoint
  cw_Tx :: tx
  cw_Now :: time

definition node_address :: "FleetSnapshot \<Rightarrow> string \<Rightarrow> string" where
  "node_address s n = (case find (\<lambda>x. fl_ID x = n) (rev (ft_Nodes s)) of None \<Rightarrow> [] | Some x \<Rightarrow> fl_Address x)"

definition run_assignment :: "job \<Rightarrow> deploymentRun \<Rightarrow> Assignment" where
  "run_assignment j p =
     (if pr_DesiredState p = DesiredStateStopped then (jb_Assignment j)\<lparr>as_DesiredState := STATE_STOPPED\<rparr> else jb_Assignment j)"

definition run_fence :: "job \<Rightarrow> Fence" where
  "run_fence j = \<lparr>fn_Term = ft_Term (ro_Fleet (jb_Rollout j)), fn_LeaderId = ft_LeaderID (ro_Fleet (jb_Rollout j))\<rparr>"

definition reconcile_call :: "call_world \<Rightarrow> job \<Rightarrow> tables \<Rightarrow> live_nodes \<Rightarrow> tables \<times> live_nodes \<times> job" where
  "reconcile_call w j t live =
     (case jb_Left j of
        [] \<Rightarrow> (t, live, j)
      | p # rest \<Rightarrow>
          (let (result, changed) = AgentClient_Reconcile (cw_timestamp_ok w)
                 (cw_url w (node_address (ro_Fleet (jb_Rollout j)) (pr_NodeID p))) (pr_NodeID p) (run_fence j) (run_assignment j p)
                 (cw_endpoint w);
               live = call_effect (dp_ID (ro_Deployment (jb_Rollout j))) p changed live;
               j = j\<lparr>jb_Left := rest\<rparr>
           in case result of
                Inl e \<Rightarrow>
                  (case finishRun (cw_Tx w) (pr_ID p) False (Some ''failed'') (cw_Now w) t of
                     (t, recorded) \<Rightarrow>
                       (t, live, j\<lparr>jb_Errors := jb_Errors j @ [AgentFailed e] @ (case recorded of Inl x \<Rightarrow> [x] | Inr _ \<Rightarrow> [])\<rparr>))
              | Inr response \<Rightarrow>
                  (case finishRun (cw_Tx w) (pr_ID p) (rp_DryRun response) None (cw_Now w) t of
                     (t, Inl x) \<Rightarrow> (t, live, j\<lparr>jb_Errors := jb_Errors j @ [x]\<rparr>)
                   | (t, Inr receipt) \<Rightarrow>
                       (let ev = jb_Evidence j
                        in (t, live, j\<lparr>jb_Evidence := ev\<lparr>ev_RunIds := ev_RunIds ev @ [pr_ID p], ev_NodeIds := ev_NodeIds ev @ [pr_NodeID p],
                             ev_ReceiptIds := ev_ReceiptIds ev @ [receipt], ev_DryRun := (ev_DryRun ev \<and> rp_DryRun response)\<rparr>\<rparr>)))))"

text \<open>The end: evidence that is not valid is an error, and so are the errors of the runs, with the evidence.\<close>

definition reconcile_end :: "job \<Rightarrow> ReconcileEvidence option \<times> rc_err list" where
  "reconcile_end j =
     (if \<not> ValidateReconcileEvidence (jb_Evidence j) then (None, [BadEvidence]) else (Some (jb_Evidence j), jb_Errors j))"

fun reconcile_calls :: "call_world list \<Rightarrow> job \<Rightarrow> tables \<Rightarrow> live_nodes \<Rightarrow> tables \<times> live_nodes \<times> job" where
  "reconcile_calls [] j t live = (t, live, j)"
| "reconcile_calls (w # ws) j t live = (case reconcile_call w j t live of (t, live, j) \<Rightarrow> reconcile_calls ws j t live)"

text \<open>\<^verbatim>\<open>ReconcileApproved\<close> also validates the revision that was approved.\<close>

definition ReconcileApproved_begin ::
  "(nat \<Rightarrow> string) \<Rightarrow> nat \<Rightarrow> surroundings \<Rightarrow> ReconcileIntent \<Rightarrow> ReconcileRevision \<Rightarrow> tables \<Rightarrow> tables \<times> nat \<times> (rc_err + job)" where
  "ReconcileApproved_begin uuid k su i expected t =
     (if \<not> ValidateReconcileRevision expected then (t, k, Inl BadApprovedRevision)
      else reconcile_begin uuid k su i (Some expected) t)"

text \<open>
  The life of Core: reconciliations one after the other, of which a crash may leave any number of
  runs uncalled, and restarts.
\<close>

record core =
  co_tables :: tables
  co_live :: live_nodes
  co_uuids :: nat

datatype core_input = CoreReconcile surroundings ReconcileIntent "ReconcileRevision option" "call_world list" | CoreRestart time

fun core_turn :: "(nat \<Rightarrow> string) \<Rightarrow> core_input \<Rightarrow> core \<Rightarrow> core" where
  "core_turn uuid (CoreReconcile su i expected ws) c =
     (case reconcile_begin uuid (co_uuids c) su i expected (co_tables c) of
        (t, k, Inl e) \<Rightarrow> c\<lparr>co_tables := t, co_uuids := k\<rparr>
      | (t, k, Inr j) \<Rightarrow> (case reconcile_calls ws j t (co_live c) of (t, live, j) \<Rightarrow> c\<lparr>co_tables := t, co_live := live, co_uuids := k\<rparr>))"
| "core_turn uuid (CoreRestart now) c = c\<lparr>co_tables := FailInterruptedDeploymentRuns now (co_tables c)\<rparr>"

definition core_run :: "(nat \<Rightarrow> string) \<Rightarrow> core_input list \<Rightarrow> core" where
  "core_run uuid inputs = fold (core_turn uuid) inputs \<lparr>co_tables = no_tables, co_live = [], co_uuids = 0\<rparr>"

end
