(* ===== verification/Os_Converge.thy ===== *)
theory Os_Converge
  imports Os_Reconcile Os_Placement
begin

text \<open>
  What the tables of Core say about the nodes, against what its calls did to them: over a life of
  Core no node on which a deployment may run is forgotten, and a rollout that succeeds leaves
  exactly its targets.
\<close>

subsection \<open>The latest attempt\<close>

definition chronological :: "RunRow list \<Rightarrow> bool" where
  "chronological rs \<longleftrightarrow> sorted_wrt (\<lambda>a b. rw_RequestedAt a < rw_RequestedAt b) rs"

lemma latest_is_last: "chronological rs \<Longrightarrow> rs \<noteq> [] \<Longrightarrow> latest_attempt rs = Some (last rs)"
  by (induction rs) (auto simp: chronological_def later_def split: option.splits dest!: last_in_set)

definition attempts_on :: "string \<Rightarrow> string \<Rightarrow> RunRow list \<Rightarrow> RunRow list" where
  "attempts_on d n rs = filter (\<lambda>r. rw_DeploymentID r = d \<and> rw_NodeID r = n) rs"

lemma live_attempts_on: "live_attempts d n rs = filter (\<lambda>r. rw_DryRun r \<noteq> Some True) (attempts_on d n rs)"
  by (auto simp: live_attempts_def attempts_on_def intro: filter_cong)

lemma attempts_append [simp]: "attempts_on d n (xs @ ys) = attempts_on d n xs @ attempts_on d n ys"
  "live_attempts d n (xs @ ys) = live_attempts d n xs @ live_attempts d n ys"
  by (simp_all add: attempts_on_def live_attempts_def)

definition still_active :: "RunRow \<Rightarrow> bool" where
  "still_active r \<longleftrightarrow> rw_Status r \<noteq> ''succeeded'' \<or> rw_DesiredState r = ''running''"

text \<open>Activity of a node, from its attempts in the order they were made.\<close>

definition active_by :: "string \<Rightarrow> string \<Rightarrow> RunRow list \<Rightarrow> bool" where
  "active_by d n rs \<longleftrightarrow> live_attempts d n rs \<noteq> [] \<and> still_active (last (live_attempts d n rs))"

lemma chronological_filter: "chronological rs \<Longrightarrow> chronological (filter P rs)"
  by (simp add: chronological_def sorted_wrt_filter)

lemma possibly_active_by:
  assumes "chronological (attempts_on d n (tb_runs t))"
  shows "possibly_active d t n \<longleftrightarrow> active_by d n (tb_runs t)"
proof -
  have c: "chronological (live_attempts d n (tb_runs t))"
    unfolding live_attempts_on by (rule chronological_filter[OF assms])
  show ?thesis
    using latest_is_last[OF c] by (cases "live_attempts d n (tb_runs t)") (auto simp: possibly_active_def active_by_def still_active_def)
qed

lemma listed_active: "n \<in> set (ListPossiblyActiveDeploymentNodes d t) \<longleftrightarrow> possibly_active d t n"
proof -
  have "n \<in> rw_NodeID ` {r \<in> set (tb_runs t). rw_DeploymentID r = d}" if "possibly_active d t n"
  proof -
    have "live_attempts d n (tb_runs t) \<noteq> []" using that by (auto simp: possibly_active_def)
    then obtain r where "r \<in> set (live_attempts d n (tb_runs t))" by (cases "live_attempts d n (tb_runs t)") auto
    then show ?thesis by (force simp: live_attempts_def)
  qed
  then show ?thesis by (auto simp: ListPossiblyActiveDeploymentNodes_def)
qed

lemma active_snoc:
  assumes "attempts_on d n rs = [r]"
  shows "active_by d n (base @ rs) \<longleftrightarrow> (if rw_DryRun r = Some True then active_by d n base else still_active r)"
  using assms by (simp add: active_by_def live_attempts_on)

lemma active_none: "attempts_on d n rs = [] \<Longrightarrow> active_by d n (base @ rs) \<longleftrightarrow> active_by d n base"
  by (simp add: active_by_def live_attempts_on)

subsection \<open>What a beginning writes\<close>

lemma create_runs_rows: "create_runs rs t = Inr t' \<Longrightarrow> tb_runs t' = tb_runs t @ rs"
  by (induction rs arbitrary: t) (auto simp: and_then_Inr CreateDeploymentRun_def split: if_splits)

lemma persist_runs:
  "persistIntent o' t = Inr (t', x) \<Longrightarrow> tb_runs t' = tb_runs t @ map (run_row o') (ro_Runs o')"
  by (auto simp: persistIntent_def Let_def and_then_Inr AppendReceipt_def UpsertAppRevision_def UpsertDeployment_def
      CreateDeploymentRollout_def dest!: create_runs_rows split: if_splits)

lemma WithTx_runs:
  "WithTx outcome (persistIntent o') t = (t', x) \<Longrightarrow> t' = t \<or> tb_runs t' = tb_runs t @ map (run_row o') (ro_Runs o')"
  by (auto simp: WithTx_def dest: persist_runs split: sum.splits tx.splits)

lemma WithTx_Inr_runs:
  "WithTx outcome (persistIntent o') t = (t', Inr x) \<Longrightarrow> tb_runs t' = tb_runs t @ map (run_row o') (ro_Runs o')"
  by (auto simp: WithTx_def dest: persist_runs split: sum.splits tx.splits)

definition plan_ids :: "(nat \<Rightarrow> string) \<Rightarrow> nat \<Rightarrow> deploymentRun list \<Rightarrow> bool" where
  "plan_ids uuid k runs \<longleftrightarrow> map pr_ID runs = map uuid [k..<k + length runs]"

lemma plan_runs_ids: "plan_ids uuid k (planDeploymentRuns uuid k active targets)"
proof -
  have "map pr_ID (map (\<lambda>(j, n, s). \<lparr>pr_ID = uuid (k + j), pr_NodeID = n, pr_DesiredState = s\<rparr>) (enumerate 0 steps))
      = map uuid [k..<k + length steps]" for steps :: "(string \<times> string) list"
    by (rule nth_equalityI) (simp_all add: nth_enumerate_eq split_def)
  then show ?thesis by (simp add: planDeploymentRuns_def Let_def plan_ids_def)
qed

lemma plan_runs_steps:
  "map (\<lambda>p. (pr_NodeID p, pr_DesiredState p)) (planDeploymentRuns uuid k active targets)
   = map (\<lambda>n. (n, DesiredStateRunning)) targets @ map (\<lambda>n. (n, DesiredStateStopped)) (filter (\<lambda>n. n \<notin> set targets) active)"
proof -
  have "map (\<lambda>p. (pr_NodeID p, pr_DesiredState p))
      (map (\<lambda>(j, n, s). \<lparr>pr_ID = uuid (k + j), pr_NodeID = n, pr_DesiredState = s\<rparr>) (enumerate 0 steps)) = steps"
    for steps :: "(string \<times> string) list"
    by (rule nth_equalityI) (simp_all add: nth_enumerate_eq split_def)
  then show ?thesis by (simp add: planDeploymentRuns_def Let_def)
qed

lemma plan_runs_nodes:
  assumes "distinct targets" "distinct active"
  shows "distinct (map pr_NodeID (planDeploymentRuns uuid k active targets))"
proof -
  have "map pr_NodeID (planDeploymentRuns uuid k active targets)
      = map fst (map (\<lambda>p. (pr_NodeID p, pr_DesiredState p)) (planDeploymentRuns uuid k active targets))" by simp
  also have "\<dots> = targets @ filter (\<lambda>n. n \<notin> set targets) active"
    unfolding plan_runs_steps by (simp add: comp_def)
  finally show ?thesis using assms by auto
qed

lemma listed_distinct: "distinct (ListPossiblyActiveDeploymentNodes d t)"
  by (simp add: ListPossiblyActiveDeploymentNodes_def)

text \<open>The rows of a beginning: one per node, of one deployment, all at one time.\<close>

definition begun :: "(nat \<Rightarrow> string) \<Rightarrow> nat \<Rightarrow> surroundings \<Rightarrow> rollout \<Rightarrow> bool" where
  "begun uuid k su o' \<longleftrightarrow> ro_At o' = su_Now su \<and> plan_ids uuid k (ro_Runs o') \<and> distinct (map pr_NodeID (ro_Runs o'))
     \<and> set (map pr_DesiredState (ro_Runs o')) \<subseteq> {DesiredStateRunning, DesiredStateStopped}"

lemma resolved_distinct:
  assumes "ResolvePlacement d c = Inr ns" "dp_DesiredState d \<noteq> DesiredStateStopped"
  shows "distinct (map on_Id ns)"
proof -
  obtain leader where v: "ClusterSnapshot_Validate c = None"
    and how: "(\<exists>i n. pc_ExactNode (dp_Placement d) = Some i \<and> n \<in> set (cs_Nodes c) \<and> on_Alive n \<and> on_Id n = i \<and> ns = [n])
         \<or> (pc_ExactNode (dp_Placement d) = None \<and> pc_Leader (dp_Placement d) \<noteq> None \<and> ns = [leader])
         \<or> (\<exists>m. pc_ExactNode (dp_Placement d) = None \<and> pc_MatchLabels (dp_Placement d) = Some m
              \<and> ns = take (nat (ml_Replicas m)) (filter (\<lambda>n. hasExactLabels (on_Labels n) (ml_Labels m)) (aliveNodesSorted (cs_Nodes c)))
              \<and> ml_Replicas m \<le> int (length (filter (\<lambda>n. hasExactLabels (on_Labels n) (ml_Labels m)) (aliveNodesSorted (cs_Nodes c)))))"
    by (rule resolve_cases [OF assms])
  have "distinct (map on_Id (aliveNodesSorted (cs_Nodes c)))" using v distinct_alive by (simp add: cluster_valid)
  then have "distinct (map on_Id (take k (filter P (aliveNodesSorted (cs_Nodes c)))))" for k P
    unfolding take_map[symmetric] by (intro distinct_take distinct_map_filter)
  with how show ?thesis by auto
qed

lemma plan_begun:
  assumes "distinct targets" "runs = planDeploymentRuns uuid k active targets" "distinct active" "ro_Runs o' = runs" "ro_At o' = su_Now su"
  shows "begun uuid k su o'"
proof -
  have "set (map pr_DesiredState runs) = snd ` set (map (\<lambda>p. (pr_NodeID p, pr_DesiredState p)) runs)" by force
  then have "set (map pr_DesiredState runs) \<subseteq> {DesiredStateRunning, DesiredStateStopped}"
    unfolding assms(2) plan_runs_steps by auto
  then show ?thesis using assms plan_runs_nodes[OF assms(1,3)] plan_runs_ids by (simp add: begun_def)
qed

lemma plan_rollout_facts:
  assumes "plan_rollout uuid k su i expected t = Inr (o', a)"
  obtains targets where "ro_Runs o' = planDeploymentRuns uuid k (ListPossiblyActiveDeploymentNodes (dp_ID (ro_Deployment o')) t) (map on_Id targets)"
    and "ro_At o' = su_Now su" and "plan_nodes su (ro_Deployment o') = Inr targets"
  using assms by (auto simp: plan_rollout_def and_then_Inr Let_def split: if_splits option.splits)

lemma plan_nodes_Inr:
  assumes "plan_nodes su d = Inr targets"
  shows "if dp_DesiredState d = DesiredStateRunning
         then ResolvePlacement d (fleet_cluster (su_Labels su) (su_Fleet su)) = Inr targets else targets = []"
    and "CanMutate (su_Fleet su)"
  using assms by (auto simp: plan_nodes_def split: if_splits option.splits sum.splits)

lemma plan_rollout_begun:
  assumes "plan_rollout uuid k su i expected t = Inr (o', a)"
  shows "begun uuid k su o'"
proof -
  obtain targets where runs: "ro_Runs o' = planDeploymentRuns uuid k (ListPossiblyActiveDeploymentNodes (dp_ID (ro_Deployment o')) t) (map on_Id targets)"
    and now: "ro_At o' = su_Now su" and res: "plan_nodes su (ro_Deployment o') = Inr targets"
    by (rule plan_rollout_facts[OF assms])
  have "distinct (map on_Id targets)"
    using plan_nodes_Inr(1)[OF res] resolved_distinct[of "ro_Deployment o'"]
    by (auto simp: DesiredStateRunning_def DesiredStateStopped_def split: if_splits)
  then show ?thesis by (rule plan_begun[OF _ refl listed_distinct runs now])
qed

lemma begin_cases:
  assumes "reconcile_begin uuid k su i expected t = (t', k', x)"
  obtains (nothing) e where "t' = t" "k' = k" "x = Inl e"
  | (tried) o' a r where "plan_rollout uuid k su i expected t = Inr (o', a)" "begun uuid k su o'" "k' = k + length (ro_Runs o') + 1"
      "WithTx (su_Tx su) (persistIntent o') t = (t', r)" "x = map_sum (\<lambda>e. e) (new_job o' a) r"
proof (cases "plan_rollout uuid k su i expected t")
  case (Inl e)
  then have "t' = t" "k' = k" "x = Inl e" using assms by (auto simp: reconcile_begin_def)
  then show ?thesis by (rule nothing)
next
  case (Inr p)
  obtain o' a where p: "p = (o', a)" by (cases p)
  show ?thesis
    using assms tried[of o' a] plan_rollout_begun[of uuid k su i expected t o' a] Inr p
    by (auto simp: reconcile_begin_def split: prod.splits)
qed

subsection \<open>The calls of a rollout\<close>

definition finished :: "bool \<Rightarrow> string option \<Rightarrow> time \<Rightarrow> RunRow \<Rightarrow> RunRow" where
  "finished dry err now r =
     r\<lparr>rw_Status := (if err = None then ''succeeded'' else ''failed''), rw_DryRun := Some dry, rw_Error := err, rw_FinishedAt := Some now\<rparr>"

lemma finish_effect:
  assumes "tb_runs t = xs @ r # ys" "rw_ID r \<notin> rw_ID ` set xs" "rw_ID r \<notin> rw_ID ` set ys" "rw_Status r = ''running''"
    and "finishRun outcome (rw_ID r) dry err now t = (t', result)"
  shows "tb_runs t' = tb_runs t \<and> outcome = TxFails \<and> result = Inl StoreFailed
    \<or> tb_runs t' = xs @ finished dry err now r # ys \<and> outcome \<noteq> TxFails \<and> ((\<exists>x. result = Inr x) \<longleftrightarrow> outcome = TxOk)"
proof -
  have same: "map (\<lambda>x. if rw_ID x = rw_ID r \<and> rw_Status x = ''running'' then f x else x) zs = zs"
    "filter (\<lambda>x. rw_ID x = rw_ID r \<and> rw_Status x = ''running'') zs = []" if "rw_ID r \<notin> rw_ID ` set zs" for f zs
    using that by (induction zs) auto
  have "tb_runs (fst (FinishDeploymentRun (rw_ID r) s dry err now t))
      = xs @ r\<lparr>rw_Status := s, rw_DryRun := Some dry, rw_Error := err, rw_FinishedAt := Some now\<rparr> # ys"
    "snd (FinishDeploymentRun (rw_ID r) s dry err now t) = 1" for s
    by (simp_all add: FinishDeploymentRun_def assms(1,4) same[OF assms(2)] same[OF assms(3)])
  then show ?thesis
    using assms(5)
    by (auto simp: finishRun_def WithTx_def finishRun_writes_def Let_def AppendReceipt_def finished_def split_def split: tx.splits)
qed

definition row_for :: "rollout \<Rightarrow> deploymentRun \<Rightarrow> RunRow \<Rightarrow> bool" where
  "row_for o' p r \<longleftrightarrow> rw_ID r = pr_ID p \<and> rw_DeploymentID r = dp_ID (ro_Deployment o') \<and> rw_NodeID r = pr_NodeID p
     \<and> rw_DesiredState r = pr_DesiredState p \<and> rw_RequestedAt r = ro_At o'"

definition covers_live :: "string \<Rightarrow> RunRow list \<Rightarrow> live_nodes \<Rightarrow> deploymentRun \<Rightarrow> RunRow \<Rightarrow> bool" where
  "covers_live d base live p r \<longleftrightarrow>
     ((d, pr_NodeID p) \<in> set live \<longrightarrow> (if rw_DryRun r = Some True then active_by d (pr_NodeID p) base else still_active r))"

definition waiting :: "string \<Rightarrow> RunRow list \<Rightarrow> live_nodes \<Rightarrow> deploymentRun \<Rightarrow> RunRow \<Rightarrow> bool" where
  "waiting d base live p r \<longleftrightarrow> rw_Status r = ''running'' \<and> rw_DryRun r = None
     \<and> ((d, pr_NodeID p) \<in> set live \<longrightarrow> active_by d (pr_NodeID p) base)"

definition elsewhere :: "rollout \<Rightarrow> RunRow list \<Rightarrow> live_nodes \<Rightarrow> bool" where
  "elsewhere o' base live \<longleftrightarrow> (\<forall>d n. (d, n) \<in> set live \<and> \<not> (d = dp_ID (ro_Deployment o') \<and> n \<in> pr_NodeID ` set (ro_Runs o'))
     \<longrightarrow> active_by d n base)"

definition under_way :: "rollout \<Rightarrow> RunRow list \<Rightarrow> job \<Rightarrow> tables \<Rightarrow> live_nodes \<Rightarrow> bool" where
  "under_way o' base j t live \<longleftrightarrow> jb_Rollout j = o' \<and> elsewhere o' base live
     \<and> (\<exists>called rows left.
          ro_Runs o' = called @ jb_Left j \<and> tb_runs t = base @ rows @ left
          \<and> list_all2 (row_for o') called rows \<and> list_all2 (row_for o') (jb_Left j) left
          \<and> list_all2 (covers_live (dp_ID (ro_Deployment o')) base live) called rows
          \<and> list_all2 (waiting (dp_ID (ro_Deployment o')) base live) (jb_Left j) left)"

text \<open>An endpoint tells the truth: an answer that is a dry run comes from no effect, another one from an effect.\<close>

definition honest :: "call_world \<Rightarrow> bool" where
  "honest w \<longleftrightarrow> (case en_Response (cw_endpoint w) of None \<Rightarrow> True | Some r \<Rightarrow> rp_DryRun r \<longleftrightarrow> \<not> en_Effect (cw_endpoint w))"

lemma call_answer:
  assumes "AgentClient_Reconcile ok url n f a e = (x, changed)"
  shows "(\<forall>r. x = Inr r \<longrightarrow> en_Response e = Some r \<and> changed = en_Effect e)"
  using assms by (auto simp: AgentClient_Reconcile_def split: if_splits option.splits)

text \<open>What a call does: to the row of its run, to the nodes, and to the job.\<close>

lemma call_cases:
  assumes "jb_Left j = p # rest" "reconcile_call w j t live = (t', live', j')" "honest w"
  obtains (failed) changed result e where "finishRun (cw_Tx w) (pr_ID p) False (Some ''failed'') (cw_Now w) t = (t', result)"
      "live' = call_effect (dp_ID (ro_Deployment (jb_Rollout j))) p changed live" "jb_Left j' = rest" "jb_Rollout j' = jb_Rollout j"
      "jb_Errors j' = jb_Errors j @ e" "e \<noteq> []"
  | (answered) dry result where "finishRun (cw_Tx w) (pr_ID p) dry None (cw_Now w) t = (t', result)"
      "live' = call_effect (dp_ID (ro_Deployment (jb_Rollout j))) p (\<not> dry) live" "jb_Left j' = rest" "jb_Rollout j' = jb_Rollout j"
      "(\<exists>x. result = Inr x) \<longleftrightarrow> jb_Errors j' = jb_Errors j" "(\<exists>e. jb_Errors j' = jb_Errors j @ e)"
      "\<exists>r. en_Response (cw_endpoint w) = Some r \<and> rp_DryRun r = dry"
proof -
  obtain x changed where c: "AgentClient_Reconcile (cw_timestamp_ok w)
      (cw_url w (node_address (ro_Fleet (jb_Rollout j)) (pr_NodeID p))) (pr_NodeID p) (run_fence j) (run_assignment j p) (cw_endpoint w) = (x, changed)"
    by fastforce
  show ?thesis
  proof (cases x)
    case (Inl e)
    show ?thesis
      using assms(1,2) Inl c
      by (auto simp: reconcile_call_def split: prod.splits intro: failed)
  next
    case (Inr r)
    note facts = call_answer[OF c, rule_format, OF Inr]
    have dry: "rp_DryRun r = (\<not> changed)" using facts assms(3) by (simp add: honest_def)
    show ?thesis
      using assms(1,2) Inr c facts dry
      by (auto simp: reconcile_call_def Let_def split: prod.splits sum.splits intro!: answered[of "rp_DryRun r"])
  qed
qed

text \<open>The identifiers of the rows: distinct, so that a run is finished in its own row.\<close>

definition ids_ok :: "(nat \<Rightarrow> string) \<Rightarrow> nat \<Rightarrow> RunRow list \<Rightarrow> bool" where
  "ids_ok uuid k rs \<longleftrightarrow> distinct (map rw_ID rs) \<and> rw_ID ` set rs \<subseteq> uuid ` {..<k}"

lemma effect_others: "n \<noteq> pr_NodeID p \<or> d' \<noteq> d \<Longrightarrow> (d', n) \<in> set (call_effect d p changed live) \<longleftrightarrow> (d', n) \<in> set live"
  by (auto simp: call_effect_def)

lemma list_all2_others:
  assumes "list_all2 P ps rs" "\<And>p r. p \<in> set ps \<Longrightarrow> P p r \<Longrightarrow> Q p r"
  shows "list_all2 Q ps rs"
  using assms by (induction rule: list_all2_induct) auto

lemma under_way_call:
  assumes way: "under_way o' base j t live" and call: "reconcile_call w j t live = (t', live', j')" and honest: "honest w"
    and begun: "begun uuid k su o'" and ids: "distinct (map rw_ID (tb_runs t))"
  shows "under_way o' base j' t' live'"
proof (cases "jb_Left j")
  case Nil
  then show ?thesis using way call by (simp add: reconcile_call_def)
next
  case (Cons p rest)
  let ?d = "dp_ID (ro_Deployment o')"
  obtain called rows r left where j: "jb_Rollout j = o'" and runs: "ro_Runs o' = called @ p # rest"
    and t: "tb_runs t = base @ rows @ r # left"
    and rf: "list_all2 (row_for o') called rows" "row_for o' p r" "list_all2 (row_for o') rest left"
    and cov: "list_all2 (covers_live ?d base live) called rows"
    and wait: "waiting ?d base live p r" "list_all2 (waiting ?d base live) rest left"
    and elsewhere: "elsewhere o' base live"
    using way Cons by (auto simp: under_way_def list_all2_Cons1)
  have nodes: "distinct (map pr_NodeID (ro_Runs o'))" using begun by (simp add: begun_def)
  have pid: "pr_ID p = rw_ID r" using rf(2) by (simp add: row_for_def)
  have fresh: "rw_ID r \<notin> rw_ID ` set (base @ rows)" "rw_ID r \<notin> rw_ID ` set left" using ids by (auto simp: t)
  have "pr_NodeID p \<notin> pr_NodeID ` (set called \<union> set rest)" using nodes by (auto simp: runs)
  then have other: "pr_NodeID q \<noteq> pr_NodeID p" if "q \<in> set called \<or> q \<in> set rest" for q
    using that by (metis UnI1 UnI2 imageI)
  have way': "under_way o' base j' t' live'"
    if left': "jb_Left j' = rest" "jb_Rollout j' = jb_Rollout j" and live': "live' = call_effect ?d p changed live"
      and r': "tb_runs t' = base @ rows @ r' # left" "row_for o' p r'" "covers_live ?d base live' p r'" for r' changed
  proof -
    have mem: "(?d, pr_NodeID q) \<in> set live' \<longleftrightarrow> (?d, pr_NodeID q) \<in> set live" if "q \<in> set called \<or> q \<in> set rest" for q
      unfolding live' by (rule effect_others) (use other[OF that] in blast)
    have 1: "list_all2 (covers_live ?d base live') called rows"
      by (rule list_all2_others[OF cov]) (use mem in \<open>simp add: covers_live_def\<close>)
    have 2: "list_all2 (waiting ?d base live') rest left"
      by (rule list_all2_others[OF wait(2)]) (use mem in \<open>simp add: waiting_def\<close>)
    have "elsewhere o' base live'"
      unfolding elsewhere_def
    proof (intro allI impI, elim conjE)
      fix d n assume a: "(d, n) \<in> set live'" "\<not> (d = ?d \<and> n \<in> pr_NodeID ` set (ro_Runs o'))"
      then have "n \<noteq> pr_NodeID p \<or> d \<noteq> ?d" by (auto simp: runs)
      then have "(d, n) \<in> set live" using a(1) effect_others[of n p d ?d changed live] by (simp add: live')
      then show "active_by d n base" using a(2) elsewhere by (auto simp: elsewhere_def)
    qed
    moreover have "list_all2 (row_for o') (called @ [p]) (rows @ [r'])"
      using rf(1) r'(2) by (intro list_all2_appendI) simp_all
    moreover have "list_all2 (covers_live ?d base live') (called @ [p]) (rows @ [r'])"
      using 1 r'(3) by (intro list_all2_appendI) simp_all
    ultimately show ?thesis
      using left' j rf(3) 2 unfolding under_way_def
      by (intro conjI exI[of _ "called @ [p]"] exI[of _ "rows @ [r']"] exI[of _ left]) (simp_all add: runs r'(1))
  qed
  show ?thesis
    using Cons call honest
  proof (cases rule: call_cases)
    case (failed changed result e)
    note eff = finish_effect[of t "base @ rows" r left, OF _ fresh, of "cw_Tx w" False "Some ''failed''" "cw_Now w" t' result]
    have "tb_runs t' = tb_runs t \<or> tb_runs t' = (base @ rows) @ finished False (Some ''failed'') (cw_Now w) r # left"
      using eff failed(1) t wait(1) pid by (auto simp: waiting_def)
    then obtain r' where "tb_runs t' = base @ rows @ r' # left" "r' = r \<or> r' = finished False (Some ''failed'') (cw_Now w) r"
      using t by auto
    moreover have "row_for o' p r'" "covers_live ?d base live' p r'"
      using calculation(2) rf(2) wait(1) by (auto simp: row_for_def covers_live_def waiting_def still_active_def finished_def)
    ultimately show ?thesis using way'[OF failed(3,4)] failed(2) j by blast
  next
    case (answered dry result)
    note eff = finish_effect[of t "base @ rows" r left, OF _ fresh, of "cw_Tx w" dry None "cw_Now w" t' result]
    have "tb_runs t' = tb_runs t \<or> tb_runs t' = (base @ rows) @ finished dry None (cw_Now w) r # left"
      using eff answered(1) t wait(1) pid by (auto simp: waiting_def)
    then obtain r' where r': "tb_runs t' = base @ rows @ r' # left" "r' = r \<or> r' = finished dry None (cw_Now w) r"
      using t by auto
    have "row_for o' p r'" using r'(2) rf(2) by (auto simp: row_for_def finished_def)
    moreover have "covers_live ?d base live' p r'"
    proof (cases dry)
      case True
      then have "live' = live" using answered(2) by (simp add: call_effect_def)
      then show ?thesis using r'(2) wait(1) True by (auto simp: covers_live_def waiting_def still_active_def finished_def)
    next
      case False
      then have live': "live' = (if pr_DesiredState p = DesiredStateStopped then filter (\<lambda>x. x \<noteq> (?d, pr_NodeID p)) live
                       else (?d, pr_NodeID p) # live)" using answered(2) j by (simp add: call_effect_def)
      have "pr_DesiredState p \<in> {DesiredStateRunning, DesiredStateStopped}"
        using begun by (simp add: begun_def runs)
      then show ?thesis using r'(2) wait(1) rf(2) False
        by (auto simp: live' covers_live_def waiting_def still_active_def finished_def row_for_def DesiredStateRunning_def DesiredStateStopped_def)
    qed
    ultimately show ?thesis using way'[OF answered(3,4) _ r'(1), of "\<not> dry"] answered(2) j by blast
  qed
qed

subsection \<open>A life of Core\<close>

lemma row_for_ids: "list_all2 (row_for o') ps rs \<Longrightarrow> map rw_ID rs = map pr_ID ps"
  by (induction rule: list_all2_induct) (auto simp: row_for_def)

lemma under_way_ids: "under_way o' base j t live \<Longrightarrow> map rw_ID (tb_runs t) = map rw_ID base @ map pr_ID (ro_Runs o')"
  by (auto simp: under_way_def dest!: row_for_ids)

lemma under_way_calls:
  assumes "under_way o' base j t live" "reconcile_calls ws j t live = (t', live', j')" "list_all honest ws"
    and "begun uuid k su o'" "distinct (map rw_ID base @ map pr_ID (ro_Runs o'))"
  shows "under_way o' base j' t' live'"
  using assms(1-3)
proof (induction ws arbitrary: j t live)
  case (Cons w ws)
  obtain t1 live1 j1 where c: "reconcile_call w j t live = (t1, live1, j1)" by (cases "reconcile_call w j t live") auto
  have "distinct (map rw_ID (tb_runs t))" using under_way_ids[OF Cons.prems(1)] assms(5) by simp
  then have "under_way o' base j1 t1 live1" using under_way_call[OF Cons.prems(1) c _ assms(4)] Cons.prems(3) by simp
  then show ?case using Cons.IH Cons.prems(2,3) c by simp
qed simp

text \<open>What is under way covers_live the nodes: the rows of the rollout are the latest of their nodes.\<close>

lemma attempts_of_rows:
  assumes "list_all2 (row_for o') ps rows" "distinct (map pr_NodeID ps)"
  shows "attempts_on d n rows = [] \<and> \<not> (d = dp_ID (ro_Deployment o') \<and> n \<in> pr_NodeID ` set ps)
    \<or> (\<exists>p r. attempts_on d n rows = [r] \<and> d = dp_ID (ro_Deployment o') \<and> n = pr_NodeID p \<and> p \<in> set ps \<and> (p, r) \<in> set (zip ps rows))"
  using assms
proof (induction rule: list_all2_induct)
  case (Cons p ps r rows)
  then show ?case by (auto simp: attempts_on_def row_for_def)
qed (simp add: attempts_on_def)

lemma zip_list_all2: "list_all2 P xs ys \<Longrightarrow> (x, y) \<in> set (zip xs ys) \<Longrightarrow> P x y"
  by (auto simp: list_all2_iff)

definition covered :: "RunRow list \<Rightarrow> live_nodes \<Rightarrow> bool" where
  "covered rs live \<longleftrightarrow> (\<forall>d n. (d, n) \<in> set live \<longrightarrow> active_by d n rs)"

lemma under_way_covered:
  assumes way: "under_way o' base j t live" and begun: "begun uuid k su o'"
  shows "covered (tb_runs t) live"
  unfolding covered_def
proof (intro allI impI)
  fix d n assume live: "(d, n) \<in> set live"
  let ?d = "dp_ID (ro_Deployment o')"
  obtain called rows left where runs: "ro_Runs o' = called @ jb_Left j" and t: "tb_runs t = base @ rows @ left"
    and rf: "list_all2 (row_for o') called rows" "list_all2 (row_for o') (jb_Left j) left"
    and cov: "list_all2 (covers_live ?d base live) called rows" "list_all2 (waiting ?d base live) (jb_Left j) left"
    and el: "elsewhere o' base live"
    using way by (auto simp: under_way_def)
  have "list_all2 (covers_live ?d base live) (jb_Left j) left"
    by (rule list_all2_others[OF cov(2)]) (auto simp: waiting_def covers_live_def still_active_def)
  then have cov': "list_all2 (covers_live ?d base live) (ro_Runs o') (rows @ left)"
    using cov(1) by (simp add: runs list_all2_appendI)
  have "list_all2 (row_for o') (ro_Runs o') (rows @ left)" using rf by (simp add: runs list_all2_appendI)
  then consider (none) "attempts_on d n (rows @ left) = []" "\<not> (d = ?d \<and> n \<in> pr_NodeID ` set (ro_Runs o'))"
    | (one) p r where "attempts_on d n (rows @ left) = [r]" "d = ?d" "n = pr_NodeID p" "(p, r) \<in> set (zip (ro_Runs o') (rows @ left))"
    using attempts_of_rows[of o' "ro_Runs o'" "rows @ left" d n] begun by (auto simp: begun_def)
  then show "active_by d n (tb_runs t)"
  proof cases
    case none
    then show ?thesis using el live active_none[OF none(1), of base] by (auto simp: t elsewhere_def)
  next
    case one
    have "covers_live ?d base live p r" by (rule zip_list_all2[OF cov' one(4)])
    then show ?thesis using active_snoc[OF one(1), of base] live one(2,3) by (auto simp: t covers_live_def)
  qed
qed

lemma rows_chronological:
  assumes "list_all2 (row_for o') ps rows" "distinct (map pr_NodeID ps)"
    and "chronological (attempts_on d n base)" "\<And>r. r \<in> set base \<Longrightarrow> rw_RequestedAt r < ro_At o'"
  shows "chronological (attempts_on d n (base @ rows))"
  using attempts_of_rows[OF assms(1,2), of d n]
proof (elim disjE exE conjE)
  fix p r assume one: "attempts_on d n rows = [r]" "(p, r) \<in> set (zip ps rows)"
  then have "rw_RequestedAt r = ro_At o'" using zip_list_all2[OF assms(1)] by (simp add: row_for_def)
  then show ?thesis using assms(3,4) one(1)
    by (auto simp: chronological_def sorted_wrt_append attempts_on_def)
qed (use assms(3) in simp)

definition core_ok :: "(nat \<Rightarrow> string) \<Rightarrow> time set \<Rightarrow> core \<Rightarrow> bool" where
  "core_ok uuid stamps c \<longleftrightarrow> ids_ok uuid (co_uuids c) (tb_runs (co_tables c))
     \<and> (\<forall>d n. chronological (attempts_on d n (tb_runs (co_tables c))))
     \<and> rw_RequestedAt ` set (tb_runs (co_tables c)) \<subseteq> stamps \<and> covered (tb_runs (co_tables c)) (co_live c)"

lemma row_for_times: "list_all2 (row_for o') ps rs \<Longrightarrow> r \<in> set rs \<Longrightarrow> rw_RequestedAt r = ro_At o'"
  by (induction rule: list_all2_induct) (auto simp: row_for_def)

lemma plan_ids_fresh:
  assumes "inj uuid" "plan_ids uuid k runs" "ids_ok uuid k base"
  shows "distinct (map rw_ID base @ map pr_ID runs)" "rw_ID ` set base \<union> pr_ID ` set runs \<subseteq> uuid ` {..<k + length runs + 1}"
proof -
  have m: "map pr_ID runs = map uuid [k..<k + length runs]" using assms(2) by (simp add: plan_ids_def)
  have s: "pr_ID ` set runs = uuid ` {k..<k + length runs}"
    using arg_cong[OF m, of set] by (simp add: image_set[symmetric])
  have "distinct (map pr_ID runs)" unfolding m using assms(1) by (simp add: distinct_map inj_on_subset[OF assms(1)])
  moreover have "uuid ` {..<k} \<inter> uuid ` {k..<k + length runs} = {}" using assms(1) by (auto dest: injD)
  moreover have "rw_ID ` set base \<subseteq> uuid ` {..<k}" using assms(3) by (simp add: ids_ok_def)
  ultimately have "rw_ID ` set base \<inter> pr_ID ` set runs = {}" unfolding s by blast
  then show "distinct (map rw_ID base @ map pr_ID runs)"
    using assms(3) \<open>distinct (map pr_ID runs)\<close> by (simp add: ids_ok_def)
  show "rw_ID ` set base \<union> pr_ID ` set runs \<subseteq> uuid ` {..<k + length runs + 1}" using assms(3) s by (auto simp: ids_ok_def)
qed

lemma under_way_ok:
  assumes way: "under_way o' (tb_runs (co_tables c)) j t live" and begun: "begun uuid (co_uuids c) su o'"
    and ok: "core_ok uuid stamps c" and inj: "inj uuid" and clock: "\<And>x. x \<in> stamps \<Longrightarrow> x < su_Now su"
  shows "core_ok uuid (insert (su_Now su) stamps) (c\<lparr>co_tables := t, co_live := live, co_uuids := co_uuids c + length (ro_Runs o') + 1\<rparr>)"
proof -
  let ?base = "tb_runs (co_tables c)"
  obtain rows where t: "tb_runs t = ?base @ rows" and rf: "list_all2 (row_for o') (ro_Runs o') rows"
  proof -
    obtain called rows left where "ro_Runs o' = called @ jb_Left j" "tb_runs t = ?base @ rows @ left"
      "list_all2 (row_for o') called rows" "list_all2 (row_for o') (jb_Left j) left"
      using way by (auto simp: under_way_def)
    then show ?thesis using that[of "rows @ left"] by (simp add: list_all2_appendI)
  qed
  have "chronological (attempts_on d n (tb_runs t))" for d n
    unfolding t
  proof (rule rows_chronological[OF rf])
    show "distinct (map pr_NodeID (ro_Runs o'))" using begun by (simp add: begun_def)
    show "chronological (attempts_on d n ?base)" using ok by (simp add: core_ok_def)
    show "rw_RequestedAt r < ro_At o'" if "r \<in> set ?base" for r using that ok clock begun by (auto simp: core_ok_def begun_def)
  qed
  moreover have "rw_RequestedAt ` set (tb_runs t) \<subseteq> insert (su_Now su) stamps"
    using ok row_for_times[OF rf] begun by (auto simp: t core_ok_def begun_def)
  moreover have "covered (tb_runs t) live" by (rule under_way_covered[OF way begun])
  moreover have "ids_ok uuid (co_uuids c + length (ro_Runs o') + 1) (tb_runs t)"
  proof -
    have ids: "ids_ok uuid (co_uuids c) ?base" and p: "plan_ids uuid (co_uuids c) (ro_Runs o')"
      using ok begun by (auto simp: core_ok_def begun_def)
    have m: "map rw_ID (tb_runs t) = map rw_ID ?base @ map pr_ID (ro_Runs o')" using t row_for_ids[OF rf] by simp
    have "rw_ID ` set (tb_runs t) = rw_ID ` set ?base \<union> pr_ID ` set (ro_Runs o')"
      using arg_cong[OF m, of set] by simp
    then show ?thesis using plan_ids_fresh[OF inj p ids] m by (simp add: ids_ok_def)
  qed
  ultimately show ?thesis by (simp add: core_ok_def)
qed

lemma new_job_under_way:
  assumes "tb_runs t = base @ map (run_row o') (ro_Runs o')" "covered base live"
  shows "under_way o' base (new_job o' a x) t live"
proof -
  have "list_all2 (row_for o') ps (map (run_row o') ps)" for ps by (induction ps) (auto simp: row_for_def run_row_def)
  moreover have "list_all2 (waiting (dp_ID (ro_Deployment o')) base live) ps (map (run_row o') ps)" for ps
    using assms(2) by (induction ps) (auto simp: waiting_def run_row_def covered_def)
  ultimately show ?thesis using assms by (auto simp: under_way_def new_job_def elsewhere_def covered_def)
qed

lemma ids_ok_mono: "ids_ok uuid k rs \<Longrightarrow> k \<le> k' \<Longrightarrow> ids_ok uuid k' rs"
  by (force simp: ids_ok_def)

lemma core_ok_mono: "core_ok uuid stamps c \<Longrightarrow> stamps \<subseteq> stamps' \<Longrightarrow> co_uuids c \<le> k
    \<Longrightarrow> core_ok uuid stamps' (c\<lparr>co_uuids := k\<rparr>)"
  by (auto simp: core_ok_def intro: ids_ok_mono)

lemma core_reconcile_ok:
  assumes ok: "core_ok uuid stamps c" and inj: "inj uuid" and clock: "\<And>x. x \<in> stamps \<Longrightarrow> x < su_Now su" and ws: "list_all honest ws"
  shows "core_ok uuid (insert (su_Now su) stamps) (core_turn uuid (CoreReconcile su i expected ws) c)"
proof -
  obtain t k x where b: "reconcile_begin uuid (co_uuids c) su i expected (co_tables c) = (t, k, x)" by (metis prod_cases3)
  from b show ?thesis
  proof (cases rule: begin_cases)
    case (nothing e)
    then show ?thesis using core_ok_mono[OF ok, of "insert (su_Now su) stamps" "co_uuids c"] b by (simp add: subset_insertI)
  next
    case (tried o' a r)
    have base: "covered (tb_runs (co_tables c)) (co_live c)" using ok by (simp add: core_ok_def)
    show ?thesis
    proof (cases r)
      case (Inl e)
      have "t = co_tables c \<or> tb_runs t = tb_runs (co_tables c) @ map (run_row o') (ro_Runs o')" using WithTx_runs[OF tried(4)] .
      then show ?thesis
      proof
        assume "t = co_tables c"
        then show ?thesis using core_ok_mono[OF ok, of "insert (su_Now su) stamps" k] b tried(3,5) Inl by (simp add: subset_insertI)
      next
        assume "tb_runs t = tb_runs (co_tables c) @ map (run_row o') (ro_Runs o')"
        then show ?thesis
          using under_way_ok[OF new_job_under_way[OF _ base] tried(2) ok inj clock] b tried(3,5) Inl by simp
      qed
    next
      case (Inr x')
      obtain t' live' j' where calls: "reconcile_calls ws (new_job o' a x') t (co_live c) = (t', live', j')" by (metis prod_cases3)
      have rows: "tb_runs t = tb_runs (co_tables c) @ map (run_row o') (ro_Runs o')" using WithTx_Inr_runs tried(4) Inr by blast
      have ids: "distinct (map rw_ID (tb_runs (co_tables c)) @ map pr_ID (ro_Runs o'))"
        using plan_ids_fresh(1)[OF inj, of "co_uuids c" "ro_Runs o'" "tb_runs (co_tables c)"] tried(2) ok by (simp add: begun_def core_ok_def)
      have "under_way o' (tb_runs (co_tables c)) j' t' live'"
        by (rule under_way_calls[OF new_job_under_way[OF rows base] calls ws tried(2) ids])
      then show ?thesis using under_way_ok[OF _ tried(2) ok inj clock] b tried(3,5) Inr calls by simp
    qed
  qed
qed

text \<open>A restart changes no more than the status of a run.\<close>

lemma attempts_map:
  assumes "\<And>r. rw_DeploymentID (f r) = rw_DeploymentID r \<and> rw_NodeID (f r) = rw_NodeID r"
  shows "attempts_on d n (map f rs) = map f (attempts_on d n rs)"
  using assms by (induction rs) (simp_all add: attempts_on_def)

lemma core_restart_ok:
  assumes "core_ok uuid stamps c"
  shows "core_ok uuid stamps (core_turn uuid (CoreRestart now) c)"
proof -
  define f :: "RunRow \<Rightarrow> RunRow" where "f = (\<lambda>r. if rw_Status r = ''running''
    then r\<lparr>rw_Status := ''failed'', rw_FinishedAt := Some now,
           rw_Error := Some ''CandaceOS Core restarted before the node outcome was recorded''\<rparr> else r)"
  have f: "rw_DeploymentID (f r) = rw_DeploymentID r" "rw_NodeID (f r) = rw_NodeID r" "rw_ID (f r) = rw_ID r"
    "rw_RequestedAt (f r) = rw_RequestedAt r" "rw_DryRun (f r) = rw_DryRun r" "still_active (f r) = still_active r" for r
    by (simp_all add: f_def still_active_def)
  have t: "tb_runs (co_tables (core_turn uuid (CoreRestart now) c)) = map f (tb_runs (co_tables c))"
    by (simp add: FailInterruptedDeploymentRuns_def f_def)
  have att: "attempts_on d n (map f rs) = map f (attempts_on d n rs)" for d n rs by (rule attempts_map) (simp add: f)
  have "chronological (map f rs) \<longleftrightarrow> chronological rs" for rs by (simp add: chronological_def sorted_wrt_map f)
  moreover have "live_attempts d n (map f rs) = map f (live_attempts d n rs)" for d n rs
    unfolding live_attempts_on att by (simp add: filter_map comp_def f)
  then have "active_by d n (map f rs) \<longleftrightarrow> active_by d n rs" for d n rs
    by (cases "live_attempts d n rs = []") (simp_all add: active_by_def last_map f)
  ultimately show ?thesis
    using assms unfolding core_ok_def t by (simp add: att covered_def ids_ok_def comp_def f image_image)
qed

fun instants :: "core_input list \<Rightarrow> time list" where
  "instants [] = []"
| "instants (CoreReconcile su i expected ws # rest) = su_Now su # instants rest"
| "instants (CoreRestart now # rest) = instants rest"

fun truthful :: "core_input \<Rightarrow> bool" where
  "truthful (CoreReconcile su i expected ws) = list_all honest ws"
| "truthful (CoreRestart now) = True"

lemma fold_core_ok:
  assumes "core_ok uuid stamps c" "inj uuid" "sorted_wrt (<) (instants inputs)" "list_all truthful inputs"
    and "\<And>x y. x \<in> stamps \<Longrightarrow> y \<in> set (instants inputs) \<Longrightarrow> x < y"
  shows "core_ok uuid (stamps \<union> set (instants inputs)) (fold (core_turn uuid) inputs c)"
  using assms
proof (induction inputs arbitrary: stamps c)
  case (Cons a inputs)
  show ?case
  proof (cases a)
    case (CoreReconcile su i expected ws)
    have "core_ok uuid (insert (su_Now su) stamps) (core_turn uuid a c)"
      unfolding CoreReconcile by (rule core_reconcile_ok[OF Cons.prems(1,2)]) (use Cons.prems(4,5) in \<open>auto simp: CoreReconcile\<close>)
    from Cons.IH[OF this Cons.prems(2)] Cons.prems(3-5) show ?thesis by (auto simp: CoreReconcile)
  next
    case (CoreRestart now)
    show ?thesis using Cons.IH[OF core_restart_ok[OF Cons.prems(1)] Cons.prems(2)] Cons.prems(3-5) by (simp add: CoreRestart)
  qed
qed simp

lemma core_run_ok:
  assumes "inj uuid" "sorted_wrt (<) (instants inputs)" "list_all truthful inputs"
  shows "core_ok uuid (set (instants inputs)) (core_run uuid inputs)"
proof -
  have "core_ok uuid {} \<lparr>co_tables = no_tables, co_live = [], co_uuids = 0\<rparr>"
    by (simp add: core_ok_def ids_ok_def no_tables_def chronological_def attempts_on_def covered_def)
  from fold_core_ok[OF this assms] show ?thesis by (simp add: core_run_def)
qed

subsection \<open>A rollout that succeeds\<close>

definition answers_live :: "call_world \<Rightarrow> bool" where
  "answers_live w \<longleftrightarrow> honest w \<and> (case en_Response (cw_endpoint w) of None \<Rightarrow> True | Some r \<Rightarrow> \<not> rp_DryRun r)"

definition run_settled :: "RunRow \<Rightarrow> bool" where
  "run_settled r \<longleftrightarrow> rw_Status r = ''succeeded'' \<and> rw_DryRun r = Some False"

definition settling :: "rollout \<Rightarrow> RunRow list \<Rightarrow> job \<Rightarrow> tables \<Rightarrow> bool" where
  "settling o' base j t \<longleftrightarrow> jb_Rollout j = o'
     \<and> (\<exists>called rows left. ro_Runs o' = called @ jb_Left j \<and> tb_runs t = base @ rows @ left
          \<and> list_all2 (row_for o') called rows \<and> list_all2 (row_for o') (jb_Left j) left
          \<and> list_all (\<lambda>r. rw_Status r = ''running'') left \<and> (jb_Errors j = [] \<longrightarrow> list_all run_settled rows))"

lemma settling_call:
  assumes way: "settling o' base j t" and call: "reconcile_call w j t live = (t', live', j')" and live: "answers_live w"
    and ids: "distinct (map rw_ID (tb_runs t))"
  shows "settling o' base j' t'"
proof (cases "jb_Left j")
  case Nil
  then show ?thesis using way call by (simp add: reconcile_call_def)
next
  case (Cons p rest)
  obtain called rows r left where j: "jb_Rollout j = o'" and runs: "ro_Runs o' = called @ p # rest"
    and t: "tb_runs t = base @ rows @ r # left"
    and rf: "list_all2 (row_for o') called rows" "row_for o' p r" "list_all2 (row_for o') rest left"
    and run: "rw_Status r = ''running''" "list_all (\<lambda>r. rw_Status r = ''running'') left"
    and set: "jb_Errors j = [] \<longrightarrow> list_all run_settled rows"
    using way Cons by (auto simp: settling_def list_all2_Cons1)
  have pid: "pr_ID p = rw_ID r" using rf(2) by (simp add: row_for_def)
  have fresh: "rw_ID r \<notin> rw_ID ` set (base @ rows)" "rw_ID r \<notin> rw_ID ` set left" using ids by (auto simp: t)
  have way': "settling o' base j' t'"
    if "jb_Left j' = rest" "jb_Rollout j' = jb_Rollout j" "tb_runs t' = base @ rows @ r' # left" "row_for o' p r'"
      "jb_Errors j' = [] \<longrightarrow> jb_Errors j = [] \<and> run_settled r'" for r'
    using that j rf run(2) set unfolding settling_def
    by (intro conjI exI[of _ "called @ [p]"] exI[of _ "rows @ [r']"] exI[of _ left]) (auto simp: runs list_all2_appendI)
  have h: "honest w" using live by (simp add: answers_live_def)
  show ?thesis
    using Cons call h
  proof (cases rule: call_cases)
    case (failed changed result e)
    have "tb_runs t' = tb_runs t \<or> tb_runs t' = (base @ rows) @ finished False (Some ''failed'') (cw_Now w) r # left"
      using finish_effect[of t "base @ rows" r left, OF _ fresh run(1), of "cw_Tx w" False "Some ''failed''" "cw_Now w" t' result]
        failed(1) t pid by auto
    then show ?thesis using way'[OF failed(3,4), of r] way'[OF failed(3,4), of "finished False (Some ''failed'') (cw_Now w) r"] t rf(2) failed(5,6)
      by (auto simp: row_for_def finished_def)
  next
    case (answered dry result)
    have dry: "\<not> dry" using answered(7) live by (auto simp: answers_live_def)
    have "tb_runs t' = tb_runs t \<and> (\<nexists>x. result = Inr x) \<or> tb_runs t' = (base @ rows) @ finished False None (cw_Now w) r # left"
      using finish_effect[of t "base @ rows" r left, OF _ fresh run(1), of "cw_Tx w" dry None "cw_Now w" t' result]
        answered(1) t pid dry by auto
    moreover have "jb_Errors j' = [] \<longrightarrow> jb_Errors j = [] \<and> (\<exists>x. result = Inr x)" using answered(5,6) by auto
    ultimately show ?thesis using way'[OF answered(3,4), of r] way'[OF answered(3,4), of "finished False None (cw_Now w) r"] t rf(2)
      by (auto simp: row_for_def finished_def run_settled_def)
  qed
qed

lemma settling_ids: "settling o' base j t \<Longrightarrow> map rw_ID (tb_runs t) = map rw_ID base @ map pr_ID (ro_Runs o')"
  by (auto simp: settling_def dest!: row_for_ids)

lemma settling_calls:
  assumes "settling o' base j t" "reconcile_calls ws j t live = (t', live', j')" "list_all answers_live ws"
    and "distinct (map rw_ID base @ map pr_ID (ro_Runs o'))"
  shows "settling o' base j' t'"
  using assms(1-3)
proof (induction ws arbitrary: j t live)
  case (Cons w ws)
  obtain t1 live1 j1 where c: "reconcile_call w j t live = (t1, live1, j1)" by (cases "reconcile_call w j t live") auto
  have "distinct (map rw_ID (tb_runs t))" using settling_ids[OF Cons.prems(1)] assms(4) by simp
  then have "settling o' base j1 t1" using settling_call[OF Cons.prems(1) c] Cons.prems(3) by simp
  then show ?case using Cons.IH Cons.prems(2,3) c by simp
qed simp

lemma new_job_settling:
  assumes "tb_runs t = base @ map (run_row o') (ro_Runs o')"
  shows "settling o' base (new_job o' a x) t"
proof -
  have "list_all2 (row_for o') ps (map (run_row o') ps)" for ps by (induction ps) (auto simp: row_for_def run_row_def)
  then show ?thesis using assms by (auto simp: settling_def new_job_def list_all_iff run_row_def)
qed

text \<open>After it, the nodes that may be active are those that were to run.\<close>

lemma settled_active:
  assumes rf: "list_all2 (row_for o') (ro_Runs o') rows" and s: "list_all run_settled rows" and begun: "begun uuid k su o'"
    and runs: "ro_Runs o' = planDeploymentRuns uuid k active targets" and base: "\<And>n. active_by (dp_ID (ro_Deployment o')) n base \<Longrightarrow> n \<in> set active"
  shows "active_by (dp_ID (ro_Deployment o')) n (base @ rows) \<longleftrightarrow> n \<in> set targets"
proof -
  let ?d = "dp_ID (ro_Deployment o')"
  have steps: "set (map (\<lambda>p. (pr_NodeID p, pr_DesiredState p)) (ro_Runs o'))
      = (\<lambda>n. (n, DesiredStateRunning)) ` set targets \<union> (\<lambda>n. (n, DesiredStateStopped)) ` (set active - set targets)"
    unfolding runs plan_runs_steps by auto
  consider (none) "attempts_on ?d n rows = []" "n \<notin> pr_NodeID ` set (ro_Runs o')"
    | (one) p r where "attempts_on ?d n rows = [r]" "n = pr_NodeID p" "p \<in> set (ro_Runs o')" "(p, r) \<in> set (zip (ro_Runs o') rows)"
    using attempts_of_rows[OF rf, of ?d n] begun by (auto simp: begun_def)
  then show ?thesis
  proof cases
    case none
    have "pr_NodeID ` set (ro_Runs o') = fst ` set (map (\<lambda>p. (pr_NodeID p, pr_DesiredState p)) (ro_Runs o'))" by (simp add: image_image)
    also have "\<dots> = set targets \<union> (set active - set targets)" unfolding steps by (simp add: image_Un image_image)
    finally have "n \<notin> set active \<union> set targets" using none(2) by blast
    then show ?thesis using active_none[OF none(1), of base] base by auto
  next
    case one
    have "r \<in> set rows" using one(4) by (rule set_zip_rightD)
    then have r: "rw_Status r = ''succeeded''" "rw_DryRun r = Some False" using s by (auto simp: run_settled_def list_all_iff)
    have want: "rw_DesiredState r = pr_DesiredState p" using zip_list_all2[OF rf one(4)] by (simp add: row_for_def)
    have "(n, pr_DesiredState p) \<in> set (map (\<lambda>p. (pr_NodeID p, pr_DesiredState p)) (ro_Runs o'))" using one(2,3) by force
    then have "pr_DesiredState p = DesiredStateRunning \<and> n \<in> set targets \<or> pr_DesiredState p = DesiredStateStopped \<and> n \<notin> set targets"
      unfolding steps by blast
    then have "still_active r \<longleftrightarrow> n \<in> set targets"
      using r(1) by (auto simp: still_active_def want DesiredStateRunning_def DesiredStateStopped_def)
    then show ?thesis using active_snoc[OF one(1), of base] r(2) by simp
  qed
qed

subsection \<open>Properties\<close>

text \<open>
  C5. No node is forgotten. Over every life of Core, with intents, fleets, transactions that fail or
  commit without an answer, agents that fail before or after they acted, dry runs, crashes between
  any two calls and restarts, a node on which a deployment may be running is listed as possibly
  active, so that the next stop reaches it; as long as rollouts follow one another and the clock
  goes forward between them.
\<close>

theorem nothing_forgotten:
  assumes "inj uuid" "sorted_wrt (<) (instants inputs)" "list_all truthful inputs"
    and "(d, n) \<in> set (co_live (core_run uuid inputs))"
  shows "n \<in> set (ListPossiblyActiveDeploymentNodes d (co_tables (core_run uuid inputs)))"
proof -
  have "core_ok uuid (set (instants inputs)) (core_run uuid inputs)" by (rule core_run_ok[OF assms(1-3)])
  then show ?thesis
    using assms(4) by (simp add: core_ok_def covered_def listed_active possibly_active_by)
qed


subsection \<open>A deployment\<close>

definition demo_uuid :: "nat \<Rightarrow> string" where
  "demo_uuid n = replicate n CHR ''u''"

definition demo_sha :: string where "demo_sha = replicate 40 CHR ''a''"
definition demo_tree_digest :: string where "demo_tree_digest = ''sha256:'' @ replicate 64 CHR ''b''"

definition demo_workspace :: workspace_view where
  "demo_workspace = \<lparr>ws_inside = (\<lambda>p. True), ws_status = (\<lambda>p. Some []), ws_head = Some (demo_sha @ [CHR 0x0A]),
     ws_materialize = (\<lambda>sha p. Some (demo_tree_digest, \<lambda>name. name = ''compose.yaml'')), ws_remote = None, ws_strip = (\<lambda>u. u)\<rparr>"

definition demo_fleet :: FleetSnapshot where
  "demo_fleet = zeroFleet\<lparr>ft_Self := ''n1'', ft_LeaderID := ''n1'', ft_Term := 1, ft_Authoritative := True, ft_HasQuorum := True,
     ft_Nodes := [\<lparr>fl_ID = ''n1'', fl_Name = ''n1'', fl_Role = ''leader'', fl_Status = ''alive'', fl_Address = ''n1:7000'', fl_LastSeen = 1\<rparr>]\<rparr>"

definition demo_surroundings :: "time \<Rightarrow> surroundings" where
  "demo_surroundings now = \<lparr>su_Workspace = demo_workspace, su_Labels = [], su_Fleet = demo_fleet, su_Read = True, su_Tx = TxOk, su_Now = now\<rparr>"

definition demo_intent :: "int \<Rightarrow> ReconcileIntent" where
  "demo_intent state = \<lparr>ri_App = ''web'', ri_Project = ''shop'', ri_Path = ''apps/web'', ri_DesiredState = state,
     ri_PlacementMode = MODE_LEADER, ri_NodeId = [], ri_Labels = [], ri_Replicas = 0, ri_Stateful = False\<rparr>"

definition demo_call :: "int \<Rightarrow> call_world" where
  "demo_call state = \<lparr>cw_timestamp_ok = (\<lambda>t. True), cw_url = (\<lambda>a. Some a),
     cw_endpoint = \<lparr>en_Health = Some (''ok'', ''n1''), en_Effect = True,
       en_Response = Some \<lparr>rp_Fence = Some \<lparr>fn_Term = 1, fn_LeaderId = ''n1''\<rparr>,
         rp_Assignment = Some \<lparr>as_App = ''web'', as_Project = ''shop'', as_Path = ''apps/web'', as_DesiredState = state,
                              as_SourceRevision = demo_sha, as_ContentSha256 = demo_tree_digest\<rparr>,
         rp_DryRun = False, rp_Commands = [], rp_UpdatedAt = Some 5\<rparr>\<rparr>,
     cw_Tx = TxOk, cw_Now = 6\<rparr>"

definition demo_rollouts :: "core_input list" where
  "demo_rollouts = [CoreReconcile (demo_surroundings 100) (demo_intent STATE_RUNNING) None [demo_call STATE_RUNNING], CoreRestart 150]"

lemma demo_runs: "(''shop'', ''n1'') \<in> set (co_live (core_run demo_uuid demo_rollouts))"
  by code_simp

theorem nothing_forgotten_witness:
  "''n1'' \<in> set (ListPossiblyActiveDeploymentNodes ''shop'' (co_tables (core_run demo_uuid demo_rollouts)))"
proof (rule nothing_forgotten[OF _ _ _ demo_runs])
  show "inj demo_uuid" by (rule injI) (simp add: demo_uuid_def replicate_eq_replicate)
  show "sorted_wrt (<) (instants demo_rollouts)" by (simp add: demo_rollouts_def)
  show "list_all truthful demo_rollouts" by (simp add: demo_rollouts_def honest_def demo_call_def)
qed

text \<open>The deployment is stopped at 200, after it had been started at 100 and Core restarted at 150.\<close>

definition demo_stop :: "tables \<times> nat \<times> (rc_err + job)" where
  "demo_stop = (let c = core_run demo_uuid demo_rollouts in
     reconcile_begin demo_uuid (co_uuids c) (demo_surroundings 200) (demo_intent STATE_STOPPED) None (co_tables c))"

definition demo_stopped :: "tables \<times> live_nodes \<times> job" where
  "demo_stopped = reconcile_calls [demo_call STATE_STOPPED] (projr (snd (snd demo_stop))) (fst demo_stop) (co_live (core_run demo_uuid demo_rollouts))"

lemma demo_stop_facts:
  "\<not> isl (snd (snd demo_stop))" "jb_Left (snd (snd demo_stopped)) = []" "jb_Errors (snd (snd demo_stopped)) = []"
  "dp_DesiredState (ro_Deployment (jb_Rollout (projr (snd (snd demo_stop))))) \<noteq> DesiredStateRunning"
  "dp_ID (ro_Deployment (jb_Rollout (projr (snd (snd demo_stop))))) = ''shop''"
  by code_simp+


definition demo_race :: "tables \<times> live_nodes \<times> rc_err list \<times> tables \<times> deploymentRun list" where
  "demo_race =
     (case reconcile_begin demo_uuid 0 (demo_surroundings 100) (demo_intent STATE_RUNNING) None no_tables of (t, k, r1) \<Rightarrow>
      case reconcile_begin demo_uuid k (demo_surroundings 200) (demo_intent STATE_STOPPED) None t of (t, k, r2) \<Rightarrow>
      case reconcile_call (demo_call STATE_STOPPED) (projr r2) t [] of (t, live, j2) \<Rightarrow>
      case reconcile_call (demo_call STATE_RUNNING) (projr r1) t live of (t, live, j1) \<Rightarrow>
      case reconcile_begin demo_uuid k (demo_surroundings 300) (demo_intent STATE_STOPPED) None t of (t', k, r3) \<Rightarrow>
        (t, live, snd (reconcile_end j1) @ snd (reconcile_end j2), t', jb_Left (projr r3)))"


end
