(* ===== verification/Os_Gate.thy ===== *)
theory Os_Gate
  imports Os_Reconcile Watchdog_Sound
begin

text \<open>
  Warden and CandaceOS Core together: the gate of the write path of Core on the view a Warden leader
  serves, against the test by which this leader itself guards the removal of voters.
\<close>

subsection \<open>What Core counts\<close>

lemma online_leader_view:
  fixes m :: "'st Manager"
  assumes "wf_members m"
  shows "length (filter (\<lambda>p. node_ID (pv_Node p) \<in> node_ID ` set (mb_Voters (membership m)) \<and> pv_Status p = ''alive'') (cv_Peers (leaderView m now)))
    = length (filter (\<lambda>n. node_ID n = node_ID (self m) \<or> leaderPeerStatus m now (map_get 0 (lastContact m) (node_ID n)) = StatusAlive)
        (mb_Voters (membership m)))"
proof -
  let ?vs = "mb_Voters (membership m)"
  let ?P = "\<lambda>p. node_ID (pv_Node p) \<in> node_ID ` set ?vs \<and> pv_Status p = ''alive''"
  have "node_ID (cd_node c) \<notin> node_ID ` set ?vs" if "(i, c) \<in> set (candidates m)" for i c
    using assms that unfolding wf_members_def isVoter_def HasVoter_iff by metis
  then have "filter ?P (candidateRows m now) = []"
    by (fastforce simp: candidateRows_def filter_empty_conv split: if_splits)
  moreover have "filter (?P \<circ> leaderVoterRow m now) ?vs
      = filter (\<lambda>n. node_ID n = node_ID (self m) \<or> leaderPeerStatus m now (map_get 0 (lastContact m) (node_ID n)) = StatusAlive) ?vs"
    by (rule filter_cong) (auto simp: leaderVoterRow_def Let_def StatusAlive_def)
  moreover have "length (filter ?P (cv_Peers (leaderView m now)))
      = length (filter ?P (map (leaderVoterRow m now) ?vs @ candidateRows m now))"
    unfolding leaderView_def by (rule mset_eq_length) simp
  ultimately show ?thesis by (simp add: filter_map)
qed

lemma CanMutate_leader_view:
  assumes "wf_members m" "node_ID (self m) \<noteq> []"
  shows "CanMutate (normalize (leaderView m now)) \<longleftrightarrow> leaderSeesLiveMajority m now"
proof -
  have "distinct (map node_ID (mb_Voters (membership m)))" using assms(1) by (simp add: wf_members_def)
  then show ?thesis
    using online_leader_view[OF assms(1), of now] assms(2)
    by (simp add: distinct_remdups_id CanMutate_def normalize_def Let_def leaderView_def leaderSeesLiveMajority_def quorum_def Quorum_def)
qed

lemma blocked_begin:
  assumes "\<not> CanMutate (su_Fleet su)"
  shows "\<exists>e. reconcile_begin uuid k su i expected t = (t, k, Inl e)"
proof -
  have "plan_nodes su d \<noteq> Inr x" for d x using assms by (auto simp: plan_nodes_def split: option.split)
  then have "\<exists>e. plan_rollout uuid k su i expected t = Inl e"
    by (cases "plan_rollout uuid k su i expected t") (auto simp: plan_rollout_def and_then_Inr Let_def split: if_splits option.splits prod.splits)
  then show ?thesis by (auto simp: reconcile_begin_def)
qed

text \<open>
  C7. Core and the election manager agree on who may change deployments: on the view of a leader,
  Core may mutate exactly when the leader sees a live majority of its voters; if it does not, or the
  status could not be read, an intent is refused, nothing is recorded and no node is called.
\<close>

theorem core_gate:
  assumes "wf_members m" "node_ID (self m) \<noteq> []" "role m = RoleLeader"
  shows "(CanMutate (normalize (snapshotView e m)) \<longleftrightarrow> leaderSeesLiveMajority m (env_now e))
    \<and> (poll = Polled (snapshotView e m) \<and> \<not> leaderSeesLiveMajority m (env_now e) \<or> poll = PollFailed err
       \<longrightarrow> (\<exists>x. reconcile_begin uuid k (su\<lparr>su_Fleet := fst (Client_Refresh poll now fleet)\<rparr>) i expected t = (t, k, Inl x)))"
proof -
  have g: "CanMutate (normalize (snapshotView e m)) \<longleftrightarrow> leaderSeesLiveMajority m (env_now e)"
    using CanMutate_leader_view[OF assms(1,2), of "env_now e"] assms(3) by (simp add: snapshotView_def)
  have "\<not> CanMutate (fst (Client_Refresh poll now fleet))"
    if "poll = Polled (snapshotView e m) \<and> \<not> leaderSeesLiveMajority m (env_now e) \<or> poll = PollFailed err"
    using that g by (auto simp: Client_Refresh_def CanMutate_def recordError_def)
  then show ?thesis using g blocked_begin[of "su\<lparr>su_Fleet := fst (Client_Refresh poll now fleet)\<rparr>"] by simp
qed

lemma removing_leading: "role removing = RoleLeader" "node_ID (self removing) \<noteq> []"
  by code_simp+

lemma core_gate_witness:
  "CanMutate (normalize (snapshotView (env_of (71 * second)) removing)) = leaderSeesLiveMajority removing (71 * second)"
  using core_gate[OF removing_wf(1) removing_leading(2,1), of "env_of (71 * second)"] by (simp add: env_of_def)

end
