(* ===== verification/Spec2Isabelle.thy ===== *)
theory Spec2Isabelle
  imports Election_Scenario Election_Votes Election_Sound Election_Liveness
    Watchdog_Sound Warden_Durable Warden_Testclock Cron_Cycle Live_Session Live_Safe Live_Coherence Live_Wedge
    Os_Placement Os_Fencing Os_Component Os_Queue Os_Converge Os_Gate
begin

text \<open>
  This library models the coordination core of the repository and proves what makes it correct.
  Four programs are covered. \<^bold>\<open>Warden\<close> (\<^verbatim>\<open>services/warden\<close>) is a fleet watchdog: one process per
  host, which elects a leader by a Raft-style election, tracks the liveness of its peers, and
  on the leader raises incidents. \<^bold>\<open>pkg/cron\<close> is a durable scheduler: any number of processes
  share a store in which each occurrence of a job is claimed under a lease. \<^bold>\<open>gotth-live\<close>
  (\<^verbatim>\<open>pkg/gotth\<close>) is a server-driven user interface: one session per browser tab holds the state of
  the application, renders what events changed and sends it in numbered frames. \<^bold>\<open>CandaceOS\<close>
  (\<^verbatim>\<open>services/candaceos\<close>, \<^verbatim>\<open>app/candaceos-agent\<close>) deploys applications: the leader places revisions on
  the nodes of the fleet, an operator approves what needs approval, and one agent per node
  converges to what the leader assigned to it, under fences of the leader's term.

  \<^bold>\<open>How the parts interact.\<close> A Warden process reads its configuration (\<open>Warden_Config\<close>), from which
  \<^verbatim>\<open>main.go\<close> (\<open>Warden_Main\<close>) builds a peer discoverer (\<open>Warden_Discovery\<close>), a durable store
  (\<open>Warden_Store\<close>), the election manager (\<open>Election_State\<close>, \<open>Election_View\<close>, \<open>Election_Loop\<close>,
  \<open>Election_Actor\<close>) and the watchdog (\<open>Watchdog\<close>). The manager is an actor: one loop owns its state
  and takes RPCs, results of its own RPCs, timers and rosters one at a time; it saves term, vote
  and membership through the store before it answers, and publishes a view (\<open>Election_View\<close>) that
  the watchdog evaluates. Messages cross the wire by \<open>Warden_Wireconv\<close>. In the scheduler a
  \<open>Service\<close> (\<open>Cron_Service\<close>) projects its jobs to definitions of their schedules (\<open>Cron_Schedule\<close>),
  reconciles them with the store (\<open>Cron_Store\<close>) and in each cycle claims, skips or recovers
  occurrences there; what it starts renews its lease and completes under its token. In gotth-live
  the read pump hands frames of the client (\<open>Live_Protocol\<close>) to the ingress of the session
  (\<open>Live_Actor\<close>), which admits or refuses them and queues them; the loop of the session reduces
  each event to a new state, marks and renders fragments (\<open>Live_Render\<close>), and sends, defers or
  suppresses a patch by its window and limits (\<open>Live_Limits\<close>). In CandaceOS a deployment is resolved to
  nodes by \<open>ResolvePlacement\<close> over the cluster that Warden reports (\<open>Os_Domain\<close>); a tool call of the
  harness waits in the approval queue (\<open>Os_Approvals\<close>); an assignment with the term of the leader goes
  to the agent of its node (\<open>Os_Agent\<close>), which persists the fence before it runs anything. In between,
  \<open>Os_Reconcile\<close> records the intent and one run per node before it calls the agents (\<open>Os_Fleet\<close>).

  \<^bold>\<open>Theories and sources.\<close>
  \<^item> \<open>Warden_Prelude\<close>: times as nanoseconds since Go's zero time, 64-bit saturating and wrapping
    durations, maps as association lists in the order of their keys, quorum arithmetic, shared
    lemma collections. \<open>Go_Time\<close>: the civil calendar and formatting of \<^verbatim>\<open>time\<close>. \<open>Go_Strings\<close>: white
    space functions of \<^verbatim>\<open>strings\<close>. \<open>Go_Chan\<close>: bounded channels with non-blocking sends.
  \<^item> \<open>Warden_Types\<close>: \<^verbatim>\<open>types.go\<close>, \<^verbatim>\<open>wire.go\<close>, \<^verbatim>\<open>interfaces.go\<close>. \<open>Warden_Wireconv\<close>: \<^verbatim>\<open>wireconv/wireconv.go\<close>
    over the messages of \<^verbatim>\<open>warden.proto\<close>. \<open>Warden_Store\<close>: \<^verbatim>\<open>store/store.go\<close>, each file-system call
    succeeding or failing by a script.
  \<^item> \<open>Election_State\<close>: the record \<open>Manager\<close> with the fields of the Go struct, configuration and
    construction (\<^verbatim>\<open>election/config.go\<close>), helpers of \<^verbatim>\<open>manager.go\<close>. \<open>Election_View\<close>: \<^verbatim>\<open>view.go\<close>.
    \<open>Election_Loop\<close>: one definition per handler of \<^verbatim>\<open>election.go\<close>, \<^verbatim>\<open>heartbeat.go\<close> and
    \<^verbatim>\<open>membership.go\<close>. \<open>Election_Actor\<close>: \<open>Run\<close>, its turns and the exported entry points.
  \<^item> \<open>Watchdog\<close>: \<^verbatim>\<open>watchdog/watchdog.go\<close>. \<open>Warden_Testclock\<close>: \<^verbatim>\<open>testclock/clock.go\<close>.
    \<open>Warden_Discovery\<close>: \<^verbatim>\<open>discovery/\<close>. \<open>Warden_Config\<close>: \<^verbatim>\<open>config/\<close>. \<open>Warden_Main\<close>: the decisions of
    \<^verbatim>\<open>app/warden/cmd/main.go\<close>.
  \<^item> \<open>Cron_Schedule\<close>: \<^verbatim>\<open>pkg/cron/schedule.go\<close>. \<open>Cron_Store\<close>: \<^verbatim>\<open>store.go\<close> with the policies and names
    of \<^verbatim>\<open>options.go\<close>. \<open>Cron_Service\<close>: \<^verbatim>\<open>service.go\<close>, \<^verbatim>\<open>options.go\<close>, \<^verbatim>\<open>status.go\<close>.
  \<^item> \<open>Live_Protocol\<close>: \<^verbatim>\<open>pkg/gotth/internal/protocol\<close> and the messages of \<^verbatim>\<open>gotthlive.proto\<close>: frames,
    checks, parsing. \<open>Live_Render\<close>: \<^verbatim>\<open>internal/render\<close>: registry, dirty bitset, fragments and
    collections, passes, commit and discard. \<open>Live_Limits\<close>: \<^verbatim>\<open>limits.go\<close> and \<^verbatim>\<open>window.go\<close>.
    \<open>Live_Actor\<close>: \<^verbatim>\<open>actor.go\<close>, \<^verbatim>\<open>ingress.go\<close>, \<^verbatim>\<open>resync.go\<close>, \<^verbatim>\<open>effects.go\<close>, \<^verbatim>\<open>mailbox.go\<close> of
    \<^verbatim>\<open>internal/session\<close>; \<open>live_run\<close> is a session under any sequence of messages, acknowledgements,
    ticks, frames and effects.
  \<^item> \<open>Os_Text\<close>: Unicode white space, identifiers, labels, slash-separated paths and the patterns of the
    generated validators of \<^verbatim>\<open>proto/candace/candaceos/v1\<close>. \<open>Os_Domain\<close>: \<^verbatim>\<open>services/candaceos/*.go\<close>.
    \<open>Os_Agent\<close>: \<^verbatim>\<open>app/candaceos-agent/internal/agent\<close>: snapshots and their stores, the Compose runner,
    the fenced reconciler. \<open>Os_Component\<close>: \<^verbatim>\<open>component/component.go\<close>. \<open>Os_Approvals\<close>:
    \<^verbatim>\<open>operator/approvals.go\<close>, one step for each region under its mutex. \<open>Os_Fleet\<close>: \<^verbatim>\<open>fleet/\<close>,
    the cached view of one Warden node, and \<^verbatim>\<open>agentclient/client.go\<close>. \<open>Os_Reconcile\<close>:
    \<^verbatim>\<open>reconcile/\<close> over the tables of \<^verbatim>\<open>store/migrations\<close> and the statements of \<^verbatim>\<open>store/queries.sql\<close>;
    \<open>core_run\<close> is Core under any sequence of intents, crashes and restarts.

  \<^bold>\<open>What the lemmas show.\<close>
  \<^item> Election safety. \<open>Election_Spec\<close> states the election as an abstract ballot box and as a locale
    of quorum systems; \<open>Election_Frame\<close> says what no handler changes; \<open>Election_Node\<close> proves that one
    manager refines an abstract voter; \<open>Election_Cluster\<close> composes managers, stores and an
    adversarial network (loss, duplication, reordering, crash and restart between a save and
    anything else) and lifts the refinement to it. Below, \<open>election_safety\<close> and
    \<open>votes_refine_box\<close> are its results, and \<open>discovery_split_brain\<close> shows by a concrete run of
    \<open>Election_Scenario\<close> that the same fails with dynamic membership.
  \<^item> \<open>Election_Votes\<close>, \<open>Election_Membership\<close>, \<open>Election_Liveness\<close>, \<open>Election_Sound\<close>: single-manager
    properties (votes survive every failure, guarded membership changes, exact classification of
    peers, no panic, what subscribers see).
  \<^item> \<open>Watchdog_Sound\<close>: the ring refines an unbounded log, episodes alternate, deliveries are unique
    and retried, and the watchdog's gate agrees with the election's own live majority.
  \<^item> \<open>Warden_Durable\<close>: atomic saves, restarts, wire round trips, timeouts in range.
  \<^item> \<open>Cron_Times\<close>: \<open>Next\<close> is the first match, exists, keeps the cadence of intervals, and
    definitions read back. \<open>Cron_Lease\<close>: the store refines a table of leases; one live lease per
    job, final outcomes, fencing of stale owners. \<open>Cron_Cursor\<close>: the cursor loses and invents no
    occurrence. \<open>Cron_Cycle\<close>: what a cycle leaves done, through the locale \<open>occurrence_log\<close> of
    what the scheduler relies on, interpreted on the store. \<open>Cron_Demo\<close>, \<open>Election_Demo\<close>: concrete
    states at which hypotheses hold.
  \<^item> \<open>Live_Wire\<close>, \<open>Live_Sequence\<close>, \<open>Live_Session\<close>: every turn refines an abstract wire machine, on which
    numbering, ranges of snapshots and the window are proved by rule induction. \<open>Live_Safe\<close>: what
    is queued was admitted, queues are bounded, frames are valid. \<open>Live_Dirty\<close>: the bitset provides
    the locale \<open>position_set\<close>; \<open>Live_Page\<close> and \<open>Live_Coherence\<close>: on it, the page of the client is the
    state of the session. \<open>Live_Provenance\<close>: no deferred event is lost within the ceiling of the
    schema. \<open>Live_Wedge\<close>: beyond it the session can send no more, which is a defect of the code.
    \<open>Live_Demo\<close>: a concrete session.
  \<^item> \<open>Os_Placement\<close>: who is placed where, independently of the order of the nodes; receipt histories
    restore exactly. \<open>Os_Fencing\<close>: the locale \<open>agent_store\<close> of what the reconciler relies on,
    interpreted on the memory store and, given a codec, on the file store; commands run in the order
    of their fences, and only approved ones. \<open>Os_Component\<close>: an order of the components or a genuine
    cycle. \<open>Os_Queue\<close>: over every interleaving an approval resolves at most once and never late.
    \<open>Os_Converge\<close>: what the tables say of where a deployment may be running covers where it is, a
    rollout that succeeds ends where its placement says, and two rollouts at once lose a node.
    \<open>Os_Gate\<close>: Core's gate on the view of a Warden leader is the leader's own test of a live majority.

  \<^bold>\<open>Bounds and conventions.\<close> Terms, versions and attempts are 64- or 32-bit
  words; election safety is claimed below the last term, and says so. Durations are integers
  in Go's 64-bit range where the code saturates or wraps (\<open>time_Sub\<close>, \<open>wrap_int64\<close>); hours, minutes
  and limits of schedules are unbounded integers, since the code checks their range before use.
  The only loops that are not structural have measures: the walk of \<open>Next\<close> (minutes up to the
  deadline), the loop of \<open>Advance\<close> (fuel that any finite interference cannot exhaust, proved), and
  printing. A panic of the code (nil map, closed channel, index) is a flag or \<open>None\<close>. A mutex is the
  atomicity of an operation; goroutines are steps whose order is arbitrary. White space is that
  of ASCII, in CandaceOS that of Unicode. A \<open>time.Location\<close> is a name with its offset at every instant, a lookup of civil
  midnight is Go's two-guess algorithm over it.

  \<^bold>\<open>Parameters.\<close> Code outside the repository enters as an argument: protojson and \<^verbatim>\<open>json.Compact\<close>
  (locale \<open>state_codec\<close>: what was marshalled unmarshals), timestamp validity, YAML, regular expressions
  and duration parsing, the JSON of Tailscale, random numbers, the robfig parser, time-zone lookup,
  SHA-256, clocks, the size of an encoded frame, the success of each write, the hash of a fragment,
  the rounding of \<open>float64\<close>, and the hooks of an application. Each law a theorem needs is a hypothesis of it, with a witness.

  \<^bold>\<open>Not modelled.\<close> Logging, metrics and tracing; gRPC, HTTP and template rendering; SMTP; SQL
  adapters and generated queries; protobuf bindings; the model-driven harnesses; the
  handlers, upgrade and transport of gotth-live, the widget compiler and the tools; the Rust server \<^verbatim>\<open>xetcas\<close>; CSF and the
  Copilot adapter, which are HTTP surfaces over SQL. The manifest lists each with its reason.
\<close>

section \<open>Election safety\<close>

text \<open>
  C1. In a cluster with static membership no term ever has two leaders: over every
  interleaving of turns, deliveries, losses, duplicates, crashes and restarts, with
  any file-system call of any store failing, as long as no manager reaches the last
  64-bit term. The ballot box holds every leader there ever was, so this is about
  leaders at different times too.
\<close>

theorem election_safety:
  assumes "state_codec pjMarshal jsonCompact pjUnmarshal"
    and "static_conf peers conf"
    and "creach (FileStore_Save pjMarshal jsonCompact) (FileStore_Load pjUnmarshal)
           (init_cluster conf stores) cl"
    and "\<not> cl_saturated cl"
  shows "one_leader_per_term (cl_box cl) \<and>
    (\<forall>n t. leads cl n t \<longrightarrow> (t, n) \<in> set (vt_leaders (cl_box cl)))"
  using state_codec.files_safe [OF assms(1,3,2,4)] leads_recorded [OF assms(3)] by blast

lemma plain_conf_static: "static_conf founders (plain_conf False)"
  by (simp add: static_conf_def conf_of_def bare_def)

lemma static_end_facts:
  "vt_leaders (cl_box static_end) = [(2, ''b''), (1, ''a''), (1, ''a'')] \<and> \<not> cl_saturated static_end \<and>
   leads static_end ''b'' 2"
  by code_simp

lemma static_end_reach: "creach msave mload (fresh_files False) static_end"
  unfolding static_end_def by (rule play_creach)

theorem election_safety_witness:
  "one_leader_per_term (cl_box static_end) \<and>
   vt_leaders (cl_box static_end) = [(2, ''b''), (1, ''a''), (1, ''a'')] \<and>
   (2, ''b'') \<in> set (vt_leaders (cl_box static_end))"
  using election_safety [OF message_codec.state_codec_axioms plain_conf_static
      static_end_reach [unfolded fresh_files_def]] static_end_facts
  by blast

text \<open>
  C19. The votes of a static cluster refine a ballot box: whatever the interleaving, the
  losses and the failures, every reachable state of the cluster is reached by abstract
  steps that cast a vote or record a leader that a majority of the members elected, and so
  no node ever votes for two candidates in one term.
\<close>

theorem votes_refine_box:
  assumes "state_codec pjMarshal jsonCompact pjUnmarshal"
    and "static_conf peers conf"
    and "creach (FileStore_Save pjMarshal jsonCompact) (FileStore_Load pjUnmarshal)
           (init_cluster conf stores) cl"
    and "\<not> cl_saturated cl"
  shows "(vote_step (majority_of peers))\<^sup>*\<^sup>* empty_box (cl_box cl) \<and> one_vote_per_term (cl_box cl)"
  using state_codec.files_refine_box [OF assms(1,3,2,4)] state_codec.files_one_vote [OF assms(1,3,2,4)] by blast

theorem votes_refine_box_witness:
  "(vote_step (majority_of founders))\<^sup>*\<^sup>* empty_box (cl_box static_end)"
  using votes_refine_box [OF message_codec.state_codec_axioms plain_conf_static
      static_end_reach [unfolded fresh_files_def]] static_end_facts
  by blast

section \<open>Dynamic membership\<close>

text \<open>
  C2. With dynamic membership the same is not true of the code: one term can have two
  leaders at once. Each admission is by a single node from a settled configuration of
  its leader, but a leader elected with a configuration that another leader has
  already moved on from starts its own sequence, a vote is granted without comparing
  configurations, and the majorities of the two sequences need not meet.
\<close>

theorem discovery_split_brain:
  "\<exists>cl n n'. creach msave mload (fresh_files True) cl \<and> n \<noteq> n' \<and> leads cl n 3 \<and> leads cl n' 3"
proof -
  have "leads split_end n 3" if "n \<in> set (leaders_at split_end 3)" for n
    using that unfolding leaders_at_def by simp
  then have "leads split_end ''a'' 3" "leads split_end ''b'' 3"
    by (simp_all add: split_end_leaders)
  moreover have "creach msave mload (fresh_files True) split_end"
    unfolding split_end_def by (rule play_creach)
  ultimately show ?thesis by (intro exI [of _ split_end] exI [of _ "''a''"] exI [of _ "''b''"]) simp
qed

end
